(* ===== verification/GoPrelude.thy ===== *)
theory GoPrelude
  imports Main "HOL-Library.Word" "HOL-Library.AList"
begin

text \<open>
  Vocabulary shared by every component: Go errors and fallible results, the parts of the
  \<^verbatim>\<open>strings\<close> and \<^verbatim>\<open>strconv\<close> packages the sources use, time values, 64-bit integers, and
  finite maps.

  \<^item> A Go error is a value of \<open>go_error\<close>: a format string with its operands, or an error
    wrapped with a message. A function \<^verbatim>\<open>func f(...) (T, error)\<close> returns \<open>T res\<close>, with
    the error on the left; a function that also changes its receiver returns the new state
    beside the result, so that what a failing call leaves behind is visible.
  \<^item> A Go \<^verbatim>\<open>string\<close> is a list of bytes, an Isabelle \<open>string\<close>.
  \<^item> A Go map is a finite association list with distinct keys, read with \<open>map_of\<close> and
    written with \<open>AList.update\<close> and \<open>AList.delete\<close>. Where the code ranges over a map the
    iteration order is an explicit argument or the theorem holds for every order.
  \<^item> \<^verbatim>\<open>time.Time\<close> and \<^verbatim>\<open>time.Duration\<close> are nanoseconds; \<open>time_sub\<close> saturates as
    \<^verbatim>\<open>Time.Sub\<close> does.
\<close>

named_theorems go_map_simps "reading finite maps after an update or a deletion"
named_theorems go_string_simps "evaluation of the string functions"

section \<open>Errors\<close>

datatype go_error = Errorf string "string list" | Wrap go_error string

type_synonym 'a res = "go_error + 'a"

fun is_ok :: "'a res \<Rightarrow> bool" where
  "is_ok (Inr _) = True"
| "is_ok (Inl _) = False"

lemma is_ok_iff: "is_ok r \<longleftrightarrow> (\<exists>x. r = Inr x)"
  by (cases r) auto

section \<open>Strings\<close>

text \<open>\<^verbatim>\<open>strings.Split\<close> with a one-byte separator, and \<^verbatim>\<open>strings.Join\<close>.\<close>

fun split_on :: "char \<Rightarrow> string \<Rightarrow> string list" where
  "split_on c [] = [[]]"
| "split_on c (x # xs) =
     (if x = c then [] # split_on c xs
      else (case split_on c xs of [] \<Rightarrow> [[x]] | y # ys \<Rightarrow> (x # y) # ys))"

fun join_with :: "string \<Rightarrow> string list \<Rightarrow> string" where
  "join_with sep [] = []"
| "join_with sep [x] = x"
| "join_with sep (x # y # ys) = x @ sep @ join_with sep (y # ys)"

definition has_prefix :: "string \<Rightarrow> string \<Rightarrow> bool" where
  "has_prefix s p \<longleftrightarrow> take (length p) s = p"

definition trim_prefix :: "string \<Rightarrow> string \<Rightarrow> string" where
  "trim_prefix s p = (if has_prefix s p then drop (length p) s else s)"

lemma has_prefix_append [simp]: "has_prefix (p @ s) p"
  by (simp add: has_prefix_def)

lemma trim_prefix_append [simp]: "trim_prefix (p @ s) p = s"
  by (simp add: trim_prefix_def)

lemma split_on_not_Nil [simp]: "split_on c xs \<noteq> []"
  by (induction xs) (auto split: list.splits)

lemma split_on_no_sep: "c \<notin> set xs \<Longrightarrow> split_on c xs = [xs]"
  by (induction xs) auto

lemma split_on_append:
  "c \<notin> set xs \<Longrightarrow> split_on c (xs @ c # ys) = xs # split_on c ys"
  by (induction xs) auto

lemma split_join:
  "xss \<noteq> [] \<Longrightarrow> (\<forall>xs \<in> set xss. c \<notin> set xs) \<Longrightarrow> split_on c (join_with [c] xss) = xss"
proof (induction "[c]" xss rule: join_with.induct)
  case (2 x)
  then show ?case by (simp add: split_on_no_sep)
next
  case (3 x y ys)
  then show ?case by (simp add: split_on_append)
qed simp

section \<open>Decimal numbers\<close>

text \<open>
  \<open>nat_to_dec\<close> prints a natural number as \<^verbatim>\<open>strconv.Itoa\<close> does; \<open>itoa\<close> adds the sign.
  \<open>atoi\<close> is \<^verbatim>\<open>strconv.Atoi\<close> on a 64-bit platform, \<open>parse_int\<close> is \<^verbatim>\<open>strconv.ParseInt\<close> in
  base 10 with a bit size: an optional sign, at least one digit, nothing else, and a value in
  range.
\<close>

definition digit_char :: "nat \<Rightarrow> char" where
  "digit_char d = ''0123456789'' ! d"

definition is_digit :: "char \<Rightarrow> bool" where
  "is_digit c \<longleftrightarrow> 48 \<le> (of_char c :: nat) \<and> (of_char c :: nat) \<le> 57"

definition digit_val :: "char \<Rightarrow> nat" where
  "digit_val c = of_char c - 48"

fun nat_to_dec :: "nat \<Rightarrow> string" where
  "nat_to_dec n =
     (if n < 10 then [digit_char n] else nat_to_dec (n div 10) @ [digit_char (n mod 10)])"

declare nat_to_dec.simps [simp del]

definition itoa :: "int \<Rightarrow> string" where
  "itoa i = (if i < 0 then CHR ''-'' # nat_to_dec (nat (- i)) else nat_to_dec (nat i))"

fun dec_val :: "nat \<Rightarrow> string \<Rightarrow> nat option" where
  "dec_val acc [] = Some acc"
| "dec_val acc (c # cs) =
     (if is_digit c then dec_val (10 * acc + digit_val c) cs else None)"

definition dec_nat :: "string \<Rightarrow> nat option" where
  "dec_nat s = (if s = [] then None else dec_val 0 s)"

definition dec_int :: "string \<Rightarrow> int option" where
  "dec_int s =
     (case s of
        [] \<Rightarrow> None
      | c # cs \<Rightarrow>
          if c = CHR ''-'' then map_option (\<lambda>n. - int n) (dec_nat cs)
          else if c = CHR ''+'' then map_option int (dec_nat cs)
          else map_option int (dec_nat s))"

definition parse_int :: "string \<Rightarrow> nat \<Rightarrow> int res" where
  "parse_int s bits =
     (case dec_int s of
        None \<Rightarrow> Inl (Errorf ''invalid syntax'' [s])
      | Some i \<Rightarrow>
          if - (2 ^ (bits - 1)) \<le> i \<and> i < 2 ^ (bits - 1) then Inr i
          else Inl (Errorf ''value out of range'' [s]))"

definition atoi :: "string \<Rightarrow> int res" where
  "atoi s = parse_int s 64"

lemma digit_char_ok: "d < 10 \<Longrightarrow> is_digit (digit_char d) \<and> digit_val (digit_char d) = d"
  by (auto simp: digit_char_def is_digit_def digit_val_def less_Suc_eq numeral_eq_Suc)

lemma dec_val_append:
  "dec_val acc (xs @ ys) = Option.bind (dec_val acc xs) (\<lambda>a. dec_val a ys)"
  by (induction xs arbitrary: acc) auto

lemma dec_val_nat_to_dec: "dec_val 0 (nat_to_dec n) = Some n"
proof (induction n rule: nat_to_dec.induct)
  case (1 n)
  show ?case
  proof (cases "n < 10")
    case True
    then show ?thesis by (subst nat_to_dec.simps) (simp add: digit_char_ok)
  next
    case False
    have "digit_val (digit_char (n mod 10)) = n mod 10" "is_digit (digit_char (n mod 10))"
      using digit_char_ok [of "n mod 10"] by simp_all
    with False 1 show ?thesis
      by (subst nat_to_dec.simps) (simp add: dec_val_append)
  qed
qed

lemma nat_to_dec_not_Nil [simp]: "nat_to_dec n \<noteq> []"
  by (subst nat_to_dec.simps) simp

lemma nat_to_dec_digits: "c \<in> set (nat_to_dec n) \<Longrightarrow> is_digit c"
proof (induction n rule: nat_to_dec.induct)
  case (1 n)
  then show ?case
    by (subst (asm) nat_to_dec.simps) (auto simp: digit_char_ok split: if_splits)
qed

lemma nat_to_dec_no_sep:
  "CHR '','' \<notin> set (nat_to_dec n)" "CHR ''-'' \<notin> set (nat_to_dec n)"
  "CHR ''+'' \<notin> set (nat_to_dec n)"
  using nat_to_dec_digits [of _ n] by (fastforce simp: is_digit_def)+

lemma dec_int_nat_to_dec: "dec_int (nat_to_dec n) = Some (int n)"
proof (cases "nat_to_dec n")
  case (Cons c cs)
  then have "c \<noteq> CHR ''-''" "c \<noteq> CHR ''+''"
    using nat_to_dec_no_sep [of n] by auto
  then show ?thesis
    using Cons dec_val_nat_to_dec [of n] by (simp add: dec_int_def dec_nat_def)
qed simp

lemma dec_int_itoa: "dec_int (itoa i) = Some i"
  by (auto simp: itoa_def dec_int_nat_to_dec dec_nat_def dec_val_nat_to_dec)
    (simp add: dec_int_def dec_nat_def dec_val_nat_to_dec)

lemma parse_int_itoa:
  "- (2 ^ (bits - 1)) \<le> i \<Longrightarrow> i < 2 ^ (bits - 1) \<Longrightarrow> parse_int (itoa i) bits = Inr i"
  by (simp add: parse_int_def dec_int_itoa)

lemma atoi_itoa: "- (2 ^ 63) \<le> i \<Longrightarrow> i < 2 ^ 63 \<Longrightarrow> atoi (itoa i) = Inr i"
  unfolding atoi_def by (rule parse_int_itoa) simp_all

lemma itoa_not_Nil [simp]: "itoa i \<noteq> []"
  by (simp add: itoa_def)

lemma itoa_inj: "itoa i = itoa j \<longleftrightarrow> i = j"
  by (metis dec_int_itoa option.inject)

lemma itoa_no_comma: "CHR '','' \<notin> set (itoa i)"
  by (simp add: itoa_def nat_to_dec_no_sep)

lemma itoa_nonneg_no_sign: "0 \<le> i \<Longrightarrow> CHR ''-'' \<notin> set (itoa i)"
  by (simp add: itoa_def nat_to_dec_no_sep)

section \<open>Time\<close>

type_synonym go_time = int
type_synonym duration = int

definition max_duration :: duration where "max_duration = 2 ^ 63 - 1"
definition min_duration :: duration where "min_duration = - (2 ^ 63)"

definition time_sub :: "go_time \<Rightarrow> go_time \<Rightarrow> duration" where
  "time_sub t u = max min_duration (min max_duration (t - u))"

lemma time_sub_small:
  "min_duration \<le> t - u \<Longrightarrow> t - u \<le> max_duration \<Longrightarrow> time_sub t u = t - u"
  by (simp add: time_sub_def)

lemma time_sub_mono: "t \<le> t' \<Longrightarrow> time_sub t u \<le> time_sub t' u"
  unfolding time_sub_def by linarith

lemma time_sub_nonneg: "u \<le> t \<Longrightarrow> 0 \<le> time_sub t u"
  by (simp add: time_sub_def min_duration_def max_duration_def)

abbreviation seconds :: "int \<Rightarrow> duration" where "seconds n \<equiv> n * 1000000000"
abbreviation minutes :: "int \<Rightarrow> duration" where "minutes n \<equiv> seconds (60 * n)"
abbreviation hours :: "int \<Rightarrow> duration" where "hours n \<equiv> minutes (60 * n)"

section \<open>64-bit integers\<close>

definition wrap64 :: "int \<Rightarrow> int" where
  "wrap64 i = (i + 2 ^ 63) mod 2 ^ 64 - 2 ^ 63"

lemma wrap64_id: "- (2 ^ 63) \<le> i \<Longrightarrow> i < 2 ^ 63 \<Longrightarrow> wrap64 i = i"
  by (simp add: wrap64_def)

lemma wrap64_range: "- (2 ^ 63) \<le> wrap64 i \<and> wrap64 i < 2 ^ 63"
  by (simp add: wrap64_def)

section \<open>Finite maps\<close>

type_synonym ('k, 'v) gomap = "('k \<times> 'v) list"

definition keys :: "('k, 'v) gomap \<Rightarrow> 'k set" where
  "keys m = fst ` set m"

definition put :: "'k \<Rightarrow> 'v \<Rightarrow> ('k, 'v) gomap \<Rightarrow> ('k, 'v) gomap" where
  "put k v m = AList.update k v m"

definition del :: "'k \<Rightarrow> ('k, 'v) gomap \<Rightarrow> ('k, 'v) gomap" where
  "del k m = AList.delete k m"

lemma finite_keys [simp]: "finite (keys m)"
  by (simp add: keys_def)

lemma keys_Nil [simp, go_map_simps]: "keys [] = {}"
  by (simp add: keys_def)

lemma in_keys_iff: "k \<in> keys m \<longleftrightarrow> (\<exists>v. map_of m k = Some v)"
  by (metis domD domI dom_map_of_conv_image_fst keys_def)

lemma not_in_keys_iff: "k \<notin> keys m \<longleftrightarrow> map_of m k = None"
  by (simp add: in_keys_iff)

lemma map_of_put [simp, go_map_simps]:
  "map_of (put k v m) k' = (if k = k' then Some v else map_of m k')"
  by (simp add: put_def update_conv)

lemma map_of_del [simp, go_map_simps]:
  "map_of (del k m) k' = (if k = k' then None else map_of m k')"
  by (simp add: del_def delete_conv)

lemma keys_put [simp, go_map_simps]: "keys (put k v m) = insert k (keys m)"
  by (auto simp: in_keys_iff split: if_splits)

lemma keys_del [simp, go_map_simps]: "keys (del k m) = keys m - {k}"
  by (auto simp: in_keys_iff split: if_splits)

lemma distinct_put [simp]: "distinct (map fst m) \<Longrightarrow> distinct (map fst (put k v m))"
  by (simp add: put_def distinct_update)

lemma distinct_del [simp]: "distinct (map fst m) \<Longrightarrow> distinct (map fst (del k m))"
  by (simp add: del_def distinct_delete)

lemma put_Nil [simp]: "put k v [] = [(k, v)]"
  by (simp add: put_def)

lemma put_Cons [simp]:
  "put k v ((k', v') # m) = (if k' = k then (k, v) # m else (k', v') # put k v m)"
  by (simp add: put_def)

lemma del_Nil [simp]: "del k [] = []"
  by (simp add: del_def)

lemma del_Cons [simp]:
  "del k ((k', v') # m) = (if k' = k then del k m else (k', v') # del k m)"
  by (auto simp: del_def AList.delete_eq)

lemma length_distinct_keys: "distinct (map fst m) \<Longrightarrow> length m = card (keys m)"
  by (metis distinct_card keys_def length_map set_map)

end
