(* ===== verification/Dag.thy ===== *)
theory Dag
  imports GoPrelude
begin

text \<open>
  The package lock and the dependency graph over it: \<^verbatim>\<open>apis/pkg/v1beta1/lock.go\<close> and
  \<^verbatim>\<open>internal/dag\<close> of Crossplane (\<^verbatim>\<open>dag.go\<close>, \<^verbatim>\<open>upgrading_dag.go\<close>, \<^verbatim>\<open>pkg.go\<close>).

  Nodes are pointers, and \<^verbatim>\<open>AddNeighbors\<close> writes the parent constraints of the node it is
  given while the same pointer may sit in the graph, so the nodes live in an explicit store:
  \<open>heap\<close> is the list of allocated nodes and a reference is an index into it. A fresh node
  that nobody else can hold (the result of \<^verbatim>\<open>Neighbors\<close> where only its identifier is read)
  is represented by its value.
\<close>

section \<open>Lock packages and dependencies\<close>

datatype package_type = ConfigurationPackageType | ProviderPackageType | FunctionPackageType

record dependency =
  dep_Package :: string
  dep_APIVersion :: "string option"
  dep_Kind :: "string option"
  dep_Type :: "package_type option"
  dep_Constraints :: string
  dep_ParentConstraints :: "string list"

record lock_package =
  lp_Name :: string
  lp_APIVersion :: "string option"
  lp_Kind :: "string option"
  lp_Type :: "package_type option"
  lp_Source :: string
  lp_Version :: string
  lp_Dependencies :: "dependency list"
  lp_ParentConstraints :: "string list"

definition lp_Identifier :: "lock_package \<Rightarrow> string" where
  "lp_Identifier l = lp_Source l"

definition lp_GetConstraints :: "lock_package \<Rightarrow> string" where
  "lp_GetConstraints l = lp_Version l"

definition lp_GetParentConstraints :: "lock_package \<Rightarrow> string list" where
  "lp_GetParentConstraints l = lp_ParentConstraints l"

definition lp_AddParentConstraints :: "lock_package \<Rightarrow> string list \<Rightarrow> lock_package" where
  "lp_AddParentConstraints l pc = l\<lparr>lp_ParentConstraints := lp_ParentConstraints l @ pc\<rparr>"

definition dep_Identifier :: "dependency \<Rightarrow> string" where
  "dep_Identifier d = dep_Package d"

definition dep_GetConstraints :: "dependency \<Rightarrow> string" where
  "dep_GetConstraints d = dep_Constraints d"

definition dep_GetParentConstraints :: "dependency \<Rightarrow> string list" where
  "dep_GetParentConstraints d = dep_ParentConstraints d"

definition dep_AddParentConstraints :: "dependency \<Rightarrow> string list \<Rightarrow> dependency" where
  "dep_AddParentConstraints d pc = d\<lparr>dep_ParentConstraints := dep_ParentConstraints d @ pc\<rparr>"

section \<open>Nodes\<close>

datatype node = DependencyNode dependency | PackageNode lock_package

type_synonym ref = nat

fun Identifier :: "node \<Rightarrow> string" where
  "Identifier (DependencyNode d) = dep_Identifier d"
| "Identifier (PackageNode l) = lp_Identifier l"

fun GetConstraints :: "node \<Rightarrow> string" where
  "GetConstraints (DependencyNode d) = dep_GetConstraints d"
| "GetConstraints (PackageNode l) = lp_GetConstraints l"

fun GetParentConstraints :: "node \<Rightarrow> string list" where
  "GetParentConstraints (DependencyNode d) = dep_GetParentConstraints d"
| "GetParentConstraints (PackageNode l) = lp_GetParentConstraints l"

fun AddParentConstraints :: "node \<Rightarrow> string list \<Rightarrow> node" where
  "AddParentConstraints (DependencyNode d) pc = DependencyNode (dep_AddParentConstraints d pc)"
| "AddParentConstraints (PackageNode l) pc = PackageNode (lp_AddParentConstraints l pc)"

fun Neighbors :: "node \<Rightarrow> node list" where
  "Neighbors (DependencyNode d) = []"
| "Neighbors (PackageNode l) = map DependencyNode (lp_Dependencies l)"

record map_dag =
  heap :: "node list"
  nodes :: "(string, ref) gomap"

definition NewMapDag :: "node list \<Rightarrow> map_dag" where
  "NewMapDag h = \<lparr>heap = h, nodes = []\<rparr>"

text \<open>The node behind a reference, a write through a reference, and allocation.\<close>

definition deref :: "map_dag \<Rightarrow> ref \<Rightarrow> node" where
  "deref d r = heap d ! r"

definition ident :: "map_dag \<Rightarrow> ref \<Rightarrow> string" where
  "ident d r = Identifier (deref d r)"

definition add_parents :: "map_dag \<Rightarrow> ref \<Rightarrow> string list \<Rightarrow> map_dag" where
  "add_parents d r pc = d\<lparr>heap := (heap d)[r := AddParentConstraints (deref d r) pc]\<rparr>"

definition alloc :: "map_dag \<Rightarrow> node list \<Rightarrow> ref list \<times> map_dag" where
  "alloc d ns =
     ([length (heap d)..<length (heap d) + length ns], d\<lparr>heap := heap d @ ns\<rparr>)"

definition PackagesToNodes :: "map_dag \<Rightarrow> lock_package list \<Rightarrow> ref list \<times> map_dag" where
  "PackagesToNodes d pkgs = alloc d (map PackageNode pkgs)"

fun first_constraint :: "dependency list \<Rightarrow> string \<Rightarrow> string list option" where
  "first_constraint [] i = None"
| "first_constraint (dep # deps) i =
     (if dep_Identifier dep = i then Some [dep_Constraints dep] else first_constraint deps i)"

text \<open>
  \<^verbatim>\<open>AddNeighbors\<close> of both node types: the receiver is the node behind \<open>r\<close>, the arguments
  are the nodes behind \<open>ns\<close>. The returned error is always nil.
\<close>

fun AddNeighbors :: "map_dag \<Rightarrow> ref \<Rightarrow> ref list \<Rightarrow> map_dag" where
  "AddNeighbors d r [] = d"
| "AddNeighbors d r (n # ns) =
     AddNeighbors
       (case deref d r of
          DependencyNode dep \<Rightarrow> add_parents d n [dep_Constraints dep]
        | PackageNode l \<Rightarrow>
            (case first_constraint (lp_Dependencies l) (ident d n) of
               None \<Rightarrow> d
             | Some pc \<Rightarrow> add_parents d n pc)) r ns"

section \<open>MapDag\<close>

definition AddNode :: "map_dag \<Rightarrow> ref \<Rightarrow> unit res \<times> map_dag" where
  "AddNode d n =
     (case map_of (nodes d) (ident d n) of
        Some _ \<Rightarrow> (Inl (Errorf ''node %s already exists'' [ident d n]), d)
      | None \<Rightarrow> (Inr (), d\<lparr>nodes := put (ident d n) n (nodes d)\<rparr>))"

fun AddNodes :: "map_dag \<Rightarrow> ref list \<Rightarrow> unit res \<times> map_dag" where
  "AddNodes d [] = (Inr (), d)"
| "AddNodes d (n # ns) =
     (case AddNode d n of
        (Inl e, d') \<Rightarrow> (Inl e, d')
      | (Inr _, d') \<Rightarrow> AddNodes d' ns)"

fun AddOrUpdateNodes :: "map_dag \<Rightarrow> ref list \<Rightarrow> map_dag" where
  "AddOrUpdateNodes d [] = d"
| "AddOrUpdateNodes d (n # ns) =
     AddOrUpdateNodes (d\<lparr>nodes := put (ident d n) n (nodes d)\<rparr>) ns"

definition NodeExists :: "map_dag \<Rightarrow> string \<Rightarrow> bool" where
  "NodeExists d i = (map_of (nodes d) i \<noteq> None)"

definition NodeNeighbors :: "map_dag \<Rightarrow> string \<Rightarrow> node list res" where
  "NodeNeighbors d i =
     (case map_of (nodes d) i of
        None \<Rightarrow> Inl (Errorf ''node %s does not exist'' [i])
      | Some r \<Rightarrow> Inr (Neighbors (deref d r)))"

definition GetNode :: "map_dag \<Rightarrow> string \<Rightarrow> ref res" where
  "GetNode d i =
     (case map_of (nodes d) i of
        None \<Rightarrow> Inl (Errorf ''node %s does not exist'' [i])
      | Some r \<Rightarrow> Inr r)"

text \<open>
  \<^verbatim>\<open>AddEdge\<close> returns whether the target was implied, together with an error. The message of
  the first branch prints the target where the source is meant.
\<close>

definition AddEdge :: "map_dag \<Rightarrow> string \<Rightarrow> ref \<Rightarrow> (bool \<times> go_error option) \<times> map_dag" where
  "AddEdge d from to =
     (case map_of (nodes d) from of
        None \<Rightarrow> ((False, Some (Errorf ''node %s does not exist'' [ident d to])), d)
      | Some f \<Rightarrow>
          (case map_of (nodes d) (ident d to) of
             Some _ \<Rightarrow> ((False, None), AddNeighbors d f [to])
           | None \<Rightarrow>
               (case AddNode d to of
                  (Inl e, d') \<Rightarrow> ((True, Some e), d')
                | (Inr _, d') \<Rightarrow> ((True, None), AddNeighbors d' f [to]))))"

text \<open>
  \<^verbatim>\<open>AddEdges\<close> and \<^verbatim>\<open>Init\<close> read the same in \<^verbatim>\<open>dag.go\<close> and in \<^verbatim>\<open>upgrading_dag.go\<close>; each calls
  the \<^verbatim>\<open>AddEdge\<close> of its own receiver, here the argument \<open>ae\<close>. The list of edges is the
  iteration order of the Go map.
\<close>

type_synonym add_edge = "map_dag \<Rightarrow> string \<Rightarrow> ref \<Rightarrow> (bool \<times> go_error option) \<times> map_dag"

fun AddEdgesFrom ::
  "add_edge \<Rightarrow> map_dag \<Rightarrow> string \<Rightarrow> ref list \<Rightarrow> ref list \<Rightarrow> ref list res \<times> map_dag" where
  "AddEdgesFrom ae d f [] missing = (Inr missing, d)"
| "AddEdgesFrom ae d f (e # es) missing =
     (case ae d f e of
        ((implied, Some err), d') \<Rightarrow> (Inl err, d')
      | ((implied, None), d') \<Rightarrow>
          AddEdgesFrom ae d' f es (if implied then missing @ [e] else missing))"

fun AddEdges_loop ::
  "add_edge \<Rightarrow> map_dag \<Rightarrow> (string \<times> ref list) list \<Rightarrow> ref list \<Rightarrow> ref list res \<times> map_dag"
where
  "AddEdges_loop ae d [] missing = (Inr missing, d)"
| "AddEdges_loop ae d ((f, ne) # edges) missing =
     (case AddEdgesFrom ae d f ne missing of
        (Inl e, d') \<Rightarrow> (Inl e, d')
      | (Inr missing', d') \<Rightarrow> AddEdges_loop ae d' edges missing')"

definition AddEdges_with ::
  "add_edge \<Rightarrow> map_dag \<Rightarrow> (string \<times> ref list) list \<Rightarrow> ref list res \<times> map_dag" where
  "AddEdges_with ae d edges = AddEdges_loop ae d edges []"

fun Init_edges :: "add_edge \<Rightarrow> map_dag \<Rightarrow> ref list \<Rightarrow> ref list \<Rightarrow> ref list res \<times> map_dag" where
  "Init_edges ae d [] implied = (Inr implied, d)"
| "Init_edges ae d (n # ns) implied =
     (case alloc d (Neighbors (deref d n)) of
        (nbrs, d1) \<Rightarrow>
          (case AddEdges_with ae d1 [(ident d n, nbrs)] of
             (Inl e, d2) \<Rightarrow> (Inl e, d2)
           | (Inr miss, d2) \<Rightarrow> Init_edges ae d2 ns (implied @ miss)))"

definition Init_with :: "add_edge \<Rightarrow> map_dag \<Rightarrow> ref list \<Rightarrow> ref list res \<times> map_dag" where
  "Init_with ae d ns =
     (case AddNodes (d\<lparr>nodes := []\<rparr>) ns of
        (Inl e, d') \<Rightarrow> (Inl e, d')
      | (Inr _, d') \<Rightarrow> Init_edges ae d' ns [])"

definition AddEdges :: "map_dag \<Rightarrow> (string \<times> ref list) list \<Rightarrow> ref list res \<times> map_dag" where
  "AddEdges d edges = AddEdges_with AddEdge d edges"

definition Init :: "map_dag \<Rightarrow> ref list \<Rightarrow> ref list res \<times> map_dag" where
  "Init d ns = Init_with AddEdge d ns"

subsection \<open>MapUpgradingDag\<close>

text \<open>
  The upgrading graph differs from \<^verbatim>\<open>MapDag\<close> in \<^verbatim>\<open>AddEdge\<close> and \<^verbatim>\<open>AddOrUpdateNodes\<close>; its other
  methods are word for word those of \<^verbatim>\<open>MapDag\<close>. The semver library is the parameter \<open>sv\<close>.
\<close>

record ('c, 'v) semver =
  NewConstraint :: "string \<Rightarrow> 'c res"
  NewVersion :: "string \<Rightarrow> 'v res"
  Check :: "'c \<Rightarrow> 'v \<Rightarrow> bool"

definition isValidConstraints :: "('c, 'v) semver \<Rightarrow> node \<Rightarrow> node \<Rightarrow> bool" where
  "isValidConstraints sv installed wanted =
     (if GetConstraints installed = GetConstraints wanted then True
      else (case NewConstraint sv (GetConstraints wanted) of
              Inl _ \<Rightarrow> False
            | Inr c \<Rightarrow>
                (case NewVersion sv (GetConstraints installed) of
                   Inl _ \<Rightarrow> False
                 | Inr v \<Rightarrow> if \<not> Check sv c v then False else True)))"

text \<open>The last write of \<^verbatim>\<open>AddEdge\<close> reads the parents of \<open>to\<close> after \<^verbatim>\<open>AddNeighbors\<close> wrote them.\<close>

definition inherit_parents :: "map_dag \<Rightarrow> ref \<Rightarrow> map_dag" where
  "inherit_parents d to =
     (case map_of (nodes d) (ident d to) of
        None \<Rightarrow> d
      | Some r \<Rightarrow> add_parents d r (GetParentConstraints (deref d to)))"

definition up_AddEdge :: "('c, 'v) semver \<Rightarrow> add_edge" where
  "up_AddEdge sv d from to =
     (case map_of (nodes d) from of
        None \<Rightarrow> ((False, Some (Errorf ''node %s does not exist'' [ident d to])), d)
      | Some f \<Rightarrow>
          (case map_of (nodes d) (ident d to) of
             None \<Rightarrow>
               (case AddNode d to of
                  (Inl e, d') \<Rightarrow> ((True, Some e), d')
                | (Inr _, d') \<Rightarrow> ((True, None), inherit_parents (AddNeighbors d' f [to]) to))
           | Some orgTo \<Rightarrow>
               ((\<not> isValidConstraints sv (deref d orgTo) (deref d to), None),
                inherit_parents (AddNeighbors d f [to]) to)))"

definition up_AddEdges ::
  "('c, 'v) semver \<Rightarrow> map_dag \<Rightarrow> (string \<times> ref list) list \<Rightarrow> ref list res \<times> map_dag" where
  "up_AddEdges sv d edges = AddEdges_with (up_AddEdge sv) d edges"

definition up_Init :: "('c, 'v) semver \<Rightarrow> map_dag \<Rightarrow> ref list \<Rightarrow> ref list res \<times> map_dag" where
  "up_Init sv d ns = Init_with (up_AddEdge sv) d ns"

fun up_AddOrUpdateNodes :: "map_dag \<Rightarrow> ref list \<Rightarrow> map_dag" where
  "up_AddOrUpdateNodes d [] = d"
| "up_AddOrUpdateNodes d (n # ns) =
     (let d' = (case map_of (nodes d) (ident d n) of
                  None \<Rightarrow> d
                | Some r \<Rightarrow> add_parents d n (GetParentConstraints (deref d r)))
      in up_AddOrUpdateNodes (d'\<lparr>nodes := put (ident d' n) n (nodes d')\<rparr>) ns)"

text \<open>The methods that read the node map, and \<^verbatim>\<open>AddNode\<close>, are those of \<^verbatim>\<open>MapDag\<close>.\<close>

definition up_AddNode :: "map_dag \<Rightarrow> ref \<Rightarrow> unit res \<times> map_dag" where
  "up_AddNode = AddNode"

definition up_AddNodes :: "map_dag \<Rightarrow> ref list \<Rightarrow> unit res \<times> map_dag" where
  "up_AddNodes = AddNodes"

definition up_NodeExists :: "map_dag \<Rightarrow> string \<Rightarrow> bool" where
  "up_NodeExists = NodeExists"

definition up_NodeNeighbors :: "map_dag \<Rightarrow> string \<Rightarrow> node list res" where
  "up_NodeNeighbors = NodeNeighbors"

definition up_GetNode :: "map_dag \<Rightarrow> string \<Rightarrow> ref res" where
  "up_GetNode = GetNode"

subsection \<open>Tracing\<close>

text \<open>
  \<open>traceNode\<close> and the loop in its body. The tree maps an identifier to the neighbour first
  met under it.
\<close>

function traceNode ::
  "map_dag \<Rightarrow> string \<Rightarrow> (string, node) gomap \<Rightarrow> (string, node) gomap res"
and traceNeighbors ::
  "map_dag \<Rightarrow> node list \<Rightarrow> (string, node) gomap \<Rightarrow> (string, node) gomap res" where
  "traceNode d i tree =
     (case map_of (nodes d) i of
        None \<Rightarrow> Inl (Errorf ''missing node in tree'' [])
      | Some r \<Rightarrow> traceNeighbors d (Neighbors (deref d r)) tree)"
| "traceNeighbors d [] tree = Inr tree"
| "traceNeighbors d (n # ns) tree =
     (if map_of tree (Identifier n) \<noteq> None then traceNeighbors d ns tree
      else (case traceNode d (Identifier n) (put (Identifier n) n tree) of
              Inl e \<Rightarrow> Inl e
            | Inr tree' \<Rightarrow> traceNeighbors d ns tree'))"
  by pat_completeness auto

subsection \<open>Topological sort\<close>

record visit_state =
  stack :: "string set"
  visited :: "string set"
  results :: "string list"

text \<open>The first free slot of the result array takes the name.\<close>

fun place :: "string list \<Rightarrow> string \<Rightarrow> string list" where
  "place [] name = []"
| "place (r # rs) name = (if r = [] then name # rs else r # place rs name)"

function visit :: "map_dag \<Rightarrow> string \<Rightarrow> node list \<Rightarrow> visit_state \<Rightarrow> visit_state res"
and visitNeighbors :: "map_dag \<Rightarrow> node list \<Rightarrow> visit_state \<Rightarrow> visit_state res" where
  "visit d name ns st =
     (case visitNeighbors d ns
             (st\<lparr>visited := insert name (visited st), stack := insert name (stack st)\<rparr>) of
        Inl e \<Rightarrow> Inl e
      | Inr st' \<Rightarrow>
          Inr (st'\<lparr>results := place (results st') name, stack := stack st' - {name}\<rparr>))"
| "visitNeighbors d [] st = Inr st"
| "visitNeighbors d (n # ns) st =
     (if Identifier n \<notin> visited st then
        (case map_of (nodes d) (Identifier n) of
           None \<Rightarrow> Inl (Errorf ''node %q does not exist'' [Identifier n])
         | Some r \<Rightarrow>
             (case visit d (Identifier n) (Neighbors (deref d r)) st of
                Inl e \<Rightarrow> Inl e
              | Inr st' \<Rightarrow> visitNeighbors d ns st'))
      else if Identifier n \<in> stack st then
        Inl (Errorf ''detected cycle on: %s'' [Identifier n])
      else visitNeighbors d ns st)"
  by pat_completeness auto


text \<open>
  Both searches only ever add to what they have seen; that is what makes the nested calls
  terminate.
\<close>

lemma trace_grows:
  "traceNode_traceNeighbors_dom (Inl (d, i, tree)) \<Longrightarrow>
     traceNode d i tree = Inr tree' \<Longrightarrow> keys tree \<subseteq> keys tree'"
  "traceNode_traceNeighbors_dom (Inr (d, ns, tree)) \<Longrightarrow>
     traceNeighbors d ns tree = Inr tree' \<Longrightarrow> keys tree \<subseteq> keys tree'"
proof (induction arbitrary: tree' and tree' rule: traceNode_traceNeighbors.pinduct)
  case (1 d i tree)
  then show ?case by (auto simp: traceNode.psimps split: option.splits)
next
  case (2 d tree)
  then show ?case by (simp add: traceNeighbors.psimps)
next
  case (3 d n ns tree)
  then show ?case
    by (fastforce simp: traceNeighbors.psimps split: if_splits sum.splits)
qed

definition unseen :: "map_dag \<Rightarrow> string set \<Rightarrow> nat" where
  "unseen d seen = card (keys (nodes d) - seen)"

lemma unseen_mono: "seen \<subseteq> seen' \<Longrightarrow> unseen d seen' \<le> unseen d seen"
  unfolding unseen_def by (rule card_mono) auto

lemma unseen_insert:
  "i \<in> keys (nodes d) \<Longrightarrow> i \<notin> seen \<Longrightarrow> unseen d (insert i seen) < unseen d seen"
  unfolding unseen_def by (rule psubset_card_mono) auto

lemma unseen_insert_le: "unseen d (insert i seen) \<le> unseen d seen"
  by (rule unseen_mono) auto

definition out_degree :: "map_dag \<Rightarrow> string \<Rightarrow> nat" where
  "out_degree d i =
     (case map_of (nodes d) i of None \<Rightarrow> 0 | Some r \<Rightarrow> Suc (length (Neighbors (deref d r))))"

termination traceNode
proof (relation "measures [
    case_sum (\<lambda>(d, i, tree). unseen d (keys tree)) (\<lambda>(d, ns, tree). unseen d (keys tree)),
    case_sum (\<lambda>(d, i, tree). 2 * out_degree d i) (\<lambda>(d, ns, tree). Suc (2 * length ns))]",
  goal_cases)
  case (2 d i tree r)
  then show ?case by (simp add: out_degree_def)
next
  case (4 d n ns tree)
  show ?case
  proof (cases "Identifier n \<in> keys (nodes d)")
    case True
    with 4 have "unseen d (insert (Identifier n) (keys tree)) < unseen d (keys tree)"
      by (intro unseen_insert) (auto simp: not_in_keys_iff)
    then show ?thesis by simp
  next
    case False
    then have "out_degree d (Identifier n) = 0"
      by (simp add: out_degree_def not_in_keys_iff)
    then show ?thesis
      using unseen_insert_le [of d "Identifier n" "keys tree"] by (auto simp: le_less)
  qed
next
  case (5 d n ns tree tree')
  then have "keys (put (Identifier n) n tree) \<subseteq> keys tree'"
    by (intro trace_grows(1)) auto
  then have "unseen d (keys tree') \<le> unseen d (keys tree)"
    by (intro unseen_mono) auto
  then show ?case by (auto simp: le_less)
qed simp_all

declare traceNode.simps [simp del]

definition TraceNode :: "map_dag \<Rightarrow> string \<Rightarrow> (string, node) gomap res" where
  "TraceNode d i = traceNode d i []"

definition up_TraceNode :: "map_dag \<Rightarrow> string \<Rightarrow> (string, node) gomap res" where
  "up_TraceNode = TraceNode"

lemma visit_grows:
  "visit_visitNeighbors_dom (Inl (d, name, ns, st)) \<Longrightarrow>
     visit d name ns st = Inr st' \<Longrightarrow> insert name (visited st) \<subseteq> visited st'"
  "visit_visitNeighbors_dom (Inr (d, ns, st)) \<Longrightarrow>
     visitNeighbors d ns st = Inr st' \<Longrightarrow> visited st \<subseteq> visited st'"
proof (induction arbitrary: st' and st' rule: visit_visitNeighbors.pinduct)
  case (1 d name ns st)
  then show ?case by (fastforce simp: visit.psimps split: sum.splits)
next
  case (2 d st)
  then show ?case by (simp add: visitNeighbors.psimps)
next
  case (3 d n ns st)
  then show ?case
    by (fastforce simp: visitNeighbors.psimps split: if_splits sum.splits option.splits)
qed

termination visit
proof (relation "measures [
    case_sum (\<lambda>(d, name, ns, st). unseen d (insert name (visited st)))
      (\<lambda>(d, ns, st). unseen d (visited st)),
    case_sum (\<lambda>(d, name, ns, st). Suc (length ns)) (\<lambda>(d, ns, st). length ns)]", goal_cases)
  case (3 d n ns st r)
  then show ?case by (simp add: unseen_insert in_keys_iff)
next
  case (4 d n ns st r st')
  then have "insert (Identifier n) (visited st) \<subseteq> visited st'"
    by (intro visit_grows(1)) auto
  then have "unseen d (visited st') \<le> unseen d (visited st)"
    by (intro unseen_mono) auto
  then show ?case by (auto simp: le_less)
qed simp_all

declare visit.simps [simp del]

text \<open>
  \<^verbatim>\<open>Sort\<close> ranges over the node map, whose iteration order Go leaves open: the order is the
  argument \<open>ord\<close>.
\<close>

fun Sort_loop ::
  "map_dag \<Rightarrow> string list \<Rightarrow> string set \<Rightarrow> string list \<Rightarrow> string list res" where
  "Sort_loop d [] vis res = Inr res"
| "Sort_loop d (n # ns) vis res =
     (if n \<in> vis then Sort_loop d ns vis res
      else (case visit d n (Neighbors (deref d (the (map_of (nodes d) n))))
                    \<lparr>stack = {}, visited = vis, results = res\<rparr> of
              Inl e \<Rightarrow> Inl e
            | Inr st \<Rightarrow> Sort_loop d ns (visited st) (results st)))"

definition Sort :: "map_dag \<Rightarrow> string list \<Rightarrow> string list res" where
  "Sort d ord = Sort_loop d ord {} (replicate (length (nodes d)) [])"

definition up_Sort :: "map_dag \<Rightarrow> string list \<Rightarrow> string list res" where
  "up_Sort = Sort"

end
