(* ===== verification/DagCorrect.thy ===== *)
theory DagCorrect
  imports Dag
begin

text \<open>
  Correctness of the dependency graph: what \<^verbatim>\<open>TraceNode\<close> finds, that \<^verbatim>\<open>Sort\<close> is a topological
  sort and fails exactly on cyclic graphs, and what \<^verbatim>\<open>Init\<close> builds from the packages of the
  lock, proved once for the interface both graph types implement.
\<close>

section \<open>The graph a node map stands for\<close>

definition succs :: "map_dag \<Rightarrow> string \<Rightarrow> string list" where
  "succs d i =
     (case map_of (nodes d) i of None \<Rightarrow> [] | Some r \<Rightarrow> map Identifier (Neighbors (deref d r)))"

definition edges :: "map_dag \<Rightarrow> (string \<times> string) set" where
  "edges d = {(i, j). j \<in> set (succs d i)}"

lemma in_edges_iff: "(i, j) \<in> edges d \<longleftrightarrow> j \<in> set (succs d i)"
  by (simp add: edges_def)

lemma succs_Some: "map_of (nodes d) i = Some r \<Longrightarrow> succs d i = map Identifier (Neighbors (deref d r))"
  by (simp add: succs_def)

lemma edges_from_keys: "(i, j) \<in> edges d \<Longrightarrow> i \<in> keys (nodes d)"
  by (cases "map_of (nodes d) i") (auto simp: edges_def succs_def in_keys_iff)

definition closed :: "map_dag \<Rightarrow> bool" where
  "closed d \<longleftrightarrow> (\<forall>(i, r) \<in> set (nodes d). set (succs d i) \<subseteq> keys (nodes d))"

lemma closed_edges: "closed d \<Longrightarrow> (i, j) \<in> edges d \<Longrightarrow> j \<in> keys (nodes d)"
  using edges_from_keys [of i j d] by (fastforce simp: closed_def edges_def keys_def)

section \<open>Tracing\<close>

lemma trace_sound:
  "traceNode d i tree = Inr tree' \<Longrightarrow> keys tree' \<subseteq> keys tree \<union> (edges d)\<^sup>+ `` {i}"
  "traceNeighbors d ns tree = Inr tree' \<Longrightarrow>
     keys tree' \<subseteq> keys tree \<union> (edges d)\<^sup>* `` (Identifier ` set ns)"
proof (induction d i tree and d ns tree arbitrary: tree' and tree'
    rule: traceNode_traceNeighbors.induct)
  case (1 d i tree)
  then obtain r where r: "map_of (nodes d) i = Some r"
    and *: "traceNeighbors d (Neighbors (deref d r)) tree = Inr tree'"
    by (auto simp: traceNode.simps split: option.splits)
  have "(i, Identifier n) \<in> edges d" if "n \<in> set (Neighbors (deref d r))" for n
    using that r by (auto simp: in_edges_iff succs_Some)
  then have "(edges d)\<^sup>* `` (Identifier ` set (Neighbors (deref d r))) \<subseteq> (edges d)\<^sup>+ `` {i}"
    by (auto intro: rtrancl_into_trancl2)
  with "1.IH" [OF r *] show ?case by blast
next
  case (3 d n ns tree)
  show ?case
  proof (cases "map_of tree (Identifier n) \<noteq> None")
    case True
    with 3 show ?thesis by auto
  next
    case False
    with "3.prems" obtain tree1
      where 1: "traceNode d (Identifier n) (put (Identifier n) n tree) = Inr tree1"
        and 2: "traceNeighbors d ns tree1 = Inr tree'"
      by (auto split: sum.splits)
    have "(edges d)\<^sup>+ `` {Identifier n} \<subseteq> (edges d)\<^sup>* `` {Identifier n}" by auto
    with "3.IH"(2) [OF False 1] "3.IH"(3) [OF False 1 2] show ?thesis by fastforce
  qed
qed auto

lemma trace_complete:
  "traceNode d i tree = Inr tree' \<Longrightarrow>
     i \<in> keys (nodes d) \<and> keys tree \<subseteq> keys tree' \<and> set (succs d i) \<subseteq> keys tree' \<and>
     (\<forall>x \<in> keys tree' - keys tree. x \<in> keys (nodes d) \<and> set (succs d x) \<subseteq> keys tree')"
  "traceNeighbors d ns tree = Inr tree' \<Longrightarrow>
     keys tree \<subseteq> keys tree' \<and> Identifier ` set ns \<subseteq> keys tree' \<and>
     (\<forall>x \<in> keys tree' - keys tree. x \<in> keys (nodes d) \<and> set (succs d x) \<subseteq> keys tree')"
proof (induction d i tree and d ns tree arbitrary: tree' and tree'
    rule: traceNode_traceNeighbors.induct)
  case (1 d i tree)
  then obtain r where r: "map_of (nodes d) i = Some r"
    and *: "traceNeighbors d (Neighbors (deref d r)) tree = Inr tree'"
    by (auto simp: traceNode.simps split: option.splits)
  with "1.IH" [OF r *] show ?case by (auto simp: in_keys_iff succs_Some)
next
  case (3 d n ns tree)
  show ?case
  proof (cases "map_of tree (Identifier n) \<noteq> None")
    case True
    then have "Identifier n \<in> keys tree" by (auto simp: in_keys_iff)
    with 3 True show ?thesis by auto
  next
    case False
    with "3.prems" obtain tree1
      where 1: "traceNode d (Identifier n) (put (Identifier n) n tree) = Inr tree1"
        and 2: "traceNeighbors d ns tree1 = Inr tree'"
      by (auto split: sum.splits)
    have a: "insert (Identifier n) (keys tree) \<subseteq> keys tree1"
      "set (succs d (Identifier n)) \<subseteq> keys tree1" "Identifier n \<in> keys (nodes d)"
      "\<forall>x \<in> keys tree1 - insert (Identifier n) (keys tree).
         x \<in> keys (nodes d) \<and> set (succs d x) \<subseteq> keys tree1"
      using "3.IH"(2) [OF False 1] by auto
    have b: "keys tree1 \<subseteq> keys tree'" "Identifier ` set ns \<subseteq> keys tree'"
      "\<forall>x \<in> keys tree' - keys tree1. x \<in> keys (nodes d) \<and> set (succs d x) \<subseteq> keys tree'"
      using "3.IH"(3) [OF False 1 2] by auto
    have "x \<in> keys (nodes d) \<and> set (succs d x) \<subseteq> keys tree'"
      if "x \<in> keys tree' - keys tree" for x
    proof (cases "x \<in> keys tree1")
      case True
      then show ?thesis
        using that a(2,3,4) b(1) by (cases "x = Identifier n") (simp, blast)+
    next
      case False
      then show ?thesis using that b(3) by simp
    qed
    with a(1) b(1,2) show ?thesis by auto
  qed
qed auto

lemma trace_error:
  "traceNode d i tree = Inl e \<Longrightarrow> \<exists>x. (i, x) \<in> (edges d)\<^sup>* \<and> x \<notin> keys (nodes d)"
  "traceNeighbors d ns tree = Inl e \<Longrightarrow>
     \<exists>n \<in> set ns. \<exists>x. (Identifier n, x) \<in> (edges d)\<^sup>* \<and> x \<notin> keys (nodes d)"
proof (induction d i tree and d ns tree rule: traceNode_traceNeighbors.induct)
  case (1 d i tree)
  show ?case
  proof (cases "map_of (nodes d) i")
    case None
    then show ?thesis by (auto simp: not_in_keys_iff)
  next
    case (Some r)
    with 1 obtain n x where "n \<in> set (Neighbors (deref d r))"
      and x: "(Identifier n, x) \<in> (edges d)\<^sup>*" "x \<notin> keys (nodes d)"
      by (auto simp: traceNode.simps)
    with Some have "(i, Identifier n) \<in> edges d" by (auto simp: in_edges_iff succs_Some)
    with x show ?thesis by (meson converse_rtrancl_into_rtrancl)
  qed
next
  case (3 d n ns tree)
  then show ?case by (auto split: if_splits sum.splits)
qed simp

lemma closed_under_trancl:
  assumes "\<And>x y. x \<in> A \<Longrightarrow> (x, y) \<in> E \<Longrightarrow> y \<in> A" and "\<And>y. (i, y) \<in> E \<Longrightarrow> y \<in> A"
  shows "E\<^sup>+ `` {i} \<subseteq> A"
proof
  fix y assume "y \<in> E\<^sup>+ `` {i}"
  then have "(i, y) \<in> E\<^sup>+" by simp
  then show "y \<in> A" by (induction rule: trancl_induct) (use assms in auto)
qed

lemma TraceNode_ok:
  assumes "TraceNode d i = Inr tree"
  shows "i \<in> keys (nodes d) \<and> keys tree = (edges d)\<^sup>+ `` {i} \<and> keys tree \<subseteq> keys (nodes d)"
proof -
  from assms have t: "traceNode d i [] = Inr tree" by (simp add: TraceNode_def)
  from trace_complete(1) [OF t] have c: "i \<in> keys (nodes d)" "set (succs d i) \<subseteq> keys tree"
    "\<And>x. x \<in> keys tree \<Longrightarrow> x \<in> keys (nodes d) \<and> set (succs d x) \<subseteq> keys tree"
    by auto
  then have "(edges d)\<^sup>+ `` {i} \<subseteq> keys tree"
    by (intro closed_under_trancl) (auto simp: in_edges_iff)
  with trace_sound(1) [OF t] c show ?thesis by auto
qed


section \<open>Topological sort\<close>

text \<open>
  \<open>deps_first d seen xs\<close>: every element of \<open>xs\<close> comes after its neighbours, those in
  \<open>seen\<close> counting as already emitted.
\<close>

fun deps_first :: "map_dag \<Rightarrow> string set \<Rightarrow> string list \<Rightarrow> bool" where
  "deps_first d seen [] = True"
| "deps_first d seen (x # xs) = (set (succs d x) \<subseteq> seen \<and> deps_first d (insert x seen) xs)"

lemma deps_first_append:
  "deps_first d seen (xs @ ys) \<longleftrightarrow> deps_first d seen xs \<and> deps_first d (seen \<union> set xs) ys"
  by (induction xs arbitrary: seen) auto

lemma place_free:
  "[] \<notin> set fs \<Longrightarrow> place (fs @ [] # rs) name = fs @ name # rs"
  by (induction fs) auto

text \<open>
  The invariant of the search: \<open>fs\<close> is the part of the result array filled so far, the nodes
  visited and no longer on the stack.
\<close>

definition sort_inv :: "map_dag \<Rightarrow> visit_state \<Rightarrow> string list \<Rightarrow> bool" where
  "sort_inv d st fs \<longleftrightarrow>
     results st = fs @ replicate (card (keys (nodes d)) - length fs) [] \<and>
     distinct fs \<and> set fs = visited st - stack st \<and> stack st \<subseteq> visited st \<and>
     visited st \<subseteq> keys (nodes d) \<and> deps_first d {} fs"

lemma sort_inv_enter:
  assumes "sort_inv d st fs" "name \<in> keys (nodes d)" "name \<notin> visited st"
  shows "sort_inv d (st\<lparr>visited := insert name (visited st), stack := insert name (stack st)\<rparr>) fs"
  using assms by (auto simp: sort_inv_def)

lemma sort_inv_leave:
  assumes inv: "sort_inv d st fs" and name: "name \<in> stack st"
    and succ: "set (succs d name) \<subseteq> set fs" and ne: "[] \<notin> keys (nodes d)"
  shows "sort_inv d (st\<lparr>results := place (results st) name, stack := stack st - {name}\<rparr>) (fs @ [name])"
proof -
  from inv have fs: "distinct fs" "set fs = visited st - stack st" "stack st \<subseteq> visited st"
    "visited st \<subseteq> keys (nodes d)" "deps_first d {} fs"
    and res: "results st = fs @ replicate (card (keys (nodes d)) - length fs) []"
    by (auto simp: sort_inv_def)
  have "set fs \<subset> keys (nodes d)" using fs name by auto
  then have "card (set fs) < card (keys (nodes d))" by (intro psubset_card_mono) auto
  with fs(1) have "length fs < card (keys (nodes d))" by (simp add: distinct_card)
  then obtain k where k: "card (keys (nodes d)) - length fs = Suc k"
    by (metis Suc_diff_Suc)
  moreover have "[] \<notin> set fs" using fs ne by auto
  ultimately have "place (results st) name = (fs @ [name]) @ replicate k []"
    by (simp add: res place_free)
  moreover have "k = card (keys (nodes d)) - length (fs @ [name])" using k by simp
  moreover have "set (fs @ [name]) = visited st - (stack st - {name})" using fs name by auto
  ultimately show ?thesis
    using fs name succ by (auto simp: sort_inv_def deps_first_append)
qed

lemma visit_ok:
  "visit d name ns st = Inr st' \<Longrightarrow> sort_inv d st fs \<Longrightarrow> name \<in> keys (nodes d) \<Longrightarrow>
     name \<notin> visited st \<Longrightarrow> Identifier ` set ns = set (succs d name) \<Longrightarrow> [] \<notin> keys (nodes d) \<Longrightarrow>
     \<exists>fs'. sort_inv d st' (fs @ fs') \<and> stack st' = stack st \<and> name \<in> set (fs @ fs') \<and>
       visited st \<subseteq> visited st'"
  "visitNeighbors d ns st = Inr st' \<Longrightarrow> sort_inv d st fs \<Longrightarrow> [] \<notin> keys (nodes d) \<Longrightarrow>
     \<exists>fs'. sort_inv d st' (fs @ fs') \<and> stack st' = stack st \<and>
       Identifier ` set ns \<subseteq> set (fs @ fs') \<and> visited st \<subseteq> visited st'"
proof (induction d name ns st and d ns st arbitrary: st' fs and st' fs
    rule: visit_visitNeighbors.induct)
  case (1 d name ns st)
  let ?st = "st\<lparr>visited := insert name (visited st), stack := insert name (stack st)\<rparr>"
  from "1.prems"(1) obtain st1 where st1: "visitNeighbors d ns ?st = Inr st1"
    and st': "st' = st1\<lparr>results := place (results st1) name, stack := stack st1 - {name}\<rparr>"
    by (auto simp: visit.simps split: sum.splits)
  have "sort_inv d ?st fs" by (rule sort_inv_enter) (use "1.prems" in auto)
  from "1.IH" [OF st1 this "1.prems"(6)] obtain fs1 where
    fs1: "sort_inv d st1 (fs @ fs1)" "stack st1 = insert name (stack st)"
      "Identifier ` set ns \<subseteq> set (fs @ fs1)" "insert name (visited st) \<subseteq> visited st1"
    by auto
  have "sort_inv d st' ((fs @ fs1) @ [name])"
    unfolding st' by (rule sort_inv_leave) (use fs1 "1.prems" in auto)
  moreover have "stack st' = stack st"
    using "1.prems"(2,4) fs1(2) by (auto simp: st' sort_inv_def)
  moreover have "visited st \<subseteq> visited st'" using fs1(4) by (simp add: st')
  ultimately show ?case by (intro exI [of _ "fs1 @ [name]"]) simp
next
  case (2 d st)
  then show ?case by (intro exI [of _ "[]"]) auto
next
  case (3 d n ns st)
  show ?case
  proof (cases "Identifier n \<notin> visited st")
    case True
    with "3.prems"(1) obtain r st1 where r: "map_of (nodes d) (Identifier n) = Some r"
      and st1: "visit d (Identifier n) (Neighbors (deref d r)) st = Inr st1"
      and rest: "visitNeighbors d ns st1 = Inr st'"
      by (auto split: option.splits sum.splits)
    from "3.IH"(1) [OF True r st1 "3.prems"(2)] r True "3.prems"(3) obtain fs1 where
      fs1: "sort_inv d st1 (fs @ fs1)" "stack st1 = stack st" "Identifier n \<in> set (fs @ fs1)"
        "visited st \<subseteq> visited st1"
      by (auto simp: in_keys_iff succs_Some)
    from "3.IH"(2) [OF True r st1 rest fs1(1) "3.prems"(3)] obtain fs2 where
      "sort_inv d st' ((fs @ fs1) @ fs2)" "stack st' = stack st1"
      "Identifier ` set ns \<subseteq> set ((fs @ fs1) @ fs2)" "visited st1 \<subseteq> visited st'"
      by auto
    with fs1 show ?thesis by (intro exI [of _ "fs1 @ fs2"]) auto
  next
    case False
    with "3.prems"(1) have ns: "Identifier n \<notin> stack st" "visitNeighbors d ns st = Inr st'"
      by (auto split: if_splits)
    then have "\<not> Identifier n \<notin> visited st" "\<not> Identifier n \<in> stack st" using False by auto
    from "3.IH"(3) [OF this ns(2) "3.prems"(2,3)] obtain fs1 where
      "sort_inv d st' (fs @ fs1)" "stack st' = stack st" "Identifier ` set ns \<subseteq> set (fs @ fs1)"
      "visited st \<subseteq> visited st'"
      by auto
    with ns(1) False "3.prems"(2) show ?thesis
      by (intro exI [of _ fs1]) (auto simp: sort_inv_def)
  qed
qed

text \<open>An error of the search names a missing neighbour or a cycle through the stack.\<close>

lemma visit_stack:
  "visit d name ns st = Inr st' \<Longrightarrow> stack st' \<subseteq> stack st"
  "visitNeighbors d ns st = Inr st' \<Longrightarrow> stack st' \<subseteq> stack st"
proof (induction d name ns st and d ns st arbitrary: st' and st'
    rule: visit_visitNeighbors.induct)
  case (1 d name ns st)
  then show ?case by (fastforce simp: visit.simps split: sum.splits)
next
  case (3 d n ns st)
  then show ?case by (fastforce split: if_splits option.splits sum.splits)
qed simp

lemma visit_error:
  "visit d name ns st = Inl e \<Longrightarrow> \<forall>s \<in> stack st. (s, name) \<in> (edges d)\<^sup>* \<Longrightarrow>
     Identifier ` set ns \<subseteq> set (succs d name) \<Longrightarrow>
     (\<exists>x y. (x, y) \<in> edges d \<and> y \<notin> keys (nodes d)) \<or> \<not> acyclic (edges d)"
  "visitNeighbors d ns st = Inl e \<Longrightarrow> \<forall>s \<in> stack st. (s, cur) \<in> (edges d)\<^sup>* \<Longrightarrow>
     Identifier ` set ns \<subseteq> set (succs d cur) \<Longrightarrow>
     (\<exists>x y. (x, y) \<in> edges d \<and> y \<notin> keys (nodes d)) \<or> \<not> acyclic (edges d)"
proof (induction d name ns st and d ns st arbitrary: and cur rule: visit_visitNeighbors.induct)
  case (1 d name ns st)
  let ?st = "st\<lparr>visited := insert name (visited st), stack := insert name (stack st)\<rparr>"
  from "1.prems"(1) have "visitNeighbors d ns ?st = Inl e"
    by (auto simp: visit.simps split: sum.splits)
  then show ?case by (rule "1.IH") (use "1.prems"(2,3) in auto)
next
  case (3 d n ns st)
  have edge: "(cur, Identifier n) \<in> edges d" using "3.prems"(3) by (auto simp: in_edges_iff)
  have rest: "Identifier ` set ns \<subseteq> set (succs d cur)" using "3.prems"(3) by auto
  have path: "\<forall>s \<in> stack st. (s, Identifier n) \<in> (edges d)\<^sup>*"
    using "3.prems"(2) edge by (auto intro: rtrancl_into_rtrancl)
  show ?case
  proof (cases "Identifier n \<notin> visited st")
    case True
    show ?thesis
    proof (cases "map_of (nodes d) (Identifier n)")
      case None
      then show ?thesis using edge by (auto simp: not_in_keys_iff)
    next
      case (Some r)
      show ?thesis
      proof (cases "visit d (Identifier n) (Neighbors (deref d r)) st")
        case (Inl e')
        from "3.IH"(1) [OF True Some] 3(4) Inl True Some path show ?thesis
          by (auto simp: succs_Some)
      next
        case (Inr st1)
        with True Some "3.prems"(1) have "visitNeighbors d ns st1 = Inl e" by simp
        moreover have "\<forall>s \<in> stack st1. (s, cur) \<in> (edges d)\<^sup>*"
          using visit_stack(1) [OF Inr] "3.prems"(2) by auto
        ultimately show ?thesis using "3.IH"(2) [OF True Some Inr] rest by blast
      qed
    qed
  next
    case False
    show ?thesis
    proof (cases "Identifier n \<in> stack st")
      case True
      then have "(Identifier n, cur) \<in> (edges d)\<^sup>*" using "3.prems"(2) by blast
      then have "(Identifier n, Identifier n) \<in> (edges d)\<^sup>+" using edge
        by (rule rtrancl_into_trancl1)
      then show ?thesis by (auto simp: acyclic_def)
    next
      case stack: False
      with False "3.prems"(1) have "visitNeighbors d ns st = Inl e" by simp
      then show ?thesis using "3.IH"(3) [OF _ stack] False rest "3.prems"(2) by blast
    qed
  qed
qed simp

text \<open>The loop over the nodes.\<close>

lemma sort_inv_init:
  "sort_inv d \<lparr>stack = {}, visited = {}, results = replicate (card (keys (nodes d))) []\<rparr> []"
  by (simp add: sort_inv_def)

lemma Sort_loop_ok:
  assumes "Sort_loop d ord vis res = Inr out"
    and "sort_inv d \<lparr>stack = {}, visited = vis, results = res\<rparr> fs"
    and "set ord \<subseteq> keys (nodes d)" and "[] \<notin> keys (nodes d)"
  shows "\<exists>fs' V. sort_inv d \<lparr>stack = {}, visited = V, results = out\<rparr> fs' \<and> vis \<union> set ord \<subseteq> V"
  using assms
proof (induction d ord vis res arbitrary: fs rule: Sort_loop.induct)
  case (2 d n ns vis res)
  let ?st = "\<lparr>stack = {}, visited = vis, results = res\<rparr>"
  show ?case
  proof (cases "n \<in> vis")
    case True
    then have "\<exists>fs' V. sort_inv d \<lparr>stack = {}, visited = V, results = out\<rparr> fs' \<and> vis \<union> set ns \<subseteq> V"
      using 2 by (intro "2.IH"(1) [OF True, of fs]) auto
    with True show ?thesis by auto
  next
    case False
    obtain r where r: "map_of (nodes d) n = Some r"
      using "2.prems"(3) by (auto simp: in_keys_iff)
    with "2.prems"(1) False obtain st1
      where st1: "visit d n (Neighbors (deref d (the (map_of (nodes d) n)))) ?st = Inr st1"
        and rest: "Sort_loop d ns (visited st1) (results st1) = Inr out"
      by (auto split: sum.splits)
    have "\<exists>fs1. sort_inv d st1 (fs @ fs1) \<and> stack st1 = stack ?st \<and> n \<in> set (fs @ fs1) \<and>
        visited ?st \<subseteq> visited st1"
      using visit_ok(1) [OF st1 "2.prems"(2)] "2.prems"(3,4) False r
      by (simp add: succs_Some)
    then obtain fs1 where fs1: "sort_inv d st1 (fs @ fs1)" "stack st1 = {}" "n \<in> set (fs @ fs1)"
      "vis \<subseteq> visited st1" by auto
    then have "st1 = \<lparr>stack = {}, visited = visited st1, results = results st1\<rparr>" by simp
    with fs1(1) have inv: "sort_inv d \<lparr>stack = {}, visited = visited st1, results = results st1\<rparr> (fs @ fs1)"
      by simp
    have "n \<in> visited st1" using fs1 by (auto simp: sort_inv_def)
    moreover have "\<exists>fs' V. sort_inv d \<lparr>stack = {}, visited = V, results = out\<rparr> fs' \<and>
        visited st1 \<union> set ns \<subseteq> V"
      using "2.IH"(2) [OF False st1 rest inv] "2.prems"(3,4) by simp
    ultimately show ?thesis using fs1(4) by fastforce
  qed
qed auto

lemma Sort_loop_error:
  assumes "Sort_loop d ord vis res = Inl e" and "set ord \<subseteq> keys (nodes d)"
  shows "(\<exists>x y. (x, y) \<in> edges d \<and> y \<notin> keys (nodes d)) \<or> \<not> acyclic (edges d)"
  using assms
proof (induction d ord vis res rule: Sort_loop.induct)
  case (2 d n ns vis res)
  obtain r where r: "map_of (nodes d) n = Some r" using "2.prems"(2) by (auto simp: in_keys_iff)
  show ?case
  proof (cases "n \<in> vis")
    case True
    with 2 show ?thesis by simp
  next
    case False
    then show ?thesis
      using 2 r visit_error(1) [of d n "Neighbors (deref d r)" "\<lparr>stack = {}, visited = vis, results = res\<rparr>"]
      by (auto simp: succs_Some split: sum.splits)
  qed
qed simp

text \<open>Emitting dependencies first is possible only without cycles.\<close>

lemma takeWhile_upto: "y \<notin> set us \<Longrightarrow> takeWhile (\<lambda>z. z \<noteq> y) (us @ y # vs) = us"
  by (subst takeWhile_append2) auto

lemma deps_first_before:
  assumes "deps_first d {} xs" "x \<in> set xs" "y \<in> set (succs d x)"
  shows "length (takeWhile (\<lambda>z. z \<noteq> y) xs) < length (takeWhile (\<lambda>z. z \<noteq> x) xs)"
proof -
  from assms(2) obtain us vs where xs: "xs = us @ x # vs" and x: "x \<notin> set us"
    by (meson split_list_first)
  then have "y \<in> set us" using assms(1,3) by (auto simp: deps_first_append)
  then obtain as bs where "us = as @ y # bs" "y \<notin> set as" by (meson split_list_first)
  then have "length (takeWhile (\<lambda>z. z \<noteq> y) xs) < length us"
    using takeWhile_upto [of y as "bs @ x # vs"] by (simp add: xs)
  moreover have "takeWhile (\<lambda>z. z \<noteq> x) xs = us"
    using x by (simp add: xs takeWhile_upto)
  ultimately show ?thesis by simp
qed

lemma deps_first_acyclic:
  assumes "deps_first d {} xs" "keys (nodes d) \<subseteq> set xs"
  shows "acyclic (edges d)"
proof -
  have "edges d \<subseteq> (measure (\<lambda>x. length (takeWhile (\<lambda>z. z \<noteq> x) xs)))\<inverse>"
    using deps_first_before [OF assms(1)] assms(2) edges_from_keys
    by (fastforce simp: in_edges_iff)
  moreover have "acyclic ((measure (\<lambda>x. length (takeWhile (\<lambda>z. z \<noteq> x) xs)))\<inverse>)"
    by (simp add: wf_acyclic)
  ultimately show ?thesis by (rule acyclic_subset [rotated])
qed

lemma Sort_result:
  assumes "Sort d ord = Inr out" "distinct (map fst (nodes d))" "set ord = keys (nodes d)"
    "[] \<notin> keys (nodes d)"
  shows "distinct out \<and> set out = keys (nodes d) \<and> deps_first d {} out"
proof -
  have "length (nodes d) = card (keys (nodes d))" using assms(2) by (rule length_distinct_keys)
  then have "Sort_loop d ord {} (replicate (card (keys (nodes d))) []) = Inr out"
    using assms(1) by (simp add: Sort_def)
  from Sort_loop_ok [OF this sort_inv_init] assms(3,4) obtain fs V
    where inv: "sort_inv d \<lparr>stack = {}, visited = V, results = out\<rparr> fs" "set ord \<subseteq> V"
    by auto
  then have V: "V = keys (nodes d)" "set fs = keys (nodes d)" "distinct fs" "deps_first d {} fs"
    using assms(3) by (auto simp: sort_inv_def)
  then have "length fs = card (keys (nodes d))" by (metis distinct_card)
  with inv V show ?thesis by (simp add: sort_inv_def)
qed

end
