(* ===== verification/DagInit.thy ===== *)
theory DagInit
  imports DagCorrect
begin

text \<open>
  The interface \<^verbatim>\<open>DAG\<close> of \<^verbatim>\<open>dag.go\<close> as a locale: what \<^verbatim>\<open>AddEdge\<close> promises. \<^verbatim>\<open>Init\<close> is proved
  once against it and holds for \<^verbatim>\<open>MapDag\<close> and \<^verbatim>\<open>MapUpgradingDag\<close>.
\<close>

section \<open>Well-formed graphs and their evolution\<close>

definition wf_dag :: "map_dag \<Rightarrow> bool" where
  "wf_dag d \<longleftrightarrow> distinct (map fst (nodes d)) \<and>
     (\<forall>(i, r) \<in> set (nodes d). r < length (heap d) \<and> ident d r = i)"

text \<open>What no operation of the graph changes of a node: all but its parent constraints.\<close>

fun is_package :: "node \<Rightarrow> bool" where
  "is_package (PackageNode _) = True"
| "is_package (DependencyNode _) = False"

fun bare :: "node \<Rightarrow> node" where
  "bare (PackageNode l) = PackageNode (l\<lparr>lp_ParentConstraints := []\<rparr>)"
| "bare (DependencyNode d) = DependencyNode (d\<lparr>dep_ParentConstraints := []\<rparr>)"

definition shape :: "node \<Rightarrow> bool \<times> string \<times> string \<times> node list \<times> node" where
  "shape n = (is_package n, Identifier n, GetConstraints n, Neighbors n, bare n)"

lemma not_package_Neighbors: "\<not> is_package n \<Longrightarrow> Neighbors n = []"
  by (cases n) simp_all

definition extends :: "map_dag \<Rightarrow> map_dag \<Rightarrow> bool" where
  "extends d d' \<longleftrightarrow> length (heap d) \<le> length (heap d') \<and>
     (\<forall>r < length (heap d). shape (deref d' r) = shape (deref d r))"

lemma shape_AddParentConstraints [simp]: "shape (AddParentConstraints n pc) = shape n"
  by (cases n) (simp_all add: shape_def dep_AddParentConstraints_def lp_AddParentConstraints_def
      dep_Identifier_def lp_Identifier_def dep_GetConstraints_def lp_GetConstraints_def)

lemma extends_refl [simp]: "extends d d"
  by (simp add: extends_def)

lemma extends_trans: "extends d1 d2 \<Longrightarrow> extends d2 d3 \<Longrightarrow> extends d1 d3"
  by (auto simp: extends_def)

lemma extends_ident: "extends d d' \<Longrightarrow> r < length (heap d) \<Longrightarrow> ident d' r = ident d r"
  by (auto simp: extends_def shape_def ident_def)

lemma extends_Neighbors:
  "extends d d' \<Longrightarrow> r < length (heap d) \<Longrightarrow> Neighbors (deref d' r) = Neighbors (deref d r)"
  by (auto simp: extends_def shape_def)

lemma extends_is_package:
  "extends d d' \<Longrightarrow> r < length (heap d) \<Longrightarrow> is_package (deref d' r) = is_package (deref d r)"
  by (auto simp: extends_def shape_def)

lemma wf_dag_get: "wf_dag d \<Longrightarrow> map_of (nodes d) i = Some r \<Longrightarrow> r < length (heap d) \<and> ident d r = i"
  by (auto simp: wf_dag_def dest!: map_of_SomeD)

lemma wf_dagI:
  assumes "distinct (map fst (nodes d))"
    and "\<And>i r. map_of (nodes d) i = Some r \<Longrightarrow> r < length (heap d) \<and> ident d r = i"
  shows "wf_dag d"
  using assms by (auto simp: wf_dag_def)

lemma wf_dag_extends:
  assumes "wf_dag d" "extends d d'" "nodes d' = nodes d"
  shows "wf_dag d'"
proof (rule wf_dagI)
  show "distinct (map fst (nodes d'))" using assms by (simp add: wf_dag_def)
  fix i r assume "map_of (nodes d') i = Some r"
  then have "r < length (heap d)" "ident d r = i" using assms wf_dag_get by auto
  then show "r < length (heap d') \<and> ident d' r = i"
    using assms(2) extends_ident by (auto simp: extends_def)
qed

lemma wf_dag_put:
  assumes "wf_dag d" "r < length (heap d)"
  shows "wf_dag (d\<lparr>nodes := put (ident d r) r (nodes d)\<rparr>)"
proof (rule wf_dagI)
  fix i q assume "map_of (nodes (d\<lparr>nodes := put (ident d r) r (nodes d)\<rparr>)) i = Some q"
  then show "q < length (heap (d\<lparr>nodes := put (ident d r) r (nodes d)\<rparr>)) \<and>
      ident (d\<lparr>nodes := put (ident d r) r (nodes d)\<rparr>) q = i"
    using assms wf_dag_get [OF assms(1)] by (auto simp: ident_def deref_def split: if_splits)
qed (use assms in \<open>simp add: wf_dag_def\<close>)

lemma add_parents_extends [simp]:
  "extends d (add_parents d r pc)" "nodes (add_parents d r pc) = nodes d"
  "length (heap (add_parents d r pc)) = length (heap d)"
  by (simp_all add: extends_def add_parents_def deref_def)
    (metis nth_list_update_eq nth_list_update_neq shape_AddParentConstraints)

lemma AddNeighbors_extends:
  "extends d (AddNeighbors d r ns) \<and> nodes (AddNeighbors d r ns) = nodes d \<and>
   length (heap (AddNeighbors d r ns)) = length (heap d)"
proof (induction d r ns rule: AddNeighbors.induct)
  case (2 d r n ns)
  then show ?case
    by (auto split: node.splits option.splits intro: extends_trans [OF add_parents_extends(1)])
qed simp

lemma inherit_parents_extends [simp]:
  "extends d (inherit_parents d r)" "nodes (inherit_parents d r) = nodes d"
  "length (heap (inherit_parents d r)) = length (heap d)"
  by (auto simp: inherit_parents_def split: option.splits)

lemma alloc_extends:
  "alloc d ns = (rs, d') \<Longrightarrow>
     extends d d' \<and> nodes d' = nodes d \<and> length (heap d') = length (heap d) + length ns \<and>
     rs = [length (heap d)..<length (heap d')] \<and>
     (\<forall>k < length ns. deref d' (length (heap d) + k) = ns ! k)"
  by (auto simp: alloc_def extends_def deref_def nth_append)

lemma AddNode_new:
  "ident d n \<notin> keys (nodes d) \<Longrightarrow>
     AddNode d n = (Inr (), d\<lparr>nodes := put (ident d n) n (nodes d)\<rparr>)"
  by (simp add: AddNode_def not_in_keys_iff)

lemma AddNode_dup: "ident d n \<in> keys (nodes d) \<Longrightarrow> \<exists>e. AddNode d n = (Inl e, d)"
  by (auto simp: AddNode_def in_keys_iff)

text \<open>Adding nodes succeeds exactly when their identifiers are new and distinct.\<close>

lemma ident_nodes [simp]: "ident (d\<lparr>nodes := m\<rparr>) = ident d"
  by (rule ext) (simp add: ident_def deref_def)

lemma deref_nodes [simp]: "deref (d\<lparr>nodes := m\<rparr>) r = deref d r"
  by (simp add: deref_def)

lemma AddNodes_ok:
  assumes "wf_dag d" "\<forall>n \<in> set ns. n < length (heap d)" "distinct (map (ident d) ns)"
    "\<forall>n \<in> set ns. ident d n \<notin> keys (nodes d)"
  shows "\<exists>m. AddNodes d ns = (Inr (), d\<lparr>nodes := m\<rparr>) \<and> wf_dag (d\<lparr>nodes := m\<rparr>) \<and>
     (\<forall>i. map_of m i = (case map_of (nodes d) i of Some r \<Rightarrow> Some r
        | None \<Rightarrow> find (\<lambda>n. ident d n = i) ns))"
  using assms
proof (induction ns arbitrary: d)
  case Nil
  then show ?case by (intro exI [of _ "nodes d"]) (auto split: option.splits)
next
  case (Cons n ns)
  let ?d = "d\<lparr>nodes := put (ident d n) n (nodes d)\<rparr>"
  have "wf_dag ?d" using Cons.prems by (intro wf_dag_put) auto
  moreover have "\<forall>n \<in> set ns. n < length (heap ?d)" using Cons.prems by simp
  moreover have "distinct (map (ident ?d) ns)" using Cons.prems(3) by simp
  moreover have "\<forall>k \<in> set ns. ident ?d k \<notin> keys (nodes ?d)"
    using Cons.prems(3,4) by (auto simp: image_iff)
  ultimately obtain m where m: "AddNodes ?d ns = (Inr (), ?d\<lparr>nodes := m\<rparr>)"
    "wf_dag (?d\<lparr>nodes := m\<rparr>)" "\<forall>i. map_of m i = (case map_of (nodes ?d) i of Some r \<Rightarrow> Some r
        | None \<Rightarrow> find (\<lambda>n. ident ?d n = i) ns)"
    using Cons.IH [of ?d] by blast
  moreover have "AddNode d n = (Inr (), ?d)" using Cons.prems by (intro AddNode_new) simp
  ultimately show ?case
    using Cons.prems(4) by (intro exI [of _ m]) (auto simp: not_in_keys_iff split: option.splits)
qed

lemma AddNodes_dup:
  assumes "\<not> distinct (map (ident d) ns) \<or> (\<exists>n \<in> set ns. ident d n \<in> keys (nodes d))"
  shows "\<exists>e d'. AddNodes d ns = (Inl e, d')"
  using assms
proof (induction ns arbitrary: d)
  case (Cons n ns)
  show ?case
  proof (cases "ident d n \<in> keys (nodes d)")
    case True
    then show ?thesis using AddNode_dup [of d n] by auto
  next
    case False
    let ?d = "d\<lparr>nodes := put (ident d n) n (nodes d)\<rparr>"
    have "\<not> distinct (map (ident ?d) ns) \<or> (\<exists>k \<in> set ns. ident ?d k \<in> keys (nodes ?d))"
      using Cons.prems False by auto
    then have "\<exists>e d'. AddNodes ?d ns = (Inl e, d')" by (rule Cons.IH)
    with False show ?thesis by (simp add: AddNode_new)
  qed
qed simp

section \<open>The interface\<close>

locale dag_interface =
  fixes ae :: add_edge
  assumes edge_missing: "from \<notin> keys (nodes d) \<Longrightarrow> \<exists>e. ae d from to = ((False, Some e), d)"
    and edge_ok: "wf_dag d \<Longrightarrow> from \<in> keys (nodes d) \<Longrightarrow> to < length (heap d) \<Longrightarrow>
      \<exists>b d'. ae d from to = ((b, None), d') \<and> extends d d' \<and> length (heap d') = length (heap d) \<and>
        nodes d' = (if ident d to \<in> keys (nodes d) then nodes d else put (ident d to) to (nodes d)) \<and>
        (ident d to \<notin> keys (nodes d) \<longrightarrow> b)"
begin

lemma edge_wf:
  assumes "wf_dag d" "from \<in> keys (nodes d)" "to < length (heap d)"
    "ae d from to = ((b, None), d')"
  shows "wf_dag d' \<and> keys (nodes d') = insert (ident d to) (keys (nodes d))"
proof (cases "ident d to \<in> keys (nodes d)")
  case True
  with edge_ok [OF assms(1-3)] assms(4) show ?thesis
    using wf_dag_extends [OF assms(1)] by auto
next
  case False
  with edge_ok [OF assms(1-3)] assms(4)
  have d': "extends d d'" "length (heap d') = length (heap d)"
    "nodes d' = put (ident d to) to (nodes d)" by auto
  have "wf_dag (d\<lparr>nodes := put (ident d to) to (nodes d)\<rparr>)"
    using assms by (intro wf_dag_put)
  then have "wf_dag d'"
    by (rule wf_dag_extends) (use d' in \<open>auto simp: extends_def deref_def\<close>)
  with d' show ?thesis by simp
qed

lemma AddEdgesFrom_ok:
  assumes "wf_dag d" "f \<in> keys (nodes d)" "\<forall>e \<in> set es. e < length (heap d)"
  shows "\<exists>new d'. AddEdgesFrom ae d f es miss = (Inr (miss @ new), d') \<and> wf_dag d' \<and>
    extends d d' \<and> length (heap d') = length (heap d) \<and> set new \<subseteq> set es \<and>
    keys (nodes d') = keys (nodes d) \<union> ident d ` set es \<and>
    keys (nodes d') - keys (nodes d) \<subseteq> ident d ` set new \<and>
    map_of (nodes d) \<subseteq>\<^sub>m map_of (nodes d') \<and>
    (\<forall>i r. map_of (nodes d') i = Some r \<longrightarrow> map_of (nodes d) i = Some r \<or> r \<in> set es)"
  using assms
proof (induction es arbitrary: d miss)
  case Nil
  then show ?case by simp
next
  case (Cons e es)
  have e: "e < length (heap d)" using Cons.prems by simp
  obtain b d1 where d1: "ae d f e = ((b, None), d1)" "extends d d1"
    "length (heap d1) = length (heap d)"
    "nodes d1 = (if ident d e \<in> keys (nodes d) then nodes d else put (ident d e) e (nodes d))"
    "ident d e \<notin> keys (nodes d) \<longrightarrow> b"
    using edge_ok [OF Cons.prems(1,2) e] by blast
  have wf: "wf_dag d1" "keys (nodes d1) = insert (ident d e) (keys (nodes d))"
    using edge_wf [OF Cons.prems(1,2) e d1(1)] by auto
  have idents: "ident d1 ` set es = ident d ` set es"
    using Cons.prems(3) extends_ident [OF d1(2)] by (intro image_cong) auto
  let ?miss = "if b then miss @ [e] else miss"
  obtain new d' where d': "AddEdgesFrom ae d1 f es ?miss = (Inr (?miss @ new), d')" "wf_dag d'"
    "extends d1 d'" "length (heap d') = length (heap d1)" "set new \<subseteq> set es"
    "keys (nodes d') = keys (nodes d1) \<union> ident d1 ` set es"
    "keys (nodes d') - keys (nodes d1) \<subseteq> ident d1 ` set new"
    "map_of (nodes d1) \<subseteq>\<^sub>m map_of (nodes d')"
    "\<forall>i r. map_of (nodes d') i = Some r \<longrightarrow> map_of (nodes d1) i = Some r \<or> r \<in> set es"
    using Cons.IH [OF wf(1), of ?miss] Cons.prems wf(2) d1(3) by auto
  let ?new = "if b then e # new else new"
  have "AddEdgesFrom ae d f (e # es) miss = (Inr (miss @ ?new), d')"
    using d1(1) d'(1) by simp
  moreover have "extends d d'" using d1(2) d'(3) by (rule extends_trans)
  moreover have "keys (nodes d') = keys (nodes d) \<union> ident d ` set (e # es)"
    using d'(6) wf(2) idents by auto
  moreover have "keys (nodes d') - keys (nodes d) \<subseteq> ident d ` set ?new"
  proof -
    have "ident d1 ` set new = ident d ` set new"
      using Cons.prems(3) d'(5) extends_ident [OF d1(2)] by (intro image_cong) auto
    then show ?thesis using d'(7) wf(2) d1(5) by auto
  qed
  moreover have "map_of (nodes d) \<subseteq>\<^sub>m map_of (nodes d')"
  proof -
    have "map_of (nodes d) \<subseteq>\<^sub>m map_of (nodes d1)"
      by (auto simp: d1(4) map_le_def not_in_keys_iff)
    then show ?thesis using d'(8) by (rule map_le_trans)
  qed
  moreover have "\<forall>i r. map_of (nodes d') i = Some r \<longrightarrow>
      map_of (nodes d) i = Some r \<or> r \<in> set (e # es)"
    using d'(9) d1(4) by (auto split: if_splits)
  moreover have "set ?new \<subseteq> set (e # es)" using d'(5) by auto
  ultimately show ?case using d'(2,4) d1(3) by auto
qed

lemma Init_edges_ok:
  assumes "wf_dag d" "\<forall>n \<in> set ns. n < length (heap d) \<and> ident d n \<in> keys (nodes d)"
  shows "\<exists>new d'. Init_edges ae d ns imp = (Inr (imp @ new), d') \<and> wf_dag d' \<and> extends d d' \<and>
    keys (nodes d') = keys (nodes d) \<union> (\<Union>n \<in> set ns. Identifier ` set (Neighbors (deref d n))) \<and>
    keys (nodes d') - keys (nodes d) \<subseteq> ident d' ` set new \<and>
    map_of (nodes d) \<subseteq>\<^sub>m map_of (nodes d') \<and> (\<forall>r \<in> set new. r < length (heap d')) \<and>
    (\<forall>i r. map_of (nodes d') i = Some r \<longrightarrow>
       map_of (nodes d) i = Some r \<or> \<not> is_package (deref d' r))"
  using assms
proof (induction ns arbitrary: d imp)
  case Nil
  then show ?case by simp
next
  case (Cons n ns)
  obtain nbrs d1 where al: "alloc d (Neighbors (deref d n)) = (nbrs, d1)"
    by (cases "alloc d (Neighbors (deref d n))") auto
  note d1 = alloc_extends [OF al]
  have wf1: "wf_dag d1" using Cons.prems(1) d1 wf_dag_extends by blast
  have n: "n < length (heap d)" "ident d n \<in> keys (nodes d)" using Cons.prems(2) by auto
  have nb: "\<forall>e \<in> set nbrs. e < length (heap d1)" using d1 by auto
  have nbr_val: "map (deref d1) nbrs = Neighbors (deref d n)"
    using d1 by (intro nth_equalityI) auto
  have nbr_ids: "ident d1 ` set nbrs = Identifier ` set (Neighbors (deref d n))"
    using arg_cong [OF nbr_val, of "\<lambda>xs. Identifier ` set xs"]
    by (simp add: ident_def image_image)
  have leaf: "\<not> is_package (deref d1 e)" if "e \<in> set nbrs" for e
  proof -
    have "deref d1 e \<in> set (Neighbors (deref d n))"
      using arg_cong [OF nbr_val, of set] that by auto
    then show ?thesis by (cases "deref d n") auto
  qed
  obtain new2 d2 where d2: "AddEdgesFrom ae d1 (ident d n) nbrs [] = (Inr ([] @ new2), d2)"
    "wf_dag d2" "extends d1 d2" "length (heap d2) = length (heap d1)" "set new2 \<subseteq> set nbrs"
    "keys (nodes d2) = keys (nodes d1) \<union> ident d1 ` set nbrs"
    "keys (nodes d2) - keys (nodes d1) \<subseteq> ident d1 ` set new2"
    "map_of (nodes d1) \<subseteq>\<^sub>m map_of (nodes d2)"
    "\<forall>i r. map_of (nodes d2) i = Some r \<longrightarrow> map_of (nodes d1) i = Some r \<or> r \<in> set nbrs"
    using AddEdgesFrom_ok [OF wf1 _ nb, of "ident d n" "[]"] n(2) d1 by auto
  have ext2: "extends d d2" using d1 d2(3) extends_trans by blast
  have prem2: "\<forall>k \<in> set ns. k < length (heap d2) \<and> ident d2 k \<in> keys (nodes d2)"
    using Cons.prems(2) ext2 extends_ident [OF ext2] d2(6) d1
    by (auto simp: extends_def)
  obtain new d' where d': "Init_edges ae d2 ns (imp @ new2) = (Inr ((imp @ new2) @ new), d')"
    "wf_dag d'" "extends d2 d'"
    "keys (nodes d') = keys (nodes d2) \<union> (\<Union>n \<in> set ns. Identifier ` set (Neighbors (deref d2 n)))"
    "keys (nodes d') - keys (nodes d2) \<subseteq> ident d' ` set new"
    "map_of (nodes d2) \<subseteq>\<^sub>m map_of (nodes d')" "\<forall>r \<in> set new. r < length (heap d')"
    "\<forall>i r. map_of (nodes d') i = Some r \<longrightarrow>
       map_of (nodes d2) i = Some r \<or> \<not> is_package (deref d' r)"
    using Cons.IH [OF d2(2) prem2, of "imp @ new2"] by blast
  have "Init_edges ae d (n # ns) imp = (Inr (imp @ (new2 @ new)), d')"
    using al d2(1) d'(1) d1 by (simp add: AddEdges_with_def)
  moreover have "extends d d'" using ext2 d'(3) by (rule extends_trans)
  moreover have "keys (nodes d') = keys (nodes d) \<union>
      (\<Union>n \<in> set (n # ns). Identifier ` set (Neighbors (deref d n)))"
    using d'(4) d2(6) d1 nbr_ids extends_Neighbors [OF ext2] Cons.prems(2) by auto
  moreover
  have new2: "ident d' ` set new2 = ident d1 ` set new2"
  proof (rule image_cong [OF refl])
    fix r assume "r \<in> set new2"
    then have "r < length (heap d1)" "r < length (heap d2)" using d2(4,5) nb by auto
    then show "ident d' r = ident d1 r"
      using extends_ident [OF d'(3)] extends_ident [OF d2(3)] by simp
  qed
  have "keys (nodes d') - keys (nodes d) \<subseteq> ident d' ` set new2 \<union> ident d' ` set new"
    using d'(5) d2(7) d1 unfolding new2 by auto
  then have "keys (nodes d') - keys (nodes d) \<subseteq> ident d' ` set (new2 @ new)"
    by (simp add: image_Un)
  moreover have "map_of (nodes d) \<subseteq>\<^sub>m map_of (nodes d')"
    using d1 d2(8) d'(6) map_le_trans by metis
  moreover have "\<forall>r \<in> set (new2 @ new). r < length (heap d')"
    using d'(3,7) d2(4,5) nb by (fastforce simp: extends_def)
  moreover have "\<forall>i r. map_of (nodes d') i = Some r \<longrightarrow>
       map_of (nodes d) i = Some r \<or> \<not> is_package (deref d' r)"
  proof (intro allI impI)
    fix i r assume "map_of (nodes d') i = Some r"
    then consider "map_of (nodes d1) i = Some r" | "r \<in> set nbrs" | "\<not> is_package (deref d' r)"
      using d'(8) d2(9) by blast
    then show "map_of (nodes d) i = Some r \<or> \<not> is_package (deref d' r)"
    proof cases
      case 2
      then have "r < length (heap d1)" "r < length (heap d2)" using nb d2(4) by auto
      then show ?thesis
        using leaf [OF 2] extends_is_package [OF d'(3)] extends_is_package [OF d2(3)] by simp
    qed (use d1 in auto)
  qed
  ultimately show ?case using d'(2) by blast
qed

text \<open>
  What \<^verbatim>\<open>Init\<close> builds from nodes with distinct identifiers, and that it fails otherwise.
\<close>

lemma Init_ok:
  assumes "\<forall>n \<in> set ns. n < length (heap d)" "distinct (map (ident d) ns)"
  shows "\<exists>implied d'. Init_with ae d ns = (Inr implied, d') \<and> wf_dag d' \<and> closed d' \<and> extends d d' \<and>
    keys (nodes d') = ident d ` set ns \<union>
      (\<Union>n \<in> set ns. Identifier ` set (Neighbors (deref d n))) \<and>
    keys (nodes d') - ident d ` set ns \<subseteq> ident d' ` set implied \<and>
    (\<forall>n \<in> set ns. map_of (nodes d') (ident d n) = Some n) \<and>
    (\<forall>r \<in> set implied. r < length (heap d')) \<and>
    (\<forall>i r. map_of (nodes d') i = Some r \<longrightarrow> r \<in> set ns \<and> ident d r = i \<or> \<not> is_package (deref d' r))"
proof -
  let ?d = "d\<lparr>nodes := []\<rparr>"
  have "wf_dag ?d" by (simp add: wf_dag_def)
  then obtain m where m: "AddNodes ?d ns = (Inr (), ?d\<lparr>nodes := m\<rparr>)" "wf_dag (?d\<lparr>nodes := m\<rparr>)"
    "\<forall>i. map_of m i = find (\<lambda>n. ident d n = i) ns"
    using AddNodes_ok [of ?d ns] assms by auto
  let ?d1 = "d\<lparr>nodes := m\<rparr>"
  have found: "map_of m (ident d n) = Some n" if "n \<in> set ns" for n
  proof -
    have "find (\<lambda>k. ident d k = ident d n) ns = Some n"
      using that assms(2) by (induction ns) (auto simp: image_iff)
    then show ?thesis using m(3) by simp
  qed
  have origin: "r \<in> set ns \<and> ident d r = i" if "map_of m i = Some r" for i r
    using that m(3) by (auto simp: find_Some_iff)
  have km: "keys m = ident d ` set ns"
    using found origin by (fastforce simp: in_keys_iff)
  obtain implied d' where d': "Init_edges ae ?d1 ns [] = (Inr ([] @ implied), d')" "wf_dag d'"
    "extends ?d1 d'"
    "keys (nodes d') = keys m \<union> (\<Union>n \<in> set ns. Identifier ` set (Neighbors (deref d n)))"
    "keys (nodes d') - keys m \<subseteq> ident d' ` set implied"
    "map_of m \<subseteq>\<^sub>m map_of (nodes d')" "\<forall>r \<in> set implied. r < length (heap d')"
    "\<forall>i r. map_of (nodes d') i = Some r \<longrightarrow> map_of m i = Some r \<or> \<not> is_package (deref d' r)"
    using Init_edges_ok [of ?d1 ns "[]"] m(2) assms(1) km by auto
  have ext: "extends d d'" using d'(3) by (simp add: extends_def)
  have "closed d'" unfolding closed_def
  proof (clarify)
    fix i r j assume ir: "(i, r) \<in> set (nodes d')" and j: "j \<in> set (succs d' i)"
    have r: "map_of (nodes d') i = Some r" using ir d'(2) by (simp add: wf_dag_def)
    have j': "j \<in> Identifier ` set (Neighbors (deref d' r))"
      using j succs_Some [OF r] by simp
    from d'(8) r consider "map_of m i = Some r" | "\<not> is_package (deref d' r)" by blast
    then show "j \<in> keys (nodes d')"
    proof cases
      case 1
      then have "r \<in> set ns" using origin by blast
      moreover have "Neighbors (deref d' r) = Neighbors (deref d r)"
        using \<open>r \<in> set ns\<close> assms(1) extends_Neighbors [OF ext] by simp
      ultimately show ?thesis using j' by (simp add: d'(4)) blast
    qed (use j' in \<open>simp add: not_package_Neighbors\<close>)
  qed
  moreover have "\<forall>n \<in> set ns. map_of (nodes d') (ident d n) = Some n"
    using found d'(6) by (auto simp: map_le_def dom_def)
  moreover have "\<forall>i r. map_of (nodes d') i = Some r \<longrightarrow>
      r \<in> set ns \<and> ident d r = i \<or> \<not> is_package (deref d' r)"
    using d'(8) origin by blast
  moreover have "Init_with ae d ns = (Inr implied, d')"
    using m(1) d'(1) by (simp add: Init_with_def)
  ultimately show ?thesis
    using d'(2,4,5,7) km ext by (intro exI [of _ implied] exI [of _ d']) simp
qed

lemma Init_dup:
  assumes "\<not> distinct (map (ident d) ns)"
  shows "\<exists>e d'. Init_with ae d ns = (Inl e, d')"
  using AddNodes_dup [of "d\<lparr>nodes := []\<rparr>" ns] assms by (auto simp: Init_with_def)

end

text \<open>
  An implementation that reports a target exactly when it was absent reports each implied
  node once.
\<close>

locale exact_dag = dag_interface +
  assumes edge_implied: "ae d from to = ((b, None), d') \<Longrightarrow> b \<longleftrightarrow> ident d to \<notin> keys (nodes d)"
begin

lemma AddEdgesFrom_exact:
  assumes "wf_dag d" "f \<in> keys (nodes d)" "\<forall>e \<in> set es. e < length (heap d)"
    "AddEdgesFrom ae d f es miss = (Inr (miss @ new), d')"
  shows "distinct (map (ident d) new) \<and> ident d ` set new \<inter> keys (nodes d) = {}"
  using assms
proof (induction es arbitrary: d miss new d')
  case (Cons e es)
  have e: "e < length (heap d)" using Cons.prems by simp
  obtain b d1 where d1: "ae d f e = ((b, None), d1)" "extends d d1"
    "length (heap d1) = length (heap d)"
    using edge_ok [OF Cons.prems(1,2) e] by blast
  have b: "b \<longleftrightarrow> ident d e \<notin> keys (nodes d)" using d1(1) by (rule edge_implied)
  have wf: "wf_dag d1" "keys (nodes d1) = insert (ident d e) (keys (nodes d))"
    using edge_wf [OF Cons.prems(1,2) e d1(1)] by auto
  have f: "f \<in> keys (nodes d1)" "\<forall>e \<in> set es. e < length (heap d1)"
    using Cons.prems wf d1 by auto
  let ?miss = "if b then miss @ [e] else miss"
  obtain new1 d2 where new1: "AddEdgesFrom ae d1 f es ?miss = (Inr (?miss @ new1), d2)"
    "set new1 \<subseteq> set es"
    using AddEdgesFrom_ok [OF wf(1) f, of ?miss] by blast
  from Cons.IH [OF wf(1) f new1(1)]
  have IH: "distinct (map (ident d1) new1)" "ident d1 ` set new1 \<inter> keys (nodes d1) = {}" by auto
  have same: "map (ident d1) new1 = map (ident d) new1" "ident d1 ` set new1 = ident d ` set new1"
    using new1(2) Cons.prems(3) extends_ident [OF d1(2)] by (auto intro!: image_cong)
  have "new = (if b then e # new1 else new1)"
    using Cons.prems(4) d1(1) new1(1) by (auto split: if_splits)
  then show ?case using IH wf(2) b unfolding same by auto
qed simp

lemma Init_edges_exact:
  assumes "wf_dag d" "\<forall>n \<in> set ns. n < length (heap d) \<and> ident d n \<in> keys (nodes d)"
    "Init_edges ae d ns imp = (Inr (imp @ new), d')"
  shows "distinct (map (ident d') new) \<and> ident d' ` set new = keys (nodes d') - keys (nodes d)"
  using assms
proof (induction ns arbitrary: d imp new)
  case Nil
  then show ?case by simp
next
  case (Cons n ns)
  obtain nbrs d1 where al: "alloc d (Neighbors (deref d n)) = (nbrs, d1)"
    by (cases "alloc d (Neighbors (deref d n))") auto
  note d1 = alloc_extends [OF al]
  have wf1: "wf_dag d1" using Cons.prems(1) d1 wf_dag_extends by blast
  have f: "ident d n \<in> keys (nodes d1)" "\<forall>e \<in> set nbrs. e < length (heap d1)"
    using Cons.prems(2) d1 by auto
  obtain new2 d2 where d2: "AddEdgesFrom ae d1 (ident d n) nbrs [] = (Inr ([] @ new2), d2)"
    "wf_dag d2" "extends d1 d2" "length (heap d2) = length (heap d1)" "set new2 \<subseteq> set nbrs"
    "keys (nodes d2) = keys (nodes d1) \<union> ident d1 ` set nbrs"
    "keys (nodes d2) - keys (nodes d1) \<subseteq> ident d1 ` set new2"
    using AddEdgesFrom_ok [OF wf1 f, of "[]"] by auto
  note ex = AddEdgesFrom_exact [OF wf1 f d2(1)]
  have ext2: "extends d d2" using d1 d2(3) extends_trans by blast
  have prem2: "\<forall>k \<in> set ns. k < length (heap d2) \<and> ident d2 k \<in> keys (nodes d2)"
    using Cons.prems(2) ext2 extends_ident [OF ext2] d2(6) d1 by (auto simp: extends_def)
  obtain new3 d3 where d3: "Init_edges ae d2 ns (imp @ new2) = (Inr ((imp @ new2) @ new3), d3)"
    "extends d2 d3" "keys (nodes d3) = keys (nodes d2) \<union>
       (\<Union>n \<in> set ns. Identifier ` set (Neighbors (deref d2 n)))"
    using Init_edges_ok [OF d2(2) prem2, of "imp @ new2"] by auto
  have eq: "new = new2 @ new3" "d' = d3"
    using Cons.prems(3) al d2(1) d3(1) by (auto simp: AddEdges_with_def d1)
  note IH = Cons.IH [OF d2(2) prem2 d3(1) [folded eq(2)]]
  have ids2: "map (ident d') new2 = map (ident d1) new2"
    using d2(4,5) f(2) extends_ident [OF d3(2)] extends_ident [OF d2(3)] eq(2) by auto
  have set2: "ident d' ` set new2 = keys (nodes d2) - keys (nodes d)"
  proof -
    have "ident d' ` set new2 = ident d1 ` set new2"
      using arg_cong [OF ids2, of set] by simp
    also have "\<dots> = keys (nodes d2) - keys (nodes d)"
      using ex d2(5,6,7) d1 by (auto dest: subsetD)
    finally show ?thesis .
  qed
  have "keys (nodes d) \<subseteq> keys (nodes d2)" using d2(6) d1 by auto
  moreover have "keys (nodes d2) \<subseteq> keys (nodes d')" using d3(3) eq(2) by auto
  moreover have "distinct (map (ident d') (new2 @ new3))"
  proof -
    have "distinct (map (ident d') new2)" using ex by (simp add: ids2)
    moreover have "set (map (ident d') new2) \<inter> set (map (ident d') new3) = {}"
      using set2 IH by auto
    ultimately show ?thesis using IH by simp
  qed
  ultimately show ?case using IH set2 unfolding eq(1) by (auto simp: image_Un)
qed

lemma Init_exact:
  assumes "\<forall>n \<in> set ns. n < length (heap d)"
    "Init_with ae d ns = (Inr implied, d')"
  shows "distinct (map (ident d') implied) \<and>
    ident d' ` set implied = keys (nodes d') - ident d ` set ns"
proof -
  let ?d = "d\<lparr>nodes := []\<rparr>"
  have dist: "distinct (map (ident d) ns)"
    using Init_dup [of d ns] assms(2) by fastforce
  have "wf_dag ?d" by (simp add: wf_dag_def)
  then obtain m where m: "AddNodes ?d ns = (Inr (), ?d\<lparr>nodes := m\<rparr>)" "wf_dag (?d\<lparr>nodes := m\<rparr>)"
    "\<forall>i. map_of m i = find (\<lambda>n. ident d n = i) ns"
    using AddNodes_ok [of ?d ns] assms dist by auto
  have km: "keys m = ident d ` set ns"
  proof (rule set_eqI)
    fix i
    have "i \<in> keys m \<longleftrightarrow> find (\<lambda>n. ident d n = i) ns \<noteq> None" using m(3) by (auto simp: in_keys_iff)
    then show "i \<in> keys m \<longleftrightarrow> i \<in> ident d ` set ns" by (auto simp: find_None_iff)
  qed
  have "Init_edges ae (d\<lparr>nodes := m\<rparr>) ns [] = (Inr ([] @ implied), d')"
    using assms(2) m(1) by (simp add: Init_with_def)
  from Init_edges_exact [OF _ _ this] m(2) km assms(1) show ?thesis by simp
qed

end

section \<open>The two implementations\<close>

lemmas AddNeighbors_keep =
  AddNeighbors_extends [THEN conjunct1]
  AddNeighbors_extends [THEN conjunct2, THEN conjunct1]
  AddNeighbors_extends [THEN conjunct2, THEN conjunct2]

lemma extends_nodes_left [simp]: "extends (d\<lparr>nodes := m\<rparr>) d' \<longleftrightarrow> extends d d'"
  by (simp add: extends_def)

lemma ident_AddNeighbors: "r < length (heap d) \<Longrightarrow> ident (AddNeighbors d f ns) r = ident d r"
  by (rule extends_ident [OF AddNeighbors_keep(1)])

lemma AddNode_result:
  "AddNode d t = (if ident d t \<in> keys (nodes d)
     then (Inl (Errorf ''node %s already exists'' [ident d t]), d)
     else (Inr (), d\<lparr>nodes := put (ident d t) t (nodes d)\<rparr>))"
  by (auto simp: AddNode_def in_keys_iff not_in_keys_iff)

interpretation plain: exact_dag AddEdge
proof
  fix d :: map_dag and f t
  assume "f \<notin> keys (nodes d)"
  then show "\<exists>e. AddEdge d f t = ((False, Some e), d)"
    by (simp add: AddEdge_def not_in_keys_iff)
next
  fix d :: map_dag and f t
  assume "wf_dag d" and f: "f \<in> keys (nodes d)" and "t < length (heap d)"
  from f obtain r where r: "map_of (nodes d) f = Some r" by (auto simp: in_keys_iff)
  show "\<exists>b d'. AddEdge d f t = ((b, None), d') \<and> extends d d' \<and>
      length (heap d') = length (heap d) \<and>
      nodes d' = (if ident d t \<in> keys (nodes d) then nodes d else put (ident d t) t (nodes d)) \<and>
      (ident d t \<notin> keys (nodes d) \<longrightarrow> b)"
  proof (cases "map_of (nodes d) (ident d t)")
    case (Some q)
    then show ?thesis
      by (intro exI [of _ False] exI [of _ "AddNeighbors d r [t]"])
        (simp add: AddEdge_def r in_keys_iff AddNeighbors_keep del: AddNeighbors.simps)
  next
    case None
    let ?d = "d\<lparr>nodes := put (ident d t) t (nodes d)\<rparr>"
    have "extends d (AddNeighbors ?d r [t])"
      using AddNeighbors_keep(1) [of ?d r "[t]"] by (simp del: AddNeighbors.simps)
    then show ?thesis
      using None by (intro exI [of _ True] exI [of _ "AddNeighbors ?d r [t]"])
        (simp add: AddEdge_def AddNode_result r in_keys_iff AddNeighbors_keep del: AddNeighbors.simps)
  qed
next
  fix d :: map_dag and f t b d'
  assume "AddEdge d f t = ((b, None), d')"
  then show "b \<longleftrightarrow> ident d t \<notin> keys (nodes d)"
    by (auto simp: AddEdge_def AddNode_result in_keys_iff simp del: AddNeighbors.simps
        split: option.splits)
qed

interpretation upgrading: dag_interface "up_AddEdge sv" for sv
proof
  fix d :: map_dag and f t
  assume "f \<notin> keys (nodes d)"
  then show "\<exists>e. up_AddEdge sv d f t = ((False, Some e), d)"
    by (simp add: up_AddEdge_def not_in_keys_iff)
next
  fix d :: map_dag and f t
  assume "wf_dag d" and f: "f \<in> keys (nodes d)" and "t < length (heap d)"
  from f obtain r where r: "map_of (nodes d) f = Some r" by (auto simp: in_keys_iff)
  show "\<exists>b d'. up_AddEdge sv d f t = ((b, None), d') \<and> extends d d' \<and>
      length (heap d') = length (heap d) \<and>
      nodes d' = (if ident d t \<in> keys (nodes d) then nodes d else put (ident d t) t (nodes d)) \<and>
      (ident d t \<notin> keys (nodes d) \<longrightarrow> b)"
  proof (cases "map_of (nodes d) (ident d t)")
    case (Some q)
    have "extends d (inherit_parents (AddNeighbors d r [t]) t)"
      by (rule extends_trans [OF AddNeighbors_keep(1) inherit_parents_extends(1)])
    with Some show ?thesis
      by (intro exI [of _ "\<not> isValidConstraints sv (deref d q) (deref d t)"]
          exI [of _ "inherit_parents (AddNeighbors d r [t]) t"])
        (simp add: up_AddEdge_def r in_keys_iff AddNeighbors_keep del: AddNeighbors.simps)
  next
    case None
    let ?d = "d\<lparr>nodes := put (ident d t) t (nodes d)\<rparr>"
    have "extends ?d (inherit_parents (AddNeighbors ?d r [t]) t)"
      by (rule extends_trans [OF AddNeighbors_keep(1) inherit_parents_extends(1)])
    with None show ?thesis
      by (intro exI [of _ True] exI [of _ "inherit_parents (AddNeighbors ?d r [t]) t"])
        (simp add: up_AddEdge_def AddNode_result r in_keys_iff AddNeighbors_keep
          del: AddNeighbors.simps)
  qed
qed

end
