(* ===== verification/DagProps.thy ===== *)
theory DagProps
  imports DagInit
begin

text \<open>
  The properties of the dependency graph: the sort, the trace, and both \<^verbatim>\<open>Init\<close>s on the packages
  of a lock.
\<close>

section \<open>A small lock\<close>

text \<open>Package \<open>a\<close> needs \<open>b\<close> and \<open>c\<close>, package \<open>b\<close> needs \<open>c\<close>; \<open>c\<close> is not installed.\<close>

definition mk_dep :: "string \<Rightarrow> string \<Rightarrow> dependency" where
  "mk_dep p c = \<lparr>dep_Package = p, dep_APIVersion = None, dep_Kind = None,
     dep_Type = Some ProviderPackageType, dep_Constraints = c, dep_ParentConstraints = []\<rparr>"

definition mk_pkg :: "string \<Rightarrow> string \<Rightarrow> dependency list \<Rightarrow> lock_package" where
  "mk_pkg s v deps = \<lparr>lp_Name = s, lp_APIVersion = None, lp_Kind = None,
     lp_Type = Some ProviderPackageType, lp_Source = s, lp_Version = v, lp_Dependencies = deps,
     lp_ParentConstraints = []\<rparr>"

definition small_lock :: "lock_package list" where
  "small_lock = [mk_pkg ''a'' ''v1'' [mk_dep ''b'' ''>=v1'', mk_dep ''c'' ''>=v2''],
     mk_pkg ''b'' ''v1'' [mk_dep ''c'' ''>=v1'']]"

definition small_dag :: map_dag where
  "small_dag = snd (PackagesToNodes (NewMapDag []) small_lock)"

definition small_graph :: map_dag where
  "small_graph = snd (Init small_dag [0, 1])"

lemmas small_defs = small_graph_def small_dag_def small_lock_def mk_pkg_def mk_dep_def
  PackagesToNodes_def NewMapDag_def alloc_def Init_def Init_with_def AddEdges_with_def AddNode_def
  AddEdge_def ident_def deref_def add_parents_def dep_Identifier_def lp_Identifier_def
  lp_AddParentConstraints_def dep_AddParentConstraints_def

lemma small_dag_heap: "heap small_dag = map PackageNode small_lock" "nodes small_dag = []"
  by (simp_all add: small_dag_def PackagesToNodes_def NewMapDag_def alloc_def)

lemma small_graph_nodes: "nodes small_graph = [(''a'', 0), (''b'', 1), (''c'', 3)]"
  by (simp add: small_defs)

lemma small_graph_keys: "keys (nodes small_graph) = {''a'', ''b'', ''c''}"
  by (simp add: small_graph_nodes keys_def)

section \<open>Sorting\<close>

text \<open>
  C18: \<^verbatim>\<open>MapDag.Sort\<close>, whatever order the Go map is ranged over, returns every identifier of
  the graph exactly once and after all the identifiers it depends on.
\<close>

theorem Sort_topological:
  assumes "Sort d ord = Inr out" "distinct (map fst (nodes d))" "set ord = keys (nodes d)"
    "[] \<notin> keys (nodes d)"
  shows "distinct out \<and> set out = keys (nodes d) \<and>
    (\<forall>i < length out. \<forall>j. (out ! i, j) \<in> edges d \<longrightarrow> j \<in> set (take i out))"
proof -
  note r = Sort_result [OF assms]
  have "j \<in> set (take i out)" if "i < length out" "(out ! i, j) \<in> edges d" for i j
  proof -
    have "out = take i out @ out ! i # drop (Suc i) out" using that(1) by (rule id_take_nth_drop)
    then have "deps_first d {} (take i out @ out ! i # drop (Suc i) out)" using r by simp
    with that(2) show ?thesis by (auto simp: deps_first_append in_edges_iff)
  qed
  with r show ?thesis by blast
qed

lemma small_sort: "Sort small_graph [''b'', ''a'', ''c''] = Inr [''c'', ''b'', ''a'']"
  by (simp add: Sort_def small_defs visit.simps)

lemma small_edge: "(''a'', ''b'') \<in> edges small_graph"
  by (simp add: in_edges_iff succs_def small_defs)

theorem Sort_topological_witness:
  "distinct [''c'', ''b'', ''a''] \<and> set [''c'', ''b'', ''a''] = keys (nodes small_graph) \<and>
   ([''c'', ''b'', ''a''] ! 2, ''b'') \<in> edges small_graph \<and> ''b'' \<in> set (take 2 [''c'', ''b'', ''a''])"
proof -
  have t: "distinct [''c'', ''b'', ''a''] \<and> set [''c'', ''b'', ''a''] = keys (nodes small_graph) \<and>
     (\<forall>i < length [''c'', ''b'', ''a'']. \<forall>j. ([''c'', ''b'', ''a''] ! i, j) \<in> edges small_graph \<longrightarrow>
        j \<in> set (take i [''c'', ''b'', ''a'']))"
    by (rule Sort_topological [OF small_sort]) (auto simp: small_graph_nodes keys_def)
  have "''b'' \<in> set (take 2 [''c'', ''b'', ''a''])"
    by (rule t [THEN conjunct2, THEN conjunct2, rule_format, of 2 "''b''"]) (simp_all add: small_edge)
  with t small_edge show ?thesis by simp
qed

lemma Sort_ok_iff:
  assumes "closed d" "distinct (map fst (nodes d))" "set ord = keys (nodes d)" "[] \<notin> keys (nodes d)"
  shows "is_ok (Sort d ord) \<longleftrightarrow> acyclic (edges d)"
proof (cases "Sort d ord")
  case (Inl e)
  then have "Sort_loop d ord {} (replicate (length (nodes d)) []) = Inl e" by (simp add: Sort_def)
  from Sort_loop_error [OF this] assms(1,3) have "\<not> acyclic (edges d)"
    using closed_edges by blast
  with Inl show ?thesis by simp
next
  case (Inr out)
  from Sort_result [OF this assms(2-4)] have "acyclic (edges d)"
    by (intro deps_first_acyclic) auto
  with Inr show ?thesis by simp
qed

section \<open>From the lock to the graph\<close>

definition lock_deps :: "lock_package list \<Rightarrow> (string \<times> string) set" where
  "lock_deps pkgs = (\<Union>p \<in> set pkgs. (\<lambda>x. (lp_Source p, dep_Package x)) ` set (lp_Dependencies p))"

lemma PackagesToNodes_new:
  "PackagesToNodes (NewMapDag []) pkgs =
     ([0..<length pkgs], \<lparr>heap = map PackageNode pkgs, nodes = []\<rparr>)"
  by (simp add: PackagesToNodes_def NewMapDag_def alloc_def)

lemma lock_ident:
  "n < length pkgs \<Longrightarrow> ident \<lparr>heap = map PackageNode pkgs, nodes = m\<rparr> n = lp_Source (pkgs ! n)"
  by (simp add: ident_def deref_def lp_Identifier_def)

lemma lock_idents:
  "map (ident \<lparr>heap = map PackageNode pkgs, nodes = m\<rparr>) [0..<length pkgs] = map lp_Source pkgs"
  by (rule nth_equalityI) (simp_all add: lock_ident)

lemma lock_ident_set:
  "ident \<lparr>heap = map PackageNode pkgs, nodes = m\<rparr> ` {0..<length pkgs} = lp_Source ` set pkgs"
  using arg_cong [OF lock_idents, of set] by simp

lemma lock_neighbors:
  "n < length pkgs \<Longrightarrow> Neighbors (deref \<lparr>heap = map PackageNode pkgs, nodes = m\<rparr> n) =
     map DependencyNode (lp_Dependencies (pkgs ! n))"
  by (simp add: deref_def)

lemma lock_graph:
  assumes "distinct (map lp_Source pkgs)" "PackagesToNodes (NewMapDag []) pkgs = (ns, d)"
  obtains implied d' where "Init d ns = (Inr implied, d')" "wf_dag d'" "closed d'"
    "edges d' = lock_deps pkgs" "keys (nodes d') = lp_Source ` set pkgs \<union> snd ` lock_deps pkgs"
    "distinct (map (ident d') implied)"
    "ident d' ` set implied = snd ` lock_deps pkgs - lp_Source ` set pkgs"
    "\<forall>i r. map_of (nodes d') i = Some r \<longrightarrow> is_package (deref d' r) \<longrightarrow>
       (\<exists>p \<in> set pkgs. lp_Source p = i \<and> shape (deref d' r) = shape (PackageNode p))"
    "\<forall>r \<in> set implied. r < length (heap d')"
proof -
  let ?d = "\<lparr>heap = map PackageNode pkgs, nodes = []\<rparr>"
  have ns: "ns = [0..<length pkgs]" and d: "d = ?d"
    using assms(2) by (simp_all add: PackagesToNodes_new)
  have small: "\<forall>n \<in> set ns. n < length (heap ?d)" by (simp add: ns)
  have dist: "distinct (map (ident ?d) ns)" using assms(1) by (simp add: ns lock_idents)
  obtain implied d' where i: "Init_with AddEdge ?d ns = (Inr implied, d')" "wf_dag d'" "closed d'"
    "extends ?d d'" "keys (nodes d') = ident ?d ` set ns \<union>
       (\<Union>n \<in> set ns. Identifier ` set (Neighbors (deref ?d n)))"
    "\<forall>n \<in> set ns. map_of (nodes d') (ident ?d n) = Some n"
    "\<forall>r \<in> set implied. r < length (heap d')"
    "\<forall>i r. map_of (nodes d') i = Some r \<longrightarrow> r \<in> set ns \<and> ident ?d r = i \<or> \<not> is_package (deref d' r)"
    using plain.Init_ok [OF small dist] by blast
  have srcs: "ident ?d ` set ns = lp_Source ` set pkgs" by (simp add: ns lock_ident_set)
  have nbr: "Identifier ` set (Neighbors (deref ?d n)) = dep_Package ` set (lp_Dependencies (pkgs ! n))"
    if "n < length pkgs" for n
    using that by (auto simp: lock_neighbors dep_Identifier_def image_image)
  have "(\<Union>n \<in> set ns. Identifier ` set (Neighbors (deref ?d n))) =
      (\<Union>n \<in> {..<length pkgs}. dep_Package ` set (lp_Dependencies (pkgs ! n)))"
    using nbr by (auto simp: ns atLeast0LessThan)
  also have "\<dots> = snd ` lock_deps pkgs"
    by (force simp: lock_deps_def in_set_conv_nth image_iff)
  finally have deps: "(\<Union>n \<in> set ns. Identifier ` set (Neighbors (deref ?d n))) = snd ` lock_deps pkgs" .
  have succ: "set (succs d' (lp_Source (pkgs ! n))) = dep_Package ` set (lp_Dependencies (pkgs ! n))"
    if "n < length pkgs" for n
  proof -
    have "map_of (nodes d') (lp_Source (pkgs ! n)) = Some n" using i(6) that by (simp add: ns lock_ident)
    moreover have "Neighbors (deref d' n) = Neighbors (deref ?d n)"
      using that by (intro extends_Neighbors [OF i(4)]) simp
    ultimately show ?thesis using nbr [OF that] by (simp add: succs_Some)
  qed
  have "edges d' = lock_deps pkgs"
  proof (intro subset_antisym subrelI)
    fix a b assume ab: "(a, b) \<in> edges d'"
    then obtain r where r: "map_of (nodes d') a = Some r"
      using edges_from_keys [OF ab] by (auto simp: in_keys_iff)
    have "Neighbors (deref d' r) \<noteq> []" using ab r by (auto simp: in_edges_iff succs_Some)
    with i(8) r have "r \<in> set ns \<and> ident ?d r = a" using not_package_Neighbors by blast
    then have "r < length pkgs" "a = lp_Source (pkgs ! r)" by (auto simp: ns lock_ident)
    then show "(a, b) \<in> lock_deps pkgs"
      using ab succ by (force simp: in_edges_iff lock_deps_def)
  next
    fix a b assume "(a, b) \<in> lock_deps pkgs"
    then obtain p where p: "p \<in> set pkgs" "a = lp_Source p" "b \<in> dep_Package ` set (lp_Dependencies p)"
      by (auto simp: lock_deps_def)
    then obtain n where "n < length pkgs" "pkgs ! n = p" by (auto simp: in_set_conv_nth)
    with p have "n < length pkgs" "a = lp_Source (pkgs ! n)"
      "b \<in> dep_Package ` set (lp_Dependencies (pkgs ! n))" by simp_all
    with succ show "(a, b) \<in> edges d'" by (simp add: in_edges_iff)
  qed
  moreover have "distinct (map (ident d') implied) \<and>
      ident d' ` set implied = keys (nodes d') - ident ?d ` set ns"
    by (rule plain.Init_exact [OF small i(1)])
  moreover have "\<exists>p \<in> set pkgs. lp_Source p = j \<and> shape (deref d' r) = shape (PackageNode p)"
    if "map_of (nodes d') j = Some r" "is_package (deref d' r)" for j r
  proof -
    from that i(8) have r: "r < length pkgs" "ident ?d r = j" by (auto simp: ns)
    then have "shape (deref d' r) = shape (PackageNode (pkgs ! r))"
      using i(4) by (simp add: extends_def) (simp add: deref_def)
    moreover have "lp_Source (pkgs ! r) = j" using r by (simp add: lock_ident)
    ultimately show ?thesis using r(1) by (intro bexI [of _ "pkgs ! r"]) simp_all
  qed
  ultimately show thesis
    using i(1-3,5,7) srcs deps by (intro that [of implied d']) (auto simp: Init_def d)
qed

text \<open>
  C19: The lock's graph. On packages with distinct sources \<^verbatim>\<open>Init\<close> succeeds, reports as implied
  exactly the dependencies that are not installed, each once, and \<^verbatim>\<open>Sort\<close> on the graph it built
  succeeds if and only if the dependencies of the lock have no cycle.
\<close>

theorem lock_Init_Sort:
  assumes "distinct (map lp_Source pkgs)" "[] \<notin> lp_Source ` set pkgs \<union> snd ` lock_deps pkgs"
    "PackagesToNodes (NewMapDag []) pkgs = (ns, d)"
  shows "\<exists>implied d'. Init d ns = (Inr implied, d') \<and> distinct (map (ident d') implied) \<and>
    ident d' ` set implied = snd ` lock_deps pkgs - lp_Source ` set pkgs \<and>
    (\<forall>ord. set ord = keys (nodes d') \<longrightarrow> is_ok (Sort d' ord) = acyclic (lock_deps pkgs))"
proof -
  obtain implied d' where i: "Init d ns = (Inr implied, d')" "wf_dag d'" "closed d'"
    "edges d' = lock_deps pkgs" "keys (nodes d') = lp_Source ` set pkgs \<union> snd ` lock_deps pkgs"
    "distinct (map (ident d') implied)"
    "ident d' ` set implied = snd ` lock_deps pkgs - lp_Source ` set pkgs"
    by (rule lock_graph [OF assms(1,3)])
  have "is_ok (Sort d' ord) = acyclic (lock_deps pkgs)" if "set ord = keys (nodes d')" for ord
    using Sort_ok_iff [OF i(3) _ that] i(2,4,5) assms(2) by (simp add: wf_dag_def)
  with i show ?thesis by blast
qed

theorem lock_Init_Sort_witness:
  "\<exists>implied d'. Init small_dag [0, 1] = (Inr implied, d') \<and> distinct (map (ident d') implied) \<and>
    ident d' ` set implied = snd ` lock_deps small_lock - lp_Source ` set small_lock \<and>
    is_ok (Sort d' [''a'', ''b'', ''c'']) = acyclic (lock_deps small_lock)"
proof -
  have "\<exists>implied d'. Init small_dag [0, 1] = (Inr implied, d') \<and> distinct (map (ident d') implied) \<and>
      ident d' ` set implied = snd ` lock_deps small_lock - lp_Source ` set small_lock \<and>
      (\<forall>ord. set ord = keys (nodes d') \<longrightarrow> is_ok (Sort d' ord) = acyclic (lock_deps small_lock))"
    by (rule lock_Init_Sort)
      (simp_all add: small_lock_def mk_pkg_def mk_dep_def lock_deps_def small_dag_def
        PackagesToNodes_new upt_rec)
  moreover have "snd (Init small_dag [0, 1]) = small_graph" by (simp add: small_graph_def)
  moreover have "set [''a'', ''b'', ''c''] = keys (nodes small_graph)" by (simp add: small_graph_keys)
  ultimately show ?thesis by fastforce
qed

section \<open>Tracing\<close>

text \<open>
  C24: \<^verbatim>\<open>TraceNode\<close> returns exactly the identifiers reachable from its argument in one step or
  more, and it fails exactly when something reachable is not in the graph.
\<close>

theorem TraceNode_exact:
  "case TraceNode d i of
     Inr tree \<Rightarrow> keys tree = (edges d)\<^sup>+ `` {i} \<and> (edges d)\<^sup>* `` {i} \<subseteq> keys (nodes d)
   | Inl _ \<Rightarrow> \<not> (edges d)\<^sup>* `` {i} \<subseteq> keys (nodes d)"
proof (cases "TraceNode d i")
  case (Inl e)
  then show ?thesis using trace_error(1) [of d i "[]" e] by (auto simp: TraceNode_def)
next
  case (Inr tree)
  from TraceNode_ok [OF this] show ?thesis using Inr by (auto simp: rtrancl_eq_or_trancl)
qed

section \<open>The upgrading graph\<close>

text \<open>
  \<^verbatim>\<open>MapUpgradingDag.Init\<close> succeeds on every list of nodes with distinct identifiers, keeps
  the node map well formed and closed, and reports every node it had to add.
\<close>

theorem up_Init_ok:
  assumes "\<forall>n \<in> set ns. n < length (heap d)" "distinct (map (ident d) ns)"
  shows "\<exists>implied d'. up_Init sv d ns = (Inr implied, d') \<and> wf_dag d' \<and> closed d' \<and>
    keys (nodes d') = ident d ` set ns \<union> (\<Union>n \<in> set ns. Identifier ` set (Neighbors (deref d n))) \<and>
    keys (nodes d') - ident d ` set ns \<subseteq> ident d' ` set implied"
  using upgrading.Init_ok [OF assms, of sv] by (auto simp: up_Init_def)

definition toy_semver :: "(string, string) semver" where
  "toy_semver = \<lparr>NewConstraint = Inr, NewVersion = Inr, Check = (=)\<rparr>"

theorem up_Init_ok_witness:
  "\<exists>implied d'. up_Init toy_semver small_dag [0, 1] = (Inr implied, d') \<and> wf_dag d' \<and> closed d' \<and>
    keys (nodes d') = ident small_dag ` set [0, 1] \<union>
      (\<Union>n \<in> set [0, 1]. Identifier ` set (Neighbors (deref small_dag n))) \<and>
    keys (nodes d') - ident small_dag ` set [0, 1] \<subseteq> ident d' ` set implied"
  by (rule up_Init_ok)
    (simp_all add: small_dag_heap small_lock_def ident_def deref_def mk_pkg_def lp_Identifier_def)

lemma GetParentConstraints_Add [simp]:
  "GetParentConstraints (AddParentConstraints n pc) = GetParentConstraints n @ pc"
  by (cases n) (simp_all add: dep_AddParentConstraints_def lp_AddParentConstraints_def
      dep_GetParentConstraints_def lp_GetParentConstraints_def)

lemma Identifier_Add [simp]: "Identifier (AddParentConstraints n pc) = Identifier n"
  by (cases n) (simp_all add: dep_AddParentConstraints_def lp_AddParentConstraints_def
      dep_Identifier_def lp_Identifier_def)

text \<open>
  What an edge of the upgrading graph records. A target that is already there collects, after
  its own parent constraints, those the new edge brings; a target the edge adds ends with its
  parent constraints listed twice, because it is appended to itself.
\<close>

theorem up_AddEdge_parents:
  assumes "map_of (nodes d) f = Some r" "deref d r = PackageNode l" "r \<noteq> t"
    "first_constraint (lp_Dependencies l) (ident d t) = Some pc" "t < length (heap d)"
    "up_AddEdge sv d f t = (out, d')"
    "case map_of (nodes d) (ident d t) of None \<Rightarrow> True | Some q \<Rightarrow> q \<noteq> t \<and> q < length (heap d)"
  shows "case map_of (nodes d) (ident d t) of
      Some q \<Rightarrow> out = (\<not> isValidConstraints sv (deref d q) (deref d t), None) \<and>
        GetParentConstraints (deref d' q) =
          GetParentConstraints (deref d q) @ GetParentConstraints (deref d t) @ pc
    | None \<Rightarrow> out = (True, None) \<and> map_of (nodes d') (ident d t) = Some t \<and>
        (let parents = GetParentConstraints (deref d t) @ pc
         in GetParentConstraints (deref d' t) = parents @ parents)"
  using assms
  by (auto simp: up_AddEdge_def AddNode_result in_keys_iff inherit_parents_def add_parents_def
      ident_def deref_def split: option.splits)

definition one_edge_dag :: map_dag where
  "one_edge_dag =
     \<lparr>heap = [PackageNode (mk_pkg ''a'' ''v1'' [mk_dep ''b'' ''>=v1'']), DependencyNode (mk_dep ''b'' ''>=v1'')],
      nodes = [(''a'', 0)]\<rparr>"

theorem up_AddEdge_parents_witness:
  "let d' = snd (up_AddEdge toy_semver one_edge_dag ''a'' 1)
   in (True, None) = (True, None :: go_error option) \<and> map_of (nodes d') ''b'' = Some 1 \<and>
     GetParentConstraints (deref d' 1) = [''>=v1'', ''>=v1'']"
proof -
  let ?n = "PackageNode (mk_pkg ''a'' ''v1'' [mk_dep ''b'' ''>=v1''])"
  have id: "ident one_edge_dag 1 = ''b''" "map_of (nodes one_edge_dag) ''b'' = None"
    "GetParentConstraints (deref one_edge_dag 1) = []"
    by (simp_all add: one_edge_dag_def ident_def deref_def mk_dep_def dep_Identifier_def
        dep_GetParentConstraints_def)
  show ?thesis
    using up_AddEdge_parents [of one_edge_dag "''a''" 0 "mk_pkg ''a'' ''v1'' [mk_dep ''b'' ''>=v1'']"
        1 "[''>=v1'']" toy_semver "fst (up_AddEdge toy_semver one_edge_dag ''a'' 1)"
        "snd (up_AddEdge toy_semver one_edge_dag ''a'' 1)"] id
    by (simp add: Let_def)
      (simp add: one_edge_dag_def deref_def mk_pkg_def mk_dep_def dep_Identifier_def)
qed

end
