(* ===== verification/DagParents.thy ===== *)
theory DagParents
  imports DagProps
begin

text \<open>
  Two more facts on what \<^verbatim>\<open>Init\<close> builds, on top of the interface of a graph: where implied nodes come
  from, and, for a graph whose edges record it, that a node collects the constraints of all packages
  that depend on it.
\<close>

section \<open>Implied nodes\<close>

definition neighbor_shapes :: "map_dag \<Rightarrow> ref list \<Rightarrow> (bool \<times> string \<times> string \<times> node list \<times> node) set" where
  "neighbor_shapes d ns = (\<Union>n \<in> set ns. shape ` set (Neighbors (deref d n)))"

lemma neighbor_shapes_Cons:
  "neighbor_shapes d (n # ns) = shape ` set (Neighbors (deref d n)) \<union> neighbor_shapes d ns"
  by (simp add: neighbor_shapes_def)

lemma neighbor_shapes_nodes [simp]: "neighbor_shapes (d\<lparr>nodes := m\<rparr>) ns = neighbor_shapes d ns"
  by (simp add: neighbor_shapes_def)

lemma find_unique:
  "distinct (map f ns) \<Longrightarrow> j \<in> set ns \<Longrightarrow> find (\<lambda>k. f k = f j) ns = Some j"
  by (induction ns) (auto simp: image_iff)

context dag_interface begin

text \<open>The graph the first loop of \<^verbatim>\<open>Init\<close> leaves to the second.\<close>

lemma Init_nodes:
  assumes "\<forall>n \<in> set ns. n < length (heap d)" "Init_with ae d ns = (Inr implied, d')"
  obtains m where "wf_dag (d\<lparr>nodes := m\<rparr>)" "Init_edges ae (d\<lparr>nodes := m\<rparr>) ns [] = (Inr implied, d')"
    "\<forall>n \<in> set ns. n < length (heap d) \<and> map_of m (ident d n) = Some n"
proof -
  have dist: "distinct (map (ident d) ns)" using Init_dup [of d ns] assms(2) by fastforce
  have "wf_dag (d\<lparr>nodes := []\<rparr>)" by (simp add: wf_dag_def)
  then obtain m where m: "AddNodes (d\<lparr>nodes := []\<rparr>) ns = (Inr (), d\<lparr>nodes := m\<rparr>)" "wf_dag (d\<lparr>nodes := m\<rparr>)"
    "\<forall>i. map_of m i = find (\<lambda>n. ident d n = i) ns"
    using AddNodes_ok [of "d\<lparr>nodes := []\<rparr>" ns] assms(1) dist by auto
  then show thesis
    using that [OF m(2)] assms find_unique [OF dist] by (simp add: Init_with_def)
qed

lemma Init_edges_origin:
  assumes "wf_dag d" "\<forall>n \<in> set ns. n < length (heap d) \<and> ident d n \<in> keys (nodes d)"
    "Init_edges ae d ns imp = (Inr out, d')"
  shows "\<exists>new. out = imp @ new \<and> (\<forall>r \<in> set new. shape (deref d' r) \<in> neighbor_shapes d ns)"
  using assms
proof (induction ns arbitrary: d imp)
  case (Cons n ns)
  obtain nbrs d1 where al: "alloc d (Neighbors (deref d n)) = (nbrs, d1)"
    by (cases "alloc d (Neighbors (deref d n))") auto
  note d1 = alloc_extends [OF al]
  have wf1: "wf_dag d1" using Cons.prems(1) d1 wf_dag_extends by blast
  have nb: "\<forall>e \<in> set nbrs. e < length (heap d1)" using d1 by auto
  have vals: "map (deref d1) nbrs = Neighbors (deref d n)" using d1 by (intro nth_equalityI) auto
  have n: "ident d n \<in> keys (nodes d1)" using Cons.prems(2) d1 by simp
  obtain new2 d2 where d2: "AddEdgesFrom ae d1 (ident d n) nbrs [] = (Inr ([] @ new2), d2)"
    "wf_dag d2" "extends d1 d2" "length (heap d2) = length (heap d1)" "set new2 \<subseteq> set nbrs"
    "keys (nodes d2) = keys (nodes d1) \<union> ident d1 ` set nbrs"
    using AddEdgesFrom_ok [OF wf1 n nb, of "[]"] by auto
  have ext: "extends d d2" using d1 d2(3) extends_trans by blast
  have prem2: "\<forall>k \<in> set ns. k < length (heap d2) \<and> ident d2 k \<in> keys (nodes d2)"
    using Cons.prems(2) extends_ident [OF ext] ext d2(6) d1 by (auto simp: extends_def)
  have run: "Init_edges ae d2 ns (imp @ new2) = (Inr out, d')"
    using Cons.prems(3) al d2(1) by (simp add: AddEdges_with_def d1)
  obtain new where new: "out = (imp @ new2) @ new" "\<forall>r \<in> set new. shape (deref d' r) \<in> neighbor_shapes d2 ns"
    using Cons.IH [OF d2(2) prem2 run] by blast
  have ext2: "extends d2 d'" using Init_edges_ok [OF d2(2) prem2, of "imp @ new2"] run by auto
  have "neighbor_shapes d2 ns = neighbor_shapes d ns"
    using Cons.prems(2) extends_Neighbors [OF ext] by (simp add: neighbor_shapes_def)
  moreover have "shape (deref d' r) \<in> neighbor_shapes d (n # ns)" if "r \<in> set new2" for r
  proof -
    have r: "r \<in> set nbrs" using that d2(5) by blast
    then have "deref d1 r \<in> set (Neighbors (deref d n))" using vals by (metis imageI list.set_map)
    moreover have "shape (deref d' r) = shape (deref d1 r)"
      using ext2 d2(3,4) nb r by (simp add: extends_def)
    ultimately show ?thesis by (simp add: neighbor_shapes_def)
  qed
  ultimately have "\<forall>r \<in> set (new2 @ new). shape (deref d' r) \<in> neighbor_shapes d (n # ns)"
    using new(2) by (fastforce simp: neighbor_shapes_Cons)
  then show ?case using new(1) by (intro exI [of _ "new2 @ new"]) simp
qed simp

lemma Init_origin:
  assumes "\<forall>n \<in> set ns. n < length (heap d)" "Init_with ae d ns = (Inr implied, d')" "r \<in> set implied"
  shows "shape (deref d' r) \<in> neighbor_shapes d ns"
proof -
  obtain m where m: "wf_dag (d\<lparr>nodes := m\<rparr>)" "Init_edges ae (d\<lparr>nodes := m\<rparr>) ns [] = (Inr implied, d')"
    "\<forall>n \<in> set ns. n < length (heap d) \<and> map_of m (ident d n) = Some n"
    using Init_nodes [OF assms(1,2)] by blast
  have "\<forall>n \<in> set ns. n < length (heap (d\<lparr>nodes := m\<rparr>)) \<and> ident (d\<lparr>nodes := m\<rparr>) n \<in> keys (nodes (d\<lparr>nodes := m\<rparr>))"
    using m(3) by (simp add: in_keys_iff)
  from Init_edges_origin [OF m(1) this m(2)] assms(3) show ?thesis by auto
qed

end

section \<open>Parent constraints\<close>

text \<open>The constraint a node puts on a dependency; an edge only ever adds to what is recorded.\<close>

fun parent_constraint :: "node \<Rightarrow> string \<Rightarrow> string list option" where
  "parent_constraint (DependencyNode d) i = None"
| "parent_constraint (PackageNode l) i = first_constraint (lp_Dependencies l) i"

definition grows :: "map_dag \<Rightarrow> map_dag \<Rightarrow> bool" where
  "grows d d' \<longleftrightarrow> extends d d' \<and> map_of (nodes d) \<subseteq>\<^sub>m map_of (nodes d') \<and>
     (\<forall>r < length (heap d). set (GetParentConstraints (deref d r)) \<subseteq> set (GetParentConstraints (deref d' r)))"

definition recorded :: "map_dag \<Rightarrow> node \<Rightarrow> string \<Rightarrow> bool" where
  "recorded d n i \<longleftrightarrow> (\<forall>pc. parent_constraint n i = Some pc \<longrightarrow>
     (\<exists>r. map_of (nodes d) i = Some r \<and> r < length (heap d) \<and> set pc \<subseteq> set (GetParentConstraints (deref d r))))"

lemma grows_refl [simp]: "grows d d"
  by (simp add: grows_def)

lemma grows_trans: "grows d1 d2 \<Longrightarrow> grows d2 d3 \<Longrightarrow> grows d1 d3"
  unfolding grows_def
  by (intro conjI allI impI)
    (blast intro: extends_trans, blast intro: map_le_trans, simp add: extends_def, meson order_less_le_trans subset_trans)

lemma grows_get: "grows d d' \<Longrightarrow> map_of (nodes d) i = Some r \<Longrightarrow> map_of (nodes d') i = Some r"
  by (auto simp: grows_def map_le_def dom_def)

lemma recorded_grows:
  assumes "recorded d n i" "grows d d'"
  shows "recorded d' n i"
  unfolding recorded_def
proof (intro allI impI)
  fix pc assume "parent_constraint n i = Some pc"
  with assms(1) obtain r where r: "map_of (nodes d) i = Some r" "r < length (heap d)"
    "set pc \<subseteq> set (GetParentConstraints (deref d r))"
    by (auto simp: recorded_def)
  have "length (heap d) \<le> length (heap d')" using assms(2) by (simp add: grows_def extends_def)
  moreover have "set (GetParentConstraints (deref d r)) \<subseteq> set (GetParentConstraints (deref d' r))"
    using assms(2) r(2) by (simp add: grows_def)
  ultimately show "\<exists>r. map_of (nodes d') i = Some r \<and> r < length (heap d') \<and> set pc \<subseteq> set (GetParentConstraints (deref d' r))"
    using grows_get [OF assms(2) r(1)] r(2,3) by (intro exI [of _ r]) auto
qed

lemma parent_constraint_shape: "shape n = shape m \<Longrightarrow> parent_constraint n = parent_constraint m"
proof -
  assume sh: "shape n = shape m"
  have inj: "map DependencyNode xs = map DependencyNode ys \<longleftrightarrow> xs = ys" for xs ys
    by (simp add: inj_map_eq_map inj_def)
  show ?thesis
    by (cases n; cases m) (use sh in \<open>simp_all add: shape_def fun_eq_iff inj\<close>)
qed

text \<open>The interface of a graph whose edges record the constraint at the target's node.\<close>

locale recording_dag = dag_interface +
  assumes edge_records: "wf_dag d \<Longrightarrow> map_of (nodes d) from = Some f \<Longrightarrow> to < length (heap d) \<Longrightarrow> f \<noteq> to \<Longrightarrow>
      ae d from to = ((b, None), d') \<Longrightarrow> grows d d' \<and> recorded d' (deref d f) (ident d to)"
begin

lemma AddEdgesFrom_records:
  assumes "wf_dag d" "map_of (nodes d) f = Some q" "\<forall>e \<in> set es. e < length (heap d) \<and> e \<noteq> q"
    "AddEdgesFrom ae d f es miss = (Inr out, d')"
  shows "grows d d' \<and> (\<forall>e \<in> set es. recorded d' (deref d q) (ident d e))"
  using assms
proof (induction es arbitrary: d miss)
  case (Cons e es)
  have q: "f \<in> keys (nodes d)" "q < length (heap d)"
    using Cons.prems(1,2) wf_dag_get by (auto simp: in_keys_iff)
  have e: "e < length (heap d)" "e \<noteq> q" using Cons.prems(3) by auto
  obtain b d1 where d1: "ae d f e = ((b, None), d1)" "extends d d1" "length (heap d1) = length (heap d)"
    using edge_ok [OF Cons.prems(1) q(1) e(1)] by blast
  have wf1: "wf_dag d1" using edge_wf [OF Cons.prems(1) q(1) e(1) d1(1)] by blast
  have rec: "grows d d1" "recorded d1 (deref d q) (ident d e)"
    using edge_records [OF Cons.prems(1,2) e(1) _ d1(1)] e(2) by auto
  have "map_of (nodes d1) f = Some q" using grows_get [OF rec(1) Cons.prems(2)] .
  then have IH: "grows d1 d' \<and> (\<forall>e \<in> set es. recorded d' (deref d1 q) (ident d1 e))"
    using Cons.IH [OF wf1] Cons.prems(3,4) d1(1,3) by auto
  have "parent_constraint (deref d1 q) = parent_constraint (deref d q)"
    using d1(2) q(2) by (intro parent_constraint_shape) (simp add: extends_def)
  then have "recorded d' (deref d q) (ident d k)" if "k \<in> set es" for k
    using IH that extends_ident [OF d1(2)] Cons.prems(3) by (auto simp: recorded_def)
  moreover have "recorded d' (deref d q) (ident d e)" using recorded_grows [OF rec(2)] IH by blast
  moreover have "grows d d'" using grows_trans [OF rec(1)] IH by blast
  ultimately show ?case by simp
qed simp

lemma Init_edges_records:
  assumes "wf_dag d" "\<forall>n \<in> set ns. n < length (heap d) \<and> map_of (nodes d) (ident d n) = Some n"
    "Init_edges ae d ns imp = (Inr out, d')"
  shows "grows d d' \<and> (\<forall>n \<in> set ns. \<forall>m \<in> set (Neighbors (deref d n)). recorded d' (deref d n) (Identifier m))"
  using assms
proof (induction ns arbitrary: d imp)
  case (Cons n ns)
  obtain nbrs d1 where al: "alloc d (Neighbors (deref d n)) = (nbrs, d1)"
    by (cases "alloc d (Neighbors (deref d n))") auto
  note d1 = alloc_extends [OF al]
  have wf1: "wf_dag d1" using Cons.prems(1) d1 wf_dag_extends by blast
  have nb: "\<forall>e \<in> set nbrs. e < length (heap d1) \<and> e \<noteq> n" using d1 Cons.prems(2) by auto
  have vals: "map (deref d1) nbrs = Neighbors (deref d n)" using d1 by (intro nth_equalityI) auto
  have g1: "grows d d1"
    using al d1 by (auto simp: grows_def alloc_def deref_def nth_append)
  have n: "map_of (nodes d1) (ident d n) = Some n" "n < length (heap d)" using Cons.prems(2) d1 by auto
  then have nk: "ident d n \<in> keys (nodes d1)" by (auto simp: in_keys_iff)
  obtain new2 d2 where d2: "AddEdgesFrom ae d1 (ident d n) nbrs [] = (Inr ([] @ new2), d2)"
    "wf_dag d2"
    using AddEdgesFrom_ok [OF wf1 nk, of nbrs "[]"] nb by auto
  have rec: "grows d1 d2" "\<forall>e \<in> set nbrs. recorded d2 (deref d1 n) (ident d1 e)"
    using AddEdgesFrom_records [OF wf1 n(1) nb d2(1)] by auto
  have g2: "grows d d2" using g1 rec(1) by (rule grows_trans)
  then have ext: "extends d d2" by (simp add: grows_def)
  have "map_of (nodes d2) (ident d2 k) = Some k \<and> k < length (heap d2)" if "k \<in> set ns" for k
  proof -
    have k: "k < length (heap d)" "map_of (nodes d) (ident d k) = Some k" using that Cons.prems(2) by auto
    moreover have "length (heap d) \<le> length (heap d2)" using ext by (simp add: extends_def)
    ultimately show ?thesis using extends_ident [OF ext k(1)] grows_get [OF g2 k(2)] by simp
  qed
  then have prem2: "\<forall>k \<in> set ns. k < length (heap d2) \<and> map_of (nodes d2) (ident d2 k) = Some k" by blast
  have run: "Init_edges ae d2 ns (imp @ new2) = (Inr out, d')"
    using Cons.prems(3) al d2(1) by (simp add: AddEdges_with_def d1)
  note IH = Cons.IH [OF d2(2) prem2 run]
  have pc: "parent_constraint (deref d1 n) = parent_constraint (deref d n)"
    using d1 n(2) by (intro parent_constraint_shape) (simp add: extends_def)
  have here: "recorded d' (deref d n) (Identifier m)" if "m \<in> set (Neighbors (deref d n))" for m
  proof -
    have "m \<in> deref d1 ` set nbrs" using that vals [symmetric] by simp
    then obtain e where e: "e \<in> set nbrs" "deref d1 e = m" by auto
    then have "ident d1 e = Identifier m" by (simp add: ident_def)
    with rec(2) e(1) have "recorded d2 (deref d1 n) (Identifier m)" by metis
    from recorded_grows [OF this] IH have "recorded d' (deref d1 n) (Identifier m)" by simp
    then show ?thesis by (simp add: recorded_def pc)
  qed
  have "recorded d' (deref d k) (Identifier m)" if "k \<in> set ns" "m \<in> set (Neighbors (deref d k))" for k m
  proof -
    have k: "k < length (heap d)" using that(1) Cons.prems(2) by simp
    have "shape (deref d2 k) = shape (deref d k)" using ext k by (simp add: extends_def)
    then have "parent_constraint (deref d2 k) = parent_constraint (deref d k)" by (rule parent_constraint_shape)
    moreover have "recorded d' (deref d2 k) (Identifier m)"
      using IH that extends_Neighbors [OF ext k] by simp
    ultimately show ?thesis by (simp add: recorded_def)
  qed
  moreover have "grows d d'" using grows_trans [OF g2] IH by blast
  ultimately show ?case using here by simp
qed simp

lemma Init_records:
  assumes "\<forall>n \<in> set ns. n < length (heap d)" "Init_with ae d ns = (Inr implied, d')"
    "n \<in> set ns" "m \<in> set (Neighbors (deref d n))"
  shows "recorded d' (deref d n) (Identifier m)"
proof -
  obtain mp where mp: "wf_dag (d\<lparr>nodes := mp\<rparr>)" "Init_edges ae (d\<lparr>nodes := mp\<rparr>) ns [] = (Inr implied, d')"
    "\<forall>n \<in> set ns. n < length (heap d) \<and> map_of mp (ident d n) = Some n"
    using Init_nodes [OF assms(1,2)] by blast
  have "\<forall>j \<in> set ns. j < length (heap (d\<lparr>nodes := mp\<rparr>)) \<and>
      map_of (nodes (d\<lparr>nodes := mp\<rparr>)) (ident (d\<lparr>nodes := mp\<rparr>) j) = Some j"
    using mp(3) by simp
  from Init_edges_records [OF mp(1) this mp(2)] assms(3,4) show ?thesis by simp
qed

end

section \<open>The upgrading graph records\<close>

lemma add_parents_grows: "r < length (heap d) \<Longrightarrow> grows d (add_parents d r pc)"
  using add_parents_extends(1) [of d r pc]
  by (auto simp: grows_def add_parents_def deref_def nth_list_update)

lemma inherit_grows: "wf_dag d \<Longrightarrow> grows d (inherit_parents d t)"
  using add_parents_grows wf_dag_get by (auto simp: inherit_parents_def split: option.split)

lemma inherit_records:
  "map_of (nodes d) (ident d t) = Some r \<Longrightarrow> r < length (heap d) \<Longrightarrow>
     set (GetParentConstraints (deref d t)) \<subseteq> set (GetParentConstraints (deref (inherit_parents d t) r))"
  by (simp add: inherit_parents_def add_parents_def deref_def)

lemma put_grows: "i \<notin> keys (nodes d) \<Longrightarrow> grows d (d\<lparr>nodes := put i r (nodes d)\<rparr>)"
  by (auto simp: grows_def extends_def map_le_def not_in_keys_iff)

lemma AddNeighbors_one:
  "AddNeighbors d f [t] =
     (case deref d f of
        DependencyNode dep \<Rightarrow> add_parents d t [dep_Constraints dep]
      | PackageNode l \<Rightarrow>
          (case first_constraint (lp_Dependencies l) (ident d t) of None \<Rightarrow> d | Some pc \<Rightarrow> add_parents d t pc))"
  by (simp split: node.split option.split)

lemma AddNeighbors_one_grows: "t < length (heap d) \<Longrightarrow> grows d (AddNeighbors d f [t])"
  unfolding AddNeighbors_one using add_parents_grows by (auto split: node.split option.split)

text \<open>The last two steps of \<^verbatim>\<open>AddEdge\<close>, on a graph that has the target's identifier.\<close>

lemma edge_tail:
  assumes "wf_dag d" "t < length (heap d)" "ident d t \<in> keys (nodes d)"
  shows "grows d (inherit_parents (AddNeighbors d f [t]) t) \<and>
    recorded (inherit_parents (AddNeighbors d f [t]) t) (deref d f) (ident d t)"
proof -
  let ?d1 = "AddNeighbors d f [t]" and ?d2 = "inherit_parents (AddNeighbors d f [t]) t"
  note ext = AddNeighbors_extends [of d f "[t]"]
  have wf: "wf_dag ?d1" using wf_dag_extends [OF assms(1)] ext by blast
  have g: "grows d ?d1" "grows ?d1 ?d2"
    using AddNeighbors_one_grows [OF assms(2)] inherit_grows [OF wf] by auto
  have "recorded ?d2 (deref d f) (ident d t)" unfolding recorded_def
  proof (intro allI impI)
    fix pc assume pc: "parent_constraint (deref d f) (ident d t) = Some pc"
    then obtain l where l: "deref d f = PackageNode l" "first_constraint (lp_Dependencies l) (ident d t) = Some pc"
      by (cases "deref d f") auto
    then have d1: "?d1 = add_parents d t pc" by (simp add: AddNeighbors_one)
    have id: "ident ?d1 t = ident d t" using ext extends_ident assms(2) by blast
    obtain r where r: "map_of (nodes d) (ident d t) = Some r" using assms(3) by (auto simp: in_keys_iff)
    then have r1: "map_of (nodes ?d1) (ident ?d1 t) = Some r" using ext id by simp
    then have len: "r < length (heap ?d1)" using wf_dag_get [OF wf] by blast
    have "set pc \<subseteq> set (GetParentConstraints (deref ?d1 t))"
      using assms(2) unfolding d1 by (simp add: add_parents_def deref_def)
    then have "set pc \<subseteq> set (GetParentConstraints (deref ?d2 r))" using inherit_records [OF r1 len] by blast
    then show "\<exists>r. map_of (nodes ?d2) (ident d t) = Some r \<and> r < length (heap ?d2) \<and>
        set pc \<subseteq> set (GetParentConstraints (deref ?d2 r))"
      using r1 len id by (intro exI [of _ r]) simp
  qed
  then show ?thesis using grows_trans [OF g] by blast
qed

interpretation recording: recording_dag "up_AddEdge sv" for sv
proof
  fix d :: map_dag and i f t b d'
  assume wf: "wf_dag d" and f: "map_of (nodes d) i = Some f" and t: "t < length (heap d)"
    and run: "up_AddEdge sv d i t = ((b, None), d')"
  show "grows d d' \<and> recorded d' (deref d f) (ident d t)"
  proof (cases "ident d t \<in> keys (nodes d)")
    case True
    then show ?thesis using edge_tail [OF wf t True, of f] run f
      by (auto simp: up_AddEdge_def in_keys_iff simp del: AddNeighbors.simps)
  next
    case False
    let ?d = "d\<lparr>nodes := put (ident d t) t (nodes d)\<rparr>"
    have wf': "wf_dag ?d" by (rule wf_dag_put [OF wf t])
    have "d' = inherit_parents (AddNeighbors ?d f [t]) t"
      using run f False not_in_keys_iff [THEN iffD1, OF False]
      by (simp add: up_AddEdge_def AddNode_new del: AddNeighbors.simps)
    then have "grows ?d d' \<and> recorded d' (deref ?d f) (ident ?d t)"
      using edge_tail [OF wf', of t f] t by simp
    then show ?thesis using grows_trans [OF put_grows [OF False], of t d'] by simp
  qed
qed

end
