(* ===== verification/Conditions.thy ===== *)
theory Conditions
  imports GoPrelude "HOL-Library.Char_ord" "HOL-Library.List_Lexorder" "HOL-Library.Multiset"
begin

text \<open>
  Status conditions, \<^verbatim>\<open>apis/core/v2/condition.go\<close>: setting, reading and comparing them, with the
  conditions every reconciler of Crossplane sets. A condition is made with the clock reading it
  is stamped with as an argument.
\<close>

section \<open>Conditions\<close>

datatype condition_status = ConditionTrue | ConditionFalse | ConditionUnknown | StatusOther string

record condition =
  c_Type :: string
  c_Status :: condition_status
  c_LastTransitionTime :: go_time
  c_Reason :: string
  c_Message :: string
  c_ObservedGeneration :: int

text \<open>The zero value of \<^verbatim>\<open>time.Time\<close>: January 1 of the year 1, in nanoseconds from the epoch.\<close>

definition zero_time :: go_time where
  "zero_time = seconds (- 62135596800)"

definition TypeReady :: string where "TypeReady = ''Ready''"
definition TypeSynced :: string where "TypeSynced = ''Synced''"
definition TypeHealthy :: string where "TypeHealthy = ''Healthy''"
definition TypeUpToDate :: string where "TypeUpToDate = ''UpToDate''"

definition condition_Equal :: "condition \<Rightarrow> condition \<Rightarrow> bool" where
  "condition_Equal c other =
     (if c_ObservedGeneration c = 0 \<or> c_ObservedGeneration other = 0
      then c_Type c = c_Type other \<and> c_Status c = c_Status other \<and>
           c_Reason c = c_Reason other \<and> c_Message c = c_Message other
      else c_Type c = c_Type other \<and> c_Status c = c_Status other \<and>
           c_Reason c = c_Reason other \<and> c_Message c = c_Message other \<and>
           c_ObservedGeneration c = c_ObservedGeneration other)"

definition WithMessage :: "condition \<Rightarrow> string \<Rightarrow> condition" where
  "WithMessage c msg = c\<lparr>c_Message := msg\<rparr>"

definition WithObservedGeneration :: "condition \<Rightarrow> int \<Rightarrow> condition" where
  "WithObservedGeneration c gen = c\<lparr>c_ObservedGeneration := gen\<rparr>"

definition IsSystemConditionType :: "string \<Rightarrow> bool" where
  "IsSystemConditionType t =
     (if t = TypeReady then True else if t = TypeSynced then True else if t = TypeHealthy then True
      else if t = TypeUpToDate then True else False)"

section \<open>The list of conditions of a resource\<close>

fun GetCondition :: "condition list \<Rightarrow> string \<Rightarrow> condition" where
  "GetCondition [] ct =
     \<lparr>c_Type = ct, c_Status = ConditionUnknown, c_LastTransitionTime = zero_time, c_Reason = [],
      c_Message = [], c_ObservedGeneration = 0\<rparr>"
| "GetCondition (c # cs) ct = (if c_Type c = ct then c else GetCondition cs ct)"

text \<open>
  The inner loop of \<^verbatim>\<open>SetConditions\<close>: it replaces every condition of that type unless it is equal,
  and says whether there was one.
\<close>

fun replace_condition :: "condition \<Rightarrow> condition list \<Rightarrow> bool \<times> condition list" where
  "replace_condition cond [] = (False, [])"
| "replace_condition cond (existing # cs) =
     (case replace_condition cond cs of
        (exists, cs') \<Rightarrow>
          if c_Type existing \<noteq> c_Type cond then (exists, existing # cs')
          else if condition_Equal existing cond then (True, existing # cs')
          else (True, cond # cs'))"

definition set_condition :: "condition \<Rightarrow> condition list \<Rightarrow> condition list" where
  "set_condition cond cs =
     (case replace_condition cond cs of (exists, cs') \<Rightarrow> if \<not> exists then cs' @ [cond] else cs')"

definition SetConditions :: "condition list \<Rightarrow> condition list \<Rightarrow> condition list" where
  "SetConditions cs new = fold set_condition new cs"

definition NewConditionedStatus :: "condition list \<Rightarrow> condition list" where
  "NewConditionedStatus new = SetConditions [] new"

text \<open>
  \<^verbatim>\<open>ConditionedStatus.Equal\<close>; a nil pointer is \<open>None\<close>. \<^verbatim>\<open>sort.Slice\<close> is a sort by type; on a status
  with one condition of each type the order among equals does not arise.
\<close>

definition status_Equal :: "condition list option \<Rightarrow> condition list option \<Rightarrow> bool" where
  "status_Equal s other =
     (case (s, other) of
        (Some sc, Some oc) \<Rightarrow>
          if length oc \<noteq> length sc then False
          else list_all2 condition_Equal (sort_key c_Type sc) (sort_key c_Type oc)
      | _ \<Rightarrow> s = None \<and> other = None)"

section \<open>The conditions reconcilers set\<close>

definition mk_condition :: "string \<Rightarrow> condition_status \<Rightarrow> string \<Rightarrow> go_time \<Rightarrow> condition" where
  "mk_condition ty st reason now =
     \<lparr>c_Type = ty, c_Status = st, c_LastTransitionTime = now, c_Reason = reason, c_Message = [],
      c_ObservedGeneration = 0\<rparr>"

definition Creating :: "go_time \<Rightarrow> condition" where
  "Creating = mk_condition TypeReady ConditionFalse ''Creating''"
definition Deleting :: "go_time \<Rightarrow> condition" where
  "Deleting = mk_condition TypeReady ConditionFalse ''Deleting''"
definition Available :: "go_time \<Rightarrow> condition" where
  "Available = mk_condition TypeReady ConditionTrue ''Available''"
definition Unavailable :: "go_time \<Rightarrow> condition" where
  "Unavailable = mk_condition TypeReady ConditionFalse ''Unavailable''"
definition ReconcileSuccess :: "go_time \<Rightarrow> condition" where
  "ReconcileSuccess = mk_condition TypeSynced ConditionTrue ''ReconcileSuccess''"
definition ReconcilePaused :: "go_time \<Rightarrow> condition" where
  "ReconcilePaused = mk_condition TypeSynced ConditionFalse ''ReconcilePaused''"
definition ObserveMatched :: "go_time \<Rightarrow> condition" where
  "ObserveMatched = mk_condition TypeUpToDate ConditionTrue ''ObserveMatched''"
definition UpdateRequested :: "go_time \<Rightarrow> condition" where
  "UpdateRequested = mk_condition TypeUpToDate ConditionFalse ''UpdateRequested''"
definition UpdateRestricted :: "go_time \<Rightarrow> condition" where
  "UpdateRestricted = mk_condition TypeUpToDate ConditionFalse ''UpdateRestricted''"
definition UpdateFailed :: "go_time \<Rightarrow> condition" where
  "UpdateFailed = mk_condition TypeUpToDate ConditionFalse ''UpdateFailed''"
definition PausedUnknown :: "go_time \<Rightarrow> condition" where
  "PausedUnknown = mk_condition TypeUpToDate ConditionUnknown ''ReconcilePaused''"

text \<open>The text of an error; a format is printed with its operands after it.\<close>

fun error_text :: "go_error \<Rightarrow> string" where
  "error_text (Errorf f args) = join_with '' '' (f # args)"
| "error_text (Wrap e msg) = msg @ '': '' @ error_text e"

definition ReconcileError :: "go_error \<Rightarrow> go_time \<Rightarrow> condition" where
  "ReconcileError err now =
     (mk_condition TypeSynced ConditionFalse ''ReconcileError'' now)\<lparr>c_Message := error_text err\<rparr>"

section \<open>Correctness\<close>

definition one_each :: "condition list \<Rightarrow> bool" where
  "one_each cs \<longleftrightarrow> distinct (map c_Type cs)"

lemma replace_condition_spec:
  "replace_condition cond cs =
     (c_Type cond \<in> c_Type ` set cs,
      map (\<lambda>e. if c_Type e = c_Type cond \<and> \<not> condition_Equal e cond then cond else e) cs)"
  by (induction cs) auto

lemma map_type_replace:
  "map (c_Type \<circ> (\<lambda>e. if c_Type e = c_Type cond \<and> P e then cond else e)) cs = map c_Type cs"
  by (rule map_cong) auto

lemma types_set_condition:
  "map c_Type (set_condition cond cs) =
     map c_Type cs @ (if c_Type cond \<in> c_Type ` set cs then [] else [c_Type cond])"
  by (simp add: set_condition_def replace_condition_spec map_type_replace)

lemma one_each_set_condition: "one_each cs \<Longrightarrow> one_each (set_condition cond cs)"
  unfolding one_each_def types_set_condition by auto

lemma GetCondition_Type [simp]: "c_Type (GetCondition cs ct) = ct"
  by (induction cs) auto

lemma GetCondition_append:
  "GetCondition (xs @ ys) ct =
     (if ct \<in> c_Type ` set xs then GetCondition xs ct else GetCondition ys ct)"
  by (induction xs) auto

lemma GetCondition_replace:
  "GetCondition (map (\<lambda>e. if c_Type e = c_Type cond \<and> \<not> condition_Equal e cond then cond else e) cs) ct =
     (if ct = c_Type cond \<and> ct \<in> c_Type ` set cs \<and> \<not> condition_Equal (GetCondition cs ct) cond
      then cond else GetCondition cs ct)"
  by (induction cs) auto

lemma GetCondition_set_condition:
  "GetCondition (set_condition cond cs) ct =
     (if ct \<noteq> c_Type cond then GetCondition cs ct
      else if ct \<in> c_Type ` set cs \<and> condition_Equal (GetCondition cs ct) cond
      then GetCondition cs ct else cond)"
proof (cases "c_Type cond \<in> c_Type ` set cs")
  case True
  then show ?thesis
    by (auto simp: set_condition_def replace_condition_spec GetCondition_replace)
next
  case False
  then have "map (\<lambda>e. if c_Type e = c_Type cond \<and> \<not> condition_Equal e cond then cond else e) cs = cs"
    by (intro map_idI) (metis (mono_tags, lifting) image_eqI)
  with False have set: "set_condition cond cs = cs @ [cond]"
    by (simp add: set_condition_def replace_condition_spec)
  have "GetCondition cs ct = GetCondition [] ct" if "ct \<notin> c_Type ` set cs"
    using that by (induction cs) auto
  with False show ?thesis
    by (auto simp: set GetCondition_append)
qed

lemma one_each_SetConditions: "one_each cs \<Longrightarrow> one_each (SetConditions cs new)"
  unfolding SetConditions_def
  by (induction new arbitrary: cs) (simp_all add: one_each_set_condition)

lemma types_SetConditions: "c_Type ` set (SetConditions cs new) = c_Type ` set cs \<union> c_Type ` set new"
proof (induction new arbitrary: cs)
  case (Cons c new)
  have "c_Type ` set (set_condition c cs) = insert (c_Type c) (c_Type ` set cs)"
    using arg_cong [OF types_set_condition [of c cs], of set] by auto
  with Cons show ?case by (simp add: SetConditions_def)
qed (simp add: SetConditions_def)

text \<open>Equality is reflexive and symmetric; the generation 0 makes it not transitive.\<close>

lemma condition_Equal_refl [simp]: "condition_Equal c c"
  by (simp add: condition_Equal_def)

lemma condition_Equal_sym: "condition_Equal c d \<longleftrightarrow> condition_Equal d c"
  by (auto simp: condition_Equal_def)

lemma condition_Equal_not_transitive:
  "let c = ReconcileSuccess 0; d = WithObservedGeneration c 1; e = WithObservedGeneration c 2 in
   condition_Equal d c \<and> condition_Equal c e \<and> \<not> condition_Equal d e"
  by (simp add: Let_def condition_Equal_def WithObservedGeneration_def ReconcileSuccess_def
      mk_condition_def)

lemma condition_Equal_same:
  assumes "condition_Equal c d"
  shows "c_Type c = c_Type d" "c_Status c = c_Status d" "c_Reason c = c_Reason d"
    "c_Message c = c_Message d"
  using assms by (auto simp: condition_Equal_def split: if_splits)

lemma GetCondition_in:
  "ct \<in> c_Type ` set cs \<Longrightarrow> GetCondition cs ct \<in> set cs"
  by (induction cs) auto

lemma GetCondition_one_each:
  "one_each cs \<Longrightarrow> c \<in> set cs \<Longrightarrow> GetCondition cs (c_Type c) = c"
  unfolding one_each_def by (induction cs) (auto simp: image_iff)

lemma sorted_types_nth:
  assumes "one_each sc" "one_each oc" "c_Type ` set sc = c_Type ` set oc"
  shows "map c_Type (sort_key c_Type sc) = map c_Type (sort_key c_Type oc)"
proof (rule sorted_distinct_set_unique)
  show "distinct (map c_Type (sort_key c_Type sc))" "distinct (map c_Type (sort_key c_Type oc))"
    using assms(1,2) unfolding one_each_def
    by (metis distinct_map distinct_sort set_sort)+
qed (use assms(3) in simp_all)

section \<open>Properties\<close>

text \<open>
  Setting conditions never leaves two of a type, changes no condition of a type that is not
  set, and leaves the status, reason and message that were set last for every type that is; so a
  resource's conditions are those most recently set, whatever they were before.
\<close>

theorem SetConditions_last:
  assumes "one_each cs"
  shows "one_each (SetConditions cs new) \<and>
    (case find (\<lambda>c. c_Type c = ct) (rev new) of
       None \<Rightarrow> GetCondition (SetConditions cs new) ct = GetCondition cs ct
     | Some c \<Rightarrow>
         c_Type (GetCondition (SetConditions cs new) ct) = ct \<and>
         c_Status (GetCondition (SetConditions cs new) ct) = c_Status c \<and>
         c_Reason (GetCondition (SetConditions cs new) ct) = c_Reason c \<and>
         c_Message (GetCondition (SetConditions cs new) ct) = c_Message c)"
proof (rule conjI [OF one_each_SetConditions [OF assms]])
  show "case find (\<lambda>c. c_Type c = ct) (rev new) of
       None \<Rightarrow> GetCondition (SetConditions cs new) ct = GetCondition cs ct
     | Some c \<Rightarrow>
         c_Type (GetCondition (SetConditions cs new) ct) = ct \<and>
         c_Status (GetCondition (SetConditions cs new) ct) = c_Status c \<and>
         c_Reason (GetCondition (SetConditions cs new) ct) = c_Reason c \<and>
         c_Message (GetCondition (SetConditions cs new) ct) = c_Message c"
  proof (induction new rule: rev_induct)
    case (snoc c new)
    have set: "SetConditions cs (new @ [c]) = set_condition c (SetConditions cs new)"
      by (simp add: SetConditions_def)
    show ?case
    proof (cases "c_Type c = ct")
      case True
      then show ?thesis
        using condition_Equal_same [of "GetCondition (SetConditions cs new) ct" c]
        by (simp add: set GetCondition_set_condition)
    next
      case False
      then have "GetCondition (SetConditions cs (new @ [c])) ct = GetCondition (SetConditions cs new) ct"
        by (auto simp: set GetCondition_set_condition)
      with snoc show ?thesis
        by (simp only: rev_append rev.simps append_Nil append_Cons find.simps False if_False)
    qed
  qed (simp add: SetConditions_def)
qed

theorem SetConditions_last_witness:
  "one_each (SetConditions [Creating 1, ReconcileSuccess 1] [Available 2, Available 3]) \<and>
   c_Status (GetCondition (SetConditions [Creating 1, ReconcileSuccess 1] [Available 2, Available 3])
     ''Ready'') = ConditionTrue"
  using SetConditions_last [of "[Creating 1, ReconcileSuccess 1]" "[Available 2, Available 3]" "''Ready''"]
  by (simp add: one_each_def Creating_def ReconcileSuccess_def Available_def mk_condition_def
      TypeReady_def TypeSynced_def)

text \<open>
  Comparing two statuses by sorting their conditions by type and comparing position by position
  gives the same answer as the specification: the same types are present, and the conditions of
  every type are equal, whatever their order.
\<close>

theorem status_Equal_by_type:
  assumes "one_each sc" "one_each oc"
  shows "status_Equal (Some sc) (Some oc) \<longleftrightarrow>
    c_Type ` set sc = c_Type ` set oc \<and>
    (\<forall>ct \<in> c_Type ` set sc. condition_Equal (GetCondition sc ct) (GetCondition oc ct))"
proof
  assume "status_Equal (Some sc) (Some oc)"
  then have l: "list_all2 condition_Equal (sort_key c_Type sc) (sort_key c_Type oc)"
    by (simp add: status_Equal_def split: if_splits)
  then have "list_all2 (=) (map c_Type (sort_key c_Type sc)) (map c_Type (sort_key c_Type oc))"
    by (auto simp: list_all2_conv_all_nth dest: condition_Equal_same(1))
  then have types: "map c_Type (sort_key c_Type sc) = map c_Type (sort_key c_Type oc)"
    by (simp add: list_all2_eq)
  have "condition_Equal (GetCondition sc ct) (GetCondition oc ct)" if "ct \<in> c_Type ` set sc" for ct
  proof -
    from that obtain c where c: "c \<in> set (sort_key c_Type sc)" "c_Type c = ct" by auto
    then obtain i where i: "i < length sc" "sort_key c_Type sc ! i = c"
      unfolding in_set_conv_nth by (metis length_sort)
    let ?d = "sort_key c_Type oc ! i"
    have "length sc = length oc" using list_all2_lengthD [OF l] by simp
    then have d: "?d \<in> set oc" using i(1) by (metis length_sort nth_mem set_sort)
    have e: "condition_Equal c ?d" using list_all2_nthD [OF l, of i] i by simp
    then have "c_Type ?d = ct" using condition_Equal_same(1) c(2) by metis
    then have "GetCondition oc ct = ?d" using GetCondition_one_each [OF assms(2) d] by simp
    moreover have "GetCondition sc ct = c" using GetCondition_one_each [OF assms(1)] c by auto
    ultimately show ?thesis using e by simp
  qed
  moreover have "c_Type ` set sc = c_Type ` set oc"
    using arg_cong [OF types, of set] by simp
  ultimately show "c_Type ` set sc = c_Type ` set oc \<and>
    (\<forall>ct \<in> c_Type ` set sc. condition_Equal (GetCondition sc ct) (GetCondition oc ct))" by blast
next
  assume r: "c_Type ` set sc = c_Type ` set oc \<and>
    (\<forall>ct \<in> c_Type ` set sc. condition_Equal (GetCondition sc ct) (GetCondition oc ct))"
  note types = sorted_types_nth [OF assms r [THEN conjunct1]]
  have len: "length sc = length oc" using arg_cong [OF types, of length] by simp
  have "condition_Equal (sort_key c_Type sc ! i) (sort_key c_Type oc ! i)" if "i < length sc" for i
  proof -
    have s: "sort_key c_Type sc ! i \<in> set sc" "sort_key c_Type oc ! i \<in> set oc"
      using that len by (metis length_sort nth_mem set_sort)+
    have "c_Type (sort_key c_Type sc ! i) = c_Type (sort_key c_Type oc ! i)"
      using arg_cong [OF types, of "\<lambda>xs. xs ! i"] that len by simp
    then show ?thesis
      using r s GetCondition_one_each [OF assms(1) s(1)] GetCondition_one_each [OF assms(2) s(2)]
      by (metis imageI)
  qed
  then show "status_Equal (Some sc) (Some oc)"
    by (simp add: status_Equal_def len list_all2_conv_all_nth)
qed

theorem status_Equal_by_type_witness:
  "status_Equal (Some [Creating 1, ReconcileSuccess 1]) (Some [ReconcileSuccess 2, Creating 3])"
  using status_Equal_by_type [of "[Creating 1, ReconcileSuccess 1]" "[ReconcileSuccess 2, Creating 3]"]
  by (auto simp: one_each_def Creating_def ReconcileSuccess_def mk_condition_def TypeReady_def
      TypeSynced_def condition_Equal_def)

end
