(* ===== verification/ApiServer.thy ===== *)
theory ApiServer
  imports GoPrelude
begin

text \<open>
  What the reconcilers below share: the errors of the API server they tell apart, the result of a
  reconcile, and a record of the calls made, for the properties.
\<close>

datatype api_error = NotFound | Conflict | AlreadyExists | ApiError go_error

definition api_text :: "api_error \<Rightarrow> go_error" where
  "api_text e =
     (case e of NotFound \<Rightarrow> Errorf ''not found'' [] | Conflict \<Rightarrow> Errorf ''conflict'' []
      | AlreadyExists \<Rightarrow> Errorf ''already exists'' [] | ApiError err \<Rightarrow> err)"

text \<open>\<^verbatim>\<open>Result{Requeue: true}\<close>, an empty result with an error or none, or a panic.\<close>

datatype result = Requeue | Return "go_error option" | Panicked

text \<open>A read, and a write that is noted, on a world that also keeps the calls, in order.\<close>

definition quiet :: "('w \<Rightarrow> 'r \<times> 'w) \<Rightarrow> 'w \<times> 'c list \<Rightarrow> 'r \<times> 'w \<times> 'c list" where
  "quiet f s = (case f (fst s) of (r, w) \<Rightarrow> (r, w, snd s))"

definition noted :: "'c \<Rightarrow> ('w \<Rightarrow> 'r \<times> 'w) \<Rightarrow> 'w \<times> 'c list \<Rightarrow> 'r \<times> 'w \<times> 'c list" where
  "noted c f s = (case f (fst s) of (r, w) \<Rightarrow> (r, w, snd s @ [c]))"

lemma quiet_result [simp]: "fst (quiet f s) = fst (f (fst s))" "snd (snd (quiet f s)) = snd s"
  by (simp_all add: quiet_def split_beta)

lemma noted_result [simp]: "snd (snd (noted c f s)) = snd s @ [c]" "fst (noted c f s) = fst (f (fst s))"
  by (simp_all add: noted_def split_beta)

text \<open>A read leaves the calls as they were.\<close>

lemma quiet_run:
  assumes "quiet f s = (r, s1)"
  shows "fst (f (fst s)) = r" "snd s1 = snd s"
  using arg_cong [OF assms, of fst] arg_cong [OF assms, of "snd \<circ> snd"] by simp_all

lemma noted_run:
  assumes "noted c f s = (r, s1)"
  shows "fst (f (fst s)) = r" "snd s1 = snd s @ [c]"
  using arg_cong [OF assms, of fst] arg_cong [OF assms, of "snd \<circ> snd"] by simp_all

end
