(* ===== verification/Resolver.thy ===== *)
theory Resolver
  imports DagProps Conditions ApiServer
begin

text \<open>
  The resolver of package dependencies, \<^verbatim>\<open>internal/controller/pkg/resolver/reconciler.go\<close> of
  Crossplane: it reads the lock, builds the modelled graph, and installs the first package that is
  missing or, with upgrades enabled, moves one to a version all who depend on it accept. Semantic
  versions, digests, image references, the registry and the API server are parameters, as is \<^verbatim>\<open>MarkConditions\<close> of
  the runtime library, which sets a condition of the lock.
\<close>

section \<open>Objects\<close>

record lock =
  lk_Packages :: "lock_package list"
  lk_Conditions :: "condition list"

text \<open>What the resolver reads of an image reference, and of a package object.\<close>

record reference =
  rf_String :: string
  rf_Repository :: string
  rf_Name :: string
  rf_Identifier :: string

record package =
  pk_APIVersion :: string
  pk_Kind :: string
  pk_Name :: string
  pk_Package :: "string option"
  pk_Resolved :: "string option"

record ('c, 'v, 'w) resolver =
  rl_semver :: "('c, 'v) semver"
  rl_String :: "'v \<Rightarrow> string"
  rl_Original :: "'v \<Rightarrow> string"
  rl_Compare :: "'v \<Rightarrow> 'v \<Rightarrow> int"
  rl_SortVersions :: "'v list \<Rightarrow> 'v list"
  rl_NewHash :: "string \<Rightarrow> string option"
  rl_ParseReference :: "string \<Rightarrow> reference res"
  rl_ParseStrict :: "string \<Rightarrow> reference res"
  rl_ToDNSLabel :: "string \<Rightarrow> string"
  rl_order :: "map_dag \<Rightarrow> string list"
  rl_ListVersions :: "string \<Rightarrow> 'w \<Rightarrow> string list res \<times> 'w"
  rl_MarkConditions :: "condition \<Rightarrow> lock \<Rightarrow> lock"
  rl_GetLock :: "'w \<Rightarrow> (api_error + lock) \<times> 'w"
  rl_AddFinalizer :: "lock \<Rightarrow> 'w \<Rightarrow> api_error option \<times> 'w"
  rl_RemoveFinalizer :: "lock \<Rightarrow> 'w \<Rightarrow> api_error option \<times> 'w"
  rl_UpdateStatus :: "lock \<Rightarrow> 'w \<Rightarrow> api_error option \<times> 'w"
  rl_List :: "string \<Rightarrow> string \<Rightarrow> 'w \<Rightarrow> (api_error + package list) \<times> 'w"
  rl_Create :: "package \<Rightarrow> 'w \<Rightarrow> api_error option \<times> 'w"
  rl_Update :: "package \<Rightarrow> 'w \<Rightarrow> api_error option \<times> 'w"
  rl_upgrades :: bool
  rl_downgradesEnabled :: bool

definition ResolutionFailed :: "go_error \<Rightarrow> go_time \<Rightarrow> condition" where
  "ResolutionFailed err now =
     (mk_condition ''Resolved'' ConditionFalse ''DependencyResolutionFailed'' now)
       \<lparr>c_Message := ''Error occurred during dependency resolution '' @ error_text err\<rparr>"

definition ResolutionSucceeded :: "go_time \<Rightarrow> condition" where
  "ResolutionSucceeded now = mk_condition ''Resolved'' ConditionTrue ''DependencyResolutionSucceeded'' now"

section \<open>Versions\<close>

fun parse_versions :: "('c, 'v, 'w) resolver \<Rightarrow> bool \<Rightarrow> string list \<Rightarrow> 'v list" where
  "parse_versions x complete [] = []"
| "parse_versions x complete (tag # tags) =
     (case NewVersion (rl_semver x) tag of
        Inl _ \<Rightarrow> parse_versions x complete tags
      | Inr v \<Rightarrow>
          if complete \<and> rl_String x v \<noteq> trim_prefix (rl_Original x v) ''v''
          then parse_versions x complete tags
          else v # parse_versions x complete tags)"

definition findDependencyVersionToInstall ::
  "('c, 'v, 'w) resolver \<Rightarrow> dependency \<Rightarrow> reference \<Rightarrow> 'w \<Rightarrow> string res \<times> 'w" where
  "findDependencyVersionToInstall x dep rf w =
     (case rl_NewHash x (dep_Constraints dep) of
        Some digest \<Rightarrow> (Inr digest, w)
      | None \<Rightarrow>
          (case NewConstraint (rl_semver x) (dep_Constraints dep) of
             Inl e \<Rightarrow> (Inl (Wrap e ''version constraint on dependency is invalid''), w)
           | Inr c \<Rightarrow>
               (case rl_ListVersions x (rf_String rf) w of
                  (Inl e, w1) \<Rightarrow> (Inl (Wrap e ''cannot fetch dependency package tags''), w1)
                | (Inr versions, w1) \<Rightarrow>
                    (let vs = rl_SortVersions x (parse_versions x True versions)
                     in (Inr (fold (\<lambda>v addVer. if Check (rl_semver x) c v then rl_Original x v else addVer) vs []),
                         w1)))))"

text \<open>The digest all parents agree on, if any.\<close>

fun digest_loop ::
  "('c, 'v, 'w) resolver \<Rightarrow> string list \<Rightarrow> string list \<Rightarrow> string \<Rightarrow> bool \<Rightarrow> string res" where
  "digest_loop x all [] foundDigest foundVersion = Inr foundDigest"
| "digest_loop x all (c # cs) foundDigest foundVersion =
     (case rl_NewHash x c of
        Some d \<Rightarrow>
          if foundDigest \<noteq> [] \<and> foundDigest \<noteq> d
          then Inl (Errorf ''a dependency package has different digests in parent constraints (%v)'' all)
          else if foundVersion \<and> d \<noteq> []
          then Inl (Errorf ''a dependency package has different types of parent constraints (%v)'' all)
          else digest_loop x all cs d foundVersion
      | None \<Rightarrow>
          if foundDigest \<noteq> []
          then Inl (Errorf ''a dependency package has different types of parent constraints (%v)'' all)
          else digest_loop x all cs foundDigest True)"

definition findDigestToUpdate :: "('c, 'v, 'w) resolver \<Rightarrow> node \<Rightarrow> string res" where
  "findDigestToUpdate x n = digest_loop x (GetParentConstraints n) (GetParentConstraints n) [] False"

fun parse_constraints :: "('c, 'v, 'w) resolver \<Rightarrow> string list \<Rightarrow> 'c list res" where
  "parse_constraints x [] = Inr []"
| "parse_constraints x (c # cs) =
     (case NewConstraint (rl_semver x) c of
        Inl e \<Rightarrow> Inl (Wrap e ''version constraint on dependency is invalid'')
      | Inr k \<Rightarrow> (case parse_constraints x cs of Inl e \<Rightarrow> Inl e | Inr ks \<Rightarrow> Inr (k # ks)))"

fun target_loop :: "('c, 'v, 'w) resolver \<Rightarrow> 'c list \<Rightarrow> 'v \<Rightarrow> 'v list \<Rightarrow> 'v option \<Rightarrow> 'v option" where
  "target_loop x cs current [] target = target"
| "target_loop x cs current (v # vs) target =
     (let valid = list_all (\<lambda>c. Check (rl_semver x) c v) cs in
      if (rl_Compare x v current > 0 \<or> rl_Compare x v current = 0) \<and> valid then Some v
      else target_loop x cs current vs (if rl_downgradesEnabled x \<and> valid then Some v else target))"

text \<open>\<open>None\<close> is the panic of \<^verbatim>\<open>MustParse\<close> on an installed version that is not a semantic version.\<close>

definition findDependencyVersionToUpdate ::
  "('c, 'v, 'w) resolver \<Rightarrow> reference \<Rightarrow> string \<Rightarrow> node \<Rightarrow> 'w \<Rightarrow> string res option \<times> 'w" where
  "findDependencyVersionToUpdate x rf insVer n w =
     (case findDigestToUpdate x n of
        Inl e \<Rightarrow> (Some (Inl e), w)
      | Inr digest \<Rightarrow>
          if digest \<noteq> [] then (Some (Inr digest), w)
          else
            (case rl_ListVersions x (rf_String rf) w of
               (Inl e, w1) \<Rightarrow> (Some (Inl (Wrap e ''cannot fetch dependency package tags'')), w1)
             | (Inr versions, w1) \<Rightarrow>
                 (let available = parse_versions x False versions in
                  case parse_constraints x (GetParentConstraints n) of
                    Inl e \<Rightarrow> (Some (Inl e), w1)
                  | Inr cs \<Rightarrow>
                      (case NewVersion (rl_semver x) insVer of
                         Inl _ \<Rightarrow> (None, w1)
                       | Inr current \<Rightarrow>
                           (case target_loop x cs current (rl_SortVersions x available) None of
                              Some v \<Rightarrow> (Some (Inr (rl_Original x v)), w1)
                            | None \<Rightarrow>
                                (Some (Inl (Errorf ''dependency (%s) does not have a valid version to upgrade that satisfies all constraints. If there is a valid version that requires downgrade, manual intervention is required. Constraints: %v''
                                   (Identifier n # GetParentConstraints n))), w1))))))"

section \<open>Pruning the lock\<close>

definition matchesAnyConstraint :: "('c, 'v, 'w) resolver \<Rightarrow> string \<Rightarrow> string list \<Rightarrow> bool" where
  "matchesAnyConstraint x version constraints =
     (if rl_NewHash x version \<noteq> None then version \<in> set constraints
      else
        (case NewVersion (rl_semver x) version of
           Inl _ \<Rightarrow> False
         | Inr v \<Rightarrow>
             list_ex (\<lambda>constraint.
               if rl_NewHash x constraint \<noteq> None then False
               else (case NewConstraint (rl_semver x) constraint of Inl _ \<Rightarrow> False | Inr c \<Rightarrow> Check (rl_semver x) c v))
               constraints))"

text \<open>The constraints on a source; \<open>[]\<close> when it is nobody's dependency.\<close>

definition depConstraints :: "lock_package list \<Rightarrow> string \<Rightarrow> string list" where
  "depConstraints pkgs src =
     concat (map (\<lambda>p. map dep_Constraints (filter (\<lambda>d. dep_Package d = src) (lp_Dependencies p))) pkgs)"

definition pruneOutdatedDependencies :: "('c, 'v, 'w) resolver \<Rightarrow> lock_package list \<Rightarrow> lock_package list" where
  "pruneOutdatedDependencies x pkgs =
     filter (\<lambda>p. depConstraints pkgs (lp_Source p) = [] \<or>
                 matchesAnyConstraint x (lp_Version p) (depConstraints pkgs (lp_Source p))) pkgs"

section \<open>Package objects\<close>

definition pkg_group_version :: string where "pkg_group_version = ''pkg.crossplane.io/v1''"

fun type_kind :: "package_type \<Rightarrow> string" where
  "type_kind ConfigurationPackageType = ''Configuration''"
| "type_kind ProviderPackageType = ''Provider''"
| "type_kind FunctionPackageType = ''Function''"

definition invalid_dependency :: go_error where
  "invalid_dependency = Errorf ''encountered an invalid dependency: package dependencies must specify either a valid type, or an explicit apiVersion, kind, and package'' []"

definition dependency_kind :: "dependency \<Rightarrow> (string \<times> string) res" where
  "dependency_kind dep =
     (case (dep_APIVersion dep, dep_Kind dep) of
        (Some v, Some k) \<Rightarrow> Inr (v, k)
      | _ \<Rightarrow> (case dep_Type dep of
                Some t \<Rightarrow> Inr (pkg_group_version, type_kind t)
              | None \<Rightarrow> Inl invalid_dependency))"

text \<open>The reference of a version: a tag or a digest.\<close>

definition at_version :: "reference \<Rightarrow> string \<Rightarrow> string" where
  "at_version rf version =
     (if has_prefix version ''sha256:'' then rf_String rf @ ''@'' @ version else rf_String rf @ '':'' @ version)"

definition NewPackage ::
  "('c, 'v, 'w) resolver \<Rightarrow> dependency \<Rightarrow> string \<Rightarrow> reference \<Rightarrow> package res" where
  "NewPackage x dep version rf =
     (case dependency_kind dep of
        Inl e \<Rightarrow> Inl e
      | Inr (v, k) \<Rightarrow>
          Inr \<lparr>pk_APIVersion = v, pk_Kind = k, pk_Name = rl_ToDNSLabel x (rf_Repository rf),
               pk_Package = Some (at_version rf version), pk_Resolved = None\<rparr>)"

definition NewPackageList :: "dependency \<Rightarrow> (string \<times> string) res" where
  "NewPackageList dep =
     (case dependency_kind dep of Inl e \<Rightarrow> Inl e | Inr (v, k) \<Rightarrow> Inr (v, k @ ''List''))"

text \<open>The installed package of a reference and its version; the last match of the list is taken.\<close>

definition installed_version :: "('c, 'v, 'w) resolver \<Rightarrow> package \<Rightarrow> reference \<Rightarrow> string" where
  "installed_version x p pref =
     (case pk_Resolved p of
        Some resolved \<Rightarrow>
          if resolved \<noteq> [] then
            (case rl_ParseStrict x resolved of Inr rref \<Rightarrow> rf_Identifier rref | Inl _ \<Rightarrow> rf_Identifier pref)
          else rf_Identifier pref
      | None \<Rightarrow> rf_Identifier pref)"

definition installed_step ::
  "('c, 'v, 'w) resolver \<Rightarrow> reference \<Rightarrow> package \<Rightarrow> (package \<times> string) option \<Rightarrow> (package \<times> string) option" where
  "installed_step x rf p found =
     (case rl_ParseStrict x (case pk_Package p of None \<Rightarrow> [] | Some s \<Rightarrow> s) of
        Inl _ \<Rightarrow> found
      | Inr pref \<Rightarrow> if rf_Name pref = rf_Name rf then Some (p, installed_version x p pref) else found)"

section \<open>A reconcile\<close>

definition finish :: "('c, 'v, 'w) resolver \<Rightarrow> lock \<Rightarrow> 'w \<Rightarrow> result \<times> 'w" where
  "finish x l w =
     (case rl_UpdateStatus x l w of
        (None, w1) \<Rightarrow> (Return None, w1)
      | (Some e, w1) \<Rightarrow> (Return (Some (Wrap (api_text e) ''cannot update status'')), w1))"

definition succeed :: "('c, 'v, 'w) resolver \<Rightarrow> go_time \<Rightarrow> lock \<Rightarrow> 'w \<Rightarrow> result \<times> 'w" where
  "succeed x now l w = finish x (rl_MarkConditions x (ResolutionSucceeded now) l) w"

text \<open>A failure that is reported and not retried, and one whose error is returned.\<close>

definition give_up :: "('c, 'v, 'w) resolver \<Rightarrow> go_time \<Rightarrow> lock \<Rightarrow> go_error \<Rightarrow> 'w \<Rightarrow> result \<times> 'w" where
  "give_up x now l err w = finish x (rl_MarkConditions x (ResolutionFailed err now) l) w"

definition fail_with :: "('c, 'v, 'w) resolver \<Rightarrow> go_time \<Rightarrow> lock \<Rightarrow> go_error \<Rightarrow> 'w \<Rightarrow> result \<times> 'w" where
  "fail_with x now l err w = (Return (Some err), snd (rl_UpdateStatus x (rl_MarkConditions x (ResolutionFailed err now) l) w))"

definition with_finalizer ::
  "api_error option \<times> 'w \<Rightarrow> string \<Rightarrow> ('w \<Rightarrow> result \<times> 'w) \<Rightarrow> result \<times> 'w" where
  "with_finalizer r msg k =
     (case r of
        (None, w1) \<Rightarrow> k w1
      | (Some e, w1) \<Rightarrow> if e = Conflict then (Requeue, w1) else (Return (Some (Wrap (api_text e) msg)), w1))"

text \<open>The package is missing: the version to install and the new object.\<close>

definition install_dependency ::
  "('c, 'v, 'w) resolver \<Rightarrow> go_time \<Rightarrow> lock \<Rightarrow> dependency \<Rightarrow> reference \<Rightarrow> 'w \<Rightarrow> result \<times> 'w" where
  "install_dependency x now l dep rf w =
     (case findDependencyVersionToInstall x dep rf w of
        (Inl e, w1) \<Rightarrow> fail_with x now l (Wrap e ''cannot find dependency version to install'') w1
      | (Inr addVer, w1) \<Rightarrow>
          if addVer = []
          then give_up x now l (Errorf ''dependency (%s) does not have a valid version to upgrade that satisfies all constraints. If there is a valid version that requires downgrade, manual intervention is required. Constraints: %v''
                 [dep_Identifier dep, dep_Constraints dep]) w1
          else
            (case NewPackage x dep addVer rf of
               Inl e \<Rightarrow> fail_with x now l (Wrap e ''cannot construct dependency package'') w1
             | Inr pack \<Rightarrow>
                 (case rl_Create x pack w1 of
                    (Some e, w2) \<Rightarrow>
                      if e \<noteq> AlreadyExists
                      then fail_with x now l (Wrap (api_text e) ''cannot create dependency package'') w2
                      else succeed x now l w2
                  | (None, w2) \<Rightarrow> succeed x now l w2)))"

text \<open>The package is installed, at a version not all constraints accept.\<close>

definition update_dependency ::
  "('c, 'v, 'w) resolver \<Rightarrow> go_time \<Rightarrow> lock \<Rightarrow> map_dag \<Rightarrow> string \<Rightarrow> reference \<Rightarrow> package \<Rightarrow> string \<Rightarrow> 'w \<Rightarrow>
     result \<times> 'w" where
  "update_dependency x now l d depID rf pkg installedVersion w =
     (case up_GetNode d depID of
        Inl _ \<Rightarrow> fail_with x now l (Errorf ''missing package (%s) is not a dependency'' [depID]) w
      | Inr r \<Rightarrow>
          (case findDependencyVersionToUpdate x rf installedVersion (deref d r) w of
             (None, w1) \<Rightarrow> (Panicked, w1)
           | (Some (Inl e), w1) \<Rightarrow> fail_with x now l (Wrap e ''cannot find dependency version to upgrade'') w1
           | (Some (Inr newVer), w1) \<Rightarrow>
               (case rl_Update x (pkg\<lparr>pk_Package := Some (at_version rf newVer)\<rparr>) w1 of
                  (Some e, w2) \<Rightarrow> fail_with x now l (Wrap (api_text e) ''cannot update dependency package'') w2
                | (None, w2) \<Rightarrow> succeed x now l w2)))"

definition resolve_dependency ::
  "('c, 'v, 'w) resolver \<Rightarrow> go_time \<Rightarrow> lock \<Rightarrow> map_dag \<Rightarrow> dependency \<Rightarrow> 'w \<Rightarrow> result \<times> 'w" where
  "resolve_dependency x now l d dep w =
     (case rl_ParseReference x (dep_Identifier dep) of
        Inl e \<Rightarrow> give_up x now l (Wrap e ''dependency package is not valid'') w
      | Inr rf \<Rightarrow>
          if \<not> rl_upgrades x then install_dependency x now l dep rf w
          else
            (case NewPackageList dep of
               Inl e \<Rightarrow> fail_with x now l (Wrap e ''cannot get dependency package'') w
             | Inr (v, k) \<Rightarrow>
                 (case rl_List x v k w of
                    (Inl e, w1) \<Rightarrow> fail_with x now l (Wrap (api_text e) ''cannot get dependency package'') w1
                  | (Inr items, w1) \<Rightarrow>
                      (case fold (installed_step x rf) items None of
                         None \<Rightarrow> install_dependency x now l dep rf w1
                       | Some (pkg, installedVersion) \<Rightarrow>
                           update_dependency x now l d (dep_Identifier dep) rf pkg installedVersion w1))))"

definition lock_init ::
  "('c, 'v, 'w) resolver \<Rightarrow> lock_package list \<Rightarrow> ref list res \<times> map_dag" where
  "lock_init x pkgs =
     (let packages = (if rl_upgrades x then pruneOutdatedDependencies x pkgs else pkgs);
          (ns, d) = PackagesToNodes (NewMapDag []) packages
      in if rl_upgrades x then up_Init (rl_semver x) d ns else Init d ns)"

definition resolve_lock :: "('c, 'v, 'w) resolver \<Rightarrow> go_time \<Rightarrow> lock \<Rightarrow> 'w \<Rightarrow> result \<times> 'w" where
  "resolve_lock x now l w =
     (case lock_init x (lk_Packages l) of
        (Inl e, _) \<Rightarrow> fail_with x now l (Wrap e ''cannot build DAG'') w
      | (Inr implied, d) \<Rightarrow>
          (case Sort d (rl_order x d) of
             Inl e \<Rightarrow> fail_with x now l (Wrap e ''cannot sort DAG'') w
           | Inr _ \<Rightarrow>
               (case implied of
                  [] \<Rightarrow> succeed x now l w
                | r # _ \<Rightarrow>
                    (case deref d r of
                       DependencyNode dep \<Rightarrow> resolve_dependency x now l d dep w
                     | PackageNode _ \<Rightarrow> (Panicked, w)))))"

definition Reconcile :: "('c, 'v, 'w) resolver \<Rightarrow> go_time \<Rightarrow> 'w \<Rightarrow> result \<times> 'w" where
  "Reconcile x now w =
     (case rl_GetLock x w of
        (Inl e, w1) \<Rightarrow>
          (Return (if e = NotFound then None else Some (Wrap (api_text e) ''cannot get package lock'')), w1)
      | (Inr l, w1) \<Rightarrow>
          if length (lk_Packages l) = 0 then
            with_finalizer (rl_RemoveFinalizer x l w1) ''cannot remove lock finalizer''
              (finish x (l\<lparr>lk_Conditions := []\<rparr>))
          else
            with_finalizer (rl_AddFinalizer x l w1) ''cannot add lock finalizer'' (resolve_lock x now l))"

end
