(* ===== verification/ResolverCorrect.thy ===== *)
theory ResolverCorrect
  imports DagParents Resolver
begin

text \<open>
  What the package resolver writes. Its calls are recorded; the versions it installs and the versions
  it moves packages to are characterised by what the registry lists and the lock constrains.
\<close>

section \<open>Recording the writes\<close>

datatype call = Created package | Updated package | Statused lock

text \<open>The resolver on a world that also keeps the writes, in order.\<close>

definition recording :: "('c, 'v, 'w) resolver \<Rightarrow> ('c, 'v, 'w \<times> call list) resolver" where
  "recording x =
     \<lparr>rl_semver = rl_semver x, rl_String = rl_String x, rl_Original = rl_Original x,
      rl_Compare = rl_Compare x, rl_SortVersions = rl_SortVersions x, rl_NewHash = rl_NewHash x,
      rl_ParseReference = rl_ParseReference x, rl_ParseStrict = rl_ParseStrict x,
      rl_ToDNSLabel = rl_ToDNSLabel x, rl_order = rl_order x,
      rl_ListVersions = (\<lambda>s. quiet (rl_ListVersions x s)), rl_MarkConditions = rl_MarkConditions x,
      rl_GetLock = quiet (rl_GetLock x),
      rl_AddFinalizer = (\<lambda>l. quiet (rl_AddFinalizer x l)),
      rl_RemoveFinalizer = (\<lambda>l. quiet (rl_RemoveFinalizer x l)),
      rl_UpdateStatus = (\<lambda>l. noted (Statused l) (rl_UpdateStatus x l)),
      rl_List = (\<lambda>v k. quiet (rl_List x v k)),
      rl_Create = (\<lambda>p. noted (Created p) (rl_Create x p)),
      rl_Update = (\<lambda>p. noted (Updated p) (rl_Update x p)),
      rl_upgrades = rl_upgrades x, rl_downgradesEnabled = rl_downgradesEnabled x\<rparr>"

lemma recording_fields [simp]:
  "rl_semver (recording x) = rl_semver x" "rl_String (recording x) = rl_String x"
  "rl_Original (recording x) = rl_Original x" "rl_Compare (recording x) = rl_Compare x"
  "rl_SortVersions (recording x) = rl_SortVersions x" "rl_NewHash (recording x) = rl_NewHash x"
  "rl_ParseReference (recording x) = rl_ParseReference x" "rl_ParseStrict (recording x) = rl_ParseStrict x"
  "rl_MarkConditions (recording x) = rl_MarkConditions x"
  "rl_ToDNSLabel (recording x) = rl_ToDNSLabel x" "rl_order (recording x) = rl_order x"
  "rl_ListVersions (recording x) s = quiet (rl_ListVersions x s)"
  "rl_GetLock (recording x) = quiet (rl_GetLock x)"
  "rl_AddFinalizer (recording x) l = quiet (rl_AddFinalizer x l)"
  "rl_RemoveFinalizer (recording x) l = quiet (rl_RemoveFinalizer x l)"
  "rl_UpdateStatus (recording x) l = noted (Statused l) (rl_UpdateStatus x l)"
  "rl_List (recording x) v k = quiet (rl_List x v k)"
  "rl_Create (recording x) p = noted (Created p) (rl_Create x p)"
  "rl_Update (recording x) p = noted (Updated p) (rl_Update x p)"
  "rl_upgrades (recording x) = rl_upgrades x"
  "rl_downgradesEnabled (recording x) = rl_downgradesEnabled x"
  by (simp_all add: recording_def)

lemma recording_parse [simp]: "parse_versions (recording x) b tags = parse_versions x b tags"
  by (induction tags) (auto split: sum.split)

lemma recording_digest [simp]: "digest_loop (recording x) all cs d f = digest_loop x all cs d f"
  by (induction cs arbitrary: d f) (simp_all split: option.split)

lemma recording_constraints [simp]: "parse_constraints (recording x) cs = parse_constraints x cs"
  by (induction cs) (simp_all split: sum.split)

lemma recording_target [simp]:
  "target_loop (recording x) ks current vs t = target_loop x ks current vs t"
  by (induction vs arbitrary: t) (simp_all add: Let_def)

lemma recording_matches [simp]: "matchesAnyConstraint (recording x) = matchesAnyConstraint x"
  by (intro ext) (simp add: matchesAnyConstraint_def split: sum.split)

lemma recording_lock [simp]:
  "pruneOutdatedDependencies (recording x) pkgs = pruneOutdatedDependencies x pkgs"
  "lock_init (recording x) pkgs = lock_init x pkgs"
  by (simp_all add: pruneOutdatedDependencies_def lock_init_def Let_def)

section \<open>What the parameters promise\<close>

text \<open>
  Ranging over a Go map yields each of its keys, \<^verbatim>\<open>sort.Sort\<close> on a collection of versions permutes
  it into ascending order, and the text of a digest is not empty.
\<close>

definition lawful :: "('c, 'v, 'w) resolver \<Rightarrow> bool" where
  "lawful x \<longleftrightarrow>
     (\<forall>d. set (rl_order x d) = keys (nodes d)) \<and>
     (\<forall>vs. mset (rl_SortVersions x vs) = mset vs \<and>
        sorted_wrt (\<lambda>u v. rl_Compare x u v \<le> 0) (rl_SortVersions x vs)) \<and>
     (\<forall>c. rl_NewHash x c \<noteq> Some [])"

lemma lawful_sort:
  assumes "lawful x"
  shows "set (rl_SortVersions x vs) = set vs" "sorted_wrt (\<lambda>u v. rl_Compare x u v \<le> 0) (rl_SortVersions x vs)"
  using assms mset_eq_setD unfolding lawful_def by blast+

section \<open>Versions\<close>

text \<open>The newest complete version among some tags that a constraint admits.\<close>

definition newest :: "('c, 'v, 'w) resolver \<Rightarrow> 'c \<Rightarrow> string list \<Rightarrow> string \<Rightarrow> bool" where
  "newest x c tags ver \<longleftrightarrow>
     (\<exists>v \<in> set (parse_versions x True tags). Check (rl_semver x) c v \<and> ver = rl_Original x v \<and>
        (\<forall>u \<in> set (parse_versions x True tags). Check (rl_semver x) c u \<longrightarrow> u = v \<or> rl_Compare x u v \<le> 0))"

lemma fold_last_such:
  "fold (\<lambda>v a. if P v then f v else a) vs a = (if filter P vs = [] then a else f (last (filter P vs)))"
  by (induction vs arbitrary: a) auto

lemma sorted_last: "sorted_wrt R xs \<Longrightarrow> u \<in> set xs \<Longrightarrow> u = last xs \<or> R u (last xs)"
  by (induction xs) (auto split: if_splits)

lemma fold_admitted_none:
  "\<forall>v \<in> set vs. \<not> P v \<Longrightarrow> fold (\<lambda>v a. if P v then f v else a) vs a = a"
  by (induction vs) auto

lemma chosen_any:
  assumes "lawful x"
    and "ver = fold (\<lambda>v a. if Check (rl_semver x) c v then rl_Original x v else a)
           (rl_SortVersions x (parse_versions x True tags)) []"
    and "\<exists>v \<in> set (parse_versions x True tags). Check (rl_semver x) c v"
  shows "newest x c tags ver"
proof -
  let ?vs = "rl_SortVersions x (parse_versions x True tags)" and ?P = "Check (rl_semver x) c"
  have f: "filter ?P ?vs \<noteq> []" "ver = rl_Original x (last (filter ?P ?vs))"
    using assms(2,3) lawful_sort(1) [OF assms(1)] by (auto simp: fold_last_such filter_empty_conv)
  have "sorted_wrt (\<lambda>u v. rl_Compare x u v \<le> 0) (filter ?P ?vs)"
    using lawful_sort(2) [OF assms(1)] by (rule sorted_wrt_filter)
  then have "u = last (filter ?P ?vs) \<or> rl_Compare x u (last (filter ?P ?vs)) \<le> 0"
    if "u \<in> set (parse_versions x True tags)" "?P u" for u
    using sorted_last [of _ "filter ?P ?vs" u] that lawful_sort(1) [OF assms(1)] by auto
  moreover have "last (filter ?P ?vs) \<in> set (parse_versions x True tags)" "?P (last (filter ?P ?vs))"
    using last_in_set [OF f(1)] lawful_sort(1) [OF assms(1)] by auto
  ultimately show ?thesis using f(2) unfolding newest_def by blast
qed

lemma chosen_newest:
  assumes "lawful x"
    and "ver = fold (\<lambda>v a. if Check (rl_semver x) c v then rl_Original x v else a)
           (rl_SortVersions x (parse_versions x True tags)) []" "ver \<noteq> []"
  shows "newest x c tags ver"
  using chosen_any [OF assms(1,2)] assms(2,3) lawful_sort(1) [OF assms(1)] fold_admitted_none by metis

text \<open>A version one constraint accepts: its digest, or a semantic version it admits.\<close>

definition accepts :: "('c, 'v, 'w) resolver \<Rightarrow> string \<Rightarrow> string \<Rightarrow> bool" where
  "accepts x constraint ver \<longleftrightarrow>
     (case rl_NewHash x constraint of
        Some digest \<Rightarrow> ver = digest
      | None \<Rightarrow> (\<exists>c v. NewConstraint (rl_semver x) constraint = Inr c \<and> Check (rl_semver x) c v \<and> ver = rl_Original x v))"

text \<open>
  The version nearest to the current one: the lowest admitted one that is not older, or, when
  downgrades are enabled and there is none, the highest admitted one.
\<close>

definition nearest :: "('c, 'v, 'w) resolver \<Rightarrow> 'c list \<Rightarrow> 'v list \<Rightarrow> 'v \<Rightarrow> 'v \<Rightarrow> bool" where
  "nearest x cs available current v \<longleftrightarrow>
     v \<in> set available \<and> list_all (\<lambda>c. Check (rl_semver x) c v) cs \<and>
     (let admitted = filter (\<lambda>u. list_all (\<lambda>c. Check (rl_semver x) c u) cs) available in
      if rl_Compare x v current \<ge> 0
      then \<forall>u \<in> set admitted. rl_Compare x u current \<ge> 0 \<longrightarrow> u = v \<or> rl_Compare x v u \<le> 0
      else rl_downgradesEnabled x \<and>
        (\<forall>u \<in> set admitted. rl_Compare x u current < 0 \<and> (u = v \<or> rl_Compare x u v \<le> 0)))"

lemma digest_all:
  assumes "digest_loop x all cs d f = Inr r" "\<forall>c. rl_NewHash x c \<noteq> Some []" "d \<noteq> [] \<longrightarrow> \<not> f"
  shows "if d \<noteq> [] then r = d \<and> (\<forall>c \<in> set cs. rl_NewHash x c = Some d)
    else if r = [] then \<forall>c \<in> set cs. rl_NewHash x c = None
    else \<not> f \<and> (\<forall>c \<in> set cs. rl_NewHash x c = Some r)"
  using assms
proof (induction cs arbitrary: d f)
  case (Cons c cs)
  show ?case
  proof (cases "rl_NewHash x c")
    case None
    with Cons.prems have "digest_loop x all cs d True = Inr r" "d = []" by (auto split: if_splits)
    with Cons.IH [of d True] Cons.prems(2) None show ?thesis by (auto split: if_splits)
  next
    case (Some e)
    with Cons.prems have "digest_loop x all cs e f = Inr r" "e \<noteq> []" "d = [] \<or> d = e" "\<not> f"
      by (auto split: if_splits)
    with Cons.IH [of e f] Cons.prems(2) Some show ?thesis by auto
  qed
qed auto

lemma parse_constraints_ok:
  "parse_constraints x cs = Inr ks \<Longrightarrow> c \<in> set cs \<Longrightarrow>
     \<exists>k \<in> set ks. NewConstraint (rl_semver x) c = Inr k"
  by (induction cs arbitrary: ks) (auto split: sum.splits)

lemma target_loop_spec:
  "target_loop x cs current vs t =
     (let admitted = filter (\<lambda>u. list_all (\<lambda>c. Check (rl_semver x) c u) cs) vs in
      case filter (\<lambda>u. rl_Compare x u current \<ge> 0) admitted of
        u # _ \<Rightarrow> Some u
      | [] \<Rightarrow> if rl_downgradesEnabled x \<and> admitted \<noteq> [] then Some (last admitted) else t)"
  by (induction vs arbitrary: t) (auto simp: Let_def split: list.split)

lemma target_nearest:
  assumes "lawful x" "target_loop x cs current (rl_SortVersions x available) None = Some v"
  shows "nearest x cs available current v"
proof -
  let ?ok = "\<lambda>u. list_all (\<lambda>c. Check (rl_semver x) c u) cs"
  let ?adm = "filter ?ok (rl_SortVersions x available)"
  let ?up = "filter (\<lambda>u. rl_Compare x u current \<ge> 0) ?adm"
  have sorted: "sorted_wrt (\<lambda>u v. rl_Compare x u v \<le> 0) ?adm" "sorted_wrt (\<lambda>u v. rl_Compare x u v \<le> 0) ?up"
    using lawful_sort(2) [OF assms(1)] by (simp_all add: sorted_wrt_filter)
  have adm: "set ?adm = set (filter ?ok available)" using lawful_sort(1) [OF assms(1)] by simp
  show ?thesis
  proof (cases ?up)
    case Nil
    then have v: "rl_downgradesEnabled x" "?adm \<noteq> []" "v = last ?adm"
      using assms(2) by (auto simp: target_loop_spec Let_def split: if_splits)
    have "v \<in> set ?adm" using last_in_set [OF v(2)] v(3) by simp
    moreover have "\<forall>u \<in> set ?adm. rl_Compare x u current < 0" using Nil by (auto simp: filter_empty_conv)
    ultimately show ?thesis
      using sorted_last [OF sorted(1)] v adm by (auto simp: nearest_def Let_def)
  next
    case (Cons u us)
    then have "v = u" using assms(2) by (simp add: target_loop_spec Let_def)
    with Cons have "v \<in> set ?up" by simp
    moreover have "\<forall>w \<in> set ?up. w = v \<or> rl_Compare x v w \<le> 0"
      using sorted(2) \<open>v = u\<close> unfolding Cons by simp
    ultimately show ?thesis
      using adm by (auto simp: nearest_def Let_def)
  qed
qed

text \<open>The version an update chose, from the installed one and all constraints recorded at the node.\<close>

definition moved :: "('c, 'v, 'w) resolver \<Rightarrow> reference \<Rightarrow> string \<Rightarrow> string list \<Rightarrow> string \<Rightarrow> bool" where
  "moved x rf installed constraints ver \<longleftrightarrow>
     (\<forall>c \<in> set constraints. accepts x c ver) \<and>
     (if list_ex (\<lambda>c. rl_NewHash x c \<noteq> None) constraints then True
      else \<exists>w tags cs current v.
        fst (rl_ListVersions x (rf_String rf) w) = Inr tags \<and> parse_constraints x constraints = Inr cs \<and>
        NewVersion (rl_semver x) installed = Inr current \<and> ver = rl_Original x v \<and>
        nearest x cs (parse_versions x False tags) current v)"

lemma update_version:
  assumes "lawful x" "findDependencyVersionToUpdate (recording x) rf installed n s = (Some (Inr ver), s')"
  shows "snd s' = snd s \<and> moved x rf installed (GetParentConstraints n) ver"
proof -
  let ?pcs = "GetParentConstraints n"
  obtain digest where d: "digest_loop x ?pcs ?pcs [] False = Inr digest"
    using assms(2) by (auto simp: findDependencyVersionToUpdate_def findDigestToUpdate_def split: sum.splits)
  note all = digest_all [OF d]
  have hash: "\<forall>c. rl_NewHash x c \<noteq> Some []" using assms(1) by (simp add: lawful_def)
  show ?thesis
  proof (cases "digest = []")
    case False
    with assms(2) d have "ver = digest" "s' = s"
      by (simp_all add: findDependencyVersionToUpdate_def findDigestToUpdate_def)
    with all hash False show ?thesis
      by (cases ?pcs) (use d in \<open>auto simp: moved_def accepts_def\<close>)
  next
    case True
    with all hash have none: "\<forall>c \<in> set ?pcs. rl_NewHash x c = None" by simp
    obtain tags s1 where tags: "quiet (rl_ListVersions x (rf_String rf)) s = (Inr tags, s1)"
      using assms(2) d True
      by (auto simp: findDependencyVersionToUpdate_def findDigestToUpdate_def split: sum.splits prod.splits)
    then obtain cs current v where r: "parse_constraints x ?pcs = Inr cs"
      "NewVersion (rl_semver x) installed = Inr current"
      "target_loop x cs current (rl_SortVersions x (parse_versions x False tags)) None = Some v"
      "ver = rl_Original x v" "s' = s1"
      using assms(2) d True
      by (auto simp: findDependencyVersionToUpdate_def findDigestToUpdate_def Let_def
          split: sum.splits option.splits)
    have near: "nearest x cs (parse_versions x False tags) current v" using target_nearest [OF assms(1) r(3)] .
    have "accepts x c ver" if c: "c \<in> set ?pcs" for c
    proof -
      obtain k where "k \<in> set cs" "NewConstraint (rl_semver x) c = Inr k"
        using parse_constraints_ok [OF r(1) c] by blast
      moreover have "\<forall>k \<in> set cs. Check (rl_semver x) k v" using near by (simp add: nearest_def list_all_iff)
      ultimately show ?thesis using none c r(4) by (auto simp: accepts_def)
    qed
    moreover have "snd s1 = snd s" "fst (rl_ListVersions x (rf_String rf) (fst s)) = Inr tags"
      using quiet_run(2) [OF tags] quiet_run(1) [OF tags] by simp_all
    ultimately show ?thesis using none near r by (auto simp: moved_def list_ex_iff)
  qed
qed

section \<open>The writes of a reconcile\<close>

text \<open>A package object the resolver creates for a dependency.\<close>

definition installs :: "('c, 'v, 'w) resolver \<Rightarrow> dependency \<Rightarrow> package \<Rightarrow> bool" where
  "installs x dep p \<longleftrightarrow>
     (\<exists>rf ver. rl_ParseReference x (dep_Package dep) = Inr rf \<and>
        dependency_kind dep = Inr (pk_APIVersion p, pk_Kind p) \<and>
        pk_Name p = rl_ToDNSLabel x (rf_Repository rf) \<and> pk_Package p = Some (at_version rf ver) \<and>
        (case rl_NewHash x (dep_Constraints dep) of
           Some digest \<Rightarrow> ver = digest
         | None \<Rightarrow> \<exists>c w tags. NewConstraint (rl_semver x) (dep_Constraints dep) = Inr c \<and>
             fst (rl_ListVersions x (rf_String rf) w) = Inr tags \<and> newest x c tags ver))"

definition failed :: "('c, 'v, 'w) resolver \<Rightarrow> go_time \<Rightarrow> lock \<Rightarrow> call \<Rightarrow> bool" where
  "failed x now l c \<longleftrightarrow> (\<exists>e. c = Statused (rl_MarkConditions x (ResolutionFailed e now) l))"

definition succeeded :: "('c, 'v, 'w) resolver \<Rightarrow> go_time \<Rightarrow> lock \<Rightarrow> call" where
  "succeeded x now l = Statused (rl_MarkConditions x (ResolutionSucceeded now) l)"

text \<open>A write, if there is one, and the status that says how it went.\<close>

definition one_write :: "('c, 'v, 'w) resolver \<Rightarrow> go_time \<Rightarrow> lock \<Rightarrow> (call \<Rightarrow> bool) \<Rightarrow> call list \<Rightarrow> bool" where
  "one_write x now l P calls \<longleftrightarrow>
     (\<exists>c. calls = [c] \<and> failed x now l c) \<or>
     (\<exists>c st. calls = [c, st] \<and> P c \<and> (st = succeeded x now l \<or> failed x now l st))"

lemma finish_writes: "snd (snd (finish (recording x) l s)) = snd s @ [Statused l]"
  by (simp add: finish_def split: prod.split option.split)
    (metis noted_result(1) snd_conv)

lemma status_writes:
  "snd (snd (succeed (recording x) now l s)) = snd s @ [succeeded x now l]"
  "\<exists>c. snd (snd (give_up (recording x) now l e s)) = snd s @ [c] \<and> failed x now l c"
  "\<exists>c. snd (snd (fail_with (recording x) now l e s)) = snd s @ [c] \<and> failed x now l c"
  by (auto simp: succeed_def give_up_def fail_with_def finish_writes succeeded_def failed_def)

lemma recording_NewPackage [simp]: "NewPackage (recording x) = NewPackage x"
  by (intro ext) (simp add: NewPackage_def split: sum.split)

lemma version_to_install:
  assumes "lawful x" "findDependencyVersionToInstall (recording x) dep rf s = (r, s1)"
  shows "snd s1 = snd s \<and> (\<forall>ver. r = Inr ver \<longrightarrow> ver \<noteq> [] \<longrightarrow>
    (case rl_NewHash x (dep_Constraints dep) of
       Some digest \<Rightarrow> ver = digest
     | None \<Rightarrow> \<exists>c w tags. NewConstraint (rl_semver x) (dep_Constraints dep) = Inr c \<and>
         fst (rl_ListVersions x (rf_String rf) w) = Inr tags \<and> newest x c tags ver))"
proof (cases "rl_NewHash x (dep_Constraints dep)")
  case (Some digest)
  then show ?thesis using assms(2) by (auto simp: findDependencyVersionToInstall_def)
next
  case None
  show ?thesis
  proof (cases "NewConstraint (rl_semver x) (dep_Constraints dep)")
    case (Inl e)
    then show ?thesis using None assms(2) by (auto simp: findDependencyVersionToInstall_def)
  next
    case (Inr c)
    obtain tags s2 where q: "quiet (rl_ListVersions x (rf_String rf)) s = (tags, s2)" using prod.exhaust by blast
    have "snd s2 = snd s" "fst (rl_ListVersions x (rf_String rf) (fst s)) = tags"
      using quiet_run(2) [OF q] quiet_run(1) [OF q] by simp_all
    moreover have "newest x c b ver"
      if "tags = Inr b" "r = Inr ver" "ver \<noteq> []" for b ver
      using that None Inr q assms(2)
      by (intro chosen_newest [OF assms(1)]) (simp_all add: findDependencyVersionToInstall_def Let_def)
    moreover have "s1 = s2 \<and> (\<forall>ver. r = Inr ver \<longrightarrow> (\<exists>b. tags = Inr b))"
      using None Inr q assms(2) by (cases tags) (auto simp: findDependencyVersionToInstall_def Let_def)
    ultimately have "\<exists>w b. fst (rl_ListVersions x (rf_String rf) w) = Inr b \<and> newest x c b ver"
      if "r = Inr ver" "ver \<noteq> []" for ver
      using that by blast
    with \<open>snd s2 = snd s\<close> \<open>s1 = s2 \<and> _\<close> None Inr show ?thesis by simp
  qed
qed

lemma one_write_failed [intro]: "failed x now l c \<Longrightarrow> one_write x now l P [c]"
  by (simp add: one_write_def)

lemma fail_one_write:
  "\<exists>new. snd (snd (fail_with (recording x) now l e s)) = snd s @ new \<and> one_write x now l P new"
  "\<exists>new. snd (snd (give_up (recording x) now l e s)) = snd s @ new \<and> one_write x now l P new"
  using status_writes(2,3) [of x now l e s] by blast+

lemma install_writes:
  assumes "lawful x" "rl_ParseReference x (dep_Package dep) = Inr rf"
  shows "\<exists>new. snd (snd (install_dependency (recording x) now l dep rf s)) = snd s @ new \<and>
    one_write x now l (\<lambda>c. \<exists>p. c = Created p \<and> installs x dep p) new"
proof -
  obtain r s1 where v: "findDependencyVersionToInstall (recording x) dep rf s = (r, s1)"
    using prod.exhaust by blast
  note ver = version_to_install [OF assms(1) v]
  show ?thesis
  proof (cases r)
    case (Inl e)
    then show ?thesis using v ver fail_one_write(1) [of x now l _ s1] by (simp add: install_dependency_def)
  next
    case (Inr ver')
    show ?thesis
    proof (cases "ver' = [] \<or> (\<exists>e. NewPackage x dep ver' rf = Inl e)")
      case True
      then show ?thesis
        using v ver Inr fail_one_write [of x now l _ s1]
        by (auto simp: install_dependency_def NewPackage_def split: sum.splits)
    next
      case False
      then obtain p where p: "NewPackage x dep ver' rf = Inr p" "ver' \<noteq> []" by (cases "NewPackage x dep ver' rf") auto
      have inst: "installs x dep p"
        using p ver Inr assms(2) by (auto simp: installs_def NewPackage_def split: sum.splits)
      obtain e s2 where c: "noted (Created p) (rl_Create x p) s1 = (e, s2)" using prod.exhaust by blast
      have s2: "snd s2 = snd s @ [Created p]" using noted_run(2) [OF c] ver by simp
      have "\<exists>st. snd (snd (install_dependency (recording x) now l dep rf s)) = snd s2 @ [st] \<and>
          (st = succeeded x now l \<or> failed x now l st)"
        using v Inr p c status_writes(1) [of x now l s2] status_writes(3) [of x now l _ s2]
        by (auto simp: install_dependency_def split: option.split)
      then show ?thesis using s2 inst by (force simp: one_write_def)
    qed
  qed
qed

lemma update_version_quiet:
  assumes "findDependencyVersionToUpdate (recording x) rf installed n s = (v, s1)"
  shows "snd s1 = snd s"
proof (cases "findDigestToUpdate x n")
  case (Inr digest)
  obtain tags s2 where q: "quiet (rl_ListVersions x (rf_String rf)) s = (tags, s2)" using prod.exhaust by blast
  have "snd s2 = snd s" using quiet_run(2) [OF q] by simp
  then show ?thesis
    using Inr q assms
    by (cases tags) (auto simp: findDependencyVersionToUpdate_def findDigestToUpdate_def Let_def
        split: if_splits sum.splits option.splits)
qed (use assms in \<open>simp add: findDependencyVersionToUpdate_def findDigestToUpdate_def\<close>)

lemma update_writes:
  assumes "lawful x"
  shows "\<exists>new. snd (snd (update_dependency (recording x) now l d i rf pkg installed s)) = snd s @ new \<and>
    (new = [] \<or> one_write x now l (\<lambda>c. \<exists>r ver. map_of (nodes d) i = Some r \<and>
       moved x rf installed (GetParentConstraints (deref d r)) ver \<and>
       c = Updated (pkg\<lparr>pk_Package := Some (at_version rf ver)\<rparr>)) new)"
proof (cases "map_of (nodes d) i")
  case None
  then show ?thesis using fail_one_write(1) by (fastforce simp: update_dependency_def up_GetNode_def GetNode_def)
next
  case (Some r)
  obtain v s1 where v: "findDependencyVersionToUpdate (recording x) rf installed (deref d r) s = (v, s1)" using prod.exhaust by blast
  have s1: "snd s1 = snd s" by (rule update_version_quiet [OF v])
  show ?thesis
  proof (cases "\<exists>ver. v = Some (Inr ver)")
    case False
    let ?writes = "\<lambda>c. \<exists>ver. moved x rf installed (GetParentConstraints (deref d r)) ver \<and>
       c = Updated (pkg\<lparr>pk_Package := Some (at_version rf ver)\<rparr>)"
    from False consider "v = None" | e where "v = Some (Inl e)" by (cases v) (auto, metis sumE)
    then show ?thesis
    proof cases
      case 2
      obtain new where "snd (snd (fail_with (recording x) now l
          (Wrap e ''cannot find dependency version to upgrade'') s1)) = snd s1 @ new" "one_write x now l ?writes new"
        using fail_one_write(1) by blast
      with 2 v s1 Some show ?thesis
        by (intro exI [of _ new]) (simp add: update_dependency_def up_GetNode_def GetNode_def)
    qed (use v s1 Some in \<open>simp add: update_dependency_def up_GetNode_def GetNode_def\<close>)
  next
    case True
    then obtain ver where ver: "v = Some (Inr ver)" by blast
    let ?p = "pkg\<lparr>pk_Package := Some (at_version rf ver)\<rparr>"
    have m: "moved x rf installed (GetParentConstraints (deref d r)) ver"
      using update_version [OF assms] v ver by blast
    obtain e s2 where c: "noted (Updated ?p) (rl_Update x ?p) s1 = (e, s2)" using prod.exhaust by blast
    have s2: "snd s2 = snd s @ [Updated ?p]" using noted_run(2) [OF c] s1 by simp
    have "\<exists>st. snd (snd (update_dependency (recording x) now l d i rf pkg installed s)) = snd s2 @ [st] \<and>
        (st = succeeded x now l \<or> failed x now l st)"
      using v ver Some c status_writes(1) [of x now l s2] status_writes(3) [of x now l _ s2]
      by (auto simp: update_dependency_def up_GetNode_def GetNode_def split: option.split)
    then show ?thesis using s2 m Some by (force simp: one_write_def)
  qed
qed

lemma one_write_mono: "one_write x now l P new \<Longrightarrow> (\<And>c. P c \<Longrightarrow> Q c) \<Longrightarrow> one_write x now l Q new"
  by (auto simp: one_write_def)

text \<open>A package the API server lists for a dependency, and its version.\<close>

definition listed :: "('c, 'v, 'w) resolver \<Rightarrow> dependency \<Rightarrow> reference \<Rightarrow> package \<Rightarrow> string \<Rightarrow> bool" where
  "listed x dep rf pkg installed \<longleftrightarrow>
     (\<exists>v k w ps pref source. NewPackageList dep = Inr (v, k) \<and> fst (rl_List x v k w) = Inr ps \<and> pkg \<in> set ps \<and>
        source = (case pk_Package pkg of None \<Rightarrow> [] | Some s \<Rightarrow> s) \<and>
        rl_ParseStrict x source = Inr pref \<and> rf_Name pref = rf_Name rf \<and>
        installed = installed_version x pkg pref)"

lemma recording_installed [simp]: "installed_step (recording x) = installed_step x"
  by (intro ext) (simp add: installed_step_def installed_version_def split: option.split sum.split)

lemma installed_found:
  assumes "fold (installed_step x rf) ps found = Some (pkg, installed)"
  shows "found = Some (pkg, installed) \<or>
    (pkg \<in> set ps \<and> (\<exists>pref. rl_ParseStrict x (case pk_Package pkg of None \<Rightarrow> [] | Some s \<Rightarrow> s) = Inr pref \<and>
       rf_Name pref = rf_Name rf \<and> installed = installed_version x pkg pref))"
  using assms
proof (induction ps arbitrary: found)
  case (Cons p ps)
  then have "fold (installed_step x rf) ps (installed_step x rf p found) = Some (pkg, installed)" by simp
  from Cons.IH [OF this] show ?case
    by (auto simp: installed_step_def split: sum.splits if_splits)
qed simp

text \<open>An update: of a listed package, to a version from the constraints recorded at the node.\<close>

definition updates :: "('c, 'v, 'w) resolver \<Rightarrow> map_dag \<Rightarrow> dependency \<Rightarrow> call \<Rightarrow> bool" where
  "updates x d dep c \<longleftrightarrow>
     (\<exists>rf pkg installed r ver. rl_ParseReference x (dep_Package dep) = Inr rf \<and>
        map_of (nodes d) (dep_Package dep) = Some r \<and> listed x dep rf pkg installed \<and>
        moved x rf installed (GetParentConstraints (deref d r)) ver \<and>
        c = Updated (pkg\<lparr>pk_Package := Some (at_version rf ver)\<rparr>))"

lemma resolve_dependency_writes:
  assumes "lawful x"
  shows "\<exists>new. snd (snd (resolve_dependency (recording x) now l d dep s)) = snd s @ new \<and>
    (new = [] \<or> one_write x now l (\<lambda>c. (\<exists>p. c = Created p \<and> installs x dep p) \<or> rl_upgrades x \<and> updates x d dep c) new)"
    (is "\<exists>new. ?out = _ \<and> (_ \<or> one_write x now l ?P new)")
proof -
  note failing = fail_one_write [of x now l _ _ ?P]
  show ?thesis
  proof (cases "rl_ParseReference x (dep_Package dep)")
    case (Inl e)
    then show ?thesis using failing(2) [of "Wrap e ''dependency package is not valid''" s]
      by (auto simp: resolve_dependency_def dep_Identifier_def)
  next
    case (Inr rf)
    have inst: "\<exists>new. snd (snd (install_dependency (recording x) now l dep rf q)) = snd q @ new \<and> one_write x now l ?P new" for q
    proof -
      obtain new where new: "snd (snd (install_dependency (recording x) now l dep rf q)) = snd q @ new"
        "one_write x now l (\<lambda>c. \<exists>p. c = Created p \<and> installs x dep p) new"
        using install_writes [OF assms Inr, of now l q] by blast
      have "one_write x now l ?P new" by (rule one_write_mono [OF new(2)]) simp
      with new(1) show ?thesis by blast
    qed
    show ?thesis
    proof (cases "rl_upgrades x")
      case False
      then show ?thesis using inst [of s] Inr by (auto simp: resolve_dependency_def dep_Identifier_def)
    next
      case True
      show ?thesis
      proof (cases "NewPackageList dep")
        case (Inl e)
        then show ?thesis using failing(1) [of "Wrap e ''cannot get dependency package''" s] Inr True
          by (auto simp: resolve_dependency_def dep_Identifier_def)
      next
        case vk: (Inr vk)
        obtain v k where vk': "vk = (v, k)" by (cases vk)
        obtain items s1 where q: "quiet (rl_List x v k) s = (items, s1)" using prod.exhaust by blast
        have s1: "snd s1 = snd s" using quiet_run(2) [OF q] by simp
        show ?thesis
        proof (cases items)
          case (Inl e)
          then show ?thesis using failing(1) [of "Wrap (api_text e) ''cannot get dependency package''" s1] Inr True vk vk' q s1
            by (auto simp: resolve_dependency_def dep_Identifier_def)
        next
          case items: (Inr ps)
          show ?thesis
          proof (cases "fold (installed_step (recording x) rf) ps None")
            case None
            then show ?thesis using inst [of s1] Inr True vk vk' q s1 items
              by (auto simp: resolve_dependency_def dep_Identifier_def)
          next
            case (Some pi)
            obtain pkg installed where pi: "pi = (pkg, installed)" by (cases pi)
            have "fst (rl_List x v k (fst s)) = Inr ps" using quiet_run(1) [OF q] items by simp
            then have found: "listed x dep rf pkg installed"
              using installed_found [of x rf ps None pkg installed] Some pi vk vk' unfolding listed_def by auto
            obtain new where new: "snd (snd (update_dependency (recording x) now l d (dep_Package dep) rf pkg installed s1)) = snd s1 @ new"
              "new = [] \<or> one_write x now l (\<lambda>c. \<exists>r ver. map_of (nodes d) (dep_Package dep) = Some r \<and>
                 moved x rf installed (GetParentConstraints (deref d r)) ver \<and>
                 c = Updated (pkg\<lparr>pk_Package := Some (at_version rf ver)\<rparr>)) new"
              using update_writes [OF assms] by blast
            have "one_write x now l ?P new" if w: "new \<noteq> []"
            proof (rule one_write_mono)
              show "one_write x now l (\<lambda>c. \<exists>r ver. map_of (nodes d) (dep_Package dep) = Some r \<and>
                 moved x rf installed (GetParentConstraints (deref d r)) ver \<and>
                 c = Updated (pkg\<lparr>pk_Package := Some (at_version rf ver)\<rparr>)) new"
                using new(2) w by blast
            qed (unfold updates_def, use Inr True found in blast)
            moreover have "?out = snd s @ new"
              using new(1) Inr True vk vk' q s1 items Some pi by (simp add: resolve_dependency_def dep_Identifier_def)
            ultimately show ?thesis by blast
          qed
        qed
      qed
    qed
  qed
qed

section \<open>The install of a missing dependency, call by call\<close>

text \<open>
  The version the registry gives for a dependency in the world \<open>w\<close>, with the world after it was
  asked; and the cases in which there is none: the constraint is not one, the tags cannot be fetched,
  or no complete version is admitted (or the newest one has no text).
\<close>

definition version_at ::
  "('c, 'v, 'w) resolver \<Rightarrow> dependency \<Rightarrow> reference \<Rightarrow> string \<Rightarrow> 'w \<Rightarrow> 'w \<Rightarrow> bool" where
  "version_at x dep rf ver w w1 \<longleftrightarrow>
     (case rl_NewHash x (dep_Constraints dep) of
        Some digest \<Rightarrow> ver = digest \<and> w1 = w
      | None \<Rightarrow> \<exists>c tags. NewConstraint (rl_semver x) (dep_Constraints dep) = Inr c \<and>
          rl_ListVersions x (rf_String rf) w = (Inr tags, w1) \<and> newest x c tags ver)"

definition no_version :: "('c, 'v, 'w) resolver \<Rightarrow> dependency \<Rightarrow> reference \<Rightarrow> 'w \<Rightarrow> bool" where
  "no_version x dep rf w \<longleftrightarrow>
     rl_NewHash x (dep_Constraints dep) = None \<and>
     (case NewConstraint (rl_semver x) (dep_Constraints dep) of
        Inl _ \<Rightarrow> True
      | Inr c \<Rightarrow>
          (case fst (rl_ListVersions x (rf_String rf) w) of
             Inl _ \<Rightarrow> True
           | Inr tags \<Rightarrow>
               (\<forall>v \<in> set (parse_versions x True tags). \<not> Check (rl_semver x) c v) \<or> newest x c tags []))"

text \<open>A dependency that cannot be installed, and the object that is created for one that can.\<close>

definition no_install :: "('c, 'v, 'w) resolver \<Rightarrow> dependency \<Rightarrow> 'w \<Rightarrow> bool" where
  "no_install x dep w \<longleftrightarrow>
     (case rl_ParseReference x (dep_Package dep) of
        Inl _ \<Rightarrow> True
      | Inr rf \<Rightarrow> \<not> is_ok (dependency_kind dep) \<or> no_version x dep rf w)"

definition installs_at :: "('c, 'v, 'w) resolver \<Rightarrow> dependency \<Rightarrow> 'w \<Rightarrow> package \<Rightarrow> 'w \<Rightarrow> bool" where
  "installs_at x dep w p w1 \<longleftrightarrow>
     (\<exists>rf ver. rl_ParseReference x (dep_Package dep) = Inr rf \<and>
        dependency_kind dep = Inr (pk_APIVersion p, pk_Kind p) \<and>
        pk_Name p = rl_ToDNSLabel x (rf_Repository rf) \<and> pk_Package p = Some (at_version rf ver) \<and>
        pk_Resolved p = None \<and> version_at x dep rf ver w w1)"

text \<open>
  The writes for a missing dependency: the failure alone only when it cannot be installed, and
  otherwise its object and then success, unless creating it failed with an error other than that it
  exists.
\<close>

definition one_install ::
  "('c, 'v, 'w) resolver \<Rightarrow> go_time \<Rightarrow> lock \<Rightarrow> dependency \<Rightarrow> 'w \<Rightarrow> call list \<Rightarrow> bool" where
  "one_install x now l dep w calls \<longleftrightarrow>
     no_install x dep w \<and> (\<exists>c. calls = [c] \<and> failed x now l c) \<or>
     (\<exists>p w1 st. installs_at x dep w p w1 \<and> calls = [Created p, st] \<and>
        (case fst (rl_Create x p w1) of
           None \<Rightarrow> st = succeeded x now l
         | Some e \<Rightarrow> if e = AlreadyExists then st = succeeded x now l else failed x now l st))"

lemma quiet_answer: "quiet f s = (r, s1) \<Longrightarrow> f (fst s) = (r, fst s1)"
  by (auto simp: quiet_def split: prod.splits)

lemma version_run:
  assumes "lawful x" "findDependencyVersionToInstall (recording x) dep rf s = (r, s1)"
  shows "snd s1 = snd s"
    and "(\<exists>e. r = Inl e) \<or> r = Inr [] \<Longrightarrow> no_version x dep rf (fst s)"
    and "r = Inr ver \<Longrightarrow> ver \<noteq> [] \<Longrightarrow> version_at x dep rf ver (fst s) (fst s1)"
proof -
  show "snd s1 = snd s" using version_to_install [OF assms] by simp
  have hash: "rl_NewHash x c \<noteq> Some []" for c using assms(1) by (simp add: lawful_def)
  have both: "((\<exists>e. r = Inl e) \<or> r = Inr [] \<longrightarrow> no_version x dep rf (fst s)) \<and>
    (\<forall>ver. r = Inr ver \<longrightarrow> ver \<noteq> [] \<longrightarrow> version_at x dep rf ver (fst s) (fst s1))"
  proof (cases "rl_NewHash x (dep_Constraints dep)")
    case (Some digest)
    then show ?thesis using assms(2) hash by (auto simp: findDependencyVersionToInstall_def version_at_def)
  next
    case None
    show ?thesis
    proof (cases "NewConstraint (rl_semver x) (dep_Constraints dep)")
      case (Inl e)
      then show ?thesis using None assms(2)
        by (auto simp: findDependencyVersionToInstall_def no_version_def)
    next
      case (Inr c)
      let ?pick = "\<lambda>tags. fold (\<lambda>v a. if Check (rl_semver x) c v then rl_Original x v else a)
        (rl_SortVersions x (parse_versions x True tags)) []"
      obtain tags s2 where q: "quiet (rl_ListVersions x (rf_String rf)) s = (tags, s2)" using prod.exhaust by blast
      note w = quiet_answer [OF q]
      show ?thesis
      proof (cases tags)
        case (Inl e)
        then show ?thesis using None Inr q w assms(2)
          by (auto simp: findDependencyVersionToInstall_def no_version_def)
      next
        case tags: (Inr ts)
        have r: "r = Inr (?pick ts)" "s1 = s2"
          using None Inr q tags assms(2) by (simp_all add: findDependencyVersionToInstall_def Let_def)
        have "newest x c ts (?pick ts)" if "?pick ts \<noteq> []"
          using chosen_newest [OF assms(1) refl that] .
        moreover have "(\<forall>v \<in> set (parse_versions x True ts). \<not> Check (rl_semver x) c v) \<or> newest x c ts []"
          if "?pick ts = []"
          using chosen_any [OF assms(1), of "?pick ts" c ts] that by auto
        ultimately show ?thesis using r None Inr tags w
          by (auto simp: version_at_def no_version_def)
      qed
    qed
  qed
  then show "(\<exists>e. r = Inl e) \<or> r = Inr [] \<Longrightarrow> no_version x dep rf (fst s)"
    "r = Inr ver \<Longrightarrow> ver \<noteq> [] \<Longrightarrow> version_at x dep rf ver (fst s) (fst s1)" by blast+
qed

lemma give_up_install:
  assumes "no_install x dep w"
  shows "\<exists>new. snd (snd (fail_with (recording x) now l e s)) = snd s @ new \<and> one_install x now l dep w new"
    and "\<exists>new. snd (snd (give_up (recording x) now l e s)) = snd s @ new \<and> one_install x now l dep w new"
  using status_writes(2,3) [of x now l e s] assms unfolding one_install_def by blast+

lemma install_calls:
  assumes "lawful x" "rl_ParseReference x (dep_Package dep) = Inr rf"
  shows "\<exists>new. snd (snd (install_dependency (recording x) now l dep rf s)) = snd s @ new \<and>
    one_install x now l dep (fst s) new"
proof -
  obtain r s1 where v: "findDependencyVersionToInstall (recording x) dep rf s = (r, s1)"
    using prod.exhaust by blast
  note run = version_run [OF assms(1) v]
  show ?thesis
  proof (cases "(\<exists>e. r = Inl e) \<or> r = Inr [] \<or> (\<exists>e. dependency_kind dep = Inl e)")
    case True
    then have no: "no_install x dep (fst s)" using run(2) assms(2) by (auto simp: no_install_def)
    show ?thesis using True v run(1) give_up_install [OF no, of now l _ s1]
      by (cases r) (auto simp: install_dependency_def NewPackage_def)
  next
    case False
    then obtain ver k where r: "r = Inr ver" "ver \<noteq> []" "dependency_kind dep = Inr k"
      by (cases r; cases "dependency_kind dep") auto
    obtain p where p: "NewPackage x dep ver rf = Inr p"
      using r(3) by (cases "NewPackage x dep ver rf") (simp_all add: NewPackage_def split: prod.splits)
    have inst: "installs_at x dep (fst s) p (fst s1)"
      using p run(3) [OF r(1,2)] r(3) assms(2) by (auto simp: installs_at_def NewPackage_def split: prod.splits)
    obtain e s2 where c: "noted (Created p) (rl_Create x p) s1 = (e, s2)" using prod.exhaust by blast
    have s2: "snd s2 = snd s @ [Created p]" "fst (rl_Create x p (fst s1)) = e"
      using noted_run [OF c] run(1) by simp_all
    have "\<exists>st. snd (snd (install_dependency (recording x) now l dep rf s)) = snd s2 @ [st] \<and>
        (case e of None \<Rightarrow> st = succeeded x now l
         | Some e \<Rightarrow> if e = AlreadyExists then st = succeeded x now l else failed x now l st)"
      using v r p c status_writes(1) [of x now l s2] status_writes(3) [of x now l _ s2]
      by (auto simp: install_dependency_def split: option.split)
    then obtain st where st: "snd (snd (install_dependency (recording x) now l dep rf s)) = snd s2 @ [st]"
      "case e of None \<Rightarrow> st = succeeded x now l
         | Some e \<Rightarrow> if e = AlreadyExists then st = succeeded x now l else failed x now l st" by blast
    have "one_install x now l dep (fst s) [Created p, st]"
      using inst s2(2) st(2) unfolding one_install_def by blast
    with st(1) s2(1) show ?thesis by auto
  qed
qed

lemma bare_dependency_kind [simp]: "dependency_kind (dep\<lparr>dep_ParentConstraints := pcs\<rparr>) = dependency_kind dep"
  by (simp add: dependency_kind_def split: option.split)

lemma bare_version:
  "version_at x (dep\<lparr>dep_ParentConstraints := pcs\<rparr>) = version_at x dep"
  "no_version x (dep\<lparr>dep_ParentConstraints := pcs\<rparr>) = no_version x dep"
  by (auto intro!: ext simp: version_at_def no_version_def split: option.split)

lemma bare_install:
  "one_install x now l (dep\<lparr>dep_ParentConstraints := pcs\<rparr>) w calls \<longleftrightarrow> one_install x now l dep w calls"
proof -
  have "no_install x (dep\<lparr>dep_ParentConstraints := pcs\<rparr>) w \<longleftrightarrow> no_install x dep w"
    by (simp add: no_install_def bare_version split: sum.split)
  moreover have "installs_at x (dep\<lparr>dep_ParentConstraints := pcs\<rparr>) = installs_at x dep"
    by (intro ext) (simp add: installs_at_def bare_version)
  ultimately show ?thesis by (simp add: one_install_def)
qed

lemma resolve_dependency_calls:
  assumes "lawful x" "\<not> rl_upgrades x"
  shows "\<exists>new. snd (snd (resolve_dependency (recording x) now l d dep s)) = snd s @ new \<and>
    one_install x now l dep (fst s) new"
proof (cases "rl_ParseReference x (dep_Package dep)")
  case (Inl e)
  then have "no_install x dep (fst s)" by (simp add: no_install_def)
  from give_up_install(2) [OF this, of now l "Wrap e ''dependency package is not valid''" s] show ?thesis
    using Inl by (simp add: resolve_dependency_def dep_Identifier_def)
next
  case (Inr rf)
  then show ?thesis using install_calls [OF assms(1) Inr, of now l s] assms(2)
    by (simp add: resolve_dependency_def dep_Identifier_def)
qed

section \<open>The graph of a lock\<close>

definition remaining :: "('c, 'v, 'w) resolver \<Rightarrow> lock_package list \<Rightarrow> lock_package list" where
  "remaining x pkgs = (if rl_upgrades x then pruneOutdatedDependencies x pkgs else pkgs)"

lemma lock_init_with:
  "lock_init x pkgs =
     Init_with (if rl_upgrades x then up_AddEdge (rl_semver x) else AddEdge)
       \<lparr>heap = map PackageNode (remaining x pkgs), nodes = []\<rparr> [0..<length (remaining x pkgs)]"
  by (simp add: lock_init_def remaining_def PackagesToNodes_new up_Init_def Init_def Let_def)

lemma implied_dependency:
  assumes "lock_init x pkgs = (Inr implied, d)" "r \<in> set implied"
  obtains q dep pcs where "q \<in> set (remaining x pkgs)" "dep \<in> set (lp_Dependencies q)"
    "deref d r = DependencyNode (dep\<lparr>dep_ParentConstraints := pcs\<rparr>)"
proof -
  let ?d = "\<lparr>heap = map PackageNode (remaining x pkgs), nodes = []\<rparr>" and ?ns = "[0..<length (remaining x pkgs)]"
  have small: "\<forall>n \<in> set ?ns. n < length (heap ?d)" by simp
  have "shape (deref d r) \<in> neighbor_shapes ?d ?ns"
  proof (cases "rl_upgrades x")
    case True
    then show ?thesis using upgrading.Init_origin [OF small _ assms(2)] assms(1) by (simp add: lock_init_with)
  next
    case False
    then show ?thesis using plain.Init_origin [OF small _ assms(2)] assms(1) by (simp add: lock_init_with)
  qed
  then obtain n m where n: "n < length (remaining x pkgs)" "m \<in> set (Neighbors (deref ?d n))" "shape (deref d r) = shape m"
    by (auto simp: neighbor_shapes_def)
  then obtain dep where dep: "dep \<in> set (lp_Dependencies (remaining x pkgs ! n))" "m = DependencyNode dep"
    by (auto simp: lock_neighbors)
  have "bare (deref d r) = DependencyNode (dep\<lparr>dep_ParentConstraints := []\<rparr>)" using n(3) dep(2) by (simp add: shape_def)
  then obtain dep' where dep': "deref d r = DependencyNode dep'" "dep'\<lparr>dep_ParentConstraints := []\<rparr> = dep\<lparr>dep_ParentConstraints := []\<rparr>"
    by (cases "deref d r") auto
  then have "dep' = dep\<lparr>dep_ParentConstraints := dep_ParentConstraints dep'\<rparr>"
    by (cases dep; cases dep') simp
  with that [of "remaining x pkgs ! n" dep "dep_ParentConstraints dep'"] n(1) dep(1) dep'(1) show thesis by simp
qed

lemma first_constraint_dep:
  "first_constraint deps i = Some cs \<Longrightarrow> \<exists>dep \<in> set deps. dep_Identifier dep = i"
  by (induction deps) (auto split: if_splits)

lemma recorded_constraint:
  assumes "rl_upgrades x" "lock_init x pkgs = (Inr implied, d)" "q \<in> set (remaining x pkgs)"
    "first_constraint (lp_Dependencies q) i = Some cs" "map_of (nodes d) i = Some r"
  shows "set cs \<subseteq> set (GetParentConstraints (deref d r))"
proof -
  let ?d = "\<lparr>heap = map PackageNode (remaining x pkgs), nodes = []\<rparr>" and ?ns = "[0..<length (remaining x pkgs)]"
  have small: "\<forall>n \<in> set ?ns. n < length (heap ?d)" by simp
  have run: "Init_with (up_AddEdge (rl_semver x)) ?d ?ns = (Inr implied, d)" using assms(1,2) by (simp add: lock_init_with)
  obtain n where n: "n < length (remaining x pkgs)" "remaining x pkgs ! n = q" using assms(3) by (auto simp: in_set_conv_nth)
  obtain dep where dep: "dep \<in> set (lp_Dependencies q)" "dep_Identifier dep = i"
    using first_constraint_dep [OF assms(4)] by blast
  have "recorded d (deref ?d n) (Identifier (DependencyNode dep))"
    by (rule recording.Init_records [OF small run]) (use n dep in \<open>simp_all add: lock_neighbors\<close>)
  then show ?thesis using n dep(2) assms(4,5) by (simp add: recorded_def deref_def)
qed

lemma bare_installs: "installs x (dep\<lparr>dep_ParentConstraints := pcs\<rparr>) p \<longleftrightarrow> installs x dep p"
  by (simp add: installs_def split: option.split)

lemma bare_updates: "updates x d (dep\<lparr>dep_ParentConstraints := pcs\<rparr>) c \<longleftrightarrow> updates x d dep c"
  by (simp add: updates_def listed_def NewPackageList_def)

text \<open>The writes once the graph is built and sorted.\<close>

lemma resolve_lock_writes:
  assumes "lawful x" "lock_init x (lk_Packages l) = (Inr implied, d)" "is_ok (Sort d (rl_order x d))"
  obtains new where "snd (snd (resolve_lock (recording x) now l s)) = snd s @ new"
    "implied = [] \<longrightarrow> new = [succeeded x now l]"
    "\<forall>r rs. implied = r # rs \<longrightarrow> (\<exists>q \<in> set (remaining x (lk_Packages l)). \<exists>dep \<in> set (lp_Dependencies q).
       dep_Package dep = ident d r \<and>
       (new = [] \<or> one_write x now l (\<lambda>c. (\<exists>p. c = Created p \<and> installs x dep p) \<or> rl_upgrades x \<and> updates x d dep c) new))"
proof (cases implied)
  case Nil
  with assms show thesis
    by (intro that [of "[succeeded x now l]"]) (auto simp: resolve_lock_def status_writes(1) split: sum.split)
next
  case (Cons r rs)
  obtain q dep pcs where q: "q \<in> set (remaining x (lk_Packages l))" "dep \<in> set (lp_Dependencies q)"
    "deref d r = DependencyNode (dep\<lparr>dep_ParentConstraints := pcs\<rparr>)"
    using implied_dependency [OF assms(2)] Cons by (metis list.set_intros(1))
  obtain new where new: "snd (snd (resolve_dependency (recording x) now l d (dep\<lparr>dep_ParentConstraints := pcs\<rparr>) s)) = snd s @ new"
    "new = [] \<or> one_write x now l (\<lambda>c. (\<exists>p. c = Created p \<and> installs x dep p) \<or> rl_upgrades x \<and> updates x d dep c) new"
    using resolve_dependency_writes [OF assms(1), of now l d "dep\<lparr>dep_ParentConstraints := pcs\<rparr>" s]
    unfolding bare_installs bare_updates by blast
  have "ident d r = dep_Package dep" using q(3) by (simp add: ident_def dep_Identifier_def)
  moreover have "resolve_lock (recording x) now l s = resolve_dependency (recording x) now l d (dep\<lparr>dep_ParentConstraints := pcs\<rparr>) s"
    using assms(2,3) Cons q(3) by (auto simp: resolve_lock_def split: sum.split)
  ultimately show thesis using new q Cons by (intro that [of new]) auto
qed

lemma resolve_lock_fails:
  assumes "\<not> (\<exists>implied d. lock_init x (lk_Packages l) = (Inr implied, d) \<and> is_ok (Sort d (rl_order x d)))"
  shows "\<exists>c. snd (snd (resolve_lock (recording x) now l s)) = snd s @ [c] \<and> failed x now l c"
proof -
  obtain r d where i: "lock_init x (lk_Packages l) = (r, d)" using prod.exhaust by blast
  then show ?thesis
    using assms status_writes(3) [of x now l _ s]
    by (cases r; cases "Sort d (rl_order x d)") (auto simp: resolve_lock_def)
qed

text \<open>A reconcile of a lock with packages writes nothing before it resolves the lock.\<close>

lemma Reconcile_writes:
  assumes "fst (rl_GetLock x w) = Inr l" "lk_Packages l \<noteq> []"
  shows "snd (snd (Reconcile (recording x) now (w, []))) = [] \<or>
    (\<exists>s. snd s = [] \<and> Reconcile (recording x) now (w, []) = resolve_lock (recording x) now l s)"
proof -
  obtain w1 where g: "quiet (rl_GetLock x) (w, [] :: call list) = (Inr l, w1, [])"
    using assms(1) by (cases "rl_GetLock x w") (simp add: quiet_def)
  obtain e s where f: "quiet (rl_AddFinalizer x l) (w1, [] :: call list) = (e, s)" using prod.exhaust by blast
  have s: "snd s = []" using quiet_run(2) [OF f] by simp
  show ?thesis
  proof (cases e)
    case None
    then have "Reconcile (recording x) now (w, []) = resolve_lock (recording x) now l s"
      using g f assms(2) by (simp add: Reconcile_def with_finalizer_def)
    with s show ?thesis by blast
  next
    case (Some err)
    then show ?thesis using g f s assms(2) by (simp add: Reconcile_def with_finalizer_def)
  qed
qed

lemma one_write_Updated:
  assumes "one_write x now l P calls" "Updated p \<in> set calls"
  shows "\<exists>st. calls = [Updated p, st] \<and> P (Updated p) \<and> (st = succeeded x now l \<or> failed x now l st)"
proof -
  have "\<not> failed x now l (Updated p)" "succeeded x now l \<noteq> Updated p" by (simp_all add: failed_def succeeded_def)
  with assms show ?thesis by (auto simp: one_write_def)
qed

section \<open>Missing dependencies\<close>

lemma resolve_lock_calls:
  assumes "lawful x" "\<not> rl_upgrades x" "lock_init x (lk_Packages l) = (Inr (r # rs), d)" "is_ok (Sort d (rl_order x d))"
  shows "\<exists>q \<in> set (lk_Packages l). \<exists>dep \<in> set (lp_Dependencies q). \<exists>new. dep_Package dep = ident d r \<and>
    snd (snd (resolve_lock (recording x) now l s)) = snd s @ new \<and> one_install x now l dep (fst s) new"
proof -
  obtain q dep pcs where q: "q \<in> set (remaining x (lk_Packages l))" "dep \<in> set (lp_Dependencies q)"
    "deref d r = DependencyNode (dep\<lparr>dep_ParentConstraints := pcs\<rparr>)"
    using implied_dependency [OF assms(3)] by (metis list.set_intros(1))
  have "resolve_lock (recording x) now l s = resolve_dependency (recording x) now l d (dep\<lparr>dep_ParentConstraints := pcs\<rparr>) s"
    using assms(3,4) q(3) by (auto simp: resolve_lock_def split: sum.split)
  then obtain new where "snd (snd (resolve_lock (recording x) now l s)) = snd s @ new" "one_install x now l dep (fst s) new"
    using resolve_dependency_calls [OF assms(1,2), of now l d "dep\<lparr>dep_ParentConstraints := pcs\<rparr>" s]
    unfolding bare_install by auto
  moreover have "q \<in> set (lk_Packages l)" using q(1) assms(2) by (simp add: remaining_def)
  moreover have "dep_Package dep = ident d r" using q(3) by (simp add: ident_def dep_Identifier_def)
  ultimately show ?thesis using q(2) by blast
qed

text \<open>
  C8: Without upgrades, the writes of a reconcile that reads a lock with packages and adds its
  finalizer are these, when the packages' sources differ and no package or dependency is named by the
  empty text. When the dependencies of the lock have a cycle, only the failure is reported.
  When all are installed, only success is. Otherwise one missing dependency of a package of the lock
  is created, at its digest or the newest complete version its constraint admits among the tags the
  registry lists in that reconcile, and success is reported unless creating it failed; the failure
  alone is reported only when that dependency cannot be installed: its reference or its kind is not
  valid, or there is no such version.
\<close>

theorem missing_dependency_installed:
  assumes "lawful x" "\<not> rl_upgrades x" "rl_GetLock x w = (Inr l, w1)" "rl_AddFinalizer x l w1 = (None, w2)"
    "lk_Packages l = pkgs" "pkgs \<noteq> []"
    "distinct (map lp_Source pkgs)" "[] \<notin> lp_Source ` set pkgs \<union> snd ` lock_deps pkgs"
    "snd (snd (Reconcile (recording x) now (w, []))) = calls"
  shows "let missing = snd ` lock_deps pkgs - lp_Source ` set pkgs in
    if \<not> acyclic (lock_deps pkgs) then \<exists>c. calls = [c] \<and> failed x now l c
    else if missing = {} then calls = [succeeded x now l]
    else \<exists>q \<in> set pkgs. \<exists>dep \<in> set (lp_Dependencies q). dep_Package dep \<in> missing \<and>
      one_install x now l dep w2 calls"
proof -
  have calls: "snd (snd (resolve_lock (recording x) now l (w2, []))) = calls"
    using assms(3-6,9) by (simp add: Reconcile_def with_finalizer_def quiet_def)
  obtain ns d0 where pn: "PackagesToNodes (NewMapDag []) pkgs = (ns, d0)" using prod.exhaust by blast
  obtain implied d where g: "Init d0 ns = (Inr implied, d)" "wf_dag d" "closed d"
    "edges d = lock_deps pkgs" "keys (nodes d) = lp_Source ` set pkgs \<union> snd ` lock_deps pkgs"
    "ident d ` set implied = snd ` lock_deps pkgs - lp_Source ` set pkgs"
    by (rule lock_graph [OF assms(7) pn])
  have init: "lock_init x (lk_Packages l) = (Inr implied, d)"
    using g(1) pn assms(2,5) by (simp add: lock_init_def Let_def)
  have sorts: "is_ok (Sort d (rl_order x d)) \<longleftrightarrow> acyclic (lock_deps pkgs)"
    using Sort_ok_iff [OF g(3)] g(2,4,5) assms(1,8) by (simp add: wf_dag_def lawful_def)
  show ?thesis
  proof (cases "acyclic (lock_deps pkgs)")
    case False
    then have "\<exists>c. snd (snd (resolve_lock (recording x) now l (w2, []))) = [] @ [c] \<and> failed x now l c"
      using sorts init resolve_lock_fails [of x l now "(w2, [])"] by auto
    then show ?thesis using False calls by simp
  next
    case True
    have ok: "is_ok (Sort d (rl_order x d))" using sorts True by simp
    show ?thesis
    proof (cases implied)
      case Nil
      then have "snd ` lock_deps pkgs - lp_Source ` set pkgs = {}" using g(6) by simp
      moreover have "calls = [succeeded x now l]"
        using resolve_lock_writes [OF assms(1) init ok, of now "(w2, [])"] Nil calls by (metis append_Nil snd_conv)
      ultimately show ?thesis using True by (simp only: Let_def) simp
    next
      case (Cons r rs)
      then have r: "ident d r \<in> snd ` lock_deps pkgs - lp_Source ` set pkgs" using g(6) by auto
      obtain q dep where q: "q \<in> set pkgs" "dep \<in> set (lp_Dependencies q)" "dep_Package dep = ident d r"
        "one_install x now l dep w2 calls"
        using resolve_lock_calls [OF assms(1,2) init [unfolded Cons] ok, of now "(w2, [])"] calls assms(5) by auto
      moreover have "dep_Package dep \<in> snd ` lock_deps pkgs - lp_Source ` set pkgs" using r q(3) by simp
      moreover have "snd ` lock_deps pkgs - lp_Source ` set pkgs \<noteq> {}" using r by blast
      ultimately have "\<exists>q \<in> set pkgs. \<exists>dep \<in> set (lp_Dependencies q).
          dep_Package dep \<in> snd ` lock_deps pkgs - lp_Source ` set pkgs \<and> one_install x now l dep w2 calls"
        by (intro bexI [of _ q] bexI [of _ dep] conjI)
      then show ?thesis using True \<open>_ \<noteq> {}\<close> unfolding Let_def by (simp only: if_False not_True_eq_False)
    qed
  qed
qed

section \<open>Upgrades\<close>

text \<open>
  C7: With upgrades enabled, a reconcile updates at most one package, and it only moves it to a
  version that every package left in the lock accepts: the digest they agree on, or a version that
  satisfies all their constraints and is the nearest one to the installed version.
\<close>

theorem update_suits_dependants:
  assumes "lawful x" "rl_upgrades x" "fst (rl_GetLock x w) = Inr l" "lk_Packages l \<noteq> []"
    "snd (snd (Reconcile (recording x) now (w, []))) = calls" "Updated p \<in> set calls"
  shows "(\<exists>st. calls = [Updated p, st] \<and> (st = succeeded x now l \<or> failed x now l st)) \<and>
    (\<exists>q \<in> set (remaining x (lk_Packages l)). \<exists>dep \<in> set (lp_Dependencies q). \<exists>rf pkg installed ver constraints.
       rl_ParseReference x (dep_Package dep) = Inr rf \<and> listed x dep rf pkg installed \<and>
       p = pkg\<lparr>pk_Package := Some (at_version rf ver)\<rparr> \<and> moved x rf installed constraints ver \<and>
       (\<forall>other \<in> set (remaining x (lk_Packages l)). \<forall>cs.
          first_constraint (lp_Dependencies other) (dep_Package dep) = Some cs \<longrightarrow>
          set cs \<subseteq> set constraints \<and> (\<forall>c \<in> set cs. accepts x c ver)))"
proof -
  have "calls \<noteq> []" using assms(6) by auto
  then obtain s where s: "snd s = []" "Reconcile (recording x) now (w, []) = resolve_lock (recording x) now l s"
    using Reconcile_writes [OF assms(3,4), of now] assms(5) by auto
  have "\<exists>implied d. lock_init x (lk_Packages l) = (Inr implied, d) \<and> is_ok (Sort d (rl_order x d))"
  proof (rule ccontr)
    assume "\<not> ?thesis"
    from resolve_lock_fails [OF this, of now s] show False using s assms(5,6) by (auto simp: failed_def)
  qed
  then obtain implied d where i: "lock_init x (lk_Packages l) = (Inr implied, d)" "is_ok (Sort d (rl_order x d))" by blast
  obtain new where new: "snd (snd (resolve_lock (recording x) now l s)) = snd s @ new"
    "implied = [] \<longrightarrow> new = [succeeded x now l]"
    "\<forall>r rs. implied = r # rs \<longrightarrow> (\<exists>q \<in> set (remaining x (lk_Packages l)). \<exists>dep \<in> set (lp_Dependencies q).
       dep_Package dep = ident d r \<and>
       (new = [] \<or> one_write x now l (\<lambda>c. (\<exists>p. c = Created p \<and> installs x dep p) \<or> rl_upgrades x \<and> updates x d dep c) new))"
    by (rule resolve_lock_writes [OF assms(1) i])
  have calls: "new = calls" using new(1) s assms(5) by simp
  obtain r rs where r: "implied = r # rs"
    using new(2) calls assms(6) by (cases implied) (auto simp: succeeded_def)
  then obtain q dep where q: "q \<in> set (remaining x (lk_Packages l))" "dep \<in> set (lp_Dependencies q)"
    "one_write x now l (\<lambda>c. (\<exists>p. c = Created p \<and> installs x dep p) \<or> rl_upgrades x \<and> updates x d dep c) calls"
    using new(3) calls \<open>calls \<noteq> []\<close> by blast
  then obtain st where st: "calls = [Updated p, st]" "st = succeeded x now l \<or> failed x now l st" "updates x d dep (Updated p)"
    using one_write_Updated [OF q(3) assms(6)] by blast
  then obtain rf pkg installed n ver where u: "rl_ParseReference x (dep_Package dep) = Inr rf"
    "map_of (nodes d) (dep_Package dep) = Some n" "listed x dep rf pkg installed"
    "moved x rf installed (GetParentConstraints (deref d n)) ver"
    "p = pkg\<lparr>pk_Package := Some (at_version rf ver)\<rparr>"
    by (auto simp: updates_def)
  have "set cs \<subseteq> set (GetParentConstraints (deref d n)) \<and> (\<forall>c \<in> set cs. accepts x c ver)"
    if "other \<in> set (remaining x (lk_Packages l))" "first_constraint (lp_Dependencies other) (dep_Package dep) = Some cs"
    for other cs
    using recorded_constraint [OF assms(2) i(1) that u(2)] u(4) by (auto simp: moved_def)
  with st q(1,2) u show ?thesis by blast
qed

section \<open>A small registry\<close>

text \<open>
  Versions count letters, a constraint is a lower bound, and a source and a version are joined by a
  colon. Package \<open>a\<close> needs \<open>b\<close> from version three on; the registry has versions two to four of it.
\<close>

definition letters :: "nat \<Rightarrow> string" where "letters n = replicate n CHR ''v''"

definition toy_reference :: "string \<Rightarrow> reference" where
  "toy_reference s =
     (let n = takeWhile (\<lambda>c. c \<noteq> CHR '':'') s
      in \<lparr>rf_String = n, rf_Repository = n, rf_Name = n, rf_Identifier = drop (Suc (length n)) s\<rparr>)"

definition toy_installed :: package where
  "toy_installed =
     \<lparr>pk_APIVersion = pkg_group_version, pk_Kind = ''Provider'', pk_Name = ''b'', pk_Package = Some ''b:vv'',
      pk_Resolved = None\<rparr>"

definition toy_resolver :: "bool \<Rightarrow> (nat, nat, lock) resolver" where
  "toy_resolver upgrades =
     \<lparr>rl_semver = \<lparr>NewConstraint = (\<lambda>s. Inr (length s)), NewVersion = (\<lambda>s. Inr (length s)), Check = (\<le>)\<rparr>,
      rl_String = (\<lambda>n. trim_prefix (letters n) ''v''), rl_Original = letters,
      rl_Compare = (\<lambda>u v. int u - int v), rl_SortVersions = sort, rl_NewHash = (\<lambda>s. None),
      rl_ParseReference = (\<lambda>s. Inr (toy_reference s)), rl_ParseStrict = (\<lambda>s. Inr (toy_reference s)),
      rl_ToDNSLabel = id, rl_order = (\<lambda>d. map fst (nodes d)),
      rl_ListVersions = (\<lambda>s l. (Inr [''vvvv'', ''vv'', ''vvv''], l)),
      rl_MarkConditions = (\<lambda>c l. l\<lparr>lk_Conditions := [c]\<rparr>),
      rl_GetLock = (\<lambda>l. (Inr l, l)), rl_AddFinalizer = (\<lambda>l w. (None, w)),
      rl_RemoveFinalizer = (\<lambda>l w. (None, w)), rl_UpdateStatus = (\<lambda>l w. (None, l)),
      rl_List = (\<lambda>v k w. (Inr [toy_installed], w)), rl_Create = (\<lambda>p w. (None, w)), rl_Update = (\<lambda>p w. (None, w)),
      rl_upgrades = upgrades, rl_downgradesEnabled = False\<rparr>"

definition toy_lock :: "lock_package list \<Rightarrow> lock" where
  "toy_lock others =
     \<lparr>lk_Packages = mk_pkg ''a'' ''v'' [mk_dep ''b'' ''vvv''] # others, lk_Conditions = []\<rparr>"

lemma toy_lawful: "lawful (toy_resolver u)"
proof -
  have "sorted_wrt (\<lambda>u v. int u - int v \<le> 0) (sort vs)" for vs :: "nat list"
    using sorted_sort [of vs] by (rule sorted_wrt_mono_rel [rotated]) simp
  then show ?thesis by (simp add: lawful_def toy_resolver_def keys_def)
qed

definition toy_calls :: "bool \<Rightarrow> lock_package list \<Rightarrow> call list" where
  "toy_calls u others = snd (snd (Reconcile (recording (toy_resolver u)) 0 (toy_lock others, [])))"

lemmas toy_defs = toy_calls_def Reconcile_def resolve_lock_def resolve_dependency_def with_finalizer_def
  lock_init_def install_dependency_def update_dependency_def findDependencyVersionToInstall_def
  findDependencyVersionToUpdate_def findDigestToUpdate_def quiet_def noted_def toy_lock_def
  dependency_kind_def NewPackage_def NewPackageList_def succeed_def finish_def toy_reference_def
  toy_installed_def up_GetNode_def GetNode_def Sort_def visit.simps pruneOutdatedDependencies_def
  matchesAnyConstraint_def depConstraints_def up_Init_def up_AddEdge_def inherit_parents_def
  isValidConstraints_def dep_GetParentConstraints_def lp_GetParentConstraints_def letters_def
  trim_prefix_def has_prefix_def at_version_def succeeded_def installed_step_def installed_version_def

lemma toy_install:
  "toy_calls False [] =
     [Created \<lparr>pk_APIVersion = pkg_group_version, pk_Kind = ''Provider'', pk_Name = ''b'',
        pk_Package = Some ''b:vvvv'', pk_Resolved = None\<rparr>, succeeded (toy_resolver False) 0 (toy_lock [])]"
  by (simp add: toy_defs small_defs toy_resolver_def Let_def)

lemma toy_update:
  "toy_calls True [mk_pkg ''b'' ''vv'' []] =
     [Updated (toy_installed\<lparr>pk_Package := Some ''b:vvv''\<rparr>), succeeded (toy_resolver True) 0 (toy_lock [mk_pkg ''b'' ''vv'' []])]"
  by (simp add: toy_defs small_defs toy_resolver_def Let_def)

theorem missing_dependency_installed_witness:
  "\<exists>q \<in> set [mk_pkg ''a'' ''v'' [mk_dep ''b'' ''vvv'']]. \<exists>dep \<in> set (lp_Dependencies q). dep_Package dep \<in> {''b''} \<and>
     one_install (toy_resolver False) 0 (toy_lock []) dep (toy_lock []) (toy_calls False [])"
proof -
  let ?pkgs = "[mk_pkg ''a'' ''v'' [mk_dep ''b'' ''vvv'']]"
  have deps: "lock_deps ?pkgs = {(''a'', ''b'')}" "lp_Source ` set ?pkgs = {''a''}"
    by (simp_all add: lock_deps_def mk_pkg_def mk_dep_def)
  have "acyclic {(''a'', ''b'' :: string)}"
    by (rule wf_acyclic) (simp add: wf_insert)
  then show ?thesis
    using missing_dependency_installed [of "toy_resolver False" "toy_lock []" "toy_lock []" "toy_lock []" "toy_lock []" ?pkgs 0 "toy_calls False []",
        OF toy_lawful _ _ _ _ _ _ _ toy_calls_def [symmetric]] deps
    by (simp only: toy_install)
      (simp add: toy_resolver_def toy_lock_def Let_def)
qed

theorem update_suits_dependants_witness:
  "\<exists>q \<in> set (remaining (toy_resolver True) (lk_Packages (toy_lock [mk_pkg ''b'' ''vv'' []]))).
     \<exists>dep \<in> set (lp_Dependencies q). \<exists>rf pkg installed ver constraints.
       rl_ParseReference (toy_resolver True) (dep_Package dep) = Inr rf \<and>
       listed (toy_resolver True) dep rf pkg installed \<and>
       toy_installed\<lparr>pk_Package := Some ''b:vvv''\<rparr> = pkg\<lparr>pk_Package := Some (at_version rf ver)\<rparr> \<and>
       moved (toy_resolver True) rf installed constraints ver"
proof -
  have up: "Updated (toy_installed\<lparr>pk_Package := Some ''b:vvv''\<rparr>) \<in> set (toy_calls True [mk_pkg ''b'' ''vv'' []])"
    by (simp add: toy_update)
  show ?thesis
    using update_suits_dependants [OF toy_lawful _ _ _ toy_calls_def [symmetric] up]
    by (simp add: toy_resolver_def toy_lock_def) blast
qed

end
