(* ===== verification/Rbac.thy ===== *)
theory Rbac
  imports ApiServer
begin

text \<open>
  The RBAC manager of Crossplane, \<^verbatim>\<open>internal/controller/rbac\<close>: it renders cluster roles for the
  resources of providers (\<^verbatim>\<open>provider/roles\<close>) and of composite resource definitions
  (\<^verbatim>\<open>definition\<close>), and binds a provider's service accounts to its role (\<^verbatim>\<open>provider/binding\<close>).
  The API server, the parsing of image references and of group versions, and the order
  \<^verbatim>\<open>sort.Slice\<close> leaves among equal keys are parameters.
\<close>

section \<open>Objects\<close>

record policy_rule =
  pr_Verbs :: "string list"
  pr_APIGroups :: "string list"
  pr_Resources :: "string list"
  pr_ResourceNames :: "string list"
  pr_NonResourceURLs :: "string list"

text \<open>The reference that makes its target the controller of an object.\<close>

record controller_reference =
  ow_Kind :: string
  ow_Name :: string
  ow_UID :: string

record cluster_role =
  cr_Name :: string
  cr_Labels :: "(string, string) gomap"
  cr_Owners :: "controller_reference list"
  cr_Rules :: "policy_rule list"

record subject =
  su_Kind :: string
  su_Namespace :: string
  su_Name :: string

record role_binding =
  rb_Name :: string
  rb_Owners :: "controller_reference list"
  rb_RoleKind :: string
  rb_RoleName :: string
  rb_Subjects :: "subject list"

record typed_reference =
  tr_APIVersion :: string
  tr_Kind :: string
  tr_Name :: string

record revision =
  rv_Name :: string
  rv_UID :: string
  rv_Labels :: "(string, string) gomap"
  rv_Package :: string
  rv_Paused :: bool
  rv_Deleted :: bool
  rv_Capabilities :: "string list"
  rv_ObjectRefs :: "typed_reference list"

record deployment =
  dp_Namespace :: string
  dp_ServiceAccountName :: string
  dp_OwnerUIDs :: "string list"

record definition_xrd =
  xd_Name :: string
  xd_UID :: string
  xd_Deleted :: bool
  xd_Group :: string
  xd_Plural :: string
  xd_ClaimPlural :: "string option"

record resource =
  rs_Group :: string
  rs_Plural :: string

datatype apply_outcome = Applied | NotAllowed | ApplyFailed api_error

record 'w rbac_api =
  ra_Group :: "string \<Rightarrow> string"
  ra_Repository :: "string \<Rightarrow> (string \<times> string) res"
  ra_Sort :: "resource list \<Rightarrow> resource list"
  ra_GetRevision :: "string \<Rightarrow> 'w \<Rightarrow> (api_error + revision) \<times> 'w"
  ra_ListRevisions :: "string \<Rightarrow> 'w \<Rightarrow> (api_error + revision list) \<times> 'w"
  ra_ListDeployments :: "'w \<Rightarrow> (api_error + deployment list) \<times> 'w"
  ra_GetXRD :: "string \<Rightarrow> 'w \<Rightarrow> (api_error + definition_xrd) \<times> 'w"
  ra_ApplyRole ::
    "cluster_role \<Rightarrow> string \<Rightarrow> (cluster_role \<Rightarrow> cluster_role \<Rightarrow> bool) \<Rightarrow> 'w \<Rightarrow> apply_outcome \<times> 'w"
  ra_ApplyBinding ::
    "role_binding \<Rightarrow> string \<Rightarrow> (role_binding \<Rightarrow> role_binding \<Rightarrow> bool) \<Rightarrow> 'w \<Rightarrow> apply_outcome \<times> 'w"

section \<open>The roles of a provider\<close>

definition verbsEdit :: "string list" where "verbsEdit = [''*'']"
definition verbsView :: "string list" where "verbsView = [''get'', ''list'', ''watch'']"
definition verbsSystem :: "string list" where
  "verbsSystem = [''get'', ''list'', ''watch'', ''update'', ''patch'', ''create'']"
definition verbsUpdate :: "string list" where "verbsUpdate = [''update'']"

definition rule_on :: "string list \<Rightarrow> string list \<Rightarrow> string list \<Rightarrow> policy_rule" where
  "rule_on verbs groups resources =
     \<lparr>pr_Verbs = verbs, pr_APIGroups = groups, pr_Resources = resources, pr_ResourceNames = [],
      pr_NonResourceURLs = []\<rparr>"

definition rulesSystemExtra :: "policy_rule list" where
  "rulesSystemExtra =
     [rule_on verbsEdit ['''', ''coordination.k8s.io'', ''events.k8s.io'']
        [''secrets'', ''configmaps'', ''events'', ''leases'']]"

definition SystemClusterRoleName :: "string \<Rightarrow> string" where
  "SystemClusterRoleName revisionName = ''crossplane:provider:'' @ revisionName @ '':system''"

definition withVerbs :: "policy_rule list \<Rightarrow> string list \<Rightarrow> policy_rule list" where
  "withVerbs r verbs = map (\<lambda>p. p\<lparr>pr_Verbs := verbs\<rparr>) r"

text \<open>The groups in order of appearance, and the resources of each.\<close>

fun group_resources :: "resource list \<Rightarrow> string list \<times> (string, string list) gomap \<Rightarrow>
    string list \<times> (string, string list) gomap" where
  "group_resources [] s = s"
| "group_resources (r # rs) (groups, m) =
     (let (groups', m') =
        (case map_of m (rs_Group r) of
           None \<Rightarrow> (groups @ [rs_Group r], put (rs_Group r) [] m)
         | Some _ \<Rightarrow> (groups, m))
      in group_resources rs
           (groups', put (rs_Group r)
              ((case map_of m' (rs_Group r) of None \<Rightarrow> [] | Some ps \<Rightarrow> ps) @
               [rs_Plural r, rs_Plural r @ ''/status'']) m'))"

text \<open>Letters and digits only, in lower case.\<close>

definition between :: "char \<Rightarrow> char \<Rightarrow> char \<Rightarrow> bool" where
  "between a z c \<longleftrightarrow> (of_char a :: nat) \<le> of_char c \<and> (of_char c :: nat) \<le> of_char z"

definition fuzzy :: "string \<Rightarrow> string" where
  "fuzzy s =
     map (\<lambda>c. if between CHR ''A'' CHR ''Z'' c then char_of (of_char c + 32 :: nat) else c)
       (filter (\<lambda>c. between CHR ''0'' CHR ''9'' c \<or> between CHR ''A'' CHR ''Z'' c \<or> between CHR ''a'' CHR ''z'' c) s)"

definition CapabilitiesContainFuzzyMatch :: "string list \<Rightarrow> string \<Rightarrow> bool" where
  "CapabilitiesContainFuzzyMatch capabilities key = list_ex (\<lambda>c. fuzzy c = fuzzy key) capabilities"

definition RenderClusterRoles :: "'w rbac_api \<Rightarrow> revision \<Rightarrow> resource list \<Rightarrow> cluster_role list" where
  "RenderClusterRoles x pr rs =
     (if length rs = 0 then []
      else
        (let (groups, resources) = group_resources (ra_Sort x rs) ([], []);
             rules = map (\<lambda>g. rule_on [] [g] (case map_of resources g of None \<Rightarrow> [] | Some ps \<Rightarrow> ps)) groups;
             ruleFinalizers = rule_on verbsUpdate groups [''*/finalizers''];
             owner = \<lparr>ow_Kind = ''ProviderRevision'', ow_Name = rv_Name pr, ow_UID = rv_UID pr\<rparr>;
             edit = \<lparr>cr_Name = ''crossplane:provider:'' @ rv_Name pr @ '':aggregate-to-edit'',
                cr_Labels = [(''rbac.crossplane.io/aggregate-to-crossplane'', ''true''),
                  (''rbac.crossplane.io/aggregate-to-admin'', ''true''),
                  (''rbac.crossplane.io/aggregate-to-edit'', ''true'')],
                cr_Owners = [owner], cr_Rules = withVerbs rules verbsEdit\<rparr>;
             view = \<lparr>cr_Name = ''crossplane:provider:'' @ rv_Name pr @ '':aggregate-to-view'',
                cr_Labels = [(''rbac.crossplane.io/aggregate-to-view'', ''true'')],
                cr_Owners = [owner], cr_Rules = withVerbs rules verbsView\<rparr>;
             system = \<lparr>cr_Name = SystemClusterRoleName (rv_Name pr),
                cr_Labels = [(''rbac.crossplane.io/system'', rv_Name pr)],
                cr_Owners = [owner],
                cr_Rules = withVerbs rules verbsSystem @ [ruleFinalizers] @ rulesSystemExtra @
                  (if CapabilitiesContainFuzzyMatch (rv_Capabilities pr) ''safe-start''
                   then withVerbs [rule_on [] [''apiextensions.k8s.io''] [''customresourcedefinitions'']] verbsView
                   else [])\<rparr>
         in [edit, view, system]))"

section \<open>Reconciling a provider\<close>

text \<open>\<^verbatim>\<open>strings.Cut\<close> at a dot.\<close>

definition cut_dot :: "string \<Rightarrow> (string \<times> string) option" where
  "cut_dot s =
     (if CHR ''.'' \<in> set s
      then Some (takeWhile (\<lambda>c. c \<noteq> CHR ''.'') s, tl (dropWhile (\<lambda>c. c \<noteq> CHR ''.'') s))
      else None)"

fun DefinedResources :: "'w rbac_api \<Rightarrow> typed_reference list \<Rightarrow> resource list" where
  "DefinedResources x [] = []"
| "DefinedResources x (ref # refs) =
     (let g = ra_Group x (tr_APIVersion ref) in
      if (g = ''apiextensions.k8s.io'' \<and> tr_Kind ref = ''CustomResourceDefinition'') \<or>
         (g = ''apiextensions.crossplane.io'' \<and> tr_Kind ref = ''ManagedResourceDefinition'')
      then (case cut_dot (tr_Name ref) of
              None \<Rightarrow> DefinedResources x refs
            | Some (p, grp) \<Rightarrow> \<lparr>rs_Group = grp, rs_Plural = p\<rparr> # DefinedResources x refs)
      else DefinedResources x refs)"

definition Differs :: "'w rbac_api \<Rightarrow> string \<Rightarrow> string \<Rightarrow> bool" where
  "Differs x a b =
     (case ra_Repository x a of
        Inl _ \<Rightarrow> True
      | Inr (ra, pa) \<Rightarrow>
          (case ra_Repository x b of
             Inl _ \<Rightarrow> True
           | Inr (rb, pb) \<Rightarrow>
               if ra \<noteq> rb then True else hd (split_on CHR ''/'' pa) \<noteq> hd (split_on CHR ''/'' pb)))"

definition roles_differ :: "cluster_role \<Rightarrow> cluster_role \<Rightarrow> bool" where
  "roles_differ c d \<longleftrightarrow> set (cr_Labels c) \<noteq> set (cr_Labels d) \<or> cr_Rules c \<noteq> cr_Rules d"

fun family_resources :: "'w rbac_api \<Rightarrow> revision \<Rightarrow> revision list \<Rightarrow> resource list" where
  "family_resources x pr [] = []"
| "family_resources x pr (m # ms) =
     (if rv_UID m = rv_UID pr then family_resources x pr ms
      else if Differs x (rv_Package pr) (rv_Package m) then family_resources x pr ms
      else DefinedResources x (rv_ObjectRefs m) @ family_resources x pr ms)"

fun apply_roles :: "'w rbac_api \<Rightarrow> string \<Rightarrow> cluster_role list \<Rightarrow> 'w \<Rightarrow> result \<times> 'w" where
  "apply_roles x uid [] w = (Return None, w)"
| "apply_roles x uid (cr # crs) w =
     (case ra_ApplyRole x cr uid roles_differ w of
        (ApplyFailed e, w1) \<Rightarrow>
          if e = Conflict then (Requeue, w1)
          else (Return (Some (Wrap (api_text e) ''cannot apply ClusterRole'')), w1)
      | (_, w1) \<Rightarrow> apply_roles x uid crs w1)"

definition family_label :: string where "family_label = ''pkg.crossplane.io/provider-family''"

definition ignore_not_found :: "api_error \<Rightarrow> string \<Rightarrow> result" where
  "ignore_not_found e msg = Return (if e = NotFound then None else Some (Wrap (api_text e) msg))"

definition Reconcile_roles :: "'w rbac_api \<Rightarrow> string \<Rightarrow> 'w \<Rightarrow> result \<times> 'w" where
  "Reconcile_roles x name w =
     (case ra_GetRevision x name w of
        (Inl e, w1) \<Rightarrow> (ignore_not_found e ''cannot get ProviderRevision'', w1)
      | (Inr pr, w1) \<Rightarrow>
          if rv_Paused pr then (Return None, w1)
          else if rv_Deleted pr then (Return None, w1)
          else
            (let own = DefinedResources x (rv_ObjectRefs pr);
                 family = (case map_of (rv_Labels pr) family_label of None \<Rightarrow> [] | Some f \<Rightarrow> f)
             in if family = [] then apply_roles x (rv_UID pr) (RenderClusterRoles x pr own) w1
                else
                  (case ra_ListRevisions x family w1 of
                     (Inl e, w2) \<Rightarrow>
                       if e = Conflict then (Requeue, w2)
                       else (Return (Some (Wrap (api_text e) ''cannot list ProviderRevisions'')), w2)
                   | (Inr ms, w2) \<Rightarrow>
                       apply_roles x (rv_UID pr)
                         (RenderClusterRoles x pr (own @ family_resources x pr ms)) w2)))"

text \<open>The requests a change of one revision enqueues for the rest of its family.\<close>

definition enqueue_family :: "'w rbac_api \<Rightarrow> revision \<Rightarrow> 'w \<Rightarrow> string list \<times> 'w" where
  "enqueue_family x pr w =
     (let family = (case map_of (rv_Labels pr) family_label of None \<Rightarrow> [] | Some f \<Rightarrow> f) in
      if family = [] then ([], w)
      else
        (case ra_ListRevisions x family w of
           (Inl _, w1) \<Rightarrow> ([], w1)
         | (Inr ms, w1) \<Rightarrow> (map rv_Name (filter (\<lambda>m. rv_UID m \<noteq> rv_UID pr) ms), w1)))"

section \<open>Binding the service accounts of a provider\<close>

definition subjects_of :: "revision \<Rightarrow> deployment list \<Rightarrow> subject list" where
  "subjects_of pr ds =
     concat (map (\<lambda>d. map (\<lambda>_. \<lparr>su_Kind = ''ServiceAccount'', su_Namespace = dp_Namespace d,
                               su_Name = dp_ServiceAccountName d\<rparr>)
                       (filter (\<lambda>uid. uid = rv_UID pr) (dp_OwnerUIDs d))) ds)"

definition bindings_differ :: "role_binding \<Rightarrow> role_binding \<Rightarrow> bool" where
  "bindings_differ c d \<longleftrightarrow>
     rb_Subjects c \<noteq> rb_Subjects d \<or> (rb_RoleKind c, rb_RoleName c) \<noteq> (rb_RoleKind d, rb_RoleName d) \<or>
     rb_Owners c \<noteq> rb_Owners d"

definition Reconcile_binding :: "'w rbac_api \<Rightarrow> string \<Rightarrow> 'w \<Rightarrow> result \<times> 'w" where
  "Reconcile_binding x name w =
     (case ra_GetRevision x name w of
        (Inl e, w1) \<Rightarrow> (ignore_not_found e ''cannot get ProviderRevision'', w1)
      | (Inr pr, w1) \<Rightarrow>
          if rv_Paused pr then (Return None, w1)
          else if rv_Deleted pr then (Return None, w1)
          else
            (case ra_ListDeployments x w1 of
               (Inl e, w2) \<Rightarrow> (Return (Some (Wrap (api_text e) ''cannot list Deployments'')), w2)
             | (Inr ds, w2) \<Rightarrow>
                 (let n = SystemClusterRoleName (rv_Name pr);
                      b = \<lparr>rb_Name = n,
                           rb_Owners = [\<lparr>ow_Kind = ''ProviderRevision'', ow_Name = rv_Name pr, ow_UID = rv_UID pr\<rparr>],
                           rb_RoleKind = ''ClusterRole'', rb_RoleName = n, rb_Subjects = subjects_of pr ds\<rparr>
                  in case ra_ApplyBinding x b (rv_UID pr) bindings_differ w2 of
                       (ApplyFailed e, w3) \<Rightarrow>
                         if e = Conflict then (Requeue, w3)
                         else (Return (Some (Wrap (api_text e) ''cannot apply ClusterRoleBinding'')), w3)
                     | (_, w3) \<Rightarrow> (Return None, w3))))"

section \<open>The roles of a composite resource definition\<close>

definition xrd_rule :: "definition_xrd \<Rightarrow> string list \<Rightarrow> string \<Rightarrow> policy_rule" where
  "xrd_rule d verbs plural = rule_on verbs [xd_Group d] [plural, plural @ ''/status'']"

definition xrd_finalizers :: "definition_xrd \<Rightarrow> string \<Rightarrow> policy_rule" where
  "xrd_finalizers d plural = rule_on verbsUpdate [xd_Group d] [plural @ ''/finalizers'']"

definition xrd_role :: "definition_xrd \<Rightarrow> string \<Rightarrow> string list \<Rightarrow> policy_rule list \<Rightarrow> cluster_role" where
  "xrd_role d suffix labels rules =
     \<lparr>cr_Name = ''crossplane:composite:'' @ xd_Name d @ suffix,
      cr_Labels = map (\<lambda>l. (''rbac.crossplane.io/'' @ l, ''true'')) labels,
      cr_Owners = [\<lparr>ow_Kind = ''CompositeResourceDefinition'', ow_Name = xd_Name d, ow_UID = xd_UID d\<rparr>],
      cr_Rules = rules\<rparr>"

definition RenderClusterRoles_xrd :: "definition_xrd \<Rightarrow> cluster_role list" where
  "RenderClusterRoles_xrd d =
     (let claims = (\<lambda>rules. case xd_ClaimPlural d of None \<Rightarrow> [] | Some p \<Rightarrow> rules p) in
      [xrd_role d '':aggregate-to-crossplane'' [''aggregate-to-crossplane'']
         ([xrd_rule d verbsEdit (xd_Plural d), xrd_finalizers d (xd_Plural d)] @
          claims (\<lambda>p. [xrd_rule d verbsEdit p, xrd_finalizers d p])),
       xrd_role d '':aggregate-to-edit''
         [''aggregate-to-admin'', ''aggregate-to-ns-admin'', ''aggregate-to-edit'', ''aggregate-to-ns-edit'']
         ([xrd_rule d verbsEdit (xd_Plural d)] @ claims (\<lambda>p. [xrd_rule d verbsEdit p])),
       xrd_role d '':aggregate-to-view'' [''aggregate-to-view'', ''aggregate-to-ns-view'']
         ([xrd_rule d verbsView (xd_Plural d)] @ claims (\<lambda>p. [xrd_rule d verbsView p])),
       xrd_role d '':aggregate-to-browse'' [''aggregate-to-browse''] [xrd_rule d verbsView (xd_Plural d)]])"

definition Reconcile_xrd :: "'w rbac_api \<Rightarrow> string \<Rightarrow> 'w \<Rightarrow> result \<times> 'w" where
  "Reconcile_xrd x name w =
     (case ra_GetXRD x name w of
        (Inl e, w1) \<Rightarrow> (ignore_not_found e ''cannot get CompositeResourceDefinition'', w1)
      | (Inr d, w1) \<Rightarrow>
          if xd_Deleted d then (Return None, w1)
          else apply_roles x (xd_UID d) (RenderClusterRoles_xrd d) w1)"

section \<open>The tree of rules\<close>

text \<open>\<^verbatim>\<open>requests.go\<close>: granular rules, and a tree that says which of them are allowed.\<close>

datatype rule_node = Node (allowed: bool) (children: "(string, rule_node) gomap")

definition newNode :: rule_node where "newNode = Node False []"

fun Allow :: "rule_node \<Rightarrow> string list \<Rightarrow> rule_node" where
  "Allow n [] = Node True (children n)"
| "Allow n (k # p) =
     (let c = (case map_of (children n) k of None \<Rightarrow> newNode | Some c \<Rightarrow> c)
      in Node (allowed n) (put k (Allow c p) (children n)))"

fun Allowed :: "rule_node \<Rightarrow> string list \<Rightarrow> bool" where
  "Allowed n [] = False"
| "Allowed n (k # p) =
     list_ex (\<lambda>key. case map_of (children n) key of
        None \<Rightarrow> False
      | Some c \<Rightarrow> if allowed c then True else Allowed c p) [k, ''*'']"

record rule =
  ru_APIGroup :: string
  ru_Resource :: string
  ru_ResourceName :: string
  ru_NonResourceURL :: string
  ru_Verb :: string

definition path :: "rule \<Rightarrow> string list" where
  "path r =
     (if ru_NonResourceURL r \<noteq> [] then [''url'', ru_NonResourceURL r, ru_Verb r]
      else [''resource'', ru_APIGroup r, ru_Resource r, ru_ResourceName r, ru_Verb r])"

definition url_rule :: "string \<Rightarrow> string \<Rightarrow> rule" where
  "url_rule u v =
     \<lparr>ru_APIGroup = [], ru_Resource = [], ru_ResourceName = [], ru_NonResourceURL = u, ru_Verb = v\<rparr>"

definition resource_rule :: "string \<Rightarrow> string \<Rightarrow> string \<Rightarrow> string \<Rightarrow> rule" where
  "resource_rule g r n v =
     \<lparr>ru_APIGroup = g, ru_Resource = r, ru_ResourceName = n, ru_NonResourceURL = [], ru_Verb = v\<rparr>"

definition granular :: "policy_rule list \<Rightarrow> rule list" where
  "granular rs =
     concat (map (\<lambda>r.
       concat (map (\<lambda>u. map (url_rule u) (pr_Verbs r)) (pr_NonResourceURLs r)) @
       (let names = (if length (pr_ResourceNames r) < 1 then [''*''] else pr_ResourceNames r)
        in concat (map (\<lambda>g. concat (map (\<lambda>rsc. concat (map (\<lambda>n. map (resource_rule g rsc n) (pr_Verbs r))
             names)) (pr_Resources r))) (pr_APIGroups r)))) rs)"

text \<open>The context is checked before each rule; \<open>cancelled k\<close> says that it is done at the \<open>k\<close>-th check.\<close>

definition Expand :: "(nat \<Rightarrow> bool) \<Rightarrow> policy_rule list \<Rightarrow> rule list res" where
  "Expand cancelled rs =
     (let out = granular rs
      in if list_ex cancelled [0..<length out] then Inl (Errorf ''context done'' []) else Inr out)"

end
