(* ===== verification/RbacCorrect.thy ===== *)
theory RbacCorrect
  imports Rbac
begin

text \<open>
  What the RBAC manager grants: the tree of rules decides what the policy rules say, and the role and
  binding of a provider give its service accounts exactly the access its family calls for.
\<close>

section \<open>The tree of rules\<close>

text \<open>A path of a rule covers a longer one, a wildcard covers every segment.\<close>

fun covers :: "string list \<Rightarrow> string list \<Rightarrow> bool" where
  "covers [] q = True"
| "covers (a # p) [] = False"
| "covers (a # p) (b # q) = ((a = b \<or> a = ''*'') \<and> covers p q)"

lemma Allowed_newNode [simp]: "\<not> Allowed newNode q" "\<not> allowed newNode"
  by (cases q) (simp_all add: newNode_def)

lemma allowed_Allow: "allowed (Allow n p) \<longleftrightarrow> p = [] \<or> allowed n"
  by (cases p) (simp_all add: Let_def)

text \<open>What one key of a node contributes.\<close>

definition via :: "rule_node \<Rightarrow> string list \<Rightarrow> string \<Rightarrow> bool" where
  "via n q key = (case map_of (children n) key of None \<Rightarrow> False | Some c \<Rightarrow> allowed c \<or> Allowed c q)"

lemma Allowed_via: "Allowed n (b # q) \<longleftrightarrow> via n q b \<or> via n q ''*''"
  by (auto simp: via_def split: option.splits)

lemma Allowed_Allow: "Allowed (Allow n p) q \<longleftrightarrow> Allowed n q \<or> (p \<noteq> [] \<and> covers p q)"
proof (induction n p arbitrary: q rule: Allow.induct)
  case (1 n)
  show ?case by (cases q) (auto split: option.splits)
next
  case (2 n k p)
  show ?case
  proof (cases q)
    case (Cons b q')
    let ?c = "case map_of (children n) k of None \<Rightarrow> newNode | Some c \<Rightarrow> c"
    have child: "allowed (Allow ?c p) \<or> Allowed (Allow ?c p) q' \<longleftrightarrow> via n q' k \<or> covers p q'"
      using "2.IH" [OF refl, of q'] by (cases "map_of (children n) k") (auto simp: allowed_Allow via_def)
    have "via (Allow n (k # p)) q' key \<longleftrightarrow> via n q' key \<or> (key = k \<and> covers p q')" for key
      using child by (cases "key = k") (simp_all add: via_def Let_def)
    then show ?thesis unfolding Cons Allowed_via by auto
  qed simp
qed

lemma Allowed_tree:
  "Allowed (fold (\<lambda>r n. Allow n (path r)) rs n) q \<longleftrightarrow> Allowed n q \<or> (\<exists>r \<in> set rs. covers (path r) q)"
proof (induction rs arbitrary: n)
  case (Cons r rs)
  have "path r \<noteq> []" by (simp add: path_def)
  then show ?case using Cons by (auto simp: Allowed_Allow)
qed simp

text \<open>The meaning of a policy rule: an empty list of names means every name.\<close>

definition wild :: "string list \<Rightarrow> string \<Rightarrow> bool" where
  "wild xs a \<longleftrightarrow> a \<in> set xs \<or> ''*'' \<in> set xs"

definition policy_covers :: "policy_rule \<Rightarrow> rule \<Rightarrow> bool" where
  "policy_covers p q \<longleftrightarrow> wild (pr_Verbs p) (ru_Verb q) \<and>
     (if ru_NonResourceURL q \<noteq> [] then wild (pr_NonResourceURLs p) (ru_NonResourceURL q)
      else wild (pr_APIGroups p) (ru_APIGroup q) \<and> wild (pr_Resources p) (ru_Resource q) \<and>
        (pr_ResourceNames p = [] \<or> wild (pr_ResourceNames p) (ru_ResourceName q)))"

lemma url_covers:
  "u \<noteq> [] \<Longrightarrow> covers (path (url_rule u v)) (path q) \<longleftrightarrow>
     ru_NonResourceURL q \<noteq> [] \<and> (u = ru_NonResourceURL q \<or> u = ''*'') \<and> (v = ru_Verb q \<or> v = ''*'')"
  by (simp add: path_def url_rule_def)

lemma resource_covers:
  "covers (path (resource_rule g c n v)) (path q) \<longleftrightarrow>
     ru_NonResourceURL q = [] \<and> (g = ru_APIGroup q \<or> g = ''*'') \<and> (c = ru_Resource q \<or> c = ''*'') \<and>
     (n = ru_ResourceName q \<or> n = ''*'') \<and> (v = ru_Verb q \<or> v = ''*'')"
  by (simp add: path_def resource_rule_def)

lemma wild_iff: "wild xs a \<longleftrightarrow> (\<exists>x \<in> set xs. x = a \<or> x = ''*'')"
  by (auto simp: wild_def)

lemma granular_covers:
  assumes "[] \<notin> set (pr_NonResourceURLs p)"
  shows "(\<exists>r \<in> set (granular [p]). covers (path r) (path q)) \<longleftrightarrow> policy_covers p q"
proof -
  define names where "names = (if pr_ResourceNames p = [] then [''*''] else pr_ResourceNames p)"
  have elem: "r \<in> set (granular [p]) \<longleftrightarrow>
      (\<exists>u \<in> set (pr_NonResourceURLs p). \<exists>v \<in> set (pr_Verbs p). r = url_rule u v) \<or>
      (\<exists>g \<in> set (pr_APIGroups p). \<exists>c \<in> set (pr_Resources p). \<exists>n \<in> set names. \<exists>v \<in> set (pr_Verbs p).
         r = resource_rule g c n v)" for r
    by (auto simp: granular_def Let_def image_iff names_def)
  have "(\<exists>r \<in> set (granular [p]). covers (path r) (path q)) \<longleftrightarrow>
      (\<exists>u \<in> set (pr_NonResourceURLs p). \<exists>v \<in> set (pr_Verbs p). covers (path (url_rule u v)) (path q)) \<or>
      (\<exists>g \<in> set (pr_APIGroups p). \<exists>c \<in> set (pr_Resources p). \<exists>n \<in> set names. \<exists>v \<in> set (pr_Verbs p).
         covers (path (resource_rule g c n v)) (path q))"
    unfolding Bex_def elem by blast
  also have "(\<exists>u \<in> set (pr_NonResourceURLs p). \<exists>v \<in> set (pr_Verbs p). covers (path (url_rule u v)) (path q)) \<longleftrightarrow>
      ru_NonResourceURL q \<noteq> [] \<and> wild (pr_NonResourceURLs p) (ru_NonResourceURL q) \<and> wild (pr_Verbs p) (ru_Verb q)"
  proof -
    have "covers (path (url_rule u v)) (path q) \<longleftrightarrow>
        ru_NonResourceURL q \<noteq> [] \<and> (u = ru_NonResourceURL q \<or> u = ''*'') \<and> (v = ru_Verb q \<or> v = ''*'')"
      if "u \<in> set (pr_NonResourceURLs p)" for u v
      using that assms by (intro url_covers) auto
    then show ?thesis unfolding wild_iff by blast
  qed
  also have "(\<exists>g \<in> set (pr_APIGroups p). \<exists>c \<in> set (pr_Resources p). \<exists>n \<in> set names. \<exists>v \<in> set (pr_Verbs p).
         covers (path (resource_rule g c n v)) (path q)) \<longleftrightarrow>
      ru_NonResourceURL q = [] \<and> wild (pr_APIGroups p) (ru_APIGroup q) \<and> wild (pr_Resources p) (ru_Resource q) \<and>
      wild names (ru_ResourceName q) \<and> wild (pr_Verbs p) (ru_Verb q)"
    unfolding resource_covers wild_iff by blast
  also have "wild names (ru_ResourceName q) \<longleftrightarrow>
      pr_ResourceNames p = [] \<or> wild (pr_ResourceNames p) (ru_ResourceName q)"
    by (simp add: wild_def names_def)
  finally show ?thesis by (auto simp: policy_covers_def)
qed

lemma granular_all: "set (granular ps) = (\<Union>p \<in> set ps. set (granular [p]))"
  by (simp add: granular_def)

text \<open>
  C39: The tree into which the expansion of some policy rules is entered allows a request exactly when
  one of the rules covers it.
\<close>

theorem rule_tree_exact:
  assumes "Expand cancelled ps = Inr rs" "\<forall>p \<in> set ps. [] \<notin> set (pr_NonResourceURLs p)"
  shows "Allowed (fold (\<lambda>r n. Allow n (path r)) rs newNode) (path q) \<longleftrightarrow> (\<exists>p \<in> set ps. policy_covers p q)"
proof -
  have "rs = granular ps" using assms(1) by (auto simp: Expand_def Let_def split: if_splits)
  then have "Allowed (fold (\<lambda>r n. Allow n (path r)) rs newNode) (path q) \<longleftrightarrow>
      (\<exists>p \<in> set ps. \<exists>r \<in> set (granular [p]). covers (path r) (path q))"
    by (simp add: Allowed_tree granular_all [of ps])
  then show ?thesis using granular_covers assms(2) by blast
qed

section \<open>Access\<close>

text \<open>
  What a request asks for, and when a policy rule grants it, as Kubernetes documents it: resources are
  matched with their subresource, and \<open>*/sub\<close> stands for a subresource of any resource.
\<close>

record access =
  ac_Verb :: string
  ac_Group :: string
  ac_Resource :: string
  ac_Subresource :: string
  ac_Name :: string

definition combined :: "access \<Rightarrow> string" where
  "combined a = (if ac_Subresource a = [] then ac_Resource a else ac_Resource a @ ''/'' @ ac_Subresource a)"

definition rule_grants :: "policy_rule \<Rightarrow> access \<Rightarrow> bool" where
  "rule_grants p a \<longleftrightarrow> wild (pr_Verbs p) (ac_Verb a) \<and> wild (pr_APIGroups p) (ac_Group a) \<and>
     (wild (pr_Resources p) (combined a) \<or>
      ac_Subresource a \<noteq> [] \<and> ''*/'' @ ac_Subresource a \<in> set (pr_Resources p)) \<and>
     (pr_ResourceNames p = [] \<or> ac_Name a \<in> set (pr_ResourceNames p))"

definition role_grants :: "cluster_role \<Rightarrow> access \<Rightarrow> bool" where
  "role_grants c a \<longleftrightarrow> (\<exists>p \<in> set (cr_Rules c). rule_grants p a)"

section \<open>Families\<close>

lemma split_on_hd: "hd (split_on c s) = takeWhile (\<lambda>x. x \<noteq> c) s" and split_on_not_Nil: "split_on c s \<noteq> []"
  by (induction s) (auto split: list.splits)

definition same_org :: "'w rbac_api \<Rightarrow> string \<Rightarrow> string \<Rightarrow> bool" where
  "same_org x a b \<longleftrightarrow>
     (\<exists>registry p q. ra_Repository x a = Inr (registry, p) \<and> ra_Repository x b = Inr (registry, q) \<and>
        takeWhile (\<lambda>c. c \<noteq> CHR ''/'') p = takeWhile (\<lambda>c. c \<noteq> CHR ''/'') q)"

lemma Differs_iff: "Differs x a b \<longleftrightarrow> \<not> same_org x a b"
  by (auto simp: Differs_def same_org_def split_on_hd split: sum.splits prod.splits)

text \<open>The revisions whose resources a revision may use: itself and its family in the same organisation.\<close>

definition kin :: "'w rbac_api \<Rightarrow> revision \<Rightarrow> revision list \<Rightarrow> revision set" where
  "kin x pr ms = insert pr {m \<in> set ms. rv_UID m \<noteq> rv_UID pr \<and> same_org x (rv_Package pr) (rv_Package m)}"

definition kin_resources :: "'w rbac_api \<Rightarrow> revision \<Rightarrow> revision list \<Rightarrow> resource set" where
  "kin_resources x pr ms = (\<Union>m \<in> kin x pr ms. set (DefinedResources x (rv_ObjectRefs m)))"

lemma family_resources_set:
  "set (DefinedResources x (rv_ObjectRefs pr) @ family_resources x pr ms) = kin_resources x pr ms"
proof -
  have "set (family_resources x pr ms) =
      (\<Union>m \<in> {m \<in> set ms. rv_UID m \<noteq> rv_UID pr \<and> same_org x (rv_Package pr) (rv_Package m)}.
         set (DefinedResources x (rv_ObjectRefs m)))"
    by (induction ms) (auto simp: Differs_iff)
  then show ?thesis by (simp add: kin_resources_def kin_def)
qed

section \<open>The system role\<close>

definition entry :: "('k, 'v list) gomap \<Rightarrow> 'k \<Rightarrow> 'v list" where
  "entry m k = (case map_of m k of None \<Rightarrow> [] | Some vs \<Rightarrow> vs)"

lemma entry_put [simp]: "entry (put k v m) j = (if j = k then v else entry m j)"
  by (simp add: entry_def)

lemma group_resources_entries:
  assumes "group_resources rs (gs, m) = (gs', m')" "keys m = set gs"
  shows "set gs' = set gs \<union> rs_Group ` set rs \<and>
    (\<forall>g. set (entry m' g) = set (entry m g) \<union>
       (\<Union>r \<in> {r \<in> set rs. rs_Group r = g}. {rs_Plural r, rs_Plural r @ ''/status''}))"
  using assms
proof (induction rs arbitrary: gs m)
  case (Cons r rs)
  define gs1 where "gs1 = (if rs_Group r \<in> keys m then gs else gs @ [rs_Group r])"
  define m1 where "m1 = put (rs_Group r) (entry m (rs_Group r) @ [rs_Plural r, rs_Plural r @ ''/status''])
    (if rs_Group r \<in> keys m then m else put (rs_Group r) [] m)"
  have "group_resources rs (gs1, m1) = (gs', m')"
    using Cons.prems(1) by (cases "map_of m (rs_Group r)")
      (simp_all add: gs1_def m1_def Let_def entry_def in_keys_iff)
  moreover have "keys m1 = set gs1" using Cons.prems(2) by (auto simp: gs1_def m1_def)
  moreover have "set (entry m1 g) = set (entry m g) \<union>
      (if g = rs_Group r then {rs_Plural r, rs_Plural r @ ''/status''} else {})" for g
    by (auto simp: m1_def)
  moreover have "set gs1 = insert (rs_Group r) (set gs)" using Cons.prems(2) by (auto simp: gs1_def)
  ultimately show ?case using Cons.IH [of gs1 m1] by auto
qed simp

text \<open>What the role of a provider grants, by where it comes from.\<close>

definition permitted :: "revision \<Rightarrow> resource set \<Rightarrow> access \<Rightarrow> bool" where
  "permitted pr rs a \<longleftrightarrow> rs \<noteq> {} \<and>
     ((\<exists>r \<in> rs. ac_Group a = rs_Group r \<and> combined a \<in> {rs_Plural r, rs_Plural r @ ''/status''} \<and>
         ac_Verb a \<in> set verbsSystem) \<or>
      (\<exists>r \<in> rs. ac_Group a = rs_Group r \<and> ac_Subresource a = ''finalizers'' \<and> ac_Verb a = ''update'') \<or>
      (ac_Group a \<in> {[], ''coordination.k8s.io'', ''events.k8s.io''} \<and>
       combined a \<in> {''secrets'', ''configmaps'', ''events'', ''leases''}) \<or>
      (CapabilitiesContainFuzzyMatch (rv_Capabilities pr) ''safe-start'' \<and>
       ac_Group a = ''apiextensions.k8s.io'' \<and> combined a = ''customresourcedefinitions'' \<and>
       ac_Verb a \<in> set verbsView))"

text \<open>Names of API resources and groups have no wildcard; a request names a resource without a slash.\<close>

definition plain :: "resource set \<Rightarrow> bool" where
  "plain rs \<longleftrightarrow> (\<forall>r \<in> rs. CHR ''*'' \<notin> set (rs_Group r) \<and> CHR ''*'' \<notin> set (rs_Plural r))"

definition well_formed :: "access \<Rightarrow> bool" where
  "well_formed a \<longleftrightarrow> CHR ''/'' \<notin> set (ac_Resource a)"

lemma rule_on_grants:
  "rule_grants (rule_on verbs groups resources) a \<longleftrightarrow>
     wild verbs (ac_Verb a) \<and> wild groups (ac_Group a) \<and>
     (wild resources (combined a) \<or> ac_Subresource a \<noteq> [] \<and> ''*/'' @ ac_Subresource a \<in> set resources)"
  by (simp add: rule_grants_def rule_on_def)

lemma withVerbs_on: "withVerbs (map (\<lambda>g. rule_on [] [g] (f g)) gs) verbs = map (\<lambda>g. rule_on verbs [g] (f g)) gs"
  by (simp add: withVerbs_def rule_on_def)

lemma system_rule_grants:
  assumes "CHR ''*'' \<notin> set g" "\<forall>q \<in> set ps. CHR ''*'' \<notin> set q"
  shows "rule_grants (rule_on verbsSystem [g] ps) a \<longleftrightarrow>
    ac_Group a = g \<and> combined a \<in> set ps \<and> ac_Verb a \<in> set verbsSystem"
proof -
  have "g \<noteq> ''*''" "''*'' \<notin> set ps" "''*/'' @ ac_Subresource a \<notin> set ps" using assms by auto
  then show ?thesis by (auto simp: rule_on_grants wild_def verbsSystem_def)
qed

lemma finalizer_rule_grants:
  assumes "well_formed a" "\<forall>g \<in> set gs. CHR ''*'' \<notin> set g"
  shows "rule_grants (rule_on verbsUpdate gs [''*/finalizers'']) a \<longleftrightarrow>
    ac_Group a \<in> set gs \<and> ac_Subresource a = ''finalizers'' \<and> ac_Verb a = ''update''"
proof -
  have "''*'' \<notin> set gs" using assms(2) by auto
  moreover have "combined a = ''*/finalizers'' \<Longrightarrow> ac_Subresource a = ''finalizers''"
  proof -
    assume eq: "combined a = ''*/finalizers''"
    have "ac_Subresource a \<noteq> []" using eq assms(1) by (auto simp: combined_def well_formed_def)
    with eq have "ac_Resource a @ ''/'' @ ac_Subresource a = ''*'' @ ''/'' @ ''finalizers''" by (simp add: combined_def)
    from arg_cong [OF this, of "\<lambda>s. tl (dropWhile (\<lambda>c. c \<noteq> CHR ''/'') s)"] show ?thesis
      using assms(1) by (auto simp: well_formed_def dropWhile_append split: if_splits)
  qed
  ultimately show ?thesis by (auto simp: rule_on_grants wild_def verbsUpdate_def)
qed

lemma extra_rules_grant:
  "(\<exists>p \<in> set rulesSystemExtra. rule_grants p a) \<longleftrightarrow>
     ac_Group a \<in> {[], ''coordination.k8s.io'', ''events.k8s.io''} \<and>
     combined a \<in> {''secrets'', ''configmaps'', ''events'', ''leases''}"
  by (auto simp: rulesSystemExtra_def rule_on_grants wild_def verbsEdit_def)

lemma crd_rule_grants:
  "rule_grants (rule_on verbsView [''apiextensions.k8s.io''] [''customresourcedefinitions'']) a \<longleftrightarrow>
     ac_Group a = ''apiextensions.k8s.io'' \<and> combined a = ''customresourcedefinitions'' \<and> ac_Verb a \<in> set verbsView"
  by (auto simp: rule_on_grants wild_def verbsView_def)

lemma system_name: "SystemClusterRoleName n \<noteq> ''crossplane:provider:'' @ n @ '':aggregate-to-edit''"
  "SystemClusterRoleName n \<noteq> ''crossplane:provider:'' @ n @ '':aggregate-to-view''"
  by (simp_all add: SystemClusterRoleName_def)

lemma system_role_grants:
  assumes "c \<in> set (RenderClusterRoles x pr rs)" "cr_Name c = SystemClusterRoleName (rv_Name pr)"
    "set (ra_Sort x rs) = set rs" "plain (set rs)" "well_formed a"
  shows "role_grants c a \<longleftrightarrow> permitted pr (set rs) a"
proof -
  obtain gs m where g: "group_resources (ra_Sort x rs) ([], []) = (gs, m)" using prod.exhaust by blast
  have ents: "set gs = rs_Group ` set rs"
    "set (entry m k) = (\<Union>r \<in> {r \<in> set rs. rs_Group r = k}. {rs_Plural r, rs_Plural r @ ''/status''})" for k
    using group_resources_entries [OF g] assms(3) by (auto simp: keys_def entry_def)
  have rs: "rs \<noteq> []" using assms(1) by (auto simp: RenderClusterRoles_def)
  let ?safe = "if CapabilitiesContainFuzzyMatch (rv_Capabilities pr) ''safe-start''
    then [rule_on verbsView [''apiextensions.k8s.io''] [''customresourcedefinitions'']] else []"
  have rules: "cr_Rules c = map (\<lambda>k. rule_on verbsSystem [k] (entry m k)) gs @
      [rule_on verbsUpdate gs [''*/finalizers'']] @ rulesSystemExtra @ ?safe"
    using assms(1,2) rs g system_name [of "rv_Name pr"]
    by (auto simp: RenderClusterRoles_def Let_def withVerbs_on entry_def withVerbs_def rule_on_def)
  have own: "rule_grants (rule_on verbsSystem [k] (entry m k)) a \<longleftrightarrow>
      ac_Group a = k \<and> combined a \<in> set (entry m k) \<and> ac_Verb a \<in> set verbsSystem" if "k \<in> set gs" for k
    using that assms(4) by (intro system_rule_grants) (auto simp: ents plain_def)
  have "(\<exists>k \<in> set gs. rule_grants (rule_on verbsSystem [k] (entry m k)) a) \<longleftrightarrow>
      (\<exists>k \<in> set gs. ac_Group a = k \<and> combined a \<in> set (entry m k) \<and> ac_Verb a \<in> set verbsSystem)"
    using own by (rule bex_cong [OF refl])
  also have "\<dots> \<longleftrightarrow>
      (\<exists>r \<in> set rs. ac_Group a = rs_Group r \<and> combined a \<in> {rs_Plural r, rs_Plural r @ ''/status''} \<and>
         ac_Verb a \<in> set verbsSystem)"
  proof
    assume "\<exists>k \<in> set gs. ac_Group a = k \<and> combined a \<in> set (entry m k) \<and> ac_Verb a \<in> set verbsSystem"
    then obtain r where "r \<in> set rs" "rs_Group r = ac_Group a" "combined a \<in> {rs_Plural r, rs_Plural r @ ''/status''}"
      "ac_Verb a \<in> set verbsSystem" by (auto simp: ents(2))
    then show "\<exists>r \<in> set rs. ac_Group a = rs_Group r \<and> combined a \<in> {rs_Plural r, rs_Plural r @ ''/status''} \<and>
        ac_Verb a \<in> set verbsSystem" by (intro bexI [of _ r]) simp_all
  next
    assume "\<exists>r \<in> set rs. ac_Group a = rs_Group r \<and> combined a \<in> {rs_Plural r, rs_Plural r @ ''/status''} \<and>
        ac_Verb a \<in> set verbsSystem"
    then obtain r where r: "r \<in> set rs" "ac_Group a = rs_Group r" "combined a \<in> {rs_Plural r, rs_Plural r @ ''/status''}"
      "ac_Verb a \<in> set verbsSystem" by blast
    then have "combined a \<in> set (entry m (rs_Group r))" unfolding ents(2) by blast
    with r show "\<exists>k \<in> set gs. ac_Group a = k \<and> combined a \<in> set (entry m k) \<and> ac_Verb a \<in> set verbsSystem"
      by (simp add: ents(1))
  qed
  finally have "(\<exists>k \<in> set gs. rule_grants (rule_on verbsSystem [k] (entry m k)) a) \<longleftrightarrow>
      (\<exists>r \<in> set rs. ac_Group a = rs_Group r \<and> combined a \<in> {rs_Plural r, rs_Plural r @ ''/status''} \<and>
         ac_Verb a \<in> set verbsSystem)" .
  moreover have "rule_grants (rule_on verbsUpdate gs [''*/finalizers'']) a \<longleftrightarrow>
      (\<exists>r \<in> set rs. ac_Group a = rs_Group r \<and> ac_Subresource a = ''finalizers'' \<and> ac_Verb a = ''update'')"
    using assms(4) by (subst finalizer_rule_grants [OF assms(5)]) (auto simp: ents plain_def)
  moreover have "(\<exists>p \<in> set ?safe. rule_grants p a) \<longleftrightarrow>
      CapabilitiesContainFuzzyMatch (rv_Capabilities pr) ''safe-start'' \<and> ac_Group a = ''apiextensions.k8s.io'' \<and>
      combined a = ''customresourcedefinitions'' \<and> ac_Verb a \<in> set verbsView"
    by (simp add: crd_rule_grants)
  ultimately show ?thesis
    using rs unfolding role_grants_def rules permitted_def set_append bex_Un extra_rules_grant
    by simp
qed

section \<open>What the reconcilers apply\<close>

datatype rbac_call = RoleCall cluster_role | BindingCall role_binding

definition observed :: "'w rbac_api \<Rightarrow> ('w \<times> rbac_call list) rbac_api" where
  "observed x =
     \<lparr>ra_Group = ra_Group x, ra_Repository = ra_Repository x, ra_Sort = ra_Sort x,
      ra_GetRevision = (\<lambda>n. quiet (ra_GetRevision x n)),
      ra_ListRevisions = (\<lambda>f. quiet (ra_ListRevisions x f)),
      ra_ListDeployments = quiet (ra_ListDeployments x),
      ra_GetXRD = (\<lambda>n. quiet (ra_GetXRD x n)),
      ra_ApplyRole = (\<lambda>c uid differ. noted (RoleCall c) (ra_ApplyRole x c uid differ)),
      ra_ApplyBinding = (\<lambda>b uid differ. noted (BindingCall b) (ra_ApplyBinding x b uid differ))\<rparr>"

lemma observed_fields [simp]:
  "ra_Group (observed x) = ra_Group x" "ra_Repository (observed x) = ra_Repository x"
  "ra_Sort (observed x) = ra_Sort x" "ra_GetRevision (observed x) n = quiet (ra_GetRevision x n)"
  "ra_ListRevisions (observed x) f = quiet (ra_ListRevisions x f)"
  "ra_ListDeployments (observed x) = quiet (ra_ListDeployments x)"
  "ra_GetXRD (observed x) n = quiet (ra_GetXRD x n)"
  "ra_ApplyRole (observed x) c uid differ = noted (RoleCall c) (ra_ApplyRole x c uid differ)"
  "ra_ApplyBinding (observed x) b uid unlike = noted (BindingCall b) (ra_ApplyBinding x b uid unlike)"
  by (simp_all add: observed_def)

lemma observed_pure [simp]:
  "DefinedResources (observed x) = DefinedResources x" "Differs (observed x) = Differs x"
  "RenderClusterRoles (observed x) = RenderClusterRoles x"
proof -
  show "DefinedResources (observed x) = DefinedResources x"
  proof
    fix refs show "DefinedResources (observed x) refs = DefinedResources x refs"
      by (induction refs) (simp_all add: Let_def split: option.split)
  qed
  show "Differs (observed x) = Differs x"
    by (intro ext) (simp add: Differs_def split: sum.split prod.split)
  show "RenderClusterRoles (observed x) = RenderClusterRoles x"
    by (intro ext) (simp add: RenderClusterRoles_def)
qed

lemma observed_family [simp]: "family_resources (observed x) pr ms = family_resources x pr ms"
  by (induction ms) simp_all

lemma apply_roles_calls:
  "\<exists>n. snd (snd (apply_roles (observed x) uid crs s)) = snd s @ map RoleCall (take n crs)"
proof (induction crs arbitrary: s)
  case (Cons c crs)
  obtain r s1 where a: "noted (RoleCall c) (ra_ApplyRole x c uid roles_differ) s = (r, s1)" using prod.exhaust by blast
  note s1 = noted_run(2) [OF a]
  show ?case
  proof (cases "\<exists>e. r = ApplyFailed e")
    case True
    then show ?thesis using a s1 by (intro exI [of _ 1]) auto
  next
    case False
    then have "apply_roles (observed x) uid (c # crs) s = apply_roles (observed x) uid crs s1"
      using a by (cases r) simp_all
    moreover obtain n where "snd (snd (apply_roles (observed x) uid crs s1)) = snd s1 @ map RoleCall (take n crs)"
      using Cons.IH by blast
    ultimately show ?thesis using s1 by (intro exI [of _ "Suc n"]) simp
  qed
qed simp

lemma apply_roles_from:
  assumes "RoleCall c \<in> set (snd (snd (apply_roles (observed x) uid crs s)))" "snd s = []"
  shows "c \<in> set crs"
proof -
  obtain n where "snd (snd (apply_roles (observed x) uid crs s)) = map RoleCall (take n crs)"
    using apply_roles_calls [of x uid crs s] assms(2) by auto
  then show ?thesis using assms(1) by (auto dest: in_set_takeD)
qed

text \<open>The members of its family the API server lists for a revision.\<close>

definition listed_family :: "'w rbac_api \<Rightarrow> revision \<Rightarrow> revision list \<Rightarrow> bool" where
  "listed_family x pr ms \<longleftrightarrow>
     (let family = (case map_of (rv_Labels pr) family_label of None \<Rightarrow> [] | Some f \<Rightarrow> f)
      in if family = [] then ms = [] else \<exists>w. fst (ra_ListRevisions x family w) = Inr ms)"

lemma Reconcile_roles_from:
  assumes "fst (ra_GetRevision x name w) = Inr pr"
    "RoleCall c \<in> set (snd (snd (Reconcile_roles (observed x) name (w, []))))"
  obtains ms where "listed_family x pr ms"
    "c \<in> set (RenderClusterRoles x pr (DefinedResources x (rv_ObjectRefs pr) @ family_resources x pr ms))"
proof -
  obtain s1 where g: "quiet (ra_GetRevision x name) (w, []) = (Inr pr, s1 :: _ \<times> rbac_call list)"
    using assms(1) by (cases "ra_GetRevision x name w") (simp add: quiet_def)
  have s1: "snd s1 = []" using quiet_run(2) [OF g] by simp
  have live: "\<not> rv_Paused pr" "\<not> rv_Deleted pr"
    using assms(2) g s1 by (auto simp: Reconcile_roles_def split: if_splits)
  let ?family = "case map_of (rv_Labels pr) family_label of None \<Rightarrow> [] | Some f \<Rightarrow> f"
  show thesis
  proof (cases "?family = []")
    case True
    then have "c \<in> set (RenderClusterRoles x pr (DefinedResources x (rv_ObjectRefs pr)))"
      using assms(2) g s1 live by (intro apply_roles_from [of c x "rv_UID pr" _ s1]) (simp_all add: Reconcile_roles_def Let_def)
    then show thesis using True by (intro that [of "[]"]) (simp_all add: listed_family_def Let_def)
  next
    case False
    obtain r s2 where l: "quiet (ra_ListRevisions x ?family) s1 = (r, s2)" using prod.exhaust by blast
    have s2: "snd s2 = []" using quiet_run(2) [OF l] s1 by simp
    obtain ms where ms: "r = Inr ms"
      using assms(2) g l s2 live False by (cases r) (auto simp: Reconcile_roles_def Let_def split: if_splits)
    then have "c \<in> set (RenderClusterRoles x pr (DefinedResources x (rv_ObjectRefs pr) @ family_resources x pr ms))"
      using assms(2) g l s2 live False
      by (intro apply_roles_from [of c x "rv_UID pr" _ s2]) (simp_all add: Reconcile_roles_def Let_def)
    moreover have "listed_family x pr ms"
      using quiet_run(1) [OF l] ms False unfolding listed_family_def Let_def by auto
    ultimately show thesis by (intro that)
  qed
qed

definition account :: "deployment \<Rightarrow> subject" where
  "account d = \<lparr>su_Kind = ''ServiceAccount'', su_Namespace = dp_Namespace d, su_Name = dp_ServiceAccountName d\<rparr>"

lemma subjects_of_set: "set (subjects_of pr ds) = account ` {d \<in> set ds. rv_UID pr \<in> set (dp_OwnerUIDs d)}"
  by (auto simp: subjects_of_def account_def)

lemma Reconcile_binding_from:
  assumes "fst (ra_GetRevision x name w) = Inr pr"
    "BindingCall b \<in> set (snd (snd (Reconcile_binding (observed x) name (w, []))))"
  obtains ds v where "fst (ra_ListDeployments x v) = Inr ds" "rb_RoleName b = SystemClusterRoleName (rv_Name pr)"
    "rb_Subjects b = subjects_of pr ds"
proof -
  obtain s1 where g: "quiet (ra_GetRevision x name) (w, []) = (Inr pr, s1 :: _ \<times> rbac_call list)"
    using assms(1) by (cases "ra_GetRevision x name w") (simp add: quiet_def)
  have s1: "snd s1 = []" using quiet_run(2) [OF g] by simp
  have live: "\<not> rv_Paused pr" "\<not> rv_Deleted pr"
    using assms(2) g s1 by (auto simp: Reconcile_binding_def split: if_splits)
  obtain r s2 where l: "quiet (ra_ListDeployments x) s1 = (r, s2)" using prod.exhaust by blast
  have s2: "snd s2 = []" using quiet_run(2) [OF l] s1 by simp
  obtain ds where ds: "r = Inr ds"
    using assms(2) g l s2 live by (cases r) (auto simp: Reconcile_binding_def)
  let ?b = "\<lparr>rb_Name = SystemClusterRoleName (rv_Name pr),
    rb_Owners = [\<lparr>ow_Kind = ''ProviderRevision'', ow_Name = rv_Name pr, ow_UID = rv_UID pr\<rparr>],
    rb_RoleKind = ''ClusterRole'', rb_RoleName = SystemClusterRoleName (rv_Name pr), rb_Subjects = subjects_of pr ds\<rparr>"
  obtain o' s3 where a: "noted (BindingCall ?b) (ra_ApplyBinding x ?b (rv_UID pr) bindings_differ) s2 = (o', s3)"
    using prod.exhaust by blast
  have "snd (snd (Reconcile_binding (observed x) name (w, []))) = [BindingCall ?b]"
    using g l live ds a noted_run(2) [OF a] s2
    by (simp add: Reconcile_binding_def Let_def split: apply_outcome.split)
  then have "b = ?b" using assms(2) by simp
  then show thesis using quiet_run(1) [OF l] ds by (intro that [of "fst s1" ds]) simp_all
qed

text \<open>
  C5: A service account is granted an access by the role and the binding the manager applies for a
  provider revision if and only if it runs a deployment the revision owns, and the access is to a
  resource defined by the revision or by a revision of its family in the same registry and
  organisation, or one every provider has.
\<close>

theorem provider_access_exact:
  assumes "\<forall>rs. set (ra_Sort x rs) = set rs" "\<forall>ms. listed_family x pr ms \<longrightarrow> plain (kin_resources x pr ms)"
    "fst (ra_GetRevision x name w) = Inr pr" "fst (ra_GetRevision x name v) = Inr pr"
    "RoleCall c \<in> set (snd (snd (Reconcile_roles (observed x) name (w, []))))"
    "cr_Name c = SystemClusterRoleName (rv_Name pr)"
    "BindingCall b \<in> set (snd (snd (Reconcile_binding (observed x) name (v, []))))"
  shows "\<exists>ms ds. listed_family x pr ms \<and> (\<exists>u. fst (ra_ListDeployments x u) = Inr ds) \<and>
    (\<forall>s a. well_formed a \<longrightarrow>
       (s \<in> set (rb_Subjects b) \<and> rb_RoleName b = cr_Name c \<and> role_grants c a \<longleftrightarrow>
        s \<in> account ` {d \<in> set ds. rv_UID pr \<in> set (dp_OwnerUIDs d)} \<and> permitted pr (kin_resources x pr ms) a))"
proof -
  obtain ms where ms: "listed_family x pr ms"
    "c \<in> set (RenderClusterRoles x pr (DefinedResources x (rv_ObjectRefs pr) @ family_resources x pr ms))"
    by (rule Reconcile_roles_from [OF assms(3,5)])
  obtain ds u where ds: "fst (ra_ListDeployments x u) = Inr ds" "rb_RoleName b = SystemClusterRoleName (rv_Name pr)"
    "rb_Subjects b = subjects_of pr ds"
    by (rule Reconcile_binding_from [OF assms(4,7)])
  have "role_grants c a \<longleftrightarrow> permitted pr (kin_resources x pr ms) a"
    if "well_formed a" for a
    using system_role_grants [OF ms(2) assms(6) assms(1) [rule_format] _ that] assms(2) ms(1)
    unfolding family_resources_set by blast
  with ms(1) ds show ?thesis by (intro exI [of _ ms] exI [of _ ds]) (auto simp: subjects_of_set assms(6))
qed

section \<open>A small family\<close>

text \<open>Providers \<open>s3\<close> and \<open>ec2\<close> of one organisation, and one that claims to be of their family.\<close>

definition crd :: "string \<Rightarrow> typed_reference" where
  "crd n = \<lparr>tr_APIVersion = ''apiextensions.k8s.io'', tr_Kind = ''CustomResourceDefinition'', tr_Name = n\<rparr>"

definition member :: "string \<Rightarrow> string \<Rightarrow> string \<Rightarrow> revision" where
  "member n package ref =
     \<lparr>rv_Name = n, rv_UID = n, rv_Labels = [(family_label, ''aws'')], rv_Package = package, rv_Paused = False,
      rv_Deleted = False, rv_Capabilities = [''SafeStart''], rv_ObjectRefs = [crd ref]\<rparr>"

definition s3 :: revision where "s3 = member ''s3'' ''org/s3'' ''buckets.s3.aws''"

definition family :: "revision list" where
  "family = [s3, member ''ec2'' ''org/ec2'' ''vpcs.ec2.aws'', member ''x'' ''evil/x'' ''secrets.x'']"

definition toy_rbac :: "unit rbac_api" where
  "toy_rbac =
     \<lparr>ra_Group = id, ra_Repository = (\<lambda>s. Inr (''registry'', s)), ra_Sort = id,
      ra_GetRevision = (\<lambda>n w. (Inr s3, w)), ra_ListRevisions = (\<lambda>f w. (Inr family, w)),
      ra_ListDeployments = (\<lambda>w. (Inr [\<lparr>dp_Namespace = ''system'', dp_ServiceAccountName = ''s3'', dp_OwnerUIDs = [''s3'']\<rparr>], w)),
      ra_GetXRD = (\<lambda>n w. (Inl NotFound, w)), ra_ApplyRole = (\<lambda>c u d w. (Applied, w)),
      ra_ApplyBinding = (\<lambda>b u d w. (NotAllowed, w))\<rparr>"

definition toy_binding :: role_binding where
  "toy_binding =
     \<lparr>rb_Name = SystemClusterRoleName ''s3'',
      rb_Owners = [\<lparr>ow_Kind = ''ProviderRevision'', ow_Name = ''s3'', ow_UID = ''s3''\<rparr>], rb_RoleKind = ''ClusterRole'',
      rb_RoleName = SystemClusterRoleName ''s3'',
      rb_Subjects = [\<lparr>su_Kind = ''ServiceAccount'', su_Namespace = ''system'', su_Name = ''s3''\<rparr>]\<rparr>"

lemma toy_rbac_fields [simp]:
  "ra_Group toy_rbac = id" "ra_Repository toy_rbac = (\<lambda>s. Inr (''registry'', s))" "ra_Sort toy_rbac = id"
  "ra_GetRevision toy_rbac n w = (Inr s3, w)" "ra_ListRevisions toy_rbac f w = (Inr family, w)"
  "ra_ListDeployments toy_rbac w =
     (Inr [\<lparr>dp_Namespace = ''system'', dp_ServiceAccountName = ''s3'', dp_OwnerUIDs = [''s3'']\<rparr>], w)"
  "ra_ApplyRole toy_rbac c u d w = (Applied, w)" "ra_ApplyBinding toy_rbac b u e w = (NotAllowed, w)"
  by (simp_all add: toy_rbac_def)

lemma s3_fields [simp]:
  "rv_Name s3 = ''s3''" "rv_UID s3 = ''s3''" "rv_Labels s3 = [(family_label, ''aws'')]" "rv_Package s3 = ''org/s3''"
  "\<not> rv_Paused s3" "\<not> rv_Deleted s3" "rv_ObjectRefs s3 = [crd ''buckets.s3.aws'']"
  by (simp_all add: s3_def member_def)

lemma toy_apply: "apply_roles (observed toy_rbac) uid crs ((), cs) = (Return None, (), cs @ map RoleCall crs)"
  by (induction crs arbitrary: cs) (simp_all add: noted_def)

definition toy_resources :: "resource list" where
  "toy_resources = [\<lparr>rs_Group = ''s3.aws'', rs_Plural = ''buckets''\<rparr>, \<lparr>rs_Group = ''ec2.aws'', rs_Plural = ''vpcs''\<rparr>]"

lemma toy_family: "DefinedResources toy_rbac [crd ''buckets.s3.aws''] @ family_resources toy_rbac s3 family = toy_resources"
  by (simp add: family_def member_def crd_def cut_dot_def Differs_def toy_resources_def)

definition toy_role :: cluster_role where
  "toy_role = last (RenderClusterRoles toy_rbac s3 toy_resources)"

lemma toy_roles_applied:
  "RoleCall toy_role \<in> set (snd (snd (Reconcile_roles (observed toy_rbac) ''s3'' ((), []))))"
  "cr_Name toy_role = SystemClusterRoleName (rv_Name s3)"
proof -
  have "Reconcile_roles (observed toy_rbac) ''s3'' ((), []) =
      apply_roles (observed toy_rbac) ''s3'' (RenderClusterRoles toy_rbac s3 toy_resources) ((), [])"
    unfolding toy_family [symmetric] by (simp add: Reconcile_roles_def Let_def quiet_def)
  moreover have "RenderClusterRoles toy_rbac s3 toy_resources \<noteq> []"
    by (simp add: RenderClusterRoles_def Let_def split_beta toy_resources_def)
  ultimately show "RoleCall toy_role \<in> set (snd (snd (Reconcile_roles (observed toy_rbac) ''s3'' ((), []))))"
    by (simp add: toy_apply toy_role_def)
  show "cr_Name toy_role = SystemClusterRoleName (rv_Name s3)"
    by (simp add: toy_role_def RenderClusterRoles_def Let_def split_beta toy_resources_def)
qed

lemma toy_binding_applied:
  "BindingCall toy_binding \<in> set (snd (snd (Reconcile_binding (observed toy_rbac) ''s3'' ((), []))))"
  by (simp add: Reconcile_binding_def Let_def quiet_def noted_def toy_binding_def subjects_of_def)

theorem provider_access_exact_witness:
  "\<exists>ms ds. listed_family toy_rbac s3 ms \<and> (\<exists>u. fst (ra_ListDeployments toy_rbac u) = Inr ds) \<and>
    (\<forall>s a. well_formed a \<longrightarrow>
       (s \<in> set (rb_Subjects toy_binding) \<and> rb_RoleName toy_binding = cr_Name toy_role \<and> role_grants toy_role a \<longleftrightarrow>
        s \<in> account ` {d \<in> set ds. rv_UID s3 \<in> set (dp_OwnerUIDs d)} \<and> permitted s3 (kin_resources toy_rbac s3 ms) a))"
proof -
  have "plain (kin_resources toy_rbac s3 ms)" if "listed_family toy_rbac s3 ms" for ms
  proof -
    have "ms = family" using that by (simp add: listed_family_def)
    then have "kin_resources toy_rbac s3 ms = set toy_resources"
      using family_resources_set [of toy_rbac s3 ms, unfolded s3_fields] toy_family by metis
    then show ?thesis by (simp add: plain_def toy_resources_def)
  qed
  then show ?thesis
    by (intro provider_access_exact [OF _ _ _ _ toy_roles_applied toy_binding_applied]) simp_all
qed

definition toy_rules :: "policy_rule list" where
  "toy_rules = [rule_on [''get''] [[]] [''secrets''], rule_on [''*''] [''apps''] [''deployments'', ''pods'']]"

theorem rule_tree_exact_witness:
  "\<not> Allowed (fold (\<lambda>r n. Allow n (path r)) (granular toy_rules) newNode) (path (resource_rule [] ''secrets'' ''s'' ''update'')) \<and>
   Allowed (fold (\<lambda>r n. Allow n (path r)) (granular toy_rules) newNode) (path (resource_rule ''apps'' ''pods'' ''p'' ''update''))"
proof -
  have e: "Expand (\<lambda>k. False) toy_rules = Inr (granular toy_rules)"
    by (simp add: Expand_def Let_def list_ex_iff)
  have u: "\<forall>p \<in> set toy_rules. [] \<notin> set (pr_NonResourceURLs p)" by (simp add: toy_rules_def rule_on_def)
  show ?thesis
    unfolding rule_tree_exact [OF e u]
    by (simp add: toy_rules_def rule_on_def policy_covers_def resource_rule_def wild_def)
qed

end
