(* ===== verification/Usage.thy ===== *)
theory Usage
  imports ApiServer Conditions
begin

text \<open>
  The protection of resources that are in use, in Crossplane: the finder of usages
  (\<^verbatim>\<open>internal/protection/usage/finder.go\<close>), the webhook that denies deletions
  (\<^verbatim>\<open>internal/webhook/protection/usage/handler.go\<close>) and the controller that labels what is used and
  resolves selectors (\<^verbatim>\<open>internal/controller/protection/usage\<close>). Usages exist in three kinds behind
  one interface (\<^verbatim>\<open>internal/protection/wrappers.go\<close>). The API server is a parameter.
\<close>

section \<open>Usages and objects\<close>

datatype usage_kind = NamespacedUsage | ClusterUsage | LegacyUsage

record resource_ref =
  rr_Name :: string
  rr_Namespace :: "string option"

record resource_selector =
  sl_MatchLabels :: "(string, string) gomap"
  sl_MatchControllerRef :: "bool option"
  sl_Namespace :: "string option"

record usage_resource =
  ur_APIVersion :: string
  ur_Kind :: string
  ur_ResourceRef :: "resource_ref option"
  ur_ResourceSelector :: "resource_selector option"

record usage =
  ug_Kind :: usage_kind
  ug_Namespace :: string
  ug_Name :: string
  ug_UID :: string
  ug_Of :: usage_resource
  ug_By :: "usage_resource option"
  ug_Reason :: "string option"
  ug_ReplayDeletion :: "bool option"
  ug_Deleted :: bool
  ug_Labels :: "(string, string) gomap"
  ug_Annotations :: "(string, string) gomap"
  ug_OwnerUIDs :: "string list"
  ug_Finalizers :: "string list"
  ug_Conditions :: "condition list"

record object_key =
  ok_APIVersion :: string
  ok_Kind :: string
  ok_Namespace :: string
  ok_Name :: string

record object =
  ob_Key :: object_key
  ob_UID :: string
  ob_OwnerUIDs :: "string list"
  ob_Labels :: "(string, string) gomap"
  ob_Annotations :: "(string, string) gomap"

record 'w usage_api =
  ua_ParseGroupVersion :: "string \<Rightarrow> string res"
  ua_composed_label :: string
  ua_SameController :: "object \<Rightarrow> usage \<Rightarrow> bool"
  ua_MarkConditions :: "condition \<Rightarrow> usage \<Rightarrow> usage"
  ua_GetUsage :: "usage_kind \<Rightarrow> string \<Rightarrow> string \<Rightarrow> 'w \<Rightarrow> (api_error + usage) \<times> 'w"
  ua_UpdateUsage :: "usage \<Rightarrow> 'w \<Rightarrow> (api_error + usage) \<times> 'w"
  ua_AddFinalizer :: "usage \<Rightarrow> 'w \<Rightarrow> (api_error + usage) \<times> 'w"
  ua_RemoveFinalizer :: "usage \<Rightarrow> 'w \<Rightarrow> (api_error + usage) \<times> 'w"
  ua_UpdateStatus :: "usage \<Rightarrow> 'w \<Rightarrow> api_error option \<times> 'w"
  ua_ListUsages :: "usage_kind \<Rightarrow> string \<Rightarrow> 'w \<Rightarrow> (api_error + usage list) \<times> 'w"
  ua_GetObject :: "object_key \<Rightarrow> 'w \<Rightarrow> (api_error + object) \<times> 'w"
  ua_UpdateObject :: "object \<Rightarrow> 'w \<Rightarrow> (api_error + object) \<times> 'w"
  ua_PatchObject :: "object \<Rightarrow> 'w \<Rightarrow> api_error option \<times> 'w"
  ua_ListObjects ::
    "string \<Rightarrow> string \<Rightarrow> (string, string) gomap \<Rightarrow> string \<Rightarrow> 'w \<Rightarrow> (api_error + object list) \<times> 'w"
  ua_DeleteLater :: "object_key \<Rightarrow> string \<Rightarrow> 'w \<Rightarrow> 'w"

section \<open>The wrappers\<close>

text \<open>Only the reference and selector of a namespaced usage's \<^verbatim>\<open>of\<close> hold a namespace.\<close>

definition cluster_resource :: "usage_resource \<Rightarrow> usage_resource" where
  "cluster_resource r =
     r\<lparr>ur_ResourceRef := map_option (\<lambda>x. x\<lparr>rr_Namespace := None\<rparr>) (ur_ResourceRef r),
       ur_ResourceSelector := map_option (\<lambda>x. x\<lparr>sl_Namespace := None\<rparr>) (ur_ResourceSelector r)\<rparr>"

definition GetUserOf :: "usage \<Rightarrow> usage_resource" where
  "GetUserOf u = (if ug_Kind u = NamespacedUsage then ug_Of u else cluster_resource (ug_Of u))"

definition SetUserOf :: "usage_resource \<Rightarrow> usage \<Rightarrow> usage" where
  "SetUserOf r u = u\<lparr>ug_Of := (if ug_Kind u = NamespacedUsage then r else cluster_resource r)\<rparr>"

definition GetUsedBy :: "usage \<Rightarrow> usage_resource option" where
  "GetUsedBy u = map_option cluster_resource (ug_By u)"

definition SetUsedBy :: "usage_resource option \<Rightarrow> usage \<Rightarrow> usage" where
  "SetUsedBy r u = u\<lparr>ug_By := map_option cluster_resource r\<rparr>"

section \<open>The finder\<close>

definition indexVal :: "'w usage_api \<Rightarrow> string \<Rightarrow> string \<Rightarrow> string \<Rightarrow> string \<Rightarrow> string" where
  "indexVal x apiVersion kind name namespace =
     (case ua_ParseGroupVersion x apiVersion of Inl _ \<Rightarrow> [] | Inr g \<Rightarrow> g) @ ''/'' @ kind @ ''/'' @ name @ ''/'' @ namespace"

text \<open>The three functions \<^verbatim>\<open>NewFinder\<close> registers with the field indexer.\<close>

definition index_usage :: "'w usage_api \<Rightarrow> usage \<Rightarrow> string list" where
  "index_usage x u =
     (case ur_ResourceRef (ug_Of u) of
        None \<Rightarrow> []
      | Some ref \<Rightarrow>
          if rr_Name ref = [] then []
          else [indexVal x (ur_APIVersion (ug_Of u)) (ur_Kind (ug_Of u)) (rr_Name ref)
                  (if ug_Kind u = NamespacedUsage
                   then (case rr_Namespace ref of None \<Rightarrow> ug_Namespace u | Some ns \<Rightarrow> ns) else [])])"

definition FindUsageOf :: "'w usage_api \<Rightarrow> object_key \<Rightarrow> 'w \<Rightarrow> usage list res \<times> 'w" where
  "FindUsageOf x o' w =
     (let key = indexVal x (ok_APIVersion o') (ok_Kind o') (ok_Name o') in
      case ua_ListUsages x NamespacedUsage (key (ok_Namespace o')) w of
        (Inl e, w1) \<Rightarrow> (Inl (Wrap (api_text e) ''cannot list Usage''), w1)
      | (Inr us, w1) \<Rightarrow>
          (case ua_ListUsages x ClusterUsage (key []) w1 of
             (Inl e, w2) \<Rightarrow> (Inl (Wrap (api_text e) ''cannot list ClusterUsage''), w2)
           | (Inr cus, w2) \<Rightarrow>
               (case ua_ListUsages x LegacyUsage (key []) w2 of
                  (Inl e, w3) \<Rightarrow> (Inl (Wrap (api_text e) ''cannot list legacy Usage''), w3)
                | (Inr lus, w3) \<Rightarrow> (Inr (us @ cus @ lus), w3))))"

section \<open>The webhook\<close>

text \<open>A read of a map of strings.\<close>

definition value_of :: "(string, string) gomap \<Rightarrow> string \<Rightarrow> string" where
  "value_of m k = (case map_of m k of None \<Rightarrow> [] | Some v \<Rightarrow> v)"

datatype operation = CreateOp | UpdateOp | ConnectOp | DeleteOp | OtherOp

record request =
  rq_Operation :: operation
  rq_OldObject :: "object res"
  rq_Options :: "string option res"

datatype response = Errored nat go_error | Allowed_response | Denied nat go_error | Panic

definition deletion_attempt :: string where
  "deletion_attempt = ''usage.crossplane.io/deletion-attempt-with-policy''"

text \<open>\<open>None\<close> is the panic on a using resource whose selector is not resolved.\<close>

definition inUseMessage :: "usage list \<Rightarrow> go_error option" where
  "inUseMessage us =
     (let first = hd us;
          ident = (if ug_Namespace first \<noteq> [] then [ug_Name first, ug_Namespace first] else [ug_Name first]);
          n = itoa (int (length us)) in
      case GetUsedBy first of
        Some by \<Rightarrow>
          (case ur_ResourceRef by of
             None \<Rightarrow> None
           | Some ref \<Rightarrow>
               Some (Errorf ''This resource is in-use by %d usage(s), including the %T %s by resource %s/%s.''
                 (n # ident @ [ur_Kind by, rr_Name ref])))
      | None \<Rightarrow>
          (let r = (case ug_Reason first of None \<Rightarrow> [] | Some r \<Rightarrow> r) in
           if r \<noteq> []
           then Some (Errorf ''This resource is in-use by %d usage(s), including the %T %s with reason: %q.'' (n # ident @ [r]))
           else Some (Errorf ''This resource is in-use by %d usage(s), including the %T %s.'' (n # ident))))"

definition unexpected_operation :: response where
  "unexpected_operation = Errored 400 (Errorf ''unexpected operation %q, expected %q'' [''DELETE''])"

definition deny :: "go_error \<Rightarrow> response" where
  "deny msg = Denied 409 msg"

definition Handle :: "'w usage_api \<Rightarrow> request \<Rightarrow> 'w \<Rightarrow> response \<times> 'w" where
  "Handle x r w =
     (case rq_Operation r of
        DeleteOp \<Rightarrow>
          (case rq_OldObject r of
             Inl e \<Rightarrow> (Errored 400 e, w)
           | Inr u \<Rightarrow>
               (case rq_Options r of
                  Inl e \<Rightarrow> (Errored 400 e, w)
                | Inr policy \<Rightarrow>
                    (case FindUsageOf x (ob_Key u) w of
                       (Inl e, w1) \<Rightarrow> (Errored 500 e, w1)
                     | (Inr us, w1) \<Rightarrow>
                         if length us = 0 then (Allowed_response, w1)
                         else
                           (case inUseMessage us of
                              None \<Rightarrow> (Panic, w1)
                            | Some msg \<Rightarrow>
                                (let p = (case policy of None \<Rightarrow> ''Background'' | Some p \<Rightarrow> p) in
                                 if ob_Annotations u = [] \<or> value_of (ob_Annotations u) deletion_attempt \<noteq> p then
                                   (case ua_PatchObject x
                                           (u\<lparr>ob_Annotations := put deletion_attempt p (ob_Annotations u)\<rparr>) w1 of
                                      (Some e, w2) \<Rightarrow> (Errored 500 (api_text e), w2)
                                    | (None, w2) \<Rightarrow> (deny msg, w2))
                                 else (deny msg, w1))))))
      | _ \<Rightarrow> (unexpected_operation, w))"

section \<open>Selectors\<close>

definition controllersMustMatch :: "resource_selector option \<Rightarrow> bool" where
  "controllersMustMatch s =
     (case s of None \<Rightarrow> False | Some s \<Rightarrow> sl_MatchControllerRef s \<noteq> None \<and> the (sl_MatchControllerRef s))"

fun select_object :: "'w usage_api \<Rightarrow> resource_selector \<Rightarrow> usage \<Rightarrow> object list \<Rightarrow> resource_ref option" where
  "select_object x sel u [] = None"
| "select_object x sel u (o' # os) =
     (if controllersMustMatch (Some sel) \<and> \<not> ua_SameController x o' u then select_object x sel u os
      else Some \<lparr>rr_Name = ok_Name (ob_Key o'),
                 rr_Namespace =
                   (if ok_Namespace (ob_Key o') \<noteq> ug_Namespace u then Some (ok_Namespace (ob_Key o')) else None)\<rparr>)"

text \<open>
  A reference with an empty name stays when no object has the same controller: \<^verbatim>\<open>ResourceRef\<close> is only
  tested for nil after the loop.
\<close>

definition resolveSelector ::
  "'w usage_api \<Rightarrow> usage_resource \<Rightarrow> usage \<Rightarrow> 'w \<Rightarrow> usage_resource res \<times> 'w" where
  "resolveSelector x rs u w =
     (case ur_ResourceSelector rs of
        None \<Rightarrow> (Inl (Errorf ''no selector defined for resolving'' []), w)
      | Some sel \<Rightarrow>
          (let ns = (case sl_Namespace sel of None \<Rightarrow> ug_Namespace u | Some ns \<Rightarrow> ns) in
           case ua_ListObjects x (ur_APIVersion rs) (ur_Kind rs) (sl_MatchLabels sel) ns w of
             (Inl e, w1) \<Rightarrow> (Inl (Wrap (api_text e) ''cannot list resources matching labels''), w1)
           | (Inr os, w1) \<Rightarrow>
               if length os = 0 then (Inl (Errorf ''no %q found matching labels: %q'' [ur_Kind rs]), w1)
               else
                 (let rs' = (case select_object x sel u os of
                               None \<Rightarrow> rs | Some ref \<Rightarrow> rs\<lparr>ur_ResourceRef := Some ref\<rparr>)
                  in if ur_ResourceRef rs' = None
                     then (Inl (Errorf ''no %q found matching labels: %q and with same controller reference''
                                  [ur_Kind rs]), w1)
                     else (Inr rs', w1))))"

definition unresolved :: "usage_resource \<Rightarrow> bool" where
  "unresolved rs \<longleftrightarrow> (case ur_ResourceRef rs of None \<Rightarrow> True | Some ref \<Rightarrow> rr_Name ref = [])"

definition update_resolved :: "'w usage_api \<Rightarrow> usage \<Rightarrow> 'w \<Rightarrow> usage res \<times> 'w" where
  "update_resolved x u w =
     (case ua_UpdateUsage x u w of
        (Inl e, w1) \<Rightarrow> (Inl (Wrap (api_text e) ''cannot update usage after resolving selector''), w1)
      | (Inr u1, w1) \<Rightarrow> (Inr u1, w1))"

definition ResolveSelectors :: "'w usage_api \<Rightarrow> usage \<Rightarrow> 'w \<Rightarrow> usage res \<times> 'w" where
  "ResolveSelectors x u w =
     (let used = GetUserOf u; using_by = GetUsedBy u in
      case (if unresolved used
            then (case resolveSelector x used u w of
                    (Inl e, w1) \<Rightarrow> (Inl (Wrap e ''cannot resolve selector at spec.of.resourceSelector''), w1)
                  | (Inr used', w1) \<Rightarrow> update_resolved x (SetUserOf used' u) w1)
            else (Inr u, w)) of
        (Inl e, w1) \<Rightarrow> (Inl e, w1)
      | (Inr u1, w1) \<Rightarrow>
          (case using_by of
             None \<Rightarrow> (Inr u1, w1)
           | Some by \<Rightarrow>
               if unresolved by
               then (case resolveSelector x by u1 w1 of
                       (Inl e, w2) \<Rightarrow> (Inl (Wrap e ''cannot resolve selector at spec.by.resourceSelector''), w2)
                     | (Inr by', w2) \<Rightarrow> update_resolved x (SetUsedBy (Some by') u1) w2)
               else (Inr u1, w1)))"

section \<open>The controller\<close>

datatype outcome = Done "go_error option" | Again | After int "go_error option" | Crashed

definition inUseLabelKey :: string where "inUseLabelKey = ''crossplane.io/in-use''"
definition detailsAnnotationKey :: string where "detailsAnnotationKey = ''crossplane.io/usage-details''"
definition waitPollInterval :: int where "waitPollInterval = 30 * 10 ^ 9"

text \<open>The reason, or the text of \<^verbatim>\<open>detailsAnnotation\<close>; \<open>None\<close> is the panic on a missing reference.\<close>

definition detailsAnnotation :: "usage \<Rightarrow> string option" where
  "detailsAnnotation u =
     (let r = (case ug_Reason u of None \<Rightarrow> [] | Some r \<Rightarrow> r); used = GetUserOf u in
      if r \<noteq> [] then Some r
      else
        (case GetUsedBy u of
           None \<Rightarrow> Some ''undefined''
         | Some by \<Rightarrow>
             (case (ur_ResourceRef used, ur_ResourceRef by) of
                (Some o', Some b) \<Rightarrow>
                  (let ns = (case rr_Namespace o' of None \<Rightarrow> [] | Some ns \<Rightarrow> ns);
                       text = ur_Kind by @ ''/'' @ rr_Name b @ '' uses '' @ ur_Kind used @ ''/'' @ rr_Name o'
                   in Some (if ns \<noteq> [] then text @ '' in namespace '' @ ns else text))
              | _ \<Rightarrow> None)))"

text \<open>Failures: a conflict is tried again, another error is returned.\<close>

definition on_error :: "api_error \<Rightarrow> string \<Rightarrow> outcome" where
  "on_error e msg = (if e = Conflict then Again else Done (Some (Wrap (api_text e) msg)))"

text \<open>
  The key of the used object. A usage whose selector was resolved just now is still looked at as it
  was before, so that the reference may be missing.
\<close>

definition used_key :: "usage_resource \<Rightarrow> usage \<Rightarrow> object_key option" where
  "used_key used u =
     (case ur_ResourceRef used of
        None \<Rightarrow> None
      | Some ref \<Rightarrow>
          Some \<lparr>ok_APIVersion = ur_APIVersion used, ok_Kind = ur_Kind used,
                ok_Namespace = (case rr_Namespace ref of None \<Rightarrow> ug_Namespace u | Some ns \<Rightarrow> ns),
                ok_Name = rr_Name ref\<rparr>)"

definition using_key :: "usage_resource \<Rightarrow> usage \<Rightarrow> object_key option" where
  "using_key by u =
     (case ur_ResourceRef by of
        None \<Rightarrow> None
      | Some ref \<Rightarrow>
          Some \<lparr>ok_APIVersion = ur_APIVersion by, ok_Kind = ur_Kind by, ok_Namespace = ug_Namespace u,
                ok_Name = rr_Name ref\<rparr>)"

text \<open>The end of a deletion: the replay, and the finalizer.\<close>

definition replay ::
  "'w usage_api \<Rightarrow> usage \<Rightarrow> object_key \<Rightarrow> (string, string) gomap \<Rightarrow> 'w \<Rightarrow> 'w" where
  "replay x u k annotations w =
     (if (case ug_ReplayDeletion u of None \<Rightarrow> False | Some b \<Rightarrow> b)
      then (case map_of annotations deletion_attempt of
              Some policy \<Rightarrow> ua_DeleteLater x k policy w
            | None \<Rightarrow> w)
      else w)"

definition remove_finalizer ::
  "'w usage_api \<Rightarrow> usage \<Rightarrow> object_key \<Rightarrow> (string, string) gomap \<Rightarrow> 'w \<Rightarrow> outcome \<times> 'w" where
  "remove_finalizer x u k annotations w =
     (case ua_RemoveFinalizer x u (replay x u k annotations w) of
        (Inl e, w1) \<Rightarrow> (on_error e ''cannot remove finalizer'', w1)
      | (Inr _, w1) \<Rightarrow> (Done None, w1))"

definition release_used :: "'w usage_api \<Rightarrow> usage \<Rightarrow> object_key \<Rightarrow> 'w \<Rightarrow> outcome \<times> 'w" where
  "release_used x u k w =
     (case ua_GetObject x k w of
        (Inl e, w1) \<Rightarrow>
          if e = NotFound then remove_finalizer x u k [] w1
          else (Done (Some (Wrap (api_text e) ''cannot get used'')), w1)
      | (Inr used, w1) \<Rightarrow>
          (case FindUsageOf x (ob_Key used) w1 of
             (Inl e, w2) \<Rightarrow> (Done (Some (Wrap e ''cannot find usages'')), w2)
           | (Inr us, w2) \<Rightarrow>
               if length us < 2 then
                 (case ua_UpdateObject x (used\<lparr>ob_Labels := del inUseLabelKey (ob_Labels used)\<rparr>) w2 of
                    (Inl e, w3) \<Rightarrow> (on_error e ''cannot remove in use label from the used resource'', w3)
                  | (Inr used', w3) \<Rightarrow> remove_finalizer x u k (ob_Annotations used') w3)
               else remove_finalizer x u k (ob_Annotations used) w2))"

definition reconcile_deleted ::
  "'w usage_api \<Rightarrow> usage \<Rightarrow> usage_resource option \<Rightarrow> object_key \<Rightarrow> 'w \<Rightarrow> outcome \<times> 'w" where
  "reconcile_deleted x u by k w =
     (case by of
        None \<Rightarrow> release_used x u k w
      | Some by \<Rightarrow>
          if value_of (ug_Labels u) (ua_composed_label x) = [] then release_used x u k w
          else
            (case using_key by u of
               None \<Rightarrow> (Crashed, w)
             | Some b \<Rightarrow>
                 (case ua_GetObject x b w of
                    (Inl e, w1) \<Rightarrow>
                      if e = NotFound then release_used x u k w1
                      else (Done (Some (Wrap (api_text e) ''cannot get using'')), w1)
                  | (Inr _, w1) \<Rightarrow> (After waitPollInterval None, w1))))"

definition finish_usage :: "'w usage_api \<Rightarrow> go_time \<Rightarrow> int \<Rightarrow> usage \<Rightarrow> usage \<Rightarrow> 'w \<Rightarrow> outcome \<times> 'w" where
  "finish_usage x now poll orig u w =
     (let u1 = ua_MarkConditions x (Available now) u in
      if u1 \<noteq> orig
      then (case ua_UpdateStatus x u1 w of
              (Some e, w1) \<Rightarrow> (After poll (Some (Wrap (api_text e) ''cannot update status of usage'')), w1)
            | (None, w1) \<Rightarrow> (After poll None, w1))
      else (After poll None, w))"

definition own_by_using ::
  "'w usage_api \<Rightarrow> go_time \<Rightarrow> int \<Rightarrow> usage \<Rightarrow> usage \<Rightarrow> usage_resource option \<Rightarrow> 'w \<Rightarrow> outcome \<times> 'w" where
  "own_by_using x now poll orig u by w =
     (case by of
        None \<Rightarrow> finish_usage x now poll orig u w
      | Some by \<Rightarrow>
          (case using_key by u of
             None \<Rightarrow> (Crashed, w)
           | Some b \<Rightarrow>
               (case ua_GetObject x b w of
                  (Inl e, w1) \<Rightarrow> (Done (Some (Wrap (api_text e) ''cannot get using'')), w1)
                | (Inr using', w1) \<Rightarrow>
                    if ob_UID using' \<in> set (ug_OwnerUIDs u) then finish_usage x now poll orig u w1
                    else
                      (case ua_UpdateUsage x (u\<lparr>ug_OwnerUIDs := ug_OwnerUIDs u @ [ob_UID using']\<rparr>) w1 of
                         (Inl e, w2) \<Rightarrow> (on_error e ''cannot update usage resource with owner ref'', w2)
                       | (Inr u1, w2) \<Rightarrow> finish_usage x now poll orig u1 w2))))"

definition label_used ::
  "'w usage_api \<Rightarrow> go_time \<Rightarrow> int \<Rightarrow> usage \<Rightarrow> usage \<Rightarrow> usage_resource option \<Rightarrow> object_key \<Rightarrow> 'w \<Rightarrow>
     outcome \<times> 'w" where
  "label_used x now poll orig u by k w =
     (case ua_GetObject x k w of
        (Inl e, w1) \<Rightarrow> (Done (Some (Wrap (api_text e) ''cannot get used'')), w1)
      | (Inr used, w1) \<Rightarrow>
          if value_of (ob_Labels used) inUseLabelKey \<noteq> ''true'' \<or> ug_UID u \<notin> set (ob_OwnerUIDs used)
          then
            (case ua_UpdateObject x (used\<lparr>ob_Labels := put inUseLabelKey ''true'' (ob_Labels used)\<rparr>) w1 of
               (Inl e, w2) \<Rightarrow> (on_error e ''cannot add in use label to the used resource'', w2)
             | (Inr _, w2) \<Rightarrow> own_by_using x now poll orig u by w2)
          else own_by_using x now poll orig u by w1)"

definition annotate_usage ::
  "'w usage_api \<Rightarrow> go_time \<Rightarrow> int \<Rightarrow> usage \<Rightarrow> usage \<Rightarrow> usage_resource option \<Rightarrow> object_key \<Rightarrow> 'w \<Rightarrow>
     outcome \<times> 'w" where
  "annotate_usage x now poll orig u by k w =
     (case detailsAnnotation u of
        None \<Rightarrow> (Crashed, w)
      | Some d \<Rightarrow>
          if value_of (ug_Annotations u) detailsAnnotationKey \<noteq> d
          then
            (case ua_UpdateUsage x (u\<lparr>ug_Annotations := put detailsAnnotationKey d (ug_Annotations u)\<rparr>) w of
               (Inl e, w1) \<Rightarrow> (on_error e ''cannot update usage resource with details annotation'', w1)
             | (Inr u1, w1) \<Rightarrow> label_used x now poll orig u1 by k w1)
          else label_used x now poll orig u by k w)"

text \<open>
  A reconcile, call by call on the server's state; nothing else happens between its calls here.
\<close>

definition Reconcile_usage ::
  "'w usage_api \<Rightarrow> usage_kind \<Rightarrow> int \<Rightarrow> go_time \<Rightarrow> string \<Rightarrow> string \<Rightarrow> 'w \<Rightarrow> outcome \<times> 'w" where
  "Reconcile_usage x kind poll now namespace name w =
     (case ua_GetUsage x kind namespace name w of
        (Inl e, w1) \<Rightarrow> (Done (if e = NotFound then None else Some (Wrap (api_text e) ''cannot get usage'')), w1)
      | (Inr u0, w1) \<Rightarrow>
          (case ua_ParseGroupVersion x (ur_APIVersion (GetUserOf u0)) of
             Inl e \<Rightarrow> (Done (Some (Wrap e ''cannot parse APIVersion'')), w1)
           | Inr _ \<Rightarrow>
               (case ResolveSelectors x u0 w1 of
                  (Inl e, w2) \<Rightarrow> (Done (Some (Wrap e ''cannot resolve selectors'')), w2)
                | (Inr u, w2) \<Rightarrow>
                    (case used_key (GetUserOf u0) u of
                       None \<Rightarrow> (Crashed, w2)
                     | Some k \<Rightarrow>
                         if ug_Deleted u then reconcile_deleted x u (GetUsedBy u0) k w2
                         else
                           (case ua_AddFinalizer x u w2 of
                              (Inl e, w3) \<Rightarrow> (on_error e ''cannot add finalizer'', w3)
                            | (Inr u1, w3) \<Rightarrow> annotate_usage x now poll u0 u1 (GetUsedBy u0) k w3)))))"

end
