(* ===== verification/UsageServer.thy ===== *)
theory UsageServer
  imports Usage
begin

text \<open>
  A server for the protection of usages: it keeps usages and objects, and each call may fail instead
  of having its effect. It is live and has no versions of its objects: the finder lists the usages as
  they are, where the code lists them through a cache that may lag, and an update overwrites what is
  there, where a real server refuses it with a conflict (here a fault) when the object has changed
  since it was read. An object is read under the namespace its reference gives. What a ready usage keeps (\<open>keeps\<close>), and that the single calls
  preserve it.
\<close>

section \<open>A server\<close>

record server =
  sv_Usages :: "usage list"
  sv_Objects :: "object list"
  sv_Pending :: "(object_key \<times> string) list"
  sv_Faults :: "api_error option list"

text \<open>What the server leaves open: versions of API groups, labels, owners, and conditions.\<close>

record params =
  pa_Parse :: "string \<Rightarrow> string res"
  pa_Composed :: string
  pa_SameController :: "object \<Rightarrow> usage \<Rightarrow> bool"
  pa_Mark :: "condition \<Rightarrow> condition list \<Rightarrow> condition list"

definition finalizer_name :: string where "finalizer_name = ''usage.apiextensions.crossplane.io''"

text \<open>A call: the next fault, if one is due, or the effect.\<close>

definition call :: "(server \<Rightarrow> (api_error + 'a) \<times> server) \<Rightarrow> server \<Rightarrow> (api_error + 'a) \<times> server" where
  "call f s =
     (case sv_Faults s of
        Some e # fs \<Rightarrow> (Inl e, s\<lparr>sv_Faults := fs\<rparr>)
      | _ \<Rightarrow> f (s\<lparr>sv_Faults := tl (sv_Faults s)\<rparr>))"

definition usage_id :: "usage \<Rightarrow> usage_kind \<times> string \<times> string" where
  "usage_id u = (ug_Kind u, ug_Namespace u, ug_Name u)"

definition same_object :: "params \<Rightarrow> object_key \<Rightarrow> object_key \<Rightarrow> bool" where
  "same_object pa k l \<longleftrightarrow>
     pa_Parse pa (ok_APIVersion k) = pa_Parse pa (ok_APIVersion l) \<and> is_ok (pa_Parse pa (ok_APIVersion k)) \<and>
     ok_Kind k = ok_Kind l \<and> ok_Namespace k = ok_Namespace l \<and> ok_Name k = ok_Name l"

definition swap :: "usage \<Rightarrow> server \<Rightarrow> server" where
  "swap u s = s\<lparr>sv_Usages := map (\<lambda>v. if usage_id v = usage_id u then u else v) (sv_Usages s)\<rparr>"

definition swap_object :: "params \<Rightarrow> object \<Rightarrow> server \<Rightarrow> server" where
  "swap_object pa o' s =
     s\<lparr>sv_Objects := map (\<lambda>p. if same_object pa (ob_Key p) (ob_Key o') then o' else p) (sv_Objects s)\<rparr>"

definition put_usage :: "usage \<Rightarrow> server \<Rightarrow> (api_error + usage) \<times> server" where
  "put_usage u s = (if usage_id u \<in> usage_id ` set (sv_Usages s) then (Inr u, swap u s) else (Inl NotFound, s))"

definition put_object :: "params \<Rightarrow> object \<Rightarrow> server \<Rightarrow> (api_error + object) \<times> server" where
  "put_object pa o' s =
     (if list_ex (\<lambda>p. same_object pa (ob_Key p) (ob_Key o')) (sv_Objects s)
      then (Inr o', swap_object pa o' s) else (Inl NotFound, s))"

definition drop_finalizer :: "usage \<Rightarrow> server \<Rightarrow> (api_error + usage) \<times> server" where
  "drop_finalizer u s =
     (let u1 = u\<lparr>ug_Finalizers := filter (\<lambda>f. f \<noteq> finalizer_name) (ug_Finalizers u)\<rparr> in
      if ug_Deleted u \<and> ug_Finalizers u1 = []
      then (Inr u1, s\<lparr>sv_Usages := filter (\<lambda>v. usage_id v \<noteq> usage_id u) (sv_Usages s)\<rparr>)
      else put_usage u1 s)"

definition found :: "'a option \<Rightarrow> api_error + 'a" where
  "found r = (case r of None \<Rightarrow> Inl NotFound | Some a \<Rightarrow> Inr a)"

definition error_of :: "(api_error + 'a) \<times> server \<Rightarrow> api_error option \<times> server" where
  "error_of r = ((case fst r of Inl e \<Rightarrow> Some e | Inr _ \<Rightarrow> None), snd r)"

definition index_of :: "params \<Rightarrow> usage \<Rightarrow> string list" where
  "index_of pa u =
     (case ur_ResourceRef (ug_Of u) of
        None \<Rightarrow> []
      | Some ref \<Rightarrow>
          if rr_Name ref = [] then []
          else [(case pa_Parse pa (ur_APIVersion (ug_Of u)) of Inl _ \<Rightarrow> [] | Inr g \<Rightarrow> g) @ ''/'' @ ur_Kind (ug_Of u) @
                  ''/'' @ rr_Name ref @ ''/'' @
                  (if ug_Kind u = NamespacedUsage
                   then (case rr_Namespace ref of None \<Rightarrow> ug_Namespace u | Some ns \<Rightarrow> ns) else [])])"

definition serve :: "params \<Rightarrow> server usage_api" where
  "serve pa =
     \<lparr>ua_ParseGroupVersion = pa_Parse pa, ua_composed_label = pa_Composed pa, ua_SameController = pa_SameController pa,
      ua_MarkConditions = (\<lambda>c u. u\<lparr>ug_Conditions := pa_Mark pa c (ug_Conditions u)\<rparr>),
      ua_GetUsage = (\<lambda>k ns n. call (\<lambda>s. (found (find (\<lambda>u. usage_id u = (k, ns, n)) (sv_Usages s)), s))),
      ua_UpdateUsage = (\<lambda>u. call (put_usage u)),
      ua_AddFinalizer =
        (\<lambda>u. if finalizer_name \<in> set (ug_Finalizers u) then Pair (Inr u)
             else call (put_usage (u\<lparr>ug_Finalizers := ug_Finalizers u @ [finalizer_name]\<rparr>))),
      ua_RemoveFinalizer = (\<lambda>u. call (drop_finalizer u)),
      ua_UpdateStatus = (\<lambda>u s. error_of (call (put_usage u) s)),
      ua_ListUsages = (\<lambda>k val. call (\<lambda>s. (Inr (filter (\<lambda>u. ug_Kind u = k \<and> val \<in> set (index_of pa u)) (sv_Usages s)), s))),
      ua_GetObject = (\<lambda>k. call (\<lambda>s. (found (find (\<lambda>p. same_object pa (ob_Key p) k) (sv_Objects s)), s))),
      ua_UpdateObject = (\<lambda>o'. call (put_object pa o')),
      ua_PatchObject = (\<lambda>o' s. error_of (call (put_object pa o') s)),
      ua_ListObjects = (\<lambda>av kd labels ns. call (\<lambda>s. (Inr (filter (\<lambda>p. ok_APIVersion (ob_Key p) = av \<and> ok_Kind (ob_Key p) = kd \<and>
          (ns = [] \<or> ok_Namespace (ob_Key p) = ns) \<and> set labels \<subseteq> set (ob_Labels p)) (sv_Objects s)), s))),
      ua_DeleteLater = (\<lambda>k policy s. s\<lparr>sv_Pending := sv_Pending s @ [(k, policy)]\<rparr>)\<rparr>"

lemma index_of: "index_of pa u = index_usage (serve pa) u"
  by (simp add: index_of_def index_usage_def indexVal_def serve_def split: option.split)

lemma serve_simple:
  "ua_ParseGroupVersion (serve pa) = pa_Parse pa" "ua_composed_label (serve pa) = pa_Composed pa"
  "ua_MarkConditions (serve pa) c u = u\<lparr>ug_Conditions := pa_Mark pa c (ug_Conditions u)\<rparr>"
  "ua_GetUsage (serve pa) k ns n = call (\<lambda>s. (found (find (\<lambda>u. usage_id u = (k, ns, n)) (sv_Usages s)), s))"
  "ua_UpdateUsage (serve pa) u = call (put_usage u)"
  "ua_AddFinalizer (serve pa) u = (if finalizer_name \<in> set (ug_Finalizers u) then Pair (Inr u)
     else call (put_usage (u\<lparr>ug_Finalizers := ug_Finalizers u @ [finalizer_name]\<rparr>)))"
  "ua_RemoveFinalizer (serve pa) u = call (drop_finalizer u)"
  "ua_UpdateStatus (serve pa) u s = error_of (call (put_usage u) s)"
  "ua_GetObject (serve pa) l = call (\<lambda>s. (found (find (\<lambda>p. same_object pa (ob_Key p) l) (sv_Objects s)), s))"
  "ua_UpdateObject (serve pa) o' = call (put_object pa o')"
  "ua_PatchObject (serve pa) o' s = error_of (call (put_object pa o') s)"
  "ua_DeleteLater (serve pa) l policy s = s\<lparr>sv_Pending := sv_Pending s @ [(l, policy)]\<rparr>"
  by (simp_all add: serve_def)

lemma serve_list:
  "ua_ListUsages (serve pa) k val =
     call (\<lambda>s. (Inr (filter (\<lambda>u. ug_Kind u = k \<and> val \<in> set (index_usage (serve pa) u)) (sv_Usages s)), s))"
  by (subst serve_def) (simp add: index_of)

section \<open>What a ready usage keeps\<close>

definition names_usable :: "params \<Rightarrow> server \<Rightarrow> bool" where
  "names_usable pa s \<longleftrightarrow>
     inj_on usage_id (set (sv_Usages s)) \<and>
     (\<forall>u \<in> set (sv_Usages s). ug_Kind u \<noteq> NamespacedUsage \<longrightarrow> ug_Namespace u = []) \<and>
     (\<forall>p \<in> set (sv_Objects s). ok_Name (ob_Key p) \<noteq> [] \<and> is_ok (pa_Parse pa (ok_APIVersion (ob_Key p)))) \<and>
     (\<forall>p \<in> set (sv_Objects s). \<forall>q \<in> set (sv_Objects s). same_object pa (ob_Key p) (ob_Key q) \<longrightarrow> p = q)"

definition marked :: "object \<Rightarrow> bool" where
  "marked p \<longleftrightarrow> value_of (ob_Labels p) inUseLabelKey = ''true''"

definition uses :: "usage \<Rightarrow> object_key \<Rightarrow> bool" where
  "uses u k \<longleftrightarrow> used_key (GetUserOf u) u = Some k \<and> ok_Name k \<noteq> []"

definition keeps :: "params \<Rightarrow> server \<Rightarrow> usage_kind \<times> string \<times> string \<Rightarrow> bool" where
  "keeps pa s i \<longleftrightarrow>
     (\<exists>u \<in> set (sv_Usages s). \<exists>p \<in> set (sv_Objects s). \<exists>k.
        usage_id u = i \<and> finalizer_name \<in> set (ug_Finalizers u) \<and> uses u k \<and> same_object pa (ob_Key p) k \<and> marked p)"

definition preserves ::
  "params \<Rightarrow> (usage_kind \<times> string \<times> string) set \<Rightarrow> server \<Rightarrow> server \<Rightarrow> bool" where
  "preserves pa J s s' \<longleftrightarrow>
     (names_usable pa s \<longrightarrow> names_usable pa s' \<and> (\<forall>j \<in> J. keeps pa s j \<longrightarrow> keeps pa s' j))"

lemma same_object_sym: "same_object pa k l \<Longrightarrow> same_object pa l k"
  by (auto simp: same_object_def)

lemma same_object_trans: "same_object pa k l \<Longrightarrow> same_object pa l m \<Longrightarrow> same_object pa k m"
  by (auto simp: same_object_def)

lemma preserves_refl [simp]: "preserves pa J s s"
  by (simp add: preserves_def)

lemma preserves_trans: "preserves pa J s s1 \<Longrightarrow> preserves pa J s1 s2 \<Longrightarrow> preserves pa J s s2"
  by (simp add: preserves_def)

lemma preserves_mono: "preserves pa UNIV s s1 \<Longrightarrow> preserves pa J s s1"
  unfolding preserves_def by blast

text \<open>What changes no usage and no object.\<close>

definition still :: "server \<Rightarrow> server \<Rightarrow> bool" where
  "still s s' \<longleftrightarrow> sv_Usages s' = sv_Usages s \<and> sv_Objects s' = sv_Objects s"

lemma still_preserves: "still s s' \<Longrightarrow> preserves pa J s s'"
  by (simp add: still_def preserves_def names_usable_def keeps_def)

lemma call_cases:
  assumes "call f s = (r, s1)"
  obtains e where "r = Inl e" "still s s1" | s0 where "still s s0" "f s0 = (r, s1)"
  using assms that(2) [of "s\<lparr>sv_Faults := tl (sv_Faults s)\<rparr>"]
  by (auto simp: call_def still_def split: list.splits option.splits intro: that(1))

lemma call_read:
  assumes "call (\<lambda>s. (g s, s)) s = (r, s1)"
  shows "still s s1" "r = g s1 \<or> (\<exists>e. r = Inl e)"
  using assms by (auto elim!: call_cases)

text \<open>A usage is written: what it uses and its finalizer stay.\<close>

definition agrees :: "usage \<Rightarrow> usage \<Rightarrow> bool" where
  "agrees u v \<longleftrightarrow> usage_id v = usage_id u \<and> ug_Deleted v = ug_Deleted u \<and>
     (finalizer_name \<in> set (ug_Finalizers u) \<longrightarrow> finalizer_name \<in> set (ug_Finalizers v)) \<and>
     (\<not> unresolved (GetUserOf u) \<longrightarrow> GetUserOf v = GetUserOf u)"

lemma agrees_refl [simp]: "agrees u u"
  by (simp add: agrees_def)

lemma agrees_trans: "agrees u v \<Longrightarrow> agrees v x \<Longrightarrow> agrees u x"
  by (auto simp: agrees_def)

lemma used_key_id: "usage_id v = usage_id u \<Longrightarrow> used_key r v = used_key r u"
  by (auto simp: used_key_def usage_id_def split: option.split)

lemma uses_resolved: "uses u k \<Longrightarrow> \<not> unresolved (GetUserOf u)"
  by (auto simp: uses_def used_key_def unresolved_def split: option.splits)

lemma agrees_uses: "agrees u v \<Longrightarrow> uses u k \<Longrightarrow> uses v k"
  using uses_resolved [of u k] used_key_id [of v u] by (simp add: agrees_def uses_def)

lemma swap_mem:
  assumes "u \<in> set (sv_Usages s)" "usage_id v = usage_id u"
  shows "x \<in> set (sv_Usages (swap v s)) \<longleftrightarrow> x = v \<or> x \<in> set (sv_Usages s) \<and> usage_id x \<noteq> usage_id u"
  using assms by (auto simp: swap_def image_iff intro: bexI [of _ u])

lemma swap_names:
  assumes "u \<in> set (sv_Usages s)" "usage_id v = usage_id u" "names_usable pa s"
  shows "names_usable pa (swap v s)"
proof -
  have "ug_Kind v = ug_Kind u" "ug_Namespace v = ug_Namespace u" using assms(2) by (simp_all add: usage_id_def)
  then show ?thesis
    using assms unfolding names_usable_def inj_on_def Ball_def swap_mem [OF assms(1,2)] by (auto simp: swap_def)
qed

lemma swap_preserves:
  assumes u: "u \<in> set (sv_Usages s)" and uv: "agrees u v"
  shows "preserves pa UNIV s (swap v s)"
proof -
  have ids: "usage_id v = usage_id u" using uv by (simp add: agrees_def)
  note mem = swap_mem [OF u ids]
  show ?thesis
    unfolding preserves_def
  proof (intro impI conjI ballI)
    assume n: "names_usable pa s"
    then show "names_usable pa (swap v s)" by (rule swap_names [OF u ids])
    fix j
    assume "keeps pa s j"
    then obtain x p k where x: "x \<in> set (sv_Usages s)" "usage_id x = j" "finalizer_name \<in> set (ug_Finalizers x)"
      "uses x k" "p \<in> set (sv_Objects s)" "same_object pa (ob_Key p) k" "marked p"
      by (auto simp: keeps_def)
    show "keeps pa (swap v s) j"
    proof (cases "j = usage_id v")
      case True
      then have "x = u" using n x(1,2) u ids by (simp add: names_usable_def inj_on_def)
      then have "finalizer_name \<in> set (ug_Finalizers v)" "uses v k"
        using x(3,4) uv agrees_uses [OF uv] by (simp_all add: agrees_def)
      then show ?thesis using True x(5-) mem [of v] by (auto simp: keeps_def swap_def)
    next
      case False
      then have "x \<in> set (sv_Usages (swap v s))" using x(1,2) mem ids by simp
      then show ?thesis using x(2-) unfolding keeps_def by (auto simp: swap_def)
    qed
  qed
qed

lemma put_usage_preserves:
  assumes "u \<in> set (sv_Usages s)" "agrees u v" "call (put_usage v) s = (r, s1)"
  shows "preserves pa UNIV s s1" "r = Inr v' \<Longrightarrow> v' = v \<and> v \<in> set (sv_Usages s1)" "sv_Objects s1 = sv_Objects s"
proof -
  have "preserves pa UNIV s s1 \<and> (r = Inr v' \<longrightarrow> v' = v \<and> v \<in> set (sv_Usages s1)) \<and> sv_Objects s1 = sv_Objects s"
    using assms(3)
  proof (cases rule: call_cases)
    case 1
    then show ?thesis by (simp add: still_preserves) (simp add: still_def)
  next
    case (2 s0)
    have u0: "u \<in> set (sv_Usages s0)" using assms(1) 2(1) by (simp add: still_def)
    moreover have "usage_id v = usage_id u" using assms(2) by (simp add: agrees_def)
    ultimately have "usage_id v \<in> usage_id ` set (sv_Usages s0)" by simp
    then have s1: "r = Inr v" "s1 = swap v s0" using 2(2) by (auto simp: put_usage_def)
    have "v \<in> set (sv_Usages s1)" using u0 \<open>usage_id v = usage_id u\<close> by (auto simp: s1(2) swap_def)
    moreover have "sv_Objects s1 = sv_Objects s" using 2(1) by (simp add: s1(2) swap_def still_def)
    moreover have "preserves pa UNIV s s1"
      using preserves_trans [OF still_preserves [OF 2(1)] swap_preserves [OF u0 assms(2)]] by (simp add: s1(2))
    ultimately show ?thesis by (auto simp: s1(1))
  qed
  then show "preserves pa UNIV s s1" "r = Inr v' \<Longrightarrow> v' = v \<and> v \<in> set (sv_Usages s1)" "sv_Objects s1 = sv_Objects s"
    by simp_all
qed

text \<open>An object is written, with its key: the others stay.\<close>

lemma put_object_cases:
  assumes "p \<in> set (sv_Objects s)" "ob_Key q = ob_Key p" "same_object pa (ob_Key p) (ob_Key p)"
    "call (put_object pa q) s = (r, s1)"
  obtains (failed) e where "r = Inl e" "still s s1"
  | (written) "r = Inr q" "sv_Usages s1 = sv_Usages s"
      "set (sv_Objects s1) = insert q {x \<in> set (sv_Objects s). \<not> same_object pa (ob_Key x) (ob_Key p)}"
  using assms(4)
proof (cases rule: call_cases)
  case 1
  then show ?thesis by (rule that(1))
next
  case (2 s0)
  have objs: "p \<in> set (sv_Objects s0)" "sv_Objects s0 = sv_Objects s" "sv_Usages s0 = sv_Usages s"
    using assms(1) 2(1) by (simp_all add: still_def)
  then have "list_ex (\<lambda>x. same_object pa (ob_Key x) (ob_Key q)) (sv_Objects s0)"
    using assms(2,3) by (auto simp: list_ex_iff)
  then have s1: "r = Inr q" "s1 = swap_object pa q s0" using 2(2) by (auto simp: put_object_def)
  show ?thesis
    using assms(1-3) objs by (intro that(2)) (auto simp: s1 swap_object_def image_iff intro: bexI [of _ p])
qed

lemma put_object_names:
  assumes "names_usable pa s" "p \<in> set (sv_Objects s)" "ob_Key q = ob_Key p" "sv_Usages s1 = sv_Usages s"
    "set (sv_Objects s1) = insert q {x \<in> set (sv_Objects s). \<not> same_object pa (ob_Key x) (ob_Key p)}"
  shows "names_usable pa s1"
proof -
  have "\<forall>x \<in> set (sv_Objects s1). ok_Name (ob_Key x) \<noteq> [] \<and> is_ok (pa_Parse pa (ok_APIVersion (ob_Key x)))"
    using assms by (auto simp: names_usable_def)
  moreover have "x = y" if "x \<in> set (sv_Objects s1)" "y \<in> set (sv_Objects s1)" "same_object pa (ob_Key x) (ob_Key y)" for x y
    using that assms(1) same_object_sym [OF that(3)] by (auto simp: assms(3,5) names_usable_def)
  ultimately show ?thesis using assms(1,4) by (simp add: names_usable_def)
qed

lemma put_object_preserves:
  assumes "p \<in> set (sv_Objects s)" "ob_Key q = ob_Key p" "same_object pa (ob_Key p) (ob_Key p)"
    "marked p \<Longrightarrow> marked q" "call (put_object pa q) s = (r, s1)"
  shows "preserves pa UNIV s s1" "r = Inr q' \<Longrightarrow> q' = q \<and> q \<in> set (sv_Objects s1)" "sv_Usages s1 = sv_Usages s"
proof -
  have "preserves pa UNIV s s1 \<and> (r = Inr q' \<longrightarrow> q' = q \<and> q \<in> set (sv_Objects s1)) \<and> sv_Usages s1 = sv_Usages s"
    using assms(1-3,5)
  proof (cases rule: put_object_cases)
    case (failed e)
    then show ?thesis by (simp add: still_preserves) (simp add: still_def)
  next
    case written
    have "keeps pa s1 j" if n: "names_usable pa s" and j: "keeps pa s j" for j
    proof -
      from j obtain u x k where u: "u \<in> set (sv_Usages s)" "x \<in> set (sv_Objects s)" "usage_id u = j"
          "finalizer_name \<in> set (ug_Finalizers u)" "uses u k" "same_object pa (ob_Key x) k" "marked x"
        by (auto simp: keeps_def)
      have "\<exists>y \<in> set (sv_Objects s1). same_object pa (ob_Key y) k \<and> marked y"
      proof (cases "same_object pa (ob_Key x) (ob_Key p)")
        case True
        then have "x = p" using n u(2) assms(1) by (simp add: names_usable_def)
        then show ?thesis using u(6,7) assms(2,4) written(3) by auto
      next
        case False
        then show ?thesis using u(2,6,7) written(3) by auto
      qed
      then show ?thesis using u(1,3-5) unfolding keeps_def written(2) by blast
    qed
    then have "preserves pa UNIV s s1"
      unfolding preserves_def using put_object_names [OF _ assms(1,2) written(2,3)] by blast
    then show ?thesis using written by auto
  qed
  then show "preserves pa UNIV s s1" "r = Inr q' \<Longrightarrow> q' = q \<and> q \<in> set (sv_Objects s1)" "sv_Usages s1 = sv_Usages s"
    by simp_all
qed

text \<open>The reads.\<close>

lemma GetObject_read:
  assumes "ua_GetObject (serve pa) k s = (r, s1)"
  shows "still s s1" "r = Inr p \<Longrightarrow> p \<in> set (sv_Objects s) \<and> same_object pa (ob_Key p) k"
proof -
  have "still s s1 \<and> (r = Inr p \<longrightarrow> p \<in> set (sv_Objects s) \<and> same_object pa (ob_Key p) k)"
    using assms unfolding serve_simple
    by (auto elim!: call_cases simp: found_def still_def find_Some_iff split: option.splits)
  then show "still s s1" "r = Inr p \<Longrightarrow> p \<in> set (sv_Objects s) \<and> same_object pa (ob_Key p) k" by simp_all
qed

lemma ListUsages_read:
  assumes "ua_ListUsages (serve pa) k val s = (r, s1)"
  shows "still s s1" "r = Inr us \<Longrightarrow> us = filter (\<lambda>u. ug_Kind u = k \<and> val \<in> set (index_usage (serve pa) u)) (sv_Usages s)"
proof -
  have "still s s1 \<and> (r = Inr us \<longrightarrow> us = filter (\<lambda>u. ug_Kind u = k \<and> val \<in> set (index_usage (serve pa) u)) (sv_Usages s))"
    using assms unfolding serve_list by (auto elim!: call_cases simp: still_def)
  then show "still s s1" "r = Inr us \<Longrightarrow> us = filter (\<lambda>u. ug_Kind u = k \<and> val \<in> set (index_usage (serve pa) u)) (sv_Usages s)"
    by simp_all
qed

lemma still_trans: "still s s1 \<Longrightarrow> still s1 s2 \<Longrightarrow> still s s2"
  by (simp add: still_def)

text \<open>A usage is indexed under the object it uses, whichever version the object is read in.\<close>

lemma index_uses:
  assumes "uses u k" "same_object pa l k" "ug_Kind u \<noteq> NamespacedUsage \<longrightarrow> ug_Namespace u = []"
  shows "indexVal (serve pa) (ok_APIVersion l) (ok_Kind l) (ok_Name l)
           (if ug_Kind u = NamespacedUsage then ok_Namespace l else []) \<in> set (index_usage (serve pa) u)"
proof -
  from assms(1) obtain ref where ref: "ur_ResourceRef (GetUserOf u) = Some ref" "rr_Name ref \<noteq> []"
    "k = \<lparr>ok_APIVersion = ur_APIVersion (GetUserOf u), ok_Kind = ur_Kind (GetUserOf u),
          ok_Namespace = (case rr_Namespace ref of None \<Rightarrow> ug_Namespace u | Some ns \<Rightarrow> ns), ok_Name = rr_Name ref\<rparr>"
    by (auto simp: uses_def used_key_def split: option.splits)
  show ?thesis
  proof (cases "ug_Kind u = NamespacedUsage")
    case True
    then show ?thesis using ref assms(2)
      by (auto simp: GetUserOf_def index_usage_def indexVal_def same_object_def serve_simple)
  next
    case False
    then obtain ref' where "ur_ResourceRef (ug_Of u) = Some ref'" "rr_Name ref' = rr_Name ref"
      using ref(1) by (auto simp: GetUserOf_def cluster_resource_def)
    then show ?thesis using ref(2,3) assms(2) False
      by (auto simp: GetUserOf_def cluster_resource_def index_usage_def indexVal_def same_object_def serve_simple)
  qed
qed

lemma FindUsageOf_complete:
  assumes "FindUsageOf (serve pa) l s = (Inr us, s1)" "names_usable pa s"
    "u \<in> set (sv_Usages s)" "uses u k" "same_object pa l k"
  shows "u \<in> set us"
proof -
  let ?key = "indexVal (serve pa) (ok_APIVersion l) (ok_Kind l) (ok_Name l)"
  from assms(1) obtain a s2 b s3 c where
    a: "ua_ListUsages (serve pa) NamespacedUsage (?key (ok_Namespace l)) s = (Inr a, s2)" and
    b: "ua_ListUsages (serve pa) ClusterUsage (?key []) s2 = (Inr b, s3)" and
    c: "ua_ListUsages (serve pa) LegacyUsage (?key []) s3 = (Inr c, s1)" and us: "us = a @ b @ c"
    by (auto simp: FindUsageOf_def Let_def split: prod.splits sum.splits)
  have same: "sv_Usages s2 = sv_Usages s" "sv_Usages s3 = sv_Usages s"
    using ListUsages_read(1) [OF a] ListUsages_read(1) [OF b] by (simp_all add: still_def)
  have "?key (if ug_Kind u = NamespacedUsage then ok_Namespace l else []) \<in> set (index_usage (serve pa) u)"
    using assms(2,3) by (intro index_uses [OF assms(4,5)]) (auto simp: names_usable_def)
  then show ?thesis
    using ListUsages_read(2) [OF a refl] ListUsages_read(2) [OF b refl] ListUsages_read(2) [OF c refl] assms(3)
    by (cases "ug_Kind u") (simp_all add: us same)
qed

lemma FindUsageOf_still: "FindUsageOf (serve pa) l s = (r, s1) \<Longrightarrow> still s s1"
  by (auto simp: FindUsageOf_def Let_def split: prod.splits sum.splits dest!: ListUsages_read(1) simp: still_def)

end
