(* ===== verification/UsageCorrect.thy ===== *)
theory UsageCorrect
  imports UsageServer
begin

text \<open>
  What is in use is not deleted, over every history of usages that come and go, reconciles that fail
  at any call, and deletions through the webhook. A reconcile and a call of the webhook are one step
  each, against the server as it is: the code runs them concurrently, and \<open>release_race\<close> shows that
  the protection can then be lost. Others change an object without taking the label away, and do not
  change what a usage refers to.
\<close>

section \<open>The reconcile of a usage that is deleted\<close>






section \<open>The reconcile of a usage in use\<close>






section \<open>Selectors\<close>






section \<open>A whole reconcile\<close>






section \<open>Deletions through the webhook\<close>

text \<open>
  The configuration of the webhook selects the objects with the label; the others are deleted
  without a question.
\<close>

definition deletion :: "object \<Rightarrow> string option res \<Rightarrow> request" where
  "deletion p opts = \<lparr>rq_Operation = DeleteOp, rq_OldObject = Inr p, rq_Options = opts\<rparr>"

definition delete_object :: "params \<Rightarrow> object \<Rightarrow> string option res \<Rightarrow> server \<Rightarrow> server" where
  "delete_object pa p opts s =
     (case (if marked p then Handle (serve pa) (deletion p opts) s else (Allowed_response, s)) of
        (r, s1) \<Rightarrow> if r = Allowed_response then s1\<lparr>sv_Objects := filter (\<lambda>x. x \<noteq> p) (sv_Objects s1)\<rparr> else s1)"



section \<open>Histories\<close>








definition guard_usage :: usage where
  "guard_usage =
     \<lparr>ug_Kind = ClusterUsage, ug_Namespace = [], ug_Name = ''guard'', ug_UID = ''u1'',
      ug_Of = \<lparr>ur_APIVersion = ''v1'', ur_Kind = ''Db'', ur_ResourceRef = Some \<lparr>rr_Name = ''main'', rr_Namespace = None\<rparr>,
               ur_ResourceSelector = None\<rparr>,
      ug_By = None, ug_Reason = Some ''live'', ug_ReplayDeletion = None, ug_Deleted = False, ug_Labels = [],
      ug_Annotations = [], ug_OwnerUIDs = [], ug_Finalizers = [], ug_Conditions = []\<rparr>"

definition guard_object :: object where
  "guard_object =
     \<lparr>ob_Key = \<lparr>ok_APIVersion = ''v1'', ok_Kind = ''Db'', ok_Namespace = [], ok_Name = ''main''\<rparr>, ob_UID = ''o1'',
      ob_OwnerUIDs = [], ob_Labels = [], ob_Annotations = []\<rparr>"

definition guard_params :: params where
  "guard_params = \<lparr>pa_Parse = Inr, pa_Composed = ''composed'', pa_SameController = (\<lambda>_ _. False), pa_Mark = (#)\<rparr>"



text \<open>
  What two reconciles that overlap can do. The reconcile that releases a usage has read the used
  object and found no other usage. A second usage is created and reconciled to its end; the object
  has the label already, so that its update changes nothing, and the update of the first reconcile
  does not conflict with it: the label is gone, and the object is deleted without a question.
\<close>

definition old_usage :: usage where
  "old_usage = guard_usage\<lparr>ug_Name := ''old'', ug_UID := ''u0'', ug_Deleted := True, ug_Finalizers := [finalizer_name]\<rparr>"

definition labelled_object :: object where
  "labelled_object = guard_object\<lparr>ob_Labels := [(inUseLabelKey, ''true'')]\<rparr>"

definition release_server :: server where
  "release_server = \<lparr>sv_Usages = [old_usage], sv_Objects = [labelled_object], sv_Pending = [], sv_Faults = []\<rparr>"

lemma release_race:
  defines "x \<equiv> serve guard_params"
    and "t \<equiv> release_server\<lparr>sv_Usages := [old_usage, guard_usage]\<rparr>"
    and "unlabelled \<equiv> labelled_object\<lparr>ob_Labels := del inUseLabelKey (ob_Labels labelled_object)\<rparr>"
  shows "fst (ua_GetObject x (ob_Key guard_object) release_server) = Inr labelled_object \<and>
      fst (FindUsageOf x (ob_Key labelled_object) release_server) = Inr [old_usage]"
    and "case Reconcile_usage x ClusterUsage 60 0 [] ''guard'' t of (out, t1) \<Rightarrow>
      out = After 60 None \<and> sv_Objects t1 = sv_Objects t \<and>
      (case ua_UpdateObject x unlabelled t1 of (r, t2) \<Rightarrow>
         r = Inr unlabelled \<and> sv_Usages t2 = sv_Usages t1 \<and> sv_Objects (delete_object guard_params unlabelled (Inr None) t2) = [])"
  unfolding assms by code_simp+


end
