(* ===== verification/GoFloat.thy ===== *)
theory GoFloat
  imports Complex_Main GoPrelude "HOL-Library.Signed_Division"
begin

text \<open>
  Go's \<^verbatim>\<open>float64\<close> arithmetic: an operation computes the exact real result and rounds it with
  \<open>fl\<close>, to the nearest multiple of the unit in the last place of a 53-bit significand, ties to
  even. Exponents are unbounded, so overflow to infinity and subnormal numbers are outside the
  model; the code here computes with token counts, seconds and percentages.
\<close>

definition round_even :: "real \<Rightarrow> int" where
  "round_even y = (let f = \<lfloor>y\<rfloor>; r = y - of_int f in
     if r < 1 / 2 then f else if r > 1 / 2 then f + 1 else if even f then f else f + 1)"

definition ulp_exp :: "real \<Rightarrow> int" where
  "ulp_exp x = \<lfloor>log 2 \<bar>x\<bar>\<rfloor> - 52"

definition fl :: "real \<Rightarrow> real" where
  "fl x = (if x = 0 then 0
     else of_int (round_even (x / 2 powr of_int (ulp_exp x))) * 2 powr of_int (ulp_exp x))"

text \<open>The conversion \<^verbatim>\<open>int(x)\<close> truncates towards zero.\<close>

definition go_trunc :: "real \<Rightarrow> int" where
  "go_trunc x = (if x < 0 then \<lceil>x\<rceil> else \<lfloor>x\<rfloor>)"

text \<open>\<^verbatim>\<open>Duration.Seconds\<close>.\<close>

definition Seconds :: "duration \<Rightarrow> real" where
  "Seconds d = fl (of_int (d sdiv 1000000000) + fl (of_int (d smod 1000000000) / 1000000000))"

section \<open>Rounding to integers\<close>

lemma round_even_of_int [simp]: "round_even (of_int n) = n"
  by (simp add: round_even_def Let_def)

lemma round_even_bounds: "\<lfloor>y\<rfloor> \<le> round_even y" "round_even y \<le> \<lfloor>y\<rfloor> + 1"
  by (auto simp: round_even_def Let_def)

lemma round_even_mono:
  assumes "x \<le> y"
  shows "round_even x \<le> round_even y"
proof (cases "\<lfloor>x\<rfloor> = \<lfloor>y\<rfloor>")
  case True
  then have "x - of_int \<lfloor>x\<rfloor> \<le> y - of_int \<lfloor>y\<rfloor>" using assms by simp
  with True show ?thesis unfolding round_even_def Let_def by auto
next
  case False
  then have "\<lfloor>x\<rfloor> + 1 \<le> \<lfloor>y\<rfloor>" using floor_mono [OF assms] by simp
  then show ?thesis using round_even_bounds(2) [of x] round_even_bounds(1) [of y] by linarith
qed

lemma round_even_le: "y \<le> of_int n \<Longrightarrow> round_even y \<le> n"
  using round_even_mono [of y "of_int n"] by simp

lemma round_even_ge: "of_int n \<le> y \<Longrightarrow> n \<le> round_even y"
  using round_even_mono [of "of_int n" y] by simp

lemma round_even_near: "\<bar>of_int (round_even y) - y\<bar> \<le> 1 / 2"
proof -
  have "of_int \<lfloor>y\<rfloor> \<le> y" "y < of_int \<lfloor>y\<rfloor> + 1" by linarith+
  then have r: "0 \<le> y - of_int \<lfloor>y\<rfloor>" "y - of_int \<lfloor>y\<rfloor> < 1" by linarith+
  have "\<bar>of_int (if r < 1 / 2 then f else if r > 1 / 2 then f + 1 else if even f then f else f + 1) - (of_int f + r)\<bar> \<le> 1 / 2"
    if "0 \<le> r" "r < 1" for f :: int and r :: real
    using that by (auto simp: abs_real_def)
  from this [OF r, of "\<lfloor>y\<rfloor>"] show ?thesis unfolding round_even_def Let_def by simp
qed

section \<open>Rounding to 53 bits\<close>

lemma powr_int_mono: "(i::int) \<le> j \<Longrightarrow> (2::real) powr of_int i \<le> 2 powr of_int j"
  by simp

lemma powr_int_lessD: "(2::real) powr of_int i < 2 powr of_int j \<Longrightarrow> i < j"
  by simp

lemma ulp_exp_bounds:
  assumes "x \<noteq> 0"
  shows "2 powr of_int (ulp_exp x + 52) \<le> \<bar>x\<bar>" "\<bar>x\<bar> < 2 powr of_int (ulp_exp x + 53)"
proof -
  have x: "2 powr (log 2 \<bar>x\<bar>) = \<bar>x\<bar>" using assms by simp
  have "of_int (ulp_exp x + 52) \<le> log 2 \<bar>x\<bar>" "log 2 \<bar>x\<bar> < of_int (ulp_exp x + 53)"
    by (simp_all add: ulp_exp_def) linarith
  then have "2 powr of_int (ulp_exp x + 52) \<le> 2 powr (log 2 \<bar>x\<bar>)"
    "2 powr (log 2 \<bar>x\<bar>) < 2 powr of_int (ulp_exp x + 53)" by simp_all
  with x show "2 powr of_int (ulp_exp x + 52) \<le> \<bar>x\<bar>" "\<bar>x\<bar> < 2 powr of_int (ulp_exp x + 53)"
    by simp_all
qed

lemma ulp_exp_mono:
  assumes "0 < x" "x \<le> y"
  shows "ulp_exp x \<le> ulp_exp y"
  using assms by (simp add: ulp_exp_def floor_mono)

lemma fl_0 [simp]: "fl 0 = 0"
  by (simp add: fl_def)

lemma fl_pos_bounds:
  assumes "0 < x"
  shows "2 powr of_int (ulp_exp x + 52) \<le> fl x" "fl x \<le> 2 powr of_int (ulp_exp x + 53)"
proof -
  let ?p = "2 powr of_int (ulp_exp x) :: real"
  have p: "0 < ?p" by simp
  have s: "2 powr of_int (ulp_exp x + 52) = 2 ^ 52 * ?p" "2 powr of_int (ulp_exp x + 53) = 2 ^ 53 * ?p"
    by (simp_all add: powr_add powr_realpow [symmetric])
  have "of_int (2 ^ 52) \<le> x / ?p" "x / ?p \<le> of_int (2 ^ 53)"
    using ulp_exp_bounds [of x] assms p unfolding s by (simp_all add: field_simps)
  then have "2 ^ 52 \<le> round_even (x / ?p)" "round_even (x / ?p) \<le> 2 ^ 53"
    by (simp_all only: round_even_ge round_even_le)
  then have "of_int (2 ^ 52) \<le> (of_int (round_even (x / ?p)) :: real)"
    "(of_int (round_even (x / ?p)) :: real) \<le> of_int (2 ^ 53)"
    by (simp_all only: of_int_le_iff)
  then show "2 powr of_int (ulp_exp x + 52) \<le> fl x" "fl x \<le> 2 powr of_int (ulp_exp x + 53)"
    using assms p unfolding s by (simp_all add: fl_def mult_right_mono)
qed

lemma fl_nonneg: "0 \<le> x \<Longrightarrow> 0 \<le> fl x"
  using fl_pos_bounds(1) [of x] by (cases "x = 0") (auto intro: order_trans [OF powr_ge_zero])

lemma fl_mono_pos:
  assumes "0 \<le> x" "x \<le> y"
  shows "fl x \<le> fl y"
proof (cases "x = 0")
  case True
  then show ?thesis using assms fl_nonneg by simp
next
  case False
  with assms have x: "0 < x" "0 < y" by simp_all
  show ?thesis
  proof (cases "ulp_exp x = ulp_exp y")
    case True
    let ?p = "2 powr of_int (ulp_exp y) :: real"
    have "x / ?p \<le> y / ?p" using assms by (simp add: divide_right_mono)
    then have "(of_int (round_even (x / ?p)) :: real) \<le> of_int (round_even (y / ?p))"
      by (simp only: of_int_le_iff round_even_mono)
    then show ?thesis using x True by (simp add: fl_def mult_right_mono)
  next
    case False
    then have "ulp_exp x + 53 \<le> ulp_exp y + 52" using ulp_exp_mono [OF x(1) assms(2)] by simp
    then have "2 powr of_int (ulp_exp x + 53) \<le> (2 powr of_int (ulp_exp y + 52) :: real)"
      by (rule powr_int_mono)
    then show ?thesis using fl_pos_bounds [OF x(1)] fl_pos_bounds [OF x(2)] by linarith
  qed
qed

text \<open>Numbers with a significand of at most 53 bits are unchanged.\<close>

lemma fl_exact:
  assumes "x = of_int k * 2 powr of_int e" "\<bar>k\<bar> < 2 ^ 53"
  shows "fl x = x"
proof (cases "k = 0")
  case True
  then show ?thesis using assms by simp
next
  case False
  then have x: "x \<noteq> 0" using assms by simp
  have "\<bar>x\<bar> = of_int \<bar>k\<bar> * 2 powr of_int e" using assms(1) by (simp add: abs_mult)
  moreover have "(of_int \<bar>k\<bar> :: real) < 2 ^ 53"
    using assms(2) by (metis of_int_less_iff of_int_numeral of_int_power)
  ultimately have "\<bar>x\<bar> < 2 ^ 53 * 2 powr of_int e" by simp
  also have "\<dots> = 2 powr of_int (e + 53)" by (simp add: powr_add powr_realpow [symmetric])
  finally have "2 powr of_int (ulp_exp x + 52) < (2 powr of_int (e + 53) :: real)"
    using ulp_exp_bounds(1) [OF x] by (rule le_less_trans [rotated])
  then have le: "ulp_exp x \<le> e" using powr_int_lessD [of "ulp_exp x + 52" "e + 53"] by simp
  let ?p = "2 powr of_int (ulp_exp x) :: real"
  have "x / ?p = of_int k * 2 powr of_int (e - ulp_exp x)"
    using assms(1) by (simp add: powr_diff)
  also have "\<dots> = of_int (k * 2 ^ nat (e - ulp_exp x))"
    using le by (simp add: powr_realpow [symmetric])
  finally have "of_int (round_even (x / ?p)) = x / ?p" by (simp only: round_even_of_int)
  then show ?thesis using x by (simp add: fl_def)
qed

lemma fl_of_int [simp]: "\<bar>k\<bar> < 2 ^ 53 \<Longrightarrow> fl (of_int k) = of_int k"
  by (rule fl_exact [of _ k 0]) simp_all

lemma fl_of_nat [simp]: "n < 2 ^ 53 \<Longrightarrow> fl (of_nat n) = of_nat n"
  using fl_of_int [of "int n"] by simp

text \<open>Taking one from a representable number that has it is exact.\<close>

lemma fl_minus_1:
  assumes "fl t = t" "1 \<le> t" "t < 2 ^ 53"
  shows "fl (t - 1) = t - 1"
proof -
  have t0: "t \<noteq> 0" "0 < t" using assms by auto
  let ?e = "ulp_exp t"
  let ?k = "round_even (t / 2 powr of_int ?e)"
  have t: "t = of_int ?k * 2 powr of_int ?e" using assms(1) t0 by (simp add: fl_def)
  have "2 powr of_int (?e + 52) < (2 powr of_int 53 :: real)"
    using ulp_exp_bounds(1) [OF t0(1)] assms t0 by (simp add: powr_realpow [symmetric])
  then have "?e + 52 < 53" by (rule powr_int_lessD)
  then have e: "?e \<le> 0" by simp
  let ?q = "2 ^ nat (- ?e) :: int"
  have q: "(1::real) = of_int ?q * 2 powr of_int ?e"
    using e by (simp add: powr_realpow [symmetric] powr_add [symmetric])
  have "t - 1 = of_int (?k - ?q) * 2 powr of_int ?e"
    using t q by (simp add: left_diff_distrib)
  moreover have "\<bar>?k - ?q\<bar> < 2 ^ 53"
  proof -
    have "t / 2 powr of_int ?e \<le> of_int (2 ^ 53)"
      using ulp_exp_bounds(2) [OF t0(1)] t0 by (simp add: field_simps powr_add powr_realpow [symmetric])
    then have "?k \<le> 2 ^ 53" by (rule round_even_le)
    moreover have "(of_int ?q * 2 powr of_int ?e :: real) \<le> of_int ?k * 2 powr of_int ?e"
      using assms(2) t q by linarith
    then have "(of_int ?q :: real) \<le> of_int ?k" by (rule mult_right_le_imp_le) simp
    then have "?q \<le> ?k" by (simp only: of_int_le_iff)
    moreover have "1 \<le> ?q" by simp
    ultimately show ?thesis by linarith
  qed
  ultimately show ?thesis by (rule fl_exact)
qed

lemma fl_idem: "0 \<le> x \<Longrightarrow> fl (fl x) = fl x"
proof (cases "x = 0")
  case False
  assume "0 \<le> x"
  with False have x: "0 < x" by simp
  let ?p = "2 powr of_int (ulp_exp x) :: real"
  let ?k = "round_even (x / ?p)"
  have f: "fl x = of_int ?k * ?p" using False by (simp add: fl_def)
  show ?thesis
  proof (cases "?k < 2 ^ 53")
    case True
    have "0 \<le> ?k" using x by (intro round_even_ge) simp
    with True f show ?thesis by (intro fl_exact [of _ ?k "ulp_exp x"]) simp_all
  next
    case False
    have "x / ?p \<le> of_int (2 ^ 53)"
      using ulp_exp_bounds(2) [of x] x by (simp add: field_simps powr_add powr_realpow [symmetric])
    with False have "?k = 2 ^ 53" using round_even_le [of "x / ?p" "2 ^ 53"] by simp
    then have "fl x = of_int 1 * 2 powr of_int (ulp_exp x + 53)"
      using f by (simp add: powr_add powr_realpow [symmetric])
    then show ?thesis by (rule fl_exact) simp
  qed
qed simp

section \<open>Seconds\<close>

lemma sdiv_smod_nonneg:
  "0 \<le> d \<Longrightarrow> d sdiv 1000000000 = d div 1000000000 \<and> d smod 1000000000 = (d mod 1000000000 :: int)"
  by (cases "d = 0") (simp_all add: signed_divide_int_def signed_modulo_int_def)

lemma Seconds_nonneg: "0 \<le> d \<Longrightarrow> 0 \<le> Seconds d"
  unfolding Seconds_def by (intro fl_nonneg add_nonneg_nonneg) (simp_all add: sdiv_smod_nonneg)

lemma Seconds_0 [simp]: "Seconds 0 = 0"
  by (simp add: Seconds_def sdiv_smod_nonneg)

lemma Seconds_whole:
  assumes "0 \<le> n" "n < 2 ^ 53"
  shows "Seconds (seconds n) = of_int n"
  using assms by (simp add: Seconds_def sdiv_smod_nonneg)

end
