(* ===== verification/Circuit.thy ===== *)
theory Circuit
  imports GoFloat
begin

text \<open>
  The circuit breaker of Crossplane's reconcilers: \<^verbatim>\<open>internal/circuit\<close> (\<^verbatim>\<open>breaker.go\<close>,
  \<^verbatim>\<open>token_bucket.go\<close>, \<^verbatim>\<open>mapfunc.go\<close>).

  The breaker is the record \<open>breaker\<close>: its configuration, the map of target states, and the
  metrics calls it made, newest last. Every reading of the clock is an argument. \<open>RecordEvent\<close>
  is a call that no other call of the breaker overlaps. The code runs it as two critical sections,
  one under the breaker's lock and one under the target's; these are \<open>lock_target\<close> and
  \<open>apply_event\<close>, over a heap of target states, and the theory \<open>CircuitSteps\<close> interleaves them.
\<close>

section \<open>The interface types\<close>

type_synonym nsname = "string \<times> string"

datatype event_type = EventAllowed | EventDropped | EventHalfOpenAllowed

record event_source =
  es_Kind :: string
  es_Name :: string
  es_Namespace :: string

definition source_String :: "event_source \<Rightarrow> string" where
  "source_String es =
     (if es_Namespace es = [] then es_Kind es @ ''/'' @ es_Name es
      else es_Kind es @ ''/'' @ es_Name es @ '' ('' @ es_Namespace es @ '')'')"

text \<open>The zero \<^verbatim>\<open>time.Time\<close> is January 1 of the year 1, in nanoseconds before the epoch.\<close>

definition zero_time :: go_time where
  "zero_time = - seconds 62135596800"

record State =
  IsOpen :: bool
  NextAllowedAt :: go_time
  TriggeredBy :: string

definition closed_State :: State where
  "closed_State = \<lparr>IsOpen = False, NextAllowedAt = zero_time, TriggeredBy = []\<rparr>"

datatype metric = IncOpen string | IncClose string | IncEvent string event_type

section \<open>TokenBucketBreaker\<close>

record config =
  capacity :: real
  refillRatePerSecond :: real
  cooldownTime :: duration
  halfOpenInterval :: duration
  expireAfter :: duration

definition default_config :: config where
  "default_config = \<lparr>capacity = 100, refillRatePerSecond = 1, cooldownTime = minutes 5,
     halfOpenInterval = seconds 30, expireAfter = hours 24\<rparr>"

text \<open>The functional options.\<close>

definition WithBurst :: "real \<Rightarrow> config \<Rightarrow> config" where
  "WithBurst b c = c\<lparr>capacity := b\<rparr>"

definition WithRefillRatePerSecond :: "real \<Rightarrow> config \<Rightarrow> config" where
  "WithRefillRatePerSecond r c = c\<lparr>refillRatePerSecond := r\<rparr>"

definition WithOpenDuration :: "duration \<Rightarrow> config \<Rightarrow> config" where
  "WithOpenDuration d c = c\<lparr>cooldownTime := d\<rparr>"

definition WithHalfOpenInterval :: "duration \<Rightarrow> config \<Rightarrow> config" where
  "WithHalfOpenInterval i c = c\<lparr>halfOpenInterval := i\<rparr>"

definition WithGarbageCollectTargetsAfter :: "duration \<Rightarrow> config \<Rightarrow> config" where
  "WithGarbageCollectTargetsAfter d c = c\<lparr>expireAfter := d\<rparr>"

record bucket =
  tokens :: real
  lastRefill :: go_time
  recentSources :: "string list"
  recentIdx :: nat
  isOpen :: bool
  openedAt :: go_time
  lastAllowed :: go_time
  triggerSource :: string

record breaker =
  cfg :: config
  targets :: "(nsname, bucket) gomap"
  controller :: string
  metrics :: "metric list"

definition NewTokenBucketBreaker :: "string \<Rightarrow> (config \<Rightarrow> config) list \<Rightarrow> breaker" where
  "NewTokenBucketBreaker ctrl opts =
     \<lparr>cfg = foldl (\<lambda>c opt. opt c) default_config opts, targets = [], controller = ctrl,
      metrics = []\<rparr>"

definition new_bucket :: "config \<Rightarrow> go_time \<Rightarrow> bucket" where
  "new_bucket c now = \<lparr>tokens = capacity c, lastRefill = now, recentSources = replicate 16 [],
     recentIdx = 0, isOpen = False, openedAt = zero_time, lastAllowed = zero_time,
     triggerSource = []\<rparr>"

text \<open>Garbage collection deletes from the map it ranges over; the order does not matter.\<close>

definition expired :: "config \<Rightarrow> go_time \<Rightarrow> bucket \<Rightarrow> bool" where
  "expired c now s \<longleftrightarrow> time_sub now (lastRefill s) > expireAfter c"

definition ensure_target ::
  "config \<Rightarrow> go_time \<Rightarrow> nsname \<Rightarrow> (nsname, bucket) gomap \<Rightarrow> (nsname, bucket) gomap" where
  "ensure_target c now t m =
     (case map_of m t of
        Some _ \<Rightarrow> m
      | None \<Rightarrow> put t (new_bucket c now) (filter (\<lambda>(_, s). \<not> expired c now s) m))"

definition refill :: "config \<Rightarrow> go_time \<Rightarrow> bucket \<Rightarrow> bucket" where
  "refill c now s =
     (let elapsed = Seconds (time_sub now (lastRefill s))
      in s\<lparr>tokens := min (capacity c) (fl (tokens s + fl (refillRatePerSecond c * elapsed))),
           lastRefill := now\<rparr>)"

definition push_source :: "string \<Rightarrow> bucket \<Rightarrow> bucket" where
  "push_source src s =
     s\<lparr>recentSources := (recentSources s)[recentIdx s := src],
       recentIdx := (recentIdx s + 1) mod length (recentSources s)\<rparr>"

definition clear_sources :: "bucket \<Rightarrow> bucket" where
  "clear_sources s = s\<lparr>recentSources := map (\<lambda>_. []) (recentSources s), recentIdx := 0\<rparr>"

text \<open>The loop that counts the ring buffer; \<open>events\<close> is the Go map of counts.\<close>

fun most_frequent :: "string list \<Rightarrow> (string, nat) gomap \<Rightarrow> nat \<Rightarrow> string \<Rightarrow> string" where
  "most_frequent [] events maxEvents best = best"
| "most_frequent (src # srcs) events maxEvents best =
     (if src = [] then most_frequent srcs events maxEvents best
      else (let n = Suc (case map_of events src of None \<Rightarrow> 0 | Some k \<Rightarrow> k);
                events' = put src n events
            in if n < maxEvents then most_frequent srcs events' maxEvents best
               else most_frequent srcs events' n src))"

text \<open>
  The body of \<^verbatim>\<open>RecordEvent\<close> on the state of its target: the new state and the metrics calls.
\<close>

definition spend :: "string \<Rightarrow> go_time \<Rightarrow> event_type \<Rightarrow> bucket \<Rightarrow> bucket \<times> metric list" where
  "spend ctrl now et s =
     (if tokens s \<ge> 1 then (s\<lparr>tokens := fl (tokens s - 1)\<rparr>, [IncEvent ctrl et])
      else (s\<lparr>isOpen := True, openedAt := now, lastAllowed := now,
              triggerSource := most_frequent (recentSources s) [] 0 (triggerSource s)\<rparr>,
            [IncOpen ctrl, IncEvent ctrl et]))"

definition record_bucket ::
  "config \<Rightarrow> string \<Rightarrow> go_time \<Rightarrow> event_source \<Rightarrow> event_type \<Rightarrow> bucket \<Rightarrow> bucket \<times> metric list"
where
  "record_bucket c ctrl now es et s0 =
     (let s = push_source (source_String es) (refill c now s0)
      in if isOpen s then
           (let s1 = (if et = EventHalfOpenAllowed then s\<lparr>lastAllowed := now\<rparr> else s)
            in if time_sub now (openedAt s1) < cooldownTime c then (s1, [IncEvent ctrl et])
               else (case spend ctrl now et (clear_sources (s1\<lparr>isOpen := False\<rparr>)) of
                       (s2, ms) \<Rightarrow> (s2, IncClose ctrl # ms)))
         else spend ctrl now et s)"

definition RecordEvent ::
  "breaker \<Rightarrow> go_time \<Rightarrow> nsname \<Rightarrow> event_source \<Rightarrow> event_type \<Rightarrow> breaker" where
  "RecordEvent b now t es et =
     (let m = ensure_target (cfg b) now t (targets b)
      in case record_bucket (cfg b) (controller b) now es et (the (map_of m t)) of
           (s, ms) \<Rightarrow> b\<lparr>targets := put t s m, metrics := metrics b @ ms\<rparr>)"

definition GetState :: "breaker \<Rightarrow> nsname \<Rightarrow> State" where
  "GetState b t =
     (case map_of (targets b) t of
        None \<Rightarrow> closed_State
      | Some s \<Rightarrow>
          if \<not> isOpen s then closed_State
          else \<lparr>IsOpen = isOpen s,
                NextAllowedAt = lastAllowed s + halfOpenInterval (cfg b),
                TriggeredBy = triggerSource s\<rparr>)"

definition ResetTarget :: "breaker \<Rightarrow> nsname \<Rightarrow> breaker" where
  "ResetTarget b t = b\<lparr>targets := del t (targets b)\<rparr>"

section \<open>The two critical sections of RecordEvent\<close>

text \<open>
  The breaker as concurrent calls see it: \<open>sh_states\<close> is the heap of target states, a pointer is an
  index into it, and the map holds pointers. A call keeps its pointer after the map dropped the
  target.
\<close>

record shared =
  sh_cfg :: config
  sh_targets :: "(nsname, nat) gomap"
  sh_states :: "bucket list"
  sh_controller :: string
  sh_metrics :: "metric list"

definition new_shared :: "string \<Rightarrow> (config \<Rightarrow> config) list \<Rightarrow> shared" where
  "new_shared ctrl opts =
     \<lparr>sh_cfg = foldl (\<lambda>c opt. opt c) default_config opts, sh_targets = [], sh_states = [],
      sh_controller = ctrl, sh_metrics = []\<rparr>"

text \<open>
  Under the breaker's lock: find or add the target's state. \<open>rd p\<close> is the \<^verbatim>\<open>lastRefill\<close> the
  garbage collection reads from state \<open>p\<close>, which other calls may be changing.
\<close>

definition lock_target ::
  "shared \<Rightarrow> go_time \<Rightarrow> (nat \<Rightarrow> go_time) \<Rightarrow> nsname \<Rightarrow> shared \<times> nat" where
  "lock_target b now rd t =
     (case map_of (sh_targets b) t of
        Some p \<Rightarrow> (b, p)
      | None \<Rightarrow>
          (let kept = filter (\<lambda>(_, p). \<not> time_sub now (rd p) > expireAfter (sh_cfg b)) (sh_targets b);
               p = length (sh_states b)
           in (b\<lparr>sh_targets := put t p kept,
                  sh_states := sh_states b @ [new_bucket (sh_cfg b) now]\<rparr>, p)))"

text \<open>Under the target's lock: the rest of the call, at the clock reading of its first half.\<close>

definition apply_event ::
  "shared \<Rightarrow> go_time \<Rightarrow> nat \<Rightarrow> event_source \<Rightarrow> event_type \<Rightarrow> shared" where
  "apply_event b now p es et =
     (case record_bucket (sh_cfg b) (sh_controller b) now es et (sh_states b ! p) of
        (s, ms) \<Rightarrow> b\<lparr>sh_states := (sh_states b)[p := s], sh_metrics := sh_metrics b @ ms\<rparr>)"

definition shared_ResetTarget :: "shared \<Rightarrow> nsname \<Rightarrow> shared" where
  "shared_ResetTarget b t = b\<lparr>sh_targets := del t (sh_targets b)\<rparr>"

section \<open>NopBreaker\<close>

definition nop_GetState :: "unit \<Rightarrow> nsname \<Rightarrow> State" where
  "nop_GetState n t = closed_State"

definition nop_RecordEvent ::
  "unit \<Rightarrow> go_time \<Rightarrow> nsname \<Rightarrow> event_source \<Rightarrow> event_type \<Rightarrow> unit" where
  "nop_RecordEvent n now t es et = ()"

definition nop_ResetTarget :: "unit \<Rightarrow> nsname \<Rightarrow> unit" where
  "nop_ResetTarget n t = ()"

section \<open>The map functions\<close>

text \<open>
  \<^verbatim>\<open>NewMapFunc\<close> over any implementation of \<^verbatim>\<open>Breaker\<close>, given by its three methods. The object's
  kind, name and namespace are the event source; \<open>deleting\<close> is whether it has a deletion
  timestamp. \<open>clk i\<close> is what the clock shows while request \<open>i\<close> is handled: first to
  \<^verbatim>\<open>NewMapFunc\<close>, then to \<^verbatim>\<open>RecordEvent\<close>.
\<close>

type_synonym clock = "(go_time \<times> go_time)"

fun map_requests ::
  "('b \<Rightarrow> nsname \<Rightarrow> State) \<Rightarrow> ('b \<Rightarrow> go_time \<Rightarrow> nsname \<Rightarrow> event_source \<Rightarrow> event_type \<Rightarrow> 'b) \<Rightarrow>
   event_source \<Rightarrow> bool \<Rightarrow> 'b \<Rightarrow> (nsname \<times> clock) list \<Rightarrow> nsname list \<times> 'b" where
  "map_requests get rec source deleting b [] = ([], b)"
| "map_requests get rec source deleting b ((req, now, now') # reqs) =
     (if deleting then
        (case map_requests get rec source deleting b reqs of (keep, b') \<Rightarrow> (req # keep, b'))
      else
        (let state = get b req in
         if \<not> IsOpen state then
           (case map_requests get rec source deleting (rec b now' req source EventAllowed) reqs of
              (keep, b') \<Rightarrow> (req # keep, b'))
         else if now > NextAllowedAt state then
           (case map_requests get rec source deleting
                   (rec b now' req source EventHalfOpenAllowed) reqs of
              (keep, b') \<Rightarrow> (req # keep, b'))
         else map_requests get rec source deleting (rec b now' req source EventDropped) reqs))"

record watched =
  w_source :: event_source
  w_deletionTimestamp :: "go_time option"

definition NewMapFunc ::
  "('b \<Rightarrow> nsname \<Rightarrow> State) \<Rightarrow> ('b \<Rightarrow> go_time \<Rightarrow> nsname \<Rightarrow> event_source \<Rightarrow> event_type \<Rightarrow> 'b) \<Rightarrow>
   (watched \<Rightarrow> nsname list) \<Rightarrow> (nat \<Rightarrow> clock) \<Rightarrow> 'b \<Rightarrow> watched \<Rightarrow> nsname list \<times> 'b" where
  "NewMapFunc get rec wrapped clk b obj =
     (let requests = wrapped obj
      in map_requests get rec (w_source obj) (w_deletionTimestamp obj \<noteq> None) b
           (zip requests (map clk [0..<length requests])))"

definition NewSelfDeleteResetMapFunc ::
  "('b \<Rightarrow> nsname \<Rightarrow> 'b) \<Rightarrow> (watched \<Rightarrow> nsname list) \<Rightarrow> 'b \<Rightarrow> watched \<Rightarrow> nsname list \<times> 'b" where
  "NewSelfDeleteResetMapFunc reset wrapped b obj =
     (let requests = wrapped obj
      in (requests,
          if w_deletionTimestamp obj \<noteq> None then foldl reset b requests else b))"

end
