(* ===== verification/CircuitCorrect.thy ===== *)
theory CircuitCorrect
  imports Circuit "HOL-Library.Sublist"
begin

text \<open>
  Correctness of the circuit breaker: the map functions, proved against the interface
  \<^verbatim>\<open>Breaker\<close> and interpreted for both implementations, and what one event does to the state of
  its target.
\<close>

section \<open>The interface\<close>

locale breaker_contract =
  fixes get :: "'b \<Rightarrow> nsname \<Rightarrow> State"
    and rec :: "'b \<Rightarrow> go_time \<Rightarrow> nsname \<Rightarrow> event_source \<Rightarrow> event_type \<Rightarrow> 'b"
    and reset :: "'b \<Rightarrow> nsname \<Rightarrow> 'b"
    and inv :: "'b \<Rightarrow> bool"
  assumes reset_same: "get (reset b t) t = closed_State"
    and reset_other: "t' \<noteq> t \<Longrightarrow> get (reset b t) t' = get b t'"
    and record_inv: "inv b \<Longrightarrow> inv (rec b now t es et)"
    and record_other: "inv b \<Longrightarrow> t' \<noteq> t \<Longrightarrow>
      get (rec b now t es et) t' = get b t' \<or> get (rec b now t es et) t' = closed_State"
begin

text \<open>A deletion resets every request and nothing else.\<close>

lemma foldl_reset:
  "get (foldl reset b ts) t = (if t \<in> set ts then closed_State else get b t)"
proof (induction ts rule: rev_induct)
  case Nil
  show ?case by simp
next
  case (snoc x ts)
  show ?case
  proof (cases "t = x")
    case True
    then show ?thesis by (simp add: reset_same)
  next
    case False
    then show ?thesis using snoc by (simp add: reset_other)
  qed
qed

text \<open>A request is admitted when its target is closed or a probe is due.\<close>

definition admits :: "'b \<Rightarrow> go_time \<Rightarrow> nsname \<Rightarrow> bool" where
  "admits b now t \<longleftrightarrow> \<not> IsOpen (get b t) \<or> now > NextAllowedAt (get b t)"

lemma admits_record:
  "inv b \<Longrightarrow> t' \<noteq> t \<Longrightarrow> admits b now t' \<Longrightarrow> admits (rec b u t es et) now t'"
  using record_other [of b t' t u es et] by (auto simp: admits_def closed_State_def)

lemma kept:
  "inv b \<Longrightarrow> distinct (map fst reqs) \<Longrightarrow> (t, now, now') \<in> set reqs \<Longrightarrow> admits b now t \<Longrightarrow>
     t \<in> set (fst (map_requests get rec es dlt b reqs))"
proof (induction reqs arbitrary: b)
  case (Cons r reqs)
  obtain q n n' where r: "r = (q, n, n')" by (cases r)
  show ?case
  proof (cases "(t, now, now') = r")
    case True
    with Cons.prems r show ?thesis
      by (auto simp: admits_def Let_def split: prod.splits)
  next
    case False
    with Cons.prems r have *: "distinct (map fst reqs)" "(t, now, now') \<in> set reqs" "t \<noteq> q"
      by (auto simp: rev_image_eqI)
    have "t \<in> set (fst (map_requests get rec es dlt (rec b n' q es et) reqs))" for et
      by (rule Cons.IH [OF record_inv [OF Cons.prems(1)] *(1,2)
            admits_record [OF Cons.prems(1) *(3) Cons.prems(4)]])
    moreover have "t \<in> set (fst (map_requests get rec es dlt b reqs))"
      by (rule Cons.IH [OF Cons.prems(1) *(1,2) Cons.prems(4)])
    ultimately show ?thesis by (cases dlt) (simp_all add: r Let_def case_prod_unfold)
  qed
qed simp

end

lemma map_requests_subseq: "subseq (fst (map_requests get rec es dlt b reqs)) (map fst reqs)"
  by (induction get rec es dlt b reqs rule: map_requests.induct)
    (auto simp: Let_def split: prod.splits)

lemma map_requests_deleting: "map_requests get rec es True b reqs = (map fst reqs, b)"
  by (induction reqs) (auto split: prod.splits)

section \<open>The two breakers\<close>

lemma map_of_filter_distinct:
  "distinct (map fst m) \<Longrightarrow> map_of (filter (\<lambda>(k, v). P v) m) k =
     (case map_of m k of Some v \<Rightarrow> if P v then Some v else None | None \<Rightarrow> None)"
  by (induction m) (auto split: option.splits simp: map_of_eq_None_iff image_iff)

lemma map_of_filter_None: "map_of m k = None \<Longrightarrow> map_of (filter P m) k = None"
  by (auto simp: map_of_eq_None_iff)

lemma ensure_target_same:
  "map_of (ensure_target c now t m) t = Some (case map_of m t of Some s \<Rightarrow> s | None \<Rightarrow> new_bucket c now)"
  by (auto simp: ensure_target_def split: option.splits)

lemma GetState_nodistinct:
  "GetState b t = (case map_of (targets b) t of None \<Rightarrow> closed_State | Some s \<Rightarrow>
     if isOpen s then \<lparr>IsOpen = True, NextAllowedAt = lastAllowed s + halfOpenInterval (cfg b),
        TriggeredBy = triggerSource s\<rparr> else closed_State)"
  by (auto simp: GetState_def split: option.splits)

lemma RecordEvent_targets:
  "map_of (targets (RecordEvent b now t es et)) t' =
     (if t' = t then Some (fst (record_bucket (cfg b) (controller b) now es et
          (case map_of (targets b) t of Some s \<Rightarrow> s | None \<Rightarrow> new_bucket (cfg b) now)))
      else map_of (ensure_target (cfg b) now t (targets b)) t')"
  by (auto simp: RecordEvent_def Let_def ensure_target_same case_prod_unfold)

lemma RecordEvent_fixed [simp]:
  "cfg (RecordEvent b now t es et) = cfg b" "controller (RecordEvent b now t es et) = controller b"
  by (simp_all add: RecordEvent_def Let_def case_prod_unfold)

lemma distinct_filter_fst: "distinct (map fst m) \<Longrightarrow> distinct (map fst (filter P m))"
  by (induction m) auto

lemma distinct_ensure:
  "distinct (map fst m) \<Longrightarrow> distinct (map fst (ensure_target c now t m))"
  by (simp add: ensure_target_def distinct_filter_fst split: option.splits)

lemma distinct_RecordEvent:
  "distinct (map fst (targets b)) \<Longrightarrow> distinct (map fst (targets (RecordEvent b now t es et)))"
  by (simp add: RecordEvent_def Let_def case_prod_unfold distinct_ensure)

interpretation token_bucket:
  breaker_contract GetState RecordEvent ResetTarget "\<lambda>b. distinct (map fst (targets b))"
proof
  fix b :: breaker and t :: nsname and now es et
  assume "distinct (map fst (targets b))"
  then show "distinct (map fst (targets (RecordEvent b now t es et)))" by (rule distinct_RecordEvent)
next
  fix b :: breaker and t t' :: nsname and now es et
  assume d: "distinct (map fst (targets b))" and "t' \<noteq> t"
  then have "map_of (targets (RecordEvent b now t es et)) t' = map_of (targets b) t' \<or>
      map_of (targets (RecordEvent b now t es et)) t' = None"
    by (auto simp: RecordEvent_targets ensure_target_def map_of_filter_distinct split: option.splits)
  then show "GetState (RecordEvent b now t es et) t' = GetState b t' \<or>
      GetState (RecordEvent b now t es et) t' = closed_State"
    by (auto simp: GetState_nodistinct split: option.splits)
qed (auto simp: GetState_nodistinct ResetTarget_def split: option.splits)

interpretation nop: breaker_contract nop_GetState nop_RecordEvent nop_ResetTarget "\<lambda>_. True"
  by unfold_locales (simp_all add: nop_GetState_def)

text \<open>
  \<^verbatim>\<open>NewMapFunc\<close> over a token bucket breaker passes its requests on in order, all of them and
  without touching the breaker when the object is being deleted; otherwise no request is dropped
  whose circuit is closed or whose next probe is due.
\<close>

theorem NewMapFunc_keeps:
  assumes "distinct (map fst (targets b))" "distinct (wrapped obj)"
    "NewMapFunc GetState RecordEvent wrapped clk b obj = (keep, b')"
  shows "subseq keep (wrapped obj) \<and>
    (w_deletionTimestamp obj \<noteq> None \<longrightarrow> keep = wrapped obj \<and> b' = b) \<and>
    (\<forall>i < length (wrapped obj).
       (\<not> IsOpen (GetState b (wrapped obj ! i)) \<or>
        fst (clk i) > NextAllowedAt (GetState b (wrapped obj ! i))) \<longrightarrow> wrapped obj ! i \<in> set keep)"
proof -
  let ?reqs = "zip (wrapped obj) (map clk [0..<length (wrapped obj)])"
  have k: "keep = fst (map_requests GetState RecordEvent (w_source obj)
      (w_deletionTimestamp obj \<noteq> None) b ?reqs)"
    "map_requests GetState RecordEvent (w_source obj) (w_deletionTimestamp obj \<noteq> None) b ?reqs = (keep, b')"
    using assms(3) by (simp_all add: NewMapFunc_def Let_def)
  have reqs: "map fst ?reqs = wrapped obj" by (rule map_fst_zip) simp
  have "wrapped obj ! i \<in> set keep"
    if "i < length (wrapped obj)" "\<not> IsOpen (GetState b (wrapped obj ! i)) \<or>
        fst (clk i) > NextAllowedAt (GetState b (wrapped obj ! i))" for i
  proof -
    have "(wrapped obj ! i, fst (clk i), snd (clk i)) \<in> set ?reqs"
      using that(1) by (auto simp: set_zip)
    then show ?thesis unfolding k(1)
      by (rule token_bucket.kept [rotated 2])
        (use assms(1,2) that in \<open>simp_all add: reqs token_bucket.admits_def\<close>)
  qed
  moreover have "subseq keep (wrapped obj)"
    using map_requests_subseq [of GetState RecordEvent _ _ b ?reqs] by (simp add: k(1) reqs)
  moreover have "keep = wrapped obj \<and> b' = b" if "w_deletionTimestamp obj \<noteq> None"
    using k(2) that by (simp add: map_requests_deleting reqs)
  ultimately show ?thesis by blast
qed

definition some_source :: event_source where
  "some_source = \<lparr>es_Kind = ''Pod'', es_Name = ''p'', es_Namespace = []\<rparr>"

definition two_requests :: "watched \<Rightarrow> nsname list" where
  "two_requests w = [(''ns'', ''a''), (''ns'', ''b'')]"

definition open_bucket :: bucket where
  "open_bucket = (new_bucket default_config 0)\<lparr>tokens := 0, isOpen := True\<rparr>"

definition one_open :: breaker where
  "one_open = (NewTokenBucketBreaker ''xr'' [])\<lparr>targets := [((''ns'', ''a''), open_bucket)]\<rparr>"

theorem NewMapFunc_keeps_witness:
  "let keep = fst (NewMapFunc GetState RecordEvent two_requests (\<lambda>_. (- seconds 70000000000, 0)) one_open
       \<lparr>w_source = some_source, w_deletionTimestamp = None\<rparr>)
   in subseq keep [(''ns'', ''a''), (''ns'', ''b'')] \<and> (''ns'', ''b'') \<in> set keep"
proof -
  let ?w = "\<lparr>w_source = some_source, w_deletionTimestamp = None\<rparr>"
  let ?r = "NewMapFunc GetState RecordEvent two_requests (\<lambda>_. (- seconds 70000000000, 0)) one_open ?w"
  have "subseq (fst ?r) (two_requests ?w) \<and>
    (w_deletionTimestamp ?w \<noteq> None \<longrightarrow> fst ?r = two_requests ?w \<and> snd ?r = one_open) \<and>
    (\<forall>i < length (two_requests ?w).
       (\<not> IsOpen (GetState one_open (two_requests ?w ! i)) \<or>
        - seconds 70000000000 > NextAllowedAt (GetState one_open (two_requests ?w ! i))) \<longrightarrow>
       two_requests ?w ! i \<in> set (fst ?r))"
    using NewMapFunc_keeps [of one_open two_requests ?w "\<lambda>_. (- seconds 70000000000, 0)" "fst ?r" "snd ?r"]
    by (simp add: two_requests_def one_open_def NewTokenBucketBreaker_def)
  moreover have "\<not> IsOpen (GetState one_open (''ns'', ''b''))"
    by (simp add: one_open_def NewTokenBucketBreaker_def GetState_def closed_State_def)
  ultimately show ?thesis by (auto simp: two_requests_def Let_def less_Suc_eq)
qed

section \<open>One event\<close>

definition bucket_ok :: "config \<Rightarrow> go_time \<Rightarrow> bucket \<Rightarrow> bool" where
  "bucket_ok c now s \<longleftrightarrow> 0 \<le> tokens s \<and> tokens s \<le> capacity c \<and> fl (tokens s) = tokens s \<and>
     length (recentSources s) = 16 \<and> recentIdx s < 16 \<and> lastRefill s \<le> now \<and>
     (isOpen s \<longrightarrow> openedAt s \<le> lastAllowed s \<and> lastAllowed s \<le> now)"

definition config_ok :: "config \<Rightarrow> bool" where
  "config_ok c \<longleftrightarrow> 0 \<le> capacity c \<and> capacity c < 2 ^ 53 \<and> fl (capacity c) = capacity c \<and>
     0 \<le> refillRatePerSecond c"

lemma new_bucket_ok: "config_ok c \<Longrightarrow> bucket_ok c now (new_bucket c now)"
  by (simp add: bucket_ok_def config_ok_def new_bucket_def)

lemma refill_ok:
  assumes "config_ok c" "bucket_ok c now s" "now \<le> now'"
  shows "bucket_ok c now' (refill c now' s)"
proof -
  let ?x = "fl (tokens s + fl (refillRatePerSecond c * Seconds (time_sub now' (lastRefill s))))"
  have "0 \<le> fl (refillRatePerSecond c * Seconds (time_sub now' (lastRefill s)))"
    using assms by (intro fl_nonneg mult_nonneg_nonneg Seconds_nonneg time_sub_nonneg)
      (auto simp: config_ok_def bucket_ok_def)
  then have sum: "0 \<le> tokens s + fl (refillRatePerSecond c * Seconds (time_sub now' (lastRefill s)))"
    using assms(2) by (simp add: bucket_ok_def)
  then have "0 \<le> ?x" "fl ?x = ?x" by (simp_all only: fl_nonneg fl_idem)
  then have "0 \<le> min (capacity c) ?x" "fl (min (capacity c) ?x) = min (capacity c) ?x"
    using assms(1) by (auto simp: config_ok_def min_def)
  then show ?thesis using assms by (auto simp: refill_def Let_def bucket_ok_def)
qed

lemma push_source_ok: "bucket_ok c now s \<Longrightarrow> bucket_ok c now (push_source src s)"
  by (auto simp: push_source_def bucket_ok_def)

lemma spend_ok:
  assumes "config_ok c" "bucket_ok c now s"
  shows "bucket_ok c now (fst (spend ctrl now et s))"
proof (cases "1 \<le> tokens s")
  case True
  have "tokens s < 2 ^ 53" using assms by (simp add: bucket_ok_def config_ok_def)
  then have "fl (tokens s - 1) = tokens s - 1"
    using True assms by (intro fl_minus_1) (simp_all add: bucket_ok_def)
  with True assms(2) show ?thesis by (simp add: spend_def bucket_ok_def)
qed (use assms(2) in \<open>simp add: spend_def bucket_ok_def\<close>)

lemma record_bucket_ok:
  assumes "config_ok c" "bucket_ok c now s" "now \<le> now'"
  shows "bucket_ok c now' (fst (record_bucket c ctrl now' es et s))"
proof -
  let ?s = "push_source (source_String es) (refill c now' s)"
  have s: "bucket_ok c now' ?s" by (rule push_source_ok [OF refill_ok [OF assms]])
  let ?s1 = "if et = EventHalfOpenAllowed then ?s\<lparr>lastAllowed := now'\<rparr> else ?s"
  have s1: "bucket_ok c now' ?s1" using s by (auto simp: bucket_ok_def)
  have "bucket_ok c now' (clear_sources (?s1\<lparr>isOpen := False\<rparr>))"
    using s1 by (auto simp: bucket_ok_def clear_sources_def)
  then show ?thesis
    using s s1 by (auto simp: record_bucket_def Let_def case_prod_unfold intro: spend_ok [OF assms(1)])
qed

lemma default_config_ok: "config_ok (cfg (NewTokenBucketBreaker ctrl []))"
  using fl_of_int [of 100] by (simp add: config_ok_def NewTokenBucketBreaker_def default_config_def)

end
