(* ===== verification/CircuitBurst.thy ===== *)
theory CircuitBurst
  imports CircuitCorrect
begin

text \<open>
  What the token bucket admits and when it opens, how an open circuit paces its probes, and which
  source it blames.
\<close>

section \<open>Bursts\<close>

text \<open>Events of the given types, all at one reading of the clock.\<close>

definition burst ::
  "breaker \<Rightarrow> go_time \<Rightarrow> nsname \<Rightarrow> event_source \<Rightarrow> event_type list \<Rightarrow> breaker" where
  "burst b now t es ets = foldl (\<lambda>b et. RecordEvent b now t es et) b ets"

definition target_bucket :: "breaker \<Rightarrow> go_time \<Rightarrow> nsname \<Rightarrow> bucket" where
  "target_bucket b now t =
     (case map_of (targets b) t of Some s \<Rightarrow> s | None \<Rightarrow> new_bucket (cfg b) now)"

lemma target_bucket_Record:
  "target_bucket (RecordEvent b now t es et) now t =
     fst (record_bucket (cfg b) (controller b) now es et (target_bucket b now t))"
  by (simp add: target_bucket_def RecordEvent_targets)

lemma refill_now:
  assumes "lastRefill s = now" "fl (tokens s) = tokens s" "tokens s \<le> capacity c"
  shows "refill c now s = s"
  using assms by (simp add: refill_def time_sub_def min_duration_def max_duration_def min_def)

text \<open>One event of a burst: a token less, or the circuit opens and stays open.\<close>

definition burst_at :: "config \<Rightarrow> go_time \<Rightarrow> nat \<Rightarrow> bucket \<Rightarrow> bool" where
  "burst_at c now n s \<longleftrightarrow> lastRefill s = now \<and> fl (tokens s) = tokens s \<and> 0 \<le> tokens s \<and>
     tokens s = capacity c - of_nat (min n (nat \<lfloor>capacity c\<rfloor>)) \<and> (isOpen s \<longleftrightarrow> nat \<lfloor>capacity c\<rfloor> < n)"

lemma burst_step:
  assumes "config_ok c" "burst_at c now n s"
  shows "burst_at c now (Suc n) (fst (record_bucket c ctrl now es et s))"
proof -
  let ?k = "nat \<lfloor>capacity c\<rfloor>"
  have k: "of_nat ?k \<le> capacity c" "capacity c < of_nat ?k + 1"
    using assms(1) by (auto simp: config_ok_def)
  have cap: "tokens s \<le> capacity c" using assms(2) by (auto simp: burst_at_def)
  have r: "refill c now s = s" using assms cap by (intro refill_now) (auto simp: burst_at_def)
  show ?thesis
  proof (cases "n < ?k")
    case True
    then have tok: "tokens s = capacity c - of_nat n" "\<not> isOpen s" using assms(2)
      by (auto simp: burst_at_def)
    have "of_nat (Suc n) \<le> (of_nat ?k :: real)" using True by (simp only: of_nat_le_iff Suc_le_eq)
    with k tok have ge: "1 \<le> tokens s" by simp
    have "fl (tokens s - 1) = tokens s - 1"
      using ge assms cap by (intro fl_minus_1) (auto simp: burst_at_def config_ok_def)
    then show ?thesis using tok ge True assms(2) r
      by (auto simp: record_bucket_def Let_def spend_def burst_at_def push_source_def)
  next
    case False
    then have tok: "tokens s = capacity c - of_nat ?k" using assms(2) by (auto simp: burst_at_def min_def)
    with k(2) have "\<not> 1 \<le> tokens s" by (simp only: tok)
    then show ?thesis using tok False assms(2) r
      by (auto simp: record_bucket_def Let_def spend_def burst_at_def push_source_def
          clear_sources_def min_def)
  qed
qed

lemma burst_bucket:
  assumes "config_ok (cfg b)" "map_of (targets b) t = None"
  shows "burst_at (cfg b) now (length ets) (target_bucket (burst b now t es ets) now t) \<and>
    cfg (burst b now t es ets) = cfg b"
proof (induction ets rule: rev_induct)
  case Nil
  show ?case
    using assms by (simp add: burst_def target_bucket_def burst_at_def new_bucket_def config_ok_def)
next
  case (snoc et ets)
  let ?b = "burst b now t es ets"
  have "burst b now t es (ets @ [et]) = RecordEvent ?b now t es et" by (simp add: burst_def)
  then show ?case
    using snoc burst_step [OF assms(1), of now "length ets" "target_bucket ?b now t" "controller ?b" es et]
    by (simp add: target_bucket_Record)
qed

text \<open>
  C25: A target without state admits a burst of as many events as its capacity has whole tokens:
  after events at one instant its circuit is open exactly when they were more than that.
\<close>

theorem burst_exact:
  assumes "config_ok (cfg b)" "map_of (targets b) t = None"
  shows "IsOpen (GetState (burst b now t es ets) t) \<longleftrightarrow> nat \<lfloor>capacity (cfg b)\<rfloor> < length ets"
proof -
  have "IsOpen (GetState (burst b now t es ets) t) \<longleftrightarrow> isOpen (target_bucket (burst b now t es ets) now t)"
    by (auto simp: GetState_nodistinct target_bucket_def closed_State_def new_bucket_def split: option.splits)
  also have "\<dots> \<longleftrightarrow> nat \<lfloor>capacity (cfg b)\<rfloor> < length ets"
    using burst_bucket [OF assms, of now ets es] by (simp add: burst_at_def)
  finally show ?thesis .
qed

theorem burst_exact_witness:
  "\<not> IsOpen (GetState (burst (NewTokenBucketBreaker ''xr'' []) 7 (''ns'', ''a'') some_source
       (replicate 100 EventAllowed)) (''ns'', ''a'')) \<and>
   IsOpen (GetState (burst (NewTokenBucketBreaker ''xr'' []) 7 (''ns'', ''a'') some_source
       (replicate 101 EventAllowed)) (''ns'', ''a''))"
  using burst_exact [OF default_config_ok, of "''xr''" "(''ns'', ''a'')" 7 some_source
      "replicate 100 EventAllowed"]
    burst_exact [OF default_config_ok, of "''xr''" "(''ns'', ''a'')" 7 some_source
      "replicate 101 EventAllowed"]
  by (simp add: NewTokenBucketBreaker_def default_config_def)

section \<open>Probing an open circuit\<close>

text \<open>
  While an open circuit cools down every event leaves it open and takes no token; an admitted
  probe, and nothing else, moves the next probe to one half-open interval from now.
\<close>

theorem half_open_probe:
  assumes "map_of (targets b) t = Some s" "isOpen s" "time_sub now (openedAt s) < cooldownTime (cfg b)"
  shows "GetState (RecordEvent b now t es et) t =
      \<lparr>IsOpen = True,
       NextAllowedAt = (if et = EventHalfOpenAllowed then now + halfOpenInterval (cfg b)
          else NextAllowedAt (GetState b t)),
       TriggeredBy = TriggeredBy (GetState b t)\<rparr> \<and>
    metrics (RecordEvent b now t es et) = metrics b @ [IncEvent (controller b) et] \<and>
    tokens (the (map_of (targets (RecordEvent b now t es et)) t)) = tokens (refill (cfg b) now s)"
proof -
  let ?s = "push_source (source_String es) (refill (cfg b) now s)"
  let ?s1 = "if et = EventHalfOpenAllowed then ?s\<lparr>lastAllowed := now\<rparr> else ?s"
  have s: "isOpen ?s" "openedAt ?s = openedAt s" "lastAllowed ?s = lastAllowed s"
    "triggerSource ?s = triggerSource s" "tokens ?s = tokens (refill (cfg b) now s)"
    using assms(2) by (simp_all add: push_source_def refill_def Let_def)
  have "record_bucket (cfg b) (controller b) now es et s = (?s1, [IncEvent (controller b) et])"
    using assms(3) s by (simp add: record_bucket_def Let_def)
  moreover have "ensure_target (cfg b) now t (targets b) = targets b"
    using assms(1) by (simp add: ensure_target_def)
  ultimately have r: "RecordEvent b now t es et =
      b\<lparr>targets := put t ?s1 (targets b), metrics := metrics b @ [IncEvent (controller b) et]\<rparr>"
    using assms(1) by (simp add: RecordEvent_def)
  show ?thesis unfolding r using s assms(1,2) by (simp add: GetState_def)
qed

theorem half_open_probe_witness:
  "NextAllowedAt (GetState (RecordEvent one_open (zero_time + 1) (''ns'', ''a'') some_source EventHalfOpenAllowed)
     (''ns'', ''a'')) = zero_time + 1 + seconds 30"
  using half_open_probe [of one_open "(''ns'', ''a'')" open_bucket "zero_time + 1" some_source EventHalfOpenAllowed]
  by (simp add: one_open_def open_bucket_def NewTokenBucketBreaker_def new_bucket_def default_config_def
      time_sub_def min_duration_def max_duration_def)

section \<open>The blamed source\<close>

lemma count_list_put:
  "map_of events src = (if src \<in> set seen then Some (count_list seen src) else None) \<Longrightarrow>
     (case map_of events src of None \<Rightarrow> 0 | Some k \<Rightarrow> k) = count_list seen src"
  by (auto simp: count_notin)

lemma most_frequent_gen:
  assumes "\<forall>x. map_of events x = (if x \<in> set seen then Some (count_list seen x) else None)"
    "\<forall>x. count_list seen x \<le> m" "m = 0 \<and> seen = [] \<or> best \<in> set seen \<and> count_list seen best = m"
    "[] \<notin> set seen"
  shows "let out = most_frequent srcs events m best;
             all = seen @ filter (\<lambda>x. x \<noteq> []) srcs
         in (all = [] \<longrightarrow> out = best) \<and>
            (all \<noteq> [] \<longrightarrow> out \<in> set all \<and> (\<forall>x. count_list all x \<le> count_list all out))"
  using assms
proof (induction srcs arbitrary: events m best seen)
  case Nil
  then show ?case by (auto simp: Let_def)
next
  case (Cons src srcs)
  show ?case
  proof (cases "src = []")
    case True
    then show ?thesis using Cons by simp
  next
    case False
    let ?seen = "seen @ [src]"
    let ?n = "Suc (count_list seen src)"
    have n: "(case map_of events src of None \<Rightarrow> 0 | Some k \<Rightarrow> k) = count_list seen src"
      using Cons.prems(1) by (intro count_list_put) simp
    have ev: "\<forall>x. map_of (put src ?n events) x =
        (if x \<in> set ?seen then Some (count_list ?seen x) else None)"
      using Cons.prems(1) by (auto simp: count_list_append)
    have ne: "[] \<notin> set ?seen" using Cons.prems(4) False by auto
    show ?thesis
    proof (cases "?n < m")
      case True
      have "\<forall>x. count_list ?seen x \<le> m" using Cons.prems(2) True by (auto simp: count_list_append)
      moreover have "best \<in> set ?seen \<and> count_list ?seen best = m"
        using Cons.prems(3) True by (auto simp: count_list_append)
      ultimately show ?thesis
        using Cons.IH [OF ev _ _ ne, of m best] True False n by (simp add: Let_def)
    next
      case False
      then have "\<forall>x. count_list ?seen x \<le> ?n"
        using Cons.prems(2) by (auto simp: count_list_append intro: le_trans)
      moreover have "src \<in> set ?seen \<and> count_list ?seen src = ?n" by (simp add: count_list_append)
      ultimately show ?thesis
        using Cons.IH [OF ev _ _ ne, of ?n src] False \<open>src \<noteq> []\<close> n by (simp add: Let_def)
    qed
  qed
qed

text \<open>
  A closed circuit that opens blames a source with the most events in its ring buffer, the
  event that opened it among them.
\<close>

theorem trigger_most_frequent:
  assumes "\<not> isOpen s" "record_bucket c ctrl now es et s = (s', ms)" "isOpen s'"
    "recentIdx s < length (recentSources s)"
  shows "triggerSource s' \<in> set (recentSources s') \<and> source_String es \<in> set (recentSources s') \<and>
    (\<forall>x. x \<noteq> [] \<longrightarrow> count_list (recentSources s') x \<le> count_list (recentSources s') (triggerSource s'))"
proof -
  let ?ring = "(recentSources s)[recentIdx s := source_String es]"
  let ?s = "push_source (source_String es) (refill c now s)"
  have ring: "recentSources ?s = ?ring" by (simp add: push_source_def refill_def Let_def)
  have src: "source_String es \<in> set ?ring" using assms(4) by (rule set_update_memI)
  have ne: "source_String es \<noteq> []" by (simp add: source_String_def)
  have "record_bucket c ctrl now es et s = spend ctrl now et ?s"
    using assms(1) by (simp add: record_bucket_def Let_def push_source_def refill_def)
  with assms(1,2,3) have s': "recentSources s' = ?ring"
    "triggerSource s' = most_frequent ?ring [] 0 (triggerSource ?s)"
    by (auto simp: spend_def ring push_source_def refill_def Let_def split: if_splits)
  let ?f = "filter (\<lambda>x. x \<noteq> []) ?ring"
  have f: "?f \<noteq> []" using src ne by (auto simp: filter_empty_conv)
  have cnt: "count_list ?f x = count_list ?ring x" if "x \<noteq> []" for x
    using that by (simp add: count_list_eq_length_filter conj_commute cong: conj_cong)
      (metis (mono_tags, lifting) filter_cong)
  have t: "triggerSource s' \<in> set ?f" "\<And>x. count_list ?f x \<le> count_list ?f (triggerSource s')"
    using most_frequent_gen [of "[]" "[]" 0 "triggerSource ?s" ?ring] f unfolding s'
    by (simp_all add: Let_def)
  then have "triggerSource s' \<noteq> []" by simp
  then have "count_list ?ring x \<le> count_list ?ring (triggerSource s')" if "x \<noteq> []" for x
    using t(2) [of x] cnt that by simp
  then show ?thesis using src t(1) by (simp add: s'(1))
qed

lemma most_frequent_blank [simp]: "most_frequent (replicate n []) events m best = best"
  by (induction n) simp_all

definition empty_bucket :: bucket where
  "empty_bucket = (new_bucket default_config 0)\<lparr>tokens := 0,
     recentSources := [[], ''Pod/q'', ''Pod/p''] @ replicate 13 [], recentIdx := 0\<rparr>"

theorem trigger_most_frequent_witness:
  "triggerSource (fst (record_bucket default_config ''xr'' 0 some_source EventAllowed empty_bucket)) = ''Pod/p'' \<and>
   (let s' = fst (record_bucket default_config ''xr'' 0 some_source EventAllowed empty_bucket)
    in count_list (recentSources s') ''Pod/q'' \<le> count_list (recentSources s') (triggerSource s'))"
proof -
  let ?r = "record_bucket default_config ''xr'' 0 some_source EventAllowed empty_bucket"
  have r: "isOpen (fst ?r)" "triggerSource (fst ?r) = ''Pod/p''"
    by (simp_all add: record_bucket_def Let_def push_source_def refill_def spend_def empty_bucket_def
        new_bucket_def default_config_def some_source_def source_String_def time_sub_def
        min_duration_def max_duration_def)
  then show ?thesis
    using trigger_most_frequent [of empty_bucket default_config "''xr''" 0 some_source EventAllowed "fst ?r" "snd ?r"]
    by (simp add: Let_def empty_bucket_def new_bucket_def)
qed

text \<open>
  An open circuit that closes after its cool-down and finds no token opens again at once. The ring
  buffer was cleared in between, the event that opened it included, so it keeps blaming the source
  of the previous opening.
\<close>

lemma reopen_stale_trigger:
  assumes "isOpen s" "\<not> time_sub now (openedAt s) < cooldownTime c" "tokens (refill c now s) < 1"
  shows "\<exists>s'. record_bucket c ctrl now es et s = (s', [IncClose ctrl, IncOpen ctrl, IncEvent ctrl et]) \<and>
    isOpen s' \<and> openedAt s' = now \<and> triggerSource s' = triggerSource s \<and> set (recentSources s') \<subseteq> {[]}"
proof -
  show ?thesis using assms
    by (auto simp: record_bucket_def Let_def push_source_def refill_def spend_def clear_sources_def
        map_replicate_const)
qed

end
