(* ===== verification/CircuitSteps.thy ===== *)
theory CircuitSteps
  imports CircuitCorrect
begin

text \<open>
  Concurrent calls of the token bucket breaker. Each \<^verbatim>\<open>RecordEvent\<close> is two critical sections with
  other calls in between; the invariant holds for every interleaving of them. A call whose second
  section runs after that of a call with a later clock reading is \<open>late\<close> for its state, and what a
  late call can break is stated separately. \<open>RecordEvent_sections\<close> relates the two sections, run
  back to back, to the sequential \<open>RecordEvent\<close>.
\<close>

section \<open>The bounds no interleaving breaks\<close>

definition bucket_bounded :: "config \<Rightarrow> go_time \<Rightarrow> bucket \<Rightarrow> bool" where
  "bucket_bounded c now s \<longleftrightarrow> tokens s \<le> capacity c \<and>
     length (recentSources s) = 16 \<and> recentIdx s < 16 \<and> lastRefill s \<le> now \<and>
     (isOpen s \<longrightarrow> openedAt s \<le> now \<and> lastAllowed s \<le> now)"

lemma bucket_bounded_later: "bucket_bounded c now s \<Longrightarrow> now \<le> now' \<Longrightarrow> bucket_bounded c now' s"
  by (auto simp: bucket_bounded_def)

lemma new_bucket_bounded:
  "config_ok c \<Longrightarrow> n \<le> now \<Longrightarrow> bucket_bounded c now (new_bucket c n)"
  by (simp add: bucket_bounded_def config_ok_def new_bucket_def)

lemma refill_bounded:
  "config_ok c \<Longrightarrow> bucket_bounded c now s \<Longrightarrow> n \<le> now \<Longrightarrow> bucket_bounded c now (refill c n s)"
  by (auto simp: refill_def Let_def bucket_bounded_def config_ok_def min_def)

lemma push_source_bounded: "bucket_bounded c now s \<Longrightarrow> bucket_bounded c now (push_source src s)"
  by (auto simp: push_source_def bucket_bounded_def)

lemma spend_bounded:
  assumes "config_ok c" "bucket_bounded c now s" "n \<le> now"
  shows "bucket_bounded c now (fst (spend ctrl n et s))"
proof (cases "1 \<le> tokens s")
  case True
  have "fl (tokens s - 1) \<le> fl (capacity c)"
    using True assms(2) by (intro fl_mono_pos) (simp_all add: bucket_bounded_def)
  then have "fl (tokens s - 1) \<le> capacity c" using assms(1) by (simp add: config_ok_def)
  with True assms(2) show ?thesis by (simp add: spend_def bucket_bounded_def)
qed (use assms(2,3) in \<open>simp add: spend_def bucket_bounded_def\<close>)

lemma record_bucket_bounded:
  assumes "config_ok c" "bucket_bounded c now s" "n \<le> now"
  shows "bucket_bounded c now (fst (record_bucket c ctrl n es et s))"
proof -
  let ?s = "push_source (source_String es) (refill c n s)"
  have s: "bucket_bounded c now ?s" by (rule push_source_bounded [OF refill_bounded [OF assms]])
  let ?s1 = "if et = EventHalfOpenAllowed then ?s\<lparr>lastAllowed := n\<rparr> else ?s"
  have s1: "bucket_bounded c now ?s1" using s assms(3) by (auto simp: bucket_bounded_def)
  have "bucket_bounded c now (clear_sources (?s1\<lparr>isOpen := False\<rparr>))"
    using s1 by (auto simp: bucket_bounded_def clear_sources_def)
  then show ?thesis
    using s s1 by (auto simp: record_bucket_def Let_def case_prod_unfold
        intro: spend_bounded [OF assms(1) _ assms(3)])
qed

lemma spend_lastRefill [simp]: "lastRefill (fst (spend ctrl n et s)) = lastRefill s"
  by (simp add: spend_def)

lemma record_bucket_lastRefill [simp]: "lastRefill (fst (record_bucket c ctrl n es et s)) = n"
  by (simp add: record_bucket_def Let_def case_prod_unfold clear_sources_def push_source_def refill_def)

section \<open>Every interleaving\<close>

text \<open>
  A history has the shared breaker, the calls between their two sections (clock reading, pointer,
  source and type), the latest reading of the clock, which is read under the breaker's lock and
  does not go back, and the states a late call was applied to. The garbage collection may read
  any \<^verbatim>\<open>lastRefill\<close>.
\<close>

type_synonym pending = "(go_time \<times> nat \<times> event_source \<times> event_type) list"

inductive call_step ::
  "shared \<times> pending \<times> go_time \<times> nat set \<Rightarrow> shared \<times> pending \<times> go_time \<times> nat set \<Rightarrow> bool" where
  first_section: "now \<le> now' \<Longrightarrow> lock_target b now' rd t = (b', p) \<Longrightarrow>
    call_step (b, cs, now, late) (b', (now', p, es, et) # cs, now', late)"
| second_section: "(n, p, es, et) \<in> set cs \<Longrightarrow>
    call_step (b, cs, now, late)
      (apply_event b n p es et, remove1 (n, p, es, et) cs, now,
       if n < lastRefill (sh_states b ! p) then insert p late else late)"
| reset: "call_step (b, cs, now, late) (shared_ResetTarget b t, cs, now, late)"

definition state_ok :: "config \<Rightarrow> go_time \<Rightarrow> nat set \<Rightarrow> nat \<Rightarrow> bucket \<Rightarrow> bool" where
  "state_ok c now late p s \<longleftrightarrow>
     bucket_bounded c now s \<and> (p \<notin> late \<longrightarrow> bucket_ok c (lastRefill s) s)"

definition shared_ok :: "shared \<times> pending \<times> go_time \<times> nat set \<Rightarrow> bool" where
  "shared_ok x = (case x of (b, cs, now, late) \<Rightarrow>
     (\<forall>p < length (sh_states b). state_ok (sh_cfg b) now late p (sh_states b ! p)) \<and>
     (\<forall>p \<in> snd ` set (sh_targets b). p < length (sh_states b)) \<and> (\<forall>p \<in> late. p < length (sh_states b)) \<and>
     (\<forall>(n, p, _) \<in> set cs. n \<le> now \<and> p < length (sh_states b)))"

lemma target_ok_later: "state_ok c now late p s \<Longrightarrow> now \<le> now' \<Longrightarrow> state_ok c now' late p s"
  by (auto simp: state_ok_def intro: bucket_bounded_later)

lemma new_state_ok: "config_ok c \<Longrightarrow> state_ok c now late p (new_bucket c now)"
  using new_bucket_ok [of c now] by (simp add: state_ok_def new_bucket_bounded) (simp add: new_bucket_def)

lemma record_state_ok:
  assumes "config_ok c" "state_ok c now late p s" "n \<le> now"
  shows "state_ok c now (if n < lastRefill s then insert p late else late) p
    (fst (record_bucket c ctrl n es et s))"
  using assms record_bucket_ok [of c "lastRefill s" s n ctrl es et]
  by (auto simp: state_ok_def record_bucket_bounded)

lemma map_of_pointer: "map_of m t = Some p \<Longrightarrow> p \<in> snd ` set m"
  by (auto dest: map_of_SomeD intro: rev_image_eqI)

lemma put_pairs: "x \<in> set (put t p m) \<Longrightarrow> snd x = p \<or> x \<in> set m"
  by (induction m) (auto split: if_splits)

lemma put_pointers: "snd ` set (put t p m) \<subseteq> insert p (snd ` set m)"
  using put_pairs by (fastforce intro: rev_image_eqI)

lemma filter_pointers: "snd ` set (filter P m) \<subseteq> snd ` set m"
  by auto

lemma del_pointers: "snd ` set (del t m) \<subseteq> snd ` set m"
  by (auto simp: del_def AList.delete_eq)

lemma lock_target_ok:
  assumes "config_ok (sh_cfg b)" "shared_ok (b, cs, now, late)" "now \<le> now'"
    "lock_target b now' rd t = (b', p)"
  shows "shared_ok (b', (now', p, es, et) # cs, now', late) \<and> sh_cfg b' = sh_cfg b"
proof (cases "map_of (sh_targets b) t")
  case (Some q)
  then have "b' = b" "p = q" using assms(4) by (auto simp: lock_target_def)
  then show ?thesis using assms(2,3) map_of_pointer [OF Some]
    by (auto simp: shared_ok_def intro: target_ok_later order_trans)
next
  case None
  let ?kept = "filter (\<lambda>(_, p). \<not> time_sub now' (rd p) > expireAfter (sh_cfg b)) (sh_targets b)"
  let ?new = "new_bucket (sh_cfg b) now'"
  have b': "b' = b\<lparr>sh_targets := put t p ?kept, sh_states := sh_states b @ [?new]\<rparr>"
    and p: "p = length (sh_states b)"
    using assms(4) None by (auto simp: lock_target_def Let_def)
  have "state_ok (sh_cfg b) now' late q ((sh_states b @ [?new]) ! q)"
    if "q < Suc (length (sh_states b))" for q
  proof (cases "q = length (sh_states b)")
    case True
    then show ?thesis using new_state_ok [OF assms(1)] by simp
  next
    case False
    then have "state_ok (sh_cfg b) now late q (sh_states b ! q)"
      using assms(2) that by (simp add: shared_ok_def)
    then show ?thesis using that False target_ok_later [OF _ assms(3)] by (simp add: nth_append)
  qed
  moreover have "q < Suc (length (sh_states b))" if "q \<in> snd ` set (put t p ?kept)" for q
  proof -
    have "q = p \<or> q \<in> snd ` set (sh_targets b)"
      using that put_pointers [of t p ?kept] filter_pointers [of _ "sh_targets b"] by blast
    then show ?thesis using assms(2) p by (auto simp: shared_ok_def)
  qed
  moreover have "\<forall>(n, q, _) \<in> set cs. n \<le> now' \<and> q < Suc (length (sh_states b))"
    using assms(2,3) by (fastforce simp: shared_ok_def)
  moreover have "\<forall>q \<in> late. q < Suc (length (sh_states b))"
    using assms(2) by (auto simp: shared_ok_def intro: less_SucI)
  ultimately show ?thesis unfolding b' using p by (simp add: shared_ok_def)
qed

lemma apply_event_ok:
  assumes "config_ok (sh_cfg b)" "shared_ok (b, cs, now, late)" "(n, p, es, et) \<in> set cs"
  shows "shared_ok (apply_event b n p es et, remove1 (n, p, es, et) cs, now,
      if n < lastRefill (sh_states b ! p) then insert p late else late)"
proof -
  let ?late = "if n < lastRefill (sh_states b ! p) then insert p late else late"
  let ?s = "fst (record_bucket (sh_cfg b) (sh_controller b) n es et (sh_states b ! p))"
  have p: "n \<le> now" "p < length (sh_states b)" using assms(2,3) by (auto simp: shared_ok_def)
  have s: "state_ok (sh_cfg b) now ?late p ?s"
    using assms(2) p by (intro record_state_ok [OF assms(1)]) (simp_all add: shared_ok_def)
  have "state_ok (sh_cfg b) now ?late q ((sh_states b)[p := ?s] ! q)" if "q < length (sh_states b)" for q
  proof (cases "q = p")
    case True
    then show ?thesis using s p by simp
  next
    case False
    then have "state_ok (sh_cfg b) now late q (sh_states b ! q)"
      using assms(2) that by (simp add: shared_ok_def)
    then show ?thesis using False by (auto simp: state_ok_def)
  qed
  moreover have "\<forall>(n, p, _) \<in> set (remove1 (n, p, es, et) cs). n \<le> now \<and> p < length (sh_states b)"
    using assms(2) set_remove1_subset [of "(n, p, es, et)" cs] by (fastforce simp: shared_ok_def)
  ultimately show ?thesis
    using assms(2) p by (simp add: shared_ok_def apply_event_def case_prod_unfold)
qed

lemma reset_ok: "shared_ok (b, cs, now, late) \<Longrightarrow> shared_ok (shared_ResetTarget b t, cs, now, late)"
proof -
  assume ok: "shared_ok (b, cs, now, late)"
  then have "\<forall>p \<in> snd ` set (sh_targets b). p < length (sh_states b)"
    unfolding shared_ok_def prod.case by (elim conjE)
  then have "\<forall>p \<in> snd ` set (del t (sh_targets b)). p < length (sh_states b)"
    by (intro ballI) (erule bspec, erule subsetD [OF del_pointers])
  then show ?thesis using ok unfolding shared_ok_def shared_ResetTarget_def by simp
qed

lemma call_step_ok:
  assumes "call_step x y" "config_ok (sh_cfg (fst x))" "shared_ok x"
  shows "shared_ok y \<and> sh_cfg (fst y) = sh_cfg (fst x)"
  using assms
proof (induction rule: call_step.induct)
  case (first_section now now' b rd t b' p cs late es et)
  then show ?case using lock_target_ok [of b cs now late now' rd t b' p es et] by simp
next
  case (second_section n p es et cs b now late)
  then show ?case using apply_event_ok [of b cs now late n p es et]
    by (simp add: apply_event_def case_prod_unfold)
next
  case (reset b cs now late t)
  then show ?case using reset_ok [of b cs now late t] by (simp add: shared_ResetTarget_def)
qed

lemma call_steps_ok:
  "call_step\<^sup>*\<^sup>* x y \<Longrightarrow> config_ok (sh_cfg (fst x)) \<Longrightarrow> shared_ok x \<Longrightarrow>
     shared_ok y \<and> sh_cfg (fst y) = sh_cfg (fst x)"
  by (induction rule: rtranclp_induct) (use call_step_ok in auto)

text \<open>
  C20: From a new breaker with a capacity below \<open>2 ^ 53\<close> and a refill rate that is not negative,
  whichever way the two critical sections of concurrent events and the resets interleave, no
  target state, still in the map or not, exceeds the capacity, its ring buffer keeps 16 entries
  with the index inside, and its times are not in the future. A state no late call was applied to
  also keeps its tokens from going below 0 and its circuit's probe times in order.
\<close>

theorem circuit_invariant:
  assumes "call_step\<^sup>*\<^sup>* (new_shared ctrl opts, [], start, {}) (b, cs, now, late)"
    "config_ok (sh_cfg (new_shared ctrl opts))"
    "p < length (sh_states b)" "s = sh_states b ! p"
  shows "tokens s \<le> capacity (sh_cfg b) \<and> length (recentSources s) = 16 \<and> recentIdx s < 16 \<and>
    lastRefill s \<le> now \<and> (isOpen s \<longrightarrow> openedAt s \<le> now \<and> lastAllowed s \<le> now) \<and>
    (p \<notin> late \<longrightarrow> 0 \<le> tokens s \<and> (isOpen s \<longrightarrow> openedAt s \<le> lastAllowed s))"
proof -
  have "shared_ok (new_shared ctrl opts, [], start, {})" by (simp add: shared_ok_def new_shared_def)
  then have "shared_ok (b, cs, now, late) \<and> sh_cfg b = sh_cfg (new_shared ctrl opts)"
    using call_steps_ok [OF assms(1)] assms(2) by simp
  then have "\<forall>p < length (sh_states b). state_ok (sh_cfg b) now late p (sh_states b ! p)"
    unfolding shared_ok_def prod.case by (elim conjE)
  then have "state_ok (sh_cfg b) now late p s" using assms(3,4) by simp
  then show ?thesis by (auto simp: state_ok_def bucket_bounded_def bucket_ok_def)
qed

text \<open>Two calls on one target; the second finishes first, and the first is late.\<close>

definition early_call :: "shared \<times> nat" where
  "early_call = lock_target (new_shared ''xr'' [WithBurst 1]) 0 (\<lambda>_. 0) (''ns'', ''a'')"

definition both_calls :: shared where
  "both_calls = apply_event (fst early_call) (seconds 1) 0 some_source EventAllowed"

definition after_late_call :: shared where
  "after_late_call = apply_event both_calls 0 0 some_source EventAllowed"

lemma late_call_history:
  "call_step\<^sup>*\<^sup>* (new_shared ''xr'' [WithBurst 1], [], 0, {})
     (both_calls, [(0, 0, some_source, EventAllowed)], seconds 1, {}) \<and>
   call_step (both_calls, [(0, 0, some_source, EventAllowed)], seconds 1, {})
     (after_late_call, [], seconds 1, {0})"
proof -
  let ?init = "new_shared ''xr'' [WithBurst 1]" and ?e = "(0, 0, some_source, EventAllowed)"
  let ?b = "fst early_call"
  have early: "early_call = (?b, 0)" and late: "lastRefill (sh_states both_calls ! 0) = seconds 1"
    and again: "lock_target ?b (seconds 1) (\<lambda>_. 0) (''ns'', ''a'') = (?b, 0)"
    by (simp_all add: early_call_def both_calls_def lock_target_def new_shared_def Let_def
        apply_event_def case_prod_unfold)
  have "call_step (?init, [], 0, {}) (?b, [?e], 0, {})"
    using early by (intro first_section [where t = "(''ns'', ''a'')" and rd = "\<lambda>_. 0"])
      (simp_all add: early_call_def)
  moreover have "call_step (?b, [?e], 0, {}) (?b, [(seconds 1, 0, some_source, EventAllowed), ?e], seconds 1, {})"
    by (rule first_section [OF _ again]) simp
  moreover have "call_step (?b, [(seconds 1, 0, some_source, EventAllowed), ?e], seconds 1, {})
      (both_calls, [?e], seconds 1, {})"
    using second_section [of "seconds 1" 0 some_source EventAllowed
        "[(seconds 1, 0, some_source, EventAllowed), ?e]" ?b "seconds 1" "{}"]
    by (simp add: both_calls_def early_call_def lock_target_def new_shared_def Let_def new_bucket_def)
  moreover have "call_step (both_calls, [?e], seconds 1, {}) (after_late_call, [], seconds 1, {0})"
    using second_section [of 0 0 some_source EventAllowed "[?e]" both_calls "seconds 1" "{}"] late
    by (simp add: after_late_call_def)
  ultimately show ?thesis by (meson rtranclp.rtrancl_refl rtranclp.rtrancl_into_rtrancl)
qed

lemma WithBurst_1_ok: "config_ok (sh_cfg (new_shared ctrl [WithBurst 1]))"
  using fl_of_int [of 1] by (simp add: config_ok_def new_shared_def WithBurst_def default_config_def)

theorem circuit_invariant_witness:
  "0 \<le> tokens (sh_states both_calls ! 0) \<and> tokens (sh_states both_calls ! 0) \<le> 1 \<and>
   tokens (sh_states after_late_call ! 0) \<le> 1 \<and> length (recentSources (sh_states after_late_call ! 0)) = 16"
proof -
  have cap: "capacity (sh_cfg both_calls) = 1" "capacity (sh_cfg after_late_call) = 1"
    "length (sh_states both_calls) = 1" "length (sh_states after_late_call) = 1"
    by (simp_all add: after_late_call_def both_calls_def early_call_def lock_target_def new_shared_def
        Let_def apply_event_def case_prod_unfold WithBurst_def)
  have h: "call_step\<^sup>*\<^sup>* (new_shared ''xr'' [WithBurst 1], [], 0, {})
      (both_calls, [(0, 0, some_source, EventAllowed)], seconds 1, {})"
    "call_step\<^sup>*\<^sup>* (new_shared ''xr'' [WithBurst 1], [], 0, {}) (after_late_call, [], seconds 1, {0})"
    using late_call_history by (blast, meson rtranclp.rtrancl_into_rtrancl)
  show ?thesis
    using circuit_invariant [OF h(1) WithBurst_1_ok, of 0 "sh_states both_calls ! 0"]
      circuit_invariant [OF h(2) WithBurst_1_ok, of 0 "sh_states after_late_call ! 0"] cap by simp
qed

text \<open>
  The late call's negative elapsed time takes a token away: the bucket goes below 0, and the
  circuit that opens counts its cool-down from the earlier reading.
\<close>

lemma late_call_below_zero:
  "tokens (sh_states after_late_call ! 0) = -1 \<and> isOpen (sh_states after_late_call ! 0) \<and>
   openedAt (sh_states after_late_call ! 0) = 0"
proof -
  have s: "fl 1 = 1" "fl (-1) = -1" "fl 0 = 0" "fl 2 = 2"
    using fl_of_int [of 1] fl_of_int [of "-1"] fl_of_int [of 2] by simp_all
  have t: "Seconds (time_sub 0 (seconds 1)) = -1" "Seconds (time_sub (seconds 1) 0) = 1"
    using s by (simp_all add: Seconds_def time_sub_def min_duration_def max_duration_def)
  show ?thesis using s t
    by (simp add: after_late_call_def both_calls_def early_call_def lock_target_def new_shared_def
        Let_def apply_event_def case_prod_unfold WithBurst_def record_bucket_def refill_def spend_def
        push_source_def new_bucket_def default_config_def)
qed

section \<open>A call nothing interrupts\<close>

text \<open>The sequential breaker a shared one stands for, when no two names share a pointer.\<close>

definition seq_breaker :: "shared \<Rightarrow> breaker" where
  "seq_breaker b =
     \<lparr>cfg = sh_cfg b, targets = map (\<lambda>(t, p). (t, sh_states b ! p)) (sh_targets b),
      controller = sh_controller b, metrics = sh_metrics b\<rparr>"

definition pointers_ok :: "shared \<Rightarrow> bool" where
  "pointers_ok b \<longleftrightarrow> distinct (map snd (sh_targets b)) \<and>
     (\<forall>p \<in> snd ` set (sh_targets b). p < length (sh_states b))"

lemma map_of_seq: "map_of (map (\<lambda>(t, p). (t, f p)) m) t = map_option f (map_of m t)"
  by (induction m) auto

lemma put_state:
  assumes "map_of m t = Some p" "distinct (map snd m)" "\<forall>q \<in> snd ` set m. q < length ss"
  shows "map (\<lambda>(t, q). (t, ss[p := s] ! q)) m = put t s (map (\<lambda>(t, q). (t, ss ! q)) m)"
  using assms
proof (induction m)
  case (Cons x m)
  obtain t' q where x: "x = (t', q)" by (cases x)
  show ?case
  proof (cases "t' = t")
    case True
    then have "p = q" "p \<notin> snd ` set m" using Cons.prems(1,2) x by auto
    moreover have "ss[p := s] ! r = ss ! r" if "(t'', r) \<in> set m" for t'' r
      using that calculation(2) by (metis imageI nth_list_update_neq snd_conv)
    moreover have "q < length ss" using Cons.prems(3) x by simp
    ultimately show ?thesis using x True by auto
  next
    case False
    then have "map_of m t = Some p" using Cons.prems(1) x by simp
    moreover from this have "p \<noteq> q" using Cons.prems(2) x by (auto dest: map_of_SomeD intro: rev_image_eqI)
    ultimately show ?thesis using Cons x False by simp
  qed
qed simp

lemma apply_seq:
  assumes "pointers_ok b" "map_of (sh_targets b) t = Some p"
  shows "seq_breaker (apply_event b now p es et) =
    (case record_bucket (sh_cfg b) (sh_controller b) now es et (sh_states b ! p) of
       (s, ms) \<Rightarrow> (seq_breaker b)\<lparr>targets := put t s (targets (seq_breaker b)),
          metrics := sh_metrics b @ ms\<rparr>)"
  using put_state [OF assms(2), of "sh_states b"] assms(1)
  unfolding seq_breaker_def apply_event_def pointers_ok_def by (simp add: case_prod_unfold)

lemma map_put_values: "map (\<lambda>(t, q). (t, f q)) (put t p m) = put t (f p) (map (\<lambda>(t, q). (t, f q)) m)"
  by (induction m) auto

lemma put_new: "map_of m t = None \<Longrightarrow> put t p m = m @ [(t, p)]"
  by (induction m) (auto split: if_splits)

lemma lock_seq:
  assumes "pointers_ok b" "lock_target b now (\<lambda>p. lastRefill (sh_states b ! p)) t = (b', p)"
  shows "seq_breaker b' = (seq_breaker b)\<lparr>targets :=
      ensure_target (sh_cfg b) now t (targets (seq_breaker b))\<rparr> \<and>
    pointers_ok b' \<and> map_of (sh_targets b') t = Some p"
proof (cases "map_of (sh_targets b) t")
  case (Some q)
  then show ?thesis using assms by (auto simp: lock_target_def seq_breaker_def ensure_target_def map_of_seq)
next
  case None
  let ?kept = "filter (\<lambda>(_, p). \<not> expired (sh_cfg b) now (sh_states b ! p)) (sh_targets b)"
  let ?ss = "sh_states b @ [new_bucket (sh_cfg b) now]"
  have p: "p = length (sh_states b)" and b': "b' = b\<lparr>sh_targets := put t p ?kept, sh_states := ?ss\<rparr>"
    using assms(2) None by (auto simp: lock_target_def Let_def expired_def)
  have old: "q < p" if "q \<in> snd ` set ?kept" for q
    using that assms(1) p by (auto simp: pointers_ok_def)
  have "map (\<lambda>(t, q). (t, ?ss ! q)) ?kept = map (\<lambda>(t, q). (t, sh_states b ! q)) ?kept"
    using old p by (force simp: nth_append)
  moreover have "map (\<lambda>(t, q). (t, sh_states b ! q)) ?kept =
      filter (\<lambda>(_, s). \<not> expired (sh_cfg b) now s) (map (\<lambda>(t, q). (t, sh_states b ! q)) (sh_targets b))"
    by (simp add: filter_map comp_def case_prod_unfold)
  ultimately have "seq_breaker b' = (seq_breaker b)\<lparr>targets :=
      ensure_target (sh_cfg b) now t (targets (seq_breaker b))\<rparr>"
    using None p unfolding b' by (simp add: seq_breaker_def ensure_target_def map_of_seq map_put_values)
  moreover have "pointers_ok b'"
  proof -
    have "distinct (map snd ?kept)" using assms(1) by (simp add: pointers_ok_def distinct_map_filter)
    moreover have "map_of ?kept t = None" using None by (auto simp: map_of_eq_None_iff)
    ultimately have "distinct (map snd (put t p ?kept))"
      using old by (auto simp: put_new)
    then show ?thesis using old put_pairs [of _ t p ?kept] p unfolding b' pointers_ok_def
      by (fastforce intro: less_SucI)
  qed
  ultimately show ?thesis by (simp add: b')
qed

lemma RecordEvent_sections:
  assumes "pointers_ok b" "lock_target b now (\<lambda>p. lastRefill (sh_states b ! p)) t = (b', p)"
  shows "seq_breaker (apply_event b' now p es et) = RecordEvent (seq_breaker b) now t es et"
proof -
  have l: "seq_breaker b' = (seq_breaker b)\<lparr>targets :=
      ensure_target (sh_cfg b) now t (targets (seq_breaker b))\<rparr>" "pointers_ok b'"
    "map_of (sh_targets b') t = Some p"
    using lock_seq [OF assms] by simp_all
  have "map_of (targets (seq_breaker b')) t = Some (sh_states b' ! p)"
    using l(3) by (simp add: seq_breaker_def map_of_seq)
  moreover have "sh_cfg b' = sh_cfg b" "sh_controller b' = sh_controller b" "sh_metrics b' = sh_metrics b"
    using arg_cong [OF l(1), of cfg] arg_cong [OF l(1), of controller] arg_cong [OF l(1), of metrics]
    by (simp_all add: seq_breaker_def)
  ultimately show ?thesis
    using apply_seq [OF l(2,3), of now es et] l(1)
    by (simp add: RecordEvent_def Let_def) (simp add: seq_breaker_def case_prod_unfold)
qed

end
