(* ===== verification/Vcpu.thy ===== *)
theory Vcpu
  imports GoFloat
begin

text \<open>
  Pinning of virtual CPUs to host threads in KubeVirt's virt-launcher:
  \<^verbatim>\<open>virtwrap/converter/vcpu/vcpu.go\<close>, the pool of host threads.

  \<^verbatim>\<open>uint32\<close> values are naturals below \<open>2 ^ 32\<close>; products are reduced. The slices of the pool
  are never shared between two live owners, so they are plain lists. A run-time panic is the
  error \<open>panic\<close>.
\<close>

definition panic :: "string \<Rightarrow> go_error" where
  "panic msg = Errorf ''panic: %s'' [msg]"

section \<open>Host topology\<close>

record host_cpu =
  cpu_Id :: nat
  Siblings :: "nat list"

record distance =
  dist_Id :: nat
  dist_Value :: nat

record numa_cell =
  nc_Id :: nat
  Cpus :: "host_cpu list"
  Distances :: "distance list"

record cpu_topology =
  Sockets :: nat
  Cores :: nat
  Threads :: nat

definition CalculateRequestedVCPUs :: "cpu_topology \<Rightarrow> nat" where
  "CalculateRequestedVCPUs t = (Cores t * Sockets t mod 2 ^ 32) * Threads t mod 2 ^ 32"

section \<open>Cells\<close>

record cell =
  fullCoresList :: "nat list list"
  fragmentedCoresList :: "nat list"
  c_threadsPerCore :: nat

definition put_back :: "cell \<Rightarrow> nat list \<Rightarrow> nat list list \<Rightarrow> cell" where
  "put_back c remaining rest =
     (if length remaining \<ge> c_threadsPerCore c then c\<lparr>fullCoresList := remaining # rest\<rparr>
      else c\<lparr>fullCoresList := rest, fragmentedCoresList := fragmentedCoresList c @ remaining\<rparr>)"

definition GetNotFragmentedThreads :: "cell \<Rightarrow> nat list \<times> cell" where
  "GetNotFragmentedThreads c =
     (case fullCoresList c of
        [] \<Rightarrow> ([], c)
      | core # rest \<Rightarrow>
          (take (c_threadsPerCore c) core, put_back c (drop (c_threadsPerCore c) core) rest))"

definition GetFragmentedThreads :: "cell \<Rightarrow> nat list \<times> cell" where
  "GetFragmentedThreads c =
     (if c_threadsPerCore c \<le> length (fragmentedCoresList c)
      then (take (c_threadsPerCore c) (fragmentedCoresList c),
            c\<lparr>fragmentedCoresList := drop (c_threadsPerCore c) (fragmentedCoresList c)\<rparr>)
      else ([], c))"

text \<open>A negative request slices out of range, which panics: no value.\<close>

definition GetFragmentedThreadsUpTo :: "cell \<Rightarrow> int \<Rightarrow> (nat list \<times> cell) option" where
  "GetFragmentedThreadsUpTo c threads =
     (let selector = (if threads > int (length (fragmentedCoresList c))
                      then int (length (fragmentedCoresList c)) else threads)
      in if selector < 0 then None
         else Some (take (nat selector) (fragmentedCoresList c),
                    c\<lparr>fragmentedCoresList := drop (nat selector) (fragmentedCoresList c)\<rparr>))"

text \<open>
  The thread, if any. Every full core holds a thread (see \<open>cell_ok\<close>), so the indexing of the
  source does not panic.
\<close>

definition GetThread :: "cell \<Rightarrow> nat option \<times> cell" where
  "GetThread c =
     (case fragmentedCoresList c of
        thread # rest \<Rightarrow> (Some thread, c\<lparr>fragmentedCoresList := rest\<rparr>)
      | [] \<Rightarrow>
          (case fullCoresList c of
             (thread # remaining) # rest \<Rightarrow> (Some thread, put_back c remaining rest)
           | _ \<Rightarrow> (None, c)))"

definition IsEmpty :: "cell \<Rightarrow> bool" where
  "IsEmpty c \<longleftrightarrow> fragmentedCoresList c = [] \<and> fullCoresList c = []"

section \<open>The pool\<close>

record cpu_pool =
  cells :: "cell list"
  p_threadsPerCore :: nat
  p_cores :: nat
  allowCellCrossing :: bool
  availableThreads :: nat

text \<open>
  \<^verbatim>\<open>cpuChunksToCells\<close>: the innermost choice, the loop over the CPUs of a NUMA cell, and the loop
  over the cells. \<open>thr\<close> is the set of allowed threads, \<open>vis\<close> the set of visited ones.
\<close>

definition cpu_threads :: "host_cpu \<Rightarrow> nat list" where
  "cpu_threads cpu = (if Siblings cpu = [] then [cpu_Id cpu] else Siblings cpu)"

fun chunk_cpus :: "int set \<Rightarrow> host_cpu list \<Rightarrow> nat set \<Rightarrow> nat list list \<times> nat set" where
  "chunk_cpus thr [] vis = ([], vis)"
| "chunk_cpus thr (cpu # cpus) vis =
     (if cpu_Id cpu \<in> vis then chunk_cpus thr cpus vis
      else (let core = filter (\<lambda>t. int t \<in> thr) (cpu_threads cpu)
            in case chunk_cpus thr cpus (vis \<union> set (cpu_threads cpu)) of
                 (rest, vis') \<Rightarrow> (core # rest, vis')))"

fun chunk_cells :: "int set \<Rightarrow> numa_cell list \<Rightarrow> nat set \<Rightarrow> nat list list list" where
  "chunk_cells thr [] vis = []"
| "chunk_cells thr (c # cs) vis =
     (case chunk_cpus thr (Cpus c) vis of (cores, vis') \<Rightarrow> cores # chunk_cells thr cs vis')"

definition cpuChunksToCells :: "int list \<Rightarrow> numa_cell list \<Rightarrow> nat list list list" where
  "cpuChunksToCells cpuSet topology = chunk_cells (set cpuSet) topology {}"

definition add_core :: "cell \<Rightarrow> nat list \<Rightarrow> cell" where
  "add_core c core =
     (if length core \<ge> c_threadsPerCore c then c\<lparr>fullCoresList := fullCoresList c @ [core]\<rparr>
      else c\<lparr>fragmentedCoresList := fragmentedCoresList c @ core\<rparr>)"

definition build_cell :: "nat \<Rightarrow> nat list list \<Rightarrow> cell" where
  "build_cell k cores =
     foldl add_core \<lparr>fullCoresList = [], fragmentedCoresList = [], c_threadsPerCore = k\<rparr> cores"

definition newCPUPool :: "cpu_topology \<Rightarrow> numa_cell list \<Rightarrow> int list \<Rightarrow> bool \<Rightarrow> cpu_pool" where
  "newCPUPool req topology cpuSet crossing =
     \<lparr>cells = map (build_cell (Threads req)) (cpuChunksToCells cpuSet topology),
      p_threadsPerCore = Threads req, p_cores = Cores req * Sockets req mod 2 ^ 32,
      allowCellCrossing = crossing, availableThreads = length cpuSet\<rparr>"

definition NewStrictCPUPool :: "cpu_topology \<Rightarrow> numa_cell list \<Rightarrow> int list \<Rightarrow> cpu_pool" where
  "NewStrictCPUPool req topology cpuSet = newCPUPool req topology cpuSet False"

definition NewRelaxedCPUPool :: "cpu_topology \<Rightarrow> numa_cell list \<Rightarrow> int list \<Rightarrow> cpu_pool" where
  "NewRelaxedCPUPool req topology cpuSet = newCPUPool req topology cpuSet True"

section \<open>Fitting\<close>

text \<open>
  \<^verbatim>\<open>fitChunk\<close> takes its allocator as a closure; the code passes two, named here. Its inner loop
  drains one cell; the flag tells that the request was filled. A request of 0 or less is never
  filled, as in the source, where the counter is tested after it was decremented.
\<close>

datatype allocator = NotFragmented | Fragmented

fun allocate :: "allocator \<Rightarrow> cell \<Rightarrow> nat list \<times> cell" where
  "allocate NotFragmented c = GetNotFragmentedThreads c"
| "allocate Fragmented c = GetFragmentedThreads c"

definition cell_threads :: "cell \<Rightarrow> nat list" where
  "cell_threads c = concat (fullCoresList c) @ fragmentedCoresList c"

lemma length_put_back:
  "length (cell_threads (put_back c remaining rest)) =
     length remaining + length (concat rest) + length (fragmentedCoresList c)"
  by (simp add: put_back_def cell_threads_def)

lemma allocate_length:
  "allocate a c = (chunk, c') \<Longrightarrow> length chunk + length (cell_threads c') = length (cell_threads c)"
proof (cases a)
  case NotFragmented
  assume "allocate a c = (chunk, c')"
  with NotFragmented show ?thesis
    by (cases "fullCoresList c")
      (auto simp: GetNotFragmentedThreads_def length_put_back, simp add: cell_threads_def)
next
  case Fragmented
  assume "allocate a c = (chunk, c')"
  with Fragmented show ?thesis
    by (auto simp: GetFragmentedThreads_def cell_threads_def split: if_splits)
qed

function drain :: "allocator \<Rightarrow> cell \<Rightarrow> int \<Rightarrow> nat list \<Rightarrow> bool \<times> nat list \<times> int \<times> cell" where
  "drain a c requested threads =
     (case allocate a c of
        (chunk, c') \<Rightarrow>
          if chunk = [] then (False, threads, requested, c')
          else if requested - 1 = 0 then (True, threads @ chunk, 0, c')
          else drain a c' (requested - 1) (threads @ chunk))"
  by pat_completeness auto

termination drain
proof (relation "measure (\<lambda>(a, c, r, t). length (cell_threads c))")
  fix a :: allocator and c requested threads chunk c'
  assume "(chunk, c') = allocate a c" "chunk \<noteq> []"
  then have "allocate a c = (chunk, c')" by simp
  from allocate_length [OF this] \<open>chunk \<noteq> []\<close>
  show "((a, c', requested - 1, threads @ chunk), (a, c, requested, threads))
      \<in> measure (\<lambda>(a, c, r, t). length (cell_threads c))"
    by (cases chunk) simp_all
qed simp

declare drain.simps [simp del]

fun fitChunk :: "allocator \<Rightarrow> cell list \<Rightarrow> int \<Rightarrow> nat list \<Rightarrow> nat list \<times> int \<times> cell list" where
  "fitChunk a [] requested threads = (threads, requested, [])"
| "fitChunk a (c # cs) requested threads =
     (case drain a c requested threads of
        (filled, threads', requested', c') \<Rightarrow>
          if filled then (threads', 0, c' # cs)
          else (case fitChunk a cs requested' threads' of
                  (threads'', requested'', cs') \<Rightarrow> (threads'', requested'', c' # cs')))"

definition fitCPUBound :: "cpu_pool \<Rightarrow> int \<Rightarrow> nat list \<times> int \<times> cpu_pool" where
  "fitCPUBound p requested =
     (case fitChunk NotFragmented (cells p) requested [] of
        (threads, remaining, cs) \<Rightarrow> (threads, remaining, p\<lparr>cells := cs\<rparr>))"

definition fitCellBound :: "cpu_pool \<Rightarrow> int \<Rightarrow> nat list \<times> int \<times> cpu_pool" where
  "fitCellBound p requested =
     (case fitChunk Fragmented (cells p) requested [] of
        (threads, remaining, cs) \<Rightarrow> (threads, remaining, p\<lparr>cells := cs\<rparr>))"

text \<open>
  \<^verbatim>\<open>fitUnbound\<close>: the loop over one cell, over the cells, and the rounding of the threads that are
  still missing to cores.
\<close>

function unbound_cell :: "cell \<Rightarrow> int \<Rightarrow> nat list \<Rightarrow> (bool \<times> nat list \<times> int \<times> cell) res" where
  "unbound_cell c remainingThreads threads =
     (case GetFragmentedThreadsUpTo c remainingThreads of
        None \<Rightarrow> Inl (panic ''slice bounds out of range'')
      | Some (chunk, c') \<Rightarrow>
          if chunk = [] then Inr (False, threads, remainingThreads, c')
          else (let r = remainingThreads - int (length chunk) in
            if r < 0 then Inl (panic ''this is a bug'')
            else if r = 0 then Inr (True, threads @ chunk, 0, c')
            else unbound_cell c' r (threads @ chunk)))"
  by pat_completeness auto

termination unbound_cell
  by (relation "measure (\<lambda>(c, r, t). length (fragmentedCoresList c))")
    (auto simp: GetFragmentedThreadsUpTo_def Let_def split: if_splits)

declare unbound_cell.simps [simp del]

fun unbound_cells ::
  "cell list \<Rightarrow> int \<Rightarrow> nat list \<Rightarrow> (bool \<times> nat list \<times> int \<times> cell list) res" where
  "unbound_cells [] r threads = Inr (False, threads, r, [])"
| "unbound_cells (c # cs) r threads =
     (case unbound_cell c r threads of
        Inl e \<Rightarrow> Inl e
      | Inr (filled, threads', r', c') \<Rightarrow>
          if filled then Inr (True, threads', 0, c' # cs)
          else (case unbound_cells cs r' threads' of
                  Inl e \<Rightarrow> Inl e
                | Inr (filled', threads'', r'', cs') \<Rightarrow> Inr (filled', threads'', r'', c' # cs')))"

definition cores_missing :: "int \<Rightarrow> nat \<Rightarrow> int" where
  "cores_missing remainingThreads k = go_trunc (fl (fl (of_int remainingThreads) + 1 / 2)) sdiv int k"

definition fitUnbound :: "cpu_pool \<Rightarrow> int \<Rightarrow> (nat list \<times> int \<times> cpu_pool) res" where
  "fitUnbound p requested =
     (case unbound_cells (cells p) (int (p_threadsPerCore p) * requested) [] of
        Inl e \<Rightarrow> Inl e
      | Inr (filled, threads, r, cs) \<Rightarrow>
          if filled then Inr (threads, 0, p\<lparr>cells := cs\<rparr>)
          else if p_threadsPerCore p = 0 then Inl (panic ''integer divide by zero'')
          else Inr (threads, cores_missing r (p_threadsPerCore p), p\<lparr>cells := cs\<rparr>))"

definition fitCores :: "cpu_pool \<Rightarrow> int \<Rightarrow> (nat list \<times> int \<times> cpu_pool) res" where
  "fitCores p coreCount =
     (case fitCPUBound p coreCount of
        (t1, r1, p1) \<Rightarrow>
          if r1 = 0 then Inr (t1, 0, p1)
          else (case fitCellBound p1 r1 of
            (t2, r2, p2) \<Rightarrow>
              if r2 = 0 then Inr (t1 @ t2, 0, p2)
              else if allowCellCrossing p2 then
                (case fitUnbound p2 r2 of
                   Inl e \<Rightarrow> Inl e
                 | Inr (t3, r3, p3) \<Rightarrow> Inr (t1 @ t2 @ t3, r3, p3))
              else Inr (t1 @ t2, r2, p2)))"

record vcpu_pin =
  pin_VCPU :: nat
  pin_CPUSet :: string

definition pins_of :: "nat list \<Rightarrow> vcpu_pin list" where
  "pins_of threads =
     map (\<lambda>(idx, t). \<lparr>pin_VCPU = idx, pin_CPUSet = itoa (int t)\<rparr>) (enumerate 0 threads)"

definition FitCores :: "cpu_pool \<Rightarrow> vcpu_pin list res \<times> cpu_pool" where
  "FitCores p =
     (case fitCores p (int (p_cores p)) of
        Inl e \<Rightarrow> (Inl e, p)
      | Inr (threads, remaining, p') \<Rightarrow>
          if remaining > 0 then
            (if allowCellCrossing p' \<or> availableThreads p' < p_cores p' * p_threadsPerCore p' then
               (Inl (Errorf ''not enough exclusive threads provided, could not fit %v core(s)''
                       [itoa remaining]), p')
             else
               (Inl (Errorf ''could not fit %v core(s) without crossing numa cell boundaries for individual cores''
                       [itoa remaining]), p'))
          else (Inr (pins_of threads), p'))"

fun fit_thread_cells :: "cell list \<Rightarrow> nat option \<times> cell list" where
  "fit_thread_cells [] = (None, [])"
| "fit_thread_cells (c # cs) =
     (if IsEmpty c then (case fit_thread_cells cs of (t, cs') \<Rightarrow> (t, c # cs'))
      else (case GetThread c of (t, c') \<Rightarrow> (t, c' # cs)))"

definition FitThread :: "cpu_pool \<Rightarrow> nat res \<times> cpu_pool" where
  "FitThread p =
     (case fit_thread_cells (cells p) of
        (None, cs) \<Rightarrow> (Inl (Errorf ''no remaining unassigned threads'' []), p\<lparr>cells := cs\<rparr>)
      | (Some t, cs) \<Rightarrow> (Inr t, p\<lparr>cells := cs\<rparr>))"

end
