(* ===== verification/Numa.thy ===== *)
theory Numa
  imports Vcpu
begin

text \<open>
  NUMA pass-through of \<^verbatim>\<open>vcpu.go\<close>: the memory quantities, the host cells the pinned virtual CPUs
  touch, and the guest cells \<^verbatim>\<open>numaMapping\<close> lays out over them.

  \<^verbatim>\<open>resource.Quantity\<close> is a library type; the code sees the results of \<^verbatim>\<open>AsInt64\<close>, \<^verbatim>\<open>Value\<close> and
  \<^verbatim>\<open>String\<close>, which are the fields of \<open>quantity\<close>. \<^verbatim>\<open>resource.ParseQuantity\<close> is the argument \<open>parse\<close>.
  \<^verbatim>\<open>uint64\<close> products are reduced modulo \<open>2 ^ 64\<close>.
\<close>

section \<open>Memory quantities\<close>

record quantity =
  q_AsInt64 :: "int option"
  q_Value :: int
  q_String :: string

definition QuantityToByte :: "quantity \<Rightarrow> nat res" where
  "QuantityToByte q =
     (let memorySize = (case q_AsInt64 q of Some v \<Rightarrow> v | None \<Rightarrow> q_Value q - 1)
      in if memorySize < 0 then
           Inl (Errorf ''Memory size '%s' must be greater than or equal to 0'' [q_String q])
         else Inr (nat memorySize))"

definition QuantityToMebiByte :: "quantity \<Rightarrow> nat res" where
  "QuantityToMebiByte q =
     (case QuantityToByte q of
        Inl e \<Rightarrow> Inl e
      | Inr bytes \<Rightarrow>
          if bytes = 0 then Inr 0
          else if bytes < 1048576 then Inr 1
          else Inr (nat (go_trunc (fl (fl (fl (of_nat bytes) / 1048576) + 1 / 2)))))"

record vmi_memory =
  vm_Guest :: "quantity option"
  vm_Requests :: "quantity option"
  vm_Limits :: "quantity option"
  vm_HugepageSize :: "string option"

definition zero_quantity :: quantity where
  "zero_quantity = \<lparr>q_AsInt64 = Some 0, q_Value = 0, q_String = ''0''\<rparr>"

definition GetVirtualMemory :: "vmi_memory \<Rightarrow> quantity" where
  "GetVirtualMemory vmi =
     (case vm_Guest vmi of
        Some g \<Rightarrow> g
      | None \<Rightarrow>
          (case vm_Limits vmi of
             Some v \<Rightarrow> if vm_Requests vmi = None then v else the (vm_Requests vmi)
           | None \<Rightarrow> (case vm_Requests vmi of Some r \<Rightarrow> r | None \<Rightarrow> zero_quantity)))"

definition hugePagesInfo ::
  "(string \<Rightarrow> quantity res) \<Rightarrow> vmi_memory \<Rightarrow> bool \<Rightarrow> (nat \<times> string \<times> bool) res" where
  "hugePagesInfo parse vmi backed =
     (if backed then
        (case vm_HugepageSize vmi of
           None \<Rightarrow> Inr (0, ''b'', False)
         | Some s \<Rightarrow>
             (case parse s of
                Inl e \<Rightarrow> Inl (Wrap e ''could not parse hugepage value'')
              | Inr q \<Rightarrow>
                  (case QuantityToByte q of
                     Inl e \<Rightarrow> Inl (Wrap e ''could not convert page size to MiB'')
                   | Inr sz \<Rightarrow> Inr (sz, ''b'', True))))
      else Inr (0, ''b'', False))"

section \<open>Involved host cells\<close>

definition cpuToCell :: "numa_cell list \<Rightarrow> (nat, nat) gomap" where
  "cpuToCell topology =
     foldl (\<lambda>m (cpu, c). put cpu c m) []
       (concat (map (\<lambda>c. map (\<lambda>cpu. (cpu_Id cpu, nc_Id c)) (Cpus c)) topology))"

fun involvedCells ::
  "(nat, nat) gomap \<Rightarrow> vcpu_pin list \<Rightarrow> (nat, nat list) gomap \<Rightarrow> (nat, nat list) gomap res" where
  "involvedCells cpumap [] numamap = Inr numamap"
| "involvedCells cpumap (tune # tunes) numamap =
     (case parse_int (pin_CPUSet tune) 32 of
        Inl e \<Rightarrow> Inl (Wrap e ''expected only full cpu to be mapped'')
      | Inr cpu \<Rightarrow>
          (case map_of cpumap (nat (cpu mod 2 ^ 32)) of
             None \<Rightarrow> Inl (Errorf ''vcpu %v is mapped to a not existing host cpu set %v''
                           [itoa (int (pin_VCPU tune)), pin_CPUSet tune])
           | Some c \<Rightarrow>
               involvedCells cpumap tunes
                 (put c ((case map_of numamap c of Some l \<Rightarrow> l | None \<Rightarrow> []) @ [pin_VCPU tune]) numamap)))"

section \<open>Guest cells\<close>

record guest_cell =
  gc_ID :: string
  gc_CPUs :: string
  gc_Memory :: nat
  gc_Siblings :: "(string \<times> nat) list option"

record mem_node =
  mn_CellID :: nat
  mn_NodeSet :: string

record huge_page =
  hp_Size :: string
  hp_Unit :: string
  hp_NodeSet :: string

record numa_domain =
  nd_Cells :: "guest_cell list"
  nd_NodeSet :: string
  nd_MemNodes :: "mem_node list"
  nd_HugePages :: "huge_page list"
  nd_NoSharePages :: bool

definition mul64 :: "nat \<Rightarrow> nat \<Rightarrow> nat" where
  "mul64 a b = a * b mod 2 ^ 64"

text \<open>The ids the guest uses for the involved host cells, in host order.\<close>

fun number_cells :: "(nat, nat list) gomap \<Rightarrow> numa_cell list \<Rightarrow> nat \<Rightarrow> (nat, nat) gomap \<Rightarrow> (nat, nat) gomap"
where
  "number_cells numamap [] i m = m"
| "number_cells numamap (c # cs) i m =
     (if map_of numamap (nc_Id c) \<noteq> None then number_cells numamap cs (Suc i) (put (nc_Id c) i m)
      else number_cells numamap cs i m)"

definition guest_siblings :: "(nat, nat) gomap \<Rightarrow> distance list \<Rightarrow> (string \<times> nat) list option" where
  "guest_siblings hostToGuest ds =
     (let siblings = concat (map (\<lambda>d. case map_of hostToGuest (dist_Id d) of
                 None \<Rightarrow> [] | Some g \<Rightarrow> [(itoa (int g), dist_Value d)]) ds)
      in if siblings = [] then None else Some siblings)"

fun layout_cells ::
  "(nat, nat list) gomap \<Rightarrow> (nat, nat) gomap \<Rightarrow> nat \<Rightarrow> nat \<Rightarrow> string \<Rightarrow> numa_cell list \<Rightarrow>
   numa_domain \<Rightarrow> numa_domain" where
  "layout_cells numamap hostToGuest cellMemory hugepagesSize unit [] d = d"
| "layout_cells numamap hostToGuest cellMemory hugepagesSize unit (c # cs) d =
     (case map_of numamap (nc_Id c) of
        None \<Rightarrow> layout_cells numamap hostToGuest cellMemory hugepagesSize unit cs d
      | Some vcpus \<Rightarrow>
          (let g = the (map_of hostToGuest (nc_Id c)) in
           layout_cells numamap hostToGuest cellMemory hugepagesSize unit cs
             (d\<lparr>nd_Cells := nd_Cells d @
                  [\<lparr>gc_ID = itoa (int g), gc_CPUs = join_with '','' (map (itoa \<circ> int) vcpus),
                    gc_Memory = cellMemory, gc_Siblings = guest_siblings hostToGuest (Distances c)\<rparr>],
                nd_MemNodes := nd_MemNodes d @ [\<lparr>mn_CellID = g, mn_NodeSet = itoa (int (nc_Id c))\<rparr>],
                nd_HugePages := nd_HugePages d @
                  [\<lparr>hp_Size = itoa (int hugepagesSize), hp_Unit = unit, hp_NodeSet = itoa (int g)\<rparr>]\<rparr>)))"

text \<open>The first \<open>mod\<close> cells get one more huge page.\<close>

definition add_pages :: "nat \<Rightarrow> nat \<Rightarrow> guest_cell list \<Rightarrow> guest_cell list" where
  "add_pages extra hugepagesSize cs =
     map (\<lambda>c. c\<lparr>gc_Memory := (gc_Memory c + hugepagesSize) mod 2 ^ 64\<rparr>) (take extra cs) @ drop extra cs"

definition involved_ids :: "(nat, nat list) gomap \<Rightarrow> numa_cell list \<Rightarrow> nat list" where
  "involved_ids numamap topology =
     map nc_Id (filter (\<lambda>c. map_of numamap (nc_Id c) \<noteq> None) topology)"

text \<open>
  \<^verbatim>\<open>numaMapping\<close> on a domain without guest cells. The result is what it sets, \<open>None\<close> when no NUMA
  topology is reported and the domain stays as it is. A division by zero panics.
\<close>

definition numaMapping ::
  "(string \<Rightarrow> quantity res) \<Rightarrow> vmi_memory \<Rightarrow> bool \<Rightarrow> bool \<Rightarrow> vcpu_pin list \<Rightarrow>
   numa_cell list option \<Rightarrow> numa_domain option res" where
  "numaMapping parse vmi backed realtime pins topo =
     (case topo of
        None \<Rightarrow> Inr None
      | Some topology \<Rightarrow>
          if topology = [] then Inr None
          else (case involvedCells (cpuToCell topology) pins [] of
             Inl e \<Rightarrow> Inl (Wrap e ''failed to generate numa pinning information'')
           | Inr numamap \<Rightarrow>
               (let ids = involved_ids numamap topology in
                case hugePagesInfo parse vmi backed of
                  Inl e \<Rightarrow> Inl (Wrap e ''failed to determine if hugepages are enabled'')
                | Inr (hugepagesSize, unit, enabled) \<Rightarrow>
                    if \<not> enabled then
                      Inl (Errorf ''passing through a numa topology is restricted to VMIs with hugepages enabled'' [])
                    else
                      (case QuantityToByte (GetVirtualMemory vmi) of
                         Inl e \<Rightarrow> Inl (Wrap e ''could not convert VMI memory to quantity'')
                       | Inr memory \<Rightarrow>
                           (let cellCount = length ids;
                                step = mul64 cellCount hugepagesSize
                            in if memory < step then
                                 Inl (Errorf ''not enough memory requested to allocate at least one hugepage per numa node'' [])
                               else if hugepagesSize = 0 then Inl (panic ''integer divide by zero'')
                               else if memory mod hugepagesSize \<noteq> 0 then
                                 Inl (Errorf ''requested memory can't be divided through the numa page size'' [])
                               else if step = 0 then Inl (panic ''integer divide by zero'')
                               else
                                 (let extra = memory mod step div hugepagesSize;
                                      memoryBytes = memory - extra * hugepagesSize;
                                      d = layout_cells numamap (number_cells numamap topology 0 [])
                                            (memoryBytes div length numamap) hugepagesSize unit topology
                                            \<lparr>nd_Cells = [], nd_NodeSet = join_with '','' (map (itoa \<circ> int) ids),
                                             nd_MemNodes = [], nd_HugePages = [],
                                             nd_NoSharePages = realtime\<rparr>
                                  in Inr (Some (d\<lparr>nd_Cells := add_pages extra hugepagesSize (nd_Cells d)\<rparr>))))))))"

end
