(* ===== verification/Hardware.thy ===== *)
theory Hardware
  imports Numa
begin

text \<open>
  Host hardware helpers of KubeVirt: \<^verbatim>\<open>pkg/util/hardware/hw_utils.go\<close>. CPU lists and PCI
  addresses are parsed, and devices are placed on guest NUMA cells from the memory nodes and the
  pinning of the domain.

  Reading a file is the argument \<open>read\<close>. A warning carries the device and its reason.
\<close>

section \<open>CPU lists\<close>

definition MAX_CPU_LIMIT :: int where
  "MAX_CPU_LIMIT = 50000"

definition safeAppend :: "int list \<Rightarrow> int \<Rightarrow> int \<Rightarrow> int list res" where
  "safeAppend cpusList cpu limit =
     (if int (length cpusList) > limit then
        Inl (Errorf ''rejecting expanding CPU array for safety reasons, limit is %v'' [itoa limit])
      else Inr (cpusList @ [cpu]))"

text \<open>
  The loop over a range. The counter wraps at 64 bits; the limit on the list is what ends it.
\<close>

function append_range :: "int list \<Rightarrow> int \<Rightarrow> int \<Rightarrow> int \<Rightarrow> int list res" where
  "append_range cpusList cpuNum fin limit =
     (if cpuNum \<le> fin then
        (case safeAppend cpusList cpuNum limit of
           Inl e \<Rightarrow> Inl e
         | Inr l \<Rightarrow> append_range l (wrap64 (cpuNum + 1)) fin limit)
      else Inr cpusList)"
  by pat_completeness auto

termination append_range
  by (relation "measure (\<lambda>(l, c, e, limit). nat (limit + 1 - int (length l)))")
    (auto simp: safeAppend_def split: if_splits)

declare append_range.simps [simp del]

definition parse_item :: "int list \<Rightarrow> string \<Rightarrow> int \<Rightarrow> int list res" where
  "parse_item cpusList item limit =
     (case split_on (CHR ''-'') item of
        [] \<Rightarrow> Inr cpusList
      | [n] \<Rightarrow> (case atoi n of Inl e \<Rightarrow> Inl e | Inr cpuNum \<Rightarrow> safeAppend cpusList cpuNum limit)
      | n # m # _ \<Rightarrow>
          (case atoi n of
             Inl e \<Rightarrow> Inl e
           | Inr start \<Rightarrow>
               (case atoi m of
                  Inl e \<Rightarrow> Inl e
                | Inr fin \<Rightarrow> append_range cpusList start fin limit)))"

fun parse_items :: "int list \<Rightarrow> string list \<Rightarrow> int \<Rightarrow> int list res" where
  "parse_items cpusList [] limit = Inr cpusList"
| "parse_items cpusList (item # items) limit =
     (case parse_item cpusList item limit of
        Inl e \<Rightarrow> Inl e
      | Inr l \<Rightarrow> parse_items l items limit)"

definition ParseCPUSetLine :: "string \<Rightarrow> int \<Rightarrow> int list res" where
  "ParseCPUSetLine cpusetLine limit = parse_items [] (split_on (CHR '','') cpusetLine) limit"

section \<open>Virtual CPU counts\<close>

record vmi_cpu =
  vc_Cores :: nat
  vc_Sockets :: nat
  vc_Threads :: nat

definition mul32 :: "nat \<Rightarrow> nat \<Rightarrow> nat" where
  "mul32 a b = a * b mod 2 ^ 32"

definition count_factor :: "nat \<Rightarrow> nat \<Rightarrow> nat" where
  "count_factor n f = (if f \<noteq> 0 then (if n = 0 then f else mul32 n f) else n)"

definition GetNumberOfVCPUs :: "vmi_cpu \<Rightarrow> int" where
  "GetNumberOfVCPUs spec =
     int (count_factor (count_factor (vc_Cores spec) (vc_Sockets spec)) (vc_Threads spec))"

section \<open>PCI addresses and ids\<close>

definition is_hex :: "char \<Rightarrow> bool" where
  "is_hex c \<longleftrightarrow> c \<in> set ''0123456789abcdefABCDEF''"

text \<open>The regular expression, spelled out: 4 hex, 2 hex, 2 hex, and one octal digit.\<close>

definition ParsePciAddress :: "string \<Rightarrow> string list res" where
  "ParsePciAddress s =
     (case s of
        [a, b, c, d, s1, e, f, s2, g, h, s3, i] \<Rightarrow>
          if list_all is_hex [a, b, c, d, e, f, g, h] \<and> s1 = CHR '':'' \<and> s2 = CHR '':'' \<and>
             s3 = CHR ''.'' \<and> i \<in> set ''01234567''
          then Inr [[a, b, c, d], [e, f], [g, h], [i]]
          else Inl (Errorf ''failed to parse pci address %s'' [s])
      | _ \<Rightarrow> Inl (Errorf ''failed to parse pci address %s'' [s]))"

definition is_space :: "char \<Rightarrow> bool" where
  "is_space c \<longleftrightarrow> (of_char c :: nat) = 32 \<or> 9 \<le> (of_char c :: nat) \<and> (of_char c :: nat) \<le> 13"

definition trim_space :: "string \<Rightarrow> string" where
  "trim_space s = rev (dropWhile is_space (rev (dropWhile is_space s)))"

definition to_upper :: "char \<Rightarrow> char" where
  "to_upper c = (if 97 \<le> (of_char c :: nat) \<and> (of_char c :: nat) \<le> 122
     then char_of ((of_char c :: nat) - 32) else c)"

definition NormalizePCIID :: "string \<Rightarrow> string" where
  "NormalizePCIID i = trim_prefix (map to_upper (trim_space i)) ''0X''"

record pci_address =
  pa_Domain :: string
  pa_Bus :: string
  pa_Slot :: string
  pa_Function :: string

definition PCIAddressToString :: "pci_address option \<Rightarrow> string" where
  "PCIAddressToString a =
     (case a of
        None \<Rightarrow> []
      | Some a \<Rightarrow> trim_prefix (pa_Domain a) ''0x'' @ '':'' @ trim_prefix (pa_Bus a) ''0x'' @ '':'' @
          trim_prefix (pa_Slot a) ''0x'' @ ''.'' @ trim_prefix (pa_Function a) ''0x'')"

section \<open>The NUMA node of a device\<close>

type_synonym read_file = "string \<Rightarrow> string res"

definition PciBasePath :: string where "PciBasePath = ''/sys/bus/pci/devices''"
definition NodeBasePath :: string where "NodeBasePath = ''/sys/bus/node/devices''"

definition GetDeviceNumaNode :: "read_file \<Rightarrow> string \<Rightarrow> nat res" where
  "GetDeviceNumaNode read pciAddress =
     (case read (PciBasePath @ ''/'' @ pciAddress @ ''/numa_node'') of
        Inl e \<Rightarrow> Inl e
      | Inr content \<Rightarrow>
          (case atoi (trim_space content) of
             Inl e \<Rightarrow> Inl e
           | Inr n \<Rightarrow>
               if n < 0 then Inl (Errorf ''device %s has no NUMA node affinity'' [pciAddress])
               else Inr (nat n mod 2 ^ 32)))"

definition GetNumaNodeCPUList :: "read_file \<Rightarrow> nat \<Rightarrow> int list res" where
  "GetNumaNodeCPUList read numaNode =
     (case read (NodeBasePath @ ''/node'' @ itoa (int numaNode) @ ''/cpulist'') of
        Inl e \<Rightarrow> Inl e
      | Inr content \<Rightarrow>
          (case ParseCPUSetLine (trim_space content) MAX_CPU_LIMIT of
             Inl e \<Rightarrow> Inl (Wrap e ''failed to parse cpulist file'')
           | Inr l \<Rightarrow> Inr l))"

definition GetDeviceAlignedCPUs :: "read_file \<Rightarrow> string \<Rightarrow> int list res" where
  "GetDeviceAlignedCPUs read pciAddress =
     (case GetDeviceNumaNode read pciAddress of
        Inl e \<Rightarrow> Inl e
      | Inr n \<Rightarrow> GetNumaNodeCPUList read n)"

definition LookupDeviceVCPUAffinity :: "read_file \<Rightarrow> string \<Rightarrow> vcpu_pin list \<Rightarrow> nat list res" where
  "LookupDeviceVCPUAffinity read pciAddress pins =
     (case GetDeviceAlignedCPUs read pciAddress of
        Inl e \<Rightarrow> Inl e
      | Inr cpus \<Rightarrow>
          (let p2v = foldl (\<lambda>m p. put (pin_CPUSet p) (pin_VCPU p) m) [] pins
           in Inr (concat (map (\<lambda>c. case map_of p2v (itoa c) of None \<Rightarrow> [] | Some v \<Rightarrow> [v]) cpus))))"

section \<open>Guest cells of devices\<close>

record lookup_warning =
  lw_PCIAddress :: string
  lw_Reason :: go_error

definition warn :: "string \<Rightarrow> go_error \<Rightarrow> lookup_warning" where
  "warn a e = \<lparr>lw_PCIAddress = a, lw_Reason = e\<rparr>"

text \<open>\<^verbatim>\<open>uint32(x)\<close> of an \<^verbatim>\<open>int\<close>.\<close>

definition u32 :: "int \<Rightarrow> nat" where
  "u32 i = nat (i mod 2 ^ 32)"

fun guest_ids :: "guest_cell list \<Rightarrow> nat set \<Rightarrow> lookup_warning list \<Rightarrow> nat set \<times> lookup_warning list" where
  "guest_ids [] ids ws = (ids, ws)"
| "guest_ids (c # cs) ids ws =
     (case atoi (gc_ID c) of
        Inl e \<Rightarrow> guest_ids cs ids (ws @ [warn [] (Errorf ''ignoring guest NUMA cell with invalid ID %q'' [gc_ID c])])
      | Inr i \<Rightarrow>
          if i < 0 then guest_ids cs ids (ws @ [warn [] (Errorf ''ignoring guest NUMA cell with invalid ID %q'' [gc_ID c])])
          else guest_ids cs (insert (u32 i) ids) ws)"

type_synonym host_map = "(nat, nat) gomap \<times> nat set \<times> lookup_warning list"

text \<open>One host node of a memory node: the results, the ambiguous nodes, the warnings.\<close>

definition add_host_node :: "nat \<Rightarrow> int \<Rightarrow> host_map \<Rightarrow> host_map" where
  "add_host_node cell hostNode st =
     (case st of (results, ambiguous, ws) \<Rightarrow>
       if hostNode < 0 then
         (results, ambiguous, ws @ [warn [] (Errorf ''ignoring negative host NUMA node'' [itoa hostNode])])
       else (let h = u32 hostNode in
         if h \<in> ambiguous then (results, ambiguous, ws)
         else (case map_of results h of
             Some g \<Rightarrow>
               if g \<noteq> cell then
                 (del h results, insert h ambiguous,
                  ws @ [warn [] (Errorf ''host NUMA node is mapped to multiple guest NUMA cells'' [itoa hostNode])])
               else (put h cell results, ambiguous, ws)
           | None \<Rightarrow> (put h cell results, ambiguous, ws))))"

fun add_mem_nodes :: "nat set \<Rightarrow> mem_node list \<Rightarrow> host_map \<Rightarrow> host_map" where
  "add_mem_nodes guestCells [] st = st"
| "add_mem_nodes guestCells (n # ns) (results, ambiguous, ws) =
     (if mn_CellID n \<notin> guestCells then
        add_mem_nodes guestCells ns (results, ambiguous,
          ws @ [warn [] (Errorf ''ignoring NUMATune memnode for unknown guest NUMA cell %d'' [itoa (int (mn_CellID n))])])
      else (case ParseCPUSetLine (mn_NodeSet n) MAX_CPU_LIMIT of
          Inl e \<Rightarrow> add_mem_nodes guestCells ns (results, ambiguous,
                     ws @ [warn [] (Wrap e ''ignoring NUMATune memnode with invalid nodeset'')])
        | Inr hostNodes \<Rightarrow>
            add_mem_nodes guestCells ns
              (foldl (\<lambda>st h. add_host_node (mn_CellID n) h st) (results, ambiguous, ws) hostNodes)))"

definition memNodeHostToGuestNUMAMap ::
  "guest_cell list \<Rightarrow> mem_node list option \<Rightarrow> (nat, nat) gomap \<times> lookup_warning list" where
  "memNodeHostToGuestNUMAMap numaCells numaTune =
     (case numaTune of
        None \<Rightarrow> ([], [])
      | Some memNodes \<Rightarrow>
          (case guest_ids numaCells {} [] of
             (ids, ws) \<Rightarrow>
               if ids = {} then ([], ws)
               else (case add_mem_nodes ids memNodes ([], {}, ws) of (results, _, ws') \<Rightarrow> (results, ws'))))"

fun pin_map :: "vcpu_pin list \<Rightarrow> (nat, nat) gomap \<Rightarrow> lookup_warning list \<Rightarrow> (nat, nat) gomap \<times> lookup_warning list" where
  "pin_map [] m ws = (m, ws)"
| "pin_map (p # ps) m ws =
     (case ParseCPUSetLine (pin_CPUSet p) MAX_CPU_LIMIT of
        Inl e \<Rightarrow> pin_map ps m (ws @ [warn [] (Wrap e ''ignoring invalid vCPU pinning'')])
      | Inr pc \<Rightarrow> pin_map ps (foldl (\<lambda>m c. put (u32 c) (pin_VCPU p) m) m pc) ws)"

fun cell_map :: "guest_cell list \<Rightarrow> (nat, nat) gomap \<Rightarrow> lookup_warning list \<Rightarrow> (nat, nat) gomap \<times> lookup_warning list" where
  "cell_map [] m ws = (m, ws)"
| "cell_map (c # cs) m ws =
     (if gc_CPUs c = [] then cell_map cs m ws
      else (case ParseCPUSetLine (gc_CPUs c) MAX_CPU_LIMIT of
          Inl e \<Rightarrow> cell_map cs m (ws @ [warn [] (Wrap e ''ignoring guest NUMA cell with invalid CPU set'')])
        | Inr vs \<Rightarrow>
            (case atoi (gc_ID c) of
               Inl e \<Rightarrow> cell_map cs m (ws @ [warn [] (Wrap e ''ignoring guest NUMA cell with invalid ID'')])
             | Inr i \<Rightarrow> cell_map cs (foldl (\<lambda>m v. put (u32 v) (u32 i) m) m vs) ws)))"

text \<open>The first CPU of a node whose virtual CPU sits in a guest cell decides.\<close>

fun first_cell :: "(nat, nat) gomap \<Rightarrow> (nat, nat) gomap \<Rightarrow> nat list \<Rightarrow> nat option" where
  "first_cell p2v v2c [] = None"
| "first_cell p2v v2c (p # ps) =
     (case map_of p2v p of
        None \<Rightarrow> first_cell p2v v2c ps
      | Some v \<Rightarrow> (case map_of v2c v of None \<Rightarrow> first_cell p2v v2c ps | Some c \<Rightarrow> Some c))"

fun place_devices ::
  "read_file \<Rightarrow> (nat, nat) gomap \<Rightarrow> (nat, nat) gomap \<Rightarrow> (nat, nat) gomap \<Rightarrow> string list \<Rightarrow>
   (nat, nat list) gomap \<Rightarrow> (string, nat) gomap \<Rightarrow> lookup_warning list \<Rightarrow>
   (string, nat) gomap \<times> lookup_warning list" where
  "place_devices read memNodeMap p2v v2c [] cache results ws = (results, ws)"
| "place_devices read memNodeMap p2v v2c (a # as) cache results ws =
     (case GetDeviceNumaNode read a of
        Inl e \<Rightarrow> place_devices read memNodeMap p2v v2c as cache results
                  (ws @ [warn a (Wrap e ''failed to read host NUMA affinity'')])
      | Inr n \<Rightarrow>
          (case map_of memNodeMap n of
             Some c \<Rightarrow> place_devices read memNodeMap p2v v2c as cache (put a c results) ws
           | None \<Rightarrow>
               (case (case map_of cache n of
                        Some ps \<Rightarrow> Inr ps
                      | None \<Rightarrow> (case GetNumaNodeCPUList read n of Inl e \<Rightarrow> Inl e | Inr l \<Rightarrow> Inr (map u32 l))) of
                  Inl e \<Rightarrow> place_devices read memNodeMap p2v v2c as cache results
                            (ws @ [warn a (Wrap e ''failed to read CPU list for host NUMA node'')])
                | Inr pcpus \<Rightarrow>
                    (let cache' = put n pcpus cache;
                         results' = (case first_cell p2v v2c pcpus of None \<Rightarrow> results | Some c \<Rightarrow> put a c results);
                         ws' = (if map_of results' a = None
                                then ws @ [warn a (Errorf ''host NUMA node cannot be mapped to a guest NUMA cell'' [])]
                                else ws)
                     in place_devices read memNodeMap p2v v2c as cache' results' ws'))))"

record numa_spec =
  ns_Cells :: "guest_cell list option"
  ns_MemNodes :: "mem_node list option"
  ns_Pins :: "vcpu_pin list option"

definition LookupDevicesNumaNodesWithWarnings ::
  "read_file \<Rightarrow> string list \<Rightarrow> numa_spec option \<Rightarrow> (string, nat) gomap \<times> lookup_warning list" where
  "LookupDevicesNumaNodesWithWarnings read pciAddresses spec =
     (case spec of
        None \<Rightarrow> ([], [])
      | Some d \<Rightarrow>
          (case ns_Cells d of
             None \<Rightarrow> ([], [])
           | Some guest \<Rightarrow>
               if pciAddresses = [] then ([], [])
               else
                 (case memNodeHostToGuestNUMAMap guest (ns_MemNodes d) of
                    (memNodeMap, ws) \<Rightarrow>
                      (case (case ns_Pins d of None \<Rightarrow> ([], ws) | Some pins \<Rightarrow> pin_map pins [] ws) of
                         (p2v, ws') \<Rightarrow>
                           if memNodeMap = [] \<and> p2v = [] then ([], ws')
                           else (case cell_map guest [] ws' of
                                   (v2c, ws'') \<Rightarrow>
                                     place_devices read memNodeMap p2v v2c pciAddresses [] [] ws'')))))"

definition LookupDevicesNumaNodes ::
  "read_file \<Rightarrow> string list \<Rightarrow> numa_spec option \<Rightarrow> (string, nat) gomap" where
  "LookupDevicesNumaNodes read pciAddresses spec =
     fst (LookupDevicesNumaNodesWithWarnings read pciAddresses spec)"

end
