(* ===== verification/IoThreads.thy ===== *)
theory IoThreads
  imports Hardware
begin

text \<open>
  I/O threads of a virtual machine: \<^verbatim>\<open>virtwrap/converter/iothreads/iothreads.go\<close>, with the parts
  of the VirtualMachineInstance it and the CPU pinning read.
\<close>

datatype iothreads_policy = PolicyShared | PolicyAuto | PolicySupplementalPool | PolicyOther string

record vmi =
  v_CPU :: vmi_cpu
  v_MaxSockets :: nat
  v_Dedicated :: bool
  v_IsolateEmulatorThread :: bool
  v_Realtime :: bool
  v_NumaPassthrough :: bool
  v_Policy :: "iothreads_policy option"
  v_SupplementalCount :: "nat option"
  v_Disks :: "bool option list"
  v_CPURequest :: "int option"
  v_CPULimit :: "int option"
  v_EvenParity :: bool
  v_Arch :: string
  v_Memory :: vmi_memory

definition HasDedicatedIOThread :: "bool option \<Rightarrow> bool" where
  "HasDedicatedIOThread disk = (disk = Some True)"

definition HasIOThreads :: "vmi \<Rightarrow> bool" where
  "HasIOThreads v = (if v_Policy v \<noteq> None then True else list_ex HasDedicatedIOThread (v_Disks v))"

definition getThreadPoolLimit :: "vmi \<Rightarrow> int" where
  "getThreadPoolLimit v =
     (case v_Policy v of
        None \<Rightarrow> 1
      | Some PolicyShared \<Rightarrow> 1
      | Some PolicyAuto \<Rightarrow>
          if v_Dedicated v \<and> v_IsolateEmulatorThread v then 1
          else (case v_CPURequest v of
                  Some n \<Rightarrow> n
                | None \<Rightarrow> (case v_CPULimit v of Some n \<Rightarrow> n | None \<Rightarrow> 1)) * 2
      | Some _ \<Rightarrow> 0)"

fun count_disks :: "bool option list \<Rightarrow> int \<Rightarrow> int \<Rightarrow> int \<times> int" where
  "count_disks [] dedicated auto = (dedicated, auto)"
| "count_disks (d # ds) dedicated auto =
     (if d = Some True then count_disks ds (dedicated + 1) auto
      else count_disks ds dedicated (auto + 1))"

definition GetIOThreadsCountType :: "vmi \<Rightarrow> int \<times> int" where
  "GetIOThreadsCountType v =
     (case (v_Policy v, v_SupplementalCount v) of
        (Some PolicySupplementalPool, Some n) \<Rightarrow> (int n, 0)
      | _ \<Rightarrow>
          (case count_disks (v_Disks v) 0 0 of
             (dedicated, auto) \<Rightarrow>
               (let limit = getThreadPoolLimit v;
                    auto' = (if auto + dedicated > limit
                             then (if limit - dedicated < 1 then 1 else limit - dedicated)
                             else auto)
                in (auto' + dedicated, auto'))))"

definition BuildSupplementalPoolIOThreads :: "vmi \<Rightarrow> nat list option" where
  "BuildSupplementalPoolIOThreads v =
     (case v_Policy v of
        Some PolicySupplementalPool \<Rightarrow> Some [1..<Suc (the (v_SupplementalCount v))]
      | _ \<Rightarrow> None)"

definition SupplementalPoolThreadCount :: "vmi \<Rightarrow> nat" where
  "SupplementalPoolThreadCount v =
     (case v_SupplementalCount v of
        None \<Rightarrow> 0
      | Some n \<Rightarrow> (case v_Policy v of Some PolicySupplementalPool \<Rightarrow> n | _ \<Rightarrow> 0))"

lemma count_disks_spec:
  "count_disks ds a b = (a + int (length (filter HasDedicatedIOThread ds)),
     b + int (length (filter (\<lambda>d. \<not> HasDedicatedIOThread d) ds)))"
  by (induction ds arbitrary: a b) (auto simp: HasDedicatedIOThread_def)

text \<open>
  The counts: every dedicated disk has its thread, at least one shared thread is left whenever the
  limit cut the automatic ones, and the limit is kept unless the dedicated disks alone reach it.
\<close>

lemma GetIOThreadsCountType_spec:
  assumes "v_Policy v \<noteq> Some PolicySupplementalPool" "GetIOThreadsCountType v = (n, auto)"
  shows "n = auto + int (length (filter HasDedicatedIOThread (v_Disks v))) \<and> 0 \<le> auto \<and>
    auto \<le> max 1 (int (length (filter (\<lambda>d. \<not> HasDedicatedIOThread d) (v_Disks v)))) \<and>
    (n \<le> max (getThreadPoolLimit v) (1 + int (length (filter HasDedicatedIOThread (v_Disks v)))))"
proof -
  have "(n, auto) = (case count_disks (v_Disks v) 0 0 of (dedicated, auto) \<Rightarrow>
      (let limit = getThreadPoolLimit v;
           auto' = (if auto + dedicated > limit
                    then (if limit - dedicated < 1 then 1 else limit - dedicated) else auto)
       in (auto' + dedicated, auto')))"
    using assms by (auto simp: GetIOThreadsCountType_def split: option.splits iothreads_policy.splits)
  then show ?thesis unfolding count_disks_spec by (auto simp: Let_def split: if_splits)
qed

end
