(* ===== verification/VcpuCorrect.thy ===== *)
theory VcpuCorrect
  imports Vcpu "HOL-Library.Multiset"
begin

text \<open>
  Correctness of the pool of host threads. What the pool hands out is a sequence of chunks, each
  taken from one cell (\<open>pool_takes\<close>); the fitting loops are shown to produce such sequences and
  to stop only when the request is filled or no cell can serve another core.
\<close>

section \<open>Cells\<close>

definition cell_ok :: "nat \<Rightarrow> cell \<Rightarrow> bool" where
  "cell_ok k c \<longleftrightarrow> c_threadsPerCore c = k \<and> (\<forall>core \<in> set (fullCoresList c). k \<le> length core)"

definition take_chunk :: "nat \<Rightarrow> cell \<Rightarrow> nat list \<Rightarrow> cell \<Rightarrow> bool" where
  "take_chunk k c chunk c' \<longleftrightarrow> length chunk = k \<and> cell_ok k c' \<and>
     mset chunk + mset (cell_threads c') = mset (cell_threads c)"

fun exhausted :: "allocator \<Rightarrow> cell \<Rightarrow> bool" where
  "exhausted NotFragmented c = (fullCoresList c = [])"
| "exhausted Fragmented c = (length (fragmentedCoresList c) < c_threadsPerCore c)"

lemma mset_put_back:
  "mset (cell_threads (put_back c remaining rest)) =
     mset remaining + mset (concat rest) + mset (fragmentedCoresList c)"
  by (simp add: put_back_def cell_threads_def ac_simps)

lemma put_back_ok:
  "c_threadsPerCore c = k \<Longrightarrow> \<forall>core \<in> set rest. k \<le> length core \<Longrightarrow> cell_ok k (put_back c remaining rest)"
  by (auto simp: put_back_def cell_ok_def)

lemma mset_take_drop: "mset (take n xs) + mset (drop n xs) = mset xs"
  by (metis append_take_drop_id mset_append)

lemma allocate_ok:
  assumes "cell_ok k c" "1 \<le> k" "allocate a c = (chunk, c')"
  shows "if chunk = [] then c' = c \<and> exhausted a c else take_chunk k c chunk c'"
proof (cases a)
  case NotFragmented
  show ?thesis
  proof (cases "fullCoresList c")
    case Nil
    then show ?thesis using assms NotFragmented by (auto simp: GetNotFragmentedThreads_def)
  next
    case (Cons core rest)
    then have core: "k \<le> length core" "\<forall>core \<in> set rest. k \<le> length core" "c_threadsPerCore c = k"
      using assms(1) by (auto simp: cell_ok_def)
    have eq: "chunk = take k core" "c' = put_back c (drop k core) rest"
      using assms(3) NotFragmented Cons core by (auto simp: GetNotFragmentedThreads_def)
    have "mset chunk + mset (cell_threads c') =
        (mset (take k core) + mset (drop k core)) + mset (concat rest) + mset (fragmentedCoresList c)"
      by (simp only: eq mset_put_back add.assoc)
    also have "\<dots> = mset (cell_threads c)"
      by (simp add: mset_take_drop cell_threads_def Cons)
    finally have "mset chunk + mset (cell_threads c') = mset (cell_threads c)" .
    then show ?thesis
      using core assms(2) eq put_back_ok by (auto simp: take_chunk_def)
  qed
next
  case Fragmented
  have k: "c_threadsPerCore c = k" using assms(1) by (simp add: cell_ok_def)
  have "take_chunk k c (take k (fragmentedCoresList c))
      (c\<lparr>fragmentedCoresList := drop k (fragmentedCoresList c)\<rparr>)" if "k \<le> length (fragmentedCoresList c)"
    using that assms(1) mset_take_drop [of k "fragmentedCoresList c"]
    by (simp add: take_chunk_def cell_ok_def cell_threads_def ac_simps)
  then show ?thesis
    using assms(2,3) Fragmented k by (auto simp: GetFragmentedThreads_def split: if_splits)
qed

section \<open>Sequences of chunks\<close>

inductive pool_takes :: "nat \<Rightarrow> cell list \<Rightarrow> nat list list \<Rightarrow> cell list \<Rightarrow> bool" for k cs where
  none: "pool_takes k cs [] cs"
| more: "pool_takes k cs chunks cs' \<Longrightarrow> i < length cs' \<Longrightarrow> take_chunk k (cs' ! i) chunk c' \<Longrightarrow>
    pool_takes k cs (chunks @ [chunk]) (cs'[i := c'])"

definition all_threads :: "cell list \<Rightarrow> nat list" where
  "all_threads cs = concat (map cell_threads cs)"

text \<open>How many cores a cell, and a pool, can serve without crossing cells.\<close>

definition core_capacity :: "nat \<Rightarrow> cell list \<Rightarrow> nat" where
  "core_capacity k cs = (\<Sum>c \<leftarrow> cs. length (cell_threads c) div k)"

lemma pool_takes_trans:
  "pool_takes k cs' chunks2 cs'' \<Longrightarrow> pool_takes k cs chunks1 cs' \<Longrightarrow>
     pool_takes k cs (chunks1 @ chunks2) cs''"
proof (induction rule: pool_takes.induct)
  case (more chunks cs'' i chunk c')
  then have "pool_takes k cs ((chunks1 @ chunks) @ [chunk]) (cs''[i := c'])"
    by (intro pool_takes.more) simp_all
  then show ?case by simp
qed simp

lemma pool_takes_Cons:
  "pool_takes k cs chunks cs' \<Longrightarrow> pool_takes k (c # cs) chunks (c # cs')"
proof (induction rule: pool_takes.induct)
  case (more chunks cs' i chunk c')
  then have "pool_takes k (c # cs) (chunks @ [chunk]) ((c # cs')[Suc i := c'])"
    by (intro pool_takes.more) simp_all
  then show ?case by simp
qed (rule none)

lemma pool_takes_first:
  "pool_takes k [c] chunks [c'] \<Longrightarrow> pool_takes k (c # cs) chunks (c' # cs)"
proof -
  have "pool_takes k [c] chunks ds \<Longrightarrow> \<exists>d. ds = [d] \<and> pool_takes k (c # cs) chunks (d # cs)" for ds
  proof (induction rule: pool_takes.induct)
    case none
    show ?case by (simp add: pool_takes.none)
  next
    case (more chunks ds i chunk d')
    then obtain d where d: "ds = [d]" "pool_takes k (c # cs) chunks (d # cs)" by blast
    then have "pool_takes k (c # cs) (chunks @ [chunk]) ((d # cs)[0 := d'])"
      using more by (intro pool_takes.more) simp_all
    then show ?case using d more by simp
  qed
  then show "pool_takes k [c] chunks [c'] \<Longrightarrow> pool_takes k (c # cs) chunks (c' # cs)" by blast
qed

lemma mset_all_threads: "mset (all_threads cs) = (\<Sum>c \<leftarrow> cs. mset (cell_threads c))"
  by (induction cs) (simp_all add: all_threads_def)

lemma sum_list_update_nat:
  "i < length cs \<Longrightarrow> (\<Sum>c \<leftarrow> cs[i := c']. f c) + f (cs ! i) = (\<Sum>c \<leftarrow> cs. f c) + (f c' :: 'a :: comm_monoid_add)"
proof (induction cs arbitrary: i)
  case (Cons c cs)
  show ?case
  proof (cases i)
    case (Suc j)
    then show ?thesis using Cons.IH [of j] Cons.prems by (simp add: add.assoc)
  qed (simp add: ac_simps)
qed simp

lemma mset_all_threads_update:
  assumes "i < length cs" "mset chunk + mset (cell_threads c') = mset (cell_threads (cs ! i))"
  shows "mset chunk + mset (all_threads (cs[i := c'])) = mset (all_threads cs)"
proof -
  have "mset (all_threads (cs[i := c'])) + mset (cell_threads (cs ! i)) =
      mset (all_threads cs) + mset (cell_threads c')"
    unfolding mset_all_threads by (rule sum_list_update_nat [OF assms(1)])
  then show ?thesis unfolding assms(2) [symmetric] by (simp add: ac_simps)
qed

lemma core_capacity_update:
  assumes "i < length cs" "take_chunk k (cs ! i) chunk c'" "1 \<le> k"
  shows "Suc (core_capacity k (cs[i := c'])) = core_capacity k cs"
proof -
  let ?f = "\<lambda>c. length (cell_threads c) div k"
  have "k + length (cell_threads c') = length (cell_threads (cs ! i))"
    using assms(2) by (auto simp: take_chunk_def dest: arg_cong [of _ _ size])
  then have "?f (cs ! i) = Suc (?f c')"
    using assms(3) by (metis add.commute add_Suc_right div_add_self1 le_zero_eq not_one_le_zero plus_1_eq_Suc add_0)
  moreover have "core_capacity k (cs[i := c']) + ?f (cs ! i) = core_capacity k cs + ?f c'"
    unfolding core_capacity_def by (rule sum_list_update_nat [OF assms(1)])
  ultimately show ?thesis by simp
qed

text \<open>What a sequence of chunks guarantees.\<close>

lemma pool_takes_facts:
  assumes "pool_takes k cs chunks cs'" "1 \<le> k" "\<forall>c \<in> set cs. cell_ok k c"
  shows "length cs' = length cs \<and> (\<forall>c \<in> set cs'. cell_ok k c) \<and> (\<forall>chunk \<in> set chunks. length chunk = k) \<and>
    mset (concat chunks) + mset (all_threads cs') = mset (all_threads cs) \<and>
    core_capacity k cs' + length chunks = core_capacity k cs \<and>
    (\<forall>i < length cs. set (cell_threads (cs' ! i)) \<subseteq> set (cell_threads (cs ! i))) \<and>
    (\<forall>chunk \<in> set chunks. \<exists>c \<in> set cs. set chunk \<subseteq> set (cell_threads c))"
  using assms(1)
proof (induction rule: pool_takes.induct)
  case none
  then show ?case using assms by simp
next
  case (more chunks cs' i chunk c')
  have ch: "length chunk = k" "cell_ok k c'"
    "mset chunk + mset (cell_threads c') = mset (cell_threads (cs' ! i))"
    using more.hyps(3) by (auto simp: take_chunk_def)
  have sets: "set chunk \<union> set (cell_threads c') = set (cell_threads (cs' ! i))"
    using arg_cong [OF ch(3), of set_mset] by simp
  have i: "i < length cs" using more by simp
  have m: "mset chunk + mset (all_threads (cs'[i := c'])) = mset (all_threads cs')"
    by (rule mset_all_threads_update [OF more.hyps(2) ch(3)])
  have c: "Suc (core_capacity k (cs'[i := c'])) = core_capacity k cs'"
    by (rule core_capacity_update [OF more.hyps(2,3) assms(2)])
  have sub: "set (cell_threads (cs'[i := c'] ! j)) \<subseteq> set (cell_threads (cs ! j))" if "j < length cs" for j
  proof (cases "j = i")
    case True
    have "set (cell_threads c') \<subseteq> set (cell_threads (cs' ! i))" using sets by blast
    also have "\<dots> \<subseteq> set (cell_threads (cs ! i))" using more.IH i by blast
    finally show ?thesis using more.IH i True by simp
  next
    case False
    then show ?thesis using more.IH that by simp
  qed
  have "set chunk \<subseteq> set (cell_threads (cs ! i))" using sets more.IH i by blast
  then have "\<exists>c \<in> set cs. set chunk \<subseteq> set (cell_threads c)" using i nth_mem by blast
  moreover have "\<forall>c \<in> set (cs'[i := c']). cell_ok k c"
    using more.IH ch(2) set_update_subset_insert [of cs' i c'] by blast
  moreover have "mset (concat (chunks @ [chunk])) + mset (all_threads (cs'[i := c'])) = mset (all_threads cs)"
    using more.IH m by (simp add: add.assoc)
  ultimately show ?case using more.IH ch(1) c sub by auto
qed

section \<open>The fitting loops\<close>

lemma drain_ok:
  assumes "cell_ok k c" "1 \<le> k" "drain a c requested threads = (filled, threads', requested', c')"
  shows "\<exists>chunks. pool_takes k [c] chunks [c'] \<and> threads' = threads @ concat chunks \<and>
    requested' = requested - int (length chunks) \<and> (filled \<longrightarrow> requested' = 0) \<and>
    (\<not> filled \<longrightarrow> exhausted a c' \<and> (1 \<le> requested \<longrightarrow> 1 \<le> requested'))"
  using assms(1,3)
proof (induction a c requested threads rule: drain.induct)
  case (1 a c requested threads)
  obtain chunk d where al: "allocate a c = (chunk, d)" by fastforce
  note ok = allocate_ok [OF 1(2) assms(2) al]
  show ?case
  proof (cases "chunk = []")
    case True
    then show ?thesis using 1(3) ok
      by (intro exI [of _ "[]"]) (simp add: drain.simps [of a c] al pool_takes.none)
  next
    case False
    then have t: "take_chunk k c chunk d" using ok by simp
    have one: "pool_takes k [c] [chunk] [d]"
      using pool_takes.more [OF pool_takes.none [of k "[c]"], of 0 chunk d] t by simp
    show ?thesis
    proof (cases "requested = 1")
      case True
      then show ?thesis using 1(3) False one
        by (intro exI [of _ "[chunk]"]) (simp add: drain.simps [of a c] al)
    next
      case req: False
      have "cell_ok k d" using t by (simp add: take_chunk_def)
      moreover have "drain a d (requested - 1) (threads @ chunk) = (filled, threads', requested', c')"
        using 1(3) False req by (simp add: drain.simps [of a c] al)
      moreover have "requested - 1 \<noteq> 0" using req by simp
      ultimately obtain chunks where IH: "pool_takes k [d] chunks [c']"
        "threads' = (threads @ chunk) @ concat chunks" "requested' = requested - 1 - int (length chunks)"
        "filled \<longrightarrow> requested' = 0"
        "\<not> filled \<longrightarrow> exhausted a c' \<and> (1 \<le> requested - 1 \<longrightarrow> 1 \<le> requested')"
        using 1(1) [OF al [symmetric] False] by blast
      have "pool_takes k [c] ([chunk] @ chunks) [c']" by (rule pool_takes_trans [OF IH(1) one])
      then show ?thesis using IH(2-5) req by (intro exI [of _ "chunk # chunks"]) auto
    qed
  qed
qed

lemma fitChunk_ok:
  assumes "\<forall>c \<in> set cs. cell_ok k c" "1 \<le> k" "1 \<le> requested"
    "fitChunk a cs requested threads = (threads', r, cs')"
  shows "\<exists>chunks. pool_takes k cs chunks cs' \<and> threads' = threads @ concat chunks \<and>
    r = requested - int (length chunks) \<and> 0 \<le> r \<and> (r \<noteq> 0 \<longrightarrow> (\<forall>c \<in> set cs'. exhausted a c))"
  using assms(1,3,4)
proof (induction cs arbitrary: requested threads threads' r cs')
  case Nil
  then show ?case by (intro exI [of _ "[]"]) (auto simp: pool_takes.none)
next
  case (Cons c cs)
  obtain filled t1 r1 c1 where d: "drain a c requested threads = (filled, t1, r1, c1)"
    by (metis prod_cases4)
  have "cell_ok k c" using Cons.prems(1) by simp
  from drain_ok [OF this assms(2) d] obtain ch1 where ch1: "pool_takes k [c] ch1 [c1]"
    "t1 = threads @ concat ch1" "r1 = requested - int (length ch1)" "filled \<longrightarrow> r1 = 0"
    "\<not> filled \<longrightarrow> exhausted a c1 \<and> (1 \<le> requested \<longrightarrow> 1 \<le> r1)" by blast
  have first: "pool_takes k (c # cs) ch1 (c1 # cs)" by (rule pool_takes_first [OF ch1(1)])
  show ?case
  proof (cases filled)
    case True
    then show ?thesis using Cons.prems(3) d ch1 first by (intro exI [of _ ch1]) auto
  next
    case False
    obtain t2 r2 cs2 where f: "fitChunk a cs r1 t1 = (t2, r2, cs2)" by (metis prod_cases3)
    have "1 \<le> r1" using ch1(5) False Cons.prems(2) by blast
    moreover have "\<forall>c \<in> set cs. cell_ok k c" using Cons.prems(1) by simp
    ultimately obtain ch2 where ch2: "pool_takes k cs ch2 cs2"
      "t2 = t1 @ concat ch2" "r2 = r1 - int (length ch2)" "0 \<le> r2"
      "r2 \<noteq> 0 \<longrightarrow> (\<forall>c \<in> set cs2. exhausted a c)"
      using Cons.IH [OF _ _ f] by blast
    have "pool_takes k (c # cs) (ch1 @ ch2) (c1 # cs2)"
      by (rule pool_takes_trans [OF pool_takes_Cons [OF ch2(1)] first])
    moreover have "threads' = t2" "r = r2" "cs' = c1 # cs2"
      using Cons.prems(3) d f False by auto
    ultimately show ?thesis using ch1 ch2 False by (intro exI [of _ "ch1 @ ch2"]) auto
  qed
qed

text \<open>The second phase leaves the full cores alone.\<close>

lemma drain_full:
  "drain a c requested threads = (filled, threads', r, c') \<Longrightarrow> a = Fragmented \<Longrightarrow>
     fullCoresList c' = fullCoresList c"
proof (induction a c requested threads rule: drain.induct)
  case (1 a c requested threads)
  obtain chunk d where al: "allocate a c = (chunk, d)" by fastforce
  then have gf: "GetFragmentedThreads c = (chunk, d)" using 1(3) by simp
  from al have d: "fullCoresList d = fullCoresList c"
    using 1(3) by (auto simp: GetFragmentedThreads_def split: if_splits)
  show ?case using 1(2,3) 1(1) [OF al [symmetric]] d
    by (auto simp: drain.simps [of Fragmented c] gf split: if_splits)
qed

lemma fitChunk_full:
  "fitChunk Fragmented cs requested threads = (threads', r, cs') \<Longrightarrow>
     map fullCoresList cs' = map fullCoresList cs"
  by (induction cs arbitrary: requested threads threads' r cs')
    (auto split: prod.splits if_splits dest: drain_full)

section \<open>Crossing cells\<close>

lemma UpTo_ok:
  "0 \<le> r \<Longrightarrow> GetFragmentedThreadsUpTo c r =
     Some (take (nat r) (fragmentedCoresList c),
       c\<lparr>fragmentedCoresList := drop (nat r) (fragmentedCoresList c)\<rparr>)"
  by (auto simp: GetFragmentedThreadsUpTo_def Let_def)

lemma unbound_cell_ok:
  assumes "1 \<le> r"
  shows "unbound_cell c r threads =
    Inr (r \<le> int (length (fragmentedCoresList c)), threads @ take (nat r) (fragmentedCoresList c),
      max 0 (r - int (length (fragmentedCoresList c))),
      c\<lparr>fragmentedCoresList := drop (nat r) (fragmentedCoresList c)\<rparr>)"
proof (cases "fragmentedCoresList c = []")
  case True
  then show ?thesis using assms by (subst unbound_cell.simps) (simp add: UpTo_ok)
next
  case False
  let ?c = "c\<lparr>fragmentedCoresList := []\<rparr>"
  have e: "unbound_cell ?c r' t = Inr (False, t, r', ?c)" if "0 \<le> r'" for r' t
    using that by (subst unbound_cell.simps) (simp add: UpTo_ok)
  show ?thesis
  proof (cases "r \<le> int (length (fragmentedCoresList c))")
    case True
    then show ?thesis using assms False
      by (subst unbound_cell.simps) (simp add: UpTo_ok min_absorb2 Let_def)
  next
    case r: False
    then have "take (nat r) (fragmentedCoresList c) = fragmentedCoresList c"
      "drop (nat r) (fragmentedCoresList c) = []" by auto
    then show ?thesis using assms False r e
      by (subst unbound_cell.simps) (simp add: UpTo_ok Let_def)
  qed
qed

definition fragments :: "cell list \<Rightarrow> nat list" where
  "fragments cs = concat (map fragmentedCoresList cs)"

lemma mset_swap_middle:
  fixes f :: "'a multiset"
  shows "f + d = e \<Longrightarrow> f + g + (d + h) = e + (g + h)"
  by (simp add: ac_simps)

lemma unbound_cells_ok:
  assumes "1 \<le> r"
  shows "\<exists>cs'. unbound_cells cs r threads =
      Inr (r \<le> int (length (fragments cs)), threads @ take (nat r) (fragments cs),
        max 0 (r - int (length (fragments cs))), cs') \<and>
    map fullCoresList cs' = map fullCoresList cs \<and>
    map c_threadsPerCore cs' = map c_threadsPerCore cs \<and>
    mset (take (nat r) (fragments cs)) + mset (all_threads cs') = mset (all_threads cs)"
  using assms
proof (induction cs arbitrary: r threads)
  case Nil
  then show ?case by (simp add: fragments_def all_threads_def)
next
  case (Cons c cs)
  let ?f = "fragmentedCoresList c"
  let ?c = "c\<lparr>fragmentedCoresList := drop (nat r) ?f\<rparr>"
  note u = unbound_cell_ok [OF Cons.prems, of c threads]
  have mc: "mset (take (nat r) ?f) + mset (cell_threads ?c) = mset (cell_threads c)"
    using mset_take_drop [of "nat r" ?f] by (simp add: cell_threads_def ac_simps)
  show ?case
  proof (cases "r \<le> int (length ?f)")
    case True
    then have "take (nat r) (fragments (c # cs)) = take (nat r) ?f" by (simp add: fragments_def)
    moreover have "mset (take (nat r) ?f) + mset (all_threads (?c # cs)) = mset (all_threads (c # cs))"
      using mc by (simp add: all_threads_def add.assoc [symmetric])
    ultimately show ?thesis using u True
      by (intro exI [of _ "?c # cs"]) (simp add: fragments_def)
  next
    case False
    let ?r = "r - int (length ?f)"
    have r: "1 \<le> ?r" using False by simp
    obtain cs' where IH: "unbound_cells cs ?r (threads @ ?f) =
        Inr (?r \<le> int (length (fragments cs)), (threads @ ?f) @ take (nat ?r) (fragments cs),
          max 0 (?r - int (length (fragments cs))), cs')"
      "map fullCoresList cs' = map fullCoresList cs" "map c_threadsPerCore cs' = map c_threadsPerCore cs"
      "mset (take (nat ?r) (fragments cs)) + mset (all_threads cs') = mset (all_threads cs)"
      using Cons.IH [OF r, of "threads @ ?f"] by blast
    have tk: "take (nat r) (fragments (c # cs)) = ?f @ take (nat ?r) (fragments cs)"
      using False by (simp add: fragments_def nat_diff_distrib)
    have len: "int (length (fragments (c # cs))) = int (length ?f) + int (length (fragments cs))"
      by (simp add: fragments_def)
    have res: "unbound_cells (c # cs) r threads =
        Inr (?r \<le> int (length (fragments cs)), threads @ ?f @ take (nat ?r) (fragments cs),
          max 0 (?r - int (length (fragments cs))), ?c # cs')"
      using u False IH(1) by simp
    have "mset ?f + mset (cell_threads ?c) = mset (cell_threads c)" using mc False by simp
    then have "mset (?f @ take (nat ?r) (fragments cs)) + mset (all_threads (?c # cs')) =
        mset (all_threads (c # cs))"
      unfolding mset_all_threads sum_list.Cons list.map mset_append
      unfolding IH(4) [symmetric, unfolded mset_all_threads] by (rule mset_swap_middle)
    then show ?thesis unfolding tk res len using IH(2,3)
      by (intro exI [of _ "?c # cs'"]) (auto simp: algebra_simps)
  qed
qed

lemma cores_missing_small:
  assumes "0 \<le> r" "r < 2 ^ 52" "1 \<le> k"
  shows "cores_missing r k = r div int k"
proof -
  have "fl (of_int r + 1 / 2) = of_int r + 1 / 2"
    by (rule fl_exact [of _ "2 * r + 1" "- 1"]) (use assms in \<open>simp_all add: powr_minus field_simps\<close>)
  moreover have "fl (of_int r) = of_int r" using assms by (intro fl_of_int) simp
  moreover have "\<lfloor>of_int r + 1 / 2 :: real\<rfloor> = r" by linarith
  moreover have "r sdiv int k = r div int k"
    using assms by (cases "r = 0") (simp_all add: signed_divide_int_def sgn_mult)
  ultimately show ?thesis using assms by (simp add: cores_missing_def go_trunc_def)
qed

end
