(* ===== verification/VcpuProps.thy ===== *)
theory VcpuProps
  imports VcpuCorrect
begin

text \<open>
  When the pool can serve a request and what it hands out: strict and relaxed fitting, the pool
  built from a host topology, and the interface \<^verbatim>\<open>VCPUPool\<close> the emulator and I/O threads draw on.
\<close>

section \<open>Two phases\<close>

definition pool_ok :: "cpu_pool \<Rightarrow> bool" where
  "pool_ok p \<longleftrightarrow> 1 \<le> p_threadsPerCore p \<and> (\<forall>c \<in> set (cells p). cell_ok (p_threadsPerCore p) c)"

definition pool_threads :: "cpu_pool \<Rightarrow> nat list" where
  "pool_threads p = all_threads (cells p)"

lemma core_capacity_0:
  assumes "\<forall>c \<in> set cs. length (cell_threads c) < k"
  shows "core_capacity k cs = 0"
  using assms unfolding core_capacity_def by (induction cs) auto

text \<open>Filling from full cores and then from the fragments of each cell.\<close>

lemma two_phases:
  assumes "pool_ok p" "1 \<le> n" "fitCPUBound p n = (t1, r1, p1)" "r1 \<noteq> 0" "fitCellBound p1 r1 = (t2, r2, p2)"
  shows "\<exists>chunks. pool_takes (p_threadsPerCore p) (cells p) chunks (cells p2) \<and> t1 @ t2 = concat chunks \<and>
    r2 = n - int (length chunks) \<and> 0 \<le> r2 \<and> p2 = p\<lparr>cells := cells p2\<rparr> \<and>
    (r2 \<noteq> 0 \<longrightarrow> (\<forall>c \<in> set (cells p2). fullCoresList c = [] \<and>
       length (fragmentedCoresList c) < p_threadsPerCore p))"
proof -
  let ?k = "p_threadsPerCore p"
  obtain cs1 where f1: "fitChunk NotFragmented (cells p) n [] = (t1, r1, cs1)" "p1 = p\<lparr>cells := cs1\<rparr>"
    using assms(3) by (auto simp: fitCPUBound_def split: prod.splits)
  obtain cs2 where f2: "fitChunk Fragmented cs1 r1 [] = (t2, r2, cs2)" "p2 = p\<lparr>cells := cs2\<rparr>"
    using assms(5) f1(2) by (auto simp: fitCellBound_def split: prod.splits)
  have ok: "\<forall>c \<in> set (cells p). cell_ok ?k c" "1 \<le> ?k" using assms(1) by (auto simp: pool_ok_def)
  obtain ch1 where ch1: "pool_takes ?k (cells p) ch1 cs1" "t1 = concat ch1"
    "r1 = n - int (length ch1)" "0 \<le> r1" "\<forall>c \<in> set cs1. exhausted NotFragmented c"
    using fitChunk_ok [OF ok assms(2) f1(1)] assms(4) by auto
  have ok1: "\<forall>c \<in> set cs1. cell_ok ?k c" using pool_takes_facts [OF ch1(1) ok(2,1)] by blast
  have "1 \<le> r1" using ch1(4) assms(4) by simp
  from fitChunk_ok [OF ok1 ok(2) this f2(1), unfolded append_Nil] obtain ch2 where ch2: "pool_takes ?k cs1 ch2 cs2"
    "t2 = concat ch2" "r2 = r1 - int (length ch2)" "0 \<le> r2"
    "r2 \<noteq> 0 \<longrightarrow> (\<forall>c \<in> set cs2. exhausted Fragmented c)" by blast
  have ok2: "\<forall>c \<in> set cs2. cell_ok ?k c" using pool_takes_facts [OF ch2(1) ok(2) ok1] by blast
  have "set (map fullCoresList cs2) = set (map fullCoresList cs1)"
    by (simp only: fitChunk_full [OF f2(1)])
  then have full: "\<forall>c \<in> set cs2. fullCoresList c = []" using ch1(5) by fastforce
  have "pool_takes ?k (cells p) (ch1 @ ch2) cs2" by (rule pool_takes_trans [OF ch2(1) ch1(1)])
  then show ?thesis
    using ch1 ch2 f2(2) full ok2 by (intro exI [of _ "ch1 @ ch2"]) (auto simp: cell_ok_def)
qed

lemma one_phase:
  assumes "pool_ok p" "1 \<le> n" "fitCPUBound p n = (t1, 0, p1)"
  shows "\<exists>chunks. pool_takes (p_threadsPerCore p) (cells p) chunks (cells p1) \<and> t1 = concat chunks \<and>
    n = int (length chunks) \<and> p1 = p\<lparr>cells := cells p1\<rparr>"
proof -
  obtain cs1 where f1: "fitChunk NotFragmented (cells p) n [] = (t1, 0, cs1)" "p1 = p\<lparr>cells := cs1\<rparr>"
    using assms(3) by (auto simp: fitCPUBound_def split: prod.splits)
  then show ?thesis
    using fitChunk_ok [OF _ _ assms(2) f1(1)] assms(1) by (auto simp: pool_ok_def)
qed

text \<open>
  Both phases together: the chunks taken, and how many cores are still missing; if any, no cell
  is left that could serve one more.
\<close>

lemma bound_phases:
  assumes "pool_ok p" "1 \<le> n" "fitCPUBound p n = (t1, r1, p1)"
    "(t2, r2, p2) = (if r1 = 0 then ([], 0, p1) else fitCellBound p1 r1)"
  shows "\<exists>chunks. pool_takes (p_threadsPerCore p) (cells p) chunks (cells p2) \<and> t1 @ t2 = concat chunks \<and>
    r2 = n - int (length chunks) \<and> 0 \<le> r2 \<and> p2 = p\<lparr>cells := cells p2\<rparr> \<and>
    (r2 \<noteq> 0 \<longrightarrow> (\<forall>c \<in> set (cells p2). fullCoresList c = [] \<and>
       length (fragmentedCoresList c) < p_threadsPerCore p))"
proof (cases "r1 = 0")
  case True
  with assms(4) have "t2 = []" "r2 = 0" "p2 = p1" by simp_all
  then show ?thesis using one_phase [OF assms(1,2)] assms(3) True by fastforce
next
  case False
  then show ?thesis using two_phases [OF assms(1-3)] assms(4) by simp
qed

lemma fitCores_bound:
  assumes "fitCPUBound p n = (t1, r1, p1)"
    "(t2, r2, p2) = (if r1 = 0 then ([], 0, p1) else fitCellBound p1 r1)"
  shows "fitCores p n = (if r2 \<noteq> 0 \<and> allowCellCrossing p2
     then (case fitUnbound p2 r2 of Inl e \<Rightarrow> Inl e | Inr (t3, r3, p3) \<Rightarrow> Inr ((t1 @ t2) @ t3, r3, p3))
     else Inr (t1 @ t2, r2, p2))"
  using assms by (auto simp: fitCores_def split: if_splits prod.splits sum.splits)

section \<open>Strict fitting\<close>

text \<open>
  C26: A pool that may not cross NUMA cells. \<^verbatim>\<open>FitCores\<close> succeeds exactly when the cells can serve
  the requested cores, each cell as many as its threads allow. It then pins each core's threads
  to one cell, no host thread twice, and leaves the rest in the pool.
\<close>

theorem FitCores_strict:
  assumes "pool_ok p" "\<not> allowCellCrossing p" "1 \<le> p_cores p"
  shows "case FitCores p of
      (Inr pins, p') \<Rightarrow> p_cores p \<le> core_capacity (p_threadsPerCore p) (cells p) \<and>
        (\<exists>chunks. length chunks = p_cores p \<and> pins = pins_of (concat chunks) \<and>
           (\<forall>chunk \<in> set chunks. length chunk = p_threadsPerCore p \<and>
              (\<exists>c \<in> set (cells p). set chunk \<subseteq> set (cell_threads c))) \<and>
           mset (concat chunks) + mset (pool_threads p') = mset (pool_threads p))
    | (Inl e, p') \<Rightarrow> core_capacity (p_threadsPerCore p) (cells p) < p_cores p"
proof -
  let ?k = "p_threadsPerCore p" and ?n = "int (p_cores p)"
  obtain t1 r1 p1 where f1: "fitCPUBound p ?n = (t1, r1, p1)" by (metis prod_cases3)
  obtain t2 r2 p2 where f2: "(t2, r2, p2) = (if r1 = 0 then ([], 0, p1) else fitCellBound p1 r1)"
    by (metis prod_cases3)
  have n: "1 \<le> ?n" using assms(3) by simp
  obtain chunks where ch: "pool_takes ?k (cells p) chunks (cells p2)" "t1 @ t2 = concat chunks"
    "r2 = ?n - int (length chunks)" "0 \<le> r2" "p2 = p\<lparr>cells := cells p2\<rparr>"
    "r2 \<noteq> 0 \<longrightarrow> (\<forall>c \<in> set (cells p2). fullCoresList c = [] \<and> length (fragmentedCoresList c) < ?k)"
    using bound_phases [OF assms(1) n f1 f2] by blast
  have ok: "1 \<le> ?k" "\<forall>c \<in> set (cells p). cell_ok ?k c" using assms(1) by (auto simp: pool_ok_def)
  note facts = pool_takes_facts [OF ch(1) ok]
  have same: "\<not> allowCellCrossing p2" "p_cores p2 = p_cores p"
    using assms(2) ch(5) by (metis cpu_pool.select_convs(3,4) cpu_pool.surjective cpu_pool.update_convs(1))+
  have fc: "fitCores p ?n = Inr (t1 @ t2, r2, p2)" using fitCores_bound [OF f1 f2] same by simp
  show ?thesis
  proof (cases "r2 = 0")
    case True
    then have "FitCores p = (Inr (pins_of (concat chunks)), p2)"
      using fc ch(2) by (simp add: FitCores_def)
    moreover have "length chunks = p_cores p" using ch(3) True by simp
    ultimately show ?thesis using facts by (auto simp: pool_threads_def)
  next
    case False
    then obtain e where "FitCores p = (Inl e, p2)"
      using fc ch(4) by (cases "availableThreads p2 < p_cores p2 * p_threadsPerCore p2")
        (simp_all add: FitCores_def same)
    moreover have "core_capacity ?k (cells p2) = 0"
      using ch(6) False by (intro core_capacity_0) (simp add: cell_threads_def)
    then have "core_capacity ?k (cells p) = length chunks" using facts by simp
    ultimately show ?thesis using ch(3,4) False by simp
  qed
qed

section \<open>Relaxed fitting\<close>

text \<open>The cores that are missing after crossing cells, for a request of \<open>n\<close> cores from \<open>T\<close> threads.\<close>

lemma missing_cores_iff:
  assumes "1 \<le> k" "1 \<le> n" "n * k < 2 ^ 52" "miss = int (n * k) - int T"
  shows "(if miss \<le> 0 then 0 else cores_missing miss k) > 0 \<longleftrightarrow> T \<le> (n - 1) * k"
proof (cases "miss \<le> 0")
  case True
  then have "n * k \<le> T" using assms(4) by (simp only: of_nat_le_iff diff_le_0_iff_le)
  moreover have "(n - 1) * k < n * k" using assms(1,2) by simp
  ultimately have "\<not> T \<le> (n - 1) * k" by linarith
  with True show ?thesis by simp
next
  case False
  have "int (n * k) < int (2 ^ 52)" using assms(3) by (simp only: of_nat_less_iff)
  then have "miss < 2 ^ 52" using assms(4) by simp
  then have "cores_missing miss k = miss div int k"
    using False by (intro cores_missing_small [OF _ _ assms(1)]) simp_all
  moreover have "0 < miss div int k \<longleftrightarrow> int k \<le> miss"
    using assms(1) False by (simp add: pos_imp_zdiv_pos_iff)
  moreover have "int k \<le> miss \<longleftrightarrow> int T \<le> int ((n - 1) * k)"
    using assms(2,4) by (simp add: of_nat_diff left_diff_distrib) linarith
  ultimately show ?thesis using False by (simp only: of_nat_le_iff if_False)
qed

text \<open>Filling from the fragments across cells, after what the cells could serve.\<close>

lemma fitCores_crossing:
  assumes "pool_ok p" "allowCellCrossing p" "1 \<le> p_cores p" "fitCPUBound p (int (p_cores p)) = (t1, r1, p1)"
    "(t2, r2, p2) = (if r1 = 0 then ([], 0, p1) else fitCellBound p1 r1)" "r2 \<noteq> 0"
  defines "miss \<equiv> int (p_cores p * p_threadsPerCore p) - int (length (pool_threads p))"
  obtains ts p3 where "fitCores p (int (p_cores p)) =
      Inr (ts, if miss \<le> 0 then 0 else cores_missing miss (p_threadsPerCore p), p3)"
    "mset ts + mset (pool_threads p3) = mset (pool_threads p)"
    "length ts = min (length (pool_threads p)) (p_cores p * p_threadsPerCore p)"
proof -
  let ?k = "p_threadsPerCore p" and ?n = "int (p_cores p)" and ?T = "length (pool_threads p)"
  have n: "1 \<le> ?n" using assms(3) by simp
  obtain chunks where ch: "pool_takes ?k (cells p) chunks (cells p2)" "t1 @ t2 = concat chunks"
    "r2 = ?n - int (length chunks)" "0 \<le> r2" "p2 = p\<lparr>cells := cells p2\<rparr>"
    "r2 \<noteq> 0 \<longrightarrow> (\<forall>c \<in> set (cells p2). fullCoresList c = [] \<and> length (fragmentedCoresList c) < ?k)"
    using bound_phases [OF assms(1) n assms(4,5)] by blast
  have ok: "1 \<le> ?k" "\<forall>c \<in> set (cells p). cell_ok ?k c" using assms(1) by (auto simp: pool_ok_def)
  note facts = pool_takes_facts [OF ch(1) ok]
  have same: "allowCellCrossing p2" "p_threadsPerCore p2 = ?k"
    using assms(2) ch(5) by (metis cpu_pool.select_convs(2,3,4) cpu_pool.surjective cpu_pool.update_convs(1))+
  let ?m = "length chunks" and ?F = "fragments (cells p2)" and ?r = "int ?k * r2"
  have lc: "length (concat chunks) = ?k * ?m"
    using facts by (simp add: length_concat sum_list_triv mult.commute cong: map_cong)
  have "\<forall>c \<in> set (cells p2). cell_threads c = fragmentedCoresList c"
    using ch(6) assms(6) by (simp add: cell_threads_def)
  then have F: "all_threads (cells p2) = ?F"
    by (simp add: all_threads_def fragments_def cong: map_cong)
  have T: "?T = ?k * ?m + length ?F"
    using facts lc F by (metis pool_threads_def size_mset size_union)
  have "1 * 1 \<le> ?r" using ok(1) assms(6) ch(4) by (intro mult_mono) simp_all
  then have r: "1 \<le> ?r" by simp
  have kr: "?r = int (p_cores p * ?k) - int (?k * ?m)"
    unfolding ch(3) by (simp add: algebra_simps)
  have miss: "?r - int (length ?F) = miss" using kr T by (simp add: miss_def)
  then have le: "?r \<le> int (length ?F) \<longleftrightarrow> miss \<le> 0" by linarith
  obtain cs' where u: "unbound_cells (cells p2) ?r [] =
      Inr (?r \<le> int (length ?F), take (nat ?r) ?F, max 0 (?r - int (length ?F)), cs')"
    "mset (take (nat ?r) ?F) + mset (all_threads cs') = mset (all_threads (cells p2))"
    using unbound_cells_ok [OF r, of "cells p2" "[]"] by auto
  let ?p3 = "p2\<lparr>cells := cs'\<rparr>" and ?ts = "concat chunks @ take (nat ?r) ?F"
  have "fitUnbound p2 r2 = Inr (take (nat ?r) ?F,
      if miss \<le> 0 then 0 else cores_missing miss ?k, ?p3)"
    using u(1) ok(1) unfolding le miss by (simp add: fitUnbound_def same)
  then have "fitCores p ?n = Inr (?ts, if miss \<le> 0 then 0 else cores_missing miss ?k, ?p3)"
    using fitCores_bound [OF assms(4,5)] assms(6) same ch(2) by simp
  moreover have "mset ?ts + mset (pool_threads ?p3) = mset (pool_threads p)"
    using facts u(2) by (simp add: pool_threads_def add.assoc)
  moreover have "length ?ts = min ?T (p_cores p * ?k)"
  proof -
    have "int (nat ?r + ?k * ?m) = int (p_cores p * ?k)" using kr r by simp
    then have rn: "nat ?r + ?k * ?m = p_cores p * ?k" by (simp only: of_nat_eq_iff)
    have "length ?ts = ?k * ?m + min (length ?F) (nat ?r)" using lc by simp
    then show ?thesis unfolding rn [symmetric] T by (simp add: min_def)
  qed
  ultimately show ?thesis by (rule that)
qed

text \<open>
  C27: A pool that may cross cells. \<^verbatim>\<open>FitCores\<close> pins as many threads as it has, up to the
  request, and no host thread twice; it fails only when at least one whole core is missing. With
  fewer missing threads than a core has it succeeds, with fewer pins than virtual CPUs.
\<close>

theorem FitCores_relaxed:
  assumes "pool_ok p" "allowCellCrossing p" "1 \<le> p_cores p" "p_cores p * p_threadsPerCore p < 2 ^ 52"
  shows "case FitCores p of
      (Inr pins, p') \<Rightarrow> (p_cores p - 1) * p_threadsPerCore p < length (pool_threads p) \<and>
        (\<exists>threads. pins = pins_of threads \<and>
           length threads = min (length (pool_threads p)) (p_cores p * p_threadsPerCore p) \<and>
           mset threads + mset (pool_threads p') = mset (pool_threads p))
    | (Inl e, p') \<Rightarrow> length (pool_threads p) \<le> (p_cores p - 1) * p_threadsPerCore p"
proof -
  let ?k = "p_threadsPerCore p" and ?n = "int (p_cores p)" and ?T = "length (pool_threads p)"
  obtain t1 r1 p1 where f1: "fitCPUBound p ?n = (t1, r1, p1)" by (metis prod_cases3)
  obtain t2 r2 p2 where f2: "(t2, r2, p2) = (if r1 = 0 then ([], 0, p1) else fitCellBound p1 r1)"
    by (metis prod_cases3)
  have ok: "1 \<le> ?k" "\<forall>c \<in> set (cells p). cell_ok ?k c" using assms(1) by (auto simp: pool_ok_def)
  show ?thesis
  proof (cases "r2 = 0")
    case True
    have n: "1 \<le> ?n" using assms(3) by simp
    obtain chunks where ch: "pool_takes ?k (cells p) chunks (cells p2)" "t1 @ t2 = concat chunks"
      "r2 = ?n - int (length chunks)"
      using bound_phases [OF assms(1) n f1 f2] by blast
    note facts = pool_takes_facts [OF ch(1) ok]
    have "length (concat chunks) = ?k * length chunks"
      using facts by (simp add: length_concat sum_list_triv mult.commute cong: map_cong)
    then have lc: "length (concat chunks) = p_cores p * ?k" using ch(3) True by (simp add: mult.commute)
    have ms: "mset (concat chunks) + mset (pool_threads p2) = mset (pool_threads p)"
      using facts by (simp add: pool_threads_def)
    then have T: "p_cores p * ?k \<le> ?T" using lc by (metis le_add1 size_mset size_union)
    have "(p_cores p - 1) * ?k < p_cores p * ?k" using ok(1) assms(3) by simp
    then have "(p_cores p - 1) * ?k < ?T" using T by linarith
    moreover have "FitCores p = (Inr (pins_of (concat chunks)), p2)"
      using fitCores_bound [OF f1 f2] True ch(2) by (simp add: FitCores_def)
    ultimately show ?thesis using lc ms T by auto
  next
    case False
    define miss where "miss = int (p_cores p * ?k) - int ?T"
    obtain ts p3 where fc: "fitCores p ?n = Inr (ts, if miss \<le> 0 then 0 else cores_missing miss ?k, p3)"
      "mset ts + mset (pool_threads p3) = mset (pool_threads p)" "length ts = min ?T (p_cores p * ?k)"
      unfolding miss_def by (rule fitCores_crossing [OF assms(1-3) f1 f2 False])
    note iff = missing_cores_iff [OF ok(1) assms(3,4) miss_def]
    show ?thesis
    proof (cases "?T \<le> (p_cores p - 1) * ?k")
      case True
      then obtain e where "FitCores p = (Inl e, p3)"
        using fc(1) iff
        by (cases "allowCellCrossing p3 \<or> availableThreads p3 < p_cores p3 * p_threadsPerCore p3")
          (auto simp: FitCores_def)
      then show ?thesis using True by simp
    next
      case nT: False
      then have "FitCores p = (Inr (pins_of ts), p3)" using fc(1) iff by (simp add: FitCores_def)
      then show ?thesis using nT fc(2,3) by (auto intro!: exI [of _ ts])
    qed
  qed
qed

section \<open>The pool of a host\<close>

text \<open>
  A consistent topology: the sibling lists partition the threads, and every CPU is among its own
  siblings.
\<close>

definition topology_ok :: "numa_cell list \<Rightarrow> bool" where
  "topology_ok topo \<longleftrightarrow> (\<forall>c \<in> set (concat (map Cpus topo)).
     distinct (cpu_threads c) \<and> cpu_Id c \<in> set (cpu_threads c) \<and>
     (\<forall>d \<in> set (concat (map Cpus topo)). set (cpu_threads c) \<inter> set (cpu_threads d) = {} \<or>
        set (cpu_threads c) = set (cpu_threads d)))"

definition cpus_ok :: "host_cpu list \<Rightarrow> bool" where
  "cpus_ok cs \<longleftrightarrow> (\<forall>c \<in> set cs. distinct (cpu_threads c) \<and> cpu_Id c \<in> set (cpu_threads c) \<and>
     (\<forall>d \<in> set cs. set (cpu_threads c) \<inter> set (cpu_threads d) = {} \<or>
        set (cpu_threads c) = set (cpu_threads d)))"

text \<open>The visited set is a union of whole sibling groups.\<close>

definition groups_visited :: "host_cpu list \<Rightarrow> nat set \<Rightarrow> bool" where
  "groups_visited cs vis \<longleftrightarrow>
     (\<forall>c \<in> set cs. set (cpu_threads c) \<subseteq> vis \<or> set (cpu_threads c) \<inter> vis = {})"

lemma groups_visited_step:
  assumes "cpus_ok cs" "c \<in> set cs" "groups_visited cs vis"
  shows "groups_visited cs (vis \<union> set (cpu_threads c))"
  unfolding groups_visited_def
proof
  fix d assume d: "d \<in> set cs"
  then have "set (cpu_threads c) \<inter> set (cpu_threads d) = {} \<or> set (cpu_threads c) = set (cpu_threads d)"
    using assms(1,2) by (simp add: cpus_ok_def)
  moreover have "set (cpu_threads d) \<subseteq> vis \<or> set (cpu_threads d) \<inter> vis = {}"
    using assms(3) d by (simp add: groups_visited_def)
  ultimately show "set (cpu_threads d) \<subseteq> vis \<union> set (cpu_threads c) \<or>
      set (cpu_threads d) \<inter> (vis \<union> set (cpu_threads c)) = {}" by blast
qed

lemma chunk_cpus_ok:
  assumes "cpus_ok all" "set cpus \<subseteq> set all" "groups_visited all vis"
    "chunk_cpus thr cpus vis = (cores, vis')"
  shows "groups_visited all vis' \<and> vis' = vis \<union> (\<Union>c \<in> set cpus. set (cpu_threads c)) \<and>
    distinct (concat cores) \<and> set (concat cores) = (vis' - vis) \<inter> {t. int t \<in> thr}"
  using assms(2-4)
proof (induction cpus arbitrary: vis cores vis')
  case Nil
  then show ?case by simp
next
  case (Cons c cpus)
  have c: "distinct (cpu_threads c)" "cpu_Id c \<in> set (cpu_threads c)" "c \<in> set all"
    using assms(1) Cons.prems(1) by (auto simp: cpus_ok_def)
  have gv: "set (cpu_threads c) \<subseteq> vis \<or> set (cpu_threads c) \<inter> vis = {}"
    using Cons.prems(2) c(3) by (simp add: groups_visited_def)
  show ?case
  proof (cases "cpu_Id c \<in> vis")
    case True
    then have "set (cpu_threads c) \<subseteq> vis" using gv c(2) by blast
    moreover have "chunk_cpus thr cpus vis = (cores, vis')" using Cons.prems(3) True by simp
    moreover have "set cpus \<subseteq> set all" using Cons.prems(1) by simp
    ultimately show ?thesis using Cons.IH [OF _ Cons.prems(2)] by auto
  next
    case False
    then have new: "set (cpu_threads c) \<inter> vis = {}" using gv c(2) by blast
    let ?core = "filter (\<lambda>t. int t \<in> thr) (cpu_threads c)" and ?vis = "vis \<union> set (cpu_threads c)"
    obtain rest where rest: "chunk_cpus thr cpus ?vis = (rest, vis')" "cores = ?core # rest"
      using Cons.prems(3) False by (auto simp: Let_def split: prod.splits)
    have gv': "groups_visited all ?vis"
      by (rule groups_visited_step [OF assms(1) c(3) Cons.prems(2)])
    have IH: "groups_visited all vis'" "vis' = ?vis \<union> (\<Union>c \<in> set cpus. set (cpu_threads c))"
      "distinct (concat rest)" "set (concat rest) = (vis' - ?vis) \<inter> {t. int t \<in> thr}"
      using Cons.IH [OF _ gv' rest(1)] Cons.prems(1) by auto
    have "vis' = vis \<union> (\<Union>c \<in> set (c # cpus). set (cpu_threads c))" using IH(2) by auto
    moreover have "distinct (concat cores)" using rest(2) IH(3,4) c(1) by auto
    moreover have "set (concat cores) = (vis' - vis) \<inter> {t. int t \<in> thr}"
      using rest(2) IH(2,4) new by auto
    ultimately show ?thesis using IH(1) by blast
  qed
qed

lemma chunk_cells_ok:
  assumes "cpus_ok all" "set (concat (map Cpus topo)) \<subseteq> set all" "groups_visited all vis"
  shows "distinct (concat (concat (chunk_cells thr topo vis))) \<and>
    set (concat (concat (chunk_cells thr topo vis))) =
      ((\<Union>c \<in> set (concat (map Cpus topo)). set (cpu_threads c)) - vis) \<inter> {t. int t \<in> thr}"
  using assms(2,3)
proof (induction topo arbitrary: vis)
  case Nil
  then show ?case by simp
next
  case (Cons c topo)
  obtain cores vis' where ch: "chunk_cpus thr (Cpus c) vis = (cores, vis')" by fastforce
  have sub: "set (Cpus c) \<subseteq> set all" "set (concat (map Cpus topo)) \<subseteq> set all"
    using Cons.prems(1) by auto
  note first = chunk_cpus_ok [OF assms(1) sub(1) Cons.prems(2) ch]
  then have "groups_visited all vis'" by blast
  from Cons.IH [OF sub(2) this] first show ?case by (simp add: ch) auto
qed

lemma build_cell_ok: "cell_ok k (build_cell k cores) \<and> mset (cell_threads (build_cell k cores)) = mset (concat cores)"
proof -
  have "cell_ok k c \<Longrightarrow> cell_ok k (foldl add_core c cores) \<and>
      mset (cell_threads (foldl add_core c cores)) = mset (cell_threads c) + mset (concat cores)" for c
  proof (induction cores arbitrary: c)
    case (Cons core cores)
    have "cell_ok k (add_core c core)" using Cons.prems by (auto simp: add_core_def cell_ok_def)
    moreover have "mset (cell_threads (add_core c core)) = mset (cell_threads c) + mset core"
      by (simp add: add_core_def cell_threads_def ac_simps)
    ultimately show ?case using Cons.IH [of "add_core c core"] by (simp add: ac_simps)
  qed simp
  from this [of "\<lparr>fullCoresList = [], fragmentedCoresList = [], c_threadsPerCore = k\<rparr>"]
  show ?thesis by (simp add: build_cell_def cell_ok_def cell_threads_def)
qed

lemma newCPUPool_mset:
  "mset (pool_threads (newCPUPool req topo cpuSet crossing)) =
     mset (concat (concat (cpuChunksToCells cpuSet topo)))"
proof -
  have "mset (all_threads (map (build_cell k) css)) = mset (concat (concat css))" for k css
    by (induction css) (simp_all add: all_threads_def build_cell_ok)
  then show ?thesis by (simp add: pool_threads_def newCPUPool_def)
qed

lemma topology_cpus_ok: "topology_ok topo \<Longrightarrow> cpus_ok (concat (map Cpus topo))"
  by (simp add: topology_ok_def cpus_ok_def)

lemma newCPUPool_facts:
  assumes "topology_ok topo" "1 \<le> Threads req"
  shows "pool_ok (newCPUPool req topo cpuSet crossing) \<and>
    distinct (pool_threads (newCPUPool req topo cpuSet crossing)) \<and>
    set (pool_threads (newCPUPool req topo cpuSet crossing)) =
      {t. int t \<in> set cpuSet \<and> (\<exists>c \<in> set topo. \<exists>cpu \<in> set (Cpus c). t \<in> set (cpu_threads cpu))}"
proof -
  let ?p = "newCPUPool req topo cpuSet crossing"
  have "distinct (concat (concat (cpuChunksToCells cpuSet topo))) \<and>
    set (concat (concat (cpuChunksToCells cpuSet topo))) =
      (\<Union>c \<in> set (concat (map Cpus topo)). set (cpu_threads c)) \<inter> {t. int t \<in> set cpuSet}"
    using chunk_cells_ok [OF topology_cpus_ok [OF assms(1)] subset_refl, of "{}" "set cpuSet"]
    by (simp add: cpuChunksToCells_def groups_visited_def)
  moreover have "distinct (pool_threads ?p) \<longleftrightarrow> distinct (concat (concat (cpuChunksToCells cpuSet topo)))"
    using newCPUPool_mset by (rule mset_eq_imp_distinct_iff)
  moreover have "set (pool_threads ?p) = set (concat (concat (cpuChunksToCells cpuSet topo)))"
    using newCPUPool_mset by (rule mset_eq_setD)
  moreover have "pool_ok ?p"
    using assms(2) build_cell_ok by (auto simp: pool_ok_def newCPUPool_def)
  ultimately show ?thesis by auto
qed

text \<open>
  The pool made for a virtual machine holds each allowed host thread of the topology exactly
  once and nothing else, and its cells satisfy what the fitting relies on.
\<close>

theorem newCPUPool_threads:
  assumes "topology_ok topo" "1 \<le> Threads req"
  shows "pool_ok (newCPUPool req topo cpuSet crossing) \<and>
    distinct (pool_threads (newCPUPool req topo cpuSet crossing)) \<and>
    set (pool_threads (newCPUPool req topo cpuSet crossing)) =
      {t. int t \<in> set cpuSet \<and> (\<exists>c \<in> set topo. \<exists>cpu \<in> set (Cpus c). t \<in> set (cpu_threads cpu))}"
  by (rule newCPUPool_facts [OF assms])

section \<open>Concrete hosts\<close>

text \<open>One NUMA cell with two hyper-threaded cores.\<close>

definition small_host :: "numa_cell list" where
  "small_host = [\<lparr>nc_Id = 0, Cpus = [\<lparr>cpu_Id = 0, Siblings = [0, 2]\<rparr>, \<lparr>cpu_Id = 1, Siblings = [1, 3]\<rparr>,
     \<lparr>cpu_Id = 2, Siblings = [0, 2]\<rparr>, \<lparr>cpu_Id = 3, Siblings = [1, 3]\<rparr>], Distances = []\<rparr>]"

definition two_by_two :: cpu_topology where
  "two_by_two = \<lparr>Sockets = 1, Cores = 2, Threads = 2\<rparr>"

lemma small_host_ok: "topology_ok small_host"
  by (simp add: topology_ok_def small_host_def cpu_threads_def)

theorem newCPUPool_threads_witness:
  "distinct (pool_threads (NewStrictCPUPool two_by_two small_host [0, 2, 3])) \<and>
   set (pool_threads (NewStrictCPUPool two_by_two small_host [0, 2, 3])) = {0, 2, 3}"
proof -
  have "{t. int t \<in> set [0, 2, 3] \<and> (\<exists>c \<in> set small_host. \<exists>cpu \<in> set (Cpus c). t \<in> set (cpu_threads cpu))} = {0, 2, 3}"
    by (auto simp: small_host_def cpu_threads_def)
  then show ?thesis
    using newCPUPool_threads [OF small_host_ok, of two_by_two "[0, 2, 3]" False]
    by (simp add: NewStrictCPUPool_def two_by_two_def)
qed

lemmas pool_defs = NewStrictCPUPool_def NewRelaxedCPUPool_def newCPUPool_def cpuChunksToCells_def
  small_host_def two_by_two_def build_cell_def add_core_def cpu_threads_def

lemma strict_pool: "NewStrictCPUPool two_by_two small_host [0, 1, 2, 3] =
    \<lparr>cells = [\<lparr>fullCoresList = [[0, 2], [1, 3]], fragmentedCoresList = [], c_threadsPerCore = 2\<rparr>],
     p_threadsPerCore = 2, p_cores = 2, allowCellCrossing = False, availableThreads = 4\<rparr>"
  by (simp add: pool_defs)

lemma relaxed_pool: "NewRelaxedCPUPool two_by_two small_host [0, 2, 3] =
    \<lparr>cells = [\<lparr>fullCoresList = [[0, 2]], fragmentedCoresList = [3], c_threadsPerCore = 2\<rparr>],
     p_threadsPerCore = 2, p_cores = 2, allowCellCrossing = True, availableThreads = 3\<rparr>"
  by (simp add: pool_defs)

theorem FitCores_strict_witness:
  "\<exists>pins p'. FitCores (NewStrictCPUPool two_by_two small_host [0, 1, 2, 3]) = (Inr pins, p') \<and>
     (\<exists>chunks. length chunks = 2 \<and> pins = pins_of (concat chunks))"
proof -
  let ?p = "NewStrictCPUPool two_by_two small_host [0, 1, 2, 3]"
  have ok: "pool_ok ?p" "\<not> allowCellCrossing ?p" "1 \<le> p_cores ?p" "p_cores ?p = 2"
    "core_capacity (p_threadsPerCore ?p) (cells ?p) = 2"
    by (simp_all add: strict_pool pool_ok_def cell_ok_def core_capacity_def cell_threads_def)
  show ?thesis
    using FitCores_strict [OF ok(1-3)] ok(4,5)
    by (cases "FitCores ?p"; cases "fst (FitCores ?p)") auto
qed

theorem FitCores_relaxed_witness:
  "\<exists>threads. fst (FitCores (NewRelaxedCPUPool two_by_two small_host [0, 2, 3])) = Inr (pins_of threads) \<and>
     length threads = 3 \<and> CalculateRequestedVCPUs two_by_two = 4"
proof -
  let ?p = "NewRelaxedCPUPool two_by_two small_host [0, 2, 3]"
  have ok: "pool_ok ?p" "allowCellCrossing ?p" "1 \<le> p_cores ?p"
    "p_cores ?p * p_threadsPerCore ?p < 2 ^ 52" "p_cores ?p = 2" "p_threadsPerCore ?p = 2"
    "length (pool_threads ?p) = 3"
    by (simp_all add: relaxed_pool pool_ok_def cell_ok_def pool_threads_def all_threads_def cell_threads_def)
  have "CalculateRequestedVCPUs two_by_two = 4" by (simp add: CalculateRequestedVCPUs_def two_by_two_def)
  then show ?thesis
    using FitCores_relaxed [OF ok(1-4)] ok(5-7)
    by (cases "FitCores ?p"; cases "fst (FitCores ?p)") auto
qed

end
