(* ===== verification/VcpuPins.thy ===== *)
theory VcpuPins
  imports IoThreads VcpuProps
begin

text \<open>
  The rest of \<^verbatim>\<open>vcpu.go\<close>: the emulator and I/O threads are pinned to what the pool has left, and
  \<^verbatim>\<open>AdjustDomainForTopologyAndCPUSet\<close> puts it all into the domain. The functions that only need the
  interface \<^verbatim>\<open>VCPUPool\<close> take its \<^verbatim>\<open>FitThread\<close> as an argument.
\<close>

record cpu_tune =
  ct_VCPUPin :: "vcpu_pin list"
  ct_IOThreadPin :: "(nat \<times> string) list"
  ct_EmulatorPin :: "string option"

definition appendDomainEmulatorThreadPin :: "cpu_tune \<Rightarrow> string \<Rightarrow> cpu_tune" where
  "appendDomainEmulatorThreadPin ct cpuSet = ct\<lparr>ct_EmulatorPin := Some cpuSet\<rparr>"

definition appendDomainIOThreadPin :: "cpu_tune \<Rightarrow> nat \<Rightarrow> string \<Rightarrow> cpu_tune" where
  "appendDomainIOThreadPin ct thread cpuset = ct\<lparr>ct_IOThreadPin := ct_IOThreadPin ct @ [(thread, cpuset)]\<rparr>"

definition convertCPUListToCPUSet :: "nat list \<Rightarrow> string" where
  "convertCPUListToCPUSet cpus = join_with '','' (map (itoa \<circ> int) cpus)"

fun pin_supplemental ::
  "('p \<Rightarrow> nat res \<times> 'p) \<Rightarrow> nat list \<Rightarrow> 'p \<Rightarrow> cpu_tune \<Rightarrow> unit res \<times> 'p \<times> cpu_tune" where
  "pin_supplemental ft [] p ct = (Inr (), p, ct)"
| "pin_supplemental ft (i # is) p ct =
     (case ft p of
        (Inl e, p') \<Rightarrow> (Inl (Wrap e ''no CPU allocated for the iothread''), p', ct)
      | (Inr t, p') \<Rightarrow> pin_supplemental ft is p' (appendDomainIOThreadPin ct i (itoa (int t))))"

definition formatDomainIOThreadSupplementalPin ::
  "('p \<Rightarrow> nat res \<times> 'p) \<Rightarrow> vmi \<Rightarrow> nat option \<Rightarrow> 'p \<Rightarrow> cpu_tune \<Rightarrow> nat res \<times> 'p \<times> cpu_tune" where
  "formatDomainIOThreadSupplementalPin ft v ioThreads p ct =
     (if ioThreads = None then (Inl (Errorf ''domain is missing IOThreads'' []), p, ct)
      else (let n = SupplementalPoolThreadCount v in
        if n = 0 then (Inl (Errorf ''domain is missing supplemental pool IOThreads'' []), p, ct)
        else (case pin_supplemental ft [1..<Suc n] p ct of
                (Inl e, p', ct') \<Rightarrow> (Inl e, p', ct')
              | (Inr _, p', ct') \<Rightarrow> (Inr n, p', ct'))))"

definition FormatEmulatorThreadPin ::
  "('p \<Rightarrow> nat res \<times> 'p) \<Rightarrow> 'p \<Rightarrow> bool \<Rightarrow> int \<Rightarrow> string res \<times> 'p" where
  "FormatEmulatorThreadPin ft p evenParity vCPUs =
     (case ft p of
        (Inl e, p1) \<Rightarrow> (Inl (Wrap e ''no CPU allocated for the emulation thread''), p1)
      | (Inr t1, p1) \<Rightarrow>
          if evenParity \<and> vCPUs mod 2 = 0 then
            (case ft p1 of
               (Inl e, p2) \<Rightarrow> (Inl (Wrap e ''no second CPU allocated for the emulation thread''), p2)
             | (Inr t2, p2) \<Rightarrow> (Inr (convertCPUListToCPUSet [t1, t2]), p2))
          else (Inr (convertCPUListToCPUSet [t1]), p1))"

text \<open>
  \<^verbatim>\<open>FormatDomainIOThreadPin\<close>: one CPU each when there are as many I/O threads as virtual CPUs,
  slices of balanced length otherwise. \<open>slice_text\<close> is what the printing of a slice with its
  brackets trimmed and its blanks replaced comes to.
\<close>

definition slice_text :: "int list \<Rightarrow> string" where
  "slice_text cpus = join_with '','' (map itoa cpus)"

fun pin_single :: "int list \<Rightarrow> nat \<Rightarrow> nat list \<Rightarrow> cpu_tune \<Rightarrow> unit res \<times> cpu_tune" where
  "pin_single cpuset vcpus [] ct = (Inr (), ct)"
| "pin_single cpuset vcpus (thread # threads) ct =
     (if vcpus = 0 then (Inl (panic ''integer divide by zero''), ct)
      else if thread mod vcpus \<ge> length cpuset then (Inl (panic ''index out of range''), ct)
      else pin_single cpuset vcpus threads
             (appendDomainIOThreadPin ct thread (itoa (cpuset ! (thread mod vcpus)))))"

fun pin_slices ::
  "int list \<Rightarrow> nat \<Rightarrow> nat \<Rightarrow> nat list \<Rightarrow> nat \<Rightarrow> cpu_tune \<Rightarrow> unit res \<times> cpu_tune" where
  "pin_slices cpuset vcpus numIOThreads [] cur ct = (Inr (), ct)"
| "pin_slices cpuset vcpus numIOThreads (thread # threads) cur ct =
     (let series = vcpus mod numIOThreads;
          remainder = vcpus div numIOThreads - 1 + (if thread \<le> series then 1 else 0);
          fin = cur + remainder
      in if fin + 1 > length cpuset then (Inl (panic ''slice bounds out of range''), ct)
         else pin_slices cpuset vcpus numIOThreads threads (fin + 1)
                (appendDomainIOThreadPin ct thread (slice_text (take (fin + 1 - cur) (drop cur cpuset)))))"

definition FormatDomainIOThreadPin ::
  "vmi \<Rightarrow> nat option \<Rightarrow> string \<Rightarrow> int list \<Rightarrow> cpu_tune \<Rightarrow> unit res \<times> cpu_tune" where
  "FormatDomainIOThreadPin v ioThreads emulatorThreadsCPUSet cpuset ct =
     (case ioThreads of
        None \<Rightarrow> (Inl (Errorf ''domain is missing IOThreads'' []), ct)
      | Some numIOThreads \<Rightarrow>
          if SupplementalPoolThreadCount v > 0 then
            (Inl (Errorf ''domain has supplemental pool IOThreads and attempted to pin auto/shared IOThreads'' []), ct)
          else (let vcpus = nat (GetNumberOfVCPUs (v_CPU v)) in
            if v_Dedicated v \<and> v_IsolateEmulatorThread v then
              (Inr (), appendDomainIOThreadPin ct 1 emulatorThreadsCPUSet)
            else if numIOThreads \<ge> vcpus then pin_single cpuset vcpus [1..<Suc numIOThreads] ct
            else if numIOThreads = 0 then (Inl (panic ''integer divide by zero''), ct)
            else pin_slices cpuset vcpus numIOThreads [1..<Suc numIOThreads] 0 ct))"

section \<open>The domain\<close>

record features =
  fe_HintDedicated :: bool
  fe_PMUOff :: bool

record domain =
  dm_Topology :: cpu_topology
  dm_VCPUs :: "string list option"
  dm_IOThreads :: "nat option"
  dm_HugePages :: bool
  dm_CPUTune :: "cpu_tune option"
  dm_Features :: "features option"
  dm_Numa :: "numa_domain option"

definition isAMD64VMI :: "vmi \<Rightarrow> bool" where
  "isAMD64VMI v = (v_Arch v = ''amd64'')"

text \<open>The requested topology, without the sockets that are only there to be plugged later.\<close>

definition requested_topology :: "domain \<Rightarrow> vmi \<Rightarrow> cpu_topology res" where
  "requested_topology d v =
     (let t = dm_Topology d in
      case dm_VCPUs d of
        Some vcpus \<Rightarrow>
          if v_MaxSockets v \<noteq> 0 then
            (let disabled = length (filter (\<lambda>e. e \<noteq> ''yes'') vcpus); k = mul32 (Cores t) (Threads t)
             in if k = 0 then Inl (panic ''integer divide by zero'')
                else Inr (t\<lparr>Sockets := u32 (int (Sockets t) - int (disabled mod 2 ^ 32 div k))\<rparr>))
          else Inr t
      | None \<Rightarrow> Inr t)"

definition set_hint :: "vmi \<Rightarrow> domain \<Rightarrow> domain" where
  "set_hint v d =
     (if isAMD64VMI v then
        d\<lparr>dm_Features := Some ((case dm_Features d of Some f \<Rightarrow> f
             | None \<Rightarrow> \<lparr>fe_HintDedicated = False, fe_PMUOff = False\<rparr>)\<lparr>fe_HintDedicated := True\<rparr>)\<rparr>
      else d)"

text \<open>
  What follows the pinning of the virtual CPUs: supplemental threads first, then the emulator
  thread, then the other I/O threads. The text of the emulator's CPUs is returned for the latter.
\<close>

definition supplemental_step ::
  "vmi \<Rightarrow> nat option \<Rightarrow> cpu_pool \<Rightarrow> cpu_tune \<Rightarrow> nat res \<times> cpu_pool \<times> cpu_tune" where
  "supplemental_step v ioThreads p ct =
     (if SupplementalPoolThreadCount v > 0
      then formatDomainIOThreadSupplementalPin FitThread v ioThreads p ct
      else (Inr 0, p, ct))"

definition emulator_step :: "vmi \<Rightarrow> nat \<Rightarrow> cpu_pool \<Rightarrow> cpu_tune \<Rightarrow> string res \<times> cpu_pool \<times> cpu_tune" where
  "emulator_step v supplemental p ct =
     (if v_IsolateEmulatorThread v then
        (case FormatEmulatorThreadPin FitThread p (v_EvenParity v)
                (GetNumberOfVCPUs (v_CPU v) + int supplemental) of
           (Inl e, p') \<Rightarrow> (Inl e, p', ct)
         | (Inr s, p') \<Rightarrow> (Inr s, p', appendDomainEmulatorThreadPin ct s))
      else (Inr [], p, ct))"

definition io_step ::
  "vmi \<Rightarrow> nat option \<Rightarrow> string \<Rightarrow> int list \<Rightarrow> cpu_tune \<Rightarrow> unit res \<times> cpu_tune" where
  "io_step v ioThreads emulatorSet cpuset ct =
     (if HasIOThreads v \<and> SupplementalPoolThreadCount v = 0
      then FormatDomainIOThreadPin v ioThreads emulatorSet cpuset ct else (Inr (), ct))"

definition adjust_threads ::
  "vmi \<Rightarrow> nat option \<Rightarrow> int list \<Rightarrow> cpu_pool \<Rightarrow> cpu_tune \<Rightarrow> unit res \<times> cpu_tune" where
  "adjust_threads v ioThreads cpuset p ct =
     (case supplemental_step v ioThreads p ct of
        (Inl e, p1, ct1) \<Rightarrow> (Inl e, ct1)
      | (Inr supplemental, p1, ct1) \<Rightarrow>
          (case emulator_step v supplemental p1 ct1 of
             (Inl e, p2, ct2) \<Rightarrow> (Inl e, ct2)
           | (Inr emulatorSet, p2, ct2) \<Rightarrow> io_step v ioThreads emulatorSet cpuset ct2))"

definition AdjustDomainForTopologyAndCPUSet ::
  "(string \<Rightarrow> quantity res) \<Rightarrow> domain \<Rightarrow> vmi \<Rightarrow> numa_cell list \<Rightarrow> int list \<Rightarrow> unit res \<times> domain" where
  "AdjustDomainForTopologyAndCPUSet parse d v topology cpuset =
     (case requested_topology d v of
        Inl e \<Rightarrow> (Inl e, d)
      | Inr req \<Rightarrow>
          (case FitCores (if v_NumaPassthrough v then NewStrictCPUPool req topology cpuset
                          else NewRelaxedCPUPool req topology cpuset) of
             (Inl e, p) \<Rightarrow> (Inl e, d)
           | (Inr pins, p) \<Rightarrow>
               (let d1 = set_hint v d in
                case adjust_threads v (dm_IOThreads d) cpuset p
                       \<lparr>ct_VCPUPin = pins, ct_IOThreadPin = [], ct_EmulatorPin = None\<rparr> of
                  (Inl e, ct) \<Rightarrow> (Inl e, d1\<lparr>dm_CPUTune := Some ct\<rparr>)
                | (Inr _, ct) \<Rightarrow>
                    (let d2 = d1\<lparr>dm_CPUTune := Some ct\<rparr> in
                     if v_Realtime v \<and> dm_Features d2 = None then
                       (Inl (panic ''invalid memory address or nil pointer dereference''), d2)
                     else (let d3 = (if v_Realtime v
                                     then d2\<lparr>dm_Features := map_option (\<lambda>f. f\<lparr>fe_PMUOff := True\<rparr>) (dm_Features d2)\<rparr>
                                     else d2) in
                       if v_NumaPassthrough v then
                         (case numaMapping parse (v_Memory v) (dm_HugePages d3) (v_Realtime v) pins (Some topology) of
                            Inl e \<Rightarrow> (Inl e, d3)
                          | Inr n \<Rightarrow> (Inr (), d3\<lparr>dm_Numa := n\<rparr>))
                       else (Inr (), d3))))))"

end
