(* ===== verification/NumaCorrect.thy ===== *)
theory NumaCorrect
  imports Numa
begin

text \<open>
  NUMA pass-through is correct: the guest cells are the host cells the pins touch, each with the
  virtual CPUs pinned to it, and their memory adds up to the memory of the virtual machine.
\<close>

section \<open>Which virtual CPUs sit on a cell\<close>

definition host_cell :: "(nat, nat) gomap \<Rightarrow> vcpu_pin \<Rightarrow> nat option" where
  "host_cell cpumap tune =
     (case parse_int (pin_CPUSet tune) 32 of Inl _ \<Rightarrow> None | Inr cpu \<Rightarrow> map_of cpumap (nat (cpu mod 2 ^ 32)))"

definition vcpus_on :: "(nat, nat) gomap \<Rightarrow> vcpu_pin list \<Rightarrow> nat \<Rightarrow> nat list" where
  "vcpus_on cpumap tunes c = map pin_VCPU (filter (\<lambda>t. host_cell cpumap t = Some c) tunes)"

lemma involvedCells_spec:
  assumes "involvedCells cpumap tunes numamap = Inr m" "\<forall>c l. map_of numamap c = Some l \<longrightarrow> l \<noteq> []"
    "distinct (map fst numamap)"
  shows "distinct (map fst m) \<and> (\<forall>c. map_of m c =
      (let l = (case map_of numamap c of Some l \<Rightarrow> l | None \<Rightarrow> []) @ vcpus_on cpumap tunes c
       in if l = [] then None else Some l))"
  using assms
proof (induction cpumap tunes numamap rule: involvedCells.induct)
  case (1 cpumap numamap)
  then show ?case by (auto simp: vcpus_on_def Let_def split: option.splits)
next
  case (2 cpumap tune tunes numamap)
  obtain cpu c where c: "parse_int (pin_CPUSet tune) 32 = Inr cpu"
    "map_of cpumap (nat (cpu mod 2 ^ 32)) = Some c"
    using 2(2) by (auto split: sum.splits option.splits)
  let ?m = "put c ((case map_of numamap c of Some l \<Rightarrow> l | None \<Rightarrow> []) @ [pin_VCPU tune]) numamap"
  have "involvedCells cpumap tunes ?m = Inr m" using 2(2) c by simp
  moreover have "\<forall>d l. map_of ?m d = Some l \<longrightarrow> l \<noteq> []" using 2(3) by (auto split: if_splits)
  moreover have "distinct (map fst ?m)" using 2(4) by simp
  moreover have "host_cell cpumap tune = Some c" using c by (simp add: host_cell_def)
  ultimately show ?case
    using 2(1) [OF c] by (auto simp: vcpus_on_def Let_def split: option.splits)
qed

lemma cpuToCell_range:
  assumes "map_of (cpuToCell topology) cpu = Some c"
  shows "c \<in> nc_Id ` set topology"
proof -
  have "map_of (foldl (\<lambda>m (cpu, c). put cpu c m) m xs) cpu = Some c \<Longrightarrow>
      map_of m cpu = Some c \<or> (cpu, c) \<in> set xs" for m xs
  proof (induction xs arbitrary: m)
    case (Cons x xs)
    obtain a b where x: "x = (a, b)" by (cases x)
    from Cons.IH [of "put a b m"] Cons.prems show ?case
      by (cases "a = cpu") (simp_all add: x, blast)
  qed simp
  from this [of "[]", OF assms [unfolded cpuToCell_def]] show ?thesis by auto
qed

lemma vcpus_on_cell: "vcpus_on (cpuToCell topology) tunes c \<noteq> [] \<Longrightarrow> c \<in> nc_Id ` set topology"
proof -
  assume "vcpus_on (cpuToCell topology) tunes c \<noteq> []"
  then obtain t where "host_cell (cpuToCell topology) t = Some c"
    by (auto simp: vcpus_on_def filter_empty_conv)
  then obtain cpu where "map_of (cpuToCell topology) cpu = Some c"
    by (auto simp: host_cell_def split: sum.splits)
  then show ?thesis by (rule cpuToCell_range)
qed

text \<open>The map of involved cells has one entry for each involved cell of the topology.\<close>

lemma involved_count:
  assumes "involvedCells (cpuToCell topology) pins [] = Inr m" "distinct (map nc_Id topology)"
  shows "length (involved_ids m topology) = length m"
proof -
  note spec = involvedCells_spec [OF assms(1)]
  have d: "distinct (map fst m)" using spec by simp
  have "keys m = set (involved_ids m topology)"
  proof (rule set_eqI)
    fix c
    have "c \<in> keys m \<Longrightarrow> c \<in> nc_Id ` set topology"
      using spec vcpus_on_cell by (auto simp: in_keys_iff Let_def split: if_splits)
    then show "c \<in> keys m \<longleftrightarrow> c \<in> set (involved_ids m topology)"
      by (auto simp: involved_ids_def in_keys_iff)
  qed
  moreover have "distinct (involved_ids m topology)"
    using assms(2) by (simp add: involved_ids_def distinct_map_filter)
  ultimately show ?thesis
    using length_distinct_keys [OF d] by (simp add: distinct_card)
qed

section \<open>The layout\<close>

lemma layout_Cells:
  "map gc_CPUs (nd_Cells (layout_cells m h cm hp u cs d)) =
     map gc_CPUs (nd_Cells d) @
     map (\<lambda>c. join_with '','' (map (itoa \<circ> int) (the (map_of m (nc_Id c)))))
       (filter (\<lambda>c. map_of m (nc_Id c) \<noteq> None) cs)"
  "map gc_Memory (nd_Cells (layout_cells m h cm hp u cs d)) =
     map gc_Memory (nd_Cells d) @ replicate (length (involved_ids m cs)) cm"
  by (induction cs arbitrary: d) (auto simp: Let_def involved_ids_def split: option.splits)

lemma add_pages_CPUs: "map gc_CPUs (add_pages n h cs) = map gc_CPUs cs"
proof -
  have "map gc_CPUs (add_pages n h cs) = map gc_CPUs (take n cs @ drop n cs)"
    unfolding add_pages_def map_append by simp
  then show ?thesis by simp
qed

lemma add_pages_Memory:
  assumes "map gc_Memory cs = replicate k cm" "n \<le> k" "cm + h < 2 ^ 64"
  shows "map gc_Memory (add_pages n h cs) = replicate n (cm + h) @ replicate (k - n) cm"
proof -
  have "map gc_Memory (take n cs) = replicate n cm" "map gc_Memory (drop n cs) = replicate (k - n) cm"
    using assms(1,2) by (simp_all add: take_map [symmetric] drop_map [symmetric] min_def)
  moreover have "map (\<lambda>c. (gc_Memory c + h) mod 2 ^ 64) (take n cs) =
      map (\<lambda>x. (x + h) mod 2 ^ 64) (map gc_Memory (take n cs))" by simp
  ultimately have "map (\<lambda>c. (gc_Memory c + h) mod 2 ^ 64) (take n cs) = replicate n (cm + h)"
    using assms(3) by (simp only: map_replicate mod_less)
  then show ?thesis using \<open>map gc_Memory (drop n cs) = replicate (k - n) cm\<close>
    by (simp add: add_pages_def comp_def)
qed

text \<open>Spreading the memory in whole huge pages.\<close>

lemma spread_pages:
  fixes mem h n :: nat
  assumes "0 < h" "0 < n" "h dvd mem"
  defines "extra \<equiv> mem mod (n * h) div h"
  defines "cm \<equiv> (mem - extra * h) div n"
  shows "extra < n" "n * cm + extra * h = mem" "h dvd cm" "cm = mem div (n * h) * h"
proof -
  have "h dvd mem mod (n * h)" using assms(3) by (simp add: dvd_mod)
  then have eh: "extra * h = mem mod (n * h)" by (simp add: extra_def)
  moreover have "mem mod (n * h) < n * h" using assms(1,2) by simp
  ultimately show "extra < n" by (metis mult_less_cancel2)
  have m: "mem - extra * h = n * (mem div (n * h) * h)"
    unfolding eh by (metis minus_mod_eq_mult_div mult.assoc mult.commute)
  then show c: "cm = mem div (n * h) * h" using assms(2) by (simp add: cm_def)
  then show "h dvd cm" by simp
  show "n * cm + extra * h = mem"
    using m c eh by (metis add.commute le_add_diff_inverse2 mod_less_eq_dividend)
qed

text \<open>The memory of the cells: the rest of the whole pages goes, a page each, to the first cells.\<close>

lemma cell_memory:
  fixes n h mem :: nat
  defines "extra \<equiv> mem mod (n * h) div h"
  defines "cm \<equiv> (mem - extra * h) div n"
  assumes "0 < h" "0 < n" "h dvd mem" "mem < 2 ^ 64" "map gc_Memory cs = replicate n cm"
  shows "sum_list (map gc_Memory (add_pages extra h cs)) = mem"
    "\<And>c. c \<in> set (add_pages extra h cs) \<Longrightarrow> gc_Memory c = cm + h \<or> gc_Memory c = cm"
    "h dvd cm"
proof -
  note sp = spread_pages [OF assms(3-5), folded extra_def, folded cm_def]
  have mem: "map gc_Memory (add_pages extra h cs) = replicate extra (cm + h) @ replicate (n - extra) cm"
  proof (cases "extra = 0")
    case True
    then show ?thesis using assms(7) by (simp add: add_pages_def)
  next
    case False
    have "cm + h \<le> n * cm + extra * h"
      using False assms(4) by (intro add_mono) (simp_all add: Suc_le_eq)
    then have "cm + h < 2 ^ 64" using sp(2) assms(6) by simp
    then show ?thesis using assms(7) sp(1) by (intro add_pages_Memory) simp_all
  qed
  have "sum_list (map gc_Memory (add_pages extra h cs)) = extra * (cm + h) + (n - extra) * cm"
    unfolding mem by (simp add: sum_list_replicate)
  also have "\<dots> = (extra + (n - extra)) * cm + extra * h"
    by (simp only: distrib_left distrib_right)
  also have "\<dots> = mem" using sp(1,2) by simp
  finally show "sum_list (map gc_Memory (add_pages extra h cs)) = mem" .
  show "gc_Memory c = cm + h \<or> gc_Memory c = cm" if "c \<in> set (add_pages extra h cs)" for c
  proof -
    have "gc_Memory c \<in> set (map gc_Memory (add_pages extra h cs))" using that by simp
    then show ?thesis unfolding mem by (auto split: if_splits)
  qed
  show "h dvd cm" by (rule sp(3))
qed

text \<open>What a successful \<^verbatim>\<open>numaMapping\<close> has computed.\<close>

lemma numaMapping_layout:
  assumes "numaMapping parse vmi backed realtime pins (Some topology) = Inr (Some d)"
    "distinct (map nc_Id topology)" "hugePagesInfo parse vmi backed = Inr (h, unit, enabled)"
    "QuantityToByte (GetVirtualMemory vmi) = Inr mem" "length topology * h < 2 ^ 64"
  obtains m n extra d0 where "involvedCells (cpuToCell topology) pins [] = Inr m"
    "n = length (involved_ids m topology)" "extra = mem mod (n * h) div h" "nd_Cells d0 = []"
    "0 < h" "0 < n" "h dvd mem"
    "nd_Cells d = add_pages extra h (nd_Cells
       (layout_cells m (number_cells m topology 0 []) ((mem - extra * h) div n) h unit topology d0))"
proof -
  obtain m where m: "involvedCells (cpuToCell topology) pins [] = Inr m"
    using assms(1) by (auto simp: numaMapping_def split: sum.splits if_splits)
  let ?n = "length (involved_ids m topology)"
  have "?n \<le> length topology" by (simp add: involved_ids_def)
  then have "?n * h \<le> length topology * h" by (rule mult_right_mono) simp
  then have "?n * h < 2 ^ 64" using assms(5) by (rule le_less_trans)
  then have step: "mul64 ?n h = ?n * h" unfolding mul64_def by (rule mod_less)
  let ?extra = "mem mod (?n * h) div h"
  let ?d0 = "\<lparr>nd_Cells = [], nd_NodeSet = join_with '','' (map (itoa \<circ> int) (involved_ids m topology)),
     nd_MemNodes = [], nd_HugePages = [], nd_NoSharePages = realtime\<rparr>"
  let ?l = "layout_cells m (number_cells m topology 0 []) ((mem - ?extra * h) div ?n) h unit topology ?d0"
  have "topology \<noteq> []" using assms(1) by (auto simp: numaMapping_def)
  then have run: "enabled \<and> \<not> mem < ?n * h \<and> h \<noteq> 0 \<and> mem mod h = 0 \<and> ?n * h \<noteq> 0 \<and>
      d = ?l\<lparr>nd_Cells := add_pages ?extra h (nd_Cells ?l)\<rparr>"
    using assms(1,3,4) m step involved_count [OF m assms(2)]
    by (auto simp: numaMapping_def Let_def split: if_splits)
  then have "0 < h" "0 < ?n" "h dvd mem" "nd_Cells d = add_pages ?extra h (nd_Cells ?l)" by auto
  with m show ?thesis by (intro that [of m ?n ?extra ?d0]) simp_all
qed

text \<open>
  C28: When \<^verbatim>\<open>numaMapping\<close> lays out guest cells, they are the host cells the pinned virtual CPUs
  sit on, in host order and each with exactly those virtual CPUs; the memory of the cells is a
  whole number of huge pages, differs between cells by at most one page, and adds up to the
  memory of the virtual machine.
\<close>

theorem numaMapping_cells:
  assumes "numaMapping parse vmi backed realtime pins (Some topology) = Inr (Some d)"
    "distinct (map nc_Id topology)" "hugePagesInfo parse vmi backed = Inr (h, unit, enabled)"
    "QuantityToByte (GetVirtualMemory vmi) = Inr mem" "length topology * h < 2 ^ 64" "mem < 2 ^ 64"
  shows "map gc_CPUs (nd_Cells d) =
      map (\<lambda>c. join_with '','' (map (itoa \<circ> int) (vcpus_on (cpuToCell topology) pins (nc_Id c))))
        (filter (\<lambda>c. vcpus_on (cpuToCell topology) pins (nc_Id c) \<noteq> []) topology) \<and>
    sum_list (map gc_Memory (nd_Cells d)) = mem \<and>
    (\<forall>c \<in> set (nd_Cells d). h dvd gc_Memory c) \<and>
    (\<forall>c \<in> set (nd_Cells d). \<forall>c' \<in> set (nd_Cells d). gc_Memory c \<le> gc_Memory c' + h)"
proof -
  obtain m n extra d0 where m: "involvedCells (cpuToCell topology) pins [] = Inr m"
    "n = length (involved_ids m topology)" "extra = mem mod (n * h) div h" "nd_Cells d0 = []"
    "0 < h" "0 < n" "h dvd mem"
    and nd: "nd_Cells d = add_pages extra h (nd_Cells
       (layout_cells m (number_cells m topology 0 []) ((mem - extra * h) div n) h unit topology d0))"
    by (rule numaMapping_layout [OF assms(1-5)]) blast
  let ?l = "layout_cells m (number_cells m topology 0 []) ((mem - extra * h) div n) h unit topology d0"
  have lm: "map gc_Memory (nd_Cells ?l) = replicate n ((mem - mem mod (n * h) div h * h) div n)"
    using m(2-4) by (simp add: layout_Cells)
  note mem = cell_memory [OF m(5-7) assms(6) lm, folded m(3), folded nd]
  have on: "map_of m c = (if vcpus_on (cpuToCell topology) pins c = [] then None
      else Some (vcpus_on (cpuToCell topology) pins c))" for c
    using involvedCells_spec [OF m(1)] by (simp add: Let_def)
  have "map gc_CPUs (nd_Cells d) =
      map (\<lambda>c. join_with '','' (map (itoa \<circ> int) (the (map_of m (nc_Id c)))))
        (filter (\<lambda>c. map_of m (nc_Id c) \<noteq> None) topology)"
    unfolding nd add_pages_CPUs using m(4) by (simp add: layout_Cells)
  also have "\<dots> = map (\<lambda>c. join_with '','' (map (itoa \<circ> int) (vcpus_on (cpuToCell topology) pins (nc_Id c))))
        (filter (\<lambda>c. vcpus_on (cpuToCell topology) pins (nc_Id c) \<noteq> []) topology)"
    by (simp add: on cong: map_cong filter_cong)
  finally have cpus: "map gc_CPUs (nd_Cells d) = \<dots>" .
  have "h dvd gc_Memory c" if "c \<in> set (nd_Cells d)" for c
    using mem(2) [OF that] mem(3) by (elim disjE) (simp_all only: dvd_add dvd_refl)
  moreover have "gc_Memory c \<le> gc_Memory c' + h"
    if "c \<in> set (nd_Cells d)" "c' \<in> set (nd_Cells d)" for c c'
    using mem(2) [OF that(1)] mem(2) [OF that(2)] by (elim disjE) (simp_all only: le_add1 le_refl add.assoc)
  ultimately show ?thesis using cpus mem(1) by blast
qed

definition two_cells :: "numa_cell list" where
  "two_cells = [\<lparr>nc_Id = 0, Cpus = [\<lparr>cpu_Id = 0, Siblings = []\<rparr>], Distances = []\<rparr>,
     \<lparr>nc_Id = 1, Cpus = [\<lparr>cpu_Id = 1, Siblings = []\<rparr>], Distances = []\<rparr>]"

definition bytes :: "nat \<Rightarrow> quantity" where
  "bytes n = \<lparr>q_AsInt64 = Some (int n), q_Value = int n, q_String = itoa (int n)\<rparr>"

definition three_pages :: vmi_memory where
  "three_pages = \<lparr>vm_Guest = Some (bytes 6144), vm_Requests = None, vm_Limits = None,
     vm_HugepageSize = Some ''2Ki''\<rparr>"

abbreviation two_Ki :: "string \<Rightarrow> quantity res" where
  "two_Ki \<equiv> \<lambda>_. Inr (bytes 2048)"

lemma two_cells_hugepages: "hugePagesInfo two_Ki three_pages True = Inr (2048, ''b'', True)"
  by (simp add: hugePagesInfo_def three_pages_def bytes_def QuantityToByte_def)

lemma three_pages_bytes: "QuantityToByte (GetVirtualMemory three_pages) = Inr 6144"
  by (simp add: GetVirtualMemory_def three_pages_def bytes_def QuantityToByte_def)

lemma cpuToCell_two: "cpuToCell two_cells = [(0, 0), (1, 1)]"
  by (simp add: cpuToCell_def two_cells_def)

lemma pins_two: "pins_of [0, 1] =
    [\<lparr>pin_VCPU = 0, pin_CPUSet = itoa 0\<rparr>, \<lparr>pin_VCPU = 1, pin_CPUSet = itoa 1\<rparr>]"
  by (simp add: pins_of_def)

lemma involved_two:
  "involvedCells (cpuToCell two_cells) (pins_of [0, 1]) [] = Inr [(0, [0]), (1, [1])]"
  unfolding cpuToCell_two pins_two by (simp add: parse_int_itoa)

lemma involved_ids_two: "involved_ids [(0, [0]), (1, [1])] two_cells = [0, 1]"
  by (simp add: involved_ids_def two_cells_def)

lemma numaMapping_two:
  "\<exists>d. numaMapping two_Ki three_pages True False (pins_of [0, 1]) (Some two_cells) = Inr (Some d)"
  using involved_two involved_ids_two two_cells_hugepages three_pages_bytes
  by (simp add: numaMapping_def mul64_def Let_def two_cells_def)

theorem numaMapping_cells_witness:
  "\<exists>d. numaMapping two_Ki three_pages True False (pins_of [0, 1]) (Some two_cells) = Inr (Some d) \<and>
     sum_list (map gc_Memory (nd_Cells d)) = 6144 \<and> length (nd_Cells d) = 2"
proof -
  obtain d where d: "numaMapping two_Ki three_pages True False (pins_of [0, 1]) (Some two_cells) = Inr (Some d)"
    using numaMapping_two by blast
  have on: "vcpus_on (cpuToCell two_cells) (pins_of [0, 1]) 0 = [0]"
    "vcpus_on (cpuToCell two_cells) (pins_of [0, 1]) 1 = [1]"
    unfolding vcpus_on_def cpuToCell_two pins_two by (simp_all add: host_cell_def parse_int_itoa)
  note t = numaMapping_cells [OF d _ two_cells_hugepages three_pages_bytes]
  have "sum_list (map gc_Memory (nd_Cells d)) = 6144" using t by (simp add: two_cells_def)
  moreover have "length (map gc_CPUs (nd_Cells d)) = 2" using t on by (simp add: two_cells_def)
  ultimately show ?thesis using d by simp
qed

end
