(* ===== verification/VcpuPinsCorrect.thy ===== *)
theory VcpuPinsCorrect
  imports VcpuPins NumaCorrect
begin

text \<open>
  No host thread is handed out twice: the contract of \<^verbatim>\<open>VCPUPool\<close>, what its clients do with it, and
  the whole of \<^verbatim>\<open>AdjustDomainForTopologyAndCPUSet\<close>. The slices of \<^verbatim>\<open>FormatDomainIOThreadPin\<close>
  partition the CPUs evenly.
\<close>

section \<open>The interface\<close>

locale vcpu_pool_contract =
  fixes ft :: "'p \<Rightarrow> nat res \<times> 'p"
    and left :: "'p \<Rightarrow> nat multiset"
    and ok :: "'p \<Rightarrow> bool"
  assumes fit_some: "ok p \<Longrightarrow> ft p = (Inr t, p') \<Longrightarrow> ok p' \<and> left p = add_mset t (left p')"
    and fit_none: "ok p \<Longrightarrow> ft p = (Inl e, p') \<Longrightarrow> left p = {#}"
begin

lemma supplemental_ok:
  assumes "ok p" "pin_supplemental ft is p ct = (Inr (), p', ct')"
  shows "\<exists>ts. length ts = length is \<and> ok p' \<and> mset ts + left p' = left p \<and>
    ct' = ct\<lparr>ct_IOThreadPin := ct_IOThreadPin ct @ zip is (map (itoa \<circ> int) ts)\<rparr>"
  using assms
proof (induction "is" arbitrary: p ct)
  case Nil
  then show ?case by simp
next
  case (Cons i "is")
  obtain t p1 where t: "ft p = (Inr t, p1)"
    "pin_supplemental ft is p1 (appendDomainIOThreadPin ct i (itoa (int t))) = (Inr (), p', ct')"
    using Cons.prems(2) by (auto split: prod.splits sum.splits)
  have p1: "ok p1" "left p = add_mset t (left p1)" using fit_some [OF Cons.prems(1) t(1)] by auto
  from Cons.IH [OF p1(1) t(2)] obtain ts where "length ts = length is" "ok p'" "mset ts + left p' = left p1"
    "ct' = ct\<lparr>ct_IOThreadPin := ct_IOThreadPin ct @ (i, itoa (int t)) # zip is (map (itoa \<circ> int) ts)\<rparr>"
    by (auto simp: appendDomainIOThreadPin_def comp_def)
  then show ?case using p1(2) by (intro exI [of _ "t # ts"]) (simp add: comp_def)
qed

lemma supplemental_total:
  "ok p \<Longrightarrow> length is \<le> size (left p) \<Longrightarrow> \<exists>p' ct'. pin_supplemental ft is p ct = (Inr (), p', ct')"
proof (induction "is" arbitrary: p ct)
  case (Cons i "is")
  then have "left p \<noteq> {#}" by auto
  then obtain t p1 where t: "ft p = (Inr t, p1)"
    using fit_none [OF Cons.prems(1)] by (metis obj_sumE surj_pair)
  then have "ok p1" "left p = add_mset t (left p1)" using fit_some [OF Cons.prems(1)] by auto
  then show ?case using Cons t by simp
qed simp

lemma emulator_ok:
  assumes "ok p" "FormatEmulatorThreadPin ft p parity vCPUs = (Inr s, p')"
  shows "\<exists>ts. length ts = (if parity \<and> vCPUs mod 2 = 0 then 2 else 1) \<and> ok p' \<and>
    s = convertCPUListToCPUSet ts \<and> mset ts + left p' = left p"
proof -
  obtain t1 p1 where t1: "ft p = (Inr t1, p1)"
    using assms(2) by (auto simp: FormatEmulatorThreadPin_def split: prod.splits sum.splits)
  note f1 = fit_some [OF assms(1) t1]
  show ?thesis
  proof (cases "parity \<and> vCPUs mod 2 = 0")
    case True
    obtain t2 p2 where t2: "ft p1 = (Inr t2, p2)"
      using assms(2) t1 True by (auto simp: FormatEmulatorThreadPin_def split: prod.splits sum.splits)
    have "ok p2 \<and> left p1 = add_mset t2 (left p2)" using fit_some f1 t2 by blast
    then show ?thesis using assms(2) t1 t2 True f1
      by (intro exI [of _ "[t1, t2]"]) (simp add: FormatEmulatorThreadPin_def)
  next
    case False
    then show ?thesis using assms(2) t1 f1
      by (intro exI [of _ "[t1]"]) (auto simp: FormatEmulatorThreadPin_def)
  qed
qed

end

section \<open>The pool implements it\<close>

lemma GetThread_ok:
  assumes "cell_ok k c" "1 \<le> k" "\<not> IsEmpty c"
  shows "\<exists>t c'. GetThread c = (Some t, c') \<and> cell_ok k c' \<and>
    mset (cell_threads c) = add_mset t (mset (cell_threads c'))"
proof (cases "fragmentedCoresList c")
  case (Cons t rest)
  then show ?thesis using assms(1) by (simp add: GetThread_def cell_ok_def cell_threads_def)
next
  case Nil
  then obtain core rest where core: "fullCoresList c = core # rest"
    using assms(3) by (auto simp: IsEmpty_def neq_Nil_conv)
  then have "k \<le> length core" "\<forall>core \<in> set rest. k \<le> length core" "c_threadsPerCore c = k"
    using assms(1) by (auto simp: cell_ok_def)
  moreover obtain t remaining where "core = t # remaining"
    using \<open>k \<le> length core\<close> assms(2) by (cases core) auto
  moreover have "mset (cell_threads (put_back c remaining rest)) = mset remaining + mset (concat rest)"
    using Nil by (simp add: mset_put_back)
  ultimately show ?thesis using Nil core put_back_ok
    by (simp add: GetThread_def cell_threads_def)
qed

lemma fit_thread_cells_ok:
  assumes "\<forall>c \<in> set cs. cell_ok k c" "1 \<le> k" "fit_thread_cells cs = (r, cs')"
  shows "(\<forall>c \<in> set cs'. cell_ok k c) \<and> (case r of
      None \<Rightarrow> all_threads cs = [] \<and> cs' = cs
    | Some t \<Rightarrow> mset (all_threads cs) = add_mset t (mset (all_threads cs')))"
  using assms(1,3)
proof (induction cs arbitrary: r cs')
  case Nil
  then show ?case by (simp add: all_threads_def)
next
  case (Cons c cs)
  show ?case
  proof (cases "IsEmpty c")
    case True
    then have "cell_threads c = []" by (simp add: IsEmpty_def cell_threads_def)
    moreover obtain cs1 where "fit_thread_cells cs = (r, cs1)" "cs' = c # cs1"
      using Cons.prems(2) True by (auto split: prod.splits)
    ultimately show ?thesis
      using Cons.IH [of r cs1] Cons.prems(1) by (auto simp: all_threads_def split: option.splits)
  next
    case False
    have "cell_ok k c" using Cons.prems(1) by simp
    from GetThread_ok [OF this assms(2) False] obtain t c' where
      "GetThread c = (Some t, c')" "cell_ok k c'"
      "mset (cell_threads c) = add_mset t (mset (cell_threads c'))" by blast
    then show ?thesis using Cons.prems False by (auto simp: all_threads_def)
  qed
qed

interpretation pool: vcpu_pool_contract FitThread "\<lambda>p. mset (pool_threads p)" pool_ok
proof
  fix p t p' assume ok: "pool_ok p" and f: "FitThread p = (Inr t, p')"
  obtain cs where cs: "fit_thread_cells (cells p) = (Some t, cs)" "p' = p\<lparr>cells := cs\<rparr>"
    using f by (auto simp: FitThread_def split: prod.splits option.splits)
  show "pool_ok p' \<and> mset (pool_threads p) = add_mset t (mset (pool_threads p'))"
    using fit_thread_cells_ok [OF _ _ cs(1)] ok by (auto simp: pool_ok_def pool_threads_def cs(2))
next
  fix p e p' assume ok: "pool_ok p" and f: "FitThread p = (Inl e, p')"
  obtain cs where cs: "fit_thread_cells (cells p) = (None, cs)"
    using f by (auto simp: FitThread_def split: prod.splits option.splits)
  show "mset (pool_threads p) = {#}"
    using fit_thread_cells_ok [OF _ _ cs] ok by (auto simp: pool_ok_def pool_threads_def)
qed

section \<open>Fitting cores keeps the pool\<close>

lemma pool_ok_cells:
  "pool_ok p \<Longrightarrow> \<forall>c \<in> set cs. cell_ok (p_threadsPerCore p) c \<Longrightarrow> pool_ok (p\<lparr>cells := cs\<rparr>)"
  by (simp add: pool_ok_def)

lemma fitCores_conserves:
  assumes "pool_ok p" "1 \<le> n" "fitCores p n = Inr (t, r, p')"
  shows "pool_ok p' \<and> mset t + mset (pool_threads p') = mset (pool_threads p)"
proof -
  let ?k = "p_threadsPerCore p"
  obtain t1 r1 p1 where f1: "fitCPUBound p n = (t1, r1, p1)" by (metis prod_cases3)
  obtain t2 r2 p2 where f2: "(t2, r2, p2) = (if r1 = 0 then ([], 0, p1) else fitCellBound p1 r1)"
    by (metis prod_cases3)
  obtain chunks cs2 where ch: "pool_takes ?k (cells p) chunks cs2" "t1 @ t2 = concat chunks"
    "0 \<le> r2" "p2 = p\<lparr>cells := cs2\<rparr>"
    using bound_phases [OF assms(1,2) f1 f2] by blast
  have ok: "1 \<le> ?k" "\<forall>c \<in> set (cells p). cell_ok ?k c" using assms(1) by (auto simp: pool_ok_def)
  note facts = pool_takes_facts [OF ch(1) ok]
  have p2: "pool_ok p2" "mset (t1 @ t2) + mset (pool_threads p2) = mset (pool_threads p)"
    using facts pool_ok_cells [OF assms(1)] ch(2,4) by (simp_all add: pool_threads_def)
  show ?thesis
  proof (cases "r2 \<noteq> 0 \<and> allowCellCrossing p2")
    case False
    then have "t = t1 @ t2" "p' = p2" using assms(3) fitCores_bound [OF f1 f2] by auto
    then show ?thesis using p2 by simp
  next
    case True
    obtain t3 where t3: "fitUnbound p2 r2 = Inr (t3, r, p')" "t = (t1 @ t2) @ t3"
      using assms(3) fitCores_bound [OF f1 f2] True by (auto split: sum.splits prod.splits)
    have "1 * 1 \<le> int ?k * r2" using ok(1) True ch(3) by (intro mult_mono) simp_all
    then have r: "1 \<le> int (p_threadsPerCore p2) * r2" by (simp add: ch(4))
    from unbound_cells_ok [OF r, of "cells p2" "[]"] obtain fin ts rem cs' where u:
      "unbound_cells (cells p2) (int (p_threadsPerCore p2) * r2) [] = Inr (fin, ts, rem, cs')"
      "map fullCoresList cs' = map fullCoresList (cells p2)"
      "map c_threadsPerCore cs' = map c_threadsPerCore (cells p2)"
      "mset ts + mset (all_threads cs') = mset (all_threads (cells p2))" by auto
    have p': "t3 = ts" "p' = p2\<lparr>cells := cs'\<rparr>"
      using t3(1) u(1) by (auto simp: fitUnbound_def split: if_splits)
    have len: "length cs' = length (cells p2)" using arg_cong [OF u(2), of length] by simp
    have "cell_ok (p_threadsPerCore p2) (cs' ! i)" if "i < length cs'" for i
    proof -
      have "fullCoresList (cs' ! i) = fullCoresList (cells p2 ! i)"
        "c_threadsPerCore (cs' ! i) = c_threadsPerCore (cells p2 ! i)"
        using u(2,3) that len by (metis nth_map)+
      moreover have "cell_ok (p_threadsPerCore p2) (cells p2 ! i)"
        using p2(1) that len by (simp add: pool_ok_def)
      ultimately show ?thesis by (simp add: cell_ok_def)
    qed
    then have "\<forall>c \<in> set cs'. cell_ok (p_threadsPerCore p2) c" by (auto simp: in_set_conv_nth)
    then have "pool_ok p'" unfolding p'(2) by (rule pool_ok_cells [OF p2(1)])
    moreover have "mset t + mset (pool_threads p') = mset (pool_threads p)"
      using p2(2) u(4) by (simp add: t3(2) p' pool_threads_def ac_simps)
    ultimately show ?thesis by simp
  qed
qed

lemma FitCores_conserves:
  assumes "pool_ok p" "1 \<le> p_cores p" "FitCores p = (Inr pins, p')"
  shows "pool_ok p' \<and> (\<exists>threads. pins = pins_of threads \<and>
    mset threads + mset (pool_threads p') = mset (pool_threads p))"
proof -
  obtain t r where "fitCores p (int (p_cores p)) = Inr (t, r, p')" "pins = pins_of t"
    using assms(3) by (auto simp: FitCores_def split: sum.splits if_splits)
  then show ?thesis using fitCores_conserves [OF assms(1), of "int (p_cores p)" t r p'] assms(2) by auto
qed

section \<open>Slices of CPUs\<close>

declare upt_Suc [simp del]

lemma take_drop_join: "take n (drop c xs) @ drop (c + n) xs = drop c xs"
  by (metis add.commute append_take_drop_id drop_drop)

lemma pin_slices_ok:
  assumes "0 < n" "n < vcpus" "vcpus \<le> length cpuset" "threads = [i..<Suc n]" "1 \<le> i" "i \<le> Suc n"
    "cur = (i - 1) * (vcpus div n) + min (i - 1) (vcpus mod n)"
  shows "\<exists>slices. pin_slices cpuset vcpus n threads cur ct =
      (Inr (), ct\<lparr>ct_IOThreadPin := ct_IOThreadPin ct @ zip threads (map slice_text slices)\<rparr>) \<and>
    length slices = length threads \<and> concat slices = drop cur (take vcpus cpuset) \<and>
    (\<forall>s \<in> set slices. length s = vcpus div n \<or> length s = vcpus div n + 1)"
  using assms(4-7)
proof (induction threads arbitrary: i cur ct)
  case Nil
  then have "length [i..<Suc n] = 0" by (metis list.size(3))
  then have i: "i = Suc n" using Nil(3) by simp
  have "vcpus mod n \<le> n" using assms(1) by (simp add: less_imp_le)
  then have "cur = vcpus" using Nil(4) by (simp add: i min_absorb2 mult.commute)
  then show ?case by simp
next
  case (Cons thread threads)
  then have lt: "i < Suc n" by (metis list.distinct(1) not_le upt_conv_Nil)
  then have "thread # threads = i # [Suc i..<Suc n]"
    using Cons.prems(1) by (simp add: upt_conv_Cons)
  then have th: "thread = i" "threads = [Suc i..<Suc n]" "i \<le> n" using lt by simp_all
  let ?q = "vcpus div n" and ?s = "vcpus mod n"
  have q: "1 \<le> ?q" using assms(1,2) by (simp add: Suc_le_eq div_greater_zero_iff)
  let ?len = "?q + (if i \<le> ?s then 1 else 0)"
  have next_cur: "cur + ?len = (Suc i - 1) * ?q + min (Suc i - 1) ?s"
  proof -
    obtain j where "i = Suc j" using Cons.prems(2) by (cases i) auto
    then show ?thesis using Cons.prems(4) by (auto simp: min_def)
  qed
  have le: "cur + ?len \<le> vcpus"
  proof -
    have "i * ?q + min i ?s \<le> n * ?q + ?s" using th(3) by (intro add_mono mult_right_mono) auto
    then show ?thesis unfolding next_cur by (simp add: mult.commute)
  qed
  let ?slice = "take ?len (drop cur cpuset)"
  let ?ct = "appendDomainIOThreadPin ct i (slice_text ?slice)"
  have fin: "cur + (?q - 1 + (if i \<le> ?s then 1 else 0)) + 1 = cur + ?len" using q by simp
  have step: "pin_slices cpuset vcpus n (thread # threads) cur ct =
      pin_slices cpuset vcpus n threads (cur + ?len) ?ct"
    using le assms(3) unfolding pin_slices.simps Let_def th(1) fin by simp
  obtain slices where IH: "pin_slices cpuset vcpus n threads (cur + ?len) ?ct =
      (Inr (), ?ct\<lparr>ct_IOThreadPin := ct_IOThreadPin ?ct @ zip threads (map slice_text slices)\<rparr>)"
    "length slices = length threads" "concat slices = drop (cur + ?len) (take vcpus cpuset)"
    "\<forall>s \<in> set slices. length s = ?q \<or> length s = ?q + 1"
    using Cons.IH [OF th(2) _ _ next_cur] th(3) by auto
  have len: "length ?slice = ?len" using le assms(3) by simp
  have "?slice = take ?len (drop cur (take vcpus cpuset))" using le by (simp add: drop_take)
  then have "concat (?slice # slices) = drop cur (take vcpus cpuset)"
    unfolding concat.simps IH(3) by (simp only: take_drop_join)
  moreover have "\<forall>s \<in> set (?slice # slices). length s = ?q \<or> length s = ?q + 1"
    using IH(4) len by auto
  ultimately show ?case
    unfolding step IH(1) using IH(2) th(1)
    by (intro exI [of _ "?slice # slices"]) (simp add: appendDomainIOThreadPin_def)
qed

text \<open>
  With fewer I/O threads than virtual CPUs \<^verbatim>\<open>FormatDomainIOThreadPin\<close> pins them, in order, to
  consecutive slices that partition the CPUs of the virtual machine and whose lengths differ by at
  most one.
\<close>

theorem FormatDomainIOThreadPin_balanced:
  assumes "SupplementalPoolThreadCount v = 0" "\<not> (v_Dedicated v \<and> v_IsolateEmulatorThread v)"
    "0 < n" "int n < GetNumberOfVCPUs (v_CPU v)" "GetNumberOfVCPUs (v_CPU v) \<le> int (length cpuset)"
  shows "\<exists>slices. FormatDomainIOThreadPin v (Some n) s cpuset ct =
      (Inr (), ct\<lparr>ct_IOThreadPin := ct_IOThreadPin ct @ zip [1..<Suc n] (map slice_text slices)\<rparr>) \<and>
    length slices = n \<and> concat slices = take (nat (GetNumberOfVCPUs (v_CPU v))) cpuset \<and>
    (\<forall>a \<in> set slices. \<forall>b \<in> set slices. length a \<le> length b + 1)"
proof -
  let ?v = "nat (GetNumberOfVCPUs (v_CPU v))"
  have v: "n < ?v" "?v \<le> length cpuset" using assms(4,5) by auto
  obtain slices where sl: "pin_slices cpuset ?v n [1..<Suc n] 0 ct =
      (Inr (), ct\<lparr>ct_IOThreadPin := ct_IOThreadPin ct @ zip [1..<Suc n] (map slice_text slices)\<rparr>)"
    "length slices = length [1..<Suc n]" "concat slices = drop 0 (take ?v cpuset)"
    "\<forall>s \<in> set slices. length s = ?v div n \<or> length s = ?v div n + 1"
    using pin_slices_ok [OF assms(3) v refl, of 1 0 ct] by auto
  have "FormatDomainIOThreadPin v (Some n) s cpuset ct = pin_slices cpuset ?v n [1..<Suc n] 0 ct"
    using assms(1-3) v by (auto simp: FormatDomainIOThreadPin_def Let_def)
  moreover have "length a \<le> length b + 1" if "a \<in> set slices" "b \<in> set slices" for a b
    using bspec [OF sl(4) that(1)] bspec [OF sl(4) that(2)] by linarith
  ultimately show ?thesis using sl(1-3) by (intro exI [of _ slices]) auto
qed

definition plain_vmi :: vmi where
  "plain_vmi = \<lparr>v_CPU = \<lparr>vc_Cores = 8, vc_Sockets = 1, vc_Threads = 1\<rparr>, v_MaxSockets = 0, v_Dedicated = True,
     v_IsolateEmulatorThread = False, v_Realtime = False, v_NumaPassthrough = False, v_Policy = Some PolicyAuto,
     v_SupplementalCount = None, v_Disks = [], v_CPURequest = None, v_CPULimit = None, v_EvenParity = False,
     v_Arch = ''amd64'', v_Memory = \<lparr>vm_Guest = None, vm_Requests = None, vm_Limits = None, vm_HugepageSize = None\<rparr>\<rparr>"

theorem FormatDomainIOThreadPin_balanced_witness:
  "\<exists>slices. FormatDomainIOThreadPin plain_vmi (Some 3) [] [0..7]
      \<lparr>ct_VCPUPin = [], ct_IOThreadPin = [], ct_EmulatorPin = None\<rparr> =
      (Inr (), \<lparr>ct_VCPUPin = [], ct_IOThreadPin = zip [1..<4] (map slice_text slices), ct_EmulatorPin = None\<rparr>) \<and>
    length slices = 3 \<and> concat slices = [0..7]"
proof -
  have v: "SupplementalPoolThreadCount plain_vmi = 0" "\<not> (v_Dedicated plain_vmi \<and> v_IsolateEmulatorThread plain_vmi)"
    "GetNumberOfVCPUs (v_CPU plain_vmi) = 8"
    by (simp_all add: plain_vmi_def SupplementalPoolThreadCount_def GetNumberOfVCPUs_def count_factor_def mul32_def)
  have "[1..<Suc 3] = [1..<4 :: nat]" by (simp add: numeral_eq_Suc)
  then show ?thesis
    using FormatDomainIOThreadPin_balanced [OF v(1,2), of 3 "[0..7]" "[]"
        "\<lparr>ct_VCPUPin = [], ct_IOThreadPin = [], ct_EmulatorPin = None\<rparr>"] v(3)
    by auto
qed

section \<open>The whole domain\<close>

lemma mset_subset_distinct:
  assumes "mset xs \<subseteq># mset ys" "distinct ys"
  shows "distinct xs"
proof -
  obtain zs where "mset ys = mset xs + mset zs"
    using assms(1) by (metis ex_mset mset_subset_eq_exists_conv)
  then have "distinct (xs @ zs)" using assms(2) by (metis mset_append mset_eq_imp_distinct_iff)
  then show ?thesis by simp
qed

lemma pin_slices_keeps:
  "ct_VCPUPin (snd (pin_slices cpuset vcpus n threads cur ct)) = ct_VCPUPin ct \<and>
   ct_EmulatorPin (snd (pin_slices cpuset vcpus n threads cur ct)) = ct_EmulatorPin ct"
  by (induction threads arbitrary: cur ct) (auto simp: Let_def appendDomainIOThreadPin_def)

lemma pin_single_keeps:
  "ct_VCPUPin (snd (pin_single cpuset vcpus threads ct)) = ct_VCPUPin ct \<and>
   ct_EmulatorPin (snd (pin_single cpuset vcpus threads ct)) = ct_EmulatorPin ct"
  by (induction threads arbitrary: ct) (auto simp: appendDomainIOThreadPin_def)

lemma FormatDomainIOThreadPin_keeps:
  "ct_VCPUPin (snd (FormatDomainIOThreadPin v n s cpuset ct)) = ct_VCPUPin ct \<and>
   ct_EmulatorPin (snd (FormatDomainIOThreadPin v n s cpuset ct)) = ct_EmulatorPin ct"
  by (auto simp: FormatDomainIOThreadPin_def Let_def pin_slices_keeps pin_single_keeps
      appendDomainIOThreadPin_def split: option.splits)

lemma supplemental_step_ok:
  assumes "pool_ok p" "supplemental_step v ioThreads p ct = (Inr k, p', ct')" "ct_IOThreadPin ct = []"
  shows "\<exists>ss. pool_ok p' \<and> mset ss + mset (pool_threads p') = mset (pool_threads p) \<and>
    ct_VCPUPin ct' = ct_VCPUPin ct \<and> (SupplementalPoolThreadCount v > 0 \<longrightarrow>
       length ss = SupplementalPoolThreadCount v \<and>
       ct_IOThreadPin ct' = zip [1..<Suc (length ss)] (map (itoa \<circ> int) ss))"
proof (cases "SupplementalPoolThreadCount v > 0")
  case True
  let ?n = "SupplementalPoolThreadCount v"
  have "pin_supplemental FitThread [1..<Suc ?n] p ct = (Inr (), p', ct')"
    using assms(2) True by (auto simp: supplemental_step_def formatDomainIOThreadSupplementalPin_def Let_def
        split: if_splits prod.splits sum.splits)
  moreover have "length [1..<Suc ?n] = ?n" by simp
  ultimately obtain ss where "length ss = ?n" "pool_ok p'"
    "mset ss + mset (pool_threads p') = mset (pool_threads p)"
    "ct' = ct\<lparr>ct_IOThreadPin := ct_IOThreadPin ct @ zip [1..<Suc ?n] (map (itoa \<circ> int) ss)\<rparr>"
    using pool.supplemental_ok [OF assms(1)] by metis
  then show ?thesis using assms(3) by (intro exI [of _ ss]) simp
next
  case False
  then show ?thesis using assms(1,2) by (intro exI [of _ "[]"]) (simp add: supplemental_step_def)
qed

lemma emulator_step_ok:
  assumes "pool_ok p" "emulator_step v k p ct = (Inr s, p', ct')"
  shows "\<exists>es. mset es + mset (pool_threads p') = mset (pool_threads p) \<and>
    ct_VCPUPin ct' = ct_VCPUPin ct \<and> ct_IOThreadPin ct' = ct_IOThreadPin ct \<and>
    (v_IsolateEmulatorThread v \<longrightarrow> es \<noteq> [] \<and> ct_EmulatorPin ct' = Some (convertCPUListToCPUSet es))"
proof (cases "v_IsolateEmulatorThread v")
  case True
  let ?n = "GetNumberOfVCPUs (v_CPU v) + int k"
  have f: "FormatEmulatorThreadPin FitThread p (v_EvenParity v) ?n = (Inr s, p')"
    and ct': "ct' = appendDomainEmulatorThreadPin ct s"
    using assms(2) True by (auto simp: emulator_step_def split: prod.splits sum.splits)
  from pool.emulator_ok [OF assms(1) f] obtain es where
    "length es = (if v_EvenParity v \<and> ?n mod 2 = 0 then 2 else 1)"
    "s = convertCPUListToCPUSet es" "mset es + mset (pool_threads p') = mset (pool_threads p)" by blast
  moreover from this(1) have "es \<noteq> []" by (auto split: if_splits)
  ultimately show ?thesis
    by (intro exI [of _ es]) (simp add: ct' appendDomainEmulatorThreadPin_def)
next
  case False
  then show ?thesis using assms(2) by (intro exI [of _ "[]"]) (simp add: emulator_step_def)
qed

lemma adjust_threads_ok:
  assumes "pool_ok p" "adjust_threads v ioThreads cpuset p ct = (Inr (), ct')" "ct_IOThreadPin ct = []"
  shows "\<exists>ss es. mset ss + mset es \<subseteq># mset (pool_threads p) \<and>
    ct_VCPUPin ct' = ct_VCPUPin ct \<and>
    (SupplementalPoolThreadCount v > 0 \<longrightarrow> length ss = SupplementalPoolThreadCount v \<and>
       ct_IOThreadPin ct' = zip [1..<Suc (length ss)] (map (itoa \<circ> int) ss)) \<and>
    (v_IsolateEmulatorThread v \<longrightarrow> es \<noteq> [] \<and> ct_EmulatorPin ct' = Some (convertCPUListToCPUSet es))"
proof -
  obtain k p1 ct1 where s: "supplemental_step v ioThreads p ct = (Inr k, p1, ct1)"
    using assms(2) by (auto simp: adjust_threads_def split: prod.splits sum.splits)
  obtain t p2 ct2 where e: "emulator_step v k p1 ct1 = (Inr t, p2, ct2)"
    and i: "io_step v ioThreads t cpuset ct2 = (Inr (), ct')"
    using assms(2) s by (auto simp: adjust_threads_def split: prod.splits sum.splits)
  from supplemental_step_ok [OF assms(1) s assms(3)] obtain ss where ss: "pool_ok p1 \<and>
    mset ss + mset (pool_threads p1) = mset (pool_threads p) \<and> ct_VCPUPin ct1 = ct_VCPUPin ct \<and>
    (SupplementalPoolThreadCount v > 0 \<longrightarrow> length ss = SupplementalPoolThreadCount v \<and>
       ct_IOThreadPin ct1 = zip [1..<Suc (length ss)] (map (itoa \<circ> int) ss))" ..
  from emulator_step_ok [OF ss [THEN conjunct1] e] obtain es where
    es: "mset es + mset (pool_threads p2) = mset (pool_threads p1) \<and>
    ct_VCPUPin ct2 = ct_VCPUPin ct1 \<and> ct_IOThreadPin ct2 = ct_IOThreadPin ct1 \<and>
    (v_IsolateEmulatorThread v \<longrightarrow> es \<noteq> [] \<and> ct_EmulatorPin ct2 = Some (convertCPUListToCPUSet es))" ..
  have io: "ct_VCPUPin ct' = ct_VCPUPin ct2" "ct_EmulatorPin ct' = ct_EmulatorPin ct2"
    "SupplementalPoolThreadCount v > 0 \<longrightarrow> ct_IOThreadPin ct' = ct_IOThreadPin ct2"
    using i FormatDomainIOThreadPin_keeps [of v ioThreads t cpuset ct2]
    by (auto simp: io_step_def split: if_splits)
  have "mset ss + mset es \<subseteq># mset (pool_threads p)"
    unfolding ss [THEN conjunct2, THEN conjunct1, symmetric] es [THEN conjunct1, symmetric] by simp
  then show ?thesis using ss es io by (intro exI [of _ ss] exI [of _ es]) simp
qed

text \<open>
  C30: When \<^verbatim>\<open>AdjustDomainForTopologyAndCPUSet\<close> succeeds, the virtual CPUs, the supplemental I/O
  threads and the isolated emulator thread are pinned to pairwise different host threads, all of
  them in the CPU set of the virtual machine and in the topology of the host.
\<close>

theorem AdjustDomain_exclusive:
  assumes "AdjustDomainForTopologyAndCPUSet parse d v topology cpuset = (Inr (), d')"
    "requested_topology d v = Inr req" "topology_ok topology" "1 \<le> Threads req"
    "1 \<le> Cores req * Sockets req mod 2 ^ 32"
  shows "\<exists>vs ss es ct. dm_CPUTune d' = Some ct \<and> ct_VCPUPin ct = pins_of vs \<and>
    (SupplementalPoolThreadCount v > 0 \<longrightarrow> length ss = SupplementalPoolThreadCount v \<and>
       ct_IOThreadPin ct = zip [1..<Suc (length ss)] (map (itoa \<circ> int) ss)) \<and>
    (v_IsolateEmulatorThread v \<longrightarrow> es \<noteq> [] \<and> ct_EmulatorPin ct = Some (convertCPUListToCPUSet es)) \<and>
    distinct (vs @ ss @ es) \<and>
    set (vs @ ss @ es) \<subseteq> {t. int t \<in> set cpuset \<and> (\<exists>c \<in> set topology. \<exists>cpu \<in> set (Cpus c). t \<in> set (cpu_threads cpu))}"
proof -
  let ?p = "newCPUPool req topology cpuset (\<not> v_NumaPassthrough v)"
  note pool = newCPUPool_facts [OF assms(3,4), of cpuset "\<not> v_NumaPassthrough v"]
  have sel: "(if v_NumaPassthrough v then NewStrictCPUPool req topology cpuset
      else NewRelaxedCPUPool req topology cpuset) = ?p"
    by (simp add: NewStrictCPUPool_def NewRelaxedCPUPool_def)
  note run = assms(1) [unfolded AdjustDomainForTopologyAndCPUSet_def assms(2) sum.case sel]
  obtain pins p where f: "FitCores ?p = (Inr pins, p)"
    using run by (cases "FitCores ?p"; cases "fst (FitCores ?p)") simp_all
  let ?ct = "\<lparr>ct_VCPUPin = pins, ct_IOThreadPin = [], ct_EmulatorPin = None\<rparr>"
  note run1 = run [unfolded f prod.case sum.case Let_def]
  obtain ct where a: "adjust_threads v (dm_IOThreads d) cpuset p ?ct = (Inr (), ct)"
    using run1 by (cases "adjust_threads v (dm_IOThreads d) cpuset p ?ct";
        cases "fst (adjust_threads v (dm_IOThreads d) cpuset p ?ct)") simp_all
  have tune: "dm_CPUTune d' = Some ct"
    using run1 [unfolded a prod.case sum.case] by (auto split: sum.splits if_splits)
  have "1 \<le> p_cores ?p" using assms(5) by (simp add: newCPUPool_def)
  from FitCores_conserves [OF _ this f] pool obtain vs where vs: "pool_ok p" "pins = pins_of vs"
    "mset vs + mset (pool_threads p) = mset (pool_threads ?p)" by auto
  obtain ss es where ps: "mset ss + mset es \<subseteq># mset (pool_threads p)" "ct_VCPUPin ct = pins"
    "SupplementalPoolThreadCount v > 0 \<longrightarrow> length ss = SupplementalPoolThreadCount v \<and>
       ct_IOThreadPin ct = zip [1..<Suc (length ss)] (map (itoa \<circ> int) ss)"
    "v_IsolateEmulatorThread v \<longrightarrow> es \<noteq> [] \<and> ct_EmulatorPin ct = Some (convertCPUListToCPUSet es)"
    using adjust_threads_ok [OF vs(1) a] by auto
  have sub: "mset (vs @ ss @ es) \<subseteq># mset (pool_threads ?p)"
    unfolding vs(3) [symmetric] using ps(1) by simp
  then have "distinct (vs @ ss @ es)" using pool mset_subset_distinct by blast
  moreover have "set (vs @ ss @ es) \<subseteq> set (pool_threads ?p)"
    using set_mset_mono [OF sub] by (simp only: set_mset_mset)
  ultimately show ?thesis using pool tune ps vs(2)
    by (intro exI [of _ vs] exI [of _ ss] exI [of _ es] exI [of _ ct]) simp
qed

definition one_core_domain :: domain where
  "one_core_domain = \<lparr>dm_Topology = \<lparr>Sockets = 1, Cores = 1, Threads = 2\<rparr>, dm_VCPUs = None, dm_IOThreads = None,
     dm_HugePages = False, dm_CPUTune = None, dm_Features = None, dm_Numa = None\<rparr>"

definition isolated_vmi :: vmi where
  "isolated_vmi = plain_vmi\<lparr>v_CPU := \<lparr>vc_Cores = 1, vc_Sockets = 1, vc_Threads = 2\<rparr>,
     v_IsolateEmulatorThread := True, v_Policy := None\<rparr>"

lemma isolated_run:
  "\<exists>d'. AdjustDomainForTopologyAndCPUSet two_Ki one_core_domain isolated_vmi small_host [0, 1, 2, 3] = (Inr (), d')"
proof -
  let ?req = "\<lparr>Sockets = 1, Cores = 1, Threads = 2\<rparr>"
  let ?p1 = "\<lparr>cells = [\<lparr>fullCoresList = [[1, 3]], fragmentedCoresList = [], c_threadsPerCore = 2\<rparr>],
     p_threadsPerCore = 2, p_cores = 1, allowCellCrossing = True, availableThreads = 4\<rparr>"
  have pool: "NewRelaxedCPUPool ?req small_host [0, 1, 2, 3] =
      \<lparr>cells = [\<lparr>fullCoresList = [[0, 2], [1, 3]], fragmentedCoresList = [], c_threadsPerCore = 2\<rparr>],
       p_threadsPerCore = 2, p_cores = 1, allowCellCrossing = True, availableThreads = 4\<rparr>"
    by (simp add: pool_defs)
  have fit: "FitCores (NewRelaxedCPUPool ?req small_host [0, 1, 2, 3]) = (Inr (pins_of [0, 2]), ?p1)"
    unfolding pool by (simp add: FitCores_def fitCores_def fitCPUBound_def drain.simps [of NotFragmented]
        GetNotFragmentedThreads_def put_back_def)
  have req: "requested_topology one_core_domain isolated_vmi = Inr ?req"
    by (simp add: requested_topology_def one_core_domain_def)
  show ?thesis
    using fit unfolding AdjustDomainForTopologyAndCPUSet_def req
    by (simp add: isolated_vmi_def plain_vmi_def adjust_threads_def supplemental_step_def
        SupplementalPoolThreadCount_def emulator_step_def FormatEmulatorThreadPin_def FitThread_def
        GetThread_def put_back_def IsEmpty_def io_step_def HasIOThreads_def Let_def)
qed

theorem AdjustDomain_exclusive_witness:
  "\<exists>d' vs es ct. AdjustDomainForTopologyAndCPUSet two_Ki one_core_domain isolated_vmi small_host [0, 1, 2, 3] =
      (Inr (), d') \<and> dm_CPUTune d' = Some ct \<and> ct_VCPUPin ct = pins_of vs \<and>
      ct_EmulatorPin ct = Some (convertCPUListToCPUSet es) \<and> distinct (vs @ es) \<and> set vs \<subseteq> {0, 1, 2, 3}"
proof -
  obtain d' where d': "AdjustDomainForTopologyAndCPUSet two_Ki one_core_domain isolated_vmi small_host [0, 1, 2, 3] =
      (Inr (), d')" using isolated_run by blast
  have req: "requested_topology one_core_domain isolated_vmi = Inr \<lparr>Sockets = 1, Cores = 1, Threads = 2\<rparr>"
    by (simp add: requested_topology_def one_core_domain_def)
  have iso: "v_IsolateEmulatorThread isolated_vmi" by (simp add: isolated_vmi_def)
  obtain vs ss es ct where "dm_CPUTune d' = Some ct" "ct_VCPUPin ct = pins_of vs"
    "ct_EmulatorPin ct = Some (convertCPUListToCPUSet es)" "distinct (vs @ ss @ es)"
    "set (vs @ ss @ es) \<subseteq> {t. int t \<in> set [0, 1, 2, 3] \<and>
       (\<exists>c \<in> set small_host. \<exists>cpu \<in> set (Cpus c). t \<in> set (cpu_threads cpu))}"
    using AdjustDomain_exclusive [OF d' req small_host_ok] iso by auto
  then show ?thesis using d' by (intro exI [of _ d'] exI [of _ vs] exI [of _ es] exI [of _ ct]) auto
qed

declare upt_Suc [simp]

end
