(* ===== verification/NumaDevices.thy ===== *)
theory NumaDevices
  imports HardwareCorrect
begin

text \<open>
  The two halves of NUMA placement agree: the memory nodes that \<^verbatim>\<open>numaMapping\<close> writes into the
  domain are read back by \<^verbatim>\<open>LookupDevicesNumaNodes\<close> as the guest cell of each host cell.
\<close>

text \<open>Guest ids number the involved host cells in order.\<close>

lemma number_cells_spec:
  assumes "distinct (map nc_Id cs)" "\<forall>c \<in> set cs. nc_Id c \<notin> keys m"
  shows "map_of (number_cells nm cs i m) x =
    (case map_of m x of Some g \<Rightarrow> Some g
     | None \<Rightarrow> map_of (zip (involved_ids nm cs) [i..<i + length (involved_ids nm cs)]) x)"
  using assms
proof (induction cs arbitrary: i m)
  case Nil
  then show ?case by (simp add: involved_ids_def split: option.splits)
next
  case (Cons c cs)
  show ?case
  proof (cases "map_of nm (nc_Id c) = None")
    case True
    then have "involved_ids nm (c # cs) = involved_ids nm cs" by (simp add: involved_ids_def)
    then show ?thesis using Cons True by (simp split: option.split)
  next
    case False
    have "nc_Id c \<notin> nc_Id ` set cs" using Cons.prems(1) by simp
    then have "\<forall>d \<in> set cs. nc_Id d \<noteq> nc_Id c" by (metis imageI)
    then have "\<forall>d \<in> set cs. nc_Id d \<notin> keys (put (nc_Id c) i m)" using Cons.prems(2) by simp
    moreover have "map_of m (nc_Id c) = None" using Cons.prems(2) by (simp add: not_in_keys_iff)
    moreover have "involved_ids nm (c # cs) = nc_Id c # involved_ids nm cs"
      using False by (simp add: involved_ids_def)
    moreover have "[i..<i + length (nc_Id c # involved_ids nm cs)] =
        i # [Suc i..<Suc i + length (involved_ids nm cs)]"
      by (simp add: upt_conv_Cons del: upt_Suc)
    ultimately show ?thesis
      using Cons.IH [of "put (nc_Id c) i m" "Suc i"] Cons.prems(1) False
      by (auto simp del: upt_Suc split: option.split)
  qed
qed

lemma layout_MemNodes:
  "nd_MemNodes (layout_cells m h cm hp u cs d) = nd_MemNodes d @
     map (\<lambda>c. \<lparr>mn_CellID = the (map_of h c), mn_NodeSet = itoa (int c)\<rparr>) (involved_ids m cs)"
  "map gc_ID (nd_Cells (layout_cells m h cm hp u cs d)) = map gc_ID (nd_Cells d) @
     map (\<lambda>c. itoa (int (the (map_of h c)))) (involved_ids m cs)"
  by (induction cs arbitrary: d) (auto simp: Let_def involved_ids_def split: option.splits)

lemma add_pages_ID: "map gc_ID (add_pages n h cs) = map gc_ID cs"
proof -
  have "map gc_ID (add_pages n h cs) = map gc_ID (take n cs @ drop n cs)"
    unfolding add_pages_def map_append by simp
  then show ?thesis by simp
qed

lemma u32_nat: "n < 2 ^ 32 \<Longrightarrow> u32 (int n) = n"
  by (simp add: u32_def)

lemma guest_ids_printed:
  "map gc_ID gcs = map (itoa \<circ> int) gs \<Longrightarrow> \<forall>g \<in> set gs. g < 2 ^ 32 \<Longrightarrow>
     guest_ids gcs ids ws = (ids \<union> set gs, ws)"
proof (induction gcs arbitrary: gs ids)
  case (Cons c gcs)
  then obtain g gs' where g: "gs = g # gs'" "gc_ID c = itoa (int g)" "map gc_ID gcs = map (itoa \<circ> int) gs'"
    by (cases gs) auto
  have "atoi (itoa (int g)) = Inr (int g)" using Cons.prems(2) g by (intro atoi_itoa) auto
  then show ?case using Cons.IH [OF g(3), of "insert g ids"] Cons.prems(2) g by (simp add: u32_nat)
qed simp

lemma nodeset_parses:
  "n < 2 ^ 32 \<Longrightarrow> ParseCPUSetLine (itoa (int n)) MAX_CPU_LIMIT = Inr [int n]"
  using ParseCPUSetLine_single [of "int n" MAX_CPU_LIMIT] by (simp add: MAX_CPU_LIMIT_def)

lemma add_mem_nodes_printed:
  assumes "distinct ids" "\<forall>x \<in> set ids. x < 2 ^ 32 \<and> f x \<in> guests \<and> x \<notin> keys results"
  shows "\<exists>m. add_mem_nodes guests (map (\<lambda>x. \<lparr>mn_CellID = f x, mn_NodeSet = itoa (int x)\<rparr>) ids)
      (results, {}, ws) = (m, {}, ws) \<and>
    (\<forall>x. map_of m x = (if x \<in> set ids then Some (f x) else map_of results x))"
  using assms
proof (induction ids arbitrary: results)
  case (Cons i ids)
  have i: "map_of results i = None" "i < 2 ^ 32" "f i \<in> guests"
    using Cons.prems(2) by (simp_all add: not_in_keys_iff)
  have "\<forall>x \<in> set ids. x < 2 ^ 32 \<and> f x \<in> guests \<and> x \<notin> keys (put i (f i) results)"
    using Cons.prems by auto
  then obtain m where "add_mem_nodes guests (map (\<lambda>x. \<lparr>mn_CellID = f x, mn_NodeSet = itoa (int x)\<rparr>) ids)
      (put i (f i) results, {}, ws) = (m, {}, ws)"
    "\<forall>x. map_of m x = (if x \<in> set ids then Some (f x) else map_of (put i (f i) results) x)"
    using Cons.IH [of "put i (f i) results"] Cons.prems(1) by auto
  then show ?case
    using i by (intro exI [of _ m]) (simp add: nodeset_parses add_host_node_def u32_nat Let_def)
qed simp

lemma numaMapping_shape:
  assumes "numaMapping parse vmi backed realtime pins (Some topology) = Inr (Some d)"
    "involvedCells (cpuToCell topology) pins [] = Inr m"
  shows "map gc_ID (nd_Cells d) =
      map (\<lambda>c. itoa (int (the (map_of (number_cells m topology 0 []) c)))) (involved_ids m topology) \<and>
    nd_MemNodes d = map (\<lambda>c. \<lparr>mn_CellID = the (map_of (number_cells m topology 0 []) c),
        mn_NodeSet = itoa (int c)\<rparr>) (involved_ids m topology) \<and> involved_ids m topology \<noteq> []"
proof -
  have top: "topology \<noteq> []" using assms(1) by (auto simp: numaMapping_def)
  obtain h unit enabled where h: "hugePagesInfo parse vmi backed = Inr (h, unit, enabled)"
    using assms top by (cases "hugePagesInfo parse vmi backed") (auto simp: numaMapping_def Let_def)
  then obtain mem where mem: "QuantityToByte (GetVirtualMemory vmi) = Inr mem"
    using assms top by (cases "QuantityToByte (GetVirtualMemory vmi)")
      (auto simp: numaMapping_def Let_def split: if_splits)
  have "involved_ids m topology \<noteq> []"
    using assms h mem top by (auto simp: numaMapping_def Let_def mul64_def split: if_splits)
  moreover define step where "step = mul64 (length (involved_ids m topology)) h"
  define d0 where "d0 = \<lparr>nd_Cells = [], nd_NodeSet = join_with '','' (map (itoa \<circ> int) (involved_ids m topology)),
     nd_MemNodes = [], nd_HugePages = [], nd_NoSharePages = realtime\<rparr>"
  define l where "l = layout_cells m (number_cells m topology 0 [])
     ((mem - mem mod step div h * h) div length m) h unit topology d0"
  have "d = l\<lparr>nd_Cells := add_pages (mem mod step div h) h (nd_Cells l)\<rparr>"
    using assms h mem top unfolding l_def d0_def step_def
    by (auto simp: numaMapping_def Let_def split: if_splits)
  then have "map gc_ID (nd_Cells d) = map gc_ID (nd_Cells l) \<and> nd_MemNodes d = nd_MemNodes l"
    by (simp add: add_pages_ID)
  ultimately show ?thesis by (simp add: l_def d0_def layout_MemNodes)
qed

lemma map_of_zip_upt:
  "distinct xs \<Longrightarrow> i < length xs \<Longrightarrow> map_of (zip xs [0..<length xs]) (xs ! i) = Some i"
  by (simp add: map_of_zip_nth)

text \<open>
  The domain \<^verbatim>\<open>numaMapping\<close> produces places a device on the guest cell of the host cell it is
  attached to: the \<open>i\<close>-th involved host cell, and no other host node, is read back as guest cell
  \<open>i\<close>, without a warning.
\<close>

theorem memNodes_read_back:
  assumes "numaMapping parse vmi backed realtime pins (Some topology) = Inr (Some d)"
    "distinct (map nc_Id topology)" "\<forall>c \<in> set topology. nc_Id c < 2 ^ 32" "length topology < 2 ^ 32"
    "involvedCells (cpuToCell topology) pins [] = Inr numamap"
  shows "\<exists>m. memNodeHostToGuestNUMAMap (nd_Cells d) (Some (nd_MemNodes d)) = (m, []) \<and>
    (let ids = involved_ids numamap topology
     in (\<forall>i < length ids. map_of m (ids ! i) = Some i) \<and> keys m = set ids)"
proof -
  let ?ids = "involved_ids numamap topology"
  let ?h = "number_cells numamap topology 0 []"
  have dist: "distinct ?ids" using assms(2) by (simp add: involved_ids_def distinct_map_filter)
  have small: "x < 2 ^ 32" if "x \<in> set ?ids" for x using that assms(3) by (auto simp: involved_ids_def)
  have len: "length ?ids \<le> length topology" by (simp add: involved_ids_def)
  have h: "map_of ?h (?ids ! i) = Some i" if "i < length ?ids" for i
    using number_cells_spec [OF assms(2), of "[]" numamap 0 "?ids ! i"] map_of_zip_upt [OF dist that]
    by simp
  note shape = numaMapping_shape [OF assms(1,5)]
  have gs: "map (\<lambda>c. the (map_of ?h c)) ?ids = [0..<length ?ids]"
    by (rule nth_equalityI) (simp_all add: h)
  have "map gc_ID (nd_Cells d) = map (itoa \<circ> int) (map (\<lambda>c. the (map_of ?h c)) ?ids)"
    using shape by simp
  then have "map gc_ID (nd_Cells d) = map (itoa \<circ> int) [0..<length ?ids]" unfolding gs .
  then have g: "guest_ids (nd_Cells d) {} [] = ({0..<length ?ids}, [])"
    using guest_ids_printed [of "nd_Cells d" "[0..<length ?ids]" "{}" "[]"] len assms(4) by simp
  have "\<forall>x \<in> set ?ids. x < 2 ^ 32 \<and> the (map_of ?h x) \<in> {0..<length ?ids} \<and> x \<notin> keys ([] :: (nat, nat) gomap)"
    using small h by (auto simp: in_set_conv_nth)
  from add_mem_nodes_printed [OF dist this, of "[]"] obtain m where
    m: "add_mem_nodes {0..<length ?ids} (nd_MemNodes d) ([], {}, []) = (m, {}, [])"
    "\<forall>x. map_of m x = (if x \<in> set ?ids then Some (the (map_of ?h x)) else None)"
    using shape by auto
  have "memNodeHostToGuestNUMAMap (nd_Cells d) (Some (nd_MemNodes d)) = (m, [])"
    using g m(1) shape by (auto simp: memNodeHostToGuestNUMAMap_def)
  moreover have "\<forall>i < length ?ids. map_of m (?ids ! i) = Some i" using m(2) h by simp
  moreover have "keys m = set ?ids"
  proof (rule set_eqI)
    fix x show "x \<in> keys m \<longleftrightarrow> x \<in> set ?ids" using m(2) by (simp add: in_keys_iff)
  qed
  ultimately show ?thesis by (auto simp: Let_def)
qed

theorem memNodes_read_back_witness:
  "\<exists>d m. numaMapping two_Ki three_pages True False (pins_of [0, 1]) (Some two_cells) = Inr (Some d) \<and>
     memNodeHostToGuestNUMAMap (nd_Cells d) (Some (nd_MemNodes d)) = (m, []) \<and>
     map_of m 1 = Some 1 \<and> keys m = {0, 1}"
proof -
  obtain d where d: "numaMapping two_Ki three_pages True False (pins_of [0, 1]) (Some two_cells) = Inr (Some d)"
    using numaMapping_two by blast
  have "distinct (map nc_Id two_cells)" "\<forall>c \<in> set two_cells. nc_Id c < 2 ^ 32" "length two_cells < 2 ^ 32"
    by (simp_all add: two_cells_def)
  from memNodes_read_back [OF d this involved_two] obtain m where
    m: "memNodeHostToGuestNUMAMap (nd_Cells d) (Some (nd_MemNodes d)) = (m, [])"
    "\<forall>i < length (involved_ids [(0, [0]), (1, [1])] two_cells).
       map_of m (involved_ids [(0, [0]), (1, [1])] two_cells ! i) = Some i"
    "keys m = set (involved_ids [(0, [0]), (1, [1])] two_cells)"
    by (auto simp: Let_def)
  have "map_of m 1 = Some 1" using m(2) [rule_format, of 1] by (simp add: involved_ids_two [simplified])
  moreover have "keys m = {0, 1}" using m(3) by (simp add: involved_ids_two [simplified])
  ultimately show ?thesis using d m(1) by blast
qed

end
