(* ===== verification/Tracker.thy ===== *)
theory Tracker
  imports GoPrelude "HOL-Library.Char_ord" "HOL-Library.List_Lexorder"
begin

text \<open>
  The dependency tracker of composite resources,
  \<^verbatim>\<open>internal/controller/apiextensions/composite/dependency/tracker.go\<close>: which composite
  resources (XRs) depend on which objects, kept so that a change to an object is mapped back to
  the XRs to reconcile. A write under the lock is one step. The label selectors follow
  \<^verbatim>\<open>k8s.io/apimachinery/pkg/labels\<close> of the vendored tree.
\<close>

section \<open>Label selectors\<close>

type_synonym labels = "(string, string) gomap"

record label_requirement =
  lr_key :: string
  lr_values :: "string list"

type_synonym selector = "label_requirement list"

text \<open>Only the operator \<^verbatim>\<open>selection.Equals\<close> occurs in a selector made from a set of labels.\<close>

definition SelectorFromSet :: "labels \<Rightarrow> selector" where
  "SelectorFromSet ls =
     sort_key lr_key (map (\<lambda>(k, v). \<lparr>lr_key = k, lr_values = [v]\<rparr>) ls)"

definition requirement_Matches :: "label_requirement \<Rightarrow> labels \<Rightarrow> bool" where
  "requirement_Matches r ls =
     (case map_of ls (lr_key r) of None \<Rightarrow> False | Some v \<Rightarrow> v \<in> set (lr_values r))"

fun selector_Matches :: "selector \<Rightarrow> labels \<Rightarrow> bool" where
  "selector_Matches [] ls = True"
| "selector_Matches (r # rs) ls =
     (if requirement_Matches r ls then selector_Matches rs ls else False)"

section \<open>State\<close>

type_synonym object_key = "string \<times> string"

record gvk =
  gvk_Group :: string
  gvk_Version :: string
  gvk_Kind :: string

record Reference =
  ref_GVK :: gvk
  ref_Namespace :: string
  ref_Name :: string
  ref_Labels :: labels

record Requirement =
  req_Step :: string
  req_Name :: string
  req_Reference :: Reference

record nameRef =
  nr_gvk :: gvk
  nr_namespace :: string
  nr_name :: string

record labelScope =
  ls_gvk :: gvk
  ls_namespace :: string

record tracker =
  composed :: "(object_key, Reference list) gomap"
  required :: "(object_key, Requirement list) gomap"
  byName :: "(nameRef, (object_key, bool) gomap) gomap"
  byLabel :: "(labelScope, (object_key, selector list) gomap) gomap"
  gvks :: "(gvk, int) gomap"

definition NewInMemory :: tracker where
  "NewInMemory = \<lparr>composed = [], required = [], byName = [], byLabel = [], gvks = []\<rparr>"

text \<open>Reading a Go map: the zero value where the key is missing.\<close>

definition read :: "'v \<Rightarrow> ('k, 'v) gomap \<Rightarrow> 'k \<Rightarrow> 'v" where
  "read z m k = (case map_of m k of None \<Rightarrow> z | Some v \<Rightarrow> v)"

section \<open>Indexing one reference\<close>

definition name_of :: "Reference \<Rightarrow> nameRef" where
  "name_of r = \<lparr>nr_gvk = ref_GVK r, nr_namespace = ref_Namespace r, nr_name = ref_Name r\<rparr>"

definition scope_of :: "Reference \<Rightarrow> labelScope" where
  "scope_of r = \<lparr>ls_gvk = ref_GVK r, ls_namespace = ref_Namespace r\<rparr>"

definition add :: "object_key \<Rightarrow> Reference \<Rightarrow> selector \<Rightarrow> tracker \<Rightarrow> tracker" where
  "add xr r sel t =
     (let t = t\<lparr>gvks := put (ref_GVK r) (read 0 (gvks t) (ref_GVK r) + 1) (gvks t)\<rparr> in
      if ref_Name r \<noteq> [] then
        let k = name_of r; m = read [] (byName t) k
        in t\<lparr>byName := put k (put xr True m) (byName t)\<rparr>
      else
        let s = scope_of r; m = read [] (byLabel t) s
        in t\<lparr>byLabel := put s (put xr (read [] m xr @ [sel]) m) (byLabel t)\<rparr>)"

definition drop_gvk :: "gvk \<Rightarrow> (gvk, int) gomap \<Rightarrow> (gvk, int) gomap" where
  "drop_gvk g m =
     (let m' = put g (read 0 m g - 1) m
      in if read 0 m' g \<le> 0 then del g m' else m')"

text \<open>Deleting a key of an inner map, and the inner map itself when it is empty.\<close>

definition drop_inner ::
  "'k \<Rightarrow> object_key \<Rightarrow> ('k, (object_key, 'v) gomap) gomap \<Rightarrow> ('k, (object_key, 'v) gomap) gomap"
where
  "drop_inner k xr m =
     (case map_of m k of
        None \<Rightarrow> m
      | Some inner \<Rightarrow>
          if del xr inner = [] then del k m else put k (del xr inner) m)"

definition remove :: "object_key \<Rightarrow> Reference \<Rightarrow> tracker \<Rightarrow> tracker" where
  "remove xr r t =
     (let t = t\<lparr>gvks := drop_gvk (ref_GVK r) (gvks t)\<rparr> in
      if ref_Name r \<noteq> [] then t\<lparr>byName := drop_inner (name_of r) xr (byName t)\<rparr>
      else t\<lparr>byLabel := drop_inner (scope_of r) xr (byLabel t)\<rparr>)"

section \<open>Operations\<close>

definition forget :: "object_key \<Rightarrow> tracker \<Rightarrow> tracker" where
  "forget xr t =
     (let t1 = fold (remove xr) (read [] (composed t) xr) t;
          t2 = fold (\<lambda>q. remove xr (req_Reference q)) (read [] (required t1) xr) t1
      in t2\<lparr>composed := del xr (composed t2), required := del xr (required t2)\<rparr>)"

definition compile :: "Reference \<Rightarrow> selector" where
  "compile r = (if ref_Name r = [] then SelectorFromSet (ref_Labels r) else [])"

definition Track ::
  "object_key \<Rightarrow> Reference list \<Rightarrow> Requirement list \<Rightarrow> tracker \<Rightarrow> tracker" where
  "Track xr cs qs t =
     (let csel = map compile cs;
          rsel = map (\<lambda>q. compile (req_Reference q)) qs;
          t = forget xr t;
          t = fold (\<lambda>(r, s). add xr r s) (zip cs csel) t;
          t = fold (\<lambda>(q, s). add xr (req_Reference q) s) (zip qs rsel) t
      in t\<lparr>composed := put xr cs (composed t), required := put xr qs (required t)\<rparr>)"

definition Forget :: "object_key \<Rightarrow> tracker \<Rightarrow> tracker" where
  "Forget xr t = forget xr t"

definition Requirements :: "tracker \<Rightarrow> object_key \<Rightarrow> string \<Rightarrow> Requirement list" where
  "Requirements t xr step = filter (\<lambda>r. req_Step r = step) (read [] (required t) xr)"

definition GVKs :: "tracker \<Rightarrow> gvk list" where
  "GVKs t = map fst (gvks t)"

record object =
  obj_GVK :: gvk
  obj_Namespace :: string
  obj_Name :: string
  obj_Labels :: labels

definition mark_named :: "tracker \<Rightarrow> object \<Rightarrow> (object_key, bool) gomap" where
  "mark_named t ob =
     fold (\<lambda>(xr, _). put xr True)
       (read [] (byName t)
          \<lparr>nr_gvk = obj_GVK ob, nr_namespace = obj_Namespace ob, nr_name = obj_Name ob\<rparr>) []"

definition mark_labelled ::
  "labels \<Rightarrow> object_key \<times> selector list \<Rightarrow> (object_key, bool) gomap \<Rightarrow> (object_key, bool) gomap"
where
  "mark_labelled lbls e dependant =
     (if read False dependant (fst e) then dependant
      else if list_ex (\<lambda>s. selector_Matches s lbls) (snd e) then put (fst e) True dependant
      else dependant)"

definition scopes :: "object \<Rightarrow> labelScope list" where
  "scopes ob =
     \<lparr>ls_gvk = obj_GVK ob, ls_namespace = obj_Namespace ob\<rparr> #
     (if obj_Namespace ob \<noteq> [] then [\<lparr>ls_gvk = obj_GVK ob, ls_namespace = []\<rparr>] else [])"

definition Dependants :: "tracker \<Rightarrow> object \<Rightarrow> object_key list" where
  "Dependants t ob =
     map fst
       (fold (\<lambda>s. fold (mark_labelled (obj_Labels ob)) (read [] (byLabel t) s)) (scopes ob)
          (mark_named t ob))"

section \<open>The tracker that does nothing\<close>

definition nop_Track :: "object_key \<Rightarrow> Reference list \<Rightarrow> Requirement list \<Rightarrow> unit \<Rightarrow> unit" where
  "nop_Track xr cs qs t = t"

definition nop_Forget :: "object_key \<Rightarrow> unit \<Rightarrow> unit" where
  "nop_Forget xr t = t"

definition nop_Requirements :: "unit \<Rightarrow> object_key \<Rightarrow> string \<Rightarrow> Requirement list" where
  "nop_Requirements t xr step = []"

definition nop_Dependants :: "unit \<Rightarrow> object \<Rightarrow> object_key list" where
  "nop_Dependants t ob = []"

definition nop_GVKs :: "unit \<Rightarrow> gvk list" where
  "nop_GVKs t = []"

section \<open>The registry of trackers\<close>

text \<open>
  \<^verbatim>\<open>Trackers\<close> hands out pointers: a caller's writes to the tracker it got are seen by the next
  \<^verbatim>\<open>Get\<close> of the same controller. \<open>registry_update\<close> is such a write.
\<close>

record 't registry =
  newTracker :: 't
  trackers :: "(string, 't) gomap"

definition NewTrackers :: "'t \<Rightarrow> 't registry" where
  "NewTrackers fn = \<lparr>newTracker = fn, trackers = []\<rparr>"

definition registry_Get :: "'t registry \<Rightarrow> string \<Rightarrow> 't \<times> 't registry" where
  "registry_Get r c =
     (case map_of (trackers r) c of
        Some t \<Rightarrow> (t, r)
      | None \<Rightarrow> (newTracker r, r\<lparr>trackers := put c (newTracker r) (trackers r)\<rparr>))"

definition registry_update :: "('t \<Rightarrow> 't) \<Rightarrow> 't registry \<Rightarrow> string \<Rightarrow> 't registry" where
  "registry_update f r c =
     (let (t, r) = registry_Get r c in r\<lparr>trackers := put c (f t) (trackers r)\<rparr>)"

definition registry_Delete :: "'t registry \<Rightarrow> string \<Rightarrow> 't registry" where
  "registry_Delete r c = r\<lparr>trackers := del c (trackers r)\<rparr>"

end
