(* ===== verification/TrackerCorrect.thy ===== *)
theory TrackerCorrect
  imports Tracker
begin

text \<open>
  Correctness of the dependency tracker. The interface \<^verbatim>\<open>Tracker\<close> is a locale: a simulation of
  the abstract view (for each XR, the references of its last \<^verbatim>\<open>Track\<close>). The in-memory tracker
  answers exactly what the view says after every history; the tracker that does nothing never
  says more than it.
\<close>

section \<open>What a tracker promises\<close>

type_synonym view = "object_key \<Rightarrow> Reference list \<times> Requirement list"

datatype tracker_op = OpTrack object_key "Reference list" "Requirement list" | OpForget object_key

definition run_ops ::
  "(object_key \<Rightarrow> Reference list \<Rightarrow> Requirement list \<Rightarrow> 't \<Rightarrow> 't) \<Rightarrow> (object_key \<Rightarrow> 't \<Rightarrow> 't) \<Rightarrow>
     tracker_op list \<Rightarrow> 't \<Rightarrow> 't" where
  "run_ops track fgt ops t =
     fold (\<lambda>oper. case oper of OpTrack xr cs qs \<Rightarrow> track xr cs qs | OpForget xr \<Rightarrow> fgt xr) ops t"

lemma run_ops_simps [simp]:
  "run_ops track fgt [] t = t"
  "run_ops track fgt (OpTrack xr cs qs # ops) t = run_ops track fgt ops (track xr cs qs t)"
  "run_ops track fgt (OpForget xr # ops) t = run_ops track fgt ops (fgt xr t)"
  by (simp_all add: run_ops_def)

definition spec_run :: "tracker_op list \<Rightarrow> view" where
  "spec_run ops =
     run_ops (\<lambda>xr cs qs V. V(xr := (cs, qs))) (\<lambda>xr V. V(xr := ([], []))) ops (\<lambda>_. ([], []))"

definition refs :: "view \<Rightarrow> object_key \<Rightarrow> Reference list" where
  "refs V xr = fst (V xr) @ map req_Reference (snd (V xr))"

definition matches :: "Reference \<Rightarrow> object \<Rightarrow> bool" where
  "matches r ob \<longleftrightarrow>
     ref_GVK r = obj_GVK ob \<and>
     (if ref_Name r \<noteq> [] then ref_Namespace r = obj_Namespace ob \<and> ref_Name r = obj_Name ob
      else (ref_Namespace r = obj_Namespace ob \<or> ref_Namespace r = []) \<and>
           (\<forall>(k, v) \<in> set (ref_Labels r). map_of (obj_Labels ob) k = Some v))"

definition depending :: "view \<Rightarrow> object \<Rightarrow> object_key set" where
  "depending V ob = {xr. \<exists>r \<in> set (refs V xr). matches r ob}"

definition watched_kinds :: "view \<Rightarrow> gvk set" where
  "watched_kinds V = {g. \<exists>xr. \<exists>r \<in> set (refs V xr). ref_GVK r = g}"

locale tracker_interface =
  fixes init :: 't
    and track :: "object_key \<Rightarrow> Reference list \<Rightarrow> Requirement list \<Rightarrow> 't \<Rightarrow> 't"
    and fgt :: "object_key \<Rightarrow> 't \<Rightarrow> 't"
    and requirements :: "'t \<Rightarrow> object_key \<Rightarrow> string \<Rightarrow> Requirement list"
    and dependants :: "'t \<Rightarrow> object \<Rightarrow> object_key list"
    and kinds :: "'t \<Rightarrow> gvk list"
    and sim :: "'t \<Rightarrow> view \<Rightarrow> bool"
  assumes sim_init: "sim init (\<lambda>_. ([], []))"
    and sim_track: "sim t V \<Longrightarrow> sim (track xr cs qs t) (V(xr := (cs, qs)))"
    and sim_forget: "sim t V \<Longrightarrow> sim (fgt xr t) (V(xr := ([], [])))"
    and dependants_sound: "sim t V \<Longrightarrow> set (dependants t ob) \<subseteq> depending V ob"
    and dependants_distinct: "sim t V \<Longrightarrow> distinct (dependants t ob)"
    and kinds_sound: "sim t V \<Longrightarrow> set (kinds t) \<subseteq> watched_kinds V"
    and kinds_distinct: "sim t V \<Longrightarrow> distinct (kinds t)"
begin

lemma sim_run_ops:
  "sim t V \<Longrightarrow>
   sim (run_ops track fgt ops t)
     (run_ops (\<lambda>xr cs qs V. V(xr := (cs, qs))) (\<lambda>xr V. V(xr := ([], []))) ops V)"
proof (induction ops arbitrary: t V)
  case (Cons oper ops)
  show ?case
  proof (cases oper)
    case (OpTrack xr cs qs)
    show ?thesis
      unfolding OpTrack run_ops_simps by (rule Cons.IH [OF sim_track [OF Cons.prems]])
  next
    case (OpForget xr)
    show ?thesis
      unfolding OpForget run_ops_simps by (rule Cons.IH [OF sim_forget [OF Cons.prems]])
  qed
qed simp

lemma sim_run: "sim (run_ops track fgt ops init) (spec_run ops)"
  unfolding spec_run_def by (rule sim_run_ops [OF sim_init])

lemma never_spurious:
  "set (dependants (run_ops track fgt ops init) ob) \<subseteq> depending (spec_run ops) ob"
  by (rule dependants_sound [OF sim_run])

end

locale exact_tracker = tracker_interface +
  assumes dependants_complete: "sim t V \<Longrightarrow> depending V ob \<subseteq> set (dependants t ob)"
    and kinds_complete: "sim t V \<Longrightarrow> watched_kinds V \<subseteq> set (kinds t)"
    and requirements_view:
      "sim t V \<Longrightarrow> requirements t xr step = filter (\<lambda>q. req_Step q = step) (snd (V xr))"
begin

lemma dependants_exact:
  "set (dependants (run_ops track fgt ops init) ob) = depending (spec_run ops) ob \<and>
   distinct (dependants (run_ops track fgt ops init) ob)"
  using dependants_sound [OF sim_run] dependants_complete [OF sim_run]
    dependants_distinct [OF sim_run] by (simp add: subset_antisym)

lemma kinds_exact:
  "set (kinds (run_ops track fgt ops init)) = watched_kinds (spec_run ops) \<and>
   distinct (kinds (run_ops track fgt ops init))"
  using kinds_sound [OF sim_run] kinds_complete [OF sim_run]
    kinds_distinct [OF sim_run] by (simp add: subset_antisym)

lemma requirements_exact:
  "requirements (run_ops track fgt ops init) xr step =
   filter (\<lambda>q. req_Step q = step) (snd (spec_run ops xr))"
  by (rule requirements_view [OF sim_run])

end

section \<open>Reading the indices\<close>

lemma read_put [simp, go_map_simps]: "read z (put k v m) k' = (if k = k' then v else read z m k')"
  by (simp add: read_def)

lemma read_del [simp, go_map_simps]: "read z (del k m) k' = (if k = k' then z else read z m k')"
  by (simp add: read_def)

lemma read_Nil [simp]: "read z [] k = z"
  by (simp add: read_def)

definition named :: "tracker \<Rightarrow> nameRef \<Rightarrow> object_key set" where
  "named t k = keys (read [] (byName t) k)"

definition labelled :: "tracker \<Rightarrow> labelScope \<Rightarrow> object_key \<Rightarrow> selector list" where
  "labelled t s xr = read [] (read [] (byLabel t) s) xr"

definition occ :: "gvk \<Rightarrow> Reference list \<Rightarrow> nat" where
  "occ g rs = length (filter (\<lambda>r. ref_GVK r = g) rs)"

lemma occ_simps [simp]:
  "occ g [] = 0" "occ g (r # rs) = (if ref_GVK r = g then 1 else 0) + occ g rs"
  "occ g (rs @ rs') = occ g rs + occ g rs'"
  by (simp_all add: occ_def)

lemma occ_pos: "0 < occ g rs \<longleftrightarrow> (\<exists>r \<in> set rs. ref_GVK r = g)"
  by (induction rs) auto

definition gvks_ok :: "tracker \<Rightarrow> bool" where
  "gvks_ok t \<longleftrightarrow> distinct (map fst (gvks t)) \<and> (\<forall>g \<in> keys (gvks t). 0 < read 0 (gvks t) g)"

lemma gvks_ok_keys: "gvks_ok t \<Longrightarrow> g \<in> keys (gvks t) \<longleftrightarrow> 0 < read 0 (gvks t) g"
  by (auto simp: gvks_ok_def in_keys_iff read_def split: option.splits)

lemma gvks_ok_nonneg: "gvks_ok t \<Longrightarrow> 0 \<le> read 0 (gvks t) g"
  by (cases "g \<in> keys (gvks t)") (auto simp: gvks_ok_def not_in_keys_iff read_def less_imp_le)

definition buckets_ok :: "tracker \<Rightarrow> bool" where
  "buckets_ok t \<longleftrightarrow> (\<forall>s. distinct (map fst (read [] (byLabel t) s)))"

subsection \<open>Adding\<close>

lemma gvks_add [simp]:
  "gvks (add xr r s t) = put (ref_GVK r) (read 0 (gvks t) (ref_GVK r) + 1) (gvks t)"
  by (simp add: add_def Let_def)

lemma gvks_ok_add: "gvks_ok t \<Longrightarrow> gvks_ok (add xr r s t)"
  using gvks_ok_nonneg [of t "ref_GVK r"] by (auto simp: gvks_ok_def)

lemma named_add:
  "named (add xr r s t) k =
   (if ref_Name r \<noteq> [] \<and> k = name_of r then insert xr (named t k) else named t k)"
  by (auto simp: add_def named_def Let_def)

lemma labelled_add:
  "labelled (add xr r s t) sc x =
   (if ref_Name r = [] \<and> sc = scope_of r \<and> x = xr then labelled t sc x @ [s] else labelled t sc x)"
  by (auto simp: add_def labelled_def Let_def)

lemma buckets_ok_add: "buckets_ok t \<Longrightarrow> buckets_ok (add xr r s t)"
  by (simp add: buckets_ok_def add_def Let_def)

lemma add_tables [simp]:
  "composed (add xr r s t) = composed t" "required (add xr r s t) = required t"
  by (simp_all add: add_def Let_def)

subsection \<open>Removing\<close>

lemma read_drop_inner:
  "read [] (drop_inner k xr m) k' = (if k' = k then del xr (read [] m k) else read [] m k')"
  by (cases "map_of m k") (simp_all add: drop_inner_def, simp_all add: read_def)

lemma read_drop_gvk:
  "0 < read 0 m g \<Longrightarrow> read 0 (drop_gvk g m) g' = (if g' = g then read 0 m g - 1 else read 0 m g')"
  by (auto simp: drop_gvk_def Let_def)

lemma keys_drop_gvk: "keys (drop_gvk g m) \<subseteq> insert g (keys m)"
  by (auto simp: drop_gvk_def Let_def)

lemma gvks_remove [simp]: "gvks (remove xr r t) = drop_gvk (ref_GVK r) (gvks t)"
  by (simp add: remove_def Let_def)

lemma gvks_ok_remove: "gvks_ok t \<Longrightarrow> gvks_ok (remove xr r t)"
  by (auto simp: gvks_ok_def drop_gvk_def Let_def)

lemma named_remove:
  "named (remove xr r t) k =
   (if ref_Name r \<noteq> [] \<and> k = name_of r then named t k - {xr} else named t k)"
  by (auto simp: remove_def named_def Let_def read_drop_inner)

lemma labelled_remove:
  "labelled (remove xr r t) sc x =
   (if ref_Name r = [] \<and> sc = scope_of r \<and> x = xr then [] else labelled t sc x)"
  by (auto simp: remove_def labelled_def Let_def read_drop_inner)

lemma remove_tables [simp]:
  "composed (remove xr r t) = composed t" "required (remove xr r t) = required t"
  by (simp_all add: remove_def Let_def)

lemma fold_remove_tables [simp]:
  "composed (fold (remove xr) rs t) = composed t" "required (fold (remove xr) rs t) = required t"
  by (induction rs arbitrary: t) simp_all

lemma fold_remove_gvks:
  "gvks_ok t \<Longrightarrow> (\<And>g. int (occ g rs) \<le> read 0 (gvks t) g) \<Longrightarrow>
   gvks_ok (fold (remove xr) rs t) \<and>
   read 0 (gvks (fold (remove xr) rs t)) g = read 0 (gvks t) g - int (occ g rs)"
proof (induction rs arbitrary: t)
  case (Cons r rs)
  have pos: "0 < read 0 (gvks t) (ref_GVK r)"
    using Cons.prems(2) [of "ref_GVK r"] by simp
  have "int (occ g' rs) \<le> read 0 (gvks (remove xr r t)) g'" for g'
    using Cons.prems(2) [of g'] pos by (auto simp: read_drop_gvk)
  with Cons.IH [OF gvks_ok_remove [OF Cons.prems(1), of xr r]] show ?case
    using pos by (simp add: read_drop_gvk)
qed simp

lemma buckets_ok_remove: "buckets_ok t \<Longrightarrow> buckets_ok (fold (remove xr) rs t)"
  by (induction rs arbitrary: t)
    (simp_all add: buckets_ok_def remove_def Let_def read_drop_inner)

lemma fold_remove_named:
  "named (fold (remove xr) rs t) k =
   named t k - (if \<exists>r \<in> set rs. ref_Name r \<noteq> [] \<and> name_of r = k then {xr} else {})"
  by (induction rs arbitrary: t) (auto simp: named_remove)

lemma fold_remove_labelled:
  "labelled (fold (remove xr) rs t) sc x =
   (if x = xr \<and> (\<exists>r \<in> set rs. ref_Name r = [] \<and> scope_of r = sc) then [] else labelled t sc x)"
  by (induction rs arbitrary: t) (auto simp: labelled_remove)

section \<open>The indices agree with the references\<close>

definition indexed :: "tracker \<Rightarrow> object_key set \<Rightarrow> (object_key \<Rightarrow> Reference list) \<Rightarrow> bool" where
  "indexed t S R \<longleftrightarrow>
     finite S \<and> (\<forall>x. x \<notin> S \<longrightarrow> R x = []) \<and> gvks_ok t \<and> buckets_ok t \<and>
     (\<forall>g. read 0 (gvks t) g = int (\<Sum>x \<in> S. occ g (R x))) \<and>
     (\<forall>k. named t k = {x. \<exists>r \<in> set (R x). ref_Name r \<noteq> [] \<and> name_of r = k}) \<and>
     (\<forall>s x. labelled t s x =
        map compile (filter (\<lambda>r. ref_Name r = [] \<and> scope_of r = s) (R x)))"

lemma indexedD:
  assumes "indexed t S R"
  shows "finite S" "gvks_ok t" "\<And>x. x \<notin> S \<Longrightarrow> R x = []"
    "\<And>g. read 0 (gvks t) g = int (\<Sum>x \<in> S. occ g (R x))"
    "\<And>k. named t k = {x. \<exists>r \<in> set (R x). ref_Name r \<noteq> [] \<and> name_of r = k}"
    "\<And>s x. labelled t s x =
       map compile (filter (\<lambda>r. ref_Name r = [] \<and> scope_of r = s) (R x))"
    "buckets_ok t"
  using assms unfolding indexed_def by blast+

lemma sum_occ_upd:
  fixes S :: "object_key set"
  assumes "finite S" "xr \<in> S"
  shows "(\<Sum>x \<in> S. occ g ((R(xr := rs)) x)) + occ g (R xr) = (\<Sum>x \<in> S. occ g (R x)) + occ g rs"
proof -
  have "(\<Sum>x \<in> S - {xr}. occ g ((R(xr := rs)) x)) = (\<Sum>x \<in> S - {xr}. occ g (R x))"
    by (rule sum.cong) auto
  with assms show ?thesis
    by (simp add: sum.remove [where x = xr])
qed

lemma indexed_bigger:
  assumes "indexed t S R"
  shows "indexed t (insert xr S) R"
proof -
  have "(\<Sum>x \<in> insert xr S. occ g (R x)) = (\<Sum>x \<in> S. occ g (R x))" for g
    using indexedD(1,3) [OF assms] by (cases "xr \<in> S") (simp_all add: insert_absorb)
  with assms show ?thesis
    unfolding indexed_def by (metis finite_insert insertCI)
qed

lemma indexed_add:
  assumes "indexed t S R" "xr \<in> S"
  shows "indexed (add xr r (compile r) t) S (R(xr := R xr @ [r]))"
proof -
  note fin = indexedD(1) [OF assms(1)] and ok = indexedD(2) [OF assms(1)]
    and out = indexedD(3) [OF assms(1)] and cnt = indexedD(4) [OF assms(1)]
    and nam = indexedD(5) [OF assms(1)] and lab = indexedD(6) [OF assms(1)]
    and bok = indexedD(7) [OF assms(1)]
  have "read 0 (gvks (add xr r (compile r) t)) g =
      int (\<Sum>x \<in> S. occ g ((R(xr := R xr @ [r])) x))" for g
    using sum_occ_upd [OF fin assms(2), of g R "R xr @ [r]"] cnt by auto
  moreover have "named (add xr r (compile r) t) k =
      {x. \<exists>q \<in> set ((R(xr := R xr @ [r])) x). ref_Name q \<noteq> [] \<and> name_of q = k}" for k
    by (auto simp: named_add nam)
  moreover have "labelled (add xr r (compile r) t) s x =
      map compile (filter (\<lambda>q. ref_Name q = [] \<and> scope_of q = s) ((R(xr := R xr @ [r])) x))"
    for s x
    by (auto simp: labelled_add lab)
  ultimately show ?thesis
    using fin out assms(2) gvks_ok_add [OF ok] buckets_ok_add [OF bok] unfolding indexed_def by auto
qed

lemma indexed_fold_add:
  "indexed t S R \<Longrightarrow> xr \<in> S \<Longrightarrow>
   indexed (fold (\<lambda>r. add xr r (compile r)) rs t) S (R(xr := R xr @ rs))"
proof (induction rs arbitrary: t R)
  case (Cons r rs)
  from Cons.IH [OF indexed_add [OF Cons.prems, of r] Cons.prems(2)] show ?case
    by (simp add: fun_upd_def cong: if_cong)
qed simp

lemma indexed_forget:
  assumes "indexed t S R" "xr \<in> S"
  shows "indexed (fold (remove xr) (R xr) t) S (R(xr := []))"
proof -
  note fin = indexedD(1) [OF assms(1)] and ok = indexedD(2) [OF assms(1)]
    and out = indexedD(3) [OF assms(1)] and cnt = indexedD(4) [OF assms(1)]
    and nam = indexedD(5) [OF assms(1)] and lab = indexedD(6) [OF assms(1)]
    and bok = indexedD(7) [OF assms(1)]
  have le: "int (occ g (R xr)) \<le> read 0 (gvks t) g" for g
    using sum_occ_upd [OF fin assms(2), of g R "[]"] unfolding cnt of_nat_le_iff by simp
  note G = fold_remove_gvks [where rs = "R xr" and xr = xr, OF ok le]
  have "read 0 (gvks (fold (remove xr) (R xr) t)) g =
      int (\<Sum>x \<in> S. occ g ((R(xr := [])) x))" for g
    using G [of g] sum_occ_upd [OF fin assms(2), of g R "[]"] unfolding cnt occ_simps by linarith
  moreover have "named (fold (remove xr) (R xr) t) k =
      {x. \<exists>q \<in> set ((R(xr := [])) x). ref_Name q \<noteq> [] \<and> name_of q = k}" for k
    by (auto simp: fold_remove_named nam)
  moreover have "labelled (fold (remove xr) (R xr) t) s x =
      map compile (filter (\<lambda>q. ref_Name q = [] \<and> scope_of q = s) ((R(xr := [])) x))" for s x
    by (auto simp: fold_remove_labelled lab filter_empty_conv)
  ultimately show ?thesis
    using fin out G buckets_ok_remove [OF bok] unfolding indexed_def by auto
qed

section \<open>The in-memory tracker\<close>

definition sim :: "tracker \<Rightarrow> view \<Rightarrow> bool" where
  "sim t V \<longleftrightarrow> (\<exists>S. indexed t S (refs V)) \<and>
     (\<forall>x. read [] (composed t) x = fst (V x) \<and> read [] (required t) x = snd (V x))"

lemma simD:
  "sim t V \<Longrightarrow> read [] (composed t) x = fst (V x)"
  "sim t V \<Longrightarrow> read [] (required t) x = snd (V x)"
  unfolding sim_def by blast+

lemma refs_upd: "refs (V(xr := (cs, qs))) = (refs V)(xr := cs @ map req_Reference qs)"
  by (rule ext) (simp add: refs_def)

lemma sim_NewInMemory: "sim NewInMemory (\<lambda>_. ([], []))"
proof -
  have "indexed NewInMemory {} (refs (\<lambda>_. ([], [])))"
    by (simp add: indexed_def gvks_ok_def buckets_ok_def NewInMemory_def refs_def named_def
        labelled_def)
  then show ?thesis
    unfolding sim_def by (auto simp: NewInMemory_def)
qed

lemma fold_remove_requirements:
  "fold (\<lambda>q. remove xr (req_Reference q)) qs t = fold (remove xr) (map req_Reference qs) t"
  by (induction qs arbitrary: t) simp_all

lemma fold_add_pairs:
  "fold (\<lambda>(r, s). add xr r s) (zip cs (map compile cs)) t =
     fold (\<lambda>r. add xr r (compile r)) cs t"
  "fold (\<lambda>(q, s). add xr (req_Reference q) s) (zip qs (map (\<lambda>q. compile (req_Reference q)) qs)) t =
     fold (\<lambda>r. add xr r (compile r)) (map req_Reference qs) t"
  by (induction cs arbitrary: t, simp_all) (induction qs arbitrary: t, simp_all)

lemma fold_add_tables [simp]:
  "composed (fold (\<lambda>r. add xr r (compile r)) rs t) = composed t"
  "required (fold (\<lambda>r. add xr r (compile r)) rs t) = required t"
  by (induction rs arbitrary: t) simp_all

lemma indexed_tables:
  "indexed (t\<lparr>composed := c, required := q\<rparr>) S R \<longleftrightarrow> indexed t S R"
  by (simp add: indexed_def gvks_ok_def buckets_ok_def named_def labelled_def)

lemma indexed_after_forget:
  assumes "sim t V"
  shows "\<exists>S. xr \<in> S \<and> indexed (forget xr t) S ((refs V)(xr := []))"
proof -
  from assms obtain S where S: "indexed t S (refs V)"
    by (auto simp: sim_def)
  have "indexed (fold (remove xr) (refs V xr) t) (insert xr S) ((refs V)(xr := []))"
    by (rule indexed_forget [OF indexed_bigger [OF S]]) simp
  then have "indexed (forget xr t) (insert xr S) ((refs V)(xr := []))"
    by (simp add: forget_def Let_def fold_remove_requirements indexed_tables simD [OF assms] refs_def)
  then show ?thesis
    by blast
qed

lemma forget_tables:
  "composed (forget xr t) = del xr (composed t)" "required (forget xr t) = del xr (required t)"
  by (simp_all add: forget_def Let_def fold_remove_requirements)

lemma sim_Forget: "sim t V \<Longrightarrow> sim (Forget xr t) (V(xr := ([], [])))"
  using indexed_after_forget [of t V xr] unfolding sim_def
  by (auto simp: Forget_def forget_tables refs_upd)

lemma sim_Track:
  assumes "sim t V"
  shows "sim (Track xr cs qs t) (V(xr := (cs, qs)))"
proof -
  from indexed_after_forget [OF assms, of xr] obtain S
    where S: "xr \<in> S" "indexed (forget xr t) S ((refs V)(xr := []))"
    by blast
  from indexed_fold_add [OF indexed_fold_add [OF S(2,1)] S(1), of "map req_Reference qs" cs]
  have "indexed (Track xr cs qs t) S (refs (V(xr := (cs, qs))))"
    unfolding refs_upd
    by (simp add: Track_def Let_def fold_add_pairs indexed_tables del: fold_map)
  then show ?thesis
    using assms unfolding sim_def
    by (auto simp: Track_def Let_def fold_add_pairs forget_tables simp del: fold_map)
qed

section \<open>Dependants\<close>

lemma selector_Matches_all:
  "selector_Matches sel ls \<longleftrightarrow> (\<forall>r \<in> set sel. requirement_Matches r ls)"
  by (induction sel) simp_all

lemma selector_Matches_SelectorFromSet:
  "selector_Matches (SelectorFromSet ls) lbls \<longleftrightarrow> (\<forall>(k, v) \<in> set ls. map_of lbls k = Some v)"
  by (auto simp: selector_Matches_all SelectorFromSet_def requirement_Matches_def
      split: option.splits)

definition all_true :: "(object_key, bool) gomap \<Rightarrow> bool" where
  "all_true d \<longleftrightarrow> (\<forall>x \<in> keys d. read False d x) \<and> distinct (map fst d)"

lemma all_true_read: "all_true d \<Longrightarrow> read False d x \<longleftrightarrow> x \<in> keys d"
  by (cases "x \<in> keys d") (auto simp: all_true_def read_def not_in_keys_iff)

lemma all_true_put: "all_true d \<Longrightarrow> all_true (put x True d)"
  by (simp add: all_true_def)

lemma keys_Cons: "keys ((x, v) # m) = insert x (keys m)"
  by (simp add: keys_def)

lemma fold_put_true:
  "all_true d \<Longrightarrow>
   all_true (fold (\<lambda>(x, _). put x True) m d) \<and>
   keys (fold (\<lambda>(x, _). put x True) m d) = keys m \<union> keys d"
proof (induction m arbitrary: d)
  case (Cons e m)
  obtain x v where e: "e = (x, v)" by (rule prod.exhaust)
  show ?case
    using Cons.IH [OF all_true_put [OF Cons.prems, of x]] by (simp add: e keys_Cons)
qed simp

lemma mark_named_spec:
  "all_true (mark_named t ob) \<and>
   keys (mark_named t ob) =
     named t \<lparr>nr_gvk = obj_GVK ob, nr_namespace = obj_Namespace ob, nr_name = obj_Name ob\<rparr>"
  unfolding mark_named_def named_def
  using fold_put_true [of "[]"] by (simp add: all_true_def)

lemma mark_labelled_spec:
  "all_true d \<Longrightarrow>
   all_true (mark_labelled ls e d) \<and>
   keys (mark_labelled ls e d) =
     keys d \<union> (if list_ex (\<lambda>s. selector_Matches s ls) (snd e) then {fst e} else {})"
  by (auto simp: mark_labelled_def all_true_read all_true_put)

lemma fold_mark_labelled:
  "all_true d \<Longrightarrow>
   all_true (fold (mark_labelled ls) m d) \<and>
   keys (fold (mark_labelled ls) m d) =
     keys d \<union> {x. \<exists>e \<in> set m. fst e = x \<and> list_ex (\<lambda>s. selector_Matches s ls) (snd e)}"
proof (induction m arbitrary: d)
  case (Cons e m)
  note E = mark_labelled_spec [OF Cons.prems, of ls e]
  from Cons.IH [OF E [THEN conjunct1]] E [THEN conjunct2] show ?case
    by auto
qed simp

lemma bucket_entries:
  assumes "buckets_ok t"
  shows "(\<exists>e \<in> set (read [] (byLabel t) s). fst e = x \<and> list_ex P (snd e)) \<longleftrightarrow>
     list_ex P (labelled t s x)"
proof -
  let ?m = "read [] (byLabel t) s"
  have "(\<exists>e \<in> set ?m. fst e = x \<and> list_ex P (snd e)) \<longleftrightarrow> (\<exists>v. (x, v) \<in> set ?m \<and> list_ex P v)"
    by force
  also have "\<dots> \<longleftrightarrow> (\<exists>v. map_of ?m x = Some v \<and> list_ex P v)"
    using assms by (simp add: buckets_ok_def)
  also have "\<dots> \<longleftrightarrow> list_ex P (labelled t s x)"
    by (simp add: labelled_def read_def [of "[]" _ x] split: option.splits)
  finally show ?thesis .
qed

lemma fold_scopes:
  assumes "buckets_ok t"
  shows "all_true d \<Longrightarrow>
   all_true (fold (\<lambda>s. fold (mark_labelled ls) (read [] (byLabel t) s)) ss d) \<and>
   keys (fold (\<lambda>s. fold (mark_labelled ls) (read [] (byLabel t) s)) ss d) =
     keys d \<union> {x. \<exists>s \<in> set ss. list_ex (\<lambda>q. selector_Matches q ls) (labelled t s x)}"
proof (induction ss arbitrary: d)
  case (Cons s ss)
  note E = fold_mark_labelled [OF Cons.prems, of ls "read [] (byLabel t) s"]
  from Cons.IH [OF E [THEN conjunct1]] E [THEN conjunct2] show ?case
    unfolding bucket_entries [OF assms] by auto
qed simp

lemma set_Dependants:
  assumes "buckets_ok t"
  shows "distinct (Dependants t ob) \<and>
     set (Dependants t ob) =
       named t \<lparr>nr_gvk = obj_GVK ob, nr_namespace = obj_Namespace ob, nr_name = obj_Name ob\<rparr> \<union>
       {x. \<exists>s \<in> set (scopes ob). list_ex (\<lambda>q. selector_Matches q (obj_Labels ob)) (labelled t s x)}"
proof -
  note M = mark_named_spec [of t ob]
  from fold_scopes [OF assms M [THEN conjunct1], of "obj_Labels ob" "scopes ob"] M
  show ?thesis
    unfolding Dependants_def by (simp add: all_true_def keys_def)
qed

lemma in_scopes:
  "scope_of r \<in> set (scopes ob) \<longleftrightarrow>
     ref_GVK r = obj_GVK ob \<and> (ref_Namespace r = obj_Namespace ob \<or> ref_Namespace r = [])"
  by (auto simp: scopes_def scope_of_def)

lemma matches_named:
  "ref_Name r \<noteq> [] \<Longrightarrow> matches r ob \<longleftrightarrow>
   name_of r = \<lparr>nr_gvk = obj_GVK ob, nr_namespace = obj_Namespace ob, nr_name = obj_Name ob\<rparr>"
  by (simp add: matches_def name_of_def)

lemma matches_labelled:
  "ref_Name r = [] \<Longrightarrow> matches r ob \<longleftrightarrow>
   scope_of r \<in> set (scopes ob) \<and> selector_Matches (compile r) (obj_Labels ob)"
  by (simp add: matches_def in_scopes compile_def selector_Matches_SelectorFromSet)

lemma Dependants_view:
  assumes "sim t V"
  shows "distinct (Dependants t ob) \<and> set (Dependants t ob) = depending V ob"
proof -
  from assms obtain S where S: "indexed t S (refs V)"
    by (auto simp: sim_def)
  note D = set_Dependants [OF indexedD(7) [OF S], of ob]
  have nam: "x \<in> named t \<lparr>nr_gvk = obj_GVK ob, nr_namespace = obj_Namespace ob,
        nr_name = obj_Name ob\<rparr> \<longleftrightarrow> (\<exists>r \<in> set (refs V x). ref_Name r \<noteq> [] \<and> matches r ob)" for x
    unfolding indexedD(5) [OF S] by (auto simp: matches_named)
  have "list_ex (\<lambda>q. selector_Matches q (obj_Labels ob)) (labelled t s x) \<longleftrightarrow>
      (\<exists>r \<in> set (refs V x). ref_Name r = [] \<and> scope_of r = s \<and>
         selector_Matches (compile r) (obj_Labels ob))" for s x
    unfolding indexedD(6) [OF S] by (auto simp: list_ex_iff)
  moreover have "(\<exists>r \<in> set (refs V x). ref_Name r = [] \<and> matches r ob) \<longleftrightarrow>
      (\<exists>r \<in> set (refs V x). ref_Name r = [] \<and> scope_of r \<in> set (scopes ob) \<and>
         selector_Matches (compile r) (obj_Labels ob))" for x
    by (rule bex_cong [OF refl]) (simp add: matches_labelled cong: conj_cong)
  ultimately have lab: "(\<exists>s \<in> set (scopes ob). list_ex (\<lambda>q. selector_Matches q (obj_Labels ob))
        (labelled t s x)) \<longleftrightarrow> (\<exists>r \<in> set (refs V x). ref_Name r = [] \<and> matches r ob)" for x
    by (simp only:) blast
  have "x \<in> set (Dependants t ob) \<longleftrightarrow> x \<in> depending V ob" for x
    unfolding D [THEN conjunct2] Un_iff mem_Collect_eq nam lab depending_def by blast
  then show ?thesis
    using D by blast
qed

lemma GVKs_view:
  assumes "sim t V"
  shows "distinct (GVKs t) \<and> set (GVKs t) = watched_kinds V"
proof -
  from assms obtain S where S: "indexed t S (refs V)"
    by (auto simp: sim_def)
  have "g \<in> set (GVKs t) \<longleftrightarrow> 0 < read 0 (gvks t) g" for g
    using gvks_ok_keys [OF indexedD(2) [OF S], of g] by (simp add: GVKs_def keys_def)
  also have "0 < read 0 (gvks t) g \<longleftrightarrow> (\<exists>x \<in> S. 0 < occ g (refs V x))" for g
    unfolding indexedD(4) [OF S] of_nat_0_less_iff
    by (metis bot_nat_0.not_eq_extremum indexedD(1) [OF S] sum_eq_0_iff)
  also have "(\<exists>x \<in> S. 0 < occ g (refs V x)) \<longleftrightarrow> g \<in> watched_kinds V" for g
    using indexedD(3) [OF S] unfolding occ_pos watched_kinds_def
    by fastforce
  finally have "set (GVKs t) = watched_kinds V"
    by blast
  then show ?thesis
    using indexedD(2) [OF S] by (simp add: GVKs_def gvks_ok_def)
qed

interpretation in_memory:
  exact_tracker NewInMemory Track Forget Requirements Dependants GVKs sim
proof unfold_locales
  show "sim t V \<Longrightarrow> Requirements t xr step = filter (\<lambda>q. req_Step q = step) (snd (V xr))" for t V xr step
    by (simp add: Requirements_def simD)
qed (use sim_NewInMemory sim_Track sim_Forget Dependants_view GVKs_view in blast)+

interpretation nop_tracker:
  tracker_interface "()" nop_Track nop_Forget nop_Requirements nop_Dependants nop_GVKs
    "\<lambda>_ _. True"
  by unfold_locales (simp_all add: nop_Dependants_def nop_GVKs_def)

section \<open>Properties\<close>

text \<open>
  C12: After every history of \<^verbatim>\<open>Track\<close> and \<^verbatim>\<open>Forget\<close> calls, \<^verbatim>\<open>Dependants\<close> returns exactly the XRs one
  of whose last tracked references (composed or required) matches the object, each once: a
  reference by name matches the object of that kind, namespace and name, a reference by label the
  objects of its kind in its namespace (or any, when it is empty) that carry all its labels.
\<close>

theorem Dependants_exact:
  "set (Dependants (run_ops Track Forget ops NewInMemory) ob) =
     {xr. \<exists>r \<in> set (refs (spec_run ops) xr). matches r ob} \<and>
   distinct (Dependants (run_ops Track Forget ops NewInMemory) ob)"
  using in_memory.dependants_exact unfolding depending_def .

text \<open>
  C31: The kinds to watch are exactly those of the references of the XRs still tracked, whatever
  was tracked, replaced and forgotten before, so a watch is neither missing nor leaked; and the
  requirements seeded into a step are those of the last \<^verbatim>\<open>Track\<close> of that XR and step, in order.
\<close>

theorem GVKs_exact:
  "set (GVKs (run_ops Track Forget ops NewInMemory)) =
     {g. \<exists>xr. \<exists>r \<in> set (refs (spec_run ops) xr). ref_GVK r = g} \<and>
   distinct (GVKs (run_ops Track Forget ops NewInMemory)) \<and>
   Requirements (run_ops Track Forget ops NewInMemory) xr step =
     filter (\<lambda>q. req_Step q = step) (snd (spec_run ops xr))"
  using in_memory.kinds_exact [of ops] in_memory.requirements_exact
  unfolding watched_kinds_def by blast

text \<open>The registry: one tracker per controller, created when first asked for.\<close>

lemma registry_Get_twice:
  "registry_Get (snd (registry_Get r c)) c = (fst (registry_Get r c), snd (registry_Get r c))"
  by (simp add: registry_Get_def split: option.splits)

lemma registry_update_Get:
  "fst (registry_Get (registry_update f r c) c') =
     (if c' = c then f (fst (registry_Get r c)) else fst (registry_Get r c'))"
  by (simp add: registry_Get_def registry_update_def split: option.splits)

lemma registry_Delete_Get:
  "fst (registry_Get (registry_Delete r c) c') =
     (if c' = c then newTracker r else fst (registry_Get r c'))"
  by (simp add: registry_Get_def registry_Delete_def split: option.splits)

end
