(* ===== verification/Revision.thy ===== *)
theory Revision
  imports DagProps
begin

text \<open>
  The package dependency manager, \<^verbatim>\<open>internal/controller/pkg/revision/dependency.go\<close>: how a
  package revision enters the lock, and when its dependencies count as installed and valid. It
  runs on the graph of \<open>Dag\<close>.

  Code that is not in the repository is a parameter: the Kubernetes client (\<open>'w client\<close>, whose
  calls return the next state \<open>'w\<close> of the API server), and in \<open>externals\<close> the semver library,
  the parsing of OCI references and of digests, and the helper that sorts and shortens a list
  of messages.
\<close>

section \<open>What the code calls\<close>

datatype got = Got "lock_package list" | GotNotFound | GotError go_error

record 'w lock_client =
  client_Get :: "'w \<Rightarrow> got \<times> 'w"
  client_Create :: "'w \<Rightarrow> go_error option \<times> 'w"
  client_Update :: "lock_package list \<Rightarrow> 'w \<Rightarrow> go_error option \<times> 'w"

record ('c, 'v, 'r) externals =
  x_semver :: "('c, 'v) semver"
  x_ParseReference :: "string \<Rightarrow> 'r res"
  x_RefIdentifier :: "'r \<Rightarrow> string"
  x_RefSource :: "'r \<Rightarrow> string"
  x_NewHash :: "string \<Rightarrow> string res"
  x_SomeMore :: "nat \<Rightarrow> string list \<Rightarrow> string"

record meta_dependency =
  md_APIVersion :: "string option"
  md_Kind :: "string option"
  md_Package :: "string option"
  md_Configuration :: "string option"
  md_Provider :: "string option"
  md_Function :: "string option"
  md_Version :: string

record revision =
  rv_Name :: string
  rv_Source :: string
  rv_DesiredState :: string

record package_kind =
  pk_APIVersion :: string
  pk_Kind :: string

section \<open>Messages\<close>

text \<open>
  The verb \<^verbatim>\<open>%q\<close> on printable text and \<^verbatim>\<open>strings.TrimSpace\<close> on ASCII: package sources and
  constraints are ASCII.
\<close>

definition quoted :: "string \<Rightarrow> string" where
  "quoted s = [CHR 0x22] @
     concat (map (\<lambda>c. if c = CHR 0x22 \<or> c = CHR 0x5C then [CHR 0x5C, c] else [c]) s) @ [CHR 0x22]"

definition is_space :: "char \<Rightarrow> bool" where
  "is_space c \<longleftrightarrow> c \<in> {CHR 0x20, CHR 0x09, CHR 0x0A, CHR 0x0B, CHR 0x0C, CHR 0x0D}"

definition trim_space :: "string \<Rightarrow> string" where
  "trim_space s = rev (dropWhile is_space (rev (dropWhile is_space s)))"

definition describe :: "node \<Rightarrow> string" where
  "describe n =
     (if GetConstraints n = [] then quoted (Identifier n)
      else quoted (Identifier n) @ '' ('' @ GetConstraints n @ '')'')"

definition NDependenciesAndSomeMore ::
  "('c, 'v, 'r) externals \<Rightarrow> nat \<Rightarrow> node list \<Rightarrow> string" where
  "NDependenciesAndSomeMore x n d = x_SomeMore x n (map describe d)"

section \<open>Dependencies of the revision\<close>

definition lock_dependency :: "meta_dependency \<Rightarrow> dependency res" where
  "lock_dependency d =
     (let pdep = \<lparr>dep_Package = [], dep_APIVersion = None, dep_Kind = None, dep_Type = None,
                   dep_Constraints = md_Version d, dep_ParentConstraints = []\<rparr> in
      case (md_APIVersion d, md_Kind d, md_Package d) of
        (Some v, Some k, Some p) \<Rightarrow>
          Inr (pdep\<lparr>dep_APIVersion := Some v, dep_Kind := Some k, dep_Package := p\<rparr>)
      | _ \<Rightarrow>
          (case md_Configuration d of
             Some p \<Rightarrow> Inr (pdep\<lparr>dep_Package := p, dep_Type := Some ConfigurationPackageType\<rparr>)
           | None \<Rightarrow>
               (case md_Provider d of
                  Some p \<Rightarrow> Inr (pdep\<lparr>dep_Package := p, dep_Type := Some ProviderPackageType\<rparr>)
                | None \<Rightarrow>
                    (case md_Function d of
                       Some p \<Rightarrow> Inr (pdep\<lparr>dep_Package := p, dep_Type := Some FunctionPackageType\<rparr>)
                     | None \<Rightarrow> Inl (Errorf ''encountered an invalid dependency'' [])))))"

fun lock_dependencies :: "meta_dependency list \<Rightarrow> dependency list res" where
  "lock_dependencies [] = Inr []"
| "lock_dependencies (d # ds) =
     (case lock_dependency d of
        Inl e \<Rightarrow> Inl e
      | Inr p \<Rightarrow>
          (case lock_dependencies ds of Inl e \<Rightarrow> Inl e | Inr ps \<Rightarrow> Inr (p # ps)))"

section \<open>The lock\<close>

definition get_or_create :: "'w lock_client \<Rightarrow> 'w \<Rightarrow> lock_package list res \<times> 'w" where
  "get_or_create c w =
     (case client_Get c w of
        (Got pkgs, w1) \<Rightarrow> (Inr pkgs, w1)
      | (GotError e, w1) \<Rightarrow> (Inl (Wrap e ''cannot get or create lock''), w1)
      | (GotNotFound, w1) \<Rightarrow>
          (case client_Create c w1 of
             (Some e, w2) \<Rightarrow> (Inl (Wrap e ''cannot get or create lock''), w2)
           | (None, w2) \<Rightarrow> (Inr [], w2)))"

fun remove_named :: "string \<Rightarrow> lock_package list \<Rightarrow> lock_package list option" where
  "remove_named n [] = None"
| "remove_named n (lp # lps) =
     (if lp_Name lp = n then Some lps else map_option ((#) lp) (remove_named n lps))"

definition RemoveSelf :: "'w lock_client \<Rightarrow> revision \<Rightarrow> 'w \<Rightarrow> go_error option \<times> 'w" where
  "RemoveSelf c pr w =
     (case client_Get c w of
        (GotNotFound, w1) \<Rightarrow> (None, w1)
      | (GotError e, w1) \<Rightarrow> (Some e, w1)
      | (Got pkgs, w1) \<Rightarrow>
          (case remove_named (rv_Name pr) pkgs of
             None \<Rightarrow> (None, w1)
           | Some pkgs' \<Rightarrow> client_Update c pkgs' w1))"

text \<open>
  \<^verbatim>\<open>self.Type == lp.Type\<close> compares pointers and \<open>self\<close> has none, so it asks for a package
  without a type.
\<close>

definition moved :: "lock_package \<Rightarrow> lock_package \<Rightarrow> bool" where
  "moved self lp \<longleftrightarrow>
     lp_Name self = lp_Name lp \<and> lp_Type lp = None \<and> lp_Source self \<noteq> lp_Identifier lp"

definition drop_moved ::
  "'w lock_client \<Rightarrow> revision \<Rightarrow> lock_package \<Rightarrow> lock_package list \<Rightarrow> 'w \<Rightarrow>
     lock_package list res \<times> 'w" where
  "drop_moved c pr self pkgs w =
     (if list_ex (moved self) pkgs then
        (case RemoveSelf c pr w of
           (Some e, w1) \<Rightarrow> (Inl e, w1)
         | (None, w1) \<Rightarrow>
             (case client_Get c w1 of
                (Got pkgs', w2) \<Rightarrow> (Inr pkgs', w2)
              | (GotNotFound, w2) \<Rightarrow> (Inl (Errorf ''not found'' []), w2)
              | (GotError e, w2) \<Rightarrow> (Inl e, w2)))
      else (Inr pkgs, w))"

text \<open>The first package of that name, as its position in the lock.\<close>

fun index_named :: "string \<Rightarrow> lock_package list \<Rightarrow> nat option" where
  "index_named n [] = None"
| "index_named n (lp # lps) =
     (if lp_Name lp = n then Some 0 else map_option Suc (index_named n lps))"

definition add_self :: "map_dag \<Rightarrow> lock_package \<Rightarrow> map_dag" where
  "add_self d self =
     (case alloc d [PackageNode self] of (ns, d') \<Rightarrow> AddOrUpdateNodes d' ns)"

section \<open>Resolve\<close>

type_synonym counts = "nat \<times> nat \<times> nat"

text \<open>The direct dependencies of a package that is new in the lock: how many exist, and the rest.\<close>

fun split_missing :: "map_dag \<Rightarrow> dependency list \<Rightarrow> nat \<times> node list" where
  "split_missing d [] = (0, [])"
| "split_missing d (dep # deps) =
     (case split_missing d deps of
        (n, miss) \<Rightarrow>
          if NodeExists d (dep_Identifier dep) then (Suc n, miss)
          else (n, DependencyNode dep # miss))"

definition missing_error :: "('c, 'v, 'r) externals \<Rightarrow> node list \<Rightarrow> go_error" where
  "missing_error x ns = Errorf ''missing dependencies: %+v'' [NDependenciesAndSomeMore x 3 ns]"

text \<open>
  Entering the lock: the graph with the package in it and whether to go on, or the counts and
  the error to return.
\<close>

definition enter_lock ::
  "('c, 'v, 'r) externals \<Rightarrow> 'w lock_client \<Rightarrow> revision \<Rightarrow> lock_package \<Rightarrow> lock_package list \<Rightarrow>
     map_dag \<Rightarrow> 'w \<Rightarrow> (nat \<times> go_error + map_dag) \<times> 'w" where
  "enter_lock x c pr self pkgs d w =
     (case index_named (rv_Name pr) pkgs of
        Some i \<Rightarrow>
          if lp_Version (pkgs ! i) \<noteq> lp_Version self then
            (case client_Update c (pkgs[i := (pkgs ! i)\<lparr>lp_Version := lp_Version self\<rparr>]) w of
               (Some e, w1) \<Rightarrow> (Inl (0, e), w1)
             | (None, w1) \<Rightarrow> (Inr (add_self d self), w1))
          else (Inr d, w)
      | None \<Rightarrow>
          (case client_Update c (pkgs @ [self]) w of
             (Some e, w1) \<Rightarrow> (Inl (0, e), w1)
           | (None, w1) \<Rightarrow>
               (case split_missing (add_self d self) (lp_Dependencies self) of
                  (n, miss) \<Rightarrow>
                    if n \<noteq> length (lp_Dependencies self) then (Inl (n, missing_error x miss), w1)
                    else (Inr (add_self d self), w1))))"

datatype dep_check = CheckOk | CheckInvalid string | CheckFail go_error

definition incompatible :: "string \<Rightarrow> string \<Rightarrow> string \<Rightarrow> string" where
  "incompatible i v cs =
     ''existing package '' @ i @ ''@'' @ v @
     (if cs \<noteq> [] then '' is incompatible with constraint '' @ trim_space cs else [])"

definition check_version ::
  "('c, 'v, 'r) externals \<Rightarrow> lock_package \<Rightarrow> string \<Rightarrow> dep_check" where
  "check_version x lp cs =
     (case x_NewHash x cs of
        Inr h \<Rightarrow>
          if lp_Version lp \<noteq> h
          then CheckFail (Errorf ''existing package %s@%s is incompatible with constraint %s''
                 [lp_Identifier lp, lp_Version lp, trim_space cs])
          else CheckOk
      | Inl _ \<Rightarrow>
          (case NewConstraint (x_semver x) cs of
             Inl e \<Rightarrow> CheckFail e
           | Inr c \<Rightarrow>
               (case NewVersion (x_semver x) (lp_Version lp) of
                  Inl e \<Rightarrow> CheckFail e
                | Inr v \<Rightarrow>
                    if \<not> Check (x_semver x) c v
                    then CheckInvalid (incompatible (lp_Identifier lp) (lp_Version lp) cs)
                    else CheckOk)))"

definition check_dependency ::
  "('c, 'v, 'r) externals \<Rightarrow> map_dag \<Rightarrow> dependency \<Rightarrow> dep_check" where
  "check_dependency x d dep =
     (case GetNode d (dep_Package dep) of
        Inl _ \<Rightarrow> CheckFail (Errorf ''dependency is not present in graph'' [])
      | Inr n \<Rightarrow>
          (case deref d n of
             DependencyNode _ \<Rightarrow>
               CheckFail (Errorf ''dependency in graph is not a lock package'' [])
           | PackageNode lp \<Rightarrow> check_version x lp (dep_Constraints dep)))"

fun check_dependencies ::
  "('c, 'v, 'r) externals \<Rightarrow> map_dag \<Rightarrow> dependency list \<Rightarrow> string list \<Rightarrow> string list res" where
  "check_dependencies x d [] bad = Inr bad"
| "check_dependencies x d (dep # deps) bad =
     (case check_dependency x d dep of
        CheckFail e \<Rightarrow> Inl e
      | CheckInvalid s \<Rightarrow> check_dependencies x d deps (bad @ [s])
      | CheckOk \<Rightarrow> check_dependencies x d deps bad)"

text \<open>The part of \<^verbatim>\<open>Resolve\<close> that only reads: tracing the graph and checking the versions.\<close>

definition verify ::
  "('c, 'v, 'r) externals \<Rightarrow> map_dag \<Rightarrow> ref list \<Rightarrow> lock_package \<Rightarrow> counts \<Rightarrow>
     counts \<times> go_error option" where
  "verify x d implied self cnt =
     (case TraceNode d (lp_Source self) of
        Inl e \<Rightarrow> (cnt, Some e)
      | Inr tree \<Rightarrow>
          (let found = length tree;
               missing = filter (\<lambda>n. map_of tree (ident d n) \<noteq> None) implied
           in if missing \<noteq> []
              then ((found, found - length missing, 0), Some (missing_error x (map (deref d) missing)))
              else (case check_dependencies x d (lp_Dependencies self) [] of
                      Inl e \<Rightarrow> ((found, found, 0), Some e)
                    | Inr bad \<Rightarrow>
                        if bad \<noteq> []
                        then ((found, found, length bad),
                              Some (Errorf ''incompatible dependencies: %s'' [join_with ''; '' bad]))
                        else ((found, found, 0), None))))"

definition mk_self ::
  "('c, 'v, 'r) externals \<Rightarrow> package_kind \<Rightarrow> revision \<Rightarrow> 'r \<Rightarrow> dependency list \<Rightarrow> lock_package" where
  "mk_self x k pr ref sources =
     \<lparr>lp_Name = rv_Name pr, lp_APIVersion = Some (pk_APIVersion k), lp_Kind = Some (pk_Kind k),
      lp_Type = None, lp_Source = x_RefSource x ref, lp_Version = x_RefIdentifier x ref,
      lp_Dependencies = sources, lp_ParentConstraints = []\<rparr>"

text \<open>From the parsed reference and the lock as first read; \<open>found\<close> is the number of dependencies.\<close>

definition resolve_in_lock ::
  "('c, 'v, 'r) externals \<Rightarrow> 'w lock_client \<Rightarrow> revision \<Rightarrow> lock_package \<Rightarrow> lock_package list \<Rightarrow>
     'w \<Rightarrow> (counts \<times> go_error option) \<times> 'w" where
  "resolve_in_lock x c pr self pkgs w =
     (let found = length (lp_Dependencies self);
          (ns, d0) = PackagesToNodes (NewMapDag []) pkgs
      in case Init d0 ns of
           (Inl e, _) \<Rightarrow>
             (((found, 0, 0),
               Some (Wrap e
                 ''cannot initialize dependency graph from the packages in the lock'')), w)
         | (Inr implied, d) \<Rightarrow>
             (case drop_moved c pr self pkgs w of
                (Inl e, w1) \<Rightarrow> (((found, 0, 0), Some e), w1)
              | (Inr pkgs1, w1) \<Rightarrow>
                  (case enter_lock x c pr self pkgs1 d w1 of
                     (Inl (n, e), w2) \<Rightarrow> (((found, n, 0), Some e), w2)
                   | (Inr d', w2) \<Rightarrow>
                       (verify x d' implied self
                          (found, if index_named (rv_Name pr) pkgs1 = None then found else 0, 0),
                        w2))))"

definition Resolve ::
  "('c, 'v, 'r) externals \<Rightarrow> 'w lock_client \<Rightarrow> package_kind \<Rightarrow> meta_dependency list \<Rightarrow> revision \<Rightarrow>
     'w \<Rightarrow> (counts \<times> go_error option) \<times> 'w" where
  "Resolve x c k deps pr w =
     (if rv_DesiredState pr = ''Inactive'' then (((0, 0, 0), None), w)
      else (case lock_dependencies deps of
              Inl e \<Rightarrow> (((0, 0, 0), Some e), w)
            | Inr sources \<Rightarrow>
                (let found = length sources in
                 case get_or_create c w of
                   (Inl e, w1) \<Rightarrow> (((found, 0, 0), Some e), w1)
                 | (Inr pkgs, w1) \<Rightarrow>
                     (case x_ParseReference x (rv_Source pr) of
                        Inl e \<Rightarrow> (((found, 0, 0), Some e), w1)
                      | Inr ref \<Rightarrow>
                          resolve_in_lock x c pr (mk_self x k pr ref sources) pkgs w1))))"

end
