(* ===== verification/RevisionCorrect.thy ===== *)
theory RevisionCorrect
  imports Revision "HOL-Library.Multiset" "HOL-Library.Sublist"
begin

text \<open>
  Correctness of the package dependency manager: what a \<^verbatim>\<open>Resolve\<close> without error guarantees, what
  it reports and leaves behind when direct dependencies are missing, and what \<^verbatim>\<open>RemoveSelf\<close> does
  to the lock. The API server is assumed to keep what was last written (\<open>client_ok\<close>).
\<close>

section \<open>The API server\<close>

text \<open>
  \<open>view w\<close> is the lock in state \<open>w\<close>. A read returns it or fails; a write that succeeds replaces
  it; a failing call leaves it alone.
\<close>

definition client_ok :: "'w lock_client \<Rightarrow> ('w \<Rightarrow> lock_package list option) \<Rightarrow> bool" where
  "client_ok c view \<longleftrightarrow>
     (\<forall>w g w'. client_Get c w = (g, w') \<longrightarrow> view w' = view w \<and>
        (case g of Got p \<Rightarrow> view w = Some p | GotNotFound \<Rightarrow> view w = None | GotError _ \<Rightarrow> True)) \<and>
     (\<forall>w e w'. client_Create c w = (e, w') \<longrightarrow>
        view w' = (if e = None then Some [] else view w)) \<and>
     (\<forall>l w e w'. client_Update c l w = (e, w') \<longrightarrow>
        view w' = (if e = None then Some l else view w))"

lemma client_okD:
  assumes "client_ok c view"
  shows "client_Get c w = (Got p, w') \<Longrightarrow> view w = Some p \<and> view w' = Some p"
    "client_Get c w = (GotNotFound, w') \<Longrightarrow> view w = None \<and> view w' = None"
    "client_Get c w = (GotError e, w') \<Longrightarrow> view w' = view w"
    "client_Create c w = (None, w') \<Longrightarrow> view w' = Some []"
    "client_Update c l w = (None, w') \<Longrightarrow> view w' = Some l"
    "client_Update c l w = (Some e, w') \<Longrightarrow> view w' = view w"
  using assms unfolding client_ok_def by fastforce+

definition packages_in :: "lock_package list option \<Rightarrow> lock_package list" where
  "packages_in v = (case v of None \<Rightarrow> [] | Some pkgs \<Rightarrow> pkgs)"

lemma packages_in_simps [simp]: "packages_in None = []" "packages_in (Some pkgs) = pkgs"
  by (simp_all add: packages_in_def)

section \<open>Removing a package\<close>

definition without_first :: "string \<Rightarrow> lock_package list \<Rightarrow> lock_package list" where
  "without_first n pkgs =
     takeWhile (\<lambda>p. lp_Name p \<noteq> n) pkgs @ drop 1 (dropWhile (\<lambda>p. lp_Name p \<noteq> n) pkgs)"

lemma remove_named_spec:
  "remove_named n pkgs =
     (if \<exists>p \<in> set pkgs. lp_Name p = n then Some (without_first n pkgs) else None)"
  by (induction pkgs) (auto simp: without_first_def)

lemma set_without_first: "set (without_first n pkgs) \<subseteq> set pkgs"
  unfolding without_first_def
  by (auto dest: set_takeWhileD set_dropWhileD in_set_dropD)

lemma without_first_absent: "\<forall>p \<in> set pkgs. lp_Name p \<noteq> n \<Longrightarrow> without_first n pkgs = pkgs"
  by (simp add: without_first_def takeWhile_eq_all_conv [THEN iffD2]
      dropWhile_eq_Nil_conv [THEN iffD2])

lemma RemoveSelf_view:
  assumes "client_ok c view" "RemoveSelf c pr w = (e, w')"
  shows "view w' = (if e = None then map_option (without_first (rv_Name pr)) (view w) else view w)"
proof (cases "client_Get c w")
  case (Pair g w1)
  show ?thesis
  proof (cases g)
    case (Got pkgs)
    note v = client_okD(1) [OF assms(1) Pair [unfolded Got]]
    show ?thesis
    proof (cases "\<exists>p \<in> set pkgs. lp_Name p = rv_Name pr")
      case True
      then have "client_Update c (without_first (rv_Name pr) pkgs) w1 = (e, w')"
        using assms(2) Pair Got by (simp add: RemoveSelf_def remove_named_spec)
      then show ?thesis
        using client_okD(5,6) [OF assms(1)] v by (cases e) auto
    next
      case False
      then have "e = None \<and> w' = w1"
        using assms(2) Pair Got by (simp add: RemoveSelf_def remove_named_spec)
      then show ?thesis
        using v False by (simp add: without_first_absent)
    qed
  next
    case GotNotFound
    then show ?thesis
      using assms(2) Pair client_okD(2) [OF assms(1)] by (auto simp: RemoveSelf_def)
  next
    case (GotError e')
    then show ?thesis
      using assms(2) Pair client_okD(3) [OF assms(1)] by (auto simp: RemoveSelf_def)
  qed
qed

section \<open>Checking versions\<close>

text \<open>A version satisfies a constraint: the same digest, or accepted by the semver library.\<close>

definition satisfies :: "('c, 'v, 'r) externals \<Rightarrow> string \<Rightarrow> string \<Rightarrow> bool" where
  "satisfies x ver cs =
     (case x_NewHash x cs of
        Inr h \<Rightarrow> ver = h
      | Inl _ \<Rightarrow>
          (case (NewConstraint (x_semver x) cs, NewVersion (x_semver x) ver) of
             (Inr c, Inr v) \<Rightarrow> Check (x_semver x) c v
           | _ \<Rightarrow> False))"

lemma check_version_ok: "check_version x lp cs = CheckOk \<longleftrightarrow> satisfies x (lp_Version lp) cs"
  by (auto simp: check_version_def satisfies_def split: sum.splits)

lemma check_dependency_ok:
  "check_dependency x d dep = CheckOk \<longleftrightarrow>
     (\<exists>r lp. map_of (nodes d) (dep_Package dep) = Some r \<and> deref d r = PackageNode lp \<and>
        satisfies x (lp_Version lp) (dep_Constraints dep))"
  by (auto simp: check_dependency_def GetNode_def check_version_ok split: option.splits node.splits)

lemma check_dependencies_acc:
  "check_dependencies x d deps bad = Inr out \<Longrightarrow> length bad \<le> length out"
proof (induction deps arbitrary: bad)
  case (Cons dep deps)
  then show ?case
    by (cases "check_dependency x d dep") fastforce+
qed simp

lemma check_dependencies_ok:
  "check_dependencies x d deps [] = Inr [] \<Longrightarrow> \<forall>dep \<in> set deps. check_dependency x d dep = CheckOk"
proof (induction deps)
  case (Cons dep deps)
  then show ?case
    using check_dependencies_acc [of x d deps] by (cases "check_dependency x d dep") force+
qed simp

section \<open>Tracing\<close>

lemma trace_distinct:
  "traceNode d i tree = Inr tree' \<Longrightarrow> distinct (map fst tree) \<Longrightarrow> distinct (map fst tree')"
  "traceNeighbors d ns tree = Inr tree' \<Longrightarrow> distinct (map fst tree) \<Longrightarrow> distinct (map fst tree')"
proof (induction d i tree and d ns tree arbitrary: tree' and tree'
    rule: traceNode_traceNeighbors.induct)
  case (1 d i tree)
  then show ?case
    by (cases "map_of (nodes d) i") (auto simp: traceNode.simps)
next
  case (3 d n ns tree)
  show ?case
  proof (cases "map_of tree (Identifier n)")
    case None
    then obtain t where "traceNode d (Identifier n) (put (Identifier n) n tree) = Inr t"
      "traceNeighbors d ns t = Inr tree'"
      using 3 by (auto simp: traceNode.simps split: sum.splits)
    then show ?thesis
      using 3 None by auto
  next
    case (Some q)
    then show ?thesis
      using 3 by (simp add: traceNode.simps)
  qed
qed (simp add: traceNode.simps)

lemma TraceNode_card: "TraceNode d i = Inr tree \<Longrightarrow> length tree = card ((edges d)\<^sup>+ `` {i})"
  using trace_distinct(1) [of d i "[]" tree] TraceNode_ok [of d i tree]
  by (simp add: TraceNode_def length_distinct_keys)

section \<open>The graph with the package in it\<close>

lemma add_self_spec:
  "nodes (add_self d self) = put (lp_Source self) (length (heap d)) (nodes d) \<and>
   deref (add_self d self) (length (heap d)) = PackageNode self \<and>
   (\<forall>r < length (heap d). deref (add_self d self) r = deref d r)"
  by (simp add: add_self_def alloc_def ident_def deref_def lp_Identifier_def nth_append)

definition graph_packages :: "lock_package list \<Rightarrow> lock_package \<Rightarrow> lock_package list" where
  "graph_packages pkgs self = self # filter (\<lambda>p. lp_Source p \<noteq> lp_Source self) pkgs"

lemma succs_add_self:
  assumes "wf_dag d"
  shows "succs (add_self d self) i =
     (if i = lp_Source self then map dep_Package (lp_Dependencies self) else succs d i)"
proof (cases "i = lp_Source self")
  case True
  then show ?thesis
    using add_self_spec [of d self] by (simp add: succs_Some dep_Identifier_def)
next
  case False
  then show ?thesis
    using add_self_spec [of d self] wf_dag_get [OF assms, of i]
    by (cases "map_of (nodes d) i") (auto simp: succs_def)
qed

lemma edges_add_self:
  assumes "wf_dag d" "edges d = lock_deps pkgs"
  shows "edges (add_self d self) = lock_deps (graph_packages pkgs self)"
proof -
  have "(i, j) \<in> edges (add_self d self) \<longleftrightarrow>
      (if i = lp_Source self then j \<in> dep_Package ` set (lp_Dependencies self)
       else (i, j) \<in> lock_deps pkgs)" for i j
    unfolding in_edges_iff succs_add_self [OF assms(1)] assms(2) [symmetric] by simp
  moreover have "(i, j) \<in> lock_deps (graph_packages pkgs self) \<longleftrightarrow>
      (if i = lp_Source self then j \<in> dep_Package ` set (lp_Dependencies self)
       else (i, j) \<in> lock_deps pkgs)" for i j
    by (auto simp: lock_deps_def graph_packages_def)
  ultimately show ?thesis
    by (simp add: set_eq_iff)
qed

text \<open>
  What the version check relies on: the edges are the dependencies of the packages \<open>G\<close>, a node is a
  package of \<open>G\<close> or implied, and a node that is a package is one of \<open>G\<close> with its version.
\<close>

definition graph_ok :: "map_dag \<Rightarrow> lock_package list \<Rightarrow> ref list \<Rightarrow> bool" where
  "graph_ok d G implied \<longleftrightarrow>
     edges d = lock_deps G \<and>
     keys (nodes d) \<subseteq> lp_Source ` set G \<union> ident d ` set implied \<and>
     (\<forall>i r lp. map_of (nodes d) i = Some r \<longrightarrow> deref d r = PackageNode lp \<longrightarrow>
        (\<exists>p \<in> set G. lp_Source p = i \<and> lp_Version p = lp_Version lp))"

lemma graph_ok_node:
  "graph_ok d G implied \<Longrightarrow> map_of (nodes d) i = Some r \<Longrightarrow> deref d r = PackageNode lp \<Longrightarrow>
   \<exists>p \<in> set G. lp_Source p = i \<and> lp_Version p = lp_Version lp"
  unfolding graph_ok_def by blast

lemma Init_graph_ok:
  assumes "PackagesToNodes (NewMapDag []) pkgs = (ns, d0)" "Init d0 ns = (Inr implied, d)"
  shows "wf_dag d \<and> graph_ok d pkgs implied \<and> (\<forall>r \<in> set implied. r < length (heap d)) \<and>
    distinct (map lp_Source pkgs) \<and>
    keys (nodes d) = lp_Source ` set pkgs \<union> snd ` lock_deps pkgs \<and>
    ident d ` set implied = snd ` lock_deps pkgs - lp_Source ` set pkgs"
proof -
  have d0: "ns = [0..<length pkgs]" "d0 = \<lparr>heap = map PackageNode pkgs, nodes = []\<rparr>"
    using assms(1) by (simp_all add: PackagesToNodes_new)
  have dist: "distinct (map lp_Source pkgs)"
  proof (rule ccontr)
    assume "\<not> distinct (map lp_Source pkgs)"
    then have "\<not> distinct (map (ident d0) ns)" by (simp add: d0 lock_idents)
    from plain.Init_dup [OF this] assms(2) show False by (auto simp: Init_def)
  qed
  from lock_graph [OF dist assms(1)] obtain imp d' where i:
    "Init d0 ns = (Inr imp, d')" "wf_dag d'" "edges d' = lock_deps pkgs"
    "keys (nodes d') = lp_Source ` set pkgs \<union> snd ` lock_deps pkgs"
    "ident d' ` set imp = snd ` lock_deps pkgs - lp_Source ` set pkgs"
    "\<forall>i r. map_of (nodes d') i = Some r \<longrightarrow> is_package (deref d' r) \<longrightarrow>
       (\<exists>p \<in> set pkgs. lp_Source p = i \<and> shape (deref d' r) = shape (PackageNode p))"
    "\<forall>r \<in> set imp. r < length (heap d')"
    by metis
  have eq: "implied = imp" "d = d'" using i(1) assms(2) by simp_all
  have "\<exists>p \<in> set pkgs. lp_Source p = j \<and> lp_Version p = lp_Version lp"
    if "map_of (nodes d) j = Some r" "deref d r = PackageNode lp" for j r lp
  proof -
    have "is_package (deref d r)" using that(2) by simp
    with i(6) that(1) obtain p where p: "p \<in> set pkgs" "lp_Source p = j"
      "shape (deref d r) = shape (PackageNode p)" unfolding eq by blast
    then have "lp_Version p = lp_Version lp"
      using that(2) by (simp add: shape_def lp_GetConstraints_def)
    with p show ?thesis by blast
  qed
  then have "graph_ok d pkgs implied"
    using i(3-5) unfolding graph_ok_def eq by auto
  with i dist show ?thesis by (simp add: eq)
qed

lemma add_self_graph_ok:
  assumes "wf_dag d" "graph_ok d pkgs implied" "\<forall>r \<in> set implied. r < length (heap d)"
  shows "graph_ok (add_self d self) (graph_packages pkgs self) implied"
proof -
  note S = add_self_spec [of d self]
  have e: "edges (add_self d self) = lock_deps (graph_packages pkgs self)"
    using assms(2) by (intro edges_add_self [OF assms(1)]) (simp add: graph_ok_def)
  have "ident (add_self d self) ` set implied = ident d ` set implied"
    using assms(3) S by (intro image_cong) (simp_all add: ident_def)
  then have k: "keys (nodes (add_self d self)) \<subseteq>
      lp_Source ` set (graph_packages pkgs self) \<union> ident (add_self d self) ` set implied"
    using assms(2) S by (auto simp: graph_ok_def graph_packages_def)
  have "\<exists>p \<in> set (graph_packages pkgs self). lp_Source p = i \<and> lp_Version p = lp_Version lp"
    if "map_of (nodes (add_self d self)) i = Some r" "deref (add_self d self) r = PackageNode lp"
    for i r lp
  proof (cases "i = lp_Source self")
    case True
    with that S show ?thesis by (simp add: graph_packages_def)
  next
    case False
    then have r: "map_of (nodes d) i = Some r" using that S by simp
    then have "r < length (heap d)" using wf_dag_get [OF assms(1)] by blast
    then have "deref d r = PackageNode lp" using that S by simp
    from graph_ok_node [OF assms(2) r this] False show ?thesis
      by (auto simp: graph_packages_def)
  qed
  with e k show ?thesis unfolding graph_ok_def by blast
qed

definition deps_met :: "('c, 'v, 'r) externals \<Rightarrow> lock_package list \<Rightarrow> lock_package \<Rightarrow> bool" where
  "deps_met x G self \<longleftrightarrow>
     (lock_deps G)\<^sup>+ `` {lp_Source self} \<subseteq> lp_Source ` set G \<and>
     (\<forall>dep \<in> set (lp_Dependencies self). \<exists>p \<in> set G. lp_Source p = dep_Package dep \<and>
        satisfies x (lp_Version p) (dep_Constraints dep))"

lemma verify_ok:
  assumes "graph_ok d G implied" "verify x d implied self cnt = ((f, i, v), None)"
  shows "v = 0 \<and> i = f \<and> f = card ((lock_deps G)\<^sup>+ `` {lp_Source self}) \<and> deps_met x G self"
proof -
  obtain tree where tree: "TraceNode d (lp_Source self) = Inr tree"
    using assms(2) by (auto simp: verify_def split: sum.splits)
  have miss: "filter (\<lambda>n. map_of tree (ident d n) \<noteq> None) implied = []"
    using assms(2) tree by (auto simp: verify_def Let_def split: if_splits)
  have chk: "check_dependencies x d (lp_Dependencies self) [] = Inr []"
    using assms(2) tree miss by (auto simp: verify_def Let_def split: if_splits sum.splits)
  have res: "f = length tree" "i = length tree" "v = 0"
    using assms(2) tree miss chk by (auto simp: verify_def Let_def)
  have e: "edges d = lock_deps G" using assms(1) by (simp add: graph_ok_def)
  have k: "keys tree = (lock_deps G)\<^sup>+ `` {lp_Source self}"
    using TraceNode_ok [OF tree] e by simp
  have "keys tree \<inter> ident d ` set implied = {}"
    using miss by (auto simp: filter_empty_conv in_keys_iff)
  moreover have "keys tree \<subseteq> keys (nodes d)" using TraceNode_ok [OF tree] by blast
  moreover have "keys (nodes d) \<subseteq> lp_Source ` set G \<union> ident d ` set implied"
    using assms(1) by (simp add: graph_ok_def)
  ultimately have "keys tree \<subseteq> lp_Source ` set G" by blast
  then have "(lock_deps G)\<^sup>+ `` {lp_Source self} \<subseteq> lp_Source ` set G" by (simp add: k)
  moreover have "\<exists>p \<in> set G. lp_Source p = dep_Package dep \<and>
      satisfies x (lp_Version p) (dep_Constraints dep)" if dep: "dep \<in> set (lp_Dependencies self)" for dep
  proof -
    from check_dependencies_ok [OF chk] dep have "check_dependency x d dep = CheckOk" by blast
    then obtain r lp where "map_of (nodes d) (dep_Package dep) = Some r" "deref d r = PackageNode lp"
      "satisfies x (lp_Version lp) (dep_Constraints dep)"
      unfolding check_dependency_ok by blast
    with graph_ok_node [OF assms(1)] show ?thesis by metis
  qed
  ultimately show ?thesis
    using res TraceNode_card [OF tree] e by (simp add: deps_met_def)
qed

section \<open>Entering the lock\<close>

lemma index_named_Some: "index_named n pkgs = Some i \<Longrightarrow> i < length pkgs \<and> lp_Name (pkgs ! i) = n"
  by (induction pkgs arbitrary: i) (auto split: if_splits)

lemma index_named_None: "index_named n pkgs = None \<longleftrightarrow> (\<forall>p \<in> set pkgs. lp_Name p \<noteq> n)"
  by (induction pkgs) auto

lemma get_or_create_view:
  assumes "client_ok c view" "get_or_create c w = (Inr pkgs, w1)"
  shows "view w1 = Some pkgs \<and> pkgs = packages_in (view w)"
proof (cases "client_Get c w")
  case (Pair g w0)
  show ?thesis
  proof (cases g)
    case (Got p)
    then show ?thesis
      using client_okD(1) [OF assms(1)] Pair assms(2) by (auto simp: get_or_create_def)
  next
    case GotNotFound
    with assms(2) Pair have c: "client_Create c w0 = (None, w1)" "pkgs = []"
      by (auto simp: get_or_create_def split: prod.splits option.splits)
    then show ?thesis
      using client_okD(4) [OF assms(1) c(1)] client_okD(2) [OF assms(1)] Pair GotNotFound by simp
  next
    case (GotError e)
    then show ?thesis using assms(2) Pair by (simp add: get_or_create_def)
  qed
qed

lemma drop_moved_view:
  assumes "client_ok c view" "view w = Some pkgs" "drop_moved c pr self pkgs w = (Inr pkgs1, w1)"
  shows "view w1 = Some pkgs1 \<and>
    pkgs1 = (if list_ex (moved self) pkgs then without_first (rv_Name pr) pkgs else pkgs)"
proof (cases "list_ex (moved self) pkgs")
  case True
  obtain e w2 where r: "RemoveSelf c pr w = (e, w2)" by (rule prod.exhaust)
  from True assms(3) r have e: "e = None" by (cases e) (auto simp: drop_moved_def)
  note v = RemoveSelf_view [OF assms(1) r [unfolded e]]
  obtain g w3 where g: "client_Get c w2 = (g, w3)" by (rule prod.exhaust)
  show ?thesis
    using True assms(2,3) r e g v client_okD(1) [OF assms(1), of w2 _ w3]
    by (cases g) (auto simp: drop_moved_def)
next
  case False
  then show ?thesis using assms(2,3) by (auto simp: drop_moved_def)
qed

lemma enter_lock_ok:
  assumes "client_ok c view" "view w = Some pkgs" "lp_Name self = rv_Name pr"
    "enter_lock x c pr self pkgs d w = (Inr d', w')"
  shows "(d' = d \<or> d' = add_self d self) \<and>
    (\<exists>pkgs'. view w' = Some pkgs' \<and>
       (\<exists>p \<in> set pkgs'. lp_Name p = rv_Name pr \<and> lp_Version p = lp_Version self))"
proof (cases "index_named (rv_Name pr) pkgs")
  case None
  obtain e w1 where u: "client_Update c (pkgs @ [self]) w = (e, w1)" by (rule prod.exhaust)
  with assms(4) None have "e = None \<and> d' = add_self d self \<and> w' = w1"
    by (cases e) (auto simp: enter_lock_def split: prod.splits if_splits)
  with client_okD(5) [OF assms(1)] u assms(3) show ?thesis by auto
next
  case (Some i)
  note i = index_named_Some [OF Some]
  show ?thesis
  proof (cases "lp_Version (pkgs ! i) = lp_Version self")
    case True
    with assms(4) Some have "d' = d" "w' = w" by (simp_all add: enter_lock_def)
    with assms(2) i True show ?thesis by auto
  next
    case False
    let ?pkgs = "pkgs[i := (pkgs ! i)\<lparr>lp_Version := lp_Version self\<rparr>]"
    obtain e w1 where u: "client_Update c ?pkgs w = (e, w1)" by (rule prod.exhaust)
    with assms(4) Some False have e: "e = None \<and> d' = add_self d self \<and> w' = w1"
      by (cases e) (auto simp: enter_lock_def)
    have "(pkgs ! i)\<lparr>lp_Version := lp_Version self\<rparr> \<in> set ?pkgs"
      using i by (simp add: set_update_memI)
    moreover have "view w' = Some ?pkgs"
      using client_okD(5) [OF assms(1)] u e by auto
    ultimately show ?thesis
      using e i by (intro conjI exI [of _ ?pkgs] bexI [of _ "(pkgs ! i)\<lparr>lp_Version := lp_Version self\<rparr>"]) simp_all
  qed
qed

lemma resolve_in_lock_ok:
  assumes "client_ok c view" "view w = Some pkgs" "lp_Name self = rv_Name pr"
    "resolve_in_lock x c pr self pkgs w = (((f, i, v), None), w')"
  shows "\<exists>G. (G = pkgs \<or> G = graph_packages pkgs self) \<and>
    (\<exists>pkgs'. view w' = Some pkgs' \<and>
       (\<exists>p \<in> set pkgs'. lp_Name p = rv_Name pr \<and> lp_Version p = lp_Version self)) \<and>
    v = 0 \<and> i = f \<and> f = card ((lock_deps G)\<^sup>+ `` {lp_Source self}) \<and> deps_met x G self"
proof -
  obtain ns d0 where p: "PackagesToNodes (NewMapDag []) pkgs = (ns, d0)" by (rule prod.exhaust)
  obtain implied d where n: "Init d0 ns = (Inr implied, d)"
    using assms(4) p by (auto simp: resolve_in_lock_def Let_def split: prod.splits sum.splits)
  obtain pkgs1 w1 where m: "drop_moved c pr self pkgs w = (Inr pkgs1, w1)"
    using assms(4) p n by (auto simp: resolve_in_lock_def Let_def split: prod.splits sum.splits)
  obtain d' where e: "enter_lock x c pr self pkgs1 d w1 = (Inr d', w')"
    using assms(4) p n m by (auto simp: resolve_in_lock_def Let_def split: prod.splits sum.splits)
  obtain cnt where ver: "verify x d' implied self cnt = ((f, i, v), None)"
    using assms(4) p n m e by (auto simp: resolve_in_lock_def Let_def)
  note I = Init_graph_ok [OF p n]
  note E = enter_lock_ok [OF assms(1) drop_moved_view [OF assms(1,2) m, THEN conjunct1] assms(3) e]
  let ?G = "if d' = d then pkgs else graph_packages pkgs self"
  have "wf_dag d" "graph_ok d pkgs implied" "\<forall>r \<in> set implied. r < length (heap d)"
    using I by blast+
  then have G: "graph_ok d' ?G implied"
    using E [THEN conjunct1] add_self_graph_ok [of d pkgs implied self] by auto
  show ?thesis
    by (intro exI [of _ ?G] conjI E [THEN conjunct2]) (use verify_ok [OF G ver] in simp_all)
qed

section \<open>Properties\<close>

text \<open>
  C6: When \<^verbatim>\<open>Resolve\<close> returns no error for an active revision, the lock holds the package in the
  version of the revision, everything its dependencies reach is a package (of the lock as first
  read, or itself), each direct dependency is met by such a package whose version has the
  constraint's digest or passes the semver check, and the counts say so: all found are
  installed, none invalid.
\<close>

theorem Resolve_ok:
  assumes "client_ok c view" "rv_DesiredState pr \<noteq> ''Inactive''"
    "Resolve x c k deps pr w = (((found, installed, invalid), None), w')"
  shows "\<exists>sources ref pkgs' G.
    lock_dependencies deps = Inr sources \<and> x_ParseReference x (rv_Source pr) = Inr ref \<and>
    (let self = mk_self x k pr ref sources; pkgs = packages_in (view w) in
     view w' = Some pkgs' \<and>
     (\<exists>p \<in> set pkgs'. lp_Name p = rv_Name pr \<and> lp_Version p = x_RefIdentifier x ref) \<and>
     (G = pkgs \<or> G = self # filter (\<lambda>p. lp_Source p \<noteq> lp_Source self) pkgs) \<and>
     (lock_deps G)\<^sup>+ `` {x_RefSource x ref} \<subseteq> lp_Source ` set G \<and>
     (\<forall>dep \<in> set sources. \<exists>p \<in> set G. lp_Source p = dep_Package dep \<and>
        satisfies x (lp_Version p) (dep_Constraints dep)) \<and>
     found = card ((lock_deps G)\<^sup>+ `` {x_RefSource x ref}) \<and> installed = found \<and> invalid = 0)"
proof -
  obtain sources where s: "lock_dependencies deps = Inr sources"
    using assms(2,3) by (auto simp: Resolve_def split: sum.splits)
  obtain pkgs w1 where g: "get_or_create c w = (Inr pkgs, w1)"
    using assms(2,3) s by (auto simp: Resolve_def Let_def split: sum.splits prod.splits)
  obtain ref where r: "x_ParseReference x (rv_Source pr) = Inr ref"
    using assms(2,3) s g by (auto simp: Resolve_def Let_def split: sum.splits)
  let ?self = "mk_self x k pr ref sources"
  have l: "resolve_in_lock x c pr ?self pkgs w1 = (((found, installed, invalid), None), w')"
    using assms(2,3) s g r by (simp add: Resolve_def Let_def)
  note V = get_or_create_view [OF assms(1) g]
  have self: "lp_Name ?self = rv_Name pr" "lp_Source ?self = x_RefSource x ref"
    "lp_Version ?self = x_RefIdentifier x ref" "lp_Dependencies ?self = sources"
    by (simp_all add: mk_self_def)
  from resolve_in_lock_ok [OF assms(1) V [THEN conjunct1] self(1) l] obtain G pkgs' where
    G: "G = pkgs \<or> G = graph_packages pkgs ?self" "view w' = Some pkgs'"
      "\<exists>p \<in> set pkgs'. lp_Name p = rv_Name pr \<and> lp_Version p = x_RefIdentifier x ref"
      "invalid = 0" "installed = found"
      "found = card ((lock_deps G)\<^sup>+ `` {x_RefSource x ref})" "deps_met x G ?self"
    unfolding self by blast
  show ?thesis
    by (rule exI [of _ sources], rule exI [of _ ref], rule exI [of _ pkgs'], rule exI [of _ G])
      (use s r V G self in \<open>simp add: Let_def deps_met_def graph_packages_def\<close>)
qed

section \<open>A lock on a store\<close>

text \<open>An API server that never fails, and external code small enough to evaluate.\<close>

definition store_client :: "lock_package list option lock_client" where
  "store_client =
     \<lparr>client_Get = \<lambda>w. (case w of None \<Rightarrow> GotNotFound | Some p \<Rightarrow> Got p, w),
      client_Create = \<lambda>w. (None, Some []), client_Update = \<lambda>l w. (None, Some l)\<rparr>"

lemma store_client_ok: "client_ok store_client (\<lambda>w. w)"
  by (auto simp: client_ok_def store_client_def split: option.splits)

definition toy_externals :: "(string, string, string) externals" where
  "toy_externals =
     \<lparr>x_semver = toy_semver, x_ParseReference = Inr, x_RefIdentifier = \<lambda>_. ''v1'', x_RefSource = id,
      x_NewHash = \<lambda>_. Inl (Errorf ''not a digest'' []), x_SomeMore = \<lambda>n. concat\<rparr>"

definition needs :: "string \<Rightarrow> meta_dependency" where
  "needs p = \<lparr>md_APIVersion = None, md_Kind = None, md_Package = None, md_Configuration = None,
     md_Provider = Some p, md_Function = None, md_Version = ''v1''\<rparr>"

definition rev_a :: revision where
  "rev_a = \<lparr>rv_Name = ''a'', rv_Source = ''a'', rv_DesiredState = ''Active''\<rparr>"

definition provider_kind :: package_kind where
  "provider_kind = \<lparr>pk_APIVersion = ''pkg.crossplane.io/v1'', pk_Kind = ''Provider''\<rparr>"

lemmas toy_defs = toy_externals_def toy_semver_def needs_def rev_a_def provider_kind_def
  store_client_def

lemmas resolve_defs = Resolve_def get_or_create_def resolve_in_lock_def drop_moved_def enter_lock_def
  verify_def lock_dependency_def mk_self_def add_self_def check_dependency_def check_version_def
  TraceNode_def traceNode.simps NodeExists_def GetNode_def moved_def

lemma toy_resolve:
  "fst (Resolve toy_externals store_client provider_kind [needs ''b''] rev_a
     (Some [mk_pkg ''b'' ''v1'' []])) = ((1, 1, 0), None)"
  by (simp add: resolve_defs toy_defs small_defs)

theorem Resolve_ok_witness:
  "\<exists>pkgs' G. snd (Resolve toy_externals store_client provider_kind [needs ''b''] rev_a
       (Some [mk_pkg ''b'' ''v1'' []])) = Some pkgs' \<and>
     (\<exists>p \<in> set pkgs'. lp_Name p = ''a'' \<and> lp_Version p = ''v1'') \<and>
     (lock_deps G)\<^sup>+ `` {''a''} \<subseteq> lp_Source ` set G \<and> 1 = card ((lock_deps G)\<^sup>+ `` {''a''})"
proof -
  let ?R = "Resolve toy_externals store_client provider_kind [needs ''b''] rev_a
     (Some [mk_pkg ''b'' ''v1'' []])"
  have "?R = (((1, 1, 0), None), snd ?R)" by (metis toy_resolve prod.collapse)
  from Resolve_ok [OF store_client_ok _ this] show ?thesis
    by (auto simp: Let_def toy_defs mk_self_def)
qed

section \<open>Missing dependencies\<close>

lemma split_missing_spec:
  "split_missing d deps =
     (length deps - length (filter (\<lambda>p. \<not> NodeExists d (dep_Package p)) deps),
      map DependencyNode (filter (\<lambda>p. \<not> NodeExists d (dep_Package p)) deps))"
proof (induction deps)
  case (Cons p deps)
  then show ?case
    using length_filter_le [of "\<lambda>p. \<not> NodeExists d (dep_Package p)" deps]
    by (simp add: dep_Identifier_def Suc_diff_le)
qed simp

text \<open>
  What \<^verbatim>\<open>StableNAndSomeMore\<close> of crossplane-runtime promises of its text: it contains \<open>n\<close> of the names,
  or all when there are no more.
\<close>

definition names_first_n :: "(nat \<Rightarrow> string list \<Rightarrow> string) \<Rightarrow> bool" where
  "names_first_n f \<longleftrightarrow> (\<forall>n names. \<exists>first. mset first \<subseteq># mset names \<and>
     length first = min n (length names) \<and> (\<forall>s \<in> set first. sublist s (f n names)))"

lemma names_first_text:
  assumes "names_first_n f"
  shows "(length names \<le> n \<longrightarrow> (\<forall>s \<in> set names. sublist s (f n names))) \<and>
    (n < length names \<longrightarrow> (\<exists>first. mset first \<subseteq># mset names \<and> length first = n \<and>
       (\<forall>s \<in> set first. sublist s (f n names))))"
proof -
  obtain first where f: "mset first \<subseteq># mset names" "length first = min n (length names)"
    "\<forall>s \<in> set first. sublist s (f n names)"
    using assms unfolding names_first_n_def by metis
  have "set first = set names" if "length names \<le> n"
  proof -
    have "size (mset first) = size (mset names)" using f(2) that by simp
    with f(1) have "mset first = mset names"
      by (metis mset_subset_size subset_mset.le_imp_less_or_eq less_irrefl)
    then show ?thesis by (metis set_mset_mset)
  qed
  then show ?thesis using f by (metis min.absorb1 less_imp_le)
qed

text \<open>
  C32: A revision that is not in the lock yet enters it even when direct dependencies are
  missing: \<^verbatim>\<open>Resolve\<close> has then written the lock with the package appended, and counts as found all
  direct dependencies, as installed those not missing, where missing are exactly the dependencies
  whose package is neither the revision's own nor in the lock nor a dependency of one in the lock.
  Its error is the summary of the missing ones, each described by its quoted package and its
  constraints: all of them appear in it when they are at most three, and three of them when there
  are more, provided \<^verbatim>\<open>StableNAndSomeMore\<close> does what it promises.
\<close>

theorem Resolve_missing:
  assumes "client_ok c view" "rv_DesiredState pr \<noteq> ''Inactive''"
    "lock_dependencies deps = Inr sources" "x_ParseReference x (rv_Source pr) = Inr ref"
    "client_Get c w = (Got pkgs, w1)"
    "client_Update c (pkgs @ [mk_self x k pr ref sources]) w1 = (None, w2)"
    "distinct (map lp_Source pkgs)" "rv_Name pr \<notin> lp_Name ` set pkgs"
    "miss = filter (\<lambda>dep. dep_Package dep \<notin> insert (x_RefSource x ref)
       (lp_Source ` set pkgs \<union> snd ` lock_deps pkgs)) sources" "miss \<noteq> []"
    "names_first_n (x_SomeMore x)"
  shows "\<exists>text. Resolve x c k deps pr w =
      (((length sources, length sources - length miss, 0),
        Some (Errorf ''missing dependencies: %+v'' [text])), w2) \<and>
    view w2 = Some (pkgs @ [mk_self x k pr ref sources]) \<and>
    text = x_SomeMore x 3 (map (\<lambda>dep. describe (DependencyNode dep)) miss) \<and>
    (length miss \<le> 3 \<longrightarrow> (\<forall>dep \<in> set miss. sublist (describe (DependencyNode dep)) text)) \<and>
    (3 < length miss \<longrightarrow> (\<exists>first. mset first \<subseteq># mset (map (\<lambda>dep. describe (DependencyNode dep)) miss) \<and>
       length first = 3 \<and> (\<forall>s \<in> set first. sublist s text)))"
proof -
  let ?self = "mk_self x k pr ref sources" and ?say = "\<lambda>dep. describe (DependencyNode dep)"
  have self: "lp_Name ?self = rv_Name pr" "lp_Source ?self = x_RefSource x ref"
    "lp_Dependencies ?self = sources"
    by (simp_all add: mk_self_def)
  obtain ns d0 where p: "PackagesToNodes (NewMapDag []) pkgs = (ns, d0)" by (rule prod.exhaust)
  from lock_graph [OF assms(7) p] obtain implied d where n: "Init d0 ns = (Inr implied, d)"
    "keys (nodes d) = lp_Source ` set pkgs \<union> snd ` lock_deps pkgs" by metis
  have absent: "\<forall>q \<in> set pkgs. lp_Name q \<noteq> rv_Name pr" using assms(8) by (metis image_eqI)
  then have "\<not> list_ex (moved ?self) pkgs" by (auto simp: list_ex_iff moved_def self)
  then have m: "drop_moved c pr ?self pkgs w1 = (Inr pkgs, w1)" by (simp add: drop_moved_def)
  have ix: "index_named (rv_Name pr) pkgs = None" using absent by (simp add: index_named_None)
  have "NodeExists (add_self d ?self) i \<longleftrightarrow>
      i \<in> insert (x_RefSource x ref) (lp_Source ` set pkgs \<union> snd ` lock_deps pkgs)" for i
    using add_self_spec [of d ?self] by (simp add: NodeExists_def self n(2) [symmetric] in_keys_iff)
  then have "split_missing (add_self d ?self) sources =
      (length sources - length miss, map DependencyNode miss)"
    unfolding split_missing_spec assms(9) by simp
  moreover have "length sources - length miss \<noteq> length sources"
  proof -
    have "0 < length miss" using assms(10) by simp
    moreover have "length miss \<le> length sources" by (simp add: assms(9) del: insert_iff)
    ultimately show ?thesis by linarith
  qed
  ultimately have e: "enter_lock x c pr ?self pkgs d w1 =
      (Inl (length sources - length miss, missing_error x (map DependencyNode miss)), w2)"
    by (simp add: enter_lock_def ix assms(6) self)
  have "resolve_in_lock x c pr ?self pkgs w1 =
      (((length sources, length sources - length miss, 0),
        Some (missing_error x (map DependencyNode miss))), w2)"
    by (simp add: resolve_in_lock_def Let_def p n m e self)
  then have "Resolve x c k deps pr w = (((length sources, length sources - length miss, 0),
      Some (missing_error x (map DependencyNode miss))), w2)"
    using assms(2-6) by (simp add: Resolve_def get_or_create_def Let_def)
  moreover have "view w2 = Some (pkgs @ [mk_self x k pr ref sources])"
    using client_okD(5) [OF assms(1) assms(6)] .
  ultimately show ?thesis
    using names_first_text [OF assms(11), of "map ?say miss" 3]
    by (simp add: missing_error_def NDependenciesAndSomeMore_def comp_def)
qed

lemma concat_names: "names_first_n (\<lambda>n. concat)"
  unfolding names_first_n_def
proof (intro allI exI conjI)
  fix n and names :: "string list"
  have "mset names = mset (take n names) + mset (drop n names)" by (metis append_take_drop_id mset_append)
  then show "mset (take n names) \<subseteq># mset names" by simp
  show "length (take n names) = min n (length names)" by simp
  show "\<forall>s \<in> set (take n names). sublist s (concat names)"
    by (metis concat.simps(2) concat_append in_set_takeD split_list sublist_appendI)
qed

theorem Resolve_missing_witness:
  "Resolve toy_externals store_client provider_kind [needs ''b'', needs ''c''] rev_a
     (Some [mk_pkg ''b'' ''v1'' []]) =
     (((2, 1, 0), Some (Errorf ''missing dependencies: %+v'' [describe (DependencyNode (mk_dep ''c'' ''v1''))])),
      Some [mk_pkg ''b'' ''v1'' [],
        mk_self toy_externals provider_kind rev_a ''a'' [mk_dep ''b'' ''v1'', mk_dep ''c'' ''v1'']])"
proof -
  have "lock_dependencies [needs ''b'', needs ''c''] =
      Inr [mk_dep ''b'' ''v1'', mk_dep ''c'' ''v1'']"
    by (simp add: lock_dependency_def needs_def mk_dep_def)
  from Resolve_missing [OF store_client_ok _ this, of rev_a toy_externals "''a''"
      "Some [mk_pkg ''b'' ''v1'' []]" "[mk_pkg ''b'' ''v1'' []]" "Some [mk_pkg ''b'' ''v1'' []]"
      provider_kind "Some [mk_pkg ''b'' ''v1'' [],
        mk_self toy_externals provider_kind rev_a ''a'' [mk_dep ''b'' ''v1'', mk_dep ''c'' ''v1'']]"
      "[mk_dep ''c'' ''v1'']"] concat_names
  show ?thesis
    by (simp add: toy_defs mk_pkg_def mk_dep_def lock_deps_def)
qed

section \<open>Leaving the lock\<close>

text \<open>
  \<^verbatim>\<open>RemoveSelf\<close> removes from the lock the first package with the revision's name and keeps
  every other one in its order; a lock without such a package, or no lock at all, is left as it
  is; and when a call to the API server fails, nothing has changed.
\<close>

theorem RemoveSelf_lock:
  assumes "client_ok c view" "RemoveSelf c pr w = (e, w')"
  shows "case e of
      Some _ \<Rightarrow> view w' = view w
    | None \<Rightarrow>
        (case view w of
           None \<Rightarrow> view w' = None
         | Some pkgs \<Rightarrow>
             (case find (\<lambda>p. lp_Name p = rv_Name pr) pkgs of
                None \<Rightarrow> view w' = Some pkgs
              | Some p \<Rightarrow> \<exists>xs ys. pkgs = xs @ p # ys \<and> rv_Name pr \<notin> lp_Name ` set xs \<and>
                  view w' = Some (xs @ ys)))"
proof (cases "e = None \<and> view w \<noteq> None")
  case False
  then show ?thesis
    using RemoveSelf_view [OF assms] by (cases e) auto
next
  case True
  then obtain pkgs where pkgs: "view w = Some pkgs" and e: "e = None" by auto
  have w': "view w' = Some (without_first (rv_Name pr) pkgs)"
    using RemoveSelf_view [OF assms] pkgs e by simp
  show ?thesis
  proof (cases "find (\<lambda>p. lp_Name p = rv_Name pr) pkgs")
    case None
    then have "without_first (rv_Name pr) pkgs = pkgs"
      by (intro without_first_absent) (simp add: find_None_iff)
    with w' pkgs e None show ?thesis by simp
  next
    case (Some p)
    let ?P = "\<lambda>q. lp_Name q \<noteq> rv_Name pr"
    from Some have "dropWhile ?P pkgs = p # drop 1 (dropWhile ?P pkgs)"
      by (induction pkgs) (auto split: if_splits)
    then have "pkgs = takeWhile ?P pkgs @ p # drop 1 (dropWhile ?P pkgs)"
      by (metis takeWhile_dropWhile_id)
    moreover have "rv_Name pr \<notin> lp_Name ` set (takeWhile ?P pkgs)"
      by (auto dest: set_takeWhileD)
    ultimately show ?thesis
      using w' pkgs e Some by (auto simp: without_first_def)
  qed
qed

theorem RemoveSelf_lock_witness:
  "snd (RemoveSelf store_client rev_a
     (Some [mk_pkg ''b'' ''v1'' [], mk_pkg ''a'' ''v1'' [], mk_pkg ''a'' ''v2'' []])) =
   Some [mk_pkg ''b'' ''v1'' [], mk_pkg ''a'' ''v2'' []]"
proof -
  let ?l = "[mk_pkg ''b'' ''v1'' [], mk_pkg ''a'' ''v1'' [], mk_pkg ''a'' ''v2'' []]"
  obtain w' where r: "RemoveSelf store_client rev_a (Some ?l) = (None, w')"
    by (simp add: RemoveSelf_def toy_defs mk_pkg_def)
  have f: "find (\<lambda>p. lp_Name p = rv_Name rev_a) ?l = Some (mk_pkg ''a'' ''v1'' [])"
    by (simp add: mk_pkg_def rev_a_def)
  from RemoveSelf_lock [OF store_client_ok r] f obtain xs ys where
    x: "?l = xs @ mk_pkg ''a'' ''v1'' [] # ys" "rv_Name rev_a \<notin> lp_Name ` set xs" "w' = Some (xs @ ys)"
    by auto
  from x(1,2) have "xs = [mk_pkg ''b'' ''v1'' []]"
    by (auto simp: Cons_eq_append_conv append_eq_Cons_conv mk_pkg_def rev_a_def)
  with x r show ?thesis by simp
qed

end
