(* ===== verification/Lifecycle.thy ===== *)
theory Lifecycle
  imports Conditions
begin

text \<open>
  The life cycle of Operations, \<^verbatim>\<open>internal/ops/lifecycle/operations.go\<close> with the types of
  \<^verbatim>\<open>apis/ops/v1alpha1\<close>: the latest times, the operations to delete, and the API calls the
  controllers of operations share.
\<close>

section \<open>Operations\<close>

record selector_requirement =
  rr_RequirementName :: string
  rr_APIVersion :: string
  rr_Kind :: string
  rr_Name :: "string option"
  rr_Namespace :: "string option"

text \<open>A step of a pipeline and the rest of it, of no concern here, as \<open>'r\<close>; no requirements are \<open>None\<close>.\<close>

record 'r pipeline_step =
  ps_RequiredResources :: "selector_requirement list option"
  ps_Rest :: 'r

record 'r operation_spec =
  os_Pipeline :: "'r pipeline_step list"
  os_Rest :: 'r

record owner_reference =
  ow_APIVersion :: string
  ow_Kind :: string
  ow_Name :: string
  ow_UID :: string

record object_meta =
  om_Name :: string
  om_Labels :: "(string, string) gomap"
  om_Annotations :: "(string, string) gomap"
  om_Owners :: "owner_reference list"
  om_Created :: go_time

record 'r operation =
  op_Meta :: object_meta
  op_Spec :: "'r operation_spec"
  op_Conditions :: "condition list"

abbreviation op_Name :: "'r operation \<Rightarrow> string" where "op_Name op \<equiv> om_Name (op_Meta op)"
abbreviation op_Created :: "'r operation \<Rightarrow> go_time" where "op_Created op \<equiv> om_Created (op_Meta op)"

record 'r template =
  tm_Meta :: object_meta
  tm_Spec :: "'r operation_spec"

definition TypeSucceeded :: string where "TypeSucceeded = ''Succeeded''"
definition ReasonPipelineRunning :: string where "ReasonPipelineRunning = ''PipelineRunning''"
definition ReasonPipelineSuccess :: string where "ReasonPipelineSuccess = ''PipelineSuccess''"

definition succeeded :: "'r operation \<Rightarrow> condition" where
  "succeeded op = GetCondition (op_Conditions op) TypeSucceeded"

definition IsComplete :: "'r operation \<Rightarrow> bool" where
  "IsComplete op \<longleftrightarrow>
     c_Status (succeeded op) = ConditionTrue \<or> c_Status (succeeded op) = ConditionFalse"

section \<open>Times and reasons\<close>

definition LatestCreateTime :: "'r operation list \<Rightarrow> go_time" where
  "LatestCreateTime ops =
     fold (\<lambda>op latest. if op_Created op > latest then op_Created op else latest) ops zero_time"

definition LatestSucceededTransitionTime :: "'r operation list \<Rightarrow> go_time" where
  "LatestSucceededTransitionTime ops =
     fold (\<lambda>op latest. if c_LastTransitionTime (succeeded op) > latest
                       then c_LastTransitionTime (succeeded op) else latest) ops zero_time"

definition WithReason :: "string \<Rightarrow> 'r operation list \<Rightarrow> 'r operation list" where
  "WithReason r ops = filter (\<lambda>op. c_Reason (succeeded op) = r) ops"

section \<open>Garbage\<close>

text \<open>
  \<^verbatim>\<open>slices.SortFunc\<close> sorts the slice in place, latest first, and is not stable: the sort is the
  argument \<open>sortf\<close>, any function that answers a permutation sorted that way. The sorted slice
  is what the caller iterates over afterwards, so it is returned.
\<close>

type_synonym 'r sort_func = "'r operation list \<Rightarrow> 'r operation list"

definition sorts_latest_first :: "'r sort_func \<Rightarrow> bool" where
  "sorts_latest_first sortf \<longleftrightarrow>
     (\<forall>ops. mset (sortf ops) = mset ops \<and> sorted_wrt (\<lambda>a b. op_Created b \<le> op_Created a) (sortf ops))"

fun mark_loop :: "int \<Rightarrow> int \<Rightarrow> int \<Rightarrow> int \<Rightarrow> 'r operation list \<Rightarrow> 'r operation list" where
  "mark_loop keepSucceeded keepFailed keptSucceeded keptFailed [] = []"
| "mark_loop keepSucceeded keepFailed keptSucceeded keptFailed (op # ops) =
     (if c_Status (succeeded op) = ConditionTrue then
        if keptSucceeded < keepSucceeded
        then mark_loop keepSucceeded keepFailed (keptSucceeded + 1) keptFailed ops
        else op # mark_loop keepSucceeded keepFailed keptSucceeded keptFailed ops
      else if c_Status (succeeded op) = ConditionFalse then
        if keptFailed < keepFailed
        then mark_loop keepSucceeded keepFailed keptSucceeded (keptFailed + 1) ops
        else op # mark_loop keepSucceeded keepFailed keptSucceeded keptFailed ops
      else mark_loop keepSucceeded keepFailed keptSucceeded keptFailed ops)"

definition MarkGarbage ::
  "'r sort_func \<Rightarrow> int \<Rightarrow> int \<Rightarrow> 'r operation list \<Rightarrow> 'r operation list \<times> 'r operation list" where
  "MarkGarbage sortf keepSucceeded keepFailed ops =
     (mark_loop keepSucceeded keepFailed 0 0 (sortf ops), sortf ops)"

text \<open>A \<^verbatim>\<open>RunningOperationRef\<close> holds a name and nothing else.\<close>

definition RunningOperationRefs :: "string list \<Rightarrow> string list" where
  "RunningOperationRefs running = running"

section \<open>Calling the API server\<close>

text \<open>
  The client is a parameter: each call returns the next state \<open>'w\<close> of the cluster. \<open>'c\<close> is the
  resource that is reconciled. Events are part of \<open>'w\<close>. \<open>rt_Mark\<close> is what
  \<^verbatim>\<open>conditions.Manager\<close> of the runtime library does to the conditions of a status, and the
  other fields of \<open>runtime\<close> are the helpers of its package \<^verbatim>\<open>meta\<close>.
\<close>

datatype api_error = ApiNotFound | ApiError go_error

fun plain_error :: "api_error \<Rightarrow> go_error" where
  "plain_error ApiNotFound = Errorf ''not found'' []"
| "plain_error (ApiError e) = e"

fun IgnoreNotFound :: "api_error option \<Rightarrow> go_error option" where
  "IgnoreNotFound None = None"
| "IgnoreNotFound (Some ApiNotFound) = None"
| "IgnoreNotFound (Some (ApiError e)) = Some e"

definition wrap_opt :: "go_error option \<Rightarrow> string \<Rightarrow> go_error option" where
  "wrap_opt e msg = map_option (\<lambda>x. Wrap x msg) e"

text \<open>The verb \<^verbatim>\<open>%q\<close> on the name of a resource or a schedule, which hold no quotes.\<close>

definition quote_name :: "string \<Rightarrow> string" where
  "quote_name s = [CHR 0x22] @ s @ [CHR 0x22]"

record ('w, 'r, 'c) ops_client =
  oc_Get :: "string \<Rightarrow> 'w \<Rightarrow> (api_error + 'c) \<times> 'w"
  oc_List :: "string \<Rightarrow> string \<Rightarrow> 'w \<Rightarrow> (go_error + 'r operation list) \<times> 'w"
  oc_Delete :: "'r operation \<Rightarrow> 'w \<Rightarrow> api_error option \<times> 'w"
  oc_Create :: "'r operation \<Rightarrow> 'w \<Rightarrow> go_error option \<times> 'w"
  oc_UpdateStatus :: "'c \<Rightarrow> 'w \<Rightarrow> go_error option \<times> 'w"
  oc_Event :: "string \<Rightarrow> go_error \<Rightarrow> 'w \<Rightarrow> 'w"

record runtime =
  rt_Mark :: "condition list \<Rightarrow> condition list \<Rightarrow> condition list"
  rt_AddLabels :: "(string, string) gomap \<Rightarrow> (string, string) gomap \<Rightarrow> (string, string) gomap"
  rt_AddAnnotations :: "(string, string) gomap \<Rightarrow> (string, string) gomap \<Rightarrow> (string, string) gomap"
  rt_AddController :: "owner_reference \<Rightarrow> owner_reference list \<Rightarrow> owner_reference list"

text \<open>The loops that delete operations stop at the first error other than \<^verbatim>\<open>NotFound\<close>.\<close>

fun delete_all ::
  "('w, 'r, 'c) ops_client \<Rightarrow> 'r operation list \<Rightarrow> 'w \<Rightarrow> ('r operation \<times> go_error) option \<times> 'w" where
  "delete_all c [] w = (None, w)"
| "delete_all c (op # ops) w =
     (case oc_Delete c op w of
        (e, w1) \<Rightarrow>
          (case IgnoreNotFound e of
             Some err \<Rightarrow> (Some (op, err), w1)
           | None \<Rightarrow> delete_all c ops w1))"

text \<open>\<^verbatim>\<open>reconcile.Result\<close> is the duration after which to reconcile again; 0 is none.\<close>

type_synonym result = "duration \<times> go_error option"

section \<open>Correctness\<close>

lemma latest_fold:
  fixes f :: "'a \<Rightarrow> go_time"
  shows "fold (\<lambda>x m. if f x > m then f x else m) xs z = Max (insert z (f ` set xs))"
proof (induction xs arbitrary: z)
  case (Cons x xs)
  then show ?case
    by (cases "xs = []") (auto simp: max_def insert_commute)
qed simp

lemma mark_loop_status:
  "filter (\<lambda>op. c_Status (succeeded op) = ConditionTrue) (mark_loop ks kf s f ops) =
     drop (nat (ks - s)) (filter (\<lambda>op. c_Status (succeeded op) = ConditionTrue) ops) \<and>
   filter (\<lambda>op. c_Status (succeeded op) = ConditionFalse) (mark_loop ks kf s f ops) =
     drop (nat (kf - f)) (filter (\<lambda>op. c_Status (succeeded op) = ConditionFalse) ops)"
proof (induction ks kf s f ops rule: mark_loop.induct)
  case (2 ks kf s f op ops)
  have n: "nat (k - i) = Suc (nat (k - (i + 1)))" if "i < k" for k i :: int
    using that by simp
  show ?case
    using 2 n [of s ks] n [of f kf] by simp
qed simp

lemma mark_loop_complete: "op \<in> set (mark_loop ks kf s f ops) \<Longrightarrow> op \<in> set ops \<and> IsComplete op"
  by (induction ks kf s f ops rule: mark_loop.induct) (auto simp: IsComplete_def split: if_splits)

lemma sorted_take_drop:
  assumes "sorted_wrt R xs" "x \<in> set (take n xs)" "y \<in> set (drop n xs)"
  shows "R x y"
  using assms by (metis append_take_drop_id sorted_wrt_append)

text \<open>
  Whatever order the sort leaves among operations created at the same instant, the garbage
  holds only completed operations; it holds all the succeeded ones but the limit's number, and
  all the failed ones but the limit's number (none are kept for a limit below 1); and no deleted
  operation is newer than a kept one with the same outcome.
\<close>

theorem MarkGarbage_keeps_newest:
  assumes "sorts_latest_first sortf" "MarkGarbage sortf ks kf ops = (garbage, ops')"
    "st = ConditionTrue \<and> n = nat ks \<or> st = ConditionFalse \<and> n = nat kf"
  shows "mset ops' = mset ops \<and> (\<forall>op \<in> set garbage. op \<in> set ops \<and> IsComplete op) \<and>
    filter (\<lambda>op. c_Status (succeeded op) = st) garbage =
      drop n (filter (\<lambda>op. c_Status (succeeded op) = st) ops') \<and>
    (\<forall>old \<in> set (drop n (filter (\<lambda>op. c_Status (succeeded op) = st) ops')).
       \<forall>new \<in> set (take n (filter (\<lambda>op. c_Status (succeeded op) = st) ops')).
         op_Created old \<le> op_Created new)"
proof -
  have g: "garbage = mark_loop ks kf 0 0 (sortf ops)" "ops' = sortf ops"
    using assms(2) by (auto simp: MarkGarbage_def)
  have s: "mset (sortf ops) = mset ops" "sorted_wrt (\<lambda>a b. op_Created b \<le> op_Created a) (sortf ops)"
    using assms(1) by (simp_all add: sorts_latest_first_def)
  have "sorted_wrt (\<lambda>a b. op_Created b \<le> op_Created a)
      (filter (\<lambda>op. c_Status (succeeded op) = st) (sortf ops))"
    using s(2) by (rule sorted_wrt_filter)
  note order = sorted_take_drop [OF this]
  have "\<forall>old \<in> set (drop n (filter (\<lambda>op. c_Status (succeeded op) = st) ops')).
       \<forall>new \<in> set (take n (filter (\<lambda>op. c_Status (succeeded op) = st) ops')).
         op_Created old \<le> op_Created new"
    unfolding g(2) by (intro ballI) (rule order)
  moreover have "filter (\<lambda>op. c_Status (succeeded op) = st) garbage =
      drop n (filter (\<lambda>op. c_Status (succeeded op) = st) ops')"
    using assms(3) mark_loop_status [of ks kf 0 0 "sortf ops"] by (auto simp: g)
  moreover have "\<forall>op \<in> set garbage. op \<in> set ops \<and> IsComplete op"
    using mark_loop_complete g s(1) by (metis mset_eq_setD)
  ultimately show ?thesis
    using s(1) g(2) by blast
qed

text \<open>A stable sort is one of the sorts \<^verbatim>\<open>slices.SortFunc\<close> may be.\<close>

definition stable_sort :: "'r sort_func" where
  "stable_sort ops = sort_key (\<lambda>op. - op_Created op) ops"

lemma stable_sort_ok: "sorts_latest_first (stable_sort :: 'r sort_func)"
proof -
  have "sorted_wrt (\<lambda>a b. op_Created b \<le> op_Created a) (stable_sort ops)" for ops :: "'r operation list"
    using sorted_sort_key [of "\<lambda>op. - op_Created op" ops] by (simp add: stable_sort_def sorted_map)
  then show ?thesis
    by (simp add: sorts_latest_first_def stable_sort_def)
qed

definition mk_meta :: "string \<Rightarrow> go_time \<Rightarrow> object_meta" where
  "mk_meta n t =
     \<lparr>om_Name = n, om_Labels = [], om_Annotations = [], om_Owners = [], om_Created = t\<rparr>"

definition mk_op :: "string \<Rightarrow> go_time \<Rightarrow> condition_status \<Rightarrow> string \<Rightarrow> unit operation" where
  "mk_op n t st r =
     \<lparr>op_Meta = mk_meta n t, op_Spec = \<lparr>os_Pipeline = [], os_Rest = ()\<rparr>,
      op_Conditions = [mk_condition TypeSucceeded st r t]\<rparr>"

theorem MarkGarbage_keeps_newest_witness:
  "filter (\<lambda>op. c_Status (succeeded op) = ConditionTrue)
     (fst (MarkGarbage stable_sort 1 1 [mk_op ''a'' 1 ConditionTrue [], mk_op ''b'' 2 ConditionTrue []])) =
   drop 1 (filter (\<lambda>op. c_Status (succeeded op) = ConditionTrue)
     (snd (MarkGarbage stable_sort 1 1 [mk_op ''a'' 1 ConditionTrue [], mk_op ''b'' 2 ConditionTrue []])))"
  by (rule MarkGarbage_keeps_newest [OF stable_sort_ok _ _, of 1 1 _ _ _ ConditionTrue 1,
        THEN conjunct2, THEN conjunct2, THEN conjunct1]) simp_all

end
