(* ===== verification/WatchOperation.thy ===== *)
theory WatchOperation
  imports Lifecycle Tracker
begin

text \<open>
  WatchOperations: the controller that starts a watch for each of them
  (\<^verbatim>\<open>internal/controller/ops/watchoperation\<close>, \<^verbatim>\<open>reconciler.go\<close> and \<^verbatim>\<open>watch.go\<close>) and the controller that
  creates an Operation when a watched resource changes
  (\<^verbatim>\<open>internal/controller/ops/watched/reconciler.go\<close>). The controller engine, the finalizer, the
  hash and the printed time are parameters.
\<close>

record 'r watch_operation =
  wo_Name :: string
  wo_UID :: string
  wo_WasDeleted :: bool
  wo_IsPaused :: bool
  wo_APIVersion :: string
  wo_Kind :: string
  wo_Namespace :: string
  wo_MatchLabels :: labels
  wo_ConcurrencyPolicy :: "string option"
  wo_SuccessfulHistoryLimit :: "int option"
  wo_FailedHistoryLimit :: "int option"
  wo_Template :: "'r template"
  wo_Conditions :: "condition list"
  wo_RunningOperationRefs :: "string list"
  wo_WatchingResources :: int
  wo_LastScheduleTime :: "go_time option"
  wo_LastSuccessfulTime :: "go_time option"

record watched_resource =
  wr_GVK :: gvk
  wr_APIVersion :: string
  wr_Namespace :: string
  wr_Name :: string
  wr_UID :: string
  wr_ResourceVersion :: string
  wr_DeletionTimestamp :: "go_time option"
  wr_Labels :: labels

definition LabelWatchOperationName :: string where
  "LabelWatchOperationName = ''ops.crossplane.io/watchoperation''"

section \<open>Which changes are of interest\<close>

definition watch_requests :: "'r watch_operation \<Rightarrow> watched_resource \<Rightarrow> (string \<times> string) list" where
  "watch_requests wo u =
     (if wo_Namespace wo \<noteq> [] \<and> wr_Namespace u \<noteq> [] \<and> wr_Namespace u \<noteq> wo_Namespace wo then []
      else if wo_MatchLabels wo \<noteq> [] \<and>
              \<not> selector_Matches (SelectorFromSet (wo_MatchLabels wo)) (wr_Labels u) then []
      else [(wr_Namespace u, wr_Name u)])"

section \<open>The operation for a change\<close>

record naming =
  nm_SHA256 :: "string \<Rightarrow> string"
  nm_RFC3339 :: "go_time \<Rightarrow> string"

definition gvk_String :: "gvk \<Rightarrow> string" where
  "gvk_String g = gvk_Group g @ ''/'' @ gvk_Version g @ '', Kind='' @ gvk_Kind g"

definition OperationName :: "naming \<Rightarrow> 'r watch_operation \<Rightarrow> watched_resource \<Rightarrow> string" where
  "OperationName nm wo u =
     (let s = gvk_String (wr_GVK u) @ ''/'' @ wr_Namespace u @ ''/'' @ wr_Name u @ ''/'' @ wr_UID u @
              ''/'' @ wr_ResourceVersion u;
          s = (case wr_DeletionTimestamp u of None \<Rightarrow> s | Some t \<Rightarrow> s @ ''/'' @ nm_RFC3339 nm t)
      in wo_Name wo @ ''-'' @ take 7 (nm_SHA256 nm s))"

definition watched_selector :: "watched_resource \<Rightarrow> selector_requirement" where
  "watched_selector u =
     \<lparr>rr_RequirementName = ''ops.crossplane.io/watched-resource'', rr_APIVersion = wr_APIVersion u,
      rr_Kind = gvk_Kind (wr_GVK u), rr_Name = Some (wr_Name u),
      rr_Namespace = (if wr_Namespace u \<noteq> [] then Some (wr_Namespace u) else None)\<rparr>"

definition inject_selector :: "selector_requirement \<Rightarrow> 'r pipeline_step \<Rightarrow> 'r pipeline_step" where
  "inject_selector sel step =
     step\<lparr>ps_RequiredResources :=
            Some ((case ps_RequiredResources step of None \<Rightarrow> [] | Some rs \<Rightarrow> rs) @ [sel])\<rparr>"

definition watched_annotations :: "watched_resource \<Rightarrow> (string, string) gomap" where
  "watched_annotations u =
     (let as = [(''ops.crossplane.io/watched-resource-apiversion'', wr_APIVersion u),
                (''ops.crossplane.io/watched-resource-kind'', gvk_Kind (wr_GVK u)),
                (''ops.crossplane.io/watched-resource-name'', wr_Name u),
                (''ops.crossplane.io/watched-resource-resourceversion'', wr_ResourceVersion u)]
      in if wr_Namespace u \<noteq> []
         then put ''ops.crossplane.io/watched-resource-namespace'' (wr_Namespace u) as else as)"

definition watched_NewOperation ::
  "runtime \<Rightarrow> 'r watch_operation \<Rightarrow> watched_resource \<Rightarrow> string \<Rightarrow> 'r operation" where
  "watched_NewOperation rt wo u name =
     (let m = tm_Meta (wo_Template wo); spec = tm_Spec (wo_Template wo) in
      \<lparr>op_Meta = m\<lparr>om_Name := name,
                  om_Labels := rt_AddLabels rt (om_Labels m) [(LabelWatchOperationName, wo_Name wo)],
                  om_Annotations := rt_AddAnnotations rt (om_Annotations m) (watched_annotations u),
                  om_Owners := rt_AddController rt
                     \<lparr>ow_APIVersion = ''ops.crossplane.io/v1alpha1'', ow_Kind = ''WatchOperation'',
                      ow_Name = wo_Name wo, ow_UID = wo_UID wo\<rparr> (om_Owners m)\<rparr>,
       op_Spec = spec\<lparr>os_Pipeline := map (inject_selector (watched_selector u)) (os_Pipeline spec)\<rparr>,
       op_Conditions = []\<rparr>)"

section \<open>Reconciling a watched resource\<close>

text \<open>A resource that is gone stands for its deletion.\<close>

definition synthetic :: "gvk \<Rightarrow> string \<Rightarrow> string \<Rightarrow> string \<Rightarrow> go_time \<Rightarrow> watched_resource" where
  "synthetic g apiv ns name now =
     \<lparr>wr_GVK = g, wr_APIVersion = apiv, wr_Namespace = ns, wr_Name = name, wr_UID = [],
      wr_ResourceVersion = ''ops.crossplane.io/synthetic-deleted'',
      wr_DeletionTimestamp = Some now, wr_Labels = []\<rparr>"

definition watched_fail ::
  "('w, 'r, 'c) ops_client \<Rightarrow> string \<Rightarrow> go_error \<Rightarrow> 'w \<Rightarrow> result \<times> 'w" where
  "watched_fail c reason err w = ((0, Some err), oc_Event c reason err w)"

definition watched_create ::
  "runtime \<Rightarrow> naming \<Rightarrow> ('w, 'r, 'r watch_operation) ops_client \<Rightarrow> 'r watch_operation \<Rightarrow>
     watched_resource \<Rightarrow> 'r operation list \<Rightarrow> 'w \<Rightarrow> result \<times> 'w" where
  "watched_create rt nm c wo u ops w =
     (let name = OperationName nm wo u in
      if list_ex (\<lambda>op. op_Name op = name) ops then ((0, None), w)
      else (case oc_Create c (watched_NewOperation rt wo u name) w of
              (Some e, w1) \<Rightarrow>
                watched_fail c ''CreateOperation''
                  (Wrap e (''cannot create Operation '' @ quote_name name)) w1
            | (None, w1) \<Rightarrow> ((0, None), w1)))"

definition running_ops :: "'r operation list \<Rightarrow> 'r operation list" where
  "running_ops ops =
     filter (\<lambda>op. op_Name op \<in> set (map op_Name (WithReason ReasonPipelineRunning ops))) ops"

definition watched_run ::
  "runtime \<Rightarrow> naming \<Rightarrow> ('w, 'r, 'r watch_operation) ops_client \<Rightarrow> 'r watch_operation \<Rightarrow>
     watched_resource \<Rightarrow> 'r operation list \<Rightarrow> 'w \<Rightarrow> result \<times> 'w" where
  "watched_run rt nm c wo u ops w =
     (if WithReason ReasonPipelineRunning ops \<noteq> [] then
        (let p = (case wo_ConcurrencyPolicy wo of Some p \<Rightarrow> p | None \<Rightarrow> ''Allow'') in
         if p = ''Allow'' then watched_create rt nm c wo u ops w
         else if p = ''Forbid'' then ((0, None), w)
         else if p = ''Replace'' then
           (case delete_all c (running_ops ops) w of
              (Some (op, e), w1) \<Rightarrow>
                watched_fail c ''ReplaceRunningOperation''
                  (Wrap e (''cannot delete running Operation '' @ quote_name (op_Name op))) w1
            | (None, w1) \<Rightarrow> watched_create rt nm c wo u ops w1)
         else watched_create rt nm c wo u ops w)
      else watched_create rt nm c wo u ops w)"

text \<open>\<open>get\<close> reads the watched resource that triggered the call.\<close>

definition watched_Reconcile ::
  "runtime \<Rightarrow> naming \<Rightarrow> (string \<Rightarrow> string \<Rightarrow> 'w \<Rightarrow> (api_error + watched_resource) \<times> 'w) \<Rightarrow>
     ('w, 'r, 'r watch_operation) ops_client \<Rightarrow> gvk \<Rightarrow> string \<Rightarrow> string \<Rightarrow> go_time \<Rightarrow>
     string \<Rightarrow> string \<Rightarrow> 'w \<Rightarrow> result \<times> 'w" where
  "watched_Reconcile rt nm get c g apiv watchOpName now ns name w =
     (case get ns name w of
        (Inl (ApiError e), w1) \<Rightarrow> ((0, Some (Wrap e ''cannot get watched resource'')), w1)
      | (r, w1) \<Rightarrow>
          (let u = (case r of Inr u \<Rightarrow> u | Inl _ \<Rightarrow> synthetic g apiv ns name now) in
           case oc_Get c watchOpName w1 of
             (Inl e, w2) \<Rightarrow>
               ((0, wrap_opt (IgnoreNotFound (Some e)) ''cannot get WatchOperation''), w2)
           | (Inr wo, w2) \<Rightarrow>
               if wo_IsPaused wo then ((0, None), w2)
               else if wo_WasDeleted wo then ((0, None), w2)
               else
                 (case oc_List c LabelWatchOperationName (wo_Name wo) w2 of
                    (Inl e, w3) \<Rightarrow>
                      watched_fail c ''ListOperations'' (Wrap e ''cannot list Operations'') w3
                  | (Inr ops, w3) \<Rightarrow> watched_run rt nm c wo u ops w3)))"

section \<open>Reconciling a WatchOperation\<close>

text \<open>The engine that runs the controllers, the finalizer, and the count of the watched resources.\<close>

record ('w, 'r) watch_engine =
  we_Stop :: "string \<Rightarrow> 'w \<Rightarrow> go_error option \<times> 'w"
  we_Start :: "string \<Rightarrow> 'r watch_operation \<Rightarrow> 'w \<Rightarrow> go_error option \<times> 'w"
  we_StartWatches :: "string \<Rightarrow> 'r watch_operation \<Rightarrow> 'w \<Rightarrow> go_error option \<times> 'w"
  we_AddFinalizer :: "'r watch_operation \<Rightarrow> 'w \<Rightarrow> go_error option \<times> 'w"
  we_RemoveFinalizer :: "'r watch_operation \<Rightarrow> 'w \<Rightarrow> go_error option \<times> 'w"
  we_ListWatched :: "string \<Rightarrow> string \<Rightarrow> string \<Rightarrow> labels \<Rightarrow> 'w \<Rightarrow> (go_error + nat) \<times> 'w"

definition WatchActive :: "go_time \<Rightarrow> condition" where
  "WatchActive = mk_condition ''Watching'' ConditionTrue ''WatchActive''"
definition WatchPaused :: "go_time \<Rightarrow> condition" where
  "WatchPaused = mk_condition ''Watching'' ConditionFalse ''WatchPaused''"
definition WatchFailed :: "string \<Rightarrow> go_time \<Rightarrow> condition" where
  "WatchFailed msg now =
     (mk_condition ''Watching'' ConditionFalse ''WatchFailed'' now)\<lparr>c_Message := msg\<rparr>"

definition WatchedControllerName :: "string \<Rightarrow> string" where
  "WatchedControllerName name = ''watched/'' @ name"

definition wo_mark :: "runtime \<Rightarrow> condition list \<Rightarrow> 'r watch_operation \<Rightarrow> 'r watch_operation" where
  "wo_mark rt cs wo = wo\<lparr>wo_Conditions := rt_Mark rt (wo_Conditions wo) cs\<rparr>"

definition wo_finish ::
  "('w, 'r, 'r watch_operation) ops_client \<Rightarrow> 'r watch_operation \<Rightarrow> 'w \<Rightarrow> result \<times> 'w" where
  "wo_finish c wo w =
     (case oc_UpdateStatus c wo w of
        (e, w1) \<Rightarrow> ((0, wrap_opt e ''cannot update status of WatchOperation''), w1))"

definition wo_fail ::
  "runtime \<Rightarrow> ('w, 'r, 'r watch_operation) ops_client \<Rightarrow> condition list \<Rightarrow> string \<Rightarrow> go_error \<Rightarrow>
     go_time \<Rightarrow> 'r watch_operation \<Rightarrow> 'w \<Rightarrow> result \<times> 'w" where
  "wo_fail rt c cs reason err now wo w =
     (case oc_UpdateStatus c (wo_mark rt (cs @ [ReconcileError err now]) wo) (oc_Event c reason err w) of
        (_, w1) \<Rightarrow> ((0, Some err), w1))"

definition wo_delete ::
  "runtime \<Rightarrow> ('w, 'r, 'r watch_operation) ops_client \<Rightarrow> ('w, 'r) watch_engine \<Rightarrow> go_time \<Rightarrow>
     'r watch_operation \<Rightarrow> 'w \<Rightarrow> result \<times> 'w" where
  "wo_delete rt c en now wo w =
     (case we_Stop en (WatchedControllerName (wo_Name wo)) w of
        (Some e, w1) \<Rightarrow>
          wo_fail rt c [] ''TerminateWatched'' (Wrap e ''cannot stop watched resource controller'') now wo w1
      | (None, w1) \<Rightarrow>
          (case we_RemoveFinalizer en wo w1 of
             (Some e, w2) \<Rightarrow>
               wo_fail rt c [] ''TerminateWatched'' (Wrap e ''cannot remove watched resource finalizer'') now wo w2
           | (None, w2) \<Rightarrow> ((0, None), w2)))"

definition wo_observe :: "'r operation list \<Rightarrow> 'r watch_operation \<Rightarrow> 'r watch_operation" where
  "wo_observe ops wo =
     (let t = LatestCreateTime ops;
          s = LatestSucceededTransitionTime (WithReason ReasonPipelineSuccess ops)
      in wo\<lparr>wo_LastScheduleTime := (if t \<noteq> zero_time then Some t else wo_LastScheduleTime wo),
            wo_LastSuccessfulTime := (if s \<noteq> zero_time then Some s else wo_LastSuccessfulTime wo)\<rparr>)"

definition wo_count ::
  "('w, 'r) watch_engine \<Rightarrow> 'r watch_operation \<Rightarrow> 'w \<Rightarrow> 'r watch_operation \<times> 'w" where
  "wo_count en wo w =
     (case we_ListWatched en (wo_APIVersion wo) (wo_Kind wo) (wo_Namespace wo) (wo_MatchLabels wo) w of
        (Inr n, w1) \<Rightarrow> (wo\<lparr>wo_WatchingResources := int n\<rparr>, w1)
      | (Inl _, w1) \<Rightarrow> (wo, w1))"

definition wo_start ::
  "runtime \<Rightarrow> ('w, 'r, 'r watch_operation) ops_client \<Rightarrow> ('w, 'r) watch_engine \<Rightarrow> go_time \<Rightarrow>
     'r watch_operation \<Rightarrow> 'w \<Rightarrow> result \<times> 'w" where
  "wo_start rt c en now wo w =
     (let name = WatchedControllerName (wo_Name wo) in
      case we_Start en name wo w of
        (Some e, w1) \<Rightarrow>
          (let err = Wrap e ''cannot start watched resource controller'' in
           wo_fail rt c [WatchFailed (error_text err) now] ''EstablishWatched'' err now wo w1)
      | (None, w1) \<Rightarrow>
          (case we_StartWatches en name wo w1 of
             (Some e, w2) \<Rightarrow>
               (let err = Wrap e ''cannot start watched resource controller watches'' in
                wo_fail rt c [WatchFailed (error_text err) now] ''EstablishWatched'' err now wo w2)
           | (None, w2) \<Rightarrow> wo_finish c (wo_mark rt [WatchActive now, ReconcileSuccess now] wo) w2))"

definition wo_live ::
  "runtime \<Rightarrow> 'r sort_func \<Rightarrow> ('w, 'r, 'r watch_operation) ops_client \<Rightarrow> ('w, 'r) watch_engine \<Rightarrow>
     go_time \<Rightarrow> 'r watch_operation \<Rightarrow> 'w \<Rightarrow> result \<times> 'w" where
  "wo_live rt sortf c en now wo w =
     (case oc_List c LabelWatchOperationName (wo_Name wo) w of
        (Inl e, w1) \<Rightarrow>
          wo_fail rt c [] ''EstablishWatched'' (Wrap e ''cannot list Operations'') now wo w1
      | (Inr ops, w1) \<Rightarrow>
          (let (wo1, w2) = wo_count en (wo_observe ops wo) w1;
               (garbage, ops1) = MarkGarbage sortf
                  (case wo_SuccessfulHistoryLimit wo of None \<Rightarrow> 3 | Some k \<Rightarrow> k)
                  (case wo_FailedHistoryLimit wo of None \<Rightarrow> 1 | Some k \<Rightarrow> k) ops
           in case delete_all c garbage w2 of
                (Some (op, e), w3) \<Rightarrow>
                  wo_fail rt c [] ''GarbageCollectOperations''
                    (Wrap e (''cannot garbage collect Operation '' @ quote_name (op_Name op))) now wo1 w3
              | (None, w3) \<Rightarrow>
                  wo_start rt c en now
                    (wo1\<lparr>wo_RunningOperationRefs :=
                           RunningOperationRefs (map op_Name (WithReason ReasonPipelineRunning ops1))\<rparr>) w3))"

definition wo_Reconcile ::
  "runtime \<Rightarrow> 'r sort_func \<Rightarrow> ('w, 'r, 'r watch_operation) ops_client \<Rightarrow> ('w, 'r) watch_engine \<Rightarrow>
     go_time \<Rightarrow> string \<Rightarrow> 'w \<Rightarrow> result \<times> 'w" where
  "wo_Reconcile rt sortf c en now name w =
     (case oc_Get c name w of
        (Inl e, w1) \<Rightarrow> ((0, wrap_opt (IgnoreNotFound (Some e)) ''cannot get WatchOperation''), w1)
      | (Inr wo, w1) \<Rightarrow>
          if wo_WasDeleted wo then wo_delete rt c en now wo w1
          else
            (case we_AddFinalizer en wo w1 of
               (Some e, w2) \<Rightarrow>
                 wo_fail rt c [] ''EstablishWatched'' (Wrap e ''cannot add watched resource finalizer'') now wo w2
             | (None, w2) \<Rightarrow>
                 if wo_IsPaused wo
                 then wo_finish c (wo_mark rt [WatchPaused now, ReconcilePaused now] wo) w2
                 else wo_live rt sortf c en now wo w2))"

end
