(* ===== verification/CronOperation.thy ===== *)
theory CronOperation
  imports Lifecycle
begin

text \<open>
  The CronOperation controller, \<^verbatim>\<open>internal/controller/ops/cronoperation/reconciler.go\<close>: one
  \<^verbatim>\<open>Reconcile\<close> with all its early returns. The cron library is the argument \<open>sched\<close>, the clock
  readings of one call are the argument \<open>now\<close>.
\<close>

record 'r cron_operation =
  co_Name :: string
  co_UID :: string
  co_Created :: go_time
  co_WasDeleted :: bool
  co_IsPaused :: bool
  co_Schedule :: string
  co_StartingDeadlineSeconds :: "int option"
  co_ConcurrencyPolicy :: "string option"
  co_SuccessfulHistoryLimit :: "int option"
  co_FailedHistoryLimit :: "int option"
  co_Template :: "'r template"
  co_Conditions :: "condition list"
  co_RunningOperationRefs :: "string list"
  co_LastScheduleTime :: "go_time option"
  co_LastSuccessfulTime :: "go_time option"

type_synonym scheduler = "string \<Rightarrow> go_time \<Rightarrow> go_time \<times> go_error option"

definition LabelCronOperationName :: string where
  "LabelCronOperationName = ''ops.crossplane.io/cronoperation''"

definition SchedulePaused :: "go_time \<Rightarrow> condition" where
  "SchedulePaused = mk_condition ''Scheduling'' ConditionFalse ''SchedulePaused''"
definition ScheduleActive :: "go_time \<Rightarrow> condition" where
  "ScheduleActive = mk_condition ''Scheduling'' ConditionTrue ''ScheduleActive''"
definition ScheduleInvalid :: "string \<Rightarrow> go_time \<Rightarrow> condition" where
  "ScheduleInvalid msg now =
     (mk_condition ''Scheduling'' ConditionFalse ''ScheduleInvalid'' now)\<lparr>c_Message := msg\<rparr>"

definition unix_seconds :: "go_time \<Rightarrow> int" where
  "unix_seconds t = t div 1000000000"

definition cron_NewOperation :: "runtime \<Rightarrow> 'r cron_operation \<Rightarrow> go_time \<Rightarrow> 'r operation" where
  "cron_NewOperation rt co scheduled =
     (let m = tm_Meta (co_Template co) in
      \<lparr>op_Meta = m\<lparr>om_Name := co_Name co @ ''-'' @ itoa (unix_seconds scheduled),
                  om_Labels := rt_AddLabels rt (om_Labels m) [(LabelCronOperationName, co_Name co)],
                  om_Owners := rt_AddController rt
                     \<lparr>ow_APIVersion = ''ops.crossplane.io/v1alpha1'', ow_Kind = ''CronOperation'',
                      ow_Name = co_Name co, ow_UID = co_UID co\<rparr> (om_Owners m)\<rparr>,
       op_Spec = tm_Spec (co_Template co), op_Conditions = []\<rparr>)"

section \<open>Status\<close>

definition cron_mark ::
  "runtime \<Rightarrow> condition list \<Rightarrow> 'r cron_operation \<Rightarrow> 'r cron_operation" where
  "cron_mark rt cs co = co\<lparr>co_Conditions := rt_Mark rt (co_Conditions co) cs\<rparr>"

definition running_names :: "'r operation list \<Rightarrow> string list" where
  "running_names ops = sort (remdups (map op_Name (WithReason ReasonPipelineRunning ops)))"

definition cron_observe :: "'r operation list \<Rightarrow> 'r cron_operation \<Rightarrow> 'r cron_operation" where
  "cron_observe ops co =
     (let t = LatestCreateTime ops;
          s = LatestSucceededTransitionTime (WithReason ReasonPipelineSuccess ops)
      in co\<lparr>co_LastScheduleTime := (if t \<noteq> zero_time then Some t else co_LastScheduleTime co),
            co_LastSuccessfulTime := (if s \<noteq> zero_time then Some s else co_LastSuccessfulTime co),
            co_RunningOperationRefs := RunningOperationRefs (running_names ops)\<rparr>)"

definition last_schedule :: "'r cron_operation \<Rightarrow> go_time" where
  "last_schedule co = (case co_LastScheduleTime co of Some t \<Rightarrow> t | None \<Rightarrow> co_Created co)"

text \<open>The two ways a reconcile ends: with a status update, or with an error after one.\<close>

definition cron_finish ::
  "('w, 'r, 'r cron_operation) ops_client \<Rightarrow> duration \<Rightarrow> 'r cron_operation \<Rightarrow> 'w \<Rightarrow> result \<times> 'w" where
  "cron_finish c q co w =
     (case oc_UpdateStatus c co w of
        (e, w1) \<Rightarrow> ((q, wrap_opt e ''cannot update CronOperation status''), w1))"

definition cron_fail ::
  "runtime \<Rightarrow> ('w, 'r, 'r cron_operation) ops_client \<Rightarrow> go_time \<Rightarrow> string \<Rightarrow> go_error \<Rightarrow>
     'r cron_operation \<Rightarrow> 'w \<Rightarrow> result \<times> 'w" where
  "cron_fail rt c now reason err co w =
     (case oc_UpdateStatus c (cron_mark rt [ReconcileError err now] co) (oc_Event c reason err w) of
        (_, w1) \<Rightarrow> ((0, Some err), w1))"

section \<open>When to run\<close>

datatype due = ScheduleError go_error | NotYet duration | Missed duration | DueAt go_time duration

definition cron_due ::
  "scheduler \<Rightarrow> 'r cron_operation \<Rightarrow> go_time \<Rightarrow> go_time \<Rightarrow> due" where
  "cron_due sched co last_run now =
     (case sched (co_Schedule co) last_run of
        (_, Some err) \<Rightarrow> ScheduleError (Wrap err (''cannot parse cron schedule '' @ quote_name (co_Schedule co)))
      | (nxt, None) \<Rightarrow>
          if nxt > now then NotYet (time_sub nxt now)
          else
            (let future = fst (sched (co_Schedule co) now) in
             case co_StartingDeadlineSeconds co of
               Some deadline \<Rightarrow>
                 if nxt + wrap64 (deadline * 1000000000) < now then Missed (time_sub future now)
                 else DueAt nxt (time_sub future now)
             | None \<Rightarrow> DueAt nxt (time_sub future now)))"

section \<open>Running\<close>

definition cron_create ::
  "runtime \<Rightarrow> ('w, 'r, 'r cron_operation) ops_client \<Rightarrow> go_time \<Rightarrow> 'r cron_operation \<Rightarrow> go_time \<Rightarrow>
     duration \<Rightarrow> 'w \<Rightarrow> result \<times> 'w" where
  "cron_create rt c now co nxt q w =
     (case oc_Create c (cron_NewOperation rt co nxt) w of
        (Some e, w1) \<Rightarrow>
          cron_fail rt c now ''CreateOperation'' 
            (Wrap e (''cannot create scheduled Operation '' @ quote_name (op_Name (cron_NewOperation rt co nxt))))
            co w1
      | (None, w1) \<Rightarrow> cron_finish c q (cron_mark rt [ReconcileSuccess now] co) w1)"

definition cron_run ::
  "runtime \<Rightarrow> ('w, 'r, 'r cron_operation) ops_client \<Rightarrow> go_time \<Rightarrow> 'r cron_operation \<Rightarrow>
     'r operation list \<Rightarrow> string list \<Rightarrow> go_time \<Rightarrow> duration \<Rightarrow> 'w \<Rightarrow> result \<times> 'w" where
  "cron_run rt c now co ops running nxt q w =
     (if running \<noteq> [] then
        (let p = (case co_ConcurrencyPolicy co of Some p \<Rightarrow> p | None \<Rightarrow> ''Allow'') in
         if p = ''Allow'' then cron_create rt c now co nxt q w
         else if p = ''Forbid'' then cron_finish c q co w
         else if p = ''Replace'' then
           (case delete_all c (filter (\<lambda>op. op_Name op \<in> set running) ops) w of
              (Some (op, e), w1) \<Rightarrow>
                cron_fail rt c now ''ReplaceRunningOperation''
                  (Wrap e (''cannot delete running Operation '' @ quote_name (op_Name op))) co w1
            | (None, w1) \<Rightarrow> cron_create rt c now co nxt q w1)
         else cron_create rt c now co nxt q w)
      else cron_create rt c now co nxt q w)"

definition cron_decide ::
  "runtime \<Rightarrow> scheduler \<Rightarrow> ('w, 'r, 'r cron_operation) ops_client \<Rightarrow> go_time \<Rightarrow> 'r cron_operation \<Rightarrow>
     'r operation list \<Rightarrow> 'w \<Rightarrow> result \<times> 'w" where
  "cron_decide rt sched c now co ops w =
     (case cron_due sched co (last_schedule co) now of
        ScheduleError err \<Rightarrow>
          cron_finish c 0 (cron_mark rt [ScheduleInvalid (error_text err) now, ReconcileError err now] co)
            (oc_Event c ''InvalidSchedule'' err w)
      | NotYet q \<Rightarrow> cron_finish c q (cron_mark rt [ScheduleActive now] co) w
      | Missed q \<Rightarrow> cron_finish c q (cron_mark rt [ScheduleActive now] co) w
      | DueAt nxt q \<Rightarrow>
          cron_run rt c now (cron_mark rt [ScheduleActive now] co) ops (co_RunningOperationRefs co)
            nxt q w)"

definition limit :: "int \<Rightarrow> int option \<Rightarrow> int" where
  "limit d l = (case l of None \<Rightarrow> d | Some k \<Rightarrow> k)"

definition cron_live ::
  "runtime \<Rightarrow> scheduler \<Rightarrow> 'r sort_func \<Rightarrow> ('w, 'r, 'r cron_operation) ops_client \<Rightarrow> go_time \<Rightarrow>
     'r cron_operation \<Rightarrow> 'w \<Rightarrow> result \<times> 'w" where
  "cron_live rt sched sortf c now co w =
     (case oc_List c LabelCronOperationName (co_Name co) w of
        (Inl e, w1) \<Rightarrow>
          cron_fail rt c now ''ListOperations'' (Wrap e ''cannot list Operations'') co w1
      | (Inr ops, w1) \<Rightarrow>
          (let co1 = cron_observe ops co;
               (garbage, ops1) = MarkGarbage sortf (limit 3 (co_SuccessfulHistoryLimit co))
                                   (limit 1 (co_FailedHistoryLimit co)) ops
           in case delete_all c garbage w1 of
                (Some (op, e), w2) \<Rightarrow>
                  cron_fail rt c now ''GarbageCollectOperations''
                    (Wrap e (''cannot garbage collect Operation '' @ quote_name (op_Name op))) co1 w2
              | (None, w2) \<Rightarrow> cron_decide rt sched c now co1 ops1 w2))"

definition cron_Reconcile ::
  "runtime \<Rightarrow> scheduler \<Rightarrow> 'r sort_func \<Rightarrow> ('w, 'r, 'r cron_operation) ops_client \<Rightarrow> go_time \<Rightarrow>
     string \<Rightarrow> 'w \<Rightarrow> result \<times> 'w" where
  "cron_Reconcile rt sched sortf c now name w =
     (case oc_Get c name w of
        (Inl e, w1) \<Rightarrow> ((0, wrap_opt (IgnoreNotFound (Some e)) ''cannot get CronOperation''), w1)
      | (Inr co, w1) \<Rightarrow>
          if co_WasDeleted co then ((0, None), w1)
          else if co_IsPaused co then
            cron_finish c 0 (cron_mark rt [SchedulePaused now, ReconcilePaused now] co) w1
          else cron_live rt sched sortf c now co w1)"

end
