(* ===== verification/CronCorrect.thy ===== *)
theory CronCorrect
  imports CronOperation
begin

text \<open>
  Correctness of the CronOperation controller: a valid schedule is always reconciled again, the
  policy \<^verbatim>\<open>Forbid\<close> holds, collecting garbage does not turn the schedule back when both history
  limits are positive, and what happens after a missed deadline.
\<close>

lemma time_sub_pos: "u < t \<Longrightarrow> 0 < time_sub t u"
  by (simp add: time_sub_def min_duration_def max_duration_def)

lemma cron_mark_fields [simp]:
  "co_LastScheduleTime (cron_mark rt cs co) = co_LastScheduleTime co"
  "co_RunningOperationRefs (cron_mark rt cs co) = co_RunningOperationRefs co"
  "co_ConcurrencyPolicy (cron_mark rt cs co) = co_ConcurrencyPolicy co"
  "co_Schedule (cron_mark rt cs co) = co_Schedule co"
  "co_StartingDeadlineSeconds (cron_mark rt cs co) = co_StartingDeadlineSeconds co"
  "co_Created (cron_mark rt cs co) = co_Created co"
  by (simp_all add: cron_mark_def)

lemma cron_observe_fields [simp]:
  "co_LastScheduleTime (cron_observe ops co) =
     (if LatestCreateTime ops \<noteq> zero_time then Some (LatestCreateTime ops)
      else co_LastScheduleTime co)"
  "co_RunningOperationRefs (cron_observe ops co) = running_names ops"
  "co_ConcurrencyPolicy (cron_observe ops co) = co_ConcurrencyPolicy co"
  "co_Schedule (cron_observe ops co) = co_Schedule co"
  "co_StartingDeadlineSeconds (cron_observe ops co) = co_StartingDeadlineSeconds co"
  "co_Created (cron_observe ops co) = co_Created co"
  by (simp_all add: cron_observe_def Let_def RunningOperationRefs_def)

lemma last_schedule_observe_again:
  "last_schedule (cron_observe ops (cron_mark rt cs (cron_observe ops co))) =
     last_schedule (cron_observe ops co)"
  by (simp add: last_schedule_def split: option.splits)

section \<open>Always reconciled again\<close>

definition advancing :: "scheduler \<Rightarrow> string \<Rightarrow> bool" where
  "advancing sched s \<longleftrightarrow> (\<forall>t. snd (sched s t) = None \<and> t < fst (sched s t))"

lemma cron_due_positive:
  assumes "advancing sched (co_Schedule co)"
  shows "case cron_due sched co l now of
      ScheduleError _ \<Rightarrow> False
    | NotYet q \<Rightarrow> 0 < q \<and> q = time_sub (fst (sched (co_Schedule co) l)) now
    | Missed q \<Rightarrow> 0 < q \<and> q = time_sub (fst (sched (co_Schedule co) now)) now
    | DueAt _ q \<Rightarrow> 0 < q \<and> q = time_sub (fst (sched (co_Schedule co) now)) now"
proof -
  obtain nxt where nxt: "sched (co_Schedule co) l = (nxt, None)"
    using assms unfolding advancing_def by (metis prod.collapse)
  have "now < fst (sched (co_Schedule co) now)"
    using assms by (simp add: advancing_def)
  then show ?thesis
    by (auto simp: cron_due_def nxt Let_def time_sub_pos split: option.splits)
qed

lemma cron_finish_ok: "cron_finish c q co w = ((q', None), w') \<Longrightarrow> q' = q"
  by (auto simp: cron_finish_def wrap_opt_def split: prod.splits)

lemma cron_fail_error: "fst (cron_fail rt c now reason err co w) = (0, Some err)"
  by (simp add: cron_fail_def split: prod.splits)

lemma cron_create_ok: "cron_create rt c now co nxt q w = ((q', None), w') \<Longrightarrow> q' = q"
  using cron_fail_error [of rt c now]
  by (auto simp: cron_create_def split: prod.splits option.splits dest!: cron_finish_ok)
    (metis fst_conv option.distinct(1) prod.inject)

lemma cron_run_ok: "cron_run rt c now co ops running nxt q w = ((q', None), w') \<Longrightarrow> q' = q"
  using cron_fail_error [of rt c now]
  by (auto simp: cron_run_def Let_def split: prod.splits option.splits if_splits
      dest!: cron_finish_ok cron_create_ok)
    (metis fst_conv option.distinct(1) prod.inject)+

text \<open>
  A CronOperation with a valid schedule is never forgotten. Whenever a \<^verbatim>\<open>Reconcile\<close> of one
  that is neither deleted nor paused returns without error, it asks to be called again after a
  positive time: at the next run after the last one when that is in the future, and otherwise at
  the first run after now, whether it created an operation, missed its deadline or was forbidden.
\<close>

theorem cron_requeues:
  assumes "oc_Get c name w = (Inr co, w1)" "\<not> co_WasDeleted co" "\<not> co_IsPaused co"
    "advancing sched (co_Schedule co)"
    "cron_Reconcile rt sched sortf c now name w = ((q, None), w')"
  shows "0 < q \<and> (\<exists>t. q = time_sub (fst (sched (co_Schedule co) t)) now)"
proof -
  have live: "cron_live rt sched sortf c now co w1 = ((q, None), w')"
    using assms(1-3,5) by (simp add: cron_Reconcile_def)
  obtain ops w2 where list: "oc_List c LabelCronOperationName (co_Name co) w1 = (Inr ops, w2)"
    using live cron_fail_error [of rt c now] unfolding cron_live_def
    by (auto split: prod.splits sum.splits) (metis fst_conv option.distinct(1) prod.inject)
  obtain garbage ops1 where mark: "MarkGarbage sortf (limit 3 (co_SuccessfulHistoryLimit co))
      (limit 1 (co_FailedHistoryLimit co)) ops = (garbage, ops1)" by (rule prod.exhaust)
  obtain e w3 where gc: "delete_all c garbage w2 = (e, w3)" by (rule prod.exhaust)
  have "e = None"
    using live list mark gc cron_fail_error [of rt c now] unfolding cron_live_def
    by (cases e) (auto simp: Let_def split: prod.splits, metis fst_conv option.distinct(1) prod.inject)
  then have d: "cron_decide rt sched c now (cron_observe ops co) ops1 w3 = ((q, None), w')"
    using live list mark gc by (simp add: cron_live_def Let_def)
  show ?thesis
    using d cron_due_positive [of sched "cron_observe ops co" "last_schedule (cron_observe ops co)" now]
      assms(4)
    by (cases "cron_due sched (cron_observe ops co) (last_schedule (cron_observe ops co)) now")
      (auto simp: cron_decide_def dest!: cron_finish_ok cron_run_ok)
qed

section \<open>A small cluster\<close>

text \<open>One CronOperation and its operations, on an API server that never fails, scheduled hourly.\<close>

type_synonym cluster = "unit cron_operation \<times> unit operation list"

definition cluster_client :: "(cluster, unit, unit cron_operation) ops_client" where
  "cluster_client =
     \<lparr>oc_Get = \<lambda>n w. (Inr (fst w), w), oc_List = \<lambda>l n w. (Inr (snd w), w),
      oc_Delete = \<lambda>op w. (None, (fst w, filter (\<lambda>p. op_Name p \<noteq> op_Name op) (snd w))),
      oc_Create = \<lambda>op w. (None, (fst w, snd w @ [op])),
      oc_UpdateStatus = \<lambda>co w. (None, (co, snd w)), oc_Event = \<lambda>r e w. w\<rparr>"

definition toy_runtime :: runtime where
  "toy_runtime =
     \<lparr>rt_Mark = SetConditions, rt_AddLabels = \<lambda>ls new. fold (\<lambda>(k, v). put k v) new ls,
      rt_AddAnnotations = \<lambda>as new. fold (\<lambda>(k, v). put k v) new as, rt_AddController = (#)\<rparr>"

definition hourly :: scheduler where
  "hourly s t = ((t div hours 1 + 1) * hours 1, None)"

lemma hourly_advancing: "advancing hourly s"
proof -
  have "t < (t div hours 1 + 1) * hours 1" for t :: int
    using pos_mod_bound [of "hours 1" t] div_mult_mod_eq [of t "hours 1"]
    by (simp add: algebra_simps)
  then show ?thesis
    by (simp add: advancing_def hourly_def)
qed

definition mk_cron :: "string option \<Rightarrow> int option \<Rightarrow> int option \<Rightarrow> unit cron_operation" where
  "mk_cron policy deadline keep =
     \<lparr>co_Name = ''c'', co_UID = ''u'', co_Created = 0, co_WasDeleted = False, co_IsPaused = False,
      co_Schedule = ''0 * * * *'', co_StartingDeadlineSeconds = deadline,
      co_ConcurrencyPolicy = policy, co_SuccessfulHistoryLimit = keep, co_FailedHistoryLimit = None,
      co_Template = \<lparr>tm_Meta = mk_meta [] 0, tm_Spec = \<lparr>os_Pipeline = [], os_Rest = ()\<rparr>\<rparr>,
      co_Conditions = [], co_RunningOperationRefs = [], co_LastScheduleTime = None,
      co_LastSuccessfulTime = None\<rparr>"

lemmas cron_defs = cron_Reconcile_def cron_live_def cron_decide_def cron_due_def cron_run_def
  cron_create_def cron_finish_def cron_fail_def cron_observe_def cron_mark_def last_schedule_def
  limit_def LatestCreateTime_def LatestSucceededTransitionTime_def MarkGarbage_def stable_sort_def
  running_names_def RunningOperationRefs_def WithReason_def succeeded_def zero_time_def

lemmas cron_toy_defs = cluster_client_def toy_runtime_def hourly_def mk_cron_def mk_meta_def
  mk_op_def mk_condition_def TypeSucceeded_def ReasonPipelineRunning_def ReasonPipelineSuccess_def

theorem cron_requeues_witness:
  "fst (fst (cron_Reconcile toy_runtime hourly stable_sort cluster_client (hours 1 + 5) ''c''
     (mk_cron None None None, []))) = hours 1 - 5 \<and> 0 < hours 1 - (5 :: int)"
proof -
  let ?R = "cron_Reconcile toy_runtime hourly stable_sort cluster_client (hours 1 + 5) ''c''
     (mk_cron None None None, [])"
  have R: "fst ?R = (hours 1 - 5, None)"
    by (simp add: cron_defs cron_toy_defs Let_def wrap_opt_def time_sub_def max_duration_def
        min_duration_def)
  then have "?R = ((hours 1 - 5, None), snd ?R)"
    by (metis prod.collapse)
  from cron_requeues [OF _ _ _ hourly_advancing this] R show ?thesis
    by (simp add: cluster_client_def mk_cron_def)
qed

section \<open>The policy Forbid\<close>

lemma running_names_set:
  "set (running_names ops) = op_Name ` {op \<in> set ops. c_Reason (succeeded op) = ReasonPipelineRunning}"
  by (auto simp: running_names_def WithReason_def)

lemma cron_calls_create [simp]:
  "cron_finish (c\<lparr>oc_Create := f\<rparr>) = cron_finish c"
  "cron_fail rt (c\<lparr>oc_Create := f\<rparr>) = cron_fail rt c"
  by (intro ext, simp add: cron_finish_def cron_fail_def)+

lemma delete_all_create [simp]: "delete_all (c\<lparr>oc_Create := f\<rparr>) ops w = delete_all c ops w"
proof (induction ops arbitrary: w)
  case (Cons op ops)
  obtain e w1 where "oc_Delete c op w = (e, w1)" by (rule prod.exhaust)
  with Cons show ?case by (cases "IgnoreNotFound e") simp_all
qed simp

text \<open>
  C33: While an operation of the CronOperation runs, the policy \<^verbatim>\<open>Forbid\<close> keeps the controller from
  creating another: whatever the create call would do, the reconcile behaves the same, so it is
  not made. (Running means that the operation says so in its condition: one that was created but
  has not reported yet does not count.)
\<close>

theorem cron_forbid_no_create:
  assumes "oc_List c LabelCronOperationName (co_Name co) w = (Inr ops, w1)"
    "co_ConcurrencyPolicy co = Some ''Forbid''"
    "op \<in> set ops" "c_Reason (succeeded op) = ReasonPipelineRunning"
  shows "cron_live rt sched sortf (c\<lparr>oc_Create := f\<rparr>) now co w = cron_live rt sched sortf c now co w"
proof -
  have "running_names ops \<noteq> []"
    using assms(3,4) running_names_set [of ops] by (metis (mono_tags, lifting) empty_iff
        empty_set image_eqI mem_Collect_eq)
  then have "cron_decide rt sched (c\<lparr>oc_Create := f\<rparr>) now (cron_observe ops co) ops' w' =
      cron_decide rt sched c now (cron_observe ops co) ops' w'" for ops' w'
    using assms(2) by (simp add: cron_decide_def cron_run_def split: due.splits)
  then show ?thesis
    using assms(1) by (simp add: cron_live_def Let_def split: prod.splits option.splits)
qed

theorem cron_forbid_no_create_witness:
  "cron_live toy_runtime hourly stable_sort (cluster_client\<lparr>oc_Create := \<lambda>op w. undefined\<rparr>) (hours 2)
     (mk_cron (Some ''Forbid'') None None)
     (mk_cron (Some ''Forbid'') None None, [mk_op ''r'' 5 ConditionUnknown ''PipelineRunning'']) =
   cron_live toy_runtime hourly stable_sort cluster_client (hours 2)
     (mk_cron (Some ''Forbid'') None None)
     (mk_cron (Some ''Forbid'') None None, [mk_op ''r'' 5 ConditionUnknown ''PipelineRunning''])"
  by (rule cron_forbid_no_create [where op = "mk_op ''r'' 5 ConditionUnknown ''PipelineRunning''"
        and ops = "[mk_op ''r'' 5 ConditionUnknown ''PipelineRunning'']"])
    (simp_all add: cluster_client_def mk_cron_def, simp add: succeeded_def mk_op_def mk_condition_def
      ReasonPipelineRunning_def TypeSucceeded_def)

section \<open>Garbage and the schedule\<close>

lemma mark_loop_subset: "set (mark_loop ks kf s f ops) \<subseteq> set ops"
  using mark_loop_complete by blast

lemma mark_loop_head:
  assumes "1 \<le> ks" "1 \<le> kf" "op \<notin> set ops"
  shows "op \<notin> set (mark_loop ks kf 0 0 (op # ops))"
  using assms mark_loop_subset [of ks kf _ _ ops] by auto

lemma LatestCreateTime_Max: "LatestCreateTime ops = Max (insert zero_time (op_Created ` set ops))"
  unfolding LatestCreateTime_def by (rule latest_fold)

text \<open>
  With both history limits at least 1, deleting the garbage leaves the time of the latest
  operation, from which the next run is computed, as it was: the schedule never turns back. (With
  a limit of 0 it can: the newest operation may be deleted while an older one is kept, and the
  run it was created for is due once more.)
\<close>

theorem cron_garbage_keeps_schedule:
  assumes "sorts_latest_first sortf" "MarkGarbage sortf ks kf ops = (garbage, ops')"
    "1 \<le> ks" "1 \<le> kf" "distinct ops"
  shows "LatestCreateTime (filter (\<lambda>op. op \<notin> set garbage) ops) = LatestCreateTime ops"
proof (cases "sortf ops")
  case Nil
  then have "ops = []"
    using assms(1) by (metis sorts_latest_first_def mset_zero_iff)
  then show ?thesis by simp
next
  case (Cons h rest)
  have s: "mset (h # rest) = mset ops" "sorted_wrt (\<lambda>a b. op_Created b \<le> op_Created a) (h # rest)"
    using assms(1) Cons by (metis sorts_latest_first_def)+
  have "distinct (h # rest)" using s(1) assms(5) by (metis mset_eq_imp_distinct_iff)
  then have "h \<notin> set garbage"
    using assms(2) Cons mark_loop_head [OF assms(3,4), of h rest]
    by (auto simp: MarkGarbage_def simp del: mark_loop.simps)
  moreover have h: "h \<in> set ops" "\<forall>op \<in> set ops. op_Created op \<le> op_Created h"
    using s mset_eq_setD [OF s(1)] by auto
  ultimately have kept: "h \<in> set (filter (\<lambda>op. op \<notin> set garbage) ops)" by simp
  have "Max (insert zero_time (op_Created ` A)) = max zero_time (op_Created h)"
    if "h \<in> A" "A \<subseteq> set ops" for A
  proof -
    have "finite A" using that(2) finite_subset by blast
    moreover have "Max (op_Created ` A) = op_Created h"
      using that h(2) \<open>finite A\<close> by (intro Max_eqI) auto
    ultimately show ?thesis
      using that(1) by (subst Max_insert) auto
  qed
  from this [OF kept] this [OF h(1)] show ?thesis
    unfolding LatestCreateTime_Max by auto
qed

definition two_runs :: "unit operation list" where
  "two_runs = [mk_op ''f'' (hours 1) ConditionFalse [], mk_op ''s'' (hours 2) ConditionTrue []]"

theorem cron_garbage_keeps_schedule_witness:
  "LatestCreateTime (filter (\<lambda>op. op \<notin> set (fst (MarkGarbage stable_sort 1 1 two_runs))) two_runs) =
   LatestCreateTime two_runs"
  by (rule cron_garbage_keeps_schedule [OF stable_sort_ok, of 1 1 _ _ "snd (MarkGarbage stable_sort 1 1 two_runs)"])
    (simp_all add: two_runs_def mk_op_def mk_meta_def)

text \<open>With the limit 0 for succeeded operations the last run is due again as soon as it is deleted.\<close>

lemma zero_limit_runs_again:
  "let co = cron_observe two_runs (mk_cron None None (Some 0));
       kept = filter (\<lambda>op. op \<notin> set (fst (MarkGarbage stable_sort 0 1 two_runs))) two_runs
   in cron_due hourly co (last_schedule co) (hours 2 + 1) = NotYet (hours 1 - 1) \<and>
      cron_due hourly (cron_observe kept co) (last_schedule (cron_observe kept co)) (hours 2 + 1) =
        DueAt (hours 2) (hours 1 - 1)"
  by (simp add: two_runs_def cron_defs cron_toy_defs Let_def time_sub_def max_duration_def
      min_duration_def)

section \<open>Missed deadlines\<close>

text \<open>The CronOperation after reconciles at the given times that all end at the missed deadline.\<close>

fun after_misses ::
  "runtime \<Rightarrow> 'r operation list \<Rightarrow> 'r cron_operation \<Rightarrow> go_time list \<Rightarrow> 'r cron_operation" where
  "after_misses rt ops co [] = co"
| "after_misses rt ops co (t # ts) =
     after_misses rt ops (cron_mark rt [ScheduleActive t] (cron_observe ops co)) ts"

lemma cron_due_missed_later:
  assumes "cron_due sched co l now = Missed q" "now \<le> now'"
  shows "\<exists>q'. cron_due sched co l now' = Missed q'"
  using assms
  by (auto simp: cron_due_def Let_def split: prod.splits option.splits if_splits)

lemma cron_due_cong:
  assumes "co_Schedule co' = co_Schedule co"
    "co_StartingDeadlineSeconds co' = co_StartingDeadlineSeconds co"
  shows "cron_due sched co' l now = cron_due sched co l now"
  unfolding cron_due_def assms ..

lemma after_misses_same:
  "co_Schedule (after_misses rt ops co ts) = co_Schedule co \<and>
   co_StartingDeadlineSeconds (after_misses rt ops co ts) = co_StartingDeadlineSeconds co \<and>
   last_schedule (cron_observe ops (after_misses rt ops co ts)) = last_schedule (cron_observe ops co)"
proof (induction rt ops co ts rule: after_misses.induct)
  case (2 rt ops co t ts)
  then show ?case
    using last_schedule_observe_again [of ops rt "[ScheduleActive t]" co] by simp
qed simp

text \<open>
  A deadline missed once is missed forever. When a reconcile finds that the next run is past
  its starting deadline, every later reconcile that lists the same operations finds the same,
  after any number of them: the time the next run is computed from is only ever moved by a new
  operation, and none is created. The schedule then stands still until someone removes the
  deadline.
\<close>

theorem cron_missed_forever:
  assumes "cron_due sched (cron_observe ops co) (last_schedule (cron_observe ops co)) now = Missed q"
    "now \<le> now'"
  shows "\<exists>q'. cron_decide rt sched c now' (cron_observe ops (after_misses rt ops co ts)) ops' w =
      cron_finish c q' (cron_mark rt [ScheduleActive now']
        (cron_observe ops (after_misses rt ops co ts))) w"
proof -
  let ?co = "cron_observe ops (after_misses rt ops co ts)"
  have "cron_due sched ?co (last_schedule ?co) now' =
      cron_due sched (cron_observe ops co) (last_schedule (cron_observe ops co)) now'"
    using after_misses_same [of rt ops co ts] cron_due_cong [of ?co "cron_observe ops co"] by simp
  with cron_due_missed_later [OF assms] show ?thesis
    by (auto simp: cron_decide_def)
qed

theorem cron_missed_forever_witness:
  "\<exists>q. cron_decide toy_runtime hourly cluster_client (hours 9 + seconds 5)
     (cron_observe [] (after_misses toy_runtime [] (mk_cron None (Some 10) None) [hours 5, hours 9])) [] (mk_cron None None None, []) =
   cron_finish cluster_client q (cron_mark toy_runtime [ScheduleActive (hours 9 + seconds 5)]
     (cron_observe [] (after_misses toy_runtime [] (mk_cron None (Some 10) None) [hours 5, hours 9]))) (mk_cron None None None, [])"
  by (rule cron_missed_forever [where now = "hours 5" and q = "hours 1"])
    (simp_all add: cron_defs cron_toy_defs Let_def time_sub_def max_duration_def min_duration_def wrap64_def)

end
