(* ===== verification/WatchCorrect.thy ===== *)
theory WatchCorrect
  imports WatchOperation CronCorrect
begin

text \<open>
  Correctness of the watched resource controller: at most one operation for a version of a
  resource, the policy \<^verbatim>\<open>Forbid\<close>, and what the policy \<^verbatim>\<open>Replace\<close> does when the change it is called
  for is the one that is running.
\<close>

lemma watched_fail_create [simp]: "watched_fail (c\<lparr>oc_Create := f\<rparr>) = watched_fail c"
  by (intro ext) (simp add: watched_fail_def)

lemma watched_create_listed:
  "OperationName nm wo u \<in> op_Name ` set ops \<Longrightarrow> watched_create rt nm c wo u ops w = ((0, None), w)"
  by (auto simp: watched_create_def Let_def list_ex_iff)

lemma watched_run_no_create:
  assumes "OperationName nm wo u \<in> op_Name ` set ops \<or>
      wo_ConcurrencyPolicy wo = Some ''Forbid'' \<and> WithReason ReasonPipelineRunning ops \<noteq> []"
  shows "watched_run rt nm (c\<lparr>oc_Create := f\<rparr>) wo u ops w = watched_run rt nm c wo u ops w"
  using assms
proof
  assume "OperationName nm wo u \<in> op_Name ` set ops"
  then show ?thesis
    by (simp add: watched_run_def watched_create_listed Let_def split: prod.splits option.splits)
qed (simp add: watched_run_def)

text \<open>
  C34: Whatever the create call would do, a reconcile of a watched resource behaves the same, so it
  creates nothing, when an operation for this version of the resource is already listed, and when
  the policy is \<^verbatim>\<open>Forbid\<close> and a listed operation is running. A version that is seen again, after a
  resync or a restart, gets no second operation.
\<close>

theorem watched_at_most_once:
  assumes "get ns name w = (Inr u, w1)" "oc_Get c woName w1 = (Inr wo, w2)"
    "oc_List c LabelWatchOperationName (wo_Name wo) w2 = (Inr ops, w3)"
    "OperationName nm wo u \<in> op_Name ` set ops \<or>
      wo_ConcurrencyPolicy wo = Some ''Forbid'' \<and> WithReason ReasonPipelineRunning ops \<noteq> []"
  shows "watched_Reconcile rt nm get (c\<lparr>oc_Create := f\<rparr>) g apiv woName now ns name w =
    watched_Reconcile rt nm get c g apiv woName now ns name w"
  using assms(1-3) watched_run_no_create [OF assms(4), of rt f c w3]
  by (simp add: watched_Reconcile_def Let_def)

section \<open>An example\<close>

type_synonym watch_cluster = "unit watch_operation \<times> unit operation list"

definition watch_client :: "(watch_cluster, unit, unit watch_operation) ops_client" where
  "watch_client =
     \<lparr>oc_Get = \<lambda>n w. (Inr (fst w), w), oc_List = \<lambda>l n w. (Inr (snd w), w),
      oc_Delete = \<lambda>op w. (None, (fst w, filter (\<lambda>p. op_Name p \<noteq> op_Name op) (snd w))),
      oc_Create = \<lambda>op w. (None, (fst w, snd w @ [op])),
      oc_UpdateStatus = \<lambda>wo w. (None, (wo, snd w)), oc_Event = \<lambda>r e w. w\<rparr>"

definition mk_watch :: "string \<Rightarrow> unit watch_operation" where
  "mk_watch policy =
     \<lparr>wo_Name = ''w'', wo_UID = ''u'', wo_WasDeleted = False, wo_IsPaused = False,
      wo_APIVersion = ''v1'', wo_Kind = ''Pod'', wo_Namespace = [], wo_MatchLabels = [],
      wo_ConcurrencyPolicy = Some policy, wo_SuccessfulHistoryLimit = None,
      wo_FailedHistoryLimit = None,
      wo_Template = \<lparr>tm_Meta = mk_meta [] 0, tm_Spec = \<lparr>os_Pipeline = [], os_Rest = ()\<rparr>\<rparr>,
      wo_Conditions = [], wo_RunningOperationRefs = [], wo_WatchingResources = 0,
      wo_LastScheduleTime = None, wo_LastSuccessfulTime = None\<rparr>"

definition pod_gvk :: gvk where
  "pod_gvk = \<lparr>gvk_Group = [], gvk_Version = ''v1'', gvk_Kind = ''Pod''\<rparr>"

definition pod_p :: watched_resource where
  "pod_p = \<lparr>wr_GVK = pod_gvk, wr_APIVersion = ''v1'', wr_Namespace = ''n'', wr_Name = ''p'',
     wr_UID = ''1'', wr_ResourceVersion = ''7'', wr_DeletionTimestamp = None, wr_Labels = []\<rparr>"

definition toy_naming :: naming where
  "toy_naming = \<lparr>nm_SHA256 = rev, nm_RFC3339 = itoa\<rparr>"

definition pod_running :: "unit operation" where
  "pod_running =
     mk_op (OperationName toy_naming (mk_watch ''Replace'') pod_p) 5 ConditionUnknown ''PipelineRunning''"

lemma pod_running_facts:
  "op_Name pod_running = OperationName toy_naming (mk_watch ''Replace'') pod_p"
  "WithReason ReasonPipelineRunning [pod_running] = [pod_running]"
  by (simp_all add: pod_running_def mk_op_def mk_meta_def WithReason_def succeeded_def
      mk_condition_def TypeSucceeded_def ReasonPipelineRunning_def)

theorem watched_at_most_once_witness:
  "watched_Reconcile toy_runtime toy_naming (\<lambda>ns n w. (Inr pod_p, w))
     (watch_client\<lparr>oc_Create := \<lambda>op w. undefined\<rparr>) pod_gvk ''v1'' ''w'' 9 ''n'' ''p''
     (mk_watch ''Replace'', [pod_running]) =
   watched_Reconcile toy_runtime toy_naming (\<lambda>ns n w. (Inr pod_p, w)) watch_client pod_gvk ''v1''
     ''w'' 9 ''n'' ''p'' (mk_watch ''Replace'', [pod_running])"
  by (rule watched_at_most_once [where u = pod_p and wo = "mk_watch ''Replace''" and ops = "[pod_running]"
        and ?w2.0 = "(mk_watch ''Replace'', [pod_running])" and ?w3.0 = "(mk_watch ''Replace'', [pod_running])"
        and ?w1.0 = "(mk_watch ''Replace'', [pod_running])"])
    (simp_all add: watch_client_def pod_running_facts)

section \<open>Replacing the operation of the same version\<close>

text \<open>
  With the policy \<^verbatim>\<open>Replace\<close>, a reconcile for a version of a resource whose own operation is
  running deletes that operation, and then creates none, because the list it read before still
  shows one of that name: the change ends up without an operation.
\<close>

theorem watched_replace_deletes_own:
  assumes "get ns name w = (Inr u, w1)" "oc_Get c woName w1 = (Inr wo, w2)"
    "\<not> wo_IsPaused wo" "\<not> wo_WasDeleted wo" "wo_ConcurrencyPolicy wo = Some ''Replace''"
    "oc_List c LabelWatchOperationName (wo_Name wo) w2 = (Inr ops, w3)"
    "op \<in> set ops" "op_Name op = OperationName nm wo u"
    "c_Reason (succeeded op) = ReasonPipelineRunning"
    "delete_all c (running_ops ops) w3 = (None, w4)"
  shows "op \<in> set (running_ops ops) \<and>
    watched_Reconcile rt nm get c g apiv woName now ns name w = ((0, None), w4)"
proof -
  have r: "op \<in> set (WithReason ReasonPipelineRunning ops)"
    using assms(7,9) by (simp add: WithReason_def)
  then have "WithReason ReasonPipelineRunning ops \<noteq> []" by auto
  moreover have "OperationName nm wo u \<in> op_Name ` set ops"
    using assms(7,8) by (metis imageI)
  ultimately have "watched_run rt nm c wo u ops w3 = ((0, None), w4)"
    using assms(5,10) by (simp add: watched_run_def watched_create_listed)
  then have "watched_Reconcile rt nm get c g apiv woName now ns name w = ((0, None), w4)"
    using assms(1-4,6) by (simp add: watched_Reconcile_def Let_def)
  moreover have "op \<in> set (running_ops ops)"
    using r assms(7) by (auto simp: running_ops_def)
  ultimately show ?thesis by blast
qed

theorem watched_replace_deletes_own_witness:
  "snd (snd (watched_Reconcile toy_runtime toy_naming (\<lambda>ns n w. (Inr pod_p, w)) watch_client pod_gvk
     ''v1'' ''w'' 9 ''n'' ''p'' (mk_watch ''Replace'', [pod_running]))) = []"
proof -
  have d: "delete_all watch_client (running_ops [pod_running]) (mk_watch ''Replace'', [pod_running]) =
      (None, (mk_watch ''Replace'', []))"
    by (simp add: running_ops_def pod_running_facts watch_client_def)
  have "c_Reason (succeeded pod_running) = ReasonPipelineRunning"
    using pod_running_facts(2) by (simp add: WithReason_def split: if_splits)
  from watched_replace_deletes_own [OF _ _ _ _ _ _ _ _ this d, where
      get = "\<lambda>ns n w. (Inr pod_p, w)" and u = pod_p and wo = "mk_watch ''Replace''"
      and nm = toy_naming and w = "(mk_watch ''Replace'', [pod_running])"]
  show ?thesis
    by (simp add: watch_client_def pod_running_facts) (simp add: mk_watch_def)
qed

end
