(* ===== verification/FetchRunner.thy ===== *)
theory FetchRunner
  imports GoPrelude "HOL-Library.Finite_Map" "HOL-Library.List_Lexorder" "HOL-Library.Char_ord"
begin

text \<open>
  Running a composition function until its requirements are met,
  \<^verbatim>\<open>internal/xfn/required_resources.go\<close> of Crossplane. The maps of a request are finite maps
  (\<open>fmap\<close>), which have no order; the maps of requirements, which are ranged over, are association
  lists in the order of the range. A pointer to resources that may be nil is an option. Resources,
  schemas, contexts and what else a request and a response hold are parameters of the types,
  compared by \<open>=\<close> for \<^verbatim>\<open>proto.Equal\<close>.

  The wrapped runner and the fetchers change the state \<open>'w\<close> of the world.
\<close>

section \<open>Messages\<close>

datatype severity = SEVERITY_UNSPECIFIED | SEVERITY_FATAL | SEVERITY_WARNING | SEVERITY_NORMAL

record ('q, 'p) requirements =
  rr_ExtraResources :: "(string, 'q) gomap"
  rr_Resources :: "(string, 'q) gomap"
  rr_Schemas :: "(string, 'p) gomap"

record ('r, 's, 'c, 'x) fn_request =
  fr_RequiredResources :: "(string, 'r option) fmap"
  fr_ExtraResources :: "(string, 'r option) fmap"
  fr_RequiredSchemas :: "(string, 's) fmap"
  fr_Context :: 'c
  fr_rest :: 'x

record ('q, 'p, 'c, 'y) fn_response =
  fs_Results :: "severity list"
  fs_Requirements :: "('q, 'p) requirements option"
  fs_Context :: 'c
  fs_rest :: 'y

definition MaxRequirementsIterations :: nat where
  "MaxRequirementsIterations = 5"

text \<open>The equality of \<^verbatim>\<open>proto.Equal\<close> on requirements: as maps, and nil only with nil.\<close>

definition same_map :: "('k, 'v) gomap \<Rightarrow> ('k, 'v) gomap \<Rightarrow> bool" where
  "same_map a b \<longleftrightarrow> (\<forall>k \<in> keys a \<union> keys b. map_of a k = map_of b k)"

definition reqs_equal :: "('q, 'p) requirements option \<Rightarrow> ('q, 'p) requirements option \<Rightarrow> bool" where
  "reqs_equal a b =
     (case (a, b) of
        (None, None) \<Rightarrow> True
      | (Some x, Some y) \<Rightarrow> same_map (rr_ExtraResources x) (rr_ExtraResources y) \<and>
          same_map (rr_Resources x) (rr_Resources y) \<and> same_map (rr_Schemas x) (rr_Schemas y)
      | _ \<Rightarrow> False)"

section \<open>Resolving requirements\<close>

text \<open>The fields of \<^verbatim>\<open>FetchingFunctionRunner\<close>.\<close>

record ('q, 'p, 'r, 's, 'c, 'x, 'y, 'w) fetching_runner =
  fn_wrapped :: "nat \<Rightarrow> string \<Rightarrow> ('r, 's, 'c, 'x) fn_request \<Rightarrow> 'w \<Rightarrow> ('q, 'p, 'c, 'y) fn_response res \<times> 'w"
  fn_resources :: "'q \<Rightarrow> 'w \<Rightarrow> 'r option res \<times> 'w"
  fn_schemas :: "'p \<Rightarrow> 'w \<Rightarrow> 's res \<times> 'w"

fun fetch_all ::
  "('q \<Rightarrow> 'w \<Rightarrow> 'v res \<times> 'w) \<Rightarrow> string \<Rightarrow> (string, 'q) gomap \<Rightarrow> (string, 'v) fmap \<Rightarrow> 'w \<Rightarrow>
   (string, 'v) fmap res \<times> 'w" where
  "fetch_all fetch what [] m w = (Inr m, w)"
| "fetch_all fetch what ((n, selector) # rest) m w =
     (case fetch selector w of
        (Inl e, w') \<Rightarrow> (Inl (Wrap e (what @ n)), w')
      | (Inr v, w') \<Rightarrow> fetch_all fetch what rest (fmupd n v m) w')"

record ('r, 's) required =
  rq_resources :: "(string, 'r option) fmap"
  rq_extra :: "(string, 'r option) fmap"
  rq_schemas :: "(string, 's) fmap"

text \<open>
  What the requirements resolve to, from the resources and schemas given up front. The getters of a
  nil message return nil maps.
\<close>

definition no_requirements :: "('q, 'p) requirements" where
  "no_requirements = \<lparr>rr_ExtraResources = [], rr_Resources = [], rr_Schemas = []\<rparr>"

definition resolve_required ::
  "('q, 'p, 'r, 's, 'c, 'x, 'y, 'w) fetching_runner \<Rightarrow> (string, 'r option) fmap \<Rightarrow> (string, 's) fmap \<Rightarrow>
   ('q, 'p) requirements option \<Rightarrow> 'w \<Rightarrow> ('r, 's) required res \<times> 'w" where
  "resolve_required c bootstrapResources bootstrapSchemas reqs w =
     (let q = (case reqs of None \<Rightarrow> no_requirements | Some q \<Rightarrow> q) in
      case fetch_all (fn_resources c) ''fetching resources for '' (rr_ExtraResources q) fmempty w of
        (Inl e, w) \<Rightarrow> (Inl e, w)
      | (Inr extra, w) \<Rightarrow>
          (case fetch_all (fn_resources c) ''fetching resources for '' (rr_Resources q) bootstrapResources w of
             (Inl e, w) \<Rightarrow> (Inl e, w)
           | (Inr resources, w) \<Rightarrow>
               (case fetch_all (fn_schemas c) ''fetching schema for '' (rr_Schemas q) bootstrapSchemas w of
                  (Inl e, w) \<Rightarrow> (Inl e, w)
                | (Inr schemas, w) \<Rightarrow>
                    (Inr \<lparr>rq_resources = resources, rq_extra = extra, rq_schemas = schemas\<rparr>, w))))"

section \<open>The loop\<close>

definition already_sent :: "('r, 's, 'c, 'x) fn_request \<Rightarrow> ('r, 's) required \<Rightarrow> bool" where
  "already_sent req nxt \<longleftrightarrow>
     fr_RequiredResources req = rq_resources nxt \<and> fr_ExtraResources req = rq_extra nxt \<and>
     fr_RequiredSchemas req = rq_schemas nxt"

definition next_request ::
  "('r, 's, 'c, 'x) fn_request \<Rightarrow> ('r, 's) required \<Rightarrow> 'c \<Rightarrow> ('r, 's, 'c, 'x) fn_request" where
  "next_request req nxt ctx =
     req\<lparr>fr_RequiredResources := rq_resources nxt, fr_ExtraResources := rq_extra nxt,
         fr_RequiredSchemas := rq_schemas nxt, fr_Context := ctx\<rparr>"

text \<open>
  The loop with \<open>n\<close> iterations left, at iteration \<open>i\<close>. The request is a pointer of the caller, so the
  request as it is left is part of the result.
\<close>

fun run_loop ::
  "('q, 'p, 'r, 's, 'c, 'x, 'y, 'w) fetching_runner \<Rightarrow> string \<Rightarrow> (string, 'r option) fmap \<Rightarrow> (string, 's) fmap \<Rightarrow>
   nat \<Rightarrow> nat \<Rightarrow> ('q, 'p) requirements option \<Rightarrow> ('r, 's, 'c, 'x) fn_request \<Rightarrow> 'w \<Rightarrow>
   ('q, 'p, 'c, 'y) fn_response res \<times> ('r, 's, 'c, 'x) fn_request \<times> 'w" where
  "run_loop c name bootR bootS 0 i requirements req w =
     (Inl (Errorf ''requirements did not stabilize after the maximum number of iterations''
             [nat_to_dec MaxRequirementsIterations]), req, w)"
| "run_loop c name bootR bootS (Suc n) i requirements req w =
     (case fn_wrapped c i name req w of
        (Inl e, w) \<Rightarrow> (Inl e, req, w)
      | (Inr rsp, w) \<Rightarrow>
          if SEVERITY_FATAL \<in> set (fs_Results rsp) then (Inr rsp, req, w)
          else if reqs_equal (fs_Requirements rsp) requirements then (Inr rsp, req, w)
          else (case resolve_required c bootR bootS (fs_Requirements rsp) w of
                  (Inl e, w) \<Rightarrow> (Inl e, req, w)
                | (Inr nxt, w) \<Rightarrow>
                    if i = 0 \<and> already_sent req nxt then (Inr rsp, req, w)
                    else run_loop c name bootR bootS n (i + 1) (fs_Requirements rsp)
                           (next_request req nxt (fs_Context rsp)) w))"

definition RunFunction ::
  "('q, 'p, 'r, 's, 'c, 'x, 'y, 'w) fetching_runner \<Rightarrow> string \<Rightarrow> ('r, 's, 'c, 'x) fn_request \<Rightarrow> 'w \<Rightarrow>
   ('q, 'p, 'c, 'y) fn_response res \<times> ('r, 's, 'c, 'x) fn_request \<times> 'w" where
  "RunFunction c name req w =
     run_loop c name (fr_RequiredResources req) (fr_RequiredSchemas req) (MaxRequirementsIterations + 1) 0 None req w"

section \<open>Fetching resources from the API server\<close>

datatype ('l) match_by = MatchName string | MatchLabels 'l | MatchAny

record 'l resource_selector =
  rs_ApiVersion :: string
  rs_Kind :: string
  rs_Namespace :: string
  rs_Match :: "'l match_by"

record 'o k8s_object =
  ko_Namespace :: string
  ko_Name :: string
  ko_data :: 'o

text \<open>
  The client: \<open>rc_Get\<close> finds an object by type, namespace and name, \<open>None\<close> when there is none;
  \<open>rc_List\<close> lists a type in a namespace, by labels if there are any. \<open>as_struct\<close> is \<^verbatim>\<open>AsStruct\<close>, the
  conversion to a protocol buffer.
\<close>

record ('l, 'o, 'w) reader =
  rc_Get :: "string \<Rightarrow> string \<Rightarrow> string \<Rightarrow> string \<Rightarrow> 'w \<Rightarrow> 'o k8s_object option res"
  rc_List :: "string \<Rightarrow> string \<Rightarrow> string \<Rightarrow> 'l option \<Rightarrow> 'w \<Rightarrow> 'o k8s_object list res"

fun encode_all :: "('o k8s_object \<Rightarrow> 'j res) \<Rightarrow> 'o k8s_object list \<Rightarrow> 'j list res" where
  "encode_all as_struct [] = Inr []"
| "encode_all as_struct (r # rs) =
     (case as_struct r of
        Inl e \<Rightarrow> Inl (Wrap e ''cannot encode required resource to protobuf Struct'')
      | Inr o' \<Rightarrow> (case encode_all as_struct rs of Inl e \<Rightarrow> Inl e | Inr os \<Rightarrow> Inr (o' # os)))"

definition Fetch ::
  "('l, 'o, 'w) reader \<Rightarrow> ('o k8s_object \<Rightarrow> 'j res) \<Rightarrow> 'l resource_selector option \<Rightarrow> 'w \<Rightarrow> 'j list option res \<times> 'w" where
  "Fetch client as_struct rs w =
     (case rs of
        None \<Rightarrow> (Inl (Errorf ''you must specify a resource selector'' []), w)
      | Some s \<Rightarrow>
          (case rs_Match s of
             MatchName name \<Rightarrow>
               (case rc_Get client (rs_ApiVersion s) (rs_Kind s) (rs_Namespace s) name w of
                  Inl e \<Rightarrow> (Inl (Wrap e ''cannot get required resource by name''), w)
                | Inr None \<Rightarrow> (Inr None, w)
                | Inr (Some r) \<Rightarrow>
                    (case as_struct r of
                       Inl e \<Rightarrow> (Inl (Wrap e ''cannot encode required resource to protobuf Struct''), w)
                     | Inr o' \<Rightarrow> (Inr (Some [o']), w)))
           | m \<Rightarrow>
               (case rc_List client (rs_ApiVersion s) (rs_Kind s) (rs_Namespace s)
                       (case m of MatchLabels l \<Rightarrow> Some l | _ \<Rightarrow> None) w of
                  Inl e \<Rightarrow> (Inl (Wrap e ''cannot list required resources''), w)
                | Inr items \<Rightarrow>
                    (case encode_all as_struct (sort_key (\<lambda>r. ko_Namespace r @ ''/'' @ ko_Name r) items) of
                       Inl e \<Rightarrow> (Inl e, w)
                     | Inr os \<Rightarrow> (Inr (Some os), w)))))"

end
