(* ===== verification/CachedRunner.thy ===== *)
theory CachedRunner
  imports FetchRunner
begin

text \<open>
  The cache of function responses, \<^verbatim>\<open>internal/xfn/cached/cached_runner.go\<close> of Crossplane: a response
  with a time to live is written to a file and served until its deadline. The wrapped runner, the
  file system and the encoding of messages are parameters; a walk of the file system is the list of
  entries it visits.
\<close>

section \<open>Paths\<close>

text \<open>
  \<^verbatim>\<open>filepath.Join\<close> on Unix: empty elements are left out and the path is cleaned lexically. The kept
  segments are held in reverse.
\<close>

fun clean_segments :: "bool \<Rightarrow> string list \<Rightarrow> string list \<Rightarrow> string list" where
  "clean_segments rooted acc [] = rev acc"
| "clean_segments rooted acc (s # ss) =
     (if s = [] \<or> s = ''.'' then clean_segments rooted acc ss
      else if s = ''..'' then
        (case acc of
           [] \<Rightarrow> clean_segments rooted (if rooted then [] else [''..'']) ss
         | a # as \<Rightarrow> clean_segments rooted (if a = ''..'' then ''..'' # acc else as) ss)
      else clean_segments rooted (s # acc) ss)"

definition filepath_Clean :: "string \<Rightarrow> string" where
  "filepath_Clean path =
     (if path = [] then ''.''
      else (let rooted = (hd path = CHR ''/'');
                out = join_with ''/'' (clean_segments rooted [] (split_on CHR ''/'' path))
            in if rooted then CHR ''/'' # out else if out = [] then ''.'' else out))"

definition filepath_Join :: "string list \<Rightarrow> string" where
  "filepath_Join es =
     (case dropWhile (\<lambda>e. e = []) es of [] \<Rightarrow> [] | fs \<Rightarrow> filepath_Clean (join_with ''/'' fs))"

section \<open>The runner\<close>

datatype fs_error = ErrNotExist | FsError string

record ('b, 'w) filesystem =
  fs_ReadFile :: "string \<Rightarrow> 'w \<Rightarrow> (fs_error + 'b) \<times> 'w"
  fs_MkdirAll :: "string \<Rightarrow> 'w \<Rightarrow> fs_error option \<times> 'w"
  fs_TempFile :: "string \<Rightarrow> 'w \<Rightarrow> (fs_error + string) \<times> 'w"
  fs_Write :: "string \<Rightarrow> 'b \<Rightarrow> 'w \<Rightarrow> fs_error option \<times> 'w"
  fs_Close :: "string \<Rightarrow> 'w \<Rightarrow> fs_error option \<times> 'w"
  fs_Rename :: "string \<Rightarrow> string \<Rightarrow> 'w \<Rightarrow> fs_error option \<times> 'w"
  fs_Remove :: "string \<Rightarrow> 'w \<Rightarrow> fs_error option \<times> 'w"
  fs_ReadDir :: "string \<Rightarrow> 'w \<Rightarrow> (fs_error + string list) \<times> 'w"

text \<open>
  \<open>cr_Tag\<close> and \<open>cr_Ttl\<close> read a request and a response; a cached response is marshalled together with
  its deadline.
\<close>

record ('q, 's, 'b, 'w) file_backed_runner =
  cr_wrapped :: "string \<Rightarrow> 'q \<Rightarrow> 'w \<Rightarrow> 's res \<times> 'w"
  cr_fs :: "('b, 'w) filesystem"
  cr_maxTTL :: duration
  cr_Tag :: "'q \<Rightarrow> string"
  cr_Ttl :: "'s \<Rightarrow> duration"
  cr_Marshal :: "go_time \<times> 's \<Rightarrow> 'b option"
  cr_Unmarshal :: "'b \<Rightarrow> (go_time \<times> 's) option"

datatype cache_miss = NotCached | DeadlineExpired | EmptyRequestTag | ReasonError

text \<open>The time to live that is kept: at most the maximum, if there is one.\<close>

definition clamped_ttl :: "('q, 's, 'b, 'w) file_backed_runner \<Rightarrow> 's \<Rightarrow> duration" where
  "clamped_ttl c rsp =
     (let ttl = cr_Ttl c rsp in if cr_maxTTL c > 0 \<and> ttl > cr_maxTTL c then cr_maxTTL c else ttl)"

text \<open>Writing a response to the cache, through a temporary file. Errors are only logged.\<close>

definition write_cached ::
  "('q, 's, 'b, 'w) file_backed_runner \<Rightarrow> string \<Rightarrow> string \<Rightarrow> go_time \<Rightarrow> 's \<Rightarrow> 'w \<Rightarrow> 'w" where
  "write_cached c name key deadline rsp w =
     (case cr_Marshal c (deadline, rsp) of
        None \<Rightarrow> w
      | Some msg \<Rightarrow>
          (case fs_MkdirAll (cr_fs c) name w of
             (Some _, w1) \<Rightarrow> w1
           | (None, w1) \<Rightarrow>
               (case fs_TempFile (cr_fs c) name w1 of
                  (Inl _, w2) \<Rightarrow> w2
                | (Inr tmp, w2) \<Rightarrow>
                    (case fs_Write (cr_fs c) tmp msg w2 of
                       (Some _, w3) \<Rightarrow> snd (fs_Close (cr_fs c) tmp w3)
                     | (None, w3) \<Rightarrow>
                         (case fs_Close (cr_fs c) tmp w3 of
                            (Some _, w4) \<Rightarrow> w4
                          | (None, w4) \<Rightarrow> snd (fs_Rename (cr_fs c) tmp key w4))))))"

text \<open>
  A miss: the wrapped function is called and its response is written, with nothing in between. The
  code runs such calls concurrently; each writes a temporary file of its own and renames it.
\<close>

definition CacheFunction ::
  "('q, 's, 'b, 'w) file_backed_runner \<Rightarrow> string \<Rightarrow> 'q \<Rightarrow> go_time \<Rightarrow> 'w \<Rightarrow> 's res \<times> 'w" where
  "CacheFunction c name req now w =
     (if cr_Tag c req = [] then cr_wrapped c name req w
      else
        (let key = filepath_Join [name, cr_Tag c req] in
         case cr_wrapped c name req w of
           (Inl e, w1) \<Rightarrow> (Inl e, w1)
         | (Inr rsp, w1) \<Rightarrow>
             if cr_Ttl c rsp = 0 then (Inr rsp, w1)
             else (Inr rsp, write_cached c name key (now + clamped_ttl c rsp) rsp w1)))"

text \<open>
  What is found in the cache at the time \<open>now\<close>: a response, or the reason for a miss. The deadline of
  a message without one is the beginning of the epoch.
\<close>

definition look_up ::
  "('q, 's, 'b, 'w) file_backed_runner \<Rightarrow> string \<Rightarrow> go_time \<Rightarrow> 'w \<Rightarrow> (cache_miss + 's) \<times> 'w" where
  "look_up c key now w =
     (case fs_ReadFile (cr_fs c) key w of
        (Inl ErrNotExist, w1) \<Rightarrow> (Inl NotCached, w1)
      | (Inl (FsError _), w1) \<Rightarrow> (Inl ReasonError, w1)
      | (Inr b, w1) \<Rightarrow>
          (case cr_Unmarshal c b of
             None \<Rightarrow> (Inl ReasonError, w1)
           | Some (deadline, rsp) \<Rightarrow>
               if now > deadline then (Inl DeadlineExpired, w1) else (Inr rsp, w1)))"

text \<open>The times are the readings of the clock at the look-up and after the wrapped call.\<close>

definition cached_RunFunction ::
  "('q, 's, 'b, 'w) file_backed_runner \<Rightarrow> string \<Rightarrow> 'q \<Rightarrow> go_time \<Rightarrow> go_time \<Rightarrow> 'w \<Rightarrow>
     (cache_miss option \<times> 's res) \<times> 'w" where
  "cached_RunFunction c name req now later w =
     (if cr_Tag c req = [] then
        (case cr_wrapped c name req w of (r, w1) \<Rightarrow> ((Some EmptyRequestTag, r), w1))
      else
        (case look_up c (filepath_Join [name, cr_Tag c req]) now w of
           (Inr rsp, w1) \<Rightarrow> ((None, Inr rsp), w1)
         | (Inl reason, w1) \<Rightarrow>
             (case CacheFunction c name req later w1 of (r, w2) \<Rightarrow> ((Some reason, r), w2))))"

section \<open>Garbage collection\<close>

text \<open>
  An entry of a walk, with the error the walk reports for it and whether its size can be read. A
  visit goes on, stops the walk with an error, or panics when the size is read of an entry whose
  information could not be.
\<close>

record walk_entry =
  we_Path :: string
  we_IsDir :: bool
  we_Err :: "fs_error option"
  we_Info :: bool

datatype visited = Continue | Stop fs_error | Panic

definition gc_visit ::
  "('q, 's, 'b, 'w) file_backed_runner \<Rightarrow> go_time \<Rightarrow> bool \<Rightarrow> walk_entry \<Rightarrow> nat \<Rightarrow> 'w \<Rightarrow> visited \<times> nat \<times> 'w"
where
  "gc_visit c now cancelled d collected w =
     (case we_Err d of
        Some err \<Rightarrow> (Stop err, collected, w)
      | None \<Rightarrow>
          if cancelled then (Continue, collected, w)
          else if we_IsDir d then
            (if we_Path d = ''/'' then (Continue, collected, w)
             else
               (case fs_ReadDir (cr_fs c) (we_Path d) w of
                  (Inl _, w1) \<Rightarrow> (Continue, collected, w1)
                | (Inr entries, w1) \<Rightarrow>
                    if length entries > 0 then (Continue, collected, w1)
                    else (Continue, collected, snd (fs_Remove (cr_fs c) (we_Path d) w1))))
          else
            (case fs_ReadFile (cr_fs c) (we_Path d) w of
               (Inl _, w1) \<Rightarrow> (Continue, collected, w1)
             | (Inr b, w1) \<Rightarrow>
                 (case cr_Unmarshal c b of
                    None \<Rightarrow> (Continue, collected, w1)
                  | Some (deadline, _) \<Rightarrow>
                      if now < deadline then (Continue, collected, w1)
                      else
                        (case fs_Remove (cr_fs c) (we_Path d) w1 of
                           (Some _, w2) \<Rightarrow> (Continue, collected, w2)
                         | (None, w2) \<Rightarrow>
                             (if we_Info d then Continue else Panic, Suc collected, w2)))))"

text \<open>A collection: for each visit the clock and whether the context is cancelled by then.\<close>

fun gc_walk ::
  "('q, 's, 'b, 'w) file_backed_runner \<Rightarrow> (go_time \<times> bool \<times> walk_entry) list \<Rightarrow> nat \<Rightarrow> 'w \<Rightarrow> visited \<times> nat \<times> 'w"
where
  "gc_walk c [] collected w = (Continue, collected, w)"
| "gc_walk c ((now, cancelled, d) # ds) collected w =
     (case gc_visit c now cancelled d collected w of
        (Continue, n, w1) \<Rightarrow> gc_walk c ds n w1
      | (r, n, w1) \<Rightarrow> (r, n, w1))"

definition GarbageCollectFilesNow ::
  "('q, 's, 'b, 'w) file_backed_runner \<Rightarrow> (go_time \<times> bool \<times> walk_entry) list \<Rightarrow> 'w \<Rightarrow> visited \<times> nat \<times> 'w" where
  "GarbageCollectFilesNow c ds w = gc_walk c ds 0 w"

section \<open>The layers of the core\<close>

text \<open>
  The cache around the runner that fetches what a function requires, as \<^verbatim>\<open>cmd/crossplane/core\<close> puts
  them together. The world is that of the functions and the disk.
\<close>

definition cached_fetching ::
  "('a, 'p, 'r, 's, 'c, 'x, 'y, 'w) fetching_runner \<Rightarrow> ('b, 'w \<times> 'd) filesystem \<Rightarrow> duration \<Rightarrow>
   (('r, 's, 'c, 'x) fn_request \<Rightarrow> string) \<Rightarrow> (('a, 'p, 'c, 'y) fn_response \<Rightarrow> duration) \<Rightarrow>
   (go_time \<times> ('a, 'p, 'c, 'y) fn_response \<Rightarrow> 'b option) \<Rightarrow>
   ('b \<Rightarrow> (go_time \<times> ('a, 'p, 'c, 'y) fn_response) option) \<Rightarrow>
   (('r, 's, 'c, 'x) fn_request, ('a, 'p, 'c, 'y) fn_response, 'b, 'w \<times> 'd) file_backed_runner" where
  "cached_fetching fc fs maxTTL tag ttl marshal unmarshal =
     \<lparr>cr_wrapped = \<lambda>name req (w, d). (case RunFunction fc name req w of (r, _, w1) \<Rightarrow> (r, (w1, d))),
      cr_fs = fs, cr_maxTTL = maxTTL, cr_Tag = tag, cr_Ttl = ttl, cr_Marshal = marshal, cr_Unmarshal = unmarshal\<rparr>"

end
