(* ===== verification/FetchRunnerCorrect.thy ===== *)
theory FetchRunnerCorrect
  imports FetchRunner
begin

text \<open>
  Correctness of the fetching function runner: a final response answers a request that holds all it
  requires, the early return changes nothing for a function that passes the context on, and the
  number of calls is bounded. What the runner needs of a fetcher is a locale, which the fetcher of
  existing resources satisfies.
\<close>

section \<open>Fetchers\<close>

lemma same_map_iff: "same_map a b \<longleftrightarrow> map_of a = map_of b"
proof
  assume s: "same_map a b"
  show "map_of a = map_of b"
  proof
    fix k
    show "map_of a k = map_of b k"
      using s by (cases "k \<in> keys a \<union> keys b") (auto simp: same_map_def not_in_keys_iff)
  qed
qed (simp add: same_map_def)

lemma reqs_equal_refl [simp]: "reqs_equal a a"
  by (simp add: reqs_equal_def same_map_def split: option.split)

text \<open>A fetcher that only reads: while the world stays the same, so does its answer.\<close>

locale steady_fetcher =
  fixes fetch :: "'q \<Rightarrow> 'w \<Rightarrow> 'v res \<times> 'w"
  assumes keeps: "snd (fetch q w) = w"
begin

lemma fetch_cases:
  obtains e where "fetch q w = (Inl e, w)" | v where "fetch q w = (Inr v, w)"
  using keeps [of q w] by (cases "fetch q w"; cases "fst (fetch q w)") auto

lemma fetch_all_keeps: "snd (fetch_all fetch what l m w) = w"
proof (induction l arbitrary: m)
  case (Cons a l)
  obtain n q where "a = (n, q)" by (cases a)
  then show ?case using Cons by (cases rule: fetch_cases [of q w]) simp_all
qed simp

lemma fetched:
  assumes "fetch_all fetch what l m w = (Inr m', w')" "distinct (map fst l)"
  shows "(\<forall>n q. map_of l n = Some q \<longrightarrow> (\<exists>v. fst (fetch q w) = Inr v \<and> fmlookup m' n = Some v)) \<and>
    (\<forall>n. map_of l n = None \<longrightarrow> fmlookup m' n = fmlookup m n)"
  using assms
proof (induction l arbitrary: m)
  case (Cons a l)
  obtain n q where a: "a = (n, q)" by (cases a)
  obtain v where v: "fst (fetch q w) = Inr v" "fetch_all fetch what l (fmupd n v m) w = (Inr m', w')"
    using Cons.prems(1) a by (cases rule: fetch_cases [of q w]) auto
  have d: "distinct (map fst l)" "map_of l n = None" using Cons.prems(2) a by (auto simp: map_of_eq_None_iff)
  from Cons.IH [OF v(2) d(1)] d(2) v(1) a show ?case by auto
qed simp

end

interpretation existing: steady_fetcher "Fetch client as_struct" for client as_struct
proof
  show "snd (Fetch client as_struct q w) = w" for q w
    by (simp add: Fetch_def split: option.split match_by.split sum.split)
qed

section \<open>What a request holds\<close>

definition wf_reqs :: "('q, 'p) requirements \<Rightarrow> bool" where
  "wf_reqs q \<longleftrightarrow> distinct (map fst (rr_ExtraResources q)) \<and> distinct (map fst (rr_Resources q)) \<and>
     distinct (map fst (rr_Schemas q))"

text \<open>Everything required has been fetched, in the state \<open>w\<close> of the world, and is in the request.\<close>

definition meets ::
  "('q, 'p, 'r, 's, 'c, 'x, 'y, 'w) fetching_runner \<Rightarrow> 'w \<Rightarrow> ('q, 'p) requirements \<Rightarrow> ('r, 's, 'c, 'x) fn_request \<Rightarrow> bool" where
  "meets c w q req \<longleftrightarrow>
     (\<forall>n s. map_of (rr_ExtraResources q) n = Some s \<longrightarrow>
        (\<exists>v. fst (fn_resources c s w) = Inr v \<and> fmlookup (fr_ExtraResources req) n = Some v)) \<and>
     (\<forall>n s. map_of (rr_Resources q) n = Some s \<longrightarrow>
        (\<exists>v. fst (fn_resources c s w) = Inr v \<and> fmlookup (fr_RequiredResources req) n = Some v)) \<and>
     (\<forall>n s. map_of (rr_Schemas q) n = Some s \<longrightarrow>
        (\<exists>v. fst (fn_schemas c s w) = Inr v \<and> fmlookup (fr_RequiredSchemas req) n = Some v))"

lemma meets_equal: "reqs_equal (Some a) (Some b) \<Longrightarrow> meets c w b req = meets c w a req"
  by (simp add: reqs_equal_def same_map_iff meets_def)

text \<open>Nothing the runner calls changes the world, and the function only depends on its request.\<close>

definition steady :: "('q, 'p, 'r, 's, 'c, 'x, 'y, 'w) fetching_runner \<Rightarrow> string \<Rightarrow> bool" where
  "steady c name \<longleftrightarrow>
     (\<forall>i req w. fn_wrapped c i name req w = fn_wrapped c 0 name req w \<and> snd (fn_wrapped c i name req w) = w) \<and>
     (\<forall>q w. snd (fn_resources c q w) = w) \<and> (\<forall>p w. snd (fn_schemas c p w) = w)"

lemma steadyD:
  assumes "steady c name"
  shows "fn_wrapped c i name req w = fn_wrapped c 0 name req w" "snd (fn_wrapped c i name req w) = w"
    "steady_fetcher (fn_resources c)" "steady_fetcher (fn_schemas c)"
  using assms by (auto simp: steady_def steady_fetcher_def)

lemma steady_call:
  assumes "steady c name"
  shows "fn_wrapped c i name req w = (fst (fn_wrapped c 0 name req w), w)"
  using steadyD(1,2) [OF assms] by (metis prod.collapse)

lemma resolve_keeps:
  assumes "steady c name"
  shows "snd (resolve_required c bR bS reqs w) = w"
proof -
  note kR = steady_fetcher.fetch_all_keeps [OF steadyD(3) [OF assms]]
  note kS = steady_fetcher.fetch_all_keeps [OF steadyD(4) [OF assms]]
  show ?thesis
    unfolding resolve_required_def Let_def
    by (auto split: prod.split sum.split) (metis kR kS snd_conv)+
qed

lemma resolve_meets:
  assumes "steady c name" "wf_reqs q" "resolve_required c bR bS (Some q) w = (Inr nxt, w')"
  shows "meets c w q (next_request req nxt ctx)"
proof -
  let ?R = "\<lambda>l m. fetch_all (fn_resources c) ''fetching resources for '' l m w"
  have kR: "\<exists>x. ?R l m = (x, w)" for l m
    using steady_fetcher.fetch_all_keeps [OF steadyD(3) [OF assms(1)]] by (metis prod.collapse)
  note fR = steady_fetcher.fetched [OF steadyD(3) [OF assms(1)]]
  note fS = steady_fetcher.fetched [OF steadyD(4) [OF assms(1)]]
  obtain e where e: "?R (rr_ExtraResources q) fmempty = (Inr e, w)"
    using assms(3) kR [of "rr_ExtraResources q" fmempty] by (auto simp: resolve_required_def split: sum.splits)
  then obtain r where r: "?R (rr_Resources q) bR = (Inr r, w)"
    using assms(3) kR [of "rr_Resources q" bR] by (auto simp: resolve_required_def split: sum.splits)
  with e obtain s w2 where s: "fetch_all (fn_schemas c) ''fetching schema for '' (rr_Schemas q) bS w = (Inr s, w2)"
    using assms(3) by (auto simp: resolve_required_def split: prod.splits sum.splits)
  have nxt: "nxt = \<lparr>rq_resources = r, rq_extra = e, rq_schemas = s\<rparr>"
    using assms(3) e r s by (simp add: resolve_required_def)
  show ?thesis
    using fR [OF e] fR [OF r] fS [OF s] assms(2)
    by (simp add: meets_def nxt next_request_def wf_reqs_def)
qed

section \<open>The final response\<close>

lemma run_loop_final:
  assumes "steady c name" "\<forall>r rsp q. fst (fn_wrapped c 0 name r w) = Inr rsp \<longrightarrow> fs_Requirements rsp = Some q \<longrightarrow> wf_reqs q"
    "run_loop c name bR bS n i reqs req w = (Inr rsp, req', w')"
    "\<forall>q. reqs = Some q \<longrightarrow> meets c w q req"
  shows "fst (fn_wrapped c 0 name req' w) = Inr rsp \<and> w' = w \<and>
    (SEVERITY_FATAL \<notin> set (fs_Results rsp) \<longrightarrow>
       (\<forall>q. fs_Requirements rsp = Some q \<longrightarrow> meets c w q req'))"
  using assms(3,4)
proof (induction n arbitrary: i reqs req)
  case (Suc n)
  obtain r where r: "fst (fn_wrapped c 0 name req w) = Inr r"
    using Suc.prems(1) steady_call [OF assms(1), of i req w] by (auto split: sum.splits)
  have call: "fn_wrapped c i name req w = (Inr r, w)" using steady_call [OF assms(1)] r by metis
  consider (fatal) "SEVERITY_FATAL \<in> set (fs_Results r)"
    | (stable) "SEVERITY_FATAL \<notin> set (fs_Results r)" "reqs_equal (fs_Requirements r) reqs"
    | (fetch) "SEVERITY_FATAL \<notin> set (fs_Results r)" "\<not> reqs_equal (fs_Requirements r) reqs" by blast
  then show ?case
  proof cases
    case fatal
    then show ?thesis using Suc.prems(1) call r by simp
  next
    case stable
    have "meets c w q req" if q: "fs_Requirements r = Some q" for q
    proof -
      obtain p where p: "reqs = Some p" "reqs_equal (Some q) (Some p)"
        using stable(2) [unfolded q] by (cases reqs) (auto simp: reqs_equal_def)
      then show ?thesis using Suc.prems(2) meets_equal by metis
    qed
    then show ?thesis using Suc.prems(1) call r stable by auto
  next
    case fetch
    obtain nxt where nxt: "resolve_required c bR bS (fs_Requirements r) w = (Inr nxt, w)"
      using Suc.prems(1) call fetch resolve_keeps [OF assms(1), of bR bS "fs_Requirements r" w]
      by (auto split: prod.splits sum.splits)
    have m: "meets c w q (next_request req nxt ctx)" if "fs_Requirements r = Some q" for q ctx
      using resolve_meets [OF assms(1) _ nxt [unfolded that]] assms(2) r that by blast
    show ?thesis
    proof (cases "i = 0 \<and> already_sent req nxt")
      case True
      then have "next_request req nxt (fr_Context req) = req" by (simp add: next_request_def already_sent_def)
      moreover have "rsp = r \<and> req' = req \<and> w' = w" using Suc.prems(1) call fetch nxt True by simp
      ultimately show ?thesis using r m [of _ "fr_Context req"] by simp
    next
      case False
      have "run_loop c name bR bS n (i + 1) (fs_Requirements r) (next_request req nxt (fs_Context r)) w = (Inr rsp, req', w')"
        using Suc.prems(1) call fetch nxt False by simp
      then show ?thesis using m by (intro Suc.IH) auto
    qed
  qed
qed simp

section \<open>Without the early return\<close>

text \<open>The loop that always calls the function again until its requirements are the same twice.\<close>

fun plain_loop ::
  "('q, 'p, 'r, 's, 'c, 'x, 'y, 'w) fetching_runner \<Rightarrow> string \<Rightarrow> (string, 'r option) fmap \<Rightarrow> (string, 's) fmap \<Rightarrow>
   nat \<Rightarrow> nat \<Rightarrow> ('q, 'p) requirements option \<Rightarrow> ('r, 's, 'c, 'x) fn_request \<Rightarrow> 'w \<Rightarrow>
   ('q, 'p, 'c, 'y) fn_response res \<times> ('r, 's, 'c, 'x) fn_request \<times> 'w" where
  "plain_loop c name bootR bootS 0 i requirements req w =
     (Inl (Errorf ''requirements did not stabilize after the maximum number of iterations''
             [nat_to_dec MaxRequirementsIterations]), req, w)"
| "plain_loop c name bootR bootS (Suc n) i requirements req w =
     (case fn_wrapped c i name req w of
        (Inl e, w) \<Rightarrow> (Inl e, req, w)
      | (Inr rsp, w) \<Rightarrow>
          if SEVERITY_FATAL \<in> set (fs_Results rsp) then (Inr rsp, req, w)
          else if reqs_equal (fs_Requirements rsp) requirements then (Inr rsp, req, w)
          else (case resolve_required c bootR bootS (fs_Requirements rsp) w of
                  (Inl e, w) \<Rightarrow> (Inl e, req, w)
                | (Inr nxt, w) \<Rightarrow> plain_loop c name bootR bootS n (i + 1) (fs_Requirements rsp)
                                    (next_request req nxt (fs_Context rsp)) w))"

lemma run_loop_later: "0 < i \<Longrightarrow> run_loop c name bR bS n i reqs req w = plain_loop c name bR bS n i reqs req w"
  by (induction n arbitrary: i reqs req w) (auto split: prod.split sum.split)

lemma already_sent_next: "already_sent req nxt \<Longrightarrow> next_request req nxt (fr_Context req) = req"
  by (simp add: next_request_def already_sent_def)

text \<open>
  C17: The early return is sound for a function that passes the context on: when the resources and
  schemas it was given up front already are what it requires, and its first response has the
  context of the request, calling it again, in a world that stays the same, gives the same
  response, request and world.
\<close>

theorem early_return_sound:
  assumes "steady c name" "\<forall>rsp. fst (fn_wrapped c 0 name req w) = Inr rsp \<longrightarrow> fs_Context rsp = fr_Context req"
  shows "RunFunction c name req w =
    plain_loop c name (fr_RequiredResources req) (fr_RequiredSchemas req) (MaxRequirementsIterations + 1) 0 None req w"
proof -
  let ?bR = "fr_RequiredResources req" and ?bS = "fr_RequiredSchemas req"
  obtain k where two: "MaxRequirementsIterations = Suc k"
    by (cases MaxRequirementsIterations) (simp_all add: MaxRequirementsIterations_def)
  show ?thesis
  proof (cases "fst (fn_wrapped c 0 name req w)")
    case (Inl e)
    then show ?thesis
      using steady_call [OF assms(1), of 0 req w] by (simp add: RunFunction_def two)
  next
    case (Inr rsp)
    have call: "fn_wrapped c i name req w = (Inr rsp, w)" for i
      using steady_call [OF assms(1), of i req w] Inr by simp
    obtain x where x: "resolve_required c ?bR ?bS (fs_Requirements rsp) w = (x, w)"
      using resolve_keeps [OF assms(1)] by (metis prod.collapse)
    have ctx: "fs_Context rsp = fr_Context req" using assms(2) Inr by blast
    show ?thesis
    proof (cases x)
      case (Inr nxt)
      show ?thesis
      proof (cases "already_sent req nxt")
        case True
        have "next_request req nxt (fs_Context rsp) = req"
          using already_sent_next [OF True] by (simp add: ctx)
        then show ?thesis
          using True by (simp add: RunFunction_def two call x Inr)
      next
        case False
        then show ?thesis by (simp add: RunFunction_def call x Inr run_loop_later)
      qed
    qed (simp add: RunFunction_def two call x)
  qed
qed

section \<open>Property\<close>

text \<open>
  A response that is not fatal is final: the request it answers, which is also the request the
  caller is left with, holds everything the response requires, as the API server has it now. So a
  function is never trusted before it has seen all of its requirements. (The function depends on
  its request only, and the world stays the same during the run.)
\<close>

theorem RunFunction_final:
  assumes "steady c name"
    "\<forall>r rsp q. fst (fn_wrapped c 0 name r w) = Inr rsp \<longrightarrow> fs_Requirements rsp = Some q \<longrightarrow> wf_reqs q"
    "RunFunction c name req w = (Inr rsp, req', w')" "SEVERITY_FATAL \<notin> set (fs_Results rsp)"
  shows "fst (fn_wrapped c 0 name req' w) = Inr rsp \<and>
    (\<forall>q. fs_Requirements rsp = Some q \<longrightarrow> meets c w q req')"
  using run_loop_final [OF assms(1,2) assms(3) [unfolded RunFunction_def]] assms(4) by simp

section \<open>Examples\<close>

text \<open>A function that requires the object \<open>n/a\<close> and answers with what it was given.\<close>

type_synonym toy_request = "(string list, unit, string, unit) fn_request"
type_synonym toy_response = "(string resource_selector option, unit, string, string list option option) fn_response"

definition toy_reqs :: "(string resource_selector option, unit) requirements" where
  "toy_reqs = \<lparr>rr_ExtraResources = [],
     rr_Resources = [(''cm'', Some \<lparr>rs_ApiVersion = ''v1'', rs_Kind = ''ConfigMap'', rs_Namespace = ''n'',
        rs_Match = MatchName ''a''\<rparr>)], rr_Schemas = []\<rparr>"

definition toy_function :: "toy_request \<Rightarrow> toy_response" where
  "toy_function req = \<lparr>fs_Results = [], fs_Requirements = Some toy_reqs, fs_Context = fr_Context req,
     fs_rest = fmlookup (fr_RequiredResources req) ''cm''\<rparr>"

definition toy_reader :: "(string, string, unit) reader" where
  "toy_reader = \<lparr>rc_Get = (\<lambda>v k ns n w. Inr (Some \<lparr>ko_Namespace = ns, ko_Name = n, ko_data = ''data''\<rparr>)),
     rc_List = (\<lambda>v k ns l w. Inr [])\<rparr>"

definition toy_runner ::
  "(toy_request \<Rightarrow> toy_response) \<Rightarrow>
   (string resource_selector option, unit, string list, unit, string, unit, string list option option, unit) fetching_runner" where
  "toy_runner f = \<lparr>fn_wrapped = (\<lambda>i n req w. (Inr (f req), w)),
     fn_resources = Fetch toy_reader (\<lambda>r. Inr (ko_data r)), fn_schemas = (\<lambda>p w. (Inr (), w))\<rparr>"

definition toy_request :: toy_request where
  "toy_request = \<lparr>fr_RequiredResources = fmempty, fr_ExtraResources = fmempty, fr_RequiredSchemas = fmempty,
     fr_Context = '''', fr_rest = ()\<rparr>"

lemma toy_steady: "steady (toy_runner f) ''f''"
  using existing.keeps [of toy_reader "\<lambda>r. Inr (ko_data r)"] by (simp add: steady_def toy_runner_def)

lemma toy_fetch:
  "fn_resources (toy_runner f) (Some \<lparr>rs_ApiVersion = v, rs_Kind = k, rs_Namespace = ns, rs_Match = MatchName n\<rparr>) w =
     (Inr (Some [''data'']), w)"
  by (simp add: toy_runner_def Fetch_def toy_reader_def)

definition toy_final :: toy_request where
  "toy_final = toy_request\<lparr>fr_RequiredResources := fmupd ''cm'' (Some [''data'']) fmempty\<rparr>"

lemma toy_required:
  "resolve_required (toy_runner f) fmempty fmempty (Some toy_reqs) w =
     (Inr \<lparr>rq_resources = fmupd ''cm'' (Some [''data'']) fmempty, rq_extra = fmempty, rq_schemas = fmempty\<rparr>, w)"
  by (simp add: resolve_required_def toy_reqs_def toy_fetch Let_def)

lemma toy_call: "fn_wrapped (toy_runner f) i n req w = (Inr (f req), w)"
  by (simp add: toy_runner_def)

lemma toy_function_fields:
  "fs_Results (toy_function r) = []" "fs_Requirements (toy_function r) = Some toy_reqs"
  "fs_Context (toy_function r) = fr_Context r"
  by (simp_all add: toy_function_def)

lemma toy_reqs_not_nil: "\<not> reqs_equal (Some toy_reqs) None"
  by (simp add: reqs_equal_def)

lemma toy_run: "RunFunction (toy_runner toy_function) ''f'' toy_request () = (Inr (toy_function toy_final), toy_final, ())"
proof -
  obtain k where k: "MaxRequirementsIterations = Suc k"
    by (cases MaxRequirementsIterations) (simp_all add: MaxRequirementsIterations_def)
  have e: "fr_RequiredResources toy_request = fmempty" "fr_RequiredSchemas toy_request = fmempty"
    "fr_ExtraResources toy_request = fmempty" by (simp_all add: toy_request_def)
  have s: "\<not> already_sent toy_request \<lparr>rq_resources = fmupd ''cm'' (Some [''data'']) fmempty,
      rq_extra = fmempty, rq_schemas = fmempty\<rparr>"
    by (simp add: already_sent_def e)
  have n: "next_request toy_request \<lparr>rq_resources = fmupd ''cm'' (Some [''data'']) fmempty,
      rq_extra = fmempty, rq_schemas = fmempty\<rparr> (fr_Context toy_request) = toy_final"
    by (simp add: next_request_def toy_final_def toy_request_def)
  show ?thesis
    by (simp add: RunFunction_def k toy_call toy_function_fields toy_reqs_not_nil e toy_required s n)
qed

theorem RunFunction_final_witness:
  "fs_rest (toy_function toy_final) = Some (Some [''data'']) \<and> meets (toy_runner toy_function) () toy_reqs toy_final"
proof -
  have "\<forall>r rsp q. fst (fn_wrapped (toy_runner toy_function) 0 ''f'' r ()) = Inr rsp \<longrightarrow>
      fs_Requirements rsp = Some q \<longrightarrow> wf_reqs q"
    by (auto simp: toy_call toy_function_def toy_reqs_def wf_reqs_def)
  from RunFunction_final [OF toy_steady this toy_run] show ?thesis
    by (simp add: toy_function_def toy_final_def)
qed

theorem early_return_sound_witness:
  "fst (RunFunction (toy_runner toy_function) ''f'' toy_final ()) = Inr (toy_function toy_final) \<and>
   RunFunction (toy_runner toy_function) ''f'' toy_final () =
     plain_loop (toy_runner toy_function) ''f'' (fr_RequiredResources toy_final) fmempty
       (MaxRequirementsIterations + 1) 0 None toy_final ()"
proof -
  have r: "resolve_required (toy_runner toy_function) (fr_RequiredResources toy_final) fmempty (Some toy_reqs) () =
     (Inr \<lparr>rq_resources = fmupd ''cm'' (Some [''data'']) fmempty, rq_extra = fmempty, rq_schemas = fmempty\<rparr>, ())"
    by (simp add: resolve_required_def toy_reqs_def toy_fetch toy_final_def Let_def)
  have s: "already_sent toy_final \<lparr>rq_resources = fmupd ''cm'' (Some [''data'']) fmempty,
      rq_extra = fmempty, rq_schemas = fmempty\<rparr>"
    by (simp add: already_sent_def toy_final_def toy_request_def)
  have e: "fr_RequiredSchemas toy_final = fmempty" by (simp add: toy_final_def toy_request_def)
  have "\<forall>rsp. fst (fn_wrapped (toy_runner toy_function) 0 ''f'' toy_final ()) = Inr rsp \<longrightarrow>
      fs_Context rsp = fr_Context toy_final"
    by (simp add: toy_call toy_function_def)
  note p = early_return_sound [OF toy_steady this, unfolded e]
  moreover have "fst (RunFunction (toy_runner toy_function) ''f'' toy_final ()) = Inr (toy_function toy_final)"
    by (simp add: RunFunction_def toy_call e toy_function_fields toy_reqs_not_nil r s)
  ultimately show ?thesis by blast
qed


section \<open>Where the early return differs, and the number of calls\<close>

text \<open>
  A first call whose response changes the context is returned at once when nothing is missing, though
  the function would answer differently when called again with that context.
\<close>

definition context_function :: "toy_request \<Rightarrow> toy_response" where
  "context_function req = \<lparr>fs_Results = [], fs_Requirements = Some no_requirements, fs_Context = ''seen'',
     fs_rest = (if fr_Context req = ''seen'' then Some None else None)\<rparr>"

lemma early_return_context:
  "fs_rest (projr (fst (RunFunction (toy_runner context_function) ''f'' toy_request ()))) = None"
  "fs_rest (projr (fst (plain_loop (toy_runner context_function) ''f'' fmempty fmempty
     (MaxRequirementsIterations + 1) 0 None toy_request ()))) = Some None"
proof -
  obtain k where k: "MaxRequirementsIterations = Suc k"
    by (cases MaxRequirementsIterations) (simp_all add: MaxRequirementsIterations_def)
  have r: "resolve_required (toy_runner context_function) fmempty fmempty (Some no_requirements) () =
     (Inr \<lparr>rq_resources = fmempty, rq_extra = fmempty, rq_schemas = fmempty\<rparr>, ())"
    by (simp add: resolve_required_def no_requirements_def Let_def)
  have f: "fs_Results (context_function q) = []" "fs_Requirements (context_function q) = Some no_requirements"
    "fs_Context (context_function q) = ''seen''"
    "fs_rest (context_function q) = (if fr_Context q = ''seen'' then Some None else None)" for q
    by (simp_all add: context_function_def)
  have e: "fr_RequiredResources toy_request = fmempty" "fr_RequiredSchemas toy_request = fmempty"
    "fr_ExtraResources toy_request = fmempty" "fr_Context toy_request = ''''" by (simp_all add: toy_request_def)
  have ne: "\<not> reqs_equal (Some no_requirements) None" by (simp add: reqs_equal_def)
  show "fs_rest (projr (fst (RunFunction (toy_runner context_function) ''f'' toy_request ()))) = None"
    by (simp add: RunFunction_def k toy_call f e r ne already_sent_def)
  show "fs_rest (projr (fst (plain_loop (toy_runner context_function) ''f'' fmempty fmempty
     (MaxRequirementsIterations + 1) 0 None toy_request ()))) = Some None"
    by (simp add: k toy_call f e r ne next_request_def)
qed

text \<open>
  The function is called at most six times: one more than \<^verbatim>\<open>MaxRequirementsIterations\<close>. \<open>calls\<close> counts
  the calls in the state of the world.
\<close>

lemma run_loop_calls:
  assumes "\<And>i req w. calls (snd (fn_wrapped c i name req w)) = Suc (calls w)"
    "\<And>reqs w. calls (snd (resolve_required c bR bS reqs w)) = calls w"
  shows "calls (snd (snd (run_loop c name bR bS n i reqs req w))) \<le> calls w + n"
proof (induction n arbitrary: i reqs req w)
  case (Suc n)
  obtain x w1 where 1: "fn_wrapped c i name req w = (x, w1)" by fastforce
  then have c1: "calls w1 = Suc (calls w)" using assms(1) [of i req w] by simp
  show ?case
  proof (cases x)
    case (Inr rsp)
    obtain y w2 where 2: "resolve_required c bR bS (fs_Requirements rsp) w1 = (y, w2)" by fastforce
    then have c2: "calls w2 = calls w1" using assms(2) [of "fs_Requirements rsp" w1] by simp
    show ?thesis
    proof (cases y)
      case (Inr nxt)
      have "calls (snd (snd (run_loop c name bR bS n (i + 1) (fs_Requirements rsp)
          (next_request req nxt (fs_Context rsp)) w2))) \<le> calls w2 + n" by (rule Suc.IH)
      then show ?thesis using c1 c2 by (simp add: 1 2 \<open>x = Inr rsp\<close> Inr)
    qed (simp add: 1 2 Inr c1 c2)
  qed (simp add: 1 c1)
qed simp

lemma RunFunction_calls:
  assumes "\<And>i req w. calls (snd (fn_wrapped c i name req w)) = Suc (calls w)"
    "\<And>reqs w. calls (snd (resolve_required c (fr_RequiredResources req) (fr_RequiredSchemas req) reqs w)) = calls w"
  shows "calls (snd (snd (RunFunction c name req w))) \<le> calls w + 6"
  using run_loop_calls [of calls c name _ _ "MaxRequirementsIterations + 1", OF assms]
  by (simp add: RunFunction_def MaxRequirementsIterations_def)

end
