(* ===== verification/CachedRunnerCorrect.thy ===== *)
theory CachedRunnerCorrect
  imports CachedRunner FetchRunnerCorrect
begin

text \<open>
  What the cache of function responses serves: over every history of calls, collections and lost
  files, a response the wrapped runner gave to a request of the same name and tag, no older than its
  time to live. So a guarantee of the wrapped runner is one of the cache.
\<close>

section \<open>Keys\<close>

text \<open>Names and tags are plain: a single segment of a path, as DNS labels and hashes are.\<close>

definition plain :: "string \<Rightarrow> bool" where
  "plain s \<longleftrightarrow> s \<noteq> [] \<and> CHR ''/'' \<notin> set s \<and> s \<noteq> ''.'' \<and> s \<noteq> ''..''"

lemma Join_plain:
  assumes "plain name" "plain tag"
  shows "filepath_Join [name, tag] = name @ ''/'' @ tag"
proof -
  have "hd name \<noteq> CHR ''/''" using assms(1) by (cases name) (auto simp: plain_def)
  moreover have "split_on CHR ''/'' (name @ ''/'' @ tag) = [name, tag]"
    using assms by (simp add: plain_def split_on_append split_on_no_sep)
  ultimately show ?thesis
    using assms by (simp add: filepath_Join_def filepath_Clean_def plain_def)
qed

lemma Join_inj:
  assumes "plain name" "plain tag" "plain name'" "plain tag'"
    and "filepath_Join [name, tag] = filepath_Join [name', tag']"
  shows "name = name' \<and> tag = tag'"
proof -
  have "split_on CHR ''/'' (name @ ''/'' @ tag) = [name, tag]"
    "split_on CHR ''/'' (name' @ ''/'' @ tag') = [name', tag']"
    using assms(1-4) by (simp_all add: plain_def split_on_append split_on_no_sep)
  with assms show ?thesis by (simp add: Join_plain)
qed

section \<open>The file system and the encoding\<close>

text \<open>
  \<open>files w\<close> are the contents of the cache files. Other goroutines may remove files at any time, but
  only a rename puts one at a key, the whole file that was written to a temporary file. A message is
  read as it was written.
\<close>

definition kept :: "string set \<Rightarrow> (string \<Rightarrow> 'b option) \<Rightarrow> (string \<Rightarrow> 'b option) \<Rightarrow> bool" where
  "kept K f g \<longleftrightarrow> (\<forall>k \<in> K. g k = None \<or> g k = f k)"

definition documented_fs :: "('b, 'w) filesystem \<Rightarrow> ('w \<Rightarrow> string \<Rightarrow> 'b option) \<Rightarrow> string set \<Rightarrow> bool" where
  "documented_fs fs files K \<longleftrightarrow>
     (\<forall>k w r w1. fs_ReadFile fs k w = (r, w1) \<longrightarrow> kept K (files w) (files w1)) \<and>
     (\<forall>k w b w1. fs_ReadFile fs k w = (Inr b, w1) \<longrightarrow> files w k = Some b) \<and>
     (\<forall>k w e w1. fs_MkdirAll fs k w = (e, w1) \<longrightarrow> kept K (files w) (files w1)) \<and>
     (\<forall>k w t w1. fs_TempFile fs k w = (t, w1) \<longrightarrow> kept K (files w) (files w1)) \<and>
     (\<forall>k w tmp w1. fs_TempFile fs k w = (Inr tmp, w1) \<longrightarrow> tmp \<notin> K) \<and>
     (\<forall>tmp b w e w1. fs_Write fs tmp b w = (e, w1) \<longrightarrow> tmp \<notin> K \<longrightarrow> kept K (files w) (files w1)) \<and>
     (\<forall>tmp b w w1. fs_Write fs tmp b w = (None, w1) \<longrightarrow> tmp \<notin> K \<longrightarrow> files w1 tmp \<in> {None, Some b}) \<and>
     (\<forall>tmp w e w1. fs_Close fs tmp w = (e, w1) \<longrightarrow> kept (insert tmp K) (files w) (files w1)) \<and>
     (\<forall>tmp k w e w1. fs_Rename fs tmp k w = (e, w1) \<longrightarrow> kept (K - {k}) (files w) (files w1)) \<and>
     (\<forall>tmp k w e w1. fs_Rename fs tmp k w = (e, w1) \<longrightarrow> files w1 k \<in> {None, files w k, files w tmp}) \<and>
     (\<forall>k w e w1. fs_Remove fs k w = (e, w1) \<longrightarrow> kept K (files w) (files w1)) \<and>
     (\<forall>k w d w1. fs_ReadDir fs k w = (d, w1) \<longrightarrow> kept K (files w) (files w1))"

definition cache_keys :: "('q, 's, 'b, 'w) file_backed_runner \<Rightarrow> string set" where
  "cache_keys c = {filepath_Join [name, cr_Tag c req] | name req. plain name \<and> plain (cr_Tag c req)}"

definition documented_runner :: "('q, 's, 'b, 'w) file_backed_runner \<Rightarrow> ('w \<Rightarrow> string \<Rightarrow> 'b option) \<Rightarrow> bool" where
  "documented_runner c files \<longleftrightarrow>
     documented_fs (cr_fs c) files (cache_keys c) \<and>
     (\<forall>name req w. kept (cache_keys c) (files w) (files (snd (cr_wrapped c name req w)))) \<and>
     (\<forall>m b. cr_Marshal c m = Some b \<longrightarrow> cr_Unmarshal c b = Some m)"

lemma kept_refl [simp]: "kept K f f"
  by (simp add: kept_def)

lemma kept_trans: "kept K f g \<Longrightarrow> kept K g h \<Longrightarrow> kept K f h"
  unfolding kept_def by metis

lemma kept_mono: "kept K f g \<Longrightarrow> L \<subseteq> K \<Longrightarrow> kept L f g"
  by (auto simp: kept_def)

lemma fs_laws:
  assumes "documented_fs fs files K"
  shows "\<And>k w r w1. fs_ReadFile fs k w = (r, w1) \<Longrightarrow> kept K (files w) (files w1)"
    and "\<And>k w b w1. fs_ReadFile fs k w = (Inr b, w1) \<Longrightarrow> files w k = Some b"
    and "\<And>k w e w1. fs_MkdirAll fs k w = (e, w1) \<Longrightarrow> kept K (files w) (files w1)"
    and "\<And>k w t w1. fs_TempFile fs k w = (t, w1) \<Longrightarrow> kept K (files w) (files w1)"
    and "\<And>k w tmp w1. fs_TempFile fs k w = (Inr tmp, w1) \<Longrightarrow> tmp \<notin> K"
    and "\<And>tmp b w e w1. fs_Write fs tmp b w = (e, w1) \<Longrightarrow> tmp \<notin> K \<Longrightarrow> kept K (files w) (files w1)"
    and "\<And>tmp b w w1. fs_Write fs tmp b w = (None, w1) \<Longrightarrow> tmp \<notin> K \<Longrightarrow> files w1 tmp \<in> {None, Some b}"
    and "\<And>tmp w e w1. fs_Close fs tmp w = (e, w1) \<Longrightarrow> kept (insert tmp K) (files w) (files w1)"
    and "\<And>tmp k w e w1. fs_Rename fs tmp k w = (e, w1) \<Longrightarrow> kept (K - {k}) (files w) (files w1)"
    and "\<And>tmp k w e w1. fs_Rename fs tmp k w = (e, w1) \<Longrightarrow> files w1 k \<in> {None, files w k, files w tmp}"
    and "\<And>k w e w1. fs_Remove fs k w = (e, w1) \<Longrightarrow> kept K (files w) (files w1)"
    and "\<And>k w d w1. fs_ReadDir fs k w = (d, w1) \<Longrightarrow> kept K (files w) (files w1)"
  using assms unfolding documented_fs_def by simp_all metis

section \<open>The invariant\<close>

text \<open>
  The history of the answers of the wrapped runner: name, request, the time when the answer was
  there, and the response. A cache file holds an answer and its deadline.
\<close>

type_synonym ('q, 's) answers = "(string \<times> 'q \<times> go_time \<times> 's) set"

definition cache_entry ::
  "('q, 's, 'b, 'w) file_backed_runner \<Rightarrow> ('q, 's) answers \<Rightarrow> string \<Rightarrow> 'b \<Rightarrow> bool" where
  "cache_entry c H k b \<longleftrightarrow>
     (\<exists>name req now rsp. (name, req, now, rsp) \<in> H \<and> plain name \<and> plain (cr_Tag c req) \<and>
        k = filepath_Join [name, cr_Tag c req] \<and> cr_Unmarshal c b = Some (now + clamped_ttl c rsp, rsp))"

definition cache_ok ::
  "('q, 's, 'b, 'w) file_backed_runner \<Rightarrow> ('w \<Rightarrow> string \<Rightarrow> 'b option) \<Rightarrow> ('q, 's) answers \<Rightarrow> 'w \<Rightarrow> bool" where
  "cache_ok c files H w \<longleftrightarrow> (\<forall>k \<in> cache_keys c. \<forall>b. files w k = Some b \<longrightarrow> cache_entry c H k b)"

lemma cache_entry_mono: "cache_entry c H k b \<Longrightarrow> H \<subseteq> H' \<Longrightarrow> cache_entry c H' k b"
  unfolding cache_entry_def by blast

lemma cache_ok_kept:
  assumes "cache_ok c files H w" "kept (cache_keys c) (files w) (files w1)" "H \<subseteq> H'"
  shows "cache_ok c files H' w1"
  unfolding cache_ok_def
proof (intro ballI allI impI)
  fix k b assume "k \<in> cache_keys c" "files w1 k = Some b"
  then have "cache_entry c H k b" using assms(1,2) by (force simp: cache_ok_def kept_def)
  then show "cache_entry c H' k b" using assms(3) by (rule cache_entry_mono)
qed

lemma write_cached_ok:
  assumes doc: "documented_runner c files" and ok: "cache_ok c files H w"
    and a: "(name, req, now, rsp) \<in> H" "plain name" "plain (cr_Tag c req)"
  shows "cache_ok c files H (write_cached c name (filepath_Join [name, cr_Tag c req]) (now + clamped_ttl c rsp) rsp w)"
proof -
  let ?K = "cache_keys c" let ?key = "filepath_Join [name, cr_Tag c req]" let ?fs = "cr_fs c"
  have fs: "documented_fs ?fs files ?K" using doc by (simp add: documented_runner_def)
  note L = fs_laws [OF fs]
  show ?thesis
  proof (cases "cr_Marshal c (now + clamped_ttl c rsp, rsp)")
    case (Some msg)
    then have msg: "cr_Unmarshal c msg = Some (now + clamped_ttl c rsp, rsp)"
      using doc by (simp add: documented_runner_def)
    obtain e1 w1 where mk: "fs_MkdirAll ?fs name w = (e1, w1)" by force
    obtain t w2 where tf: "fs_TempFile ?fs name w1 = (t, w2)" by force
    have k2: "kept ?K (files w) (files w2)" "kept ?K (files w) (files w1)"
      using L(3) [OF mk] L(4) [OF tf] kept_trans by blast+
    show ?thesis
    proof (cases "e1 = None \<and> (\<exists>tmp. t = Inr tmp)")
      case True
      then obtain tmp where t: "t = Inr tmp" and e1: "e1 = None" by blast
      then have new: "tmp \<notin> ?K" using L(5) tf by blast
      obtain e3 w3 where wr: "fs_Write ?fs tmp msg w2 = (e3, w3)" by force
      obtain e4 w4 where cl: "fs_Close ?fs tmp w3 = (e4, w4)" by force
      obtain e5 w5 where rn: "fs_Rename ?fs tmp ?key w4 = (e5, w5)" by force
      have k4: "kept ?K (files w) (files w4)"
        using k2(1) L(6) [OF wr new] kept_mono [OF L(8) [OF cl], of ?K] kept_trans by blast
      note ok4 = cache_ok_kept [OF ok k4 subset_refl]
      have "cache_ok c files H w5" if "e3 = None"
      proof -
        have "files w4 tmp = None \<or> files w4 tmp = Some msg"
          using L(7) [OF wr [unfolded that] new] L(8) [OF cl] by (auto simp: kept_def)
        then have "files w5 ?key = None \<or> files w5 ?key = files w4 ?key \<or> files w5 ?key = Some msg"
          using L(10) [OF rn] by auto
        moreover have "cache_entry c H k b" if k: "k \<in> ?K" "files w5 k = Some b" for k b
        proof (cases "k = ?key")
          case True
          with calculation k have "files w4 k = Some b \<or> b = msg" by auto
          then show ?thesis
          proof
            assume "b = msg"
            with a msg True show ?thesis unfolding cache_entry_def by blast
          qed (use ok4 k(1) in \<open>simp add: cache_ok_def\<close>)
        next
          case False
          then have "files w4 k = Some b" using L(9) [OF rn] k by (force simp: kept_def)
          with ok4 k(1) show ?thesis by (simp add: cache_ok_def)
        qed
        ultimately show ?thesis by (simp add: cache_ok_def)
      qed
      with ok4 show ?thesis
        using Some mk tf t e1 wr cl rn by (auto simp: write_cached_def split: option.split)
    next
      case False
      with cache_ok_kept [OF ok k2(1) subset_refl] cache_ok_kept [OF ok k2(2) subset_refl] show ?thesis
        using Some mk tf by (auto simp: write_cached_def split: option.split sum.split)
    qed
  qed (use ok in \<open>simp add: write_cached_def\<close>)
qed

section \<open>Histories\<close>

text \<open>
  Calls, look-ups, visits of the collector and whatever else loses files, in any order. A call of
  \<^verbatim>\<open>RunFunction\<close> is a look-up, followed by a call of \<^verbatim>\<open>CacheFunction\<close> when it misses; others may come
  between.
\<close>

definition call_ok :: "('q, 's, 'b, 'w) file_backed_runner \<Rightarrow> string \<Rightarrow> 'q \<Rightarrow> bool" where
  "call_ok c name req \<longleftrightarrow> plain name \<and> (cr_Tag c req = [] \<or> plain (cr_Tag c req))"

inductive cache_reach for c files w0 where
  cache_start: "cache_reach c files w0 {} w0"
| cache_answer: "cache_reach c files w0 H w \<Longrightarrow> call_ok c name req \<Longrightarrow>
    CacheFunction c name req now w = (Inr rsp, w1) \<Longrightarrow> cache_reach c files w0 (insert (name, req, now, rsp) H) w1"
| cache_error: "cache_reach c files w0 H w \<Longrightarrow> CacheFunction c name req now w = (Inl e, w1) \<Longrightarrow>
    cache_reach c files w0 H w1"
| cache_look: "cache_reach c files w0 H w \<Longrightarrow> look_up c key now w = (r, w1) \<Longrightarrow> cache_reach c files w0 H w1"
| cache_visit: "cache_reach c files w0 H w \<Longrightarrow> gc_visit c now cancelled d n w = (v, n1, w1) \<Longrightarrow>
    cache_reach c files w0 H w1"
| cache_lost: "cache_reach c files w0 H w \<Longrightarrow> kept (cache_keys c) (files w) (files w1) \<Longrightarrow>
    cache_reach c files w0 H w1"

lemma runner_fs: "documented_runner c files \<Longrightarrow> documented_fs (cr_fs c) files (cache_keys c)"
  by (simp add: documented_runner_def)

lemma wrapped_kept:
  "documented_runner c files \<Longrightarrow> cr_wrapped c name req w = (r, w1) \<Longrightarrow> kept (cache_keys c) (files w) (files w1)"
  unfolding documented_runner_def by (metis snd_conv)

lemma look_up_kept:
  assumes "documented_runner c files" "look_up c key now w = (r, w1)"
  shows "kept (cache_keys c) (files w) (files w1)"
proof -
  obtain x w2 where rd: "fs_ReadFile (cr_fs c) key w = (x, w2)" by force
  with assms(2) have "w1 = w2"
    by (auto simp: look_up_def split: sum.splits fs_error.splits option.splits if_splits)
  with fs_laws(1) [OF runner_fs [OF assms(1)] rd] show ?thesis by simp
qed

lemma gc_visit_kept:
  assumes "documented_runner c files" "gc_visit c now cancelled d n w = (v, n1, w1)"
  shows "kept (cache_keys c) (files w) (files w1)"
proof -
  note L = fs_laws [OF runner_fs [OF assms(1)]]
  obtain x w2 where rd: "fs_ReadFile (cr_fs c) (we_Path d) w = (x, w2)" by force
  obtain e w3 where rm: "fs_Remove (cr_fs c) (we_Path d) w2 = (e, w3)" by force
  obtain y w4 where ls: "fs_ReadDir (cr_fs c) (we_Path d) w = (y, w4)" by force
  obtain e' w5 where rm': "fs_Remove (cr_fs c) (we_Path d) w4 = (e', w5)" by force
  have "w1 \<in> {w, w2, w3, w4, w5}"
    using assms(2) rd rm ls rm'
    by (auto simp: gc_visit_def split: option.splits if_splits sum.splits)
  then show ?thesis
    using L(1) [OF rd] L(11) [OF rm] L(12) [OF ls] L(11) [OF rm'] kept_trans by fastforce
qed

text \<open>A call that is answered was answered by the wrapped runner.\<close>

lemma CacheFunction_answer:
  assumes "CacheFunction c name req now w = (r, w1)"
  obtains w2 where "cr_wrapped c name req w = (r, w2)"
    "w1 = w2 \<or> (\<exists>rsp. r = Inr rsp \<and> cr_Tag c req \<noteq> [] \<and>
       w1 = write_cached c name (filepath_Join [name, cr_Tag c req]) (now + clamped_ttl c rsp) rsp w2)"
  using assms by (auto simp: CacheFunction_def Let_def split: prod.splits sum.splits if_splits)

lemma cache_reach_inv:
  assumes doc: "documented_runner c files" and start: "\<forall>k \<in> cache_keys c. files w0 k = None"
    and "cache_reach c files w0 H w"
  shows "cache_ok c files H w \<and> (\<forall>(name, req, t, rsp) \<in> H. \<exists>v v1. cr_wrapped c name req v = (Inr rsp, v1))"
  using assms(3)
proof induction
  case cache_start
  then show ?case using start by (simp add: cache_ok_def)
next
  case (cache_answer H w name req now rsp w1)
  let ?H = "insert (name, req, now, rsp) H"
  obtain w2 where wr: "cr_wrapped c name req w = (Inr rsp, w2)"
    and w1: "w1 = w2 \<or> cr_Tag c req \<noteq> [] \<and>
       w1 = write_cached c name (filepath_Join [name, cr_Tag c req]) (now + clamped_ttl c rsp) rsp w2"
    using CacheFunction_answer [OF cache_answer.hyps(3)] by (metis sum.inject(2))
  have ok2: "cache_ok c files ?H w2"
    using cache_ok_kept [where files = files and H = H and H' = ?H, OF _ wrapped_kept [OF doc wr]] cache_answer.IH by blast
  have "cache_ok c files ?H w1"
  proof (cases "w1 = w2")
    case False
    with w1 cache_answer.hyps(2) have "plain name" "plain (cr_Tag c req)"
      "w1 = write_cached c name (filepath_Join [name, cr_Tag c req]) (now + clamped_ttl c rsp) rsp w2"
      by (auto simp: call_ok_def)
    with write_cached_ok [OF doc ok2, of name req now rsp] show ?thesis by simp
  qed (use ok2 in simp)
  with wr cache_answer.IH show ?case by blast
next
  case (cache_error H w name req now e w1)
  obtain w2 where "cr_wrapped c name req w = (Inl e, w2)" "w1 = w2"
    using CacheFunction_answer [OF cache_error.hyps(2)] by (metis sum.distinct(1))
  with cache_ok_kept [where files = files and H = H and H' = H, OF _ wrapped_kept [OF doc, of name req w]]
    cache_error.IH show ?case by blast
next
  case (cache_look H w key now r w1)
  with cache_ok_kept [where files = files and H = H and H' = H, OF _ look_up_kept [OF doc]] show ?case by blast
next
  case (cache_visit H w now cancelled d n v n1 w1)
  with cache_ok_kept [where files = files and H = H and H' = H, OF _ gc_visit_kept [OF doc]] show ?case by blast
next
  case (cache_lost H w w1)
  with cache_ok_kept [where files = files and H = H and H' = H] show ?case by blast
qed

lemma look_up_hit:
  assumes doc: "documented_runner c files" and ok: "cache_ok c files H w"
    and p: "plain name" "plain (cr_Tag c req)"
    and hit: "look_up c (filepath_Join [name, cr_Tag c req]) now w = (Inr rsp, w1)"
  shows "\<exists>req' t. (name, req', t, rsp) \<in> H \<and> cr_Tag c req' = cr_Tag c req \<and> now \<le> t + clamped_ttl c rsp"
proof -
  let ?key = "filepath_Join [name, cr_Tag c req]"
  from hit obtain b deadline where b: "fs_ReadFile (cr_fs c) ?key w = (Inr b, w1)"
      "cr_Unmarshal c b = Some (deadline, rsp)" "now \<le> deadline"
    by (auto simp: look_up_def split: prod.splits sum.splits fs_error.splits option.splits if_splits)
  have "files w ?key = Some b" using fs_laws(2) [OF runner_fs [OF doc] b(1)] .
  moreover have "?key \<in> cache_keys c" unfolding cache_keys_def using p by blast
  ultimately have "cache_entry c H ?key b" using ok by (simp add: cache_ok_def)
  then obtain name' req' t rsp' where e: "(name', req', t, rsp') \<in> H" "plain name'" "plain (cr_Tag c req')"
      "?key = filepath_Join [name', cr_Tag c req']" "cr_Unmarshal c b = Some (t + clamped_ttl c rsp', rsp')"
    unfolding cache_entry_def by blast
  from Join_inj [OF p e(2,3,4)] e b(2,3) show ?thesis by auto
qed

lemma RunFunction_hit:
  "cached_RunFunction c name req now later w = ((None, r), w1) \<Longrightarrow>
     cr_Tag c req \<noteq> [] \<and> (\<exists>rsp. r = Inr rsp \<and> look_up c (filepath_Join [name, cr_Tag c req]) now w = (Inr rsp, w1))"
  by (auto simp: cached_RunFunction_def split: prod.splits sum.splits if_splits)

lemma RunFunction_miss:
  assumes "cached_RunFunction c name req now later w = ((Some m, r), w1)"
  obtains v v1 where "cr_wrapped c name req v = (r, v1)"
proof (cases "cr_Tag c req = []")
  case True
  with assms that show thesis by (auto simp: cached_RunFunction_def split: prod.splits)
next
  case False
  obtain x w2 where "look_up c (filepath_Join [name, cr_Tag c req]) now w = (x, w2)" by force
  moreover obtain r2 w3 where call: "CacheFunction c name req later w2 = (r2, w3)" by force
  ultimately have "r = r2"
    using False assms by (auto simp: cached_RunFunction_def split: sum.splits)
  with CacheFunction_answer [OF call] that show thesis by metis
qed

section \<open>Properties\<close>

text \<open>
  C11: A response that is served from the cache is one the wrapped runner gave to a request of the
  same function and tag, no longer ago than its time to live, clamped to the maximum. This holds
  after every history in which calls, the garbage collector and losses of files interleave and every
  file operation may fail; tags and names are single path segments.
\<close>

theorem served_recent_answer:
  assumes "documented_runner c files" and "\<forall>k \<in> cache_keys c. files w0 k = None"
    and "cache_reach c files w0 H w" and "call_ok c name req"
    and "cached_RunFunction c name req now later w = ((None, r), w1)"
  shows "\<exists>rsp req' t. r = Inr rsp \<and> (name, req', t, rsp) \<in> H \<and> cr_Tag c req' = cr_Tag c req \<and>
     now \<le> t + clamped_ttl c rsp \<and> (\<exists>v v1. cr_wrapped c name req' v = (Inr rsp, v1))"
proof -
  note inv = cache_reach_inv [OF assms(1-3)]
  obtain rsp where hit: "cr_Tag c req \<noteq> []" "r = Inr rsp"
      "look_up c (filepath_Join [name, cr_Tag c req]) now w = (Inr rsp, w1)"
    using RunFunction_hit [OF assms(5)] by blast
  then have "plain name" "plain (cr_Tag c req)" using assms(4) by (simp_all add: call_ok_def)
  from look_up_hit [OF assms(1) _ this hit(3)] inv obtain req' t where
    "(name, req', t, rsp) \<in> H" "cr_Tag c req' = cr_Tag c req" "now \<le> t + clamped_ttl c rsp" by blast
  with inv hit(2) show ?thesis by fast
qed

text \<open>
  C10: The cache keeps the promise of the runner it wraps: a response that is not fatal, cached or
  not, answers a call of the function whose request held all that the response requires, as the API
  server had it at that time. (The function depends on its request only and a run does not change
  the cluster.)
\<close>

theorem cached_answers_final:
  assumes "c = cached_fetching fc fs maxTTL tag ttl marshal unmarshal" and "steady fc name"
    and "\<forall>v r rsp q. fst (fn_wrapped fc 0 name r v) = Inr rsp \<longrightarrow> fs_Requirements rsp = Some q \<longrightarrow> wf_reqs q"
    and "documented_fs fs (\<lambda>(v, d). files d) (cache_keys c)" and "\<forall>m b. marshal m = Some b \<longrightarrow> unmarshal b = Some m"
    and "\<forall>k \<in> cache_keys c. files d0 k = None" and "cache_reach c (\<lambda>(v, d). files d) (v0, d0) H w"
    and "call_ok c name req" and "cached_RunFunction c name req now later w = ((miss, Inr rsp), w1)"
    and "SEVERITY_FATAL \<notin> set (fs_Results rsp)"
  shows "\<exists>req' v. fst (fn_wrapped fc 0 name req' v) = Inr rsp \<and>
     (\<forall>q. fs_Requirements rsp = Some q \<longrightarrow> meets fc v q req')"
proof -
  let ?files = "\<lambda>(v, d). files d"
  have sel: "cr_wrapped c = (\<lambda>name req (w, d). (case RunFunction fc name req w of (r, _, w1) \<Rightarrow> (r, (w1, d))))"
    "cr_fs c = fs" "cr_Marshal c = marshal" "cr_Unmarshal c = unmarshal"
    using assms(1) by (simp_all add: cached_fetching_def)
  have doc: "documented_runner c ?files"
    using assms(4,5) by (auto simp: documented_runner_def sel split: prod.splits)
  have "\<exists>r v v1. cr_wrapped c name r v = (Inr rsp, v1)"
  proof (cases miss)
    case None
    obtain hit: "cr_Tag c req \<noteq> []" "look_up c (filepath_Join [name, cr_Tag c req]) now w = (Inr rsp, w1)"
      using RunFunction_hit [OF assms(9) [unfolded None]] by blast
    have inv: "cache_ok c ?files H w \<and> (\<forall>(name, req, t, rsp) \<in> H. \<exists>v v1. cr_wrapped c name req v = (Inr rsp, v1))"
      using cache_reach_inv [OF doc _ assms(7)] assms(6) by simp
    then show ?thesis
      using look_up_hit [OF doc _ _ _ hit(2)] hit(1) assms(8) by (fastforce simp: call_ok_def)
  next
    case (Some m)
    with RunFunction_miss assms(9) show ?thesis by metis
  qed
  then obtain r v d v1 where "cr_wrapped c name r (v, d) = (Inr rsp, v1)" by auto
  moreover obtain x req' v2 where "RunFunction fc name r v = (x, req', v2)" by (rule prod_cases3)
  ultimately have run: "RunFunction fc name r v = (Inr rsp, req', v2)" by (simp add: sel)
  have "fst (fn_wrapped fc 0 name req' v) = Inr rsp \<and> (\<forall>q. fs_Requirements rsp = Some q \<longrightarrow> meets fc v q req')"
    using run_loop_final [OF assms(2) _ run [unfolded RunFunction_def]] assms(3,10) by blast
  then show ?thesis by blast
qed

section \<open>Examples\<close>

text \<open>A disk as a list of files, with one temporary file, and a cache of up to a minute.\<close>

type_synonym 'b disk = "(string, 'b) gomap"

definition disk_fs :: "('b, 'w \<times> 'b disk) filesystem" where
  "disk_fs =
     \<lparr>fs_ReadFile = \<lambda>k (v, d). (case map_of d k of None \<Rightarrow> Inl ErrNotExist | Some b \<Rightarrow> Inr b, (v, d)),
      fs_MkdirAll = \<lambda>k w. (None, w), fs_TempFile = \<lambda>k w. (Inr ''tmp'', w),
      fs_Write = \<lambda>t b (v, d). (None, (v, put t b d)), fs_Close = \<lambda>t w. (None, w),
      fs_Rename = \<lambda>t k (v, d). (case map_of d t of None \<Rightarrow> (Some ErrNotExist, (v, d))
                               | Some b \<Rightarrow> (None, (v, put k b (del t d)))),
      fs_Remove = \<lambda>k (v, d). (None, (v, del k d)), fs_ReadDir = \<lambda>k w. (Inr [], w)\<rparr>"

lemma disk_documented: "''tmp'' \<notin> K \<Longrightarrow> documented_fs disk_fs (\<lambda>(v, d). map_of d) K"
  by (auto simp: documented_fs_def disk_fs_def kept_def map_of_put map_of_del split: option.splits)

lemma tmp_not_key: "''tmp'' \<notin> cache_keys c"
proof
  assume "''tmp'' \<in> cache_keys c"
  then obtain name tag where "plain name" "plain tag" "''tmp'' = filepath_Join [name, tag]"
    by (auto simp: cache_keys_def)
  then have "''tmp'' = name @ ''/'' @ tag" by (simp add: Join_plain)
  then have "CHR ''/'' \<in> set ''tmp''" by (metis in_set_conv_decomp append_Cons append_Nil)
  then show False by simp
qed

definition minute_cache :: "(string, int, int \<times> int, unit \<times> (int \<times> int) disk) file_backed_runner" where
  "minute_cache =
     \<lparr>cr_wrapped = \<lambda>name req w. (Inr 7, w), cr_fs = disk_fs, cr_maxTTL = 60, cr_Tag = \<lambda>q. q,
      cr_Ttl = \<lambda>r. 100, cr_Marshal = Some, cr_Unmarshal = Some\<rparr>"

definition minute_world :: "unit \<times> (int \<times> int) disk" where
  "minute_world = snd (CacheFunction minute_cache ''f'' ''ab'' 10 ((), []))"

lemma minute_documented: "documented_runner minute_cache (\<lambda>(v, d). map_of d)"
  using disk_documented [OF tmp_not_key [of minute_cache]]
  by (simp add: documented_runner_def minute_cache_def)

lemma minute_call: "call_ok minute_cache ''f'' ''ab''"
  by (simp add: call_ok_def plain_def minute_cache_def)

lemma minute_reach:
  "cache_reach minute_cache (\<lambda>(v, d). map_of d) ((), []) {(''f'', ''ab'', 10, 7)} minute_world"
proof -
  have "fst (CacheFunction minute_cache ''f'' ''ab'' 10 ((), [])) = Inr 7" by code_simp
  then have "CacheFunction minute_cache ''f'' ''ab'' 10 ((), []) = (Inr 7, minute_world)"
    by (simp add: minute_world_def prod_eq_iff)
  from cache_answer [OF cache_start minute_call this] show ?thesis .
qed

text \<open>Served until the clamped deadline and not after it.\<close>

theorem served_recent_answer_witness:
  "fst (cached_RunFunction minute_cache ''f'' ''ab'' 70 70 minute_world) = (None, Inr 7) \<and> (70 :: int) \<le> 10 + 60 \<and>
   fst (cached_RunFunction minute_cache ''f'' ''ab'' 71 71 minute_world) = (Some DeadlineExpired, Inr 7)"
proof -
  have hit: "fst (cached_RunFunction minute_cache ''f'' ''ab'' 70 70 minute_world) = (None, Inr 7)"
    "fst (cached_RunFunction minute_cache ''f'' ''ab'' 71 71 minute_world) = (Some DeadlineExpired, Inr 7)"
    by code_simp+
  obtain w1 where "cached_RunFunction minute_cache ''f'' ''ab'' 70 70 minute_world = ((None, Inr 7), w1)"
    using hit(1) by (cases "cached_RunFunction minute_cache ''f'' ''ab'' 70 70 minute_world") simp
  from served_recent_answer [OF minute_documented _ minute_reach minute_call this]
  have "\<exists>rsp req' t. (''f'', req', t, rsp) \<in> {(''f'', ''ab'', 10, 7)} \<and> 70 \<le> t + clamped_ttl minute_cache rsp" by auto
  then have "70 \<le> 10 + clamped_ttl minute_cache 7" by simp
  then show ?thesis using hit by (simp add: clamped_ttl_def minute_cache_def)
qed

definition toy_cache ::
  "(toy_request, toy_response, go_time \<times> toy_response, unit \<times> (go_time \<times> toy_response) disk) file_backed_runner"
where
  "toy_cache = cached_fetching (toy_runner toy_function) disk_fs 0 (\<lambda>q. ''ab'') (\<lambda>r. 100) Some Some"

theorem cached_answers_final_witness:
  "cached_RunFunction toy_cache ''f'' toy_request 5 5 ((), []) =
     ((Some NotCached, Inr (toy_function toy_final)), ((), [(''f/ab'', (105, toy_function toy_final))])) \<and>
   (\<exists>req'. toy_function req' = toy_function toy_final \<and> meets (toy_runner toy_function) () toy_reqs req')"
proof -
  have key: "filepath_Join [''f'', ''ab''] = ''f/ab''" by code_simp
  have call: "call_ok toy_cache ''f'' toy_request" by (simp add: call_ok_def plain_def toy_cache_def cached_fetching_def)
  have run: "cached_RunFunction toy_cache ''f'' toy_request 5 5 ((), []) =
     ((Some NotCached, Inr (toy_function toy_final)), ((), [(''f/ab'', (105, toy_function toy_final))]))"
    by (simp add: cached_RunFunction_def look_up_def CacheFunction_def toy_cache_def cached_fetching_def toy_run key
        disk_fs_def write_cached_def clamped_ttl_def)
  have "\<exists>req' v. fst (fn_wrapped (toy_runner toy_function) 0 ''f'' req' v) = Inr (toy_function toy_final) \<and>
     (\<forall>q. fs_Requirements (toy_function toy_final) = Some q \<longrightarrow> meets (toy_runner toy_function) v q req')"
    by (rule cached_answers_final [OF toy_cache_def toy_steady _ disk_documented [OF tmp_not_key] _ _ cache_start call run])
      (auto simp: toy_call toy_function_def toy_reqs_def wf_reqs_def)
  with run show ?thesis by (simp add: toy_call toy_function_fields)
qed

text \<open>
  The collector does not return when the size of a file cannot be read: it removes the file and then
  reads the size of nothing.
\<close>

lemma collector_panics:
  "fst (GarbageCollectFilesNow minute_cache
     [(100, False, \<lparr>we_Path = ''f/ab'', we_IsDir = False, we_Err = None, we_Info = False\<rparr>)] minute_world) = Panic"
  by code_simp

end
