(* ===== verification/Engine.thy ===== *)
theory Engine
  imports WatchOperation
begin

text \<open>
  Crossplane's controller engine (\<^verbatim>\<open>internal/engine\<close>: \<^verbatim>\<open>engine.go\<close>, \<^verbatim>\<open>source.go\<close>, \<^verbatim>\<open>cache.go\<close>) and the
  collector of unused watches (\<^verbatim>\<open>composite/watch/watch.go\<close>). The cache that is wrapped, its informers
  and the controllers of controller-runtime are parameters: the record of the calls the code makes.
  A critical section is one step. Ranging over a Go map visits its keys in the order \<open>ro\<close> gives.
\<close>

section \<open>Delivering events to a handler\<close>

text \<open>
  The arguments an informer passes are objects, tombstones of objects, or something else. A handler
  takes an event and the work queue.
\<close>

datatype 'o event = CreateEvent 'o | UpdateEvent 'o 'o | DeleteEvent bool 'o

datatype 'o payload = AnObject 'o | Tombstone "'o option" | Unknown

record ('o, 'q) event_handler =
  eh_handler :: "'o event \<Rightarrow> 'q \<Rightarrow> 'q"
  eh_predicates :: "('o event \<Rightarrow> bool) list"

fun passes :: "('o event \<Rightarrow> bool) list \<Rightarrow> 'o event \<Rightarrow> bool" where
  "passes [] ev = True"
| "passes (p # ps) ev = (if \<not> p ev then False else passes ps ev)"

definition deliver :: "('o, 'q) event_handler \<Rightarrow> 'o event \<Rightarrow> 'q \<Rightarrow> 'q" where
  "deliver eh ev q = (if passes (eh_predicates eh) ev then eh_handler eh ev q else q)"

definition OnAdd :: "('o, 'q) event_handler \<Rightarrow> 'o payload \<Rightarrow> 'q \<Rightarrow> 'q" where
  "OnAdd eh obj q = (case obj of AnObject x \<Rightarrow> deliver eh (CreateEvent x) q | _ \<Rightarrow> q)"

definition OnUpdate :: "('o, 'q) event_handler \<Rightarrow> 'o payload \<Rightarrow> 'o payload \<Rightarrow> 'q \<Rightarrow> 'q" where
  "OnUpdate eh old new q =
     (case old of
        AnObject x \<Rightarrow> (case new of AnObject y \<Rightarrow> deliver eh (UpdateEvent x y) q | _ \<Rightarrow> q)
      | _ \<Rightarrow> q)"

definition OnDelete :: "('o, 'q) event_handler \<Rightarrow> 'o payload \<Rightarrow> 'q \<Rightarrow> 'q" where
  "OnDelete eh obj q =
     (case obj of
        AnObject x \<Rightarrow> deliver eh (DeleteEvent False x) q
      | Tombstone (Some x) \<Rightarrow> deliver eh (DeleteEvent True x) q
      | Tombstone None \<Rightarrow> q
      | Unknown \<Rightarrow> q)"

section \<open>The cache that tracks its informers\<close>

text \<open>
  The calls to the wrapped cache, over its state \<open>'s\<close>, and to an informer of it. \<open>'k\<close> is what a read
  asks for and \<open>'o\<close> what it returns.
\<close>

record ('s, 'i, 'h, 'r, 'k, 'o) cache_calls =
  ca_Get :: "gvk \<Rightarrow> 'k \<Rightarrow> 's \<Rightarrow> 'o res \<times> 's"
  ca_List :: "gvk \<Rightarrow> 'k \<Rightarrow> 's \<Rightarrow> 'o list res \<times> 's"
  ca_GetInformer :: "gvk \<Rightarrow> 's \<Rightarrow> 'i res \<times> 's"
  ca_RemoveInformer :: "gvk \<Rightarrow> 's \<Rightarrow> go_error option \<times> 's"
  ca_AddEventHandler :: "'i \<Rightarrow> 'h \<Rightarrow> 's \<Rightarrow> 'r res \<times> 's"
  ca_RemoveEventHandler :: "'i \<Rightarrow> 'r \<Rightarrow> 's \<Rightarrow> go_error option \<times> 's"
  ca_IsStopped :: "'i \<Rightarrow> 's \<Rightarrow> bool"

record 's tracking_cache =
  tk_Cache :: 's
  tk_active :: "(gvk, bool) gomap"

definition TrackInformers :: "'s \<Rightarrow> 's tracking_cache" where
  "TrackInformers c = \<lparr>tk_Cache = c, tk_active = []\<rparr>"

definition tk_ActiveInformers :: "'s tracking_cache \<Rightarrow> gvk list" where
  "tk_ActiveInformers t = map fst (tk_active t)"

text \<open>
  A call on the wrapped cache for a kind that is marked active first. Between the read lock and the
  write lock only the mark can change, and it is set again.
\<close>

definition tk_call :: "gvk \<Rightarrow> ('s \<Rightarrow> 'a \<times> 's) \<Rightarrow> 's tracking_cache \<Rightarrow> 'a \<times> 's tracking_cache" where
  "tk_call g f t =
     (let t1 = (if g \<in> keys (tk_active t) then t else t\<lparr>tk_active := put g True (tk_active t)\<rparr>)
      in case f (tk_Cache t1) of (x, c) \<Rightarrow> (x, t1\<lparr>tk_Cache := c\<rparr>))"

definition unknown_kind :: "go_error \<Rightarrow> go_error" where
  "unknown_kind e = Wrap e ''cannot determine group, version, and kind of supplied object''"

text \<open>An object is given by the result of \<^verbatim>\<open>GVKForObject\<close> on it.\<close>

definition tk_Get ::
  "('s, 'i, 'h, 'r, 'k, 'o) cache_calls \<Rightarrow> 'k \<Rightarrow> gvk res \<Rightarrow> 's tracking_cache \<Rightarrow>
     'o res \<times> 's tracking_cache" where
  "tk_Get cc k obj t =
     (case obj of Inl e \<Rightarrow> (Inl (unknown_kind e), t) | Inr g \<Rightarrow> tk_call g (ca_Get cc g k) t)"

definition trim_List :: "string \<Rightarrow> string" where
  "trim_List s = (if has_prefix (rev s) (rev ''List'') then take (length s - 4) s else s)"

definition tk_List ::
  "('s, 'i, 'h, 'r, 'k, 'o) cache_calls \<Rightarrow> 'k \<Rightarrow> gvk res \<Rightarrow> 's tracking_cache \<Rightarrow>
     'o list res \<times> 's tracking_cache" where
  "tk_List cc k obj t =
     (case obj of
        Inl e \<Rightarrow> (Inl (unknown_kind e), t)
      | Inr g \<Rightarrow> tk_call (g\<lparr>gvk_Kind := trim_List (gvk_Kind g)\<rparr>) (ca_List cc g k) t)"

definition tk_GetInformerForKind ::
  "('s, 'i, 'h, 'r, 'k, 'o) cache_calls \<Rightarrow> gvk \<Rightarrow> 's tracking_cache \<Rightarrow> 'i res \<times> 's tracking_cache" where
  "tk_GetInformerForKind cc g t = tk_call g (ca_GetInformer cc g) t"

definition tk_GetInformer ::
  "('s, 'i, 'h, 'r, 'k, 'o) cache_calls \<Rightarrow> gvk res \<Rightarrow> 's tracking_cache \<Rightarrow> 'i res \<times> 's tracking_cache"
where
  "tk_GetInformer cc obj t =
     (case obj of Inl e \<Rightarrow> (Inl (unknown_kind e), t) | Inr g \<Rightarrow> tk_call g (ca_GetInformer cc g) t)"

definition tk_RemoveInformer ::
  "('s, 'i, 'h, 'r, 'k, 'o) cache_calls \<Rightarrow> gvk res \<Rightarrow> 's tracking_cache \<Rightarrow>
     go_error option \<times> 's tracking_cache" where
  "tk_RemoveInformer cc obj t =
     (case obj of
        Inl e \<Rightarrow> (Some (unknown_kind e), t)
      | Inr g \<Rightarrow>
          (let t1 = (if g \<in> keys (tk_active t) then t\<lparr>tk_active := del g (tk_active t)\<rparr> else t)
           in case ca_RemoveInformer cc g (tk_Cache t1) of (x, c) \<Rightarrow> (x, t1\<lparr>tk_Cache := c\<rparr>)))"

section \<open>The interface of the engine to its informers\<close>

text \<open>
  \<^verbatim>\<open>TrackingInformers\<close> and the informers it hands out, over one state \<open>'t\<close>, and their implementation by
  the tracking cache: an informer is that of the wrapped cache.
\<close>

record ('t, 'i, 'h, 'r) informers =
  ti_GetInformer :: "gvk \<Rightarrow> 't \<Rightarrow> 'i res \<times> 't"
  ti_RemoveInformer :: "gvk \<Rightarrow> 't \<Rightarrow> go_error option \<times> 't"
  ti_ActiveInformers :: "'t \<Rightarrow> gvk list"
  ti_AddEventHandler :: "'i \<Rightarrow> 'h \<Rightarrow> 't \<Rightarrow> 'r res \<times> 't"
  ti_RemoveEventHandler :: "'i \<Rightarrow> 'r \<Rightarrow> 't \<Rightarrow> go_error option \<times> 't"
  ti_IsStopped :: "'i \<Rightarrow> 't \<Rightarrow> bool"

definition on_cache :: "('s \<Rightarrow> 'a \<times> 's) \<Rightarrow> 's tracking_cache \<Rightarrow> 'a \<times> 's tracking_cache" where
  "on_cache f t = (case f (tk_Cache t) of (x, c) \<Rightarrow> (x, t\<lparr>tk_Cache := c\<rparr>))"

definition tracked ::
  "('s, 'i, 'h, 'r, 'k, 'o) cache_calls \<Rightarrow> ('s tracking_cache, 'i, 'h, 'r) informers" where
  "tracked cc =
     \<lparr>ti_GetInformer = \<lambda>g. tk_GetInformer cc (Inr g),
      ti_RemoveInformer = \<lambda>g. tk_RemoveInformer cc (Inr g),
      ti_ActiveInformers = tk_ActiveInformers,
      ti_AddEventHandler = \<lambda>i h. on_cache (ca_AddEventHandler cc i h),
      ti_RemoveEventHandler = \<lambda>i r. on_cache (ca_RemoveEventHandler cc i r),
      ti_IsStopped = \<lambda>i t. ca_IsStopped cc i (tk_Cache t)\<rparr>"

section \<open>Sources that can be stopped\<close>

record ('i, 'h, 'r) stoppable_source =
  so_inf :: 'i
  so_handler :: 'h
  so_reg :: "'r option"

definition NewStoppableSource :: "'i \<Rightarrow> 'h \<Rightarrow> ('i, 'h, 'r) stoppable_source" where
  "NewStoppableSource i h = \<lparr>so_inf = i, so_handler = h, so_reg = None\<rparr>"

definition source_Start ::
  "('t, 'i, 'h, 'r) informers \<Rightarrow> ('i, 'h, 'r) stoppable_source \<Rightarrow> 't \<Rightarrow>
     ('i, 'h, 'r) stoppable_source res \<times> 't" where
  "source_Start ti s t =
     (case ti_AddEventHandler ti (so_inf s) (so_handler s) t of
        (Inl e, t1) \<Rightarrow> (Inl (Wrap e ''cannot add event handler''), t1)
      | (Inr r, t1) \<Rightarrow> (Inr (s\<lparr>so_reg := Some r\<rparr>), t1))"

definition source_Stop ::
  "('t, 'i, 'h, 'r) informers \<Rightarrow> ('i, 'h, 'r) stoppable_source \<Rightarrow> 't \<Rightarrow> go_error option \<times> 't" where
  "source_Stop ti s t =
     (case so_reg s of
        None \<Rightarrow> (None, t)
      | Some r \<Rightarrow>
          if ti_IsStopped ti (so_inf s) t then (None, t)
          else (case ti_RemoveEventHandler ti (so_inf s) r t of
                  (e, t1) \<Rightarrow> (wrap_opt e ''cannot remove event handler'', t1)))"

section \<open>The state of the engine\<close>

text \<open>
  \<^verbatim>\<open>controllers\<close> maps names to pointers into \<open>en_heap\<close>. A controller's goroutine waits for the manager
  to be elected, runs, and ends. The metrics are the history of the calls that record them.
\<close>

record watch_id =
  wid_Type :: string
  wid_GVK :: gvk

definition WatchTypeClaim :: string where "WatchTypeClaim = ''Claim''"
definition WatchTypeCompositeResource :: string where
  "WatchTypeCompositeResource = ''CompositeResource''"
definition WatchTypeDependency :: string where "WatchTypeDependency = ''Dependency''"
definition WatchTypeCompositionRevision :: string where
  "WatchTypeCompositionRevision = ''CompositionRevision''"
definition WatchTypeManagedResource :: string where
  "WatchTypeManagedResource = ''ManagedResource''"

record 'h watch =
  w_wt :: string
  w_kind :: "gvk res"
  w_handler :: 'h

definition WatchFor :: "gvk res \<Rightarrow> string \<Rightarrow> 'h \<Rightarrow> 'h watch" where
  "WatchFor kind wt h = \<lparr>w_wt = wt, w_kind = kind, w_handler = h\<rparr>"

datatype goroutine = Waiting | Running | Exited

type_synonym ('i, 'h, 'r) sources = "(watch_id, ('i, 'h, 'r) stoppable_source) gomap"

record ('i, 'h, 'r) controller =
  ct_name :: string
  ct_gc :: bool
  ct_goroutine :: goroutine
  ct_cancelled :: bool
  ct_sources :: "('i, 'h, 'r) sources"

datatype metric =
    ControllerStarted string
  | ControllerStopped string
  | WatchStarted string string
  | WatchStopped string string

record ('t, 'i, 'h, 'r) engine =
  en_infs :: 't
  en_controllers :: "(string, nat) gomap"
  en_heap :: "('i, 'h, 'r) controller list"
  en_metrics :: "metric list"

definition New :: "'t \<Rightarrow> ('t, 'i, 'h, 'r) engine" where
  "New infs = \<lparr>en_infs = infs, en_controllers = [], en_heap = [], en_metrics = []\<rparr>"

definition IsRunning :: "('t, 'i, 'h, 'r) engine \<Rightarrow> string \<Rightarrow> bool" where
  "IsRunning e name \<longleftrightarrow> name \<in> keys (en_controllers e)"

text \<open>Writing through a pointer to a controller.\<close>

definition upd ::
  "nat \<Rightarrow> (('i, 'h, 'r) controller \<Rightarrow> ('i, 'h, 'r) controller) \<Rightarrow> ('t, 'i, 'h, 'r) engine \<Rightarrow>
     ('t, 'i, 'h, 'r) engine" where
  "upd p f e = e\<lparr>en_heap := (en_heap e)[p := f (en_heap e ! p)]\<rparr>"

definition not_running :: "string \<Rightarrow> go_error" where
  "not_running name = Errorf ''controller %q is not running'' [name]"

section \<open>Starting and stopping controllers\<close>

text \<open>\<open>nc\<close> is the error of creating the controller, and \<open>gc\<close> whether it has a garbage collector.\<close>

definition Start ::
  "go_error option \<Rightarrow> bool \<Rightarrow> string \<Rightarrow> ('t, 'i, 'h, 'r) engine \<Rightarrow>
     go_error option \<times> ('t, 'i, 'h, 'r) engine" where
  "Start nc gc name e =
     (if IsRunning e name then (None, e)
      else
        (case nc of
           Some err \<Rightarrow> (Some (Wrap err ''cannot create new controller''), e)
         | None \<Rightarrow>
             (let r = \<lparr>ct_name = name, ct_gc = gc, ct_goroutine = Waiting, ct_cancelled = False,
                       ct_sources = []\<rparr>
              in (None, e\<lparr>en_heap := en_heap e @ [r],
                          en_controllers := put name (length (en_heap e)) (en_controllers e)\<rparr>))))"

definition cannot_stop :: "watch_id \<Rightarrow> go_error \<Rightarrow> go_error" where
  "cannot_stop wid err =
     Wrap err (''cannot stop '' @ quote_name (wid_Type wid) @ '' watch for '' @
               quote_name (gvk_String (wid_GVK wid)))"

fun stop_sources ::
  "('t, 'i, 'h, 'r) informers \<Rightarrow> watch_id list \<Rightarrow> ('i, 'h, 'r) sources \<Rightarrow> 't \<Rightarrow>
     go_error option \<times> ('i, 'h, 'r) sources \<times> 't" where
  "stop_sources ti [] srcs t = (None, srcs, t)"
| "stop_sources ti (wid # wids) srcs t =
     (case map_of srcs wid of
        None \<Rightarrow> stop_sources ti wids srcs t
      | Some w \<Rightarrow>
          (case source_Stop ti w t of
             (Some err, t1) \<Rightarrow> (Some (cannot_stop wid err), srcs, t1)
           | (None, t1) \<Rightarrow> stop_sources ti wids (del wid srcs) t1))"

definition Stop ::
  "('t, 'i, 'h, 'r) informers \<Rightarrow> (('i, 'h, 'r) sources \<Rightarrow> watch_id list) \<Rightarrow> string \<Rightarrow>
     ('t, 'i, 'h, 'r) engine \<Rightarrow> go_error option \<times> ('t, 'i, 'h, 'r) engine" where
  "Stop ti ro name e =
     (case map_of (en_controllers e) name of
        None \<Rightarrow> (None, e)
      | Some p \<Rightarrow>
          (let srcs = ct_sources (en_heap e ! p) in
           case stop_sources ti (ro srcs) srcs (en_infs e) of
             (Some err, srcs1, t) \<Rightarrow>
               (Some err, upd p (ct_sources_update (\<lambda>_. srcs1)) (e\<lparr>en_infs := t\<rparr>))
           | (None, srcs1, t) \<Rightarrow>
               (None,
                (upd p (\<lambda>c. c\<lparr>ct_sources := srcs1, ct_cancelled := True\<rparr>) (e\<lparr>en_infs := t\<rparr>))
                  \<lparr>en_controllers := del name (en_controllers e)\<rparr>)))"

text \<open>
  The goroutine that \<^verbatim>\<open>Start\<close> starts: once the manager is elected it runs the controller until it
  returns, with the error \<open>r\<close> or none.
\<close>

definition goroutine_begin :: "nat \<Rightarrow> ('t, 'i, 'h, 'r) engine \<Rightarrow> ('t, 'i, 'h, 'r) engine" where
  "goroutine_begin p e =
     (upd p (ct_goroutine_update (\<lambda>_. Running)) e)
       \<lparr>en_metrics := en_metrics e @ [ControllerStarted (ct_name (en_heap e ! p))]\<rparr>"

definition goroutine_end ::
  "('t, 'i, 'h, 'r) informers \<Rightarrow> (('i, 'h, 'r) sources \<Rightarrow> watch_id list) \<Rightarrow> go_error option \<Rightarrow> nat \<Rightarrow>
     ('t, 'i, 'h, 'r) engine \<Rightarrow> ('t, 'i, 'h, 'r) engine" where
  "goroutine_end ti ro r p e =
     (let name = ct_name (en_heap e ! p); e1 = upd p (ct_goroutine_update (\<lambda>_. Exited)) e in
      case r of
        Some err \<Rightarrow> snd (Stop ti ro name e1)
      | None \<Rightarrow> e1\<lparr>en_metrics := en_metrics e1 @ [ControllerStopped name]\<rparr>)"

section \<open>Starting watches\<close>

fun watch_ids :: "'h watch list \<Rightarrow> ('h watch \<times> watch_id) list res" where
  "watch_ids [] = Inr []"
| "watch_ids (w # ws) =
     (case w_kind w of
        Inl err \<Rightarrow> Inl (Wrap err ''cannot determine group, version, and kind for %T'')
      | Inr g \<Rightarrow>
          (case watch_ids ws of
             Inl err \<Rightarrow> Inl err
           | Inr ids \<Rightarrow> Inr ((w, \<lparr>wid_Type = w_wt w, wid_GVK = g\<rparr>) # ids)))"

definition watching :: "('i, 'h, 'r) sources \<Rightarrow> gvk list \<Rightarrow> watch_id \<Rightarrow> bool" where
  "watching srcs active wid \<longleftrightarrow> wid \<in> keys srcs \<and> wid_GVK wid \<in> set active"

text \<open>One watch: its informer, a source on it, and the controller's \<^verbatim>\<open>Watch\<close>, which starts the source.\<close>

definition start_watch ::
  "('t, 'i, 'h, 'r) informers \<Rightarrow> 'h watch \<Rightarrow> watch_id \<Rightarrow> 't \<Rightarrow>
     ('i, 'h, 'r) stoppable_source res \<times> 't" where
  "start_watch ti w wid t =
     (case ti_GetInformer ti (wid_GVK wid) t of
        (Inl err, t1) \<Rightarrow>
          (Inl (Wrap err (''cannot get informer for '' @ quote_name (gvk_String (wid_GVK wid)))), t1)
      | (Inr i, t1) \<Rightarrow>
          (case source_Start ti (NewStoppableSource i (w_handler w)) t1 of
             (Inl err, t2) \<Rightarrow>
               (Inl (Wrap err (''cannot start '' @ quote_name (wid_Type wid) @ '' watch for '' @
                               quote_name (gvk_String (wid_GVK wid)))), t2)
           | (Inr src, t2) \<Rightarrow> (Inr src, t2)))"

fun start_loop ::
  "('t, 'i, 'h, 'r) informers \<Rightarrow> gvk list \<Rightarrow> ('h watch \<times> watch_id) list \<Rightarrow> ('i, 'h, 'r) sources \<Rightarrow> 't \<Rightarrow>
     go_error option \<times> ('i, 'h, 'r) sources \<times> 't \<times> string list" where
  "start_loop ti active [] srcs t = (None, srcs, t, [])"
| "start_loop ti active ((w, wid) # ids) srcs t =
     (if watching srcs active wid then start_loop ti active ids srcs t
      else
        (case start_watch ti w wid t of
           (Inl err, t1) \<Rightarrow> (Some err, srcs, t1, [])
         | (Inr src, t1) \<Rightarrow>
             (case start_loop ti active ids (put wid src srcs) t1 of
                (r, srcs2, t2, types) \<Rightarrow> (r, srcs2, t2, wid_Type wid # types))))"

text \<open>The part under the write lock, for the controller the pointer refers to.\<close>

definition start_locked ::
  "('t, 'i, 'h, 'r) informers \<Rightarrow> string \<Rightarrow> nat \<Rightarrow> ('h watch \<times> watch_id) list \<Rightarrow>
     ('t, 'i, 'h, 'r) engine \<Rightarrow> go_error option \<times> ('t, 'i, 'h, 'r) engine" where
  "start_locked ti name p ids e =
     (case start_loop ti (ti_ActiveInformers ti (en_infs e)) ids (ct_sources (en_heap e ! p)) (en_infs e) of
        (r, srcs, t, types) \<Rightarrow>
          (r, (upd p (ct_sources_update (\<lambda>_. srcs)) (e\<lparr>en_infs := t\<rparr>))
                \<lparr>en_metrics := en_metrics e @ map (WatchStarted name) types\<rparr>))"

definition StartWatches ::
  "('t, 'i, 'h, 'r) informers \<Rightarrow> string \<Rightarrow> 'h watch list \<Rightarrow> ('t, 'i, 'h, 'r) engine \<Rightarrow>
     go_error option \<times> ('t, 'i, 'h, 'r) engine" where
  "StartWatches ti name ws e =
     (case map_of (en_controllers e) name of
        None \<Rightarrow> (Some (not_running name), e)
      | Some p \<Rightarrow>
          (case watch_ids ws of
             Inl err \<Rightarrow> (Some err, e)
           | Inr ids \<Rightarrow>
               if list_ex (\<lambda>(w, wid). \<not> watching (ct_sources (en_heap e ! p))
                                       (ti_ActiveInformers ti (en_infs e)) wid) ids
               then start_locked ti name p ids e else (None, e)))"

section \<open>Listing and stopping watches\<close>

definition GetWatches ::
  "(('i, 'h, 'r) sources \<Rightarrow> watch_id list) \<Rightarrow> ('t, 'i, 'h, 'r) engine \<Rightarrow> string \<Rightarrow> watch_id list res" where
  "GetWatches ro e name =
     (case map_of (en_controllers e) name of
        None \<Rightarrow> Inl (not_running name)
      | Some p \<Rightarrow> Inr (ro (ct_sources (en_heap e ! p))))"

fun stop_loop ::
  "('t, 'i, 'h, 'r) informers \<Rightarrow> watch_id list \<Rightarrow> ('i, 'h, 'r) sources \<Rightarrow> 't \<Rightarrow>
     go_error option \<times> ('i, 'h, 'r) sources \<times> 't \<times> string list" where
  "stop_loop ti [] srcs t = (None, srcs, t, [])"
| "stop_loop ti (wid # wids) srcs t =
     (case map_of srcs wid of
        None \<Rightarrow> stop_loop ti wids srcs t
      | Some w \<Rightarrow>
          (case source_Stop ti w t of
             (Some err, t1) \<Rightarrow> (Some (cannot_stop wid err), srcs, t1, [])
           | (None, t1) \<Rightarrow>
               (case stop_loop ti wids (del wid srcs) t1 of
                  (r, srcs2, t2, types) \<Rightarrow> (r, srcs2, t2, wid_Type wid # types))))"

definition stop_locked ::
  "('t, 'i, 'h, 'r) informers \<Rightarrow> string \<Rightarrow> nat \<Rightarrow> watch_id list \<Rightarrow> ('t, 'i, 'h, 'r) engine \<Rightarrow>
     (nat \<times> go_error option) \<times> ('t, 'i, 'h, 'r) engine" where
  "stop_locked ti name p wids e =
     (case stop_loop ti wids (ct_sources (en_heap e ! p)) (en_infs e) of
        (r, srcs, t, types) \<Rightarrow>
          ((length types, r),
           (upd p (ct_sources_update (\<lambda>_. srcs)) (e\<lparr>en_infs := t\<rparr>))
             \<lparr>en_metrics := en_metrics e @ map (WatchStopped name) types\<rparr>))"

definition StopWatches ::
  "('t, 'i, 'h, 'r) informers \<Rightarrow> string \<Rightarrow> watch_id list \<Rightarrow> ('t, 'i, 'h, 'r) engine \<Rightarrow>
     (nat \<times> go_error option) \<times> ('t, 'i, 'h, 'r) engine" where
  "StopWatches ti name wids e =
     (case map_of (en_controllers e) name of
        None \<Rightarrow> ((0, Some (not_running name)), e)
      | Some p \<Rightarrow>
          if list_ex (\<lambda>wid. wid \<in> keys (ct_sources (en_heap e ! p))) wids
          then stop_locked ti name p wids e else ((0, None), e))"

section \<open>Garbage collection\<close>

text \<open>When a custom resource definition is deleted the informers of its versions are removed.\<close>

record crd =
  crd_Group :: string
  crd_Kind :: string
  crd_Versions :: "string list"

fun remove_versions ::
  "('t, 'i, 'h, 'r) informers \<Rightarrow> string \<Rightarrow> string \<Rightarrow> string list \<Rightarrow> 't \<Rightarrow> 't" where
  "remove_versions ti grp kind [] t = t"
| "remove_versions ti grp kind (v # vs) t =
     (case ti_RemoveInformer ti \<lparr>gvk_Group = grp, gvk_Version = v, gvk_Kind = kind\<rparr> t of
        (_, t1) \<Rightarrow> remove_versions ti grp kind vs t1)"

definition crd_deleted ::
  "('t, 'i, 'h, 'r) informers \<Rightarrow> crd payload \<Rightarrow> ('t, 'i, 'h, 'r) engine \<Rightarrow> ('t, 'i, 'h, 'r) engine" where
  "crd_deleted ti obj e =
     (case obj of
        AnObject d \<Rightarrow>
          e\<lparr>en_infs := remove_versions ti (crd_Group d) (crd_Kind d) (crd_Versions d) (en_infs e)\<rparr>
      | Tombstone (Some d) \<Rightarrow>
          e\<lparr>en_infs := remove_versions ti (crd_Group d) (crd_Kind d) (crd_Versions d) (en_infs e)\<rparr>
      | Tombstone None \<Rightarrow> e
      | Unknown \<Rightarrow> e)"

text \<open>The watches of a controller of composite resources that no such resource depends on.\<close>

definition unused_watches :: "gvk list \<Rightarrow> watch_id list \<Rightarrow> watch_id list" where
  "unused_watches depends running =
     filter (\<lambda>wid. \<not> wid_Type wid \<noteq> WatchTypeDependency \<and> wid_GVK wid \<notin> set depends) running"

definition GarbageCollectWatchesNow ::
  "('t, 'i, 'h, 'r) informers \<Rightarrow> (('i, 'h, 'r) sources \<Rightarrow> watch_id list) \<Rightarrow> gvk list \<Rightarrow> string \<Rightarrow>
     ('t, 'i, 'h, 'r) engine \<Rightarrow> go_error option \<times> ('t, 'i, 'h, 'r) engine" where
  "GarbageCollectWatchesNow ti ro depends name e =
     (case GetWatches ro e name of
        Inl err \<Rightarrow> (Some (Wrap err ''cannot get running watches''), e)
      | Inr running \<Rightarrow>
          (let unused = unused_watches depends running in
           if length unused = 0 then (None, e)
           else (case StopWatches ti name unused e of
                   ((_, r), e1) \<Rightarrow>
                     (wrap_opt r ''cannot stop watches for kinds no composite resource depends on'', e1))))"

text \<open>What a reconcile of a composite resource does with the kinds of the tracker.\<close>

definition watch_dependencies ::
  "('t, 'i, 'h, 'r) informers \<Rightarrow> 'h \<Rightarrow> gvk list \<Rightarrow> string \<Rightarrow> ('t, 'i, 'h, 'r) engine \<Rightarrow>
     go_error option \<times> ('t, 'i, 'h, 'r) engine" where
  "watch_dependencies ti h gs name e =
     (case StartWatches ti name (map (\<lambda>g. WatchFor (Inr g) WatchTypeDependency h) gs) e of
        (r, e1) \<Rightarrow> (wrap_opt r ''cannot watch resource for changes'', e1))"

section \<open>What the engine may do with a kind\<close>

text \<open>
  The discovery client gives the names and kinds of the resources of a group version, and creating
  an access review gives whether it is allowed.
\<close>

record resource_attributes =
  ra_Namespace :: string
  ra_Verb :: string
  ra_Group :: string
  ra_Version :: string
  ra_Resource :: string

record 'w review_client =
  rc_ServerResources :: "gvk \<Rightarrow> 'w \<Rightarrow> (string \<times> string) list res \<times> 'w"
  rc_CreateReview :: "resource_attributes \<Rightarrow> 'w \<Rightarrow> bool res \<times> 'w"

record review_error =
  sar_User :: string
  sar_Resource :: resource_attributes
  sar_Namespace :: string
  sar_DeniedVerbs :: "string list"
  sar_Err :: "string option"

datatype auth_error = AuthFailed go_error | SubjectAccessReviewError review_error

definition resource_of_kind :: "string \<Rightarrow> (string \<times> string) list \<Rightarrow> string" where
  "resource_of_kind kind rs = fold (\<lambda>(name, k) res. if k = kind then name else res) rs []"

fun denied_verbs ::
  "'w review_client \<Rightarrow> resource_attributes \<Rightarrow> string list \<Rightarrow> 'w \<Rightarrow> string list res \<times> 'w" where
  "denied_verbs rc attrs [] w = (Inr [], w)"
| "denied_verbs rc attrs (verb # verbs) w =
     (case rc_CreateReview rc (attrs\<lparr>ra_Verb := verb\<rparr>) w of
        (Inl e, w1) \<Rightarrow> (Inl e, w1)
      | (Inr ok, w1) \<Rightarrow>
          (case denied_verbs rc attrs verbs w1 of
             (Inl e, w2) \<Rightarrow> (Inl e, w2)
           | (Inr denied, w2) \<Rightarrow> (Inr (if ok then denied else verb # denied), w2)))"

definition needed_verbs :: "string list" where
  "needed_verbs = [''get'', ''list'', ''watch'', ''create'', ''update'', ''patch'', ''delete'']"

definition review_failed :: "go_error \<Rightarrow> auth_error" where
  "review_failed e = AuthFailed (Wrap e ''cannot create self access review'')"

definition IsAuthorizedFor ::
  "'w review_client \<Rightarrow> string \<Rightarrow> string \<Rightarrow> gvk \<Rightarrow> string \<Rightarrow> 'w \<Rightarrow> (bool \<times> auth_error option) \<times> 'w" where
  "IsAuthorizedFor rc ens sa g ns w =
     (case rc_ServerResources rc g w of
        (Inl e, w1) \<Rightarrow> ((False, Some (AuthFailed e)), w1)
      | (Inr rs, w1) \<Rightarrow>
          (let attrs = \<lparr>ra_Namespace = ns, ra_Verb = ''*'', ra_Group = gvk_Group g,
                        ra_Version = gvk_Version g, ra_Resource = resource_of_kind (gvk_Kind g) rs\<rparr> in
           if ra_Resource attrs = [] then
             ((False, Some (AuthFailed (Errorf ''no resource found for %q'' [gvk_String g]))), w1)
           else
             (case rc_CreateReview rc attrs w1 of
                (Inl e, w2) \<Rightarrow> ((False, Some (review_failed e)), w2)
              | (Inr True, w2) \<Rightarrow> ((True, None), w2)
              | (Inr False, w2) \<Rightarrow>
                  (case denied_verbs rc attrs needed_verbs w2 of
                     (Inl e, w3) \<Rightarrow> ((False, Some (review_failed e)), w3)
                   | (Inr denied, w3) \<Rightarrow>
                       if denied \<noteq> [] then
                         ((False, Some (SubjectAccessReviewError
                            \<lparr>sar_User = ''system:serviceaccount:'' @ ens @ '':'' @ sa,
                             sar_Resource = attrs, sar_Namespace = ns, sar_DeniedVerbs = denied, sar_Err = None\<rparr>)), w3)
                       else ((True, None), w3)))))"

definition group_version :: "resource_attributes \<Rightarrow> string" where
  "group_version r =
     (if ra_Group r \<noteq> [] then ra_Group r @ ''/'' @ ra_Version r else ra_Version r)"

definition review_error_text :: "review_error \<Rightarrow> string" where
  "review_error_text e =
     (let r = sar_Resource e in
      sar_User e @ '' is not allowed to ['' @ join_with '', '' (sar_DeniedVerbs e) @ ''] resource '' @
      ra_Resource r @
      (if ra_Group r \<noteq> [] then ''.'' @ group_version r else ''/'' @ group_version r) @
      (if sar_Namespace e \<noteq> [] then '' in namespace '' @ sar_Namespace e else []) @
      (case sar_Err e of None \<Rightarrow> [] | Some m \<Rightarrow> '': '' @ m))"

end
