(* ===== verification/EngineCorrect.thy ===== *)
theory EngineCorrect
  imports Engine TrackerCorrect
begin

text \<open>
  Correctness of the controller engine. The marks of active kinds obey their interface for every
  wrapped cache. What the handlers of the informers do rests on the documented behaviour of
  controller-runtime's cache, \<open>documented_cache\<close>.
\<close>

section \<open>The interface of the marks\<close>

locale informer_tracker =
  fixes ti :: "('t, 'i, 'h, 'r) informers"
  assumes get_active: "ti_GetInformer ti g t = (x, t1) \<Longrightarrow>
      set (ti_ActiveInformers ti t1) = insert g (set (ti_ActiveInformers ti t))"
    and remove_active: "ti_RemoveInformer ti g t = (y, t1) \<Longrightarrow>
      set (ti_ActiveInformers ti t1) = set (ti_ActiveInformers ti t) - {g}"
    and add_handler_active: "ti_AddEventHandler ti i h t = (z, t1) \<Longrightarrow>
      set (ti_ActiveInformers ti t1) = set (ti_ActiveInformers ti t)"
    and remove_handler_active: "ti_RemoveEventHandler ti i r t = (y, t1) \<Longrightarrow>
      set (ti_ActiveInformers ti t1) = set (ti_ActiveInformers ti t)"
begin

lemma source_Start_active:
  "source_Start ti s t = (x, t1) \<Longrightarrow> set (ti_ActiveInformers ti t1) = set (ti_ActiveInformers ti t)"
  by (auto simp: source_Start_def add_handler_active split: prod.splits sum.splits)

lemma source_Stop_active:
  "source_Stop ti s t = (x, t1) \<Longrightarrow> set (ti_ActiveInformers ti t1) = set (ti_ActiveInformers ti t)"
  by (auto simp: source_Stop_def remove_handler_active split: prod.splits option.splits if_splits)

lemma start_watch_active:
  assumes "start_watch ti w wid t = (x, t1)"
  shows "set (ti_ActiveInformers ti t1) = insert (wid_GVK wid) (set (ti_ActiveInformers ti t))"
  using assms get_active source_Start_active
  by (auto simp: start_watch_def split: prod.splits sum.splits)

text \<open>A run of the loop without an error leaves every watch asked for in place and its kind marked.\<close>

lemma start_loop_watching:
  assumes "start_loop ti A ids srcs t = (None, srcs1, t1, types)" "set A \<subseteq> set (ti_ActiveInformers ti t)"
  shows "keys srcs1 = keys srcs \<union> snd ` set ids \<and>
    set (ti_ActiveInformers ti t1) = set (ti_ActiveInformers ti t) \<union> wid_GVK ` snd ` set ids"
  using assms
proof (induction ids arbitrary: srcs t types)
  case (Cons p ids)
  obtain w wid where p: "p = (w, wid)" by force
  show ?case
  proof (cases "watching srcs A wid")
    case True
    with Cons.prems p Cons.IH [of srcs t types] show ?thesis
      by (auto simp: watching_def)
  next
    case False
    with Cons.prems p obtain src t2 types2 where
      s: "start_watch ti w wid t = (Inr src, t2)"
         "start_loop ti A ids (put wid src srcs) t2 = (None, srcs1, t1, types2)"
      by (auto split: prod.splits sum.splits)
    from start_watch_active [OF s(1)] have a:
      "set (ti_ActiveInformers ti t2) = insert (wid_GVK wid) (set (ti_ActiveInformers ti t))" .
    with Cons.prems(2) have "set A \<subseteq> set (ti_ActiveInformers ti t2)" by blast
    from Cons.IH [OF s(2) this] a p show ?thesis by auto
  qed
qed simp

lemma start_loop_skip:
  assumes "\<not> list_ex (\<lambda>(w, wid). \<not> watching srcs A wid) ids"
  shows "start_loop ti A ids srcs t = (None, srcs, t, [])"
  using assms by (induction ids) auto

end

lemma active_keys: "set (tk_ActiveInformers t) = keys (tk_active t)"
  by (simp add: tk_ActiveInformers_def keys_def)

lemma get_call_active:
  "tk_call g f t = (x, t1) \<Longrightarrow> set (tk_ActiveInformers t1) = insert g (set (tk_ActiveInformers t))"
  by (auto simp: active_keys tk_call_def Let_def split: prod.splits if_splits)

interpretation tracking: informer_tracker "tracked cc" for cc
proof
  fix g t x t1 y z i h r
  show "ti_GetInformer (tracked cc) g t = (x, t1) \<Longrightarrow>
      set (ti_ActiveInformers (tracked cc) t1) = insert g (set (ti_ActiveInformers (tracked cc) t))"
    by (simp add: tracked_def tk_GetInformer_def get_call_active)
  show "ti_RemoveInformer (tracked cc) g t = (y, t1) \<Longrightarrow>
      set (ti_ActiveInformers (tracked cc) t1) = set (ti_ActiveInformers (tracked cc) t) - {g}"
    by (auto simp: tracked_def tk_RemoveInformer_def active_keys Let_def split: prod.splits if_splits)
  show "ti_AddEventHandler (tracked cc) i h t = (z, t1) \<Longrightarrow>
      set (ti_ActiveInformers (tracked cc) t1) = set (ti_ActiveInformers (tracked cc) t)"
    by (auto simp: tracked_def on_cache_def active_keys split: prod.splits)
  show "ti_RemoveEventHandler (tracked cc) i r t = (y, t1) \<Longrightarrow>
      set (ti_ActiveInformers (tracked cc) t1) = set (ti_ActiveInformers (tracked cc) t)"
    by (auto simp: tracked_def on_cache_def active_keys split: prod.splits)
qed

section \<open>What is documented of the cache\<close>

text \<open>
  \<open>hs t i\<close> are the registered handlers of an informer and \<open>kd i\<close> is its kind. An informer that is handed
  out is not stopped; a registration is new; removing it removes its handler; removing an informer
  stops those of the kind that have handlers, and nothing else stops one.
\<close>

definition quiet :: "('t \<Rightarrow> 'i \<Rightarrow> ('r \<times> 'h) set) \<Rightarrow> ('i \<Rightarrow> 't \<Rightarrow> bool) \<Rightarrow> 't \<Rightarrow> 't \<Rightarrow> bool" where
  "quiet hs stopped t t1 \<longleftrightarrow> hs t1 = hs t \<and> (\<forall>i. stopped i t1 = stopped i t)"

definition get_law where
  "get_law ti hs kd \<longleftrightarrow> (\<forall>g t x t1. ti_GetInformer ti g t = (x, t1) \<longrightarrow>
     quiet hs (ti_IsStopped ti) t t1 \<and> (\<forall>i. x = Inr i \<longrightarrow> kd i = g \<and> \<not> ti_IsStopped ti i t))"

definition remove_law where
  "remove_law ti hs kd \<longleftrightarrow> (\<forall>g t x t1. ti_RemoveInformer ti g t = (x, t1) \<longrightarrow>
     hs t1 = hs t \<and> (\<forall>i. ti_IsStopped ti i t \<longrightarrow> ti_IsStopped ti i t1) \<and>
     (\<forall>i. kd i \<noteq> g \<longrightarrow> ti_IsStopped ti i t1 = ti_IsStopped ti i t) \<and>
     (\<forall>i. kd i = g \<and> hs t i \<noteq> {} \<longrightarrow> ti_IsStopped ti i t1))"

definition add_law where
  "add_law ti hs \<longleftrightarrow> (\<forall>i h t x t1. ti_AddEventHandler ti i h t = (x, t1) \<longrightarrow>
     (\<forall>j. ti_IsStopped ti j t1 = ti_IsStopped ti j t) \<and>
     (case x of
        Inl e \<Rightarrow> hs t1 = hs t
      | Inr r \<Rightarrow> (\<forall>j. r \<notin> fst ` hs t j) \<and> hs t1 = (hs t)(i := insert (r, h) (hs t i))))"

definition unregister_law where
  "unregister_law ti hs \<longleftrightarrow> (\<forall>i r t x t1. ti_RemoveEventHandler ti i r t = (x, t1) \<longrightarrow>
     (\<forall>j. ti_IsStopped ti j t1 = ti_IsStopped ti j t) \<and>
     hs t1 = (case x of Some e \<Rightarrow> hs t | None \<Rightarrow> (hs t)(i := {q \<in> hs t i. fst q \<noteq> r})))"

lemma add_lawD:
  assumes "add_law ti hs" "ti_AddEventHandler ti i h t = (Inr r, t1)"
  shows "ti_IsStopped ti j t1 = ti_IsStopped ti j t" "r \<notin> fst ` hs t j"
    "hs t1 = (hs t)(i := insert (r, h) (hs t i))"
proof -
  have "(\<forall>j. ti_IsStopped ti j t1 = ti_IsStopped ti j t) \<and>
      (case Inr r of Inl (e :: go_error) \<Rightarrow> hs t1 = hs t
       | Inr r \<Rightarrow> (\<forall>j. r \<notin> fst ` hs t j) \<and> hs t1 = (hs t)(i := insert (r, h) (hs t i)))"
    using assms unfolding add_law_def by blast
  then show "ti_IsStopped ti j t1 = ti_IsStopped ti j t" "r \<notin> fst ` hs t j"
    "hs t1 = (hs t)(i := insert (r, h) (hs t i))"
    by auto
qed

definition handler_laws ::
  "('t, 'i, 'h, 'r) informers \<Rightarrow> ('t \<Rightarrow> 'i \<Rightarrow> ('r \<times> 'h) set) \<Rightarrow> ('i \<Rightarrow> gvk) \<Rightarrow> bool" where
  "handler_laws ti hs kd \<longleftrightarrow>
     get_law ti hs kd \<and> remove_law ti hs kd \<and> add_law ti hs \<and> unregister_law ti hs"

lemmas handler_law_defs = handler_laws_def get_law_def remove_law_def add_law_def unregister_law_def quiet_def

definition as_informers ::
  "('s, 'i, 'h, 'r, 'k, 'o) cache_calls \<Rightarrow> ('s, 'i, 'h, 'r) informers" where
  "as_informers cc =
     \<lparr>ti_GetInformer = ca_GetInformer cc, ti_RemoveInformer = ca_RemoveInformer cc,
      ti_ActiveInformers = \<lambda>s. [], ti_AddEventHandler = ca_AddEventHandler cc,
      ti_RemoveEventHandler = ca_RemoveEventHandler cc, ti_IsStopped = ca_IsStopped cc\<rparr>"

definition documented_cache ::
  "('s, 'i, 'h, 'r, 'k, 'o) cache_calls \<Rightarrow> ('s \<Rightarrow> 'i \<Rightarrow> ('r \<times> 'h) set) \<Rightarrow> ('i \<Rightarrow> gvk) \<Rightarrow> bool" where
  "documented_cache cc hs kd \<longleftrightarrow> handler_laws (as_informers cc) hs kd \<and>
     (\<forall>g k s. quiet hs (ca_IsStopped cc) s (snd (ca_Get cc g k s)) \<and>
              quiet hs (ca_IsStopped cc) s (snd (ca_List cc g k s)))"

definition cached_hs :: "('s \<Rightarrow> 'i \<Rightarrow> ('r \<times> 'h) set) \<Rightarrow> 's tracking_cache \<Rightarrow> 'i \<Rightarrow> ('r \<times> 'h) set" where
  "cached_hs hs t = hs (tk_Cache t)"

lemma tracked_laws:
  assumes "documented_cache cc hs kd"
  shows "handler_laws (tracked cc) (cached_hs hs) kd"
proof -
  let ?a = "as_informers cc" and ?hs = "cached_hs hs"
  have l: "get_law ?a hs kd" "remove_law ?a hs kd" "add_law ?a hs" "unregister_law ?a hs"
    using assms by (auto simp: documented_cache_def handler_laws_def)
  have "get_law (tracked cc) ?hs kd"
    unfolding get_law_def
  proof (intro allI impI)
    fix g t x t1
    assume "ti_GetInformer (tracked cc) g t = (x, t1)"
    then have "ti_GetInformer ?a g (tk_Cache t) = (x, tk_Cache t1)"
      by (auto simp: tracked_def as_informers_def tk_GetInformer_def tk_call_def Let_def
          split: prod.splits if_splits)
    with l(1) show "quiet ?hs (ti_IsStopped (tracked cc)) t t1 \<and>
       (\<forall>i. x = Inr i \<longrightarrow> kd i = g \<and> \<not> ti_IsStopped (tracked cc) i t)"
      by (simp add: get_law_def quiet_def tracked_def as_informers_def cached_hs_def)
  qed
  moreover have "remove_law (tracked cc) ?hs kd"
    unfolding remove_law_def
  proof (intro allI impI)
    fix g t x t1
    assume "ti_RemoveInformer (tracked cc) g t = (x, t1)"
    then have "ti_RemoveInformer ?a g (tk_Cache t) = (x, tk_Cache t1)"
      by (auto simp: tracked_def as_informers_def tk_RemoveInformer_def Let_def split: prod.splits if_splits)
    with l(2) show "?hs t1 = ?hs t \<and>
       (\<forall>i. ti_IsStopped (tracked cc) i t \<longrightarrow> ti_IsStopped (tracked cc) i t1) \<and>
       (\<forall>i. kd i \<noteq> g \<longrightarrow> ti_IsStopped (tracked cc) i t1 = ti_IsStopped (tracked cc) i t) \<and>
       (\<forall>i. kd i = g \<and> ?hs t i \<noteq> {} \<longrightarrow> ti_IsStopped (tracked cc) i t1)"
      by (simp add: remove_law_def tracked_def as_informers_def cached_hs_def)
  qed
  moreover have "add_law (tracked cc) ?hs"
    unfolding add_law_def
  proof (intro allI impI)
    fix i h t x t1
    assume "ti_AddEventHandler (tracked cc) i h t = (x, t1)"
    then have "ti_AddEventHandler ?a i h (tk_Cache t) = (x, tk_Cache t1)"
      by (auto simp: tracked_def as_informers_def on_cache_def split: prod.splits)
    with l(3) show "(\<forall>j. ti_IsStopped (tracked cc) j t1 = ti_IsStopped (tracked cc) j t) \<and>
       (case x of Inl e \<Rightarrow> ?hs t1 = ?hs t
        | Inr r \<Rightarrow> (\<forall>j. r \<notin> fst ` ?hs t j) \<and> ?hs t1 = (?hs t)(i := insert (r, h) (?hs t i)))"
      unfolding cached_hs_def by (simp add: add_law_def tracked_def as_informers_def)
  qed
  moreover have "unregister_law (tracked cc) ?hs"
    unfolding unregister_law_def
  proof (intro allI impI)
    fix i r t x t1
    assume "ti_RemoveEventHandler (tracked cc) i r t = (x, t1)"
    then have "ti_RemoveEventHandler ?a i r (tk_Cache t) = (x, tk_Cache t1)"
      by (auto simp: tracked_def as_informers_def on_cache_def split: prod.splits)
    with l(4) show "(\<forall>j. ti_IsStopped (tracked cc) j t1 = ti_IsStopped (tracked cc) j t) \<and>
       ?hs t1 = (case x of Some e \<Rightarrow> ?hs t | None \<Rightarrow> (?hs t)(i := {q \<in> ?hs t i. fst q \<noteq> r}))"
      unfolding cached_hs_def by (simp add: unregister_law_def tracked_def as_informers_def)
  qed
  ultimately show ?thesis by (simp add: handler_laws_def)
qed

section \<open>Handlers and the sources that own them\<close>

text \<open>
  \<open>G\<close> gives the source of a controller (by its pointer) and a watch id. Each source has a handler
  of its own on an informer of its kind, and the handlers of live informers are those of sources.
\<close>

type_synonym ('i, 'h, 'r) source_map = "nat \<times> watch_id \<Rightarrow> ('i, 'h, 'r) stoppable_source option"

definition registered ::
  "('t \<Rightarrow> 'i \<Rightarrow> ('r \<times> 'h) set) \<Rightarrow> 't \<Rightarrow> ('i, 'h, 'r) stoppable_source \<Rightarrow> bool" where
  "registered hs t s \<longleftrightarrow> (\<exists>r. so_reg s = Some r \<and> (r, so_handler s) \<in> hs t (so_inf s))"

definition owned ::
  "('t, 'i, 'h, 'r) informers \<Rightarrow> ('t \<Rightarrow> 'i \<Rightarrow> ('r \<times> 'h) set) \<Rightarrow> ('i \<Rightarrow> gvk) \<Rightarrow> 't \<Rightarrow>
     ('i, 'h, 'r) source_map \<Rightarrow> bool" where
  "owned ti hs kd t G \<longleftrightarrow>
     (\<forall>k s. G k = Some s \<longrightarrow> kd (so_inf s) = wid_GVK (snd k) \<and> registered hs t s) \<and>
     (\<forall>k k' s s'. G k = Some s \<longrightarrow> G k' = Some s' \<longrightarrow> so_reg s = so_reg s' \<longrightarrow> k = k') \<and>
     (\<forall>i r h. (r, h) \<in> hs t i \<longrightarrow> \<not> ti_IsStopped ti i t \<longrightarrow>
        kd i \<in> set (ti_ActiveInformers ti t) \<and>
        (\<exists>k s. G k = Some s \<and> s = \<lparr>so_inf = i, so_handler = h, so_reg = Some r\<rparr>))"

lemma ownedD:
  assumes "owned ti hs kd t G"
  shows "G k = Some s \<Longrightarrow> kd (so_inf s) = wid_GVK (snd k)"
    and "G k = Some s \<Longrightarrow> \<exists>r. so_reg s = Some r \<and> (r, so_handler s) \<in> hs t (so_inf s)"
    and "G k = Some s \<Longrightarrow> G k' = Some s' \<Longrightarrow> so_reg s = so_reg s' \<Longrightarrow> k = k'"
    and "(r, h) \<in> hs t i \<Longrightarrow> \<not> ti_IsStopped ti i t \<Longrightarrow> kd i \<in> set (ti_ActiveInformers ti t)"
    and "(r, h) \<in> hs t i \<Longrightarrow> \<not> ti_IsStopped ti i t \<Longrightarrow>
      \<exists>k. G k = Some \<lparr>so_inf = i, so_handler = h, so_reg = Some r\<rparr>"
  using assms unfolding owned_def registered_def by blast+

lemma owned_quiet:
  assumes "owned ti hs kd t G" "quiet hs (ti_IsStopped ti) t t1"
    "set (ti_ActiveInformers ti t) \<subseteq> set (ti_ActiveInformers ti t1)"
  shows "owned ti hs kd t1 G"
  using assms unfolding owned_def quiet_def registered_def by (simp add: subset_iff)

lemma owned_unmarked_stopped:
  assumes "owned ti hs kd t G" "G k = Some s" "wid_GVK (snd k) \<notin> set (ti_ActiveInformers ti t)"
  shows "ti_IsStopped ti (so_inf s) t"
  using assms ownedD(1,2,4) [OF assms(1)] by metis

lemma owned_remove_informer:
  assumes G: "owned ti hs kd t G" and l: "handler_laws ti hs kd" "informer_tracker ti"
    and r: "ti_RemoveInformer ti g t = (x, t1)"
  shows "owned ti hs kd t1 G"
proof -
  have a: "set (ti_ActiveInformers ti t1) = set (ti_ActiveInformers ti t) - {g}"
    using informer_tracker.remove_active [OF l(2) r] .
  from l(1) r have h: "hs t1 = hs t" and st: "\<And>i. ti_IsStopped ti i t \<Longrightarrow> ti_IsStopped ti i t1"
    and kg: "\<And>i. kd i = g \<Longrightarrow> hs t i \<noteq> {} \<Longrightarrow> ti_IsStopped ti i t1"
    unfolding handler_laws_def remove_law_def by blast+
  have "kd i \<in> set (ti_ActiveInformers ti t1) \<and>
      (\<exists>k s. G k = Some s \<and> s = \<lparr>so_inf = i, so_handler = hh, so_reg = Some r\<rparr>)"
    if "(r, hh) \<in> hs t1 i" "\<not> ti_IsStopped ti i t1" for i r hh
  proof -
    from that h have m: "(r, hh) \<in> hs t i" by simp
    have "\<not> ti_IsStopped ti i t" using that(2) st by blast
    note live = ownedD(4,5) [OF G m this]
    have "kd i \<noteq> g" using kg m that(2) by blast
    with live a show ?thesis by blast
  qed
  with G h show ?thesis unfolding owned_def registered_def by simp
qed

lemma owned_add:
  assumes G: "owned ti hs kd t G" and l: "handler_laws ti hs kd" "informer_tracker ti"
    and old: "\<And>s. G k = Some s \<Longrightarrow> ti_IsStopped ti (so_inf s) t"
    and inf: "kd i = wid_GVK (snd k)" "kd i \<in> set (ti_ActiveInformers ti t)"
    and add: "source_Start ti (NewStoppableSource i h) t = (Inr src, t1)"
  shows "owned ti hs kd t1 (G(k := Some src)) \<and> (\<forall>j. ti_IsStopped ti j t1 = ti_IsStopped ti j t)"
proof -
  from add obtain r where r: "ti_AddEventHandler ti i h t = (Inr r, t1)"
    "src = \<lparr>so_inf = i, so_handler = h, so_reg = Some r\<rparr>"
    by (auto simp: source_Start_def NewStoppableSource_def split: prod.splits sum.splits)
  from l(1) r(1) have st: "\<And>j. ti_IsStopped ti j t1 = ti_IsStopped ti j t"
    and new: "\<And>j. r \<notin> fst ` hs t j" and h: "hs t1 = (hs t)(i := insert (r, h) (hs t i))"
    using add_lawD [OF _ r(1)] by (auto simp: handler_laws_def)
  have a: "set (ti_ActiveInformers ti t1) = set (ti_ActiveInformers ti t)"
    using informer_tracker.add_handler_active [OF l(2) r(1)] .
  have fresh: "so_reg s \<noteq> Some r" if "G k' = Some s" for k' s
    using ownedD(2) [OF G that] new by (metis fst_conv image_eqI option.inject)
  have "kd (so_inf s) = wid_GVK (snd k') \<and> registered hs t1 s" if "(G(k := Some src)) k' = Some s" for k' s
  proof (cases "k' = k")
    case True
    with that r(2) inf(1) h show ?thesis by (auto simp: registered_def)
  next
    case False
    with that have "G k' = Some s" by simp
    with ownedD(1,2) [OF G] h show ?thesis by (fastforce simp: registered_def)
  qed
  moreover have "k' = k''"
    if "(G(k := Some src)) k' = Some s" "(G(k := Some src)) k'' = Some s'" "so_reg s = so_reg s'" for k' k'' s s'
    using that fresh [of k' s] fresh [of k'' s'] ownedD(3) [OF G, of k' s k'' s'] r(2)
    by (auto split: if_splits)
  moreover have "kd j \<in> set (ti_ActiveInformers ti t1) \<and>
      (\<exists>k' s. (G(k := Some src)) k' = Some s \<and> s = \<lparr>so_inf = j, so_handler = h', so_reg = Some r'\<rparr>)"
    if m: "(r', h') \<in> hs t1 j" and live: "\<not> ti_IsStopped ti j t1" for j r' h'
  proof (cases "(r', h') \<in> hs t j")
    case True
    with live st obtain k' where k': "kd j \<in> set (ti_ActiveInformers ti t)"
      "G k' = Some \<lparr>so_inf = j, so_handler = h', so_reg = Some r'\<rparr>"
      using ownedD(4,5) [OF G] by blast
    have "k' \<noteq> k" using old k'(2) live st by fastforce
    with k' a show ?thesis by (auto simp del: split_paired_Ex)
  next
    case False
    with m h have "j = i" "r' = r" "h' = h" by (auto split: if_splits)
    with inf(2) a r(2) show ?thesis by (auto simp del: split_paired_Ex)
  qed
  ultimately have "owned ti hs kd t1 (G(k := Some src))" unfolding owned_def by blast
  with st show ?thesis by blast
qed

lemma owned_add_fails:
  assumes "owned ti hs kd t G" and l: "handler_laws ti hs kd" "informer_tracker ti"
    and "source_Start ti s t = (Inl e, t1)"
  shows "owned ti hs kd t1 G \<and> quiet hs (ti_IsStopped ti) t t1"
proof -
  from assms(4) obtain e' where e: "ti_AddEventHandler ti (so_inf s) (so_handler s) t = (Inl e', t1)"
    by (auto simp: source_Start_def split: prod.splits sum.splits)
  with l(1) have "quiet hs (ti_IsStopped ti) t t1"
    unfolding handler_laws_def add_law_def quiet_def by fastforce
  with owned_quiet [OF assms(1) this] informer_tracker.add_handler_active [OF l(2) e] show ?thesis
    by blast
qed

lemma owned_stop:
  assumes G: "owned ti hs kd t G" and l: "handler_laws ti hs kd" "informer_tracker ti"
    and k: "G k = Some s" and stop: "source_Stop ti s t = (e, t1)"
  shows "owned ti hs kd t1 (if e = None then G(k := None) else G) \<and>
    (\<forall>j. ti_IsStopped ti j t1 = ti_IsStopped ti j t)"
proof -
  obtain r where r: "so_reg s = Some r" "(r, so_handler s) \<in> hs t (so_inf s)"
    using ownedD(2) [OF G k] by blast
  show ?thesis
  proof (cases "ti_IsStopped ti (so_inf s) t")
    case True
    with stop r have t: "e = None" "t1 = t" by (simp_all add: source_Stop_def)
    from G True k have "owned ti hs kd t (G(k := None))"
      unfolding owned_def registered_def
      by (auto split: if_splits) (metis option.inject stoppable_source.select_convs(1))+
    with t show ?thesis by simp
  next
    case False
    with stop r obtain e' where e: "ti_RemoveEventHandler ti (so_inf s) r t = (e', t1)"
      "e = None \<longleftrightarrow> e' = None"
      by (auto simp: source_Stop_def wrap_opt_def split: prod.splits)
    from l(1) e(1) have st: "\<And>j. ti_IsStopped ti j t1 = ti_IsStopped ti j t"
      and h: "hs t1 = (case e' of Some e \<Rightarrow> hs t | None \<Rightarrow> (hs t)(so_inf s := {q \<in> hs t (so_inf s). fst q \<noteq> r}))"
      unfolding handler_laws_def unregister_law_def by blast+
    have a: "set (ti_ActiveInformers ti t1) = set (ti_ActiveInformers ti t)"
      using informer_tracker.remove_handler_active [OF l(2) e(1)] .
    show ?thesis
    proof (cases e')
      case (Some x)
      with h st have "quiet hs (ti_IsStopped ti) t t1" by (simp add: quiet_def)
      with owned_quiet [OF G this] a st Some e(2) show ?thesis by auto
    next
      case None
      with h have h': "hs t1 = (hs t)(so_inf s := {q \<in> hs t (so_inf s). fst q \<noteq> r})" by simp
      have other: "so_reg s' \<noteq> Some r" if "G k' = Some s'" "k' \<noteq> k" for k' s'
        using ownedD(3) [OF G that(1) k] that(2) r(1) by metis
      have "kd (so_inf s') = wid_GVK (snd k') \<and> registered hs t1 s'"
        if "(G(k := None)) k' = Some s'" for k' s'
      proof -
        from that have k': "G k' = Some s'" "k' \<noteq> k" by (auto split: if_splits)
        with ownedD(1,2) [OF G k'(1)] other [OF k'] h' show ?thesis by (auto simp: registered_def)
      qed
      moreover have "k' = k''"
        if "(G(k := None)) k' = Some u" "(G(k := None)) k'' = Some u'" "so_reg u = so_reg u'" for k' k'' u u'
        using that ownedD(3) [OF G, of k' u k'' u'] by (auto split: if_splits)
      moreover have "kd j \<in> set (ti_ActiveInformers ti t1) \<and>
          (\<exists>k' u. (G(k := None)) k' = Some u \<and> u = \<lparr>so_inf = j, so_handler = hh, so_reg = Some q\<rparr>)"
        if m: "(q, hh) \<in> hs t1 j" and live: "\<not> ti_IsStopped ti j t1" for j q hh
      proof -
        from m h' have m': "(q, hh) \<in> hs t j" "j = so_inf s \<Longrightarrow> q \<noteq> r" by (auto split: if_splits)
        from live st have "\<not> ti_IsStopped ti j t" by simp
        with ownedD(4,5) [OF G m'(1)] obtain k' where
          k': "kd j \<in> set (ti_ActiveInformers ti t)" "G k' = Some \<lparr>so_inf = j, so_handler = hh, so_reg = Some q\<rparr>"
          by blast
        moreover have "k' \<noteq> k" using k k'(2) m'(2) r(1) by auto
        ultimately show ?thesis using a by (auto simp del: split_paired_Ex)
      qed
      ultimately have "owned ti hs kd t1 (G(k := None))" unfolding owned_def by blast
      with None e(2) st show ?thesis by simp
    qed
  qed
qed

section \<open>Loops over watches\<close>

text \<open>The source map with the sources of one controller replaced.\<close>

definition slot ::
  "('i, 'h, 'r) source_map \<Rightarrow> nat \<Rightarrow> ('i, 'h, 'r) sources \<Rightarrow> ('i, 'h, 'r) source_map" where
  "slot G p srcs = (\<lambda>k. if fst k = p then map_of srcs (snd k) else G k)"

lemma slot_at [simp]: "slot G p srcs (p, wid) = map_of srcs wid"
  by (simp add: slot_def)

lemma slot_put: "slot G p (put wid s srcs) = (slot G p srcs)((p, wid) := Some s)"
  by (auto simp: slot_def fun_eq_iff)

lemma slot_del: "slot G p (del wid srcs) = (slot G p srcs)((p, wid) := None)"
  by (auto simp: slot_def fun_eq_iff)

lemma owned_start_watch:
  assumes G: "owned ti hs kd t G" and l: "handler_laws ti hs kd" "informer_tracker ti"
    and old: "\<And>s. G (p, wid) = Some s \<Longrightarrow> ti_IsStopped ti (so_inf s) t"
    and run: "start_watch ti w wid t = (x, t1)"
  shows "owned ti hs kd t1 (case x of Inl e \<Rightarrow> G | Inr src \<Rightarrow> G((p, wid) := Some src)) \<and>
    (\<forall>j. ti_IsStopped ti j t1 = ti_IsStopped ti j t) \<and>
    (\<forall>src. x = Inr src \<longrightarrow> so_handler src = w_handler w \<and> \<not> ti_IsStopped ti (so_inf src) t1)"
proof -
  obtain y t2 where g: "ti_GetInformer ti (wid_GVK wid) t = (y, t2)" by force
  with l(1) have q: "quiet hs (ti_IsStopped ti) t t2"
    and i: "\<And>i. y = Inr i \<Longrightarrow> kd i = wid_GVK wid \<and> \<not> ti_IsStopped ti i t"
    unfolding handler_laws_def get_law_def by blast+
  have a: "set (ti_ActiveInformers ti t2) = insert (wid_GVK wid) (set (ti_ActiveInformers ti t))"
    using informer_tracker.get_active [OF l(2) g] .
  have G2: "owned ti hs kd t2 G" using owned_quiet [OF G q] a by blast
  have st: "\<And>j. ti_IsStopped ti j t2 = ti_IsStopped ti j t" using q by (simp add: quiet_def)
  show ?thesis
  proof (cases y)
    case (Inl e)
    with run g G2 st show ?thesis by (auto simp: start_watch_def)
  next
    case (Inr i')
    obtain z t3 where z: "source_Start ti (NewStoppableSource i' (w_handler w)) t2 = (z, t3)" by force
    show ?thesis
    proof (cases z)
      case (Inl e)
      with owned_add_fails [OF G2 l] z have "owned ti hs kd t3 G \<and> quiet hs (ti_IsStopped ti) t2 t3"
        by blast
      with run g Inr z Inl st show ?thesis by (auto simp: start_watch_def quiet_def)
    next
      case (Inr src)
      have "owned ti hs kd t3 (G((p, wid) := Some src)) \<and> (\<forall>j. ti_IsStopped ti j t3 = ti_IsStopped ti j t2)"
        using old st i [OF \<open>y = Inr i'\<close>] a z Inr by (intro owned_add [OF G2 l]) auto
      moreover have "so_handler src = w_handler w \<and> so_inf src = i'"
        using z Inr by (auto simp: source_Start_def NewStoppableSource_def split: prod.splits sum.splits)
      ultimately show ?thesis using run g \<open>y = Inr i'\<close> z Inr st i by (auto simp: start_watch_def)
    qed
  qed
qed

lemma owned_start_loop:
  assumes "owned ti hs kd t (slot G p srcs)" and l: "handler_laws ti hs kd" "informer_tracker ti"
    and "distinct (map snd ids)"
    and "\<And>w wid s. (w, wid) \<in> set ids \<Longrightarrow> map_of srcs wid = Some s \<Longrightarrow> wid_GVK wid \<notin> set A \<Longrightarrow>
      ti_IsStopped ti (so_inf s) t"
    and "start_loop ti A ids srcs t = (r, srcs1, t1, types)"
  shows "owned ti hs kd t1 (slot G p srcs1) \<and> (\<forall>j. ti_IsStopped ti j t1 = ti_IsStopped ti j t)"
  using assms(1,4,5,6)
proof (induction ids arbitrary: srcs t types)
  case (Cons q ids)
  obtain w wid where q: "q = (w, wid)" by force
  show ?case
  proof (cases "watching srcs A wid")
    case True
    with Cons.prems q show ?thesis by (intro Cons.IH) auto
  next
    case False
    obtain x t2 where x: "start_watch ti w wid t = (x, t2)" by force
    have "ti_IsStopped ti (so_inf s) t" if "slot G p srcs (p, wid) = Some s" for s
      using that Cons.prems(3) [of w wid s] False q by (auto simp: watching_def in_keys_iff)
    note step = owned_start_watch [where p = p, OF Cons.prems(1) l this x]
    show ?thesis
    proof (cases x)
      case (Inl e)
      with step x False Cons.prems(4) q show ?thesis by auto
    next
      case (Inr src)
      then have o: "owned ti hs kd t2 (slot G p (put wid src srcs))"
        and st: "\<And>j. ti_IsStopped ti j t2 = ti_IsStopped ti j t"
        using step by (auto simp: slot_put)
      obtain types2 where run: "start_loop ti A ids (put wid src srcs) t2 = (r, srcs1, t1, types2)"
        using Cons.prems(4) q False x Inr by (auto split: prod.splits)
      have "owned ti hs kd t1 (slot G p srcs1) \<and> (\<forall>j. ti_IsStopped ti j t1 = ti_IsStopped ti j t2)"
        using Cons.prems(2,3) q st by (intro Cons.IH [OF o _ _ run]) (auto simp: image_iff split: if_splits)
      with st show ?thesis by simp
    qed
  qed
qed auto

lemma stop_loop_map:
  "stop_loop ti wids srcs t = (None, srcs1, t1, types) \<Longrightarrow> map_of srcs1 = map_of srcs |` (- set wids)"
proof (induction wids arbitrary: srcs t types)
  case (Cons wid wids)
  show ?case
  proof (cases "map_of srcs wid")
    case None
    then have "map_of srcs |` (- set wids) = map_of srcs |` (- set (wid # wids))"
      by (auto simp: restrict_map_def fun_eq_iff)
    with Cons None show ?thesis by simp
  next
    case (Some s)
    with Cons.prems obtain t2 types2 where "stop_loop ti wids (del wid srcs) t2 = (None, srcs1, t1, types2)"
      by (auto split: prod.splits option.splits)
    from Cons.IH [OF this] show ?thesis by (auto simp: restrict_map_def fun_eq_iff)
  qed
qed (simp add: restrict_map_def)

lemma owned_stop_loop:
  assumes "owned ti hs kd t (slot G p srcs)" and l: "handler_laws ti hs kd" "informer_tracker ti"
    and "stop_loop ti wids srcs t = (r, srcs1, t1, types)"
  shows "owned ti hs kd t1 (slot G p srcs1)"
  using assms(1,4)
proof (induction wids arbitrary: srcs t types)
  case (Cons wid wids)
  show ?case
  proof (cases "map_of srcs wid")
    case None
    with Cons show ?thesis by simp
  next
    case (Some s)
    obtain e t2 where x: "source_Stop ti s t = (e, t2)" by force
    have step: "owned ti hs kd t2 (if e = None then slot G p (del wid srcs) else slot G p srcs)"
      using owned_stop [OF Cons.prems(1) l _ x, of "(p, wid)"] Some by (cases e) (simp_all add: slot_del)
    show ?thesis
    proof (cases e)
      case (Some err)
      with step x \<open>map_of srcs wid = Some s\<close> Cons.prems(2) show ?thesis by auto
    next
      case None
      obtain types2 where run: "stop_loop ti wids (del wid srcs) t2 = (r, srcs1, t1, types2)"
        using Cons.prems(2) x None Some by (auto split: prod.splits)
      from Cons.IH [OF _ run] step None show ?thesis by simp
    qed
  qed
qed simp

text \<open>Stopping a controller is stopping its watches, without counting them.\<close>

lemma stop_sources_loop:
  "stop_sources ti wids srcs t =
     (case stop_loop ti wids srcs t of (r, srcs1, t1, types) \<Rightarrow> (r, srcs1, t1))"
  by (induction ti wids srcs t rule: stop_sources.induct) (auto split: option.splits prod.splits)

end
