(* ===== verification/EngineSteps.thy ===== *)
theory EngineSteps
  imports EngineCorrect
begin

text \<open>
  The histories of the controller engine and the invariant of all of them: the names of controllers,
  the sources of stopped ones, and the handlers their sources own.
\<close>

section \<open>Histories\<close>

text \<open>
  Other goroutines run between any two critical sections, so the part of an operation under a
  controller's lock may run at any time, for a pointer read earlier. With \<open>late\<close> the controller may have
  been stopped since. Nothing is asked of the calls that readers make of the cache.
\<close>

definition ranges :: "(('k, 'v) gomap \<Rightarrow> 'k list) \<Rightarrow> bool" where
  "ranges ro \<longleftrightarrow> (\<forall>m. set (ro m) = keys m \<and> distinct (ro m))"

inductive step ::
  "('s, 'i, 'h, 'r, 'k, 'o) cache_calls \<Rightarrow> (('i, 'h, 'r) sources \<Rightarrow> watch_id list) \<Rightarrow> bool \<Rightarrow>
     ('s tracking_cache, 'i, 'h, 'r) engine \<Rightarrow> ('s tracking_cache, 'i, 'h, 'r) engine \<Rightarrow> bool"
  for cc ro late where
  st_start: "step cc ro late e (snd (Start nc gc name e))"
| st_stop: "step cc ro late e (snd (Stop (tracked cc) ro name e))"
| st_begin: "p < length (en_heap e) \<Longrightarrow> ct_goroutine (en_heap e ! p) = Waiting \<Longrightarrow>
    step cc ro late e (goroutine_begin p e)"
| st_end: "p < length (en_heap e) \<Longrightarrow> ct_goroutine (en_heap e ! p) = Running \<Longrightarrow>
    (r = None \<Longrightarrow> ct_cancelled (en_heap e ! p)) \<Longrightarrow>
    step cc ro late e (goroutine_end (tracked cc) ro r p e)"
| st_start_watches: "p < length (en_heap e) \<Longrightarrow> late \<or> \<not> ct_cancelled (en_heap e ! p) \<Longrightarrow>
    watch_ids ws = Inr ids \<Longrightarrow> distinct (map snd ids) \<Longrightarrow>
    step cc ro late e (snd (start_locked (tracked cc) (ct_name (en_heap e ! p)) p ids e))"
| st_stop_watches: "p < length (en_heap e) \<Longrightarrow>
    step cc ro late e (snd (stop_locked (tracked cc) (ct_name (en_heap e ! p)) p wids e))"
| st_crd: "step cc ro late e (crd_deleted (tracked cc) obj e)"
| st_Get: "step cc ro late e (e\<lparr>en_infs := snd (tk_Get cc k obj (en_infs e))\<rparr>)"
| st_List: "step cc ro late e (e\<lparr>en_infs := snd (tk_List cc k obj (en_infs e))\<rparr>)"
| st_GetInformer: "step cc ro late e (e\<lparr>en_infs := snd (tk_GetInformer cc obj (en_infs e))\<rparr>)"
| st_GetInformerForKind:
    "step cc ro late e (e\<lparr>en_infs := snd (tk_GetInformerForKind cc g (en_infs e))\<rparr>)"
| st_RemoveInformer: "step cc ro late e (e\<lparr>en_infs := snd (tk_RemoveInformer cc obj (en_infs e))\<rparr>)"

inductive reachable ::
  "('s, 'i, 'h, 'r, 'k, 'o) cache_calls \<Rightarrow> (('i, 'h, 'r) sources \<Rightarrow> watch_id list) \<Rightarrow> bool \<Rightarrow> 's \<Rightarrow>
     ('s tracking_cache, 'i, 'h, 'r) engine \<Rightarrow> bool" for cc ro late c where
  rc_new: "reachable cc ro late c (New (TrackInformers c))"
| rc_step: "reachable cc ro late c e \<Longrightarrow> step cc ro late e e1 \<Longrightarrow> reachable cc ro late c e1"

section \<open>The invariant of the names\<close>

definition sources_of :: "('t, 'i, 'h, 'r) engine \<Rightarrow> ('i, 'h, 'r) source_map" where
  "sources_of e = (\<lambda>k. if fst k < length (en_heap e)
                       then map_of (ct_sources (en_heap e ! fst k)) (snd k) else None)"

definition names_ok :: "('t, 'i, 'h, 'r) engine \<Rightarrow> bool" where
  "names_ok e \<longleftrightarrow>
     (\<forall>name p. map_of (en_controllers e) name = Some p \<longrightarrow>
        p < length (en_heap e) \<and> ct_name (en_heap e ! p) = name \<and> \<not> ct_cancelled (en_heap e ! p)) \<and>
     (\<forall>p < length (en_heap e). \<not> ct_cancelled (en_heap e ! p) \<longrightarrow>
        map_of (en_controllers e) (ct_name (en_heap e ! p)) = Some p)"

definition swept :: "('t, 'i, 'h, 'r) engine \<Rightarrow> bool" where
  "swept e \<longleftrightarrow> (\<forall>p < length (en_heap e). ct_cancelled (en_heap e ! p) \<longrightarrow>
     keys (ct_sources (en_heap e ! p)) = {})"

lemma sources_of_upd:
  "p < length (en_heap e) \<Longrightarrow> sources_of (upd p f e) = slot (sources_of e) p (ct_sources (f (en_heap e ! p)))"
  by (auto simp: sources_of_def upd_def slot_def fun_eq_iff nth_list_update)

lemma sources_of_same [simp]:
  "sources_of (e\<lparr>en_infs := t\<rparr>) = sources_of e"
  "sources_of (e\<lparr>en_metrics := ms\<rparr>) = sources_of e"
  "sources_of (e\<lparr>en_controllers := cs\<rparr>) = sources_of e"
  by (auto simp: sources_of_def fun_eq_iff)

lemma slot_id: "p < length (en_heap e) \<Longrightarrow> slot (sources_of e) p (ct_sources (en_heap e ! p)) = sources_of e"
  by (auto simp: sources_of_def slot_def fun_eq_iff)

lemma upd_fields [simp]:
  "en_infs (upd p f e) = en_infs e" "en_controllers (upd p f e) = en_controllers e"
  "length (en_heap (upd p f e)) = length (en_heap e)" "en_metrics (upd p f e) = en_metrics e"
  by (simp_all add: upd_def)

lemma heap_upd:
  "p < length (en_heap e) \<Longrightarrow>
   en_heap (upd p f e) ! q = (if q = p then f (en_heap e ! p) else en_heap e ! q)"
  by (simp add: upd_def nth_list_update)

text \<open>Changing the sources or the goroutine of a controller changes no name.\<close>

lemma named_upd:
  assumes "names_ok e" "p < length (en_heap e)" "\<And>c. ct_name (f c) = ct_name c"
    "\<And>c. ct_cancelled (f c) = ct_cancelled c"
  shows "names_ok (upd p f e)"
  using assms unfolding names_ok_def by (auto simp: heap_upd)

lemma named_same [simp]:
  "names_ok (e\<lparr>en_infs := t\<rparr>) = names_ok e" "names_ok (e\<lparr>en_metrics := ms\<rparr>) = names_ok e"
  by (simp_all add: names_ok_def)

lemma swept_same [simp]:
  "swept (e\<lparr>en_infs := t\<rparr>) = swept e" "swept (e\<lparr>en_metrics := ms\<rparr>) = swept e"
  "swept (e\<lparr>en_controllers := cs\<rparr>) = swept e"
  by (simp_all add: swept_def)

lemma swept_upd:
  assumes "swept e" "p < length (en_heap e)"
    "ct_cancelled (f (en_heap e ! p)) \<Longrightarrow> keys (ct_sources (f (en_heap e ! p))) = {}"
  shows "swept (upd p f e)"
  using assms unfolding swept_def by (auto simp: heap_upd)

lemma named_Start:
  assumes "names_ok e"
  shows "names_ok (snd (Start nc gc name e))"
proof (cases "IsRunning e name \<or> nc \<noteq> None")
  case True
  with assms show ?thesis by (auto simp: Start_def split: option.splits)
next
  case False
  then have s: "snd (Start nc gc name e) =
      e\<lparr>en_heap := en_heap e @ [\<lparr>ct_name = name, ct_gc = gc, ct_goroutine = Waiting,
          ct_cancelled = False, ct_sources = []\<rparr>],
        en_controllers := put name (length (en_heap e)) (en_controllers e)\<rparr>"
    by (simp add: Start_def)
  have n: "map_of (en_controllers e) name = None"
    using False by (simp add: IsRunning_def not_in_keys_iff)
  have "ct_name (en_heap e ! p) \<noteq> name" if "p < length (en_heap e)" "\<not> ct_cancelled (en_heap e ! p)" for p
    using assms that n unfolding names_ok_def by force
  with assms show ?thesis unfolding s names_ok_def
    by (auto simp: nth_append less_Suc_eq)
qed

lemma swept_Start: "swept e \<Longrightarrow> swept (snd (Start nc gc name e))"
  by (auto simp: Start_def swept_def nth_append less_Suc_eq split: option.splits)

lemma sources_of_Start: "sources_of (snd (Start nc gc name e)) = sources_of e"
  by (auto simp: Start_def sources_of_def nth_append fun_eq_iff less_Suc_eq split: option.splits)

section \<open>Every operation keeps the invariants\<close>

lemma Stop_result:
  assumes n: "names_ok e" and p: "map_of (en_controllers e) name = Some p"
    and run: "stop_sources ti (ro (ct_sources (en_heap e ! p))) (ct_sources (en_heap e ! p)) (en_infs e) =
      (r, srcs, t)"
  shows "fst (Stop ti ro name e) = r \<and> en_infs (snd (Stop ti ro name e)) = t \<and>
    sources_of (snd (Stop ti ro name e)) = slot (sources_of e) p srcs \<and>
    length (en_heap (snd (Stop ti ro name e))) = length (en_heap e) \<and>
    (\<forall>q. en_heap (snd (Stop ti ro name e)) ! q =
       (if q = p then (en_heap e ! p)\<lparr>ct_sources := srcs,
                         ct_cancelled := r = None \<or> ct_cancelled (en_heap e ! p)\<rparr> else en_heap e ! q)) \<and>
    en_controllers (snd (Stop ti ro name e)) =
      (if r = None then del name (en_controllers e) else en_controllers e)"
proof -
  have "p < length (en_heap e)" using n p by (simp add: names_ok_def)
  then show ?thesis
    using assms(2,3)
    by (cases r) (auto simp: Stop_def Let_def sources_of_upd heap_upd)
qed

lemma named_Stop:
  assumes "names_ok e"
  shows "names_ok (snd (Stop ti ro name e))"
proof (cases "map_of (en_controllers e) name")
  case None
  with assms show ?thesis by (simp add: Stop_def)
next
  case (Some p)
  obtain r srcs t where run: "stop_sources ti (ro (ct_sources (en_heap e ! p))) (ct_sources (en_heap e ! p))
      (en_infs e) = (r, srcs, t)" by (metis prod_cases3)
  note S = Stop_result [where ro = ro, OF assms Some run]
  have p: "p < length (en_heap e)" "ct_name (en_heap e ! p) = name" "\<not> ct_cancelled (en_heap e ! p)"
    using assms Some by (auto simp: names_ok_def)
  have other: "q \<noteq> p" if "map_of (en_controllers e) n = Some q" "n \<noteq> name" for n q
    using assms that p(2) unfolding names_ok_def by blast
  have other': "ct_name (en_heap e ! q) \<noteq> name"
    if "q < length (en_heap e)" "\<not> ct_cancelled (en_heap e ! q)" "q \<noteq> p" for q
    using assms that Some unfolding names_ok_def by (metis option.inject)
  let ?e = "snd (Stop ti ro name e)"
  have S': "length (en_heap ?e) = length (en_heap e)"
    "\<And>q. ct_name (en_heap ?e ! q) = ct_name (en_heap e ! q)"
    "\<And>q. ct_cancelled (en_heap ?e ! q) \<longleftrightarrow> (q = p \<and> r = None) \<or> ct_cancelled (en_heap e ! q)"
    "en_controllers ?e = (if r = None then del name (en_controllers e) else en_controllers e)"
    using S by auto
  show ?thesis
    using assms other other' p unfolding names_ok_def S' by (cases r) (simp_all, metis)
qed

lemma swept_Stop:
  assumes n: "names_ok e" and ro: "ranges ro" and laws: "handler_laws ti hs kd" "informer_tracker ti"
    and o: "owned ti hs kd (en_infs e) (sources_of e)"
  shows "(swept e \<longrightarrow> swept (snd (Stop ti ro name e))) \<and>
    owned ti hs kd (en_infs (snd (Stop ti ro name e))) (sources_of (snd (Stop ti ro name e)))"
proof (cases "map_of (en_controllers e) name")
  case None
  with assms show ?thesis by (simp add: Stop_def)
next
  case (Some p)
  let ?srcs = "ct_sources (en_heap e ! p)"
  obtain r srcs t types where loop: "stop_loop ti (ro ?srcs) ?srcs (en_infs e) = (r, srcs, t, types)"
    by (metis prod_cases4)
  then have run: "stop_sources ti (ro ?srcs) ?srcs (en_infs e) = (r, srcs, t)"
    by (simp add: stop_sources_loop)
  note S = Stop_result [where ro = ro, OF n Some run]
  have p: "p < length (en_heap e)" "\<not> ct_cancelled (en_heap e ! p)"
    using n Some by (auto simp: names_ok_def)
  have "owned ti hs kd (en_infs e) (slot (sources_of e) p ?srcs)"
    using o p by (simp add: slot_id)
  note L = owned_stop_loop [OF this laws loop]
  have "keys srcs = {}" if "r = None"
  proof -
    have "map_of srcs = map_of ?srcs |` (- keys ?srcs)" using stop_loop_map [OF loop [unfolded that]] ro by (simp add: ranges_def)
    also have "\<dots> = Map.empty" by (auto simp: restrict_map_def fun_eq_iff not_in_keys_iff)
    finally show ?thesis by (auto simp: in_keys_iff)
  qed
  with p S have "swept e \<longrightarrow> swept (snd (Stop ti ro name e))" unfolding swept_def by auto
  with L S show ?thesis by simp
qed

text \<open>Ending a goroutine, and the parts of \<^verbatim>\<open>StartWatches\<close> and \<^verbatim>\<open>StopWatches\<close> under the lock.\<close>

lemma goroutine_upd:
  assumes "p < length (en_heap e)"
  shows "names_ok e \<Longrightarrow> names_ok (upd p (ct_goroutine_update g) e)"
    and "swept e \<Longrightarrow> swept (upd p (ct_goroutine_update g) e)"
    and "sources_of (upd p (ct_goroutine_update g) e) = sources_of e"
  using assms by (auto simp: named_upd sources_of_upd slot_id swept_def heap_upd)

lemma goroutine_end_keeps:
  assumes p: "p < length (en_heap e)" and n: "names_ok e" and ro: "ranges ro"
    and laws: "handler_laws ti hs kd" "informer_tracker ti"
    and o: "owned ti hs kd (en_infs e) (sources_of e)"
  shows "(swept e \<longrightarrow> swept (goroutine_end ti ro r p e)) \<and>
    owned ti hs kd (en_infs (goroutine_end ti ro r p e)) (sources_of (goroutine_end ti ro r p e))"
proof -
  let ?e = "upd p (ct_goroutine_update (\<lambda>_. Exited)) e"
  have e: "names_ok ?e" "sources_of ?e = sources_of e" "swept e \<longrightarrow> swept ?e"
    using n p by (simp_all add: goroutine_upd)
  then have "owned ti hs kd (en_infs ?e) (sources_of ?e)" using o by simp
  from swept_Stop [OF e(1) ro laws this] e o show ?thesis
    by (cases r) (auto simp: goroutine_end_def Let_def)
qed

lemma start_locked_result:
  assumes "p < length (en_heap e)"
    and "start_loop ti (ti_ActiveInformers ti (en_infs e)) ids (ct_sources (en_heap e ! p)) (en_infs e) =
      (r, srcs, t, types)"
  shows "start_locked ti name p ids e =
      (r, (upd p (ct_sources_update (\<lambda>_. srcs)) (e\<lparr>en_infs := t\<rparr>))
            \<lparr>en_metrics := en_metrics e @ map (WatchStarted name) types\<rparr>)"
    and "sources_of (snd (start_locked ti name p ids e)) = slot (sources_of e) p srcs"
    and "en_infs (snd (start_locked ti name p ids e)) = t"
  using assms by (auto simp: start_locked_def sources_of_upd)

lemma owned_start_locked:
  assumes p: "p < length (en_heap e)" and laws: "handler_laws ti hs kd" "informer_tracker ti"
    and o: "owned ti hs kd (en_infs e) (sources_of e)" and d: "distinct (map snd ids)"
  shows "owned ti hs kd (en_infs (snd (start_locked ti name p ids e)))
      (sources_of (snd (start_locked ti name p ids e)))"
proof -
  let ?srcs = "ct_sources (en_heap e ! p)" and ?A = "ti_ActiveInformers ti (en_infs e)"
  obtain r srcs t types where run: "start_loop ti ?A ids ?srcs (en_infs e) = (r, srcs, t, types)"
    by (metis prod_cases4)
  have o': "owned ti hs kd (en_infs e) (slot (sources_of e) p ?srcs)" using o p by (simp add: slot_id)
  have "ti_IsStopped ti (so_inf s) (en_infs e)"
    if "map_of ?srcs wid = Some s" "wid_GVK wid \<notin> set ?A" for wid s
    using owned_unmarked_stopped [OF o', of "(p, wid)" s] that by simp
  then have "owned ti hs kd t (slot (sources_of e) p srcs)"
    using owned_start_loop [OF o' laws d _ run] by blast
  with start_locked_result [OF p run] show ?thesis by simp
qed

lemma owned_stop_locked:
  assumes p: "p < length (en_heap e)" and laws: "handler_laws ti hs kd" "informer_tracker ti"
    and o: "owned ti hs kd (en_infs e) (sources_of e)"
  shows "owned ti hs kd (en_infs (snd (stop_locked ti name p wids e)))
      (sources_of (snd (stop_locked ti name p wids e)))"
proof -
  let ?srcs = "ct_sources (en_heap e ! p)"
  obtain r srcs t types where run: "stop_loop ti wids ?srcs (en_infs e) = (r, srcs, t, types)"
    by (metis prod_cases4)
  have o': "owned ti hs kd (en_infs e) (slot (sources_of e) p ?srcs)" using o p by (simp add: slot_id)
  from owned_stop_loop [OF o' laws run] p run show ?thesis
    by (simp add: stop_locked_def sources_of_upd)
qed

lemma locked_named:
  assumes "p < length (en_heap e)" "names_ok e"
  shows "names_ok (snd (start_locked ti name p ids e))" "names_ok (snd (stop_locked ti name' p wids e))"
  using assms by (auto simp: start_locked_def stop_locked_def named_upd split: prod.splits)

lemma stop_loop_keys: "stop_loop ti wids srcs t = (r, srcs1, t1, types) \<Longrightarrow> keys srcs1 \<subseteq> keys srcs"
  by (induction ti wids srcs t arbitrary: r srcs1 t1 types rule: stop_loop.induct)
    (fastforce split: option.splits prod.splits)+

lemma locked_swept:
  assumes "p < length (en_heap e)" "swept e"
  shows "\<not> ct_cancelled (en_heap e ! p) \<Longrightarrow> swept (snd (start_locked ti name p ids e))"
    and "swept (snd (stop_locked ti name' p wids e))"
proof -
  show "\<not> ct_cancelled (en_heap e ! p) \<Longrightarrow> swept (snd (start_locked ti name p ids e))"
    using assms by (auto simp: start_locked_def intro!: swept_upd split: prod.splits)
  have "keys srcs = {}" if "stop_loop ti wids (ct_sources (en_heap e ! p)) t = (r, srcs, t1, types)"
    "ct_cancelled (en_heap e ! p)" for srcs t r t1 types
    using stop_loop_keys [OF that(1)] that(2) assms unfolding swept_def by blast
  then show "swept (snd (stop_locked ti name' p wids e))"
    using assms by (auto simp: stop_locked_def intro!: swept_upd split: prod.splits)
qed

lemma owned_remove_versions:
  assumes "owned ti hs kd t G" "handler_laws ti hs kd" "informer_tracker ti"
  shows "owned ti hs kd (remove_versions ti grp kind vs t) G"
  using assms(1)
proof (induction vs arbitrary: t)
  case (Cons v vs)
  obtain x t1 where x: "ti_RemoveInformer ti \<lparr>gvk_Group = grp, gvk_Version = v, gvk_Kind = kind\<rparr> t = (x, t1)"
    by force
  from Cons.IH [OF owned_remove_informer [OF Cons.prems assms(2,3) x]] x show ?case by simp
qed simp

lemma owned_marked:
  assumes o: "owned (tracked cc) hs kd t G"
    and "quiet hs (ti_IsStopped (tracked cc)) t t1"
    and "set (tk_ActiveInformers t) \<subseteq> set (tk_ActiveInformers t1)"
  shows "owned (tracked cc) hs kd t1 G"
  using owned_quiet [OF o assms(2)] assms(3) by (simp add: tracked_def)

lemma tk_call_owned:
  assumes "owned (tracked cc) (cached_hs hs) kd t G"
    and "quiet hs (ca_IsStopped cc) (tk_Cache t) (snd (f (tk_Cache t)))"
  shows "owned (tracked cc) (cached_hs hs) kd (snd (tk_call g f t)) G"
proof -
  obtain x t1 where x: "tk_call g f t = (x, t1)" by force
  then have "tk_Cache t1 = snd (f (tk_Cache t))"
    by (auto simp: tk_call_def Let_def split: prod.splits if_splits)
  with assms(2) have "quiet (cached_hs hs) (ti_IsStopped (tracked cc)) t t1"
    by (simp add: quiet_def tracked_def cached_hs_def)
  with owned_marked [OF assms(1) this] get_call_active [OF x] x show ?thesis by auto
qed

lemma reads_owned:
  assumes D: "documented_cache cc hs kd" and o: "owned (tracked cc) (cached_hs hs) kd t G"
  shows "owned (tracked cc) (cached_hs hs) kd (snd (tk_Get cc k obj t)) G"
    and "owned (tracked cc) (cached_hs hs) kd (snd (tk_List cc k obj t)) G"
    and "owned (tracked cc) (cached_hs hs) kd (snd (tk_GetInformer cc obj t)) G"
    and "owned (tracked cc) (cached_hs hs) kd (snd (tk_GetInformerForKind cc g t)) G"
    and "owned (tracked cc) (cached_hs hs) kd (snd (tk_RemoveInformer cc obj t)) G"
proof -
  have q: "quiet hs (ca_IsStopped cc) s (snd (ca_Get cc g k s))"
    "quiet hs (ca_IsStopped cc) s (snd (ca_List cc g k s))" for g k s
    using D by (simp_all add: documented_cache_def)
  have "get_law (as_informers cc) hs kd" using D by (simp add: documented_cache_def handler_laws_def)
  then have i: "quiet hs (ca_IsStopped cc) s (snd (ca_GetInformer cc g s))" for g s
    unfolding get_law_def as_informers_def by (metis informers.select_convs(1,6) prod.collapse)
  show "owned (tracked cc) (cached_hs hs) kd (snd (tk_Get cc k obj t)) G"
    using o q by (auto simp: tk_Get_def intro!: tk_call_owned split: sum.split)
  show "owned (tracked cc) (cached_hs hs) kd (snd (tk_List cc k obj t)) G"
    using o q by (auto simp: tk_List_def intro!: tk_call_owned split: sum.split)
  show "owned (tracked cc) (cached_hs hs) kd (snd (tk_GetInformer cc obj t)) G"
    using o i by (auto simp: tk_GetInformer_def intro!: tk_call_owned split: sum.split)
  show "owned (tracked cc) (cached_hs hs) kd (snd (tk_GetInformerForKind cc g t)) G"
    using o i by (auto simp: tk_GetInformerForKind_def intro!: tk_call_owned)
  show "owned (tracked cc) (cached_hs hs) kd (snd (tk_RemoveInformer cc obj t)) G"
  proof (cases obj)
    case (Inl e)
    with o show ?thesis by (simp add: tk_RemoveInformer_def)
  next
    case (Inr g')
    obtain x t1 where "tk_RemoveInformer cc (Inr g') t = (x, t1)" by force
    then show ?thesis
      using owned_remove_informer [OF o tracked_laws [OF D] tracking.informer_tracker_axioms, of g' x t1] Inr
      by (simp add: tracked_def)
  qed
qed

lemma step_names:
  assumes "step cc ro late e e1" "names_ok e"
  shows "names_ok e1"
  using assms
proof induction
  case (st_end p e r)
  then have "names_ok (upd p (ct_goroutine_update (\<lambda>_. Exited)) e)" by (simp add: goroutine_upd)
  then show ?case by (cases r) (simp_all add: goroutine_end_def Let_def named_Stop)
next
  case (st_begin p e)
  then show ?case by (simp add: goroutine_begin_def goroutine_upd)
qed (simp_all add: named_Start named_Stop locked_named crd_deleted_def split: payload.split option.split)

lemma step_keeps:
  assumes D: "documented_cache cc hs kd" and ro: "ranges ro"
    and "step cc ro late e e1" "names_ok e" "owned (tracked cc) (cached_hs hs) kd (en_infs e) (sources_of e)"
    and "\<not> late \<longrightarrow> swept e"
  shows "owned (tracked cc) (cached_hs hs) kd (en_infs e1) (sources_of e1) \<and> (\<not> late \<longrightarrow> swept e1)"
  using assms(3-6)
proof induction
  case (st_start e nc gc name)
  moreover have "en_infs (snd (Start nc gc name e)) = en_infs e"
    by (auto simp: Start_def split: option.splits)
  ultimately show ?case by (auto simp: swept_Start sources_of_Start)
next
  case (st_stop e name)
  then show ?case
    using swept_Stop [OF _ ro tracked_laws [OF D] tracking.informer_tracker_axioms] by blast
next
  case (st_end p e r)
  then show ?case
    using goroutine_end_keeps [OF _ _ ro tracked_laws [OF D] tracking.informer_tracker_axioms] by blast
next
  case (st_begin p e)
  then show ?case by (simp add: goroutine_begin_def goroutine_upd)
next
  case (st_start_watches p e ws ids)
  then show ?case
    using owned_start_locked [OF _ tracked_laws [OF D] tracking.informer_tracker_axioms]
    by (auto simp: locked_swept)
next
  case (st_stop_watches p e wids)
  then show ?case
    using owned_stop_locked [OF _ tracked_laws [OF D] tracking.informer_tracker_axioms]
    by (auto simp: locked_swept)
next
  case (st_crd e obj)
  then show ?case
    using owned_remove_versions [OF _ tracked_laws [OF D] tracking.informer_tracker_axioms]
    by (auto simp: crd_deleted_def split: payload.split option.split)
qed (simp_all add: reads_owned [OF D])

lemma reachable_invariant:
  assumes D: "documented_cache cc hs kd" and ro: "ranges ro" and init: "hs c = (\<lambda>_. {})"
    and "reachable cc ro late c e"
  shows "names_ok e \<and> owned (tracked cc) (cached_hs hs) kd (en_infs e) (sources_of e) \<and>
    (\<not> late \<longrightarrow> swept e)"
  using assms(4)
proof induction
  case rc_new
  from init show ?case
    by (auto simp: New_def names_ok_def swept_def owned_def TrackInformers_def sources_of_def cached_hs_def)
next
  case (rc_step e e1)
  then show ?case
    using step_names [OF rc_step.hyps(2)] step_keeps [OF D ro rc_step.hyps(2)] by blast
qed

end
