(* ===== verification/EngineProps.thy ===== *)
theory EngineProps
  imports EngineSteps
begin

text \<open>
  What holds in every history of the controller engine: which handlers are registered, what starting
  and collecting watches leaves, and where a watch is lost.
\<close>

section \<open>A cache for the witnesses\<close>

text \<open>
  A cache in which the informer of a kind is known by how often the kind's informer was removed
  before, with handlers numbered in the order they are added.
\<close>

record small_cache =
  sc_removed :: "gvk \<Rightarrow> nat"
  sc_handlers :: "((nat \<times> gvk) \<times> nat \<times> string) list"

definition small_next :: "small_cache \<Rightarrow> gvk \<Rightarrow> nat" where
  "small_next s g = Suc (fold max (map (fst \<circ> fst) (sc_handlers s)) (sc_removed s g))"

definition small_calls :: "(small_cache, nat \<times> gvk, string, nat, unit, unit) cache_calls" where
  "small_calls =
     \<lparr>ca_Get = \<lambda>g k s. (Inr (), s), ca_List = \<lambda>g k s. (Inr [], s),
      ca_GetInformer = \<lambda>g s. (Inr (sc_removed s g, g), s),
      ca_RemoveInformer = \<lambda>g s. (None, s\<lparr>sc_removed := (sc_removed s)(g := small_next s g)\<rparr>),
      ca_AddEventHandler = \<lambda>i h s.
        (let r = Suc (fold max (map (fst \<circ> snd) (sc_handlers s)) 0)
         in (Inr r, s\<lparr>sc_handlers := (i, r, h) # sc_handlers s\<rparr>)),
      ca_RemoveEventHandler = \<lambda>i r s.
        (None, s\<lparr>sc_handlers := filter (\<lambda>(i', r', h). \<not> (i' = i \<and> r' = r)) (sc_handlers s)\<rparr>),
      ca_IsStopped = \<lambda>i s. fst i < sc_removed s (snd i)\<rparr>"

definition small_hs :: "small_cache \<Rightarrow> nat \<times> gvk \<Rightarrow> (nat \<times> string) set" where
  "small_hs s i = {q. (i, q) \<in> set (sc_handlers s)}"

definition small_empty :: small_cache where
  "small_empty = \<lparr>sc_removed = \<lambda>_. 0, sc_handlers = []\<rparr>"

lemma fold_max_upper: "x \<in> set xs \<or> x = (n :: nat) \<Longrightarrow> x \<le> fold max xs n"
  by (metis List.finite_set Max.set_eq_fold Max_ge list.set_intros set_ConsD list.simps(15) insert_iff)

lemma small_documented: "documented_cache small_calls small_hs snd"
proof -
  have next_above: "n < small_next s g"
    if "((n, g), q) \<in> set (sc_handlers s)" for n g q and s :: small_cache
    using that fold_max_upper [of n "map (fst \<circ> fst) (sc_handlers s)" "sc_removed s g"]
    by (force simp: small_next_def less_Suc_eq_le image_iff)
  have removed_above: "sc_removed s g < small_next s g" for s g
    using fold_max_upper [of "sc_removed s g" "map (fst \<circ> fst) (sc_handlers s)" "sc_removed s g"]
    by (simp add: small_next_def less_Suc_eq_le)
  have new: "Suc (fold max (map (fst \<circ> snd) (sc_handlers s)) 0) \<notin> fst ` small_hs s i" for s i
  proof
    assume "Suc (fold max (map (fst \<circ> snd) (sc_handlers s)) 0) \<in> fst ` small_hs s i"
    then obtain h where "(i, Suc (fold max (map (fst \<circ> snd) (sc_handlers s)) 0), h) \<in> set (sc_handlers s)"
      by (auto simp: small_hs_def)
    then have "Suc (fold max (map (fst \<circ> snd) (sc_handlers s)) 0) \<in> set (map (fst \<circ> snd) (sc_handlers s))"
      by force
    then show False using fold_max_upper [of _ "map (fst \<circ> snd) (sc_handlers s)" 0] by fastforce
  qed
  have "get_law (as_informers small_calls) small_hs snd"
    by (auto simp: get_law_def quiet_def as_informers_def small_calls_def)
  moreover have "remove_law (as_informers small_calls) small_hs snd"
    using next_above removed_above
    by (auto simp: remove_law_def as_informers_def small_calls_def small_hs_def fun_eq_iff less_trans)
  moreover have "add_law (as_informers small_calls) small_hs"
    using new by (auto simp: add_law_def as_informers_def small_calls_def small_hs_def Let_def fun_eq_iff)
  moreover have "unregister_law (as_informers small_calls) small_hs"
    by (auto simp: unregister_law_def as_informers_def small_calls_def small_hs_def fun_eq_iff)
  ultimately show ?thesis
    by (simp add: documented_cache_def handler_laws_def quiet_def small_calls_def)
qed

lemma small_empty_hs: "small_hs small_empty = (\<lambda>_. {})"
  by (simp add: small_hs_def small_empty_def fun_eq_iff)

section \<open>Each event reaches a watch once\<close>

definition source_at ::
  "('t, 'i, 'h, 'r) engine \<Rightarrow> string \<Rightarrow> watch_id \<Rightarrow> ('i, 'h, 'r) stoppable_source option" where
  "source_at e name wid =
     (case map_of (en_controllers e) name of
        None \<Rightarrow> None
      | Some p \<Rightarrow> map_of (ct_sources (en_heap e ! p)) wid)"

lemma source_at_sources_of:
  "names_ok e \<Longrightarrow> map_of (en_controllers e) name = Some p \<Longrightarrow>
   source_at e name wid = sources_of e (p, wid)"
  by (simp add: source_at_def sources_of_def names_ok_def)




section \<open>What StartWatches leaves\<close>

definition live_source ::
  "('t, 'i, 'h, 'r) informers \<Rightarrow> ('t \<Rightarrow> 'i \<Rightarrow> ('r \<times> 'h) set) \<Rightarrow> 't \<Rightarrow> ('i, 'h, 'r) stoppable_source \<Rightarrow> bool" where
  "live_source ti hs t s \<longleftrightarrow> registered hs t s \<and> \<not> ti_IsStopped ti (so_inf s) t"

lemma start_loop_sources:
  assumes "owned ti hs kd t (slot G p srcs)" and l: "handler_laws ti hs kd" "informer_tracker ti"
    and "distinct (map snd ids)"
    and "\<And>w wid s. (w, wid) \<in> set ids \<Longrightarrow> map_of srcs wid = Some s \<Longrightarrow> wid_GVK wid \<notin> set A \<Longrightarrow>
      ti_IsStopped ti (so_inf s) t"
    and "start_loop ti A ids srcs t = (None, srcs1, t1, types)"
  shows "(\<forall>wid. wid \<notin> snd ` set ids \<or> watching srcs A wid \<longrightarrow> map_of srcs1 wid = map_of srcs wid) \<and>
    (\<forall>(w, wid) \<in> set ids. \<not> watching srcs A wid \<longrightarrow>
       (\<exists>s. map_of srcs1 wid = Some s \<and> so_handler s = w_handler w \<and> \<not> ti_IsStopped ti (so_inf s) t1))"
  using assms(1,4,5,6)
proof (induction ids arbitrary: srcs t types)
  case (Cons q ids)
  obtain w wid where q: "q = (w, wid)" by force
  show ?case
  proof (cases "watching srcs A wid")
    case True
    with Cons.prems q have run: "start_loop ti A ids srcs t = (None, srcs1, t1, types)" by simp
    have "(\<forall>wid. wid \<notin> snd ` set ids \<or> watching srcs A wid \<longrightarrow> map_of srcs1 wid = map_of srcs wid) \<and>
      (\<forall>(w, wid) \<in> set ids. \<not> watching srcs A wid \<longrightarrow>
         (\<exists>s. map_of srcs1 wid = Some s \<and> so_handler s = w_handler w \<and> \<not> ti_IsStopped ti (so_inf s) t1))"
      using Cons.prems(2,3) q by (intro Cons.IH [OF Cons.prems(1) _ _ run]) auto
    with True q show ?thesis by auto
  next
    case False
    obtain src t2 types2 where x: "start_watch ti w wid t = (Inr src, t2)"
      and run: "start_loop ti A ids (put wid src srcs) t2 = (None, srcs1, t1, types2)"
      using Cons.prems(4) q False by (auto split: prod.splits sum.splits)
    have "ti_IsStopped ti (so_inf s) t" if "slot G p srcs (p, wid) = Some s" for s
      using that Cons.prems(3) [of w wid s] False q by (auto simp: watching_def in_keys_iff)
    note step = owned_start_watch [where p = p, OF Cons.prems(1) l this x]
    then have o: "owned ti hs kd t2 (slot G p (put wid src srcs))"
      and st: "\<And>j. ti_IsStopped ti j t2 = ti_IsStopped ti j t" by (auto simp: slot_put)
    have d: "distinct (map snd ids)" "wid \<notin> snd ` set ids" using Cons.prems(2) q by auto
    have old: "ti_IsStopped ti (so_inf s) t2"
      if "(w', wid') \<in> set ids" "map_of (put wid src srcs) wid' = Some s" "wid_GVK wid' \<notin> set A" for w' wid' s
      using that d Cons.prems(3) [of w' wid' s] st by (force split: if_splits)
    have IH: "(\<forall>wid'. wid' \<notin> snd ` set ids \<or> watching (put wid src srcs) A wid' \<longrightarrow>
          map_of srcs1 wid' = map_of (put wid src srcs) wid') \<and>
        (\<forall>(w, wid') \<in> set ids. \<not> watching (put wid src srcs) A wid' \<longrightarrow>
          (\<exists>s. map_of srcs1 wid' = Some s \<and> so_handler s = w_handler w \<and> \<not> ti_IsStopped ti (so_inf s) t1))"
      using Cons.IH [OF o d(1) old run] .
    have last: "\<And>j. ti_IsStopped ti j t1 = ti_IsStopped ti j t2"
      using owned_start_loop [OF o l d(1) _ run] old by blast
    have new: "map_of srcs1 wid = Some src" using IH d(2) by simp
    have w: "watching (put wid src srcs) A wid' = watching srcs A wid'" if "wid' \<noteq> wid" for wid'
      using that by (simp add: watching_def)
    show ?thesis unfolding q
    proof (intro conjI allI impI ballI)
      fix wid' assume "wid' \<notin> snd ` set ((w, wid) # ids) \<or> watching srcs A wid'"
      then show "map_of srcs1 wid' = map_of srcs wid'" using IH w False by (cases "wid' = wid") auto
    next
      fix x assume x: "x \<in> set ((w, wid) # ids)"
      have "\<exists>s. map_of srcs1 wid' = Some s \<and> so_handler s = w_handler w' \<and> \<not> ti_IsStopped ti (so_inf s) t1"
        if "(w', wid') \<in> set ids" "\<not> watching srcs A wid'" for w' wid'
      proof -
        have "wid' \<noteq> wid" using that(1) d(2) by force
        with that IH w show ?thesis by blast
      qed
      moreover have "\<exists>s. map_of srcs1 wid = Some s \<and> so_handler s = w_handler w \<and> \<not> ti_IsStopped ti (so_inf s) t1"
        using new step last by auto
      ultimately show "case x of (w, wid) \<Rightarrow> \<not> watching srcs A wid \<longrightarrow>
          (\<exists>s. map_of srcs1 wid = Some s \<and> so_handler s = w_handler w \<and> \<not> ti_IsStopped ti (so_inf s) t1)"
        using x by (cases x) auto
    qed
  qed
qed auto

lemma StartWatches_spec:
  assumes "documented_cache cc hs kd" and "ranges ro" and "hs c = (\<lambda>_. {})"
    and "reachable cc ro late c e"
    and "watch_ids ws = Inr ids" and "distinct (map snd ids)"
    and "StartWatches (tracked cc) name ws e = (None, e1)"
  shows "\<forall>name' wid.
      (name' \<noteq> name \<or> wid \<notin> snd ` set ids \<longrightarrow> source_at e1 name' wid = source_at e name' wid) \<and>
      (name' = name \<longrightarrow> (\<forall>w. (w, wid) \<in> set ids \<longrightarrow>
         (if source_at e name wid \<noteq> None \<and> wid_GVK wid \<in> set (tk_ActiveInformers (en_infs e))
          then source_at e1 name wid = source_at e name wid
          else \<exists>s. source_at e1 name wid = Some s \<and> so_handler s = w_handler w \<and>
                   live_source (tracked cc) (cached_hs hs) (en_infs e1) s)))"
proof -
  let ?ti = "tracked cc" and ?A = "ti_ActiveInformers (tracked cc) (en_infs e)"
  note laws = tracked_laws [OF assms(1)] tracking.informer_tracker_axioms [of cc]
  have n: "names_ok e" and o: "owned ?ti (cached_hs hs) kd (en_infs e) (sources_of e)"
    using reachable_invariant [OF assms(1-4)] by auto
  obtain p where p: "map_of (en_controllers e) name = Some p"
    using assms(7) by (auto simp: StartWatches_def not_running_def split: option.splits)
  then have lp: "p < length (en_heap e)" using n by (auto simp: names_ok_def)
  let ?srcs = "ct_sources (en_heap e ! p)"
  have at: "source_at e name wid = map_of ?srcs wid" for wid using p by (simp add: source_at_def)
  have o': "owned ?ti (cached_hs hs) kd (en_infs e) (slot (sources_of e) p ?srcs)"
    using o lp by (simp add: slot_id)
  have A: "set ?A = set (tk_ActiveInformers (en_infs e))" by (simp add: tracked_def)
  show ?thesis
  proof (cases "list_ex (\<lambda>(w, wid). \<not> watching ?srcs ?A wid) ids")
    case False
    then have "watching ?srcs ?A wid" if "(w, wid) \<in> set ids" for w wid
      using that by (auto simp: list_ex_iff)
    moreover have "e1 = e" using assms(5,7) p False by (simp add: StartWatches_def)
    ultimately show ?thesis using at A by (auto simp: watching_def in_keys_iff)
  next
    case True
    obtain r srcs1 t1 types where run: "start_loop ?ti ?A ids ?srcs (en_infs e) = (r, srcs1, t1, types)"
      by (metis prod_cases4)
    note L = start_locked_result [OF lp run]
    have e1: "start_locked ?ti name p ids e = (None, e1)"
      using assms(5,7) p True by (simp add: StartWatches_def)
    with L(1) [of name] have r: "r = None" by simp
    have i1: "en_infs e1 = t1" using L(3) [of name] e1 by simp
    have n1: "names_ok e1" using locked_named(1) [OF lp n, of ?ti name ids] e1 by simp
    have so1: "sources_of e1 = slot (sources_of e) p srcs1" using L(2) [of name] e1 by simp
    have c1: "en_controllers e1 = en_controllers e" using L(1) [of name] e1 by auto
    have old: "ti_IsStopped ?ti (so_inf s) (en_infs e)"
      if "map_of ?srcs wid = Some s" "wid_GVK wid \<notin> set ?A" for wid s
      using owned_unmarked_stopped [OF o', of "(p, wid)" s] that by simp
    have o1: "owned ?ti (cached_hs hs) kd (en_infs e1) (sources_of e1)"
      using owned_start_loop [OF o' laws assms(6) old run] i1 so1 by simp
    have S: "\<And>wid. wid \<notin> snd ` set ids \<or> watching ?srcs ?A wid \<Longrightarrow> map_of srcs1 wid = map_of ?srcs wid"
      "\<And>w wid. (w, wid) \<in> set ids \<Longrightarrow> \<not> watching ?srcs ?A wid \<Longrightarrow>
         \<exists>s. map_of srcs1 wid = Some s \<and> so_handler s = w_handler w \<and> \<not> ti_IsStopped ?ti (so_inf s) t1"
      using start_loop_sources [OF o' laws assms(6) _ run [unfolded r]] old by blast+
    have at1: "source_at e1 name wid = map_of srcs1 wid" for wid
      using source_at_sources_of [OF n1, of name p wid] p c1 so1 by simp
    have other: "source_at e1 name' wid = source_at e name' wid" if "name' \<noteq> name" for name' wid
    proof (cases "map_of (en_controllers e) name'")
      case None
      with c1 show ?thesis by (simp add: source_at_def)
    next
      case (Some q)
      with n p that have "q \<noteq> p" unfolding names_ok_def by blast
      then show ?thesis
        using source_at_sources_of [OF n Some] source_at_sources_of [OF n1, of name' q] Some c1 so1
        by (simp add: slot_def)
    qed
    have live: "live_source ?ti (cached_hs hs) (en_infs e1) s"
      if "map_of srcs1 wid = Some s" "\<not> ti_IsStopped ?ti (so_inf s) t1" for wid s
      using ownedD(2) [OF o1, of "(p, wid)" s] so1 that i1 by (simp add: live_source_def registered_def)
    have w: "watching ?srcs ?A wid \<longleftrightarrow>
        source_at e name wid \<noteq> None \<and> wid_GVK wid \<in> set (tk_ActiveInformers (en_infs e))" for wid
      using at A by (simp add: watching_def in_keys_iff)
    show ?thesis
    proof (intro allI conjI impI)
      fix name' wid assume "name' \<noteq> name \<or> wid \<notin> snd ` set ids"
      then show "source_at e1 name' wid = source_at e name' wid"
        using other [of name' wid] S(1) [of wid] at at1 by (cases "name' = name") simp_all
    next
      fix wid u assume u: "(u, wid) \<in> set ids"
      show "if source_at e name wid \<noteq> None \<and> wid_GVK wid \<in> set (tk_ActiveInformers (en_infs e))
        then source_at e1 name wid = source_at e name wid
        else \<exists>s. source_at e1 name wid = Some s \<and> so_handler s = w_handler u \<and>
                 live_source ?ti (cached_hs hs) (en_infs e1) s"
      proof (cases "watching ?srcs ?A wid")
        case True
        with w S(1) [of wid] at at1 show ?thesis by simp
      next
        case False
        from S(2) [OF u False] live at1 have "\<exists>s. source_at e1 name wid = Some s \<and>
            so_handler s = w_handler u \<and> live_source ?ti (cached_hs hs) (en_infs e1) s" by metis
        with False w show ?thesis by meson
      qed
    qed
  qed
qed

text \<open>
  After StartWatches reports success every watch that was asked for has a source. Where there was
  none, or the kind had no active informer, the source is new, has the watch's handler and is
  registered with an informer that is not stopped. Where there was one and the kind was marked active
  the source is the one that was there, whether its informer still runs or not. No other watch, of
  this or another controller, changes.
\<close>

theorem StartWatches_sources:
  assumes "documented_cache cc hs kd" and "ranges ro" and "hs c = (\<lambda>_. {})"
    and "reachable cc ro late c e"
    and "watch_ids ws = Inr ids" and "distinct (map snd ids)"
    and "StartWatches (tracked cc) name ws e = (None, e1)"
  shows "\<forall>name' wid.
      (name' \<noteq> name \<or> wid \<notin> snd ` set ids \<longrightarrow> source_at e1 name' wid = source_at e name' wid) \<and>
      (name' = name \<longrightarrow> (\<forall>w. (w, wid) \<in> set ids \<longrightarrow>
         (if source_at e name wid \<noteq> None \<and> wid_GVK wid \<in> set (tk_ActiveInformers (en_infs e))
          then source_at e1 name wid = source_at e name wid
          else \<exists>s. source_at e1 name wid = Some s \<and> so_handler s = w_handler w \<and>
                   live_source (tracked cc) (cached_hs hs) (en_infs e1) s)))"
  using assms by (rule StartWatches_spec)

section \<open>A watch that is never restarted\<close>

lemma StartWatches_marks:
  assumes "documented_cache cc hs kd" and "ranges ro" and "hs c = (\<lambda>_. {})"
    and "reachable cc ro late c e"
    and "watch_ids ws = Inr ids" and "distinct (map snd ids)"
    and run: "StartWatches (tracked cc) name ws e = (None, e1)"
  shows "wid_GVK ` snd ` set ids \<subseteq> set (tk_ActiveInformers (en_infs e1)) \<and>
    (\<forall>i. ca_IsStopped cc i (tk_Cache (en_infs e1)) = ca_IsStopped cc i (tk_Cache (en_infs e)))"
proof -
  let ?ti = "tracked cc" and ?A = "ti_ActiveInformers (tracked cc) (en_infs e)"
  note laws = tracked_laws [OF assms(1)] tracking.informer_tracker_axioms [of cc]
  have n: "names_ok e" and o: "owned ?ti (cached_hs hs) kd (en_infs e) (sources_of e)"
    using reachable_invariant [OF assms(1-4)] by auto
  obtain p where p: "map_of (en_controllers e) name = Some p"
    using run by (auto simp: StartWatches_def not_running_def split: option.splits)
  then have lp: "p < length (en_heap e)" using n by (auto simp: names_ok_def)
  let ?srcs = "ct_sources (en_heap e ! p)"
  have A: "ti_ActiveInformers ?ti = tk_ActiveInformers"
    "\<And>i t. ti_IsStopped ?ti i t = ca_IsStopped cc i (tk_Cache t)" by (simp_all add: tracked_def)
  show ?thesis
  proof (cases "list_ex (\<lambda>(w, wid). \<not> watching ?srcs ?A wid) ids")
    case False
    with assms(5) run p have "e1 = e" by (simp add: StartWatches_def)
    moreover have "wid_GVK wid \<in> set ?A" if "(w, wid) \<in> set ids" for w wid
      using False that by (auto simp: list_ex_iff watching_def)
    ultimately show ?thesis by (auto simp: A(1))
  next
    case True
    obtain r srcs1 t1 types where loop: "start_loop ?ti ?A ids ?srcs (en_infs e) = (r, srcs1, t1, types)"
      by (metis prod_cases4)
    have e1: "start_locked ?ti name p ids e = (None, e1)"
      using assms(5) run p True by (simp add: StartWatches_def)
    with start_locked_result [OF lp loop, of name] have r: "r = None" and t1: "en_infs e1 = t1" by auto
    have o': "owned ?ti (cached_hs hs) kd (en_infs e) (slot (sources_of e) p ?srcs)"
      using o lp by (simp add: slot_id)
    have "\<forall>j. ti_IsStopped ?ti j t1 = ti_IsStopped ?ti j (en_infs e)"
      using owned_start_loop [OF o' laws assms(6) _ loop] owned_unmarked_stopped [OF o', of "(p, _)"] by force
    moreover have "wid_GVK ` snd ` set ids \<subseteq> set (ti_ActiveInformers ?ti t1)"
      using tracking.start_loop_watching [OF loop [unfolded r]] by auto
    ultimately show ?thesis using t1 by (simp add: A)
  qed
qed

text \<open>
  C38: When an informer is removed that backs a watch of two controllers (a custom resource definition
  is deleted) and the first then starts its watch again, the kind is marked active and the second's
  StartWatches reports success without doing anything: its source stays on the stopped informer, so
  the second controller gets no more events of that kind until it is restarted, however often it
  starts its watches.
\<close>

theorem second_controller_loses_watch:
  assumes "documented_cache cc hs kd" and "ranges ro" and "hs c = (\<lambda>_. {})"
    and "reachable cc ro late c e"
    and "source_at e a wid = Some sa" and "source_at e b wid = Some sb" and "a \<noteq> b"
    and "tk_RemoveInformer cc (Inr (wid_GVK wid)) (en_infs e) = (r, t)"
    and "StartWatches (tracked cc) a [WatchFor (Inr (wid_GVK wid)) (wid_Type wid) ha] (e\<lparr>en_infs := t\<rparr>) =
           (None, e1)"
  shows "(\<exists>s. source_at e1 a wid = Some s \<and> live_source (tracked cc) (cached_hs hs) (en_infs e1) s) \<and>
    StartWatches (tracked cc) b [WatchFor (Inr (wid_GVK wid)) (wid_Type wid) hb] e1 = (None, e1) \<and>
    source_at e1 b wid = Some sb \<and> ca_IsStopped cc (so_inf sb) (tk_Cache (en_infs e1))"
proof -
  let ?e = "e\<lparr>en_infs := t\<rparr>"
  have ids: "watch_ids [WatchFor (Inr (wid_GVK wid)) (wid_Type wid) h] =
      Inr [(WatchFor (Inr (wid_GVK wid)) (wid_Type wid) h, wid)]" for h
    by (simp add: WatchFor_def)
  have re: "reachable cc ro late c ?e"
    using rc_step [OF assms(4) st_RemoveInformer [of cc ro late e "Inr (wid_GVK wid)"]] assms(8) by simp
  have at: "source_at ?e = source_at e" by (auto simp: source_at_def fun_eq_iff split: option.split)
  have un: "wid_GVK wid \<notin> set (tk_ActiveInformers t)"
    using tracking.remove_active [of cc "wid_GVK wid" "en_infs e" r t] assms(8) by (simp add: tracked_def)
  have n: "names_ok ?e" and o: "owned (tracked cc) (cached_hs hs) kd (en_infs ?e) (sources_of ?e)"
    using reachable_invariant [OF assms(1-3) re] by auto
  obtain q where q: "map_of (en_controllers e) b = Some q"
    using assms(6) by (auto simp: source_at_def split: option.splits)
  have "sources_of ?e (q, wid) = Some sb"
    using source_at_sources_of [OF n, of b q wid] q assms(6) at by simp
  from owned_unmarked_stopped [OF o this] un have stop: "ca_IsStopped cc (so_inf sb) (tk_Cache t)"
    by (simp add: tracked_def)
  note S = StartWatches_spec [OF assms(1-3) re ids _ assms(9), simplified]
    and M = StartWatches_marks [OF assms(1-3) re ids _ assms(9), simplified]
  have b: "source_at e1 b wid = Some sb" using S assms(6,7) at by simp
  have a: "\<exists>s. source_at e1 a wid = Some s \<and> live_source (tracked cc) (cached_hs hs) (en_infs e1) s"
    using S assms(5) at un by auto
  obtain q' where q': "map_of (en_controllers e1) b = Some q'" "map_of (ct_sources (en_heap e1 ! q')) wid = Some sb"
    using b by (auto simp: source_at_def split: option.splits)
  then have "watching (ct_sources (en_heap e1 ! q')) (ti_ActiveInformers (tracked cc) (en_infs e1)) wid"
    using M by (simp add: watching_def in_keys_iff tracked_def)
  then have "StartWatches (tracked cc) b [WatchFor (Inr (wid_GVK wid)) (wid_Type wid) hb] e1 = (None, e1)"
    unfolding StartWatches_def ids q'(1) by simp
  with a b M stop show ?thesis by simp
qed

section \<open>Watching what composite resources depend on\<close>

lemma reachable_names: "reachable cc ro late c e \<Longrightarrow> names_ok e"
proof (induction rule: reachable.induct)
  case rc_new
  show ?case by (simp add: New_def names_ok_def)
next
  case (rc_step e e1)
  then show ?case using step_names by blast
qed

lemma watch_ids_for:
  "watch_ids (map (\<lambda>g. WatchFor (Inr g) wt h) gs) =
     Inr (map (\<lambda>g. (WatchFor (Inr g) wt h, \<lparr>wid_Type = wt, wid_GVK = g\<rparr>)) gs)"
  by (induction gs) (simp_all add: WatchFor_def)

lemma StartWatches_keys:
  assumes p: "map_of (en_controllers e) name = Some p" "p < length (en_heap e)"
    and ids: "watch_ids ws = Inr ids" and run: "StartWatches (tracked cc) name ws e = (None, e1)"
  shows "en_controllers e1 = en_controllers e \<and> length (en_heap e1) = length (en_heap e) \<and>
    keys (ct_sources (en_heap e1 ! p)) = keys (ct_sources (en_heap e ! p)) \<union> snd ` set ids"
proof (cases "list_ex (\<lambda>(w, wid). \<not> watching (ct_sources (en_heap e ! p))
    (ti_ActiveInformers (tracked cc) (en_infs e)) wid) ids")
  case False
  with ids run p have "e1 = e" by (simp add: StartWatches_def)
  moreover have "snd ` set ids \<subseteq> keys (ct_sources (en_heap e ! p))"
    using False by (auto simp: list_ex_iff watching_def)
  ultimately show ?thesis by auto
next
  case True
  obtain r srcs1 t1 types where loop: "start_loop (tracked cc) (ti_ActiveInformers (tracked cc) (en_infs e))
      ids (ct_sources (en_heap e ! p)) (en_infs e) = (r, srcs1, t1, types)"
    by (metis prod_cases4)
  have e1: "start_locked (tracked cc) name p ids e = (None, e1)"
    using ids run p True by (simp add: StartWatches_def)
  with start_locked_result(1) [OF p(2) loop, of name] have r: "r = None"
    and "e1 = (upd p (ct_sources_update (\<lambda>_. srcs1)) (e\<lparr>en_infs := t1\<rparr>))
            \<lparr>en_metrics := en_metrics e @ map (WatchStarted name) types\<rparr>" by auto
  with tracking.start_loop_watching [OF loop [unfolded r]] p(2) show ?thesis by (simp add: heap_upd)
qed

lemma StopWatches_keys:
  assumes p: "map_of (en_controllers e) name = Some p" "p < length (en_heap e)"
    and run: "StopWatches ti name wids e = ((n, None), e1)"
  shows "en_controllers e1 = en_controllers e \<and>
    keys (ct_sources (en_heap e1 ! p)) = keys (ct_sources (en_heap e ! p)) - set wids"
proof (cases "list_ex (\<lambda>wid. wid \<in> keys (ct_sources (en_heap e ! p))) wids")
  case False
  with run p show ?thesis by (auto simp: StopWatches_def list_ex_iff)
next
  case True
  obtain r srcs1 t1 types where loop: "stop_loop ti wids (ct_sources (en_heap e ! p)) (en_infs e) =
      (r, srcs1, t1, types)"
    by (metis prod_cases4)
  with run p True have r: "r = None" and e1: "e1 = (upd p (ct_sources_update (\<lambda>_. srcs1)) (e\<lparr>en_infs := t1\<rparr>))
             \<lparr>en_metrics := en_metrics e @ map (WatchStopped name) types\<rparr>"
    by (auto simp: StopWatches_def stop_locked_def)
  have "keys srcs1 = keys (ct_sources (en_heap e ! p)) - set wids"
    using stop_loop_map [OF loop [unfolded r]]
    by (auto simp: in_keys_iff restrict_map_def split: if_splits)
  with e1 p(2) show ?thesis by (simp add: heap_upd)
qed

text \<open>Other operations may run between two calls for a controller, but leave it the same watches.\<close>

definition same_watches :: "string \<Rightarrow> ('t, 'i, 'h, 'r) engine \<Rightarrow> ('t, 'i, 'h, 'r) engine \<Rightarrow> bool" where
  "same_watches name e f \<longleftrightarrow> map_of (en_controllers f) name = map_of (en_controllers e) name \<and>
     (\<forall>p. map_of (en_controllers e) name = Some p \<longrightarrow>
        keys (ct_sources (en_heap f ! p)) = keys (ct_sources (en_heap e ! p)))"

definition dependency_watch :: "gvk \<Rightarrow> watch_id" where
  "dependency_watch g = \<lparr>wid_Type = WatchTypeDependency, wid_GVK = g\<rparr>"

lemma dependency_watches:
  "snd ` set (map (\<lambda>g. (WatchFor (Inr g) WatchTypeDependency h,
      \<lparr>wid_Type = WatchTypeDependency, wid_GVK = g\<rparr>)) gs) =
   {wid. wid_Type wid = WatchTypeDependency \<and> wid_GVK wid \<in> set gs}"
  by (force simp: image_iff)

text \<open>The collection alone: from a running controller's watches to those it keeps.\<close>

lemma collected_keys:
  assumes "ranges ro" and p: "map_of (en_controllers e1) name = Some p" "p < length (en_heap e1)"
    and run: "GarbageCollectWatchesNow ti ro gs name e1 = (None, e2)"
  shows "map_of (en_controllers e2) name = Some p \<and>
    keys (ct_sources (en_heap e2 ! p)) = keys (ct_sources (en_heap e1 ! p)) -
      {wid. wid_Type wid = WatchTypeDependency \<and> wid_GVK wid \<notin> set gs}"
proof -
  let ?k = "keys (ct_sources (en_heap e1 ! p))" and ?u = "unused_watches gs (ro (ct_sources (en_heap e1 ! p)))"
  have "map_of (en_controllers e2) name = Some p \<and> keys (ct_sources (en_heap e2 ! p)) = ?k - set ?u"
  proof (cases "?u = []")
    case True
    with run p show ?thesis by (simp add: GarbageCollectWatchesNow_def GetWatches_def)
  next
    case False
    with run p obtain n where "StopWatches ti name ?u e1 = ((n, None), e2)"
      by (auto simp: GarbageCollectWatchesNow_def GetWatches_def Let_def wrap_opt_def split: prod.splits)
    from StopWatches_keys [OF p this] p show ?thesis by simp
  qed
  moreover have "set ?u = {wid \<in> ?k. wid_Type wid = WatchTypeDependency \<and> wid_GVK wid \<notin> set gs}"
    using assms(1) by (auto simp: unused_watches_def ranges_def)
  ultimately show ?thesis by auto
qed

text \<open>
  C9: After a reconcile of composite resources that succeeds in starting watches, the controller has a
  watch of every kind that some composite resource depends on by the tracker's history. One that was
  not there, or whose kind was not marked active, has a source on an informer that runs; another
  keeps its source as it was, which may be on a stopped informer (see
  \<open>second_controller_loses_watch\<close>). If then a collection succeeds, with other operations in between
  that start or stop no watch of this controller, its dependency watches are exactly those it had
  after the reconcile whose kinds are depended on by the history at the time of the collection
  (kinds tracked since then are first watched at the next reconcile), and its other watches stay.
\<close>

theorem watches_follow_dependencies:
  assumes "documented_cache cc hs kd" and "ranges ro" and "hs c = (\<lambda>_. {})"
    and "reachable cc ro late c e"
    and "watch_dependencies (tracked cc) h (GVKs (run_ops Track Forget ops NewInMemory)) name e = (None, e1)"
    and "reachable cc ro late c f" and "same_watches name e1 f"
    and "GarbageCollectWatchesNow (tracked cc) ro
           (GVKs (run_ops Track Forget (ops @ later) NewInMemory)) name f = (None, e2)"
  shows "(\<forall>g \<in> watched_kinds (spec_run ops). let wid = dependency_watch g in
      if source_at e name wid \<noteq> None \<and> g \<in> set (tk_ActiveInformers (en_infs e))
      then source_at e1 name wid = source_at e name wid
      else \<exists>s. source_at e1 name wid = Some s \<and> so_handler s = h \<and>
               live_source (tracked cc) (cached_hs hs) (en_infs e1) s) \<and>
    (\<exists>p. map_of (en_controllers e2) name = Some p \<and>
      keys (ct_sources (en_heap e2 ! p)) =
        {wid \<in> keys (ct_sources (en_heap e ! p)). wid_Type wid \<noteq> WatchTypeDependency} \<union>
        {wid. wid_Type wid = WatchTypeDependency \<and> wid_GVK wid \<in> watched_kinds (spec_run (ops @ later)) \<and>
              (wid_GVK wid \<in> watched_kinds (spec_run ops) \<or> wid \<in> keys (ct_sources (en_heap e ! p)))})"
proof -
  let ?gs = "GVKs (run_ops Track Forget ops NewInMemory)"
    and ?hs = "GVKs (run_ops Track Forget (ops @ later) NewInMemory)"
    and ?ws = "\<lambda>gs. map (\<lambda>g. WatchFor (Inr g) WatchTypeDependency h) gs"
  let ?ids = "map (\<lambda>g. (WatchFor (Inr g) WatchTypeDependency h, dependency_watch g)) ?gs"
  have gs: "set ?gs = watched_kinds (spec_run ops)" "set ?hs = watched_kinds (spec_run (ops @ later))"
    and d: "distinct ?gs"
    using in_memory.kinds_exact by auto
  have run: "StartWatches (tracked cc) name (?ws ?gs) e = (None, e1)"
    using assms(5) by (auto simp: watch_dependencies_def wrap_opt_def split: prod.splits)
  have ids: "watch_ids (?ws ?gs) = Inr ?ids" by (simp add: watch_ids_for dependency_watch_def)
  have "distinct (map snd ?ids)"
    using d by (simp add: comp_def distinct_map inj_on_def dependency_watch_def)
  note S = StartWatches_spec [OF assms(1-4) ids this run]
  have live: "let wid = dependency_watch g in
      if source_at e name wid \<noteq> None \<and> g \<in> set (tk_ActiveInformers (en_infs e))
      then source_at e1 name wid = source_at e name wid
      else \<exists>s. source_at e1 name wid = Some s \<and> so_handler s = h \<and>
               live_source (tracked cc) (cached_hs hs) (en_infs e1) s"
    if "g \<in> watched_kinds (spec_run ops)" for g
  proof -
    have "(WatchFor (Inr g) WatchTypeDependency h, dependency_watch g) \<in> set ?ids" using that gs(1) by auto
    note S [THEN spec, THEN spec, THEN conjunct2, THEN mp, OF refl, THEN spec, THEN mp, OF this]
    moreover have "wid_GVK (dependency_watch g) = g" by (simp add: dependency_watch_def)
    moreover have "w_handler (WatchFor (Inr g) WatchTypeDependency h) = h" by (simp add: WatchFor_def)
    ultimately show ?thesis by (simp only: Let_def)
  qed
  obtain p where p: "map_of (en_controllers e) name = Some p"
    using run by (auto simp: StartWatches_def not_running_def split: option.splits)
  then have lp: "p < length (en_heap e)" using reachable_names [OF assms(4)] by (simp add: names_ok_def)
  note K = StartWatches_keys [OF p lp ids run]
  have f: "map_of (en_controllers f) name = Some p"
    "keys (ct_sources (en_heap f ! p)) = keys (ct_sources (en_heap e1 ! p))"
    using assms(7) K p by (auto simp: same_watches_def)
  then have lf: "p < length (en_heap f)" using reachable_names [OF assms(6)] by (simp add: names_ok_def)
  have w: "snd ` set ?ids = {wid. wid_Type wid = WatchTypeDependency \<and> wid_GVK wid \<in> watched_kinds (spec_run ops)}"
    unfolding gs(1) [symmetric] dependency_watch_def by (rule dependency_watches)
  have "map_of (en_controllers e2) name = Some p \<and> keys (ct_sources (en_heap e2 ! p)) =
      {wid \<in> keys (ct_sources (en_heap e ! p)). wid_Type wid \<noteq> WatchTypeDependency} \<union>
      {wid. wid_Type wid = WatchTypeDependency \<and> wid_GVK wid \<in> watched_kinds (spec_run (ops @ later)) \<and>
            (wid_GVK wid \<in> watched_kinds (spec_run ops) \<or> wid \<in> keys (ct_sources (en_heap e ! p)))}"
    using collected_keys [OF assms(2) f(1) lf assms(8)] f(2) K w gs(2) by auto
  with live show ?thesis by blast
qed

section \<open>Examples\<close>

text \<open>Whole calls are steps of a history.\<close>

lemma reachable_StartWatches:
  assumes "reachable cc ro late c e" "watch_ids ws = Inr ids" "distinct (map snd ids)"
  shows "reachable cc ro late c (snd (StartWatches (tracked cc) name ws e))"
proof (cases "map_of (en_controllers e) name")
  case None
  with assms show ?thesis by (simp add: StartWatches_def)
next
  case (Some p)
  with reachable_names [OF assms(1)] have p: "p < length (en_heap e)" "ct_name (en_heap e ! p) = name"
    "\<not> ct_cancelled (en_heap e ! p)" by (auto simp: names_ok_def)
  then have "reachable cc ro late c (snd (start_locked (tracked cc) name p ids e))"
    using rc_step [OF assms(1) st_start_watches [of p e late ws ids cc ro]] assms(2,3) by simp
  with assms Some show ?thesis by (simp add: StartWatches_def)
qed

lemma reachable_Start: "reachable cc ro late c e \<Longrightarrow> reachable cc ro late c (snd (Start nc gc name e))"
  by (rule rc_step [OF _ st_start])

definition kind_K :: gvk where
  "kind_K = \<lparr>gvk_Group = ''example.org'', gvk_Version = ''v1'', gvk_Kind = ''K''\<rparr>"

definition watch_K :: "string \<Rightarrow> string watch" where
  "watch_K h = WatchFor (Inr kind_K) WatchTypeDependency h"

definition wid_K :: watch_id where
  "wid_K = \<lparr>wid_Type = WatchTypeDependency, wid_GVK = kind_K\<rparr>"

type_synonym small_engine = "(small_cache tracking_cache, nat \<times> gvk, string, nat) engine"

definition in_order :: "('k, 'v) gomap \<Rightarrow> 'k list" where
  "in_order m = remdups (map fst m)"

definition small_new :: small_engine where
  "small_new = New (TrackInformers small_empty)"

definition small_start :: "string \<Rightarrow> small_engine \<Rightarrow> small_engine" where
  "small_start name e = snd (Start None False name e)"

definition small_watch :: "string \<Rightarrow> string \<Rightarrow> small_engine \<Rightarrow> small_engine" where
  "small_watch name h e = snd (StartWatches (tracked small_calls) name [watch_K h] e)"

text \<open>Two controllers that watch the same kind.\<close>

definition small_two :: small_engine where
  "small_two = small_watch ''b'' ''hb'' (small_watch ''a'' ''ha'' (small_start ''b'' (small_start ''a'' small_new)))"

lemma in_order_ranges: "ranges in_order"
  by (simp add: ranges_def in_order_def keys_def)

lemma watch_K_ids: "watch_ids [watch_K h] = Inr [(watch_K h, wid_K)]"
  by (simp add: watch_K_def WatchFor_def wid_K_def)

lemma small_reach_start:
  "reachable small_calls in_order late small_empty e \<Longrightarrow> reachable small_calls in_order late small_empty (small_start name e)"
  by (simp add: small_start_def reachable_Start)

lemma small_reach_watch:
  "reachable small_calls in_order late small_empty e \<Longrightarrow> reachable small_calls in_order late small_empty (small_watch name h e)"
  unfolding small_watch_def by (rule reachable_StartWatches [OF _ watch_K_ids]) simp_all

lemma small_two_reachable: "reachable small_calls in_order late small_empty small_two"
  unfolding small_two_def small_new_def by (intro small_reach_watch small_reach_start rc_new)

lemmas small_defs = small_two_def small_new_def small_start_def small_watch_def

lemma small_two_state:
  "source_at small_two ''a'' wid_K = Some \<lparr>so_inf = (0, kind_K), so_handler = ''ha'', so_reg = Some 1\<rparr>"
  "source_at small_two ''b'' wid_K = Some \<lparr>so_inf = (0, kind_K), so_handler = ''hb'', so_reg = Some 2\<rparr>"
  "(1, ''ha'') \<in> small_hs (tk_Cache (en_infs small_two)) (0, kind_K)"
  "\<not> ca_IsStopped small_calls (0, kind_K) (tk_Cache (en_infs small_two))"
  unfolding small_hs_def mem_Collect_eq by code_simp+


lemma small_watch_run:
  "StartWatches (tracked small_calls) ''a'' [watch_K ''ha''] (small_start ''a'' small_new) =
     (None, small_watch ''a'' ''ha'' (small_start ''a'' small_new))"
proof -
  have "fst (StartWatches (tracked small_calls) ''a'' [watch_K ''ha''] (small_start ''a'' small_new)) = None"
    by code_simp
  then show ?thesis unfolding small_watch_def by (metis prod.collapse)
qed

theorem StartWatches_sources_witness:
  "\<exists>s. source_at (small_watch ''a'' ''ha'' (small_start ''a'' small_new)) ''a'' wid_K = Some s \<and>
     so_handler s = ''ha'' \<and>
     live_source (tracked small_calls) (cached_hs small_hs)
       (en_infs (small_watch ''a'' ''ha'' (small_start ''a'' small_new))) s"
proof -
  have r: "reachable small_calls in_order False small_empty (small_start ''a'' small_new)"
    unfolding small_new_def by (intro small_reach_start rc_new)
  have "source_at (small_start ''a'' small_new) ''a'' wid_K = None" by code_simp
  then show ?thesis
    using StartWatches_sources [OF small_documented in_order_ranges small_empty_hs r watch_K_ids _ small_watch_run]
    by (simp add: watch_K_def WatchFor_def)
qed

text \<open>The kind's definition is deleted, and the first controller reconciles.\<close>

definition small_removed :: "small_cache tracking_cache" where
  "small_removed = snd (tk_RemoveInformer small_calls (Inr kind_K) (en_infs small_two))"

definition small_restarted :: small_engine where
  "small_restarted = small_watch ''a'' ''ha'' (small_two\<lparr>en_infs := small_removed\<rparr>)"

theorem second_controller_loses_watch_witness:
  "StartWatches (tracked small_calls) ''b'' [watch_K ''hb''] small_restarted = (None, small_restarted) \<and>
   (\<exists>s. source_at small_restarted ''a'' wid_K = Some s \<and>
        live_source (tracked small_calls) (cached_hs small_hs) (en_infs small_restarted) s) \<and>
   ca_IsStopped small_calls (0, kind_K) (tk_Cache (en_infs small_restarted))"
proof -
  have rm: "tk_RemoveInformer small_calls (Inr (wid_GVK wid_K)) (en_infs small_two) = (None, small_removed)"
    by (simp add: small_removed_def wid_K_def tk_RemoveInformer_def Let_def small_calls_def split: prod.splits)
  have "fst (StartWatches (tracked small_calls) ''a'' [watch_K ''ha''] (small_two\<lparr>en_infs := small_removed\<rparr>)) = None"
    by code_simp
  then have run: "StartWatches (tracked small_calls) ''a''
      [WatchFor (Inr (wid_GVK wid_K)) (wid_Type wid_K) ''ha''] (small_two\<lparr>en_infs := small_removed\<rparr>) =
      (None, small_restarted)"
    by (simp add: small_restarted_def small_watch_def watch_K_def wid_K_def prod_eq_iff)
  show ?thesis
    using second_controller_loses_watch [OF small_documented in_order_ranges small_empty_hs
        small_two_reachable small_two_state(1,2) _ rm run, where hb = "''hb''"]
    by (simp add: watch_K_def wid_K_def)
qed

text \<open>One composite resource depends on the kind \<open>K\<close>, then on nothing.\<close>

definition ref_K :: Reference where
  "ref_K = \<lparr>ref_GVK = kind_K, ref_Namespace = [], ref_Name = ''x'', ref_Labels = []\<rparr>"

definition deps_K :: "tracker_op list" where
  "deps_K = [OpTrack ([], ''xr'') [ref_K] []]"

definition small_depends :: small_engine where
  "small_depends = snd (watch_dependencies (tracked small_calls) ''h''
     (GVKs (run_ops Track Forget deps_K NewInMemory)) ''a'' (small_start ''a'' small_new))"

definition small_collected :: small_engine where
  "small_collected = snd (GarbageCollectWatchesNow (tracked small_calls) in_order
     (GVKs (run_ops Track Forget (deps_K @ [OpForget ([], ''xr'')]) NewInMemory)) ''a'' small_depends)"

theorem watches_follow_dependencies_witness:
  "(\<exists>s. source_at small_depends ''a'' wid_K = Some s \<and>
       live_source (tracked small_calls) (cached_hs small_hs) (en_infs small_depends) s) \<and>
   keys (ct_sources (en_heap small_collected ! 0)) = {}"
proof -
  have r: "reachable small_calls in_order False small_empty (small_start ''a'' small_new)"
    unfolding small_new_def by (intro small_reach_start rc_new)
  have "fst (watch_dependencies (tracked small_calls) ''h''
     (GVKs (run_ops Track Forget deps_K NewInMemory)) ''a'' (small_start ''a'' small_new)) = None"
    "fst (GarbageCollectWatchesNow (tracked small_calls) in_order
     (GVKs (run_ops Track Forget (deps_K @ [OpForget ([], ''xr'')]) NewInMemory)) ''a'' small_depends) = None"
    by code_simp+
  then have w: "watch_dependencies (tracked small_calls) ''h''
      (GVKs (run_ops Track Forget deps_K NewInMemory)) ''a'' (small_start ''a'' small_new) = (None, small_depends)"
    and g: "GarbageCollectWatchesNow (tracked small_calls) in_order
      (GVKs (run_ops Track Forget (deps_K @ [OpForget ([], ''xr'')]) NewInMemory)) ''a'' small_depends =
      (None, small_collected)"
    unfolding small_depends_def small_collected_def by (simp_all add: prod_eq_iff)
  have k: "GVKs (run_ops Track Forget deps_K NewInMemory) = [kind_K]" by code_simp
  have eq: "small_depends = small_watch ''a'' ''h'' (small_start ''a'' small_new)"
    unfolding small_depends_def k by (simp add: watch_dependencies_def small_watch_def watch_K_def case_prod_unfold)
  have rd: "reachable small_calls in_order False small_empty small_depends"
    unfolding eq by (rule small_reach_watch [OF r])
  note T = watches_follow_dependencies [OF small_documented in_order_ranges small_empty_hs r w rd _ g]
  have st: "ct_sources (en_heap (small_start ''a'' small_new) ! 0) = []"
    "map_of (en_controllers small_collected) ''a'' = Some 0" "source_at (small_start ''a'' small_new) ''a'' wid_K = None"
    by code_simp+
  have "watched_kinds (spec_run (deps_K @ [OpForget ([], ''xr'')])) = {}"
    by (auto simp: watched_kinds_def deps_K_def spec_run_def refs_def)
  moreover have "kind_K \<in> watched_kinds (spec_run deps_K)"
    using in_memory.kinds_exact [of deps_K] k by auto
  moreover have "same_watches ''a'' small_depends small_depends" by (simp add: same_watches_def)
  moreover have "dependency_watch kind_K = wid_K" by (simp add: dependency_watch_def wid_K_def)
  ultimately show ?thesis using T [THEN conjunct1, THEN bspec, of kind_K] T st by (auto simp: Let_def)
qed

section \<open>Races and errors\<close>

text \<open>
  A goroutine that read the pointer of a controller before it was stopped starts its watch after: the
  handler gets events although no controller is left to stop it.
\<close>

definition small_leak :: small_engine where
  "small_leak = snd (start_locked (tracked small_calls) ''a'' 0 [(watch_K ''ha'', wid_K)]
     (snd (Stop (tracked small_calls) in_order ''a'' (small_start ''a'' small_new))))"

lemma late_watch_leaks:
  "reachable small_calls in_order True small_empty small_leak \<and> en_controllers small_leak = [] \<and>
   (1, ''ha'') \<in> small_hs (tk_Cache (en_infs small_leak)) (0, kind_K) \<and>
   \<not> ca_IsStopped small_calls (0, kind_K) (tk_Cache (en_infs small_leak))"
proof -
  let ?e = "snd (Stop (tracked small_calls) in_order ''a'' (small_start ''a'' small_new))"
  have r: "reachable small_calls in_order True small_empty ?e"
    unfolding small_new_def by (rule rc_step [OF small_reach_start [OF rc_new] st_stop])
  have l: "0 < length (en_heap ?e)" "ct_name (en_heap ?e ! 0) = ''a''" by code_simp+
  have "reachable small_calls in_order True small_empty small_leak"
    using rc_step [OF r st_start_watches [OF l(1) _ watch_K_ids]] l(2) unfolding small_leak_def by simp
  moreover have "en_controllers small_leak = []" by code_simp
  moreover have "(1, ''ha'') \<in> small_hs (tk_Cache (en_infs small_leak)) (0, kind_K)"
    unfolding small_hs_def mem_Collect_eq by code_simp
  moreover have "\<not> ca_IsStopped small_calls (0, kind_K) (tk_Cache (en_infs small_leak))" by code_simp
  ultimately show ?thesis by blast
qed

text \<open>
  A controller that was stopped returns an error after another of its name was started: its goroutine
  stops the other, which nobody asked to stop.
\<close>

lemma old_goroutine_stops_new:
  "let e1 = goroutine_begin 0 (small_start ''a'' small_new);
       e2 = small_start ''a'' (snd (Stop (tracked small_calls) in_order ''a'' e1));
       e3 = goroutine_end (tracked small_calls) in_order (Some (Errorf ''cancelled'' [])) 0 e2
   in IsRunning e2 ''a'' \<and> \<not> ct_cancelled (en_heap e2 ! 1) \<and> \<not> IsRunning e3 ''a''"
proof -
  have k: "IsRunning e n \<longleftrightarrow> map_of (en_controllers e) n \<noteq> None" for e :: small_engine and n
    by (simp add: IsRunning_def in_keys_iff)
  show ?thesis unfolding Let_def k by code_simp
qed

text \<open>
  A restart that fails marks the kind active, so that the next call reports success and leaves the
  source that was there, whose informer was removed.
\<close>

lemma failed_restart_hides_watch:
  assumes "source_at e name wid = Some s" "wid_GVK wid \<notin> keys (tk_active (en_infs e))"
    and "ca_GetInformer cc (wid_GVK wid) (tk_Cache (en_infs e)) = (Inl err, c1)"
    and "names_ok e" and w_def: "w = WatchFor (Inr (wid_GVK wid)) (wid_Type wid) h"
  shows "\<exists>x e1. StartWatches (tracked cc) name [w] e = (Some x, e1) \<and>
    StartWatches (tracked cc) name [w] e1 = (None, e1) \<and> source_at e1 name wid = Some s"
proof -
  obtain p where p: "map_of (en_controllers e) name = Some p" "map_of (ct_sources (en_heap e ! p)) wid = Some s"
    using assms(1) by (auto simp: source_at_def split: option.splits)
  then have lp: "p < length (en_heap e)" using assms(4) by (auto simp: names_ok_def)
  have ids: "watch_ids [w] = Inr [(w, wid)]" by (simp add: w_def WatchFor_def)
  let ?t = "\<lparr>tk_Cache = c1, tk_active = put (wid_GVK wid) True (tk_active (en_infs e))\<rparr>"
    and ?srcs = "ct_sources (en_heap e ! p)" and ?A = "ti_ActiveInformers (tracked cc) (en_infs e)"
  have un: "\<not> watching ?srcs ?A wid"
    using assms(2) by (simp add: watching_def active_keys tracked_def)
  have "ti_GetInformer (tracked cc) (wid_GVK wid) (en_infs e) = (Inl err, ?t)"
    using assms(2,3) by (simp add: tracked_def tk_GetInformer_def tk_call_def Let_def)
  then obtain x where "start_loop (tracked cc) ?A [(w, wid)] ?srcs (en_infs e) = (Some x, ?srcs, ?t, [])"
    using un by (simp add: start_watch_def)
  moreover define e1 where "e1 = snd (start_locked (tracked cc) name p [(w, wid)] e)"
  ultimately have e1: "StartWatches (tracked cc) name [w] e = (Some x, e1)"
      "e1 = upd p (ct_sources_update (\<lambda>_. ?srcs)) (e\<lparr>en_infs := ?t\<rparr>)\<lparr>en_metrics := en_metrics e\<rparr>"
    using un p unfolding StartWatches_def ids by (auto simp: start_locked_def)
  then have "map_of (en_controllers e1) name = Some p" "ct_sources (en_heap e1 ! p) = ct_sources (en_heap e ! p)"
    "wid_GVK wid \<in> keys (tk_active (en_infs e1))"
    using p lp by (simp_all add: heap_upd)
  then have "StartWatches (tracked cc) name [w] e1 = (None, e1) \<and> source_at e1 name wid = Some s"
    unfolding StartWatches_def ids using p
    by (auto simp: watching_def in_keys_iff source_at_def active_keys tracked_def)
  with e1 show ?thesis by blast
qed

end
