(* ===== verification/RefManager.thy ===== *)
theory RefManager
  imports GoPrelude
begin

text \<open>
  Claiming objects by their controller reference, \<^verbatim>\<open>pkg/controller/controller_ref_manager.go\<close> of
  KubeVirt: an object that is owned is kept or released by the selector, an orphan that matches is
  adopted. The patches of the API server are parameters.
\<close>

text \<open>The errors of the API server that the code tells apart.\<close>

datatype client_error = NotFoundError | InvalidError | OtherError go_error

record owner_ref =
  or_Kind :: string
  or_Name :: string
  or_UID :: string
  or_Controller :: bool

text \<open>The controller reference is the first one marked so.\<close>

definition GetControllerOf :: "owner_ref list \<Rightarrow> owner_ref option" where
  "GetControllerOf refs = find or_Controller refs"

text \<open>
  What the manager reads of an object and of its controller. \<open>cm_canAdopt\<close> is the result of the check
  that is made once, when it has been made.
\<close>

record 'o object_view =
  ov_Owners :: "'o \<Rightarrow> owner_ref list"
  ov_Deleting :: "'o \<Rightarrow> bool"

record 'w ref_manager =
  cm_UID :: string
  cm_Deleting :: bool
  cm_CanAdoptFunc :: "'w \<Rightarrow> client_error option \<times> 'w"

type_synonym adoption = "client_error option option"

definition CanAdopt ::
  "'w ref_manager \<Rightarrow> adoption \<Rightarrow> 'w \<Rightarrow> client_error option \<times> adoption \<times> 'w" where
  "CanAdopt m once w =
     (case once of
        Some e \<Rightarrow> (e, once, w)
      | None \<Rightarrow> (case cm_CanAdoptFunc m w of (e, w1) \<Rightarrow> (e, Some e, w1)))"

definition isOwned :: "'w ref_manager \<Rightarrow> owner_ref list \<Rightarrow> bool" where
  "isOwned m refs =
     (case GetControllerOf refs of
        None \<Rightarrow> False
      | Some r \<Rightarrow> if or_UID r \<noteq> cm_UID m then False else True)"

definition isOwnedByOther :: "'w ref_manager \<Rightarrow> owner_ref list \<Rightarrow> bool" where
  "isOwnedByOther m refs =
     (case GetControllerOf refs of
        None \<Rightarrow> False
      | Some r \<Rightarrow> if or_UID r \<noteq> cm_UID m then True else False)"

text \<open>\<open>release\<close> and \<open>adopt\<close> act on the state \<open>'w\<close>; \<open>adopt\<close> also on the check made once.\<close>

definition ReleaseDetachedObject ::
  "'w ref_manager \<Rightarrow> 'o object_view \<Rightarrow> ('o \<Rightarrow> bool) \<Rightarrow> ('o \<Rightarrow> 'w \<Rightarrow> client_error option \<times> 'w) \<Rightarrow> 'o \<Rightarrow> 'w \<Rightarrow>
     (bool \<times> client_error option) \<times> 'w" where
  "ReleaseDetachedObject m v match release ob w =
     (let owned = isOwned m (ov_Owners v ob) in
      if owned \<and> \<not> match ob then
        (if cm_Deleting m then ((False, None), w)
         else (case release ob w of
                 (Some NotFoundError, w1) \<Rightarrow> ((False, None), w1)
               | (Some e, w1) \<Rightarrow> ((False, Some e), w1)
               | (None, w1) \<Rightarrow> ((False, None), w1)))
      else ((owned, None), w))"

definition ClaimObject ::
  "'w ref_manager \<Rightarrow> 'o object_view \<Rightarrow> ('o \<Rightarrow> bool) \<Rightarrow>
     ('o \<Rightarrow> adoption \<Rightarrow> 'w \<Rightarrow> client_error option \<times> adoption \<times> 'w) \<Rightarrow>
     ('o \<Rightarrow> 'w \<Rightarrow> client_error option \<times> 'w) \<Rightarrow> 'o \<Rightarrow> adoption \<Rightarrow> 'w \<Rightarrow>
     (bool \<times> client_error option) \<times> adoption \<times> 'w" where
  "ClaimObject m v match adopt release ob once w =
     (let owned = isOwned m (ov_Owners v ob); ownedByOther = isOwnedByOther m (ov_Owners v ob);
          matched = match ob
      in if owned \<and> matched then ((True, None), once, w)
         else if owned \<and> \<not> matched then
           (case ReleaseDetachedObject m v match release ob w of (r, w1) \<Rightarrow> (r, once, w1))
         else if \<not> owned \<and> \<not> ownedByOther \<and> matched then
           (if cm_Deleting m \<or> \<not> matched then ((False, None), once, w)
            else if ov_Deleting v ob then ((False, None), once, w)
            else (case adopt ob once w of
                    (Some NotFoundError, once1, w1) \<Rightarrow> ((False, None), once1, w1)
                  | (Some e, once1, w1) \<Rightarrow> ((False, Some e), once1, w1)
                  | (None, once1, w1) \<Rightarrow> ((True, None), once1, w1)))
         else ((False, None), once, w))"

text \<open>The loop over all objects gathers what is claimed and the errors.\<close>

fun claim_loop ::
  "'w ref_manager \<Rightarrow> 'o object_view \<Rightarrow> ('o \<Rightarrow> bool) \<Rightarrow>
     ('o \<Rightarrow> adoption \<Rightarrow> 'w \<Rightarrow> client_error option \<times> adoption \<times> 'w) \<Rightarrow>
     ('o \<Rightarrow> 'w \<Rightarrow> client_error option \<times> 'w) \<Rightarrow> 'o list \<Rightarrow> adoption \<Rightarrow> 'w \<Rightarrow>
     ('o list \<times> client_error list) \<times> adoption \<times> 'w" where
  "claim_loop m v match adopt release [] once w = (([], []), once, w)"
| "claim_loop m v match adopt release (ob # obs) once w =
     (case ClaimObject m v match adopt release ob once w of
        ((ok, err), once1, w1) \<Rightarrow>
          (case claim_loop m v match adopt release obs once1 w1 of
             ((claimed, errs), once2, w2) \<Rightarrow>
               (case err of
                  Some e \<Rightarrow> ((claimed, e # errs), once2, w2)
                | None \<Rightarrow> ((if ok then ob # claimed else claimed, errs), once2, w2))))"

text \<open>Adopting and releasing an object by patches of its owner references.\<close>

record ('o, 'w) ref_patches =
  rp_AddController :: "'o \<Rightarrow> 'w \<Rightarrow> client_error option \<times> 'w"
  rp_ClearOwners :: "'o \<Rightarrow> 'w \<Rightarrow> client_error option \<times> 'w"

definition Adopt ::
  "'w ref_manager \<Rightarrow> ('o, 'w) ref_patches \<Rightarrow> 'o \<Rightarrow> adoption \<Rightarrow> 'w \<Rightarrow> client_error option \<times> adoption \<times> 'w"
where
  "Adopt m rp ob once w =
     (case CanAdopt m once w of
        (Some e, once1, w1) \<Rightarrow> (Some (OtherError (Errorf ''can't adopt VirtualMachineInstance'' [])), once1, w1)
      | (None, once1, w1) \<Rightarrow> (case rp_AddController rp ob w1 of (e, w2) \<Rightarrow> (e, once1, w2)))"

definition Release :: "('o, 'w) ref_patches \<Rightarrow> 'o \<Rightarrow> 'w \<Rightarrow> client_error option \<times> 'w" where
  "Release rp ob w =
     (case rp_ClearOwners rp ob w of
        (Some NotFoundError, w1) \<Rightarrow> (None, w1)
      | (Some InvalidError, w1) \<Rightarrow> (None, w1)
      | (e, w1) \<Rightarrow> (e, w1))"

text \<open>\<open>ClaimVirtualMachineInstances\<close>, with the labels an object carries and no further filters.\<close>

definition claim_matching ::
  "'w ref_manager \<Rightarrow> 'o object_view \<Rightarrow> ('o, 'w) ref_patches \<Rightarrow> ('o \<Rightarrow> bool) \<Rightarrow> 'o list \<Rightarrow> 'w \<Rightarrow>
     ('o list \<times> client_error list) \<times> 'w" where
  "claim_matching m v rp match obs w =
     (case claim_loop m v match (Adopt m rp) (Release rp) obs None w of
        (r, once, w1) \<Rightarrow> (r, w1))"

definition RecheckDeletionTimestamp ::
  "('w \<Rightarrow> (client_error + bool) \<times> 'w) \<Rightarrow> 'w \<Rightarrow> client_error option \<times> 'w" where
  "RecheckDeletionTimestamp getObject w =
     (case getObject w of
        (Inl e, w1) \<Rightarrow> (Some (OtherError (Errorf ''can't recheck DeletionTimestamp'' [])), w1)
      | (Inr True, w1) \<Rightarrow> (Some (OtherError (Errorf ''%v/%v has just been deleted at %v'' [])), w1)
      | (Inr False, w1) \<Rightarrow> (None, w1))"

section \<open>Claims\<close>

lemma ClaimObject_owned:
  "isOwned m (ov_Owners v ob) \<Longrightarrow> match ob \<Longrightarrow>
   ClaimObject m v match adopt release ob once w = ((True, None), once, w)"
  by (simp add: ClaimObject_def)

lemma ClaimObject_other:
  "isOwnedByOther m (ov_Owners v ob) \<Longrightarrow>
   ClaimObject m v match adopt release ob once w = ((False, None), once, w)"
  by (auto simp: ClaimObject_def isOwnedByOther_def isOwned_def split: option.splits if_splits)

text \<open>Nothing is claimed that another controller owns or that does not match.\<close>

lemma ClaimObject_sound:
  assumes "ClaimObject m v match adopt release ob once w = ((True, e), once1, w1)"
  shows "match ob \<and> \<not> isOwnedByOther m (ov_Owners v ob)"
proof (cases "isOwnedByOther m (ov_Owners v ob)")
  case True
  with assms show ?thesis by (simp add: ClaimObject_other)
next
  case False
  with assms show ?thesis
    by (auto simp: ClaimObject_def ReleaseDetachedObject_def Let_def
        split: if_splits prod.splits option.splits client_error.splits)
qed

lemma claim_loop_sound:
  assumes "claim_loop m v match adopt release obs once w = ((claimed, errs), once1, w1)" "ob \<in> set claimed"
  shows "ob \<in> set obs \<and> match ob \<and> \<not> isOwnedByOther m (ov_Owners v ob)"
  using assms
proof (induction obs arbitrary: once w claimed errs)
  case (Cons x obs)
  obtain ok err once2 w2 where c: "ClaimObject m v match adopt release x once w = ((ok, err), once2, w2)"
    by (metis prod_cases3 prod.exhaust)
  obtain claimed' errs' where
    l: "claim_loop m v match adopt release obs once2 w2 = ((claimed', errs'), once1, w1)"
    "claimed = (if err = None \<and> ok then x # claimed' else claimed')"
    using Cons.prems(1) c by (auto split: prod.splits option.splits)
  show ?case
  proof (cases "ob \<in> set claimed'")
    case True
    with Cons.IH [OF l(1)] show ?thesis by simp
  next
    case False
    with Cons.prems(2) l(2) have "ob = x" "ok" by (auto split: if_splits)
    with ClaimObject_sound c show ?thesis by fastforce
  qed
qed simp

lemma ClaimObject_unmatched:
  "\<not> isOwned m (ov_Owners v ob) \<Longrightarrow> \<not> match ob \<Longrightarrow>
   ClaimObject m v match adopt release ob once w = ((False, None), once, w)"
  by (simp add: ClaimObject_def)

text \<open>
  When every object is owned and matches, or is another's, or an orphan that does not match,
  claiming calls nothing.
\<close>

lemma claim_matching_settled:
  assumes "\<And>ob. ob \<in> set obs \<Longrightarrow>
      (isOwned m (ov_Owners v ob) \<and> match ob) \<or> isOwnedByOther m (ov_Owners v ob) \<or>
      (\<not> isOwned m (ov_Owners v ob) \<and> \<not> match ob)"
  shows "claim_matching m v rp match obs w = ((filter (\<lambda>ob. isOwned m (ov_Owners v ob)) obs, []), w)"
proof -
  have "claim_loop m v match adopt release obs once w =
      ((filter (\<lambda>ob. isOwned m (ov_Owners v ob)) obs, []), once, w)" for adopt release once
    using assms
  proof (induction obs)
    case (Cons x obs)
    have "isOwned m (ov_Owners v x) \<Longrightarrow> \<not> isOwnedByOther m (ov_Owners v x)"
      by (auto simp: isOwned_def isOwnedByOther_def split: option.splits if_splits)
    then consider "isOwned m (ov_Owners v x)" "match x" | "\<not> isOwned m (ov_Owners v x)"
      "isOwnedByOther m (ov_Owners v x)" | "\<not> isOwned m (ov_Owners v x)" "\<not> match x"
      using Cons.prems [of x] by auto
    then show ?case
      using Cons by cases (simp_all add: ClaimObject_owned ClaimObject_other ClaimObject_unmatched)
  qed simp
  then show ?thesis by (simp add: claim_matching_def)
qed

end
