(* ===== verification/Expectations.thy ===== *)
theory Expectations
  imports GoPrelude
begin

text \<open>
  The expectations of KubeVirt's controllers, \<^verbatim>\<open>pkg/controller/expectations.go\<close>: how many creations
  and deletions a controller still waits for, and the tracking of deletions by UID on top of it.
  A \<^verbatim>\<open>cache.Store\<close> is a finite map; the pointers it holds are only written through the operations
  below, so its entries are values. Counters are 64-bit.
\<close>

section \<open>ControllerExpectations\<close>

definition ExpectationsTimeout :: duration where
  "ExpectationsTimeout = minutes 5"

record controllee_expectations =
  ce_add :: int
  ce_del :: int
  ce_timestamp :: go_time

type_synonym expectations = "(string, controllee_expectations) gomap"

definition controllee_Add :: "controllee_expectations \<Rightarrow> int \<Rightarrow> int \<Rightarrow> controllee_expectations" where
  "controllee_Add e a d = e\<lparr>ce_add := wrap64 (ce_add e + a), ce_del := wrap64 (ce_del e + d)\<rparr>"

definition Fulfilled :: "controllee_expectations \<Rightarrow> bool" where
  "Fulfilled e \<longleftrightarrow> ce_add e \<le> 0 \<and> ce_del e \<le> 0"

definition controllee_GetExpectations :: "controllee_expectations \<Rightarrow> int \<times> int" where
  "controllee_GetExpectations e = (ce_add e, ce_del e)"

definition isExpired :: "go_time \<Rightarrow> controllee_expectations \<Rightarrow> bool" where
  "isExpired now e \<longleftrightarrow> time_sub now (ce_timestamp e) > ExpectationsTimeout"

definition NewControllerExpectations :: expectations where
  "NewControllerExpectations = []"

text \<open>The store never fails on a key, so the error of \<^verbatim>\<open>GetByKey\<close> is always nil.\<close>

definition GetExpectations :: "expectations \<Rightarrow> string \<Rightarrow> controllee_expectations option" where
  "GetExpectations r k = map_of r k"

definition DeleteExpectations :: "string \<Rightarrow> expectations \<Rightarrow> expectations" where
  "DeleteExpectations k r = (case GetExpectations r k of None \<Rightarrow> r | Some _ \<Rightarrow> del k r)"

definition SatisfiedExpectations :: "go_time \<Rightarrow> expectations \<Rightarrow> string \<Rightarrow> bool" where
  "SatisfiedExpectations now r k =
     (case GetExpectations r k of
        Some e \<Rightarrow> if Fulfilled e then True else if isExpired now e then True else False
      | None \<Rightarrow> True)"

definition SetExpectations :: "go_time \<Rightarrow> string \<Rightarrow> int \<Rightarrow> int \<Rightarrow> expectations \<Rightarrow> expectations" where
  "SetExpectations now k a d r = put k \<lparr>ce_add = a, ce_del = d, ce_timestamp = now\<rparr> r"

definition ExpectCreations :: "go_time \<Rightarrow> string \<Rightarrow> int \<Rightarrow> expectations \<Rightarrow> expectations" where
  "ExpectCreations now k adds r = SetExpectations now k adds 0 r"

definition ExpectDeletions :: "go_time \<Rightarrow> string \<Rightarrow> int \<Rightarrow> expectations \<Rightarrow> expectations" where
  "ExpectDeletions now k dels r = SetExpectations now k 0 dels r"

definition LowerExpectations :: "string \<Rightarrow> int \<Rightarrow> int \<Rightarrow> expectations \<Rightarrow> expectations" where
  "LowerExpectations k a d r =
     (case GetExpectations r k of None \<Rightarrow> r | Some e \<Rightarrow> put k (controllee_Add e (wrap64 (- a)) (wrap64 (- d))) r)"

definition RaiseExpectations :: "string \<Rightarrow> int \<Rightarrow> int \<Rightarrow> expectations \<Rightarrow> expectations" where
  "RaiseExpectations k a d r =
     (case GetExpectations r k of None \<Rightarrow> r | Some e \<Rightarrow> put k (controllee_Add e a d) r)"

definition CreationObserved :: "string \<Rightarrow> expectations \<Rightarrow> expectations" where
  "CreationObserved k r = LowerExpectations k 1 0 r"

definition DeletionObserved :: "string \<Rightarrow> expectations \<Rightarrow> expectations" where
  "DeletionObserved k r = LowerExpectations k 0 1 r"

definition AllPendingCreations :: "expectations \<Rightarrow> int" where
  "AllPendingCreations r =
     fold (\<lambda>k sum. case GetExpectations r k of None \<Rightarrow> sum | Some e \<Rightarrow> wrap64 (sum + ce_add e))
       (map fst r) 0"

section \<open>UIDTrackingControllerExpectations\<close>

text \<open>
  The tracking wraps any implementation of \<^verbatim>\<open>ControllerExpectationsInterface\<close>, here the record of the
  operations it calls; a critical section is one step. \<^verbatim>\<open>sets.String\<close> is a set of strings kept as a
  list without duplicates.
\<close>

record 's expectations_ops =
  eo_ExpectDeletions :: "string \<Rightarrow> int \<Rightarrow> 's \<Rightarrow> 's"
  eo_DeletionObserved :: "string \<Rightarrow> 's \<Rightarrow> 's"
  eo_DeleteExpectations :: "string \<Rightarrow> 's \<Rightarrow> 's"

record 's uid_tracking =
  ut_inner :: 's
  ut_uidStore :: "(string, string list) gomap"

definition GetUIDs :: "'s uid_tracking \<Rightarrow> string \<Rightarrow> string list option" where
  "GetUIDs u rc = map_of (ut_uidStore u) rc"

definition uid_ExpectDeletions ::
  "'s expectations_ops \<Rightarrow> string \<Rightarrow> string list \<Rightarrow> 's uid_tracking \<Rightarrow> 's uid_tracking" where
  "uid_ExpectDeletions eo rc deletedKeys u =
     (let expectedUIDs = fold List.insert deletedKeys [] in
      u\<lparr>ut_uidStore := put rc expectedUIDs (ut_uidStore u),
        ut_inner := eo_ExpectDeletions eo rc (int (length expectedUIDs)) (ut_inner u)\<rparr>)"

definition uid_AddExpectedDeletion ::
  "'s expectations_ops \<Rightarrow> string \<Rightarrow> string \<Rightarrow> 's uid_tracking \<Rightarrow> 's uid_tracking" where
  "uid_AddExpectedDeletion eo rc deletedKey u =
     (let existing = (case GetUIDs u rc of None \<Rightarrow> [] | Some s \<Rightarrow> s);
          expectedUIDs = List.insert deletedKey existing in
      u\<lparr>ut_uidStore := put rc expectedUIDs (ut_uidStore u),
        ut_inner := eo_ExpectDeletions eo rc (int (length expectedUIDs)) (ut_inner u)\<rparr>)"

definition uid_DeletionObserved ::
  "'s expectations_ops \<Rightarrow> string \<Rightarrow> string \<Rightarrow> 's uid_tracking \<Rightarrow> 's uid_tracking" where
  "uid_DeletionObserved eo rc deleteKey u =
     (case GetUIDs u rc of
        None \<Rightarrow> u
      | Some uids \<Rightarrow>
          if deleteKey \<in> set uids then
            u\<lparr>ut_inner := eo_DeletionObserved eo rc (ut_inner u),
              ut_uidStore := put rc (removeAll deleteKey uids) (ut_uidStore u)\<rparr>
          else u)"

definition uid_DeleteExpectations ::
  "'s expectations_ops \<Rightarrow> string \<Rightarrow> 's uid_tracking \<Rightarrow> 's uid_tracking" where
  "uid_DeleteExpectations eo rc u =
     u\<lparr>ut_inner := eo_DeleteExpectations eo rc (ut_inner u),
       ut_uidStore := (case GetUIDs u rc of None \<Rightarrow> ut_uidStore u | Some _ \<Rightarrow> del rc (ut_uidStore u))\<rparr>"

definition NewUIDTracking :: "'s \<Rightarrow> 's uid_tracking" where
  "NewUIDTracking ce = \<lparr>ut_inner = ce, ut_uidStore = []\<rparr>"

text \<open>The operations of \<^verbatim>\<open>ControllerExpectations\<close>, with one clock reading.\<close>

definition controller_ops :: "go_time \<Rightarrow> expectations expectations_ops" where
  "controller_ops now =
     \<lparr>eo_ExpectDeletions = ExpectDeletions now, eo_DeletionObserved = DeletionObserved,
      eo_DeleteExpectations = DeleteExpectations\<rparr>"

section \<open>The interface\<close>

text \<open>
  What the tracking relies on: the number of deletions still expected of a controller, and that
  each operation changes it as its name says and only for that controller. Counting down is
  promised for counts in the range of the counter.
\<close>

locale deletion_counter =
  fixes eo :: "'s expectations_ops"
    and pending :: "'s \<Rightarrow> string \<Rightarrow> int option"
  assumes expect: "pending (eo_ExpectDeletions eo rc n s) rc' = (if rc' = rc then Some n else pending s rc')"
    and observe_same: "pending s rc = Some n \<Longrightarrow> 0 < n \<Longrightarrow> n < 2 ^ 63 \<Longrightarrow>
      pending (eo_DeletionObserved eo rc s) rc = Some (n - 1)"
    and observe_other: "rc' \<noteq> rc \<Longrightarrow> pending (eo_DeletionObserved eo rc s) rc' = pending s rc'"
    and delete: "pending (eo_DeleteExpectations eo rc s) rc' = (if rc' = rc then None else pending s rc')"
begin

text \<open>The tracked sets and the counters agree.\<close>

definition agrees :: "'s uid_tracking \<Rightarrow> bool" where
  "agrees u \<longleftrightarrow> (\<forall>rc uids. GetUIDs u rc = Some uids \<longrightarrow>
     distinct uids \<and> length uids < 2 ^ 63 \<and> pending (ut_inner u) rc = Some (int (length uids)))"

lemma agrees_observe:
  assumes "agrees u"
  shows "agrees (uid_DeletionObserved eo rc k u)"
proof (cases "GetUIDs u rc")
  case (Some uids)
  show ?thesis
  proof (cases "k \<in> set uids")
    case True
    have u: "distinct uids" "length uids < 2 ^ 63" "pending (ut_inner u) rc = Some (int (length uids))"
      using assms Some by (auto simp: agrees_def)
    then have "pending (eo_DeletionObserved eo rc (ut_inner u)) rc = Some (int (length uids) - 1)"
      using True length_pos_if_in_set [of k uids] by (intro observe_same) auto
    moreover have len: "length (removeAll k uids) = length uids - 1"
      using u(1) True by (metis distinct_remove1_removeAll length_remove1)
    moreover have "0 < length uids" using True by (rule length_pos_if_in_set)
    ultimately have p: "pending (eo_DeletionObserved eo rc (ut_inner u)) rc =
        Some (int (length (removeAll k uids)))"
      by (cases uids) simp_all
    have "distinct (removeAll k uids)" "length (removeAll k uids) < 2 ^ 63"
      using u len by (simp_all add: distinct_removeAll)
    moreover have "GetUIDs (uid_DeletionObserved eo rc k u) rc' =
        (if rc' = rc then Some (removeAll k uids) else GetUIDs u rc')" for rc'
      using Some True by (simp add: uid_DeletionObserved_def GetUIDs_def)
    moreover have "pending (ut_inner (uid_DeletionObserved eo rc k u)) rc' =
        (if rc' = rc then Some (int (length (removeAll k uids))) else pending (ut_inner u) rc')" for rc'
      using Some True p observe_other by (simp add: uid_DeletionObserved_def)
    ultimately show ?thesis
      using assms unfolding agrees_def by (metis option.inject)
  next
    case False
    with assms Some show ?thesis by (simp add: uid_DeletionObserved_def)
  qed
next
  case None
  with assms show ?thesis by (simp add: uid_DeletionObserved_def)
qed

lemma observe_uids:
  "GetUIDs (uid_DeletionObserved eo rc k u) rc' =
     (if rc' = rc then map_option (removeAll k) (GetUIDs u rc') else GetUIDs u rc')"
  by (auto simp: uid_DeletionObserved_def GetUIDs_def split: option.splits)

lemma observe_all:
  assumes "agrees u"
  shows "agrees (fold (uid_DeletionObserved eo rc) ks u)"
  using assms by (induction ks arbitrary: u) (simp_all add: agrees_observe)

lemma observe_all_uids:
  "GetUIDs (fold (uid_DeletionObserved eo rc) ks u) rc =
     map_option (filter (\<lambda>k. k \<notin> set ks)) (GetUIDs u rc)"
proof (induction ks arbitrary: u)
  case (Cons k ks)
  show ?case
    by (cases "GetUIDs u rc")
      (auto simp: Cons observe_uids removeAll_filter_not_eq intro: filter_cong)
next
  case Nil
  show ?case by (cases "GetUIDs u rc") simp_all
qed

lemma fold_insert: "set (fold List.insert ks acc) = set ks \<union> set acc \<and>
    (distinct acc \<longrightarrow> distinct (fold List.insert ks acc)) \<and>
    length (fold List.insert ks acc) \<le> length ks + length acc"
proof (induction ks arbitrary: acc)
  case (Cons k ks)
  from Cons [of "List.insert k acc"] show ?case
    by (auto simp: List.insert_def split: if_splits)
qed simp

lemma agrees_expect:
  assumes "agrees u" "length dks < 2 ^ 63"
  shows "agrees (uid_ExpectDeletions eo rc dks u)"
proof -
  let ?l = "fold List.insert dks []"
  have "distinct ?l" "length ?l < 2 ^ 63"
    using fold_insert [of dks "[]"] assms(2) by auto
  moreover have "GetUIDs (uid_ExpectDeletions eo rc dks u) rc' =
      (if rc' = rc then Some ?l else GetUIDs u rc')" for rc'
    by (simp add: uid_ExpectDeletions_def GetUIDs_def Let_def)
  moreover have "pending (ut_inner (uid_ExpectDeletions eo rc dks u)) rc' =
      (if rc' = rc then Some (int (length ?l)) else pending (ut_inner u) rc')" for rc'
    by (simp add: uid_ExpectDeletions_def expect Let_def)
  ultimately show ?thesis
    using assms(1) unfolding agrees_def by (metis option.inject)
qed

lemma pending_after:
  assumes "agrees u" "length dks < 2 ^ 63"
  shows "pending (ut_inner (fold (uid_DeletionObserved eo rc) ks (uid_ExpectDeletions eo rc dks u))) rc =
    Some (int (card (set dks - set ks)))"
proof -
  let ?u = "uid_ExpectDeletions eo rc dks u"
  let ?l = "filter (\<lambda>k. k \<notin> set ks) (fold List.insert dks [])"
  have g: "GetUIDs (fold (uid_DeletionObserved eo rc) ks ?u) rc = Some ?l"
    by (simp add: observe_all_uids) (simp add: uid_ExpectDeletions_def GetUIDs_def Let_def)
  from observe_all [OF agrees_expect [OF assms], of rc ks rc] g
  have "distinct ?l" "pending (ut_inner (fold (uid_DeletionObserved eo rc) ks ?u)) rc = Some (int (length ?l))"
    by (auto simp: agrees_def)
  moreover have "set ?l = set dks - set ks"
    using fold_insert [of dks "[]"] by auto
  ultimately show ?thesis
    using distinct_card [of ?l] by simp
qed

end

section \<open>The counters of ControllerExpectations\<close>

lemma wrap64_nonneg: "0 \<le> i \<Longrightarrow> i < 2 ^ 63 \<Longrightarrow> wrap64 i = i"
  by (rule wrap64_id) simp_all

lemma GetExpectations_Lower:
  "GetExpectations (LowerExpectations k a d r) k' =
     (if k' = k then map_option (\<lambda>e. controllee_Add e (wrap64 (- a)) (wrap64 (- d))) (GetExpectations r k')
      else GetExpectations r k')"
  by (cases "GetExpectations r k") (auto simp: LowerExpectations_def GetExpectations_def)

lemma GetExpectations_Delete:
  "GetExpectations (DeleteExpectations k r) k' = (if k' = k then None else GetExpectations r k')"
  by (cases "GetExpectations r k") (auto simp: DeleteExpectations_def GetExpectations_def)

lemma GetExpectations_ExpectDeletions:
  "GetExpectations (ExpectDeletions now k n r) k' =
     (if k' = k then Some \<lparr>ce_add = 0, ce_del = n, ce_timestamp = now\<rparr> else GetExpectations r k')"
  by (simp add: ExpectDeletions_def SetExpectations_def GetExpectations_def)

definition pending_deletions :: "expectations \<Rightarrow> string \<Rightarrow> int option" where
  "pending_deletions r k = map_option ce_del (GetExpectations r k)"

interpretation counter: deletion_counter "controller_ops now" pending_deletions for now
proof
  show "pending_deletions (eo_DeletionObserved (controller_ops now) rc s) rc = Some (n - 1)"
    if "pending_deletions s rc = Some n" "0 < n" "n < 2 ^ 63" for s rc n now
  proof -
    from that obtain e where e: "GetExpectations s rc = Some e" "ce_del e = n"
      by (auto simp: pending_deletions_def)
    have "wrap64 (- 1) = - 1" by (rule wrap64_id) simp_all
    moreover have "wrap64 (n - 1) = n - 1" using that by (intro wrap64_nonneg) simp_all
    ultimately show ?thesis
      using e by (simp add: pending_deletions_def controller_ops_def DeletionObserved_def
          GetExpectations_Lower controllee_Add_def)
  qed
qed (simp_all add: pending_deletions_def controller_ops_def GetExpectations_ExpectDeletions
    DeletionObserved_def GetExpectations_Lower GetExpectations_Delete)

text \<open>What an observation leaves of the rest of the entry.\<close>

lemma observe_entry:
  assumes "GetExpectations (ut_inner u) rc = Some e" "ce_add e = 0"
  shows "\<exists>e'. GetExpectations (ut_inner (uid_DeletionObserved (controller_ops now) rc k u)) rc = Some e' \<and>
    ce_add e' = 0 \<and> ce_timestamp e' = ce_timestamp e"
proof -
  have "wrap64 0 = 0" by (rule wrap64_id) simp_all
  then show ?thesis
    using assms by (auto simp: uid_DeletionObserved_def controller_ops_def DeletionObserved_def
        GetExpectations_Lower controllee_Add_def split: option.splits)
qed

lemma observe_entries:
  assumes "GetExpectations (ut_inner u) rc = Some e" "ce_add e = 0"
  shows "\<exists>e'. GetExpectations (ut_inner (fold (uid_DeletionObserved (controller_ops now) rc) ks u)) rc = Some e' \<and>
    ce_add e' = 0 \<and> ce_timestamp e' = ce_timestamp e"
  using assms
proof (induction ks arbitrary: u e)
  case (Cons k ks)
  from observe_entry [OF Cons.prems, of now k] obtain e1 where
    "GetExpectations (ut_inner (uid_DeletionObserved (controller_ops now) rc k u)) rc = Some e1"
    "ce_add e1 = 0" "ce_timestamp e1 = ce_timestamp e" by blast
  with Cons.IH [of "uid_DeletionObserved (controller_ops now) rc k u" e1] show ?case by auto
qed simp

section \<open>Property\<close>

text \<open>
  C16: After the deletion of a set of objects is expected, and then any observations of deletions,
  repeated, in any order and of foreign objects too, the controller's expectations are satisfied
  exactly when every expected object has been observed, or more than the timeout has passed since
  they were set.
\<close>

theorem deletions_counted_once:
  assumes "length dks < 2 ^ 63"
  shows "SatisfiedExpectations t
      (ut_inner (fold (uid_DeletionObserved (controller_ops now) rc) observed
        (uid_ExpectDeletions (controller_ops now) rc dks (NewUIDTracking r)))) rc \<longleftrightarrow>
    set dks \<subseteq> set observed \<or> time_sub t now > minutes 5"
proof -
  let ?u = "uid_ExpectDeletions (controller_ops now) rc dks (NewUIDTracking r)"
  let ?v = "fold (uid_DeletionObserved (controller_ops now) rc) observed ?u"
  have "counter.agrees (NewUIDTracking r)"
    by (simp add: counter.agrees_def NewUIDTracking_def GetUIDs_def)
  from counter.pending_after [OF this assms, of now rc observed]
  have p: "pending_deletions (ut_inner ?v) rc = Some (int (card (set dks - set observed)))" .
  obtain e0 where "GetExpectations (ut_inner ?u) rc = Some e0" "ce_add e0 = 0" "ce_timestamp e0 = now"
    by (simp add: uid_ExpectDeletions_def controller_ops_def GetExpectations_ExpectDeletions Let_def)
  from observe_entries [OF this(1,2), of now observed] this(3) obtain e where
    e: "GetExpectations (ut_inner ?v) rc = Some e" "ce_add e = 0" "ce_timestamp e = now" by auto
  have "ce_del e = int (card (set dks - set observed))"
    using p e(1) by (simp add: pending_deletions_def)
  then have "Fulfilled e \<longleftrightarrow> set dks \<subseteq> set observed"
    using e(2) by (simp add: Fulfilled_def)
  then show ?thesis
    using e by (simp add: SatisfiedExpectations_def isExpired_def ExpectationsTimeout_def)
qed

theorem deletions_counted_once_witness:
  "\<not> SatisfiedExpectations 5
     (ut_inner (fold (uid_DeletionObserved (controller_ops 0) ''rc'') [''a'', ''a'', ''x'']
       (uid_ExpectDeletions (controller_ops 0) ''rc'' [''a'', ''b''] (NewUIDTracking [])))) ''rc''"
  using deletions_counted_once [of "[''a'', ''b'']" 5 0 "''rc''" "[''a'', ''a'', ''x'']" "[]"]
  by (simp add: time_sub_def min_duration_def max_duration_def)

text \<open>Adding one more expected deletion forgets the creations the controller still waits for.\<close>

lemma add_expected_deletion_drops_creations:
  "SatisfiedExpectations 1 (ut_inner (uid_DeletionObserved (controller_ops 0) ''rc'' ''a''
     (uid_AddExpectedDeletion (controller_ops 0) ''rc'' ''a''
       (NewUIDTracking (ExpectCreations 0 ''rc'' 3 []))))) ''rc''"
  by (simp add: uid_DeletionObserved_def uid_AddExpectedDeletion_def NewUIDTracking_def GetUIDs_def
      controller_ops_def ExpectDeletions_def DeletionObserved_def LowerExpectations_def
      SetExpectations_def GetExpectations_def ExpectCreations_def SatisfiedExpectations_def
      Fulfilled_def controllee_Add_def wrap64_def List.insert_def Let_def)

end
