(* ===== verification/Controllers.thy ===== *)
theory Controllers
  imports RefManager Expectations
begin

text \<open>
  What the controllers of KubeVirt share: instances with their conditions
  (\<^verbatim>\<open>pkg/controller/conditions.go\<close>) and keys, batches of goroutines, and what the expected creations
  say about the objects that are created but not in the cache yet.
\<close>

section \<open>Instances\<close>

record vmi_condition =
  vc_Type :: string
  vc_Status :: string
  vc_Reason :: string

record vmi =
  vm_Namespace :: string
  vm_Name :: string
  vm_UID :: string
  vm_ResourceVersion :: string
  vm_Labels :: "(string, string) gomap"
  vm_Owners :: "owner_ref list"
  vm_DeletionTimestamp :: "go_time option"
  vm_Phase :: string
  vm_Conditions :: "vmi_condition list"

definition IsFinal :: "'a vmi_scheme \<Rightarrow> bool" where
  "IsFinal v \<longleftrightarrow> vm_Phase v = ''Failed'' \<or> vm_Phase v = ''Succeeded''"

definition GetCondition :: "'a vmi_scheme \<Rightarrow> string \<Rightarrow> vmi_condition option" where
  "GetCondition v t = find (\<lambda>c. vc_Type c = t) (vm_Conditions v)"

definition HasConditionWithStatus :: "'a vmi_scheme \<Rightarrow> string \<Rightarrow> string \<Rightarrow> bool" where
  "HasConditionWithStatus v t s =
     (case GetCondition v t of None \<Rightarrow> False | Some c \<Rightarrow> vc_Status c = s)"

definition HasConditionWithStatusAndReason :: "'a vmi_scheme \<Rightarrow> string \<Rightarrow> string \<Rightarrow> string \<Rightarrow> bool" where
  "HasConditionWithStatusAndReason v t s r =
     (case GetCondition v t of None \<Rightarrow> False | Some c \<Rightarrow> vc_Status c = s \<and> vc_Reason c = r)"

definition VirtualMachineInstanceKey :: "'a vmi_scheme \<Rightarrow> string" where
  "VirtualMachineInstanceKey v = vm_Namespace v @ ''/'' @ vm_Name v"

definition VirtualMachineInstanceKeys :: "'a vmi_scheme list \<Rightarrow> string list" where
  "VirtualMachineInstanceKeys vs = map VirtualMachineInstanceKey vs"

definition NamespacedKey :: "string \<Rightarrow> string \<Rightarrow> string" where
  "NamespacedKey ns name = ns @ ''/'' @ name"

section \<open>Batches\<close>

text \<open>
  A batch of goroutines: the errors in the order in which they are reported, of which the first is
  returned.
\<close>

fun run_batch :: "('st \<Rightarrow> client_error option \<times> 'st) list \<Rightarrow> 'st \<Rightarrow> client_error list \<times> 'st" where
  "run_batch [] st = ([], st)"
| "run_batch (g # gs) st =
     (case g st of (e, st1) \<Rightarrow>
        (case run_batch gs st1 of (es, st2) \<Rightarrow>
           ((case e of None \<Rightarrow> es | Some x \<Rightarrow> x # es), st2)))"

definition first_error :: "client_error list \<Rightarrow> client_error option" where
  "first_error es = (case es of [] \<Rightarrow> None | e # _ \<Rightarrow> Some e)"

text \<open>The end of a worker's turn on a key: what is done with the queue.\<close>

datatype requeue = AddRateLimited string | Forget string

definition settle_key :: "string \<Rightarrow> client_error option \<times> 'st \<Rightarrow> requeue \<times> 'st" where
  "settle_key key r =
     (case r of (Some _, st) \<Rightarrow> (AddRateLimited key, st) | (None, st) \<Rightarrow> (Forget key, st))"

section \<open>Expected creations\<close>

text \<open>At least \<open>n\<close> creations are still expected.\<close>

definition expecting :: "string \<Rightarrow> nat \<Rightarrow> expectations uid_tracking \<Rightarrow> bool" where
  "expecting key n u \<longleftrightarrow>
     (case GetExpectations (ut_inner u) key of
        None \<Rightarrow> n = 0
      | Some e \<Rightarrow> int n \<le> ce_add e \<or> n = 0)"

definition in_range :: "string \<Rightarrow> expectations uid_tracking \<Rightarrow> bool" where
  "in_range key u \<longleftrightarrow> (\<forall>e. GetExpectations (ut_inner u) key = Some e \<longrightarrow>
     - (2 ^ 63) \<le> ce_add e \<and> ce_add e < 2 ^ 31)"

definition prompt :: "go_time \<Rightarrow> string \<Rightarrow> expectations uid_tracking \<Rightarrow> bool" where
  "prompt now key u \<longleftrightarrow> (\<forall>e. GetExpectations (ut_inner u) key = Some e \<longrightarrow> \<not> isExpired now e)"

text \<open>Observed deletions leave the expected creations alone; an observed creation is one less.\<close>

lemma DeletionObserved_adds:
  assumes "in_range key u"
  shows "in_range key (uid_DeletionObserved (controller_ops now) key' k u) \<and>
    (expecting key n u \<longrightarrow> expecting key n (uid_DeletionObserved (controller_ops now) key' k u))"
proof -
  have w: "wrap64 (ce_add e + wrap64 0) = ce_add e"
    if "GetExpectations (ut_inner u) key = Some e" for e
    using assms that wrap64_id [of "ce_add e"] wrap64_id [of 0] by (auto simp: in_range_def)
  show ?thesis
    using assms w
    by (auto simp: uid_DeletionObserved_def controller_ops_def DeletionObserved_def GetExpectations_Lower
        in_range_def expecting_def controllee_Add_def split: option.splits)
qed

lemma CreationObserved_adds:
  assumes "in_range key u" "expecting key (Suc n) u"
  shows "in_range key (u\<lparr>ut_inner := CreationObserved key (ut_inner u)\<rparr>) \<and>
    expecting key n (u\<lparr>ut_inner := CreationObserved key (ut_inner u)\<rparr>)"
proof -
  obtain e where e: "GetExpectations (ut_inner u) key = Some e" "int (Suc n) \<le> ce_add e"
    using assms(2) by (auto simp: expecting_def split: option.splits)
  then have "ce_add e < 2 ^ 31" using assms(1) by (auto simp: in_range_def)
  then have "wrap64 (ce_add e + wrap64 (- 1)) = ce_add e - 1"
    using e(2) wrap64_id [of "- 1"] wrap64_id [of "ce_add e - 1"] by simp
  with e \<open>ce_add e < 2 ^ 31\<close> show ?thesis
    by (auto simp: in_range_def expecting_def CreationObserved_def GetExpectations_Lower controllee_Add_def)
qed

text \<open>The other controllers' expectations are not touched.\<close>

lemma CreationObserved_other:
  "key' \<noteq> key \<Longrightarrow> in_range key (u\<lparr>ut_inner := CreationObserved key' (ut_inner u)\<rparr>) = in_range key u"
  "key' \<noteq> key \<Longrightarrow> expecting key n (u\<lparr>ut_inner := CreationObserved key' (ut_inner u)\<rparr>) = expecting key n u"
  by (auto simp: in_range_def expecting_def CreationObserved_def GetExpectations_Lower)

lemma ExpectCreations_other:
  "key' \<noteq> key \<Longrightarrow> in_range key (u\<lparr>ut_inner := ExpectCreations now key' k (ut_inner u)\<rparr>) = in_range key u"
  "key' \<noteq> key \<Longrightarrow> expecting key n (u\<lparr>ut_inner := ExpectCreations now key' k (ut_inner u)\<rparr>) = expecting key n u"
  by (auto simp: in_range_def expecting_def ExpectCreations_def SetExpectations_def GetExpectations_def)

lemma DeleteExpectations_adds:
  assumes "in_range key u"
  shows "in_range key (uid_DeleteExpectations (controller_ops now) key' u)"
    "key' \<noteq> key \<Longrightarrow> expecting key n (uid_DeleteExpectations (controller_ops now) key' u) = expecting key n u"
  using assms
  by (auto simp: in_range_def expecting_def uid_DeleteExpectations_def controller_ops_def GetExpectations_Delete)

lemma ExpectCreations_adds:
  "n < 2 ^ 31 \<Longrightarrow> in_range key (u\<lparr>ut_inner := ExpectCreations now key (int n) (ut_inner u)\<rparr>) \<and>
   expecting key n (u\<lparr>ut_inner := ExpectCreations now key (int n) (ut_inner u)\<rparr>)"
  by (auto simp: in_range_def expecting_def ExpectCreations_def SetExpectations_def GetExpectations_def)

lemma ExpectDeletions_adds:
  "in_range key (uid_ExpectDeletions (controller_ops now) key ks u)"
  by (auto simp: in_range_def uid_ExpectDeletions_def controller_ops_def GetExpectations_ExpectDeletions Let_def)

lemma expecting_0 [simp]: "expecting key 0 u"
  by (simp add: expecting_def split: option.split)

text \<open>Satisfied expectations that have not timed out mean that nothing created is unannounced.\<close>

lemma satisfied_no_news:
  assumes "SatisfiedExpectations now (ut_inner u) key" "prompt now key u" "expecting key n u"
  shows "n = 0"
  using assms
  by (auto simp: SatisfiedExpectations_def prompt_def expecting_def Fulfilled_def split: option.splits if_splits)

lemma expecting_mono: "expecting key (n + k) u \<Longrightarrow> expecting key n u"
  by (auto simp: expecting_def split: option.splits)

lemma prompt_eval [code]:
  "prompt now key u =
     (case GetExpectations (ut_inner u) key of None \<Rightarrow> True | Some e \<Rightarrow> \<not> isExpired now e)"
  by (auto simp: prompt_def split: option.split)

end
