(* ===== verification/ReplicaSet.thy ===== *)
theory ReplicaSet
  imports Controllers GoFloat
begin

text \<open>
  The controller of replica sets of virtual machine instances,
  \<^verbatim>\<open>pkg/virt-controller/watch/replicaset/replicaset.go\<close> of KubeVirt: a reconcile and the handlers of
  the informers, on top of the expectations and the claims. The API server is a record of the calls
  the controller makes; label selectors of apimachinery are a parameter. The goroutines of one batch
  of calls run in the order \<open>ev_sched\<close> gives.
\<close>

section \<open>Objects\<close>

text \<open>The specification of a template is of the type \<open>'p\<close>, that of a selector of \<open>'s\<close>.\<close>

record 'p vmi_template =
  tp_Name :: string
  tp_GenerateName :: string
  tp_Labels :: "(string, string) gomap"
  tp_Spec :: 'p

record rs_condition =
  rk_Type :: string
  rk_Reason :: string
  rk_Message :: string
  rk_LastTransitionTime :: go_time

record ('s, 'p) replica_set =
  rs_Namespace :: string
  rs_Name :: string
  rs_UID :: string
  rs_Annotations :: "(string, string) gomap option"
  rs_DeletionTimestamp :: "go_time option"
  rs_SpecReplicas :: "int option"
  rs_Selector :: "'s option"
  rs_Template :: "'p vmi_template option"
  rs_Paused :: bool
  rs_Replicas :: int
  rs_ReadyReplicas :: int
  rs_Conditions :: "rs_condition list"
  rs_LabelSelector :: string

text \<open>\<^verbatim>\<open>KeyFunc\<close> of an object; an empty namespace is left out.\<close>

definition rs_key :: "('s, 'p) replica_set \<Rightarrow> string" where
  "rs_key rs = (if rs_Namespace rs \<noteq> [] then NamespacedKey (rs_Namespace rs) (rs_Name rs) else rs_Name rs)"

definition ObservedLatestApiVersionAnnotation :: "('s, 'p) replica_set \<Rightarrow> bool" where
  "ObservedLatestApiVersionAnnotation rs =
     (case rs_Annotations rs of
        None \<Rightarrow> False
      | Some as \<Rightarrow>
          (case map_of as ''kubevirt.io/latest-observed-api-version'' of
             None \<Rightarrow> False
           | Some v \<Rightarrow> if v \<noteq> ''v1'' then False else True))"

definition SetLatestApiVersionAnnotation :: "('s, 'p) replica_set \<Rightarrow> ('s, 'p) replica_set" where
  "SetLatestApiVersionAnnotation rs =
     (let as = (case rs_Annotations rs of None \<Rightarrow> [] | Some as \<Rightarrow> as) in
      rs\<lparr>rs_Annotations := Some (put ''kubevirt.io/storage-observed-api-version'' ''v1''
            (put ''kubevirt.io/latest-observed-api-version'' ''v1'' as))\<rparr>)"

definition kind_replica_set :: string where
  "kind_replica_set = ''VirtualMachineInstanceReplicaSet''"

definition OwnerRef :: "('s, 'p) replica_set \<Rightarrow> owner_ref" where
  "OwnerRef rs = \<lparr>or_Kind = kind_replica_set, or_Name = rs_Name rs, or_UID = rs_UID rs, or_Controller = True\<rparr>"

section \<open>State and environment\<close>

text \<open>An instance that is to be created.\<close>

record 'p new_vmi =
  nv_GenerateName :: string
  nv_Labels :: "(string, string) gomap"
  nv_Spec :: 'p
  nv_Owners :: "owner_ref list"

record ('s, 'p, 'w) rs_client =
  cl_Update :: "('s, 'p) replica_set \<Rightarrow> 'w \<Rightarrow> client_error option \<times> 'w"
  cl_UpdateStatus :: "('s, 'p) replica_set \<Rightarrow> 'w \<Rightarrow> client_error option \<times> 'w"
  cl_Get :: "string \<Rightarrow> string \<Rightarrow> 'w \<Rightarrow> (client_error + ('s, 'p) replica_set) \<times> 'w"
  cl_Delete :: "string \<Rightarrow> string \<Rightarrow> 'w \<Rightarrow> client_error option \<times> 'w"
  cl_Create :: "string \<Rightarrow> 'p new_vmi \<Rightarrow> 'w \<Rightarrow> client_error option \<times> 'w"
  cl_Patches :: "('s, 'p) replica_set \<Rightarrow> (vmi, 'w) ref_patches"

text \<open>
  What a reconcile is given besides its state: the API server, \<^verbatim>\<open>LabelSelectorAsSelector\<close> (which labels
  match, and the text of the selector), the maximal batch, the order of a batch's goroutines, the
  clock, and the text of an error.
\<close>

record ('s, 'p, 'w) rs_env =
  ev_client :: "('s, 'p, 'w) rs_client"
  ev_selector :: "'s \<Rightarrow> (((string, string) gomap \<Rightarrow> bool) \<times> string) option"
  ev_burstReplicas :: nat
  ev_sched :: "nat \<Rightarrow> nat list"
  ev_now :: go_time
  ev_error_text :: "client_error \<Rightarrow> string"

record ('s, 'p, 'w) rs_state =
  cs_vmis :: "vmi list"
  cs_sets :: "('s, 'p) replica_set list"
  cs_expectations :: "expectations uid_tracking"
  cs_queue :: "string list"
  cs_world :: 'w

abbreviation on_world where
  "on_world st w \<equiv> st\<lparr>cs_world := w\<rparr>"

abbreviation on_inner where
  "on_inner f st \<equiv> st\<lparr>cs_expectations := (cs_expectations st)\<lparr>ut_inner := f (ut_inner (cs_expectations st))\<rparr>\<rparr>"

section \<open>Selecting instances\<close>

definition terminating :: "vmi \<Rightarrow> bool" where
  "terminating v = HasConditionWithStatusAndReason v ''Ready'' ''False'' ''PodTerminating''"

definition filterActiveVMIs :: "vmi list \<Rightarrow> vmi list" where
  "filterActiveVMIs vs = filter (\<lambda>v. \<not> IsFinal v \<and> vm_DeletionTimestamp v = None \<and> \<not> terminating v) vs"

definition filterReadyVMIs :: "vmi list \<Rightarrow> vmi list" where
  "filterReadyVMIs vs = filter (\<lambda>v. HasConditionWithStatus v ''Ready'' ''True'') vs"

definition filterFinishedVMIs :: "vmi list \<Rightarrow> vmi list" where
  "filterFinishedVMIs vs = filter (\<lambda>v. IsFinal v \<and> vm_DeletionTimestamp v = None) vs"

definition filterUnkownVMIs :: "vmi list \<Rightarrow> vmi list" where
  "filterUnkownVMIs vs = filter (\<lambda>v. \<not> IsFinal v \<and> vm_DeletionTimestamp v = None \<and> terminating v) vs"

definition listVMIsFromNamespace :: "string \<Rightarrow> ('s, 'p, 'w) rs_state \<Rightarrow> vmi list" where
  "listVMIsFromNamespace ns st = filter (\<lambda>v. vm_Namespace v = ns) (cs_vmis st)"

definition listControllerFromNamespace ::
  "string \<Rightarrow> ('s, 'p, 'w) rs_state \<Rightarrow> ('s, 'p) replica_set list" where
  "listControllerFromNamespace ns st = filter (\<lambda>r. rs_Namespace r = ns) (cs_sets st)"

text \<open>\<^verbatim>\<open>LabelSelectorAsSelector\<close> of a pointer: without a selector nothing matches.\<close>

definition as_selector ::
  "('s, 'p, 'w) rs_env \<Rightarrow> ('s, 'p) replica_set \<Rightarrow> (((string, string) gomap \<Rightarrow> bool) \<times> string) option" where
  "as_selector env rs =
     (case rs_Selector rs of None \<Rightarrow> Some (\<lambda>ls. False, []) | Some s \<Rightarrow> ev_selector env s)"

definition getMatchingControllers ::
  "('s, 'p, 'w) rs_env \<Rightarrow> vmi \<Rightarrow> ('s, 'p, 'w) rs_state \<Rightarrow> ('s, 'p) replica_set list" where
  "getMatchingControllers env v st =
     filter (\<lambda>rs. case as_selector env rs of None \<Rightarrow> False | Some (matches, _) \<Rightarrow> matches (vm_Labels v))
       (listControllerFromNamespace (vm_Namespace v) st)"

definition GetByKey :: "string \<Rightarrow> ('s, 'p, 'w) rs_state \<Rightarrow> ('s, 'p) replica_set option" where
  "GetByKey key st = find (\<lambda>rs. rs_key rs = key) (cs_sets st)"

definition resolveControllerRef ::
  "string \<Rightarrow> owner_ref \<Rightarrow> ('s, 'p, 'w) rs_state \<Rightarrow> ('s, 'p) replica_set option" where
  "resolveControllerRef ns ref st =
     (if or_Kind ref \<noteq> kind_replica_set then None
      else (case GetByKey (NamespacedKey ns (or_Name ref)) st of
              None \<Rightarrow> None
            | Some rs \<Rightarrow> if rs_UID rs \<noteq> or_UID ref then None else Some rs))"

section \<open>The handlers of the informers\<close>

definition enqueueReplicaSet :: "('s, 'p) replica_set \<Rightarrow> ('s, 'p, 'w) rs_state \<Rightarrow> ('s, 'p, 'w) rs_state" where
  "enqueueReplicaSet rs st = st\<lparr>cs_queue := cs_queue st @ [rs_key rs]\<rparr>"

text \<open>An instance, or a tombstone of one; anything else is ignored.\<close>

definition deleteVirtualMachine ::
  "('s, 'p, 'w) rs_env \<Rightarrow> vmi option \<Rightarrow> ('s, 'p, 'w) rs_state \<Rightarrow> ('s, 'p, 'w) rs_state" where
  "deleteVirtualMachine env obj st =
     (case obj of
        None \<Rightarrow> st
      | Some v \<Rightarrow>
          (case GetControllerOf (vm_Owners v) of
             None \<Rightarrow> st
           | Some ref \<Rightarrow>
               (case resolveControllerRef (vm_Namespace v) ref st of
                  None \<Rightarrow> st
                | Some rs \<Rightarrow>
                    enqueueReplicaSet rs
                      (st\<lparr>cs_expectations := uid_DeletionObserved (controller_ops (ev_now env)) (rs_key rs)
                            (VirtualMachineInstanceKey v) (cs_expectations st)\<rparr>))))"

definition addVirtualMachine ::
  "('s, 'p, 'w) rs_env \<Rightarrow> vmi \<Rightarrow> ('s, 'p, 'w) rs_state \<Rightarrow> ('s, 'p, 'w) rs_state" where
  "addVirtualMachine env v st =
     (if vm_DeletionTimestamp v \<noteq> None then deleteVirtualMachine env (Some v) st
      else
        (case GetControllerOf (vm_Owners v) of
           Some ref \<Rightarrow>
             (case resolveControllerRef (vm_Namespace v) ref st of
                None \<Rightarrow> st
              | Some rs \<Rightarrow> enqueueReplicaSet rs (on_inner (CreationObserved (rs_key rs)) st))
         | None \<Rightarrow> fold enqueueReplicaSet (getMatchingControllers env v st) st))"

text \<open>The semantic equality of two label maps: the same keys with the same values, in any order.\<close>

definition labels_equal :: "(string, string) gomap \<Rightarrow> (string, string) gomap \<Rightarrow> bool" where
  "labels_equal a b \<longleftrightarrow> (\<forall>k \<in> set (map fst a @ map fst b). map_of a k = map_of b k)"

definition updateVirtualMachine ::
  "('s, 'p, 'w) rs_env \<Rightarrow> vmi \<Rightarrow> vmi \<Rightarrow> ('s, 'p, 'w) rs_state \<Rightarrow> ('s, 'p, 'w) rs_state" where
  "updateVirtualMachine env old cur st =
     (if vm_ResourceVersion cur = vm_ResourceVersion old then st
      else
        (let labelChanged = (\<not> labels_equal (vm_Labels cur) (vm_Labels old)) in
         if vm_DeletionTimestamp cur \<noteq> None then
           (let st1 = deleteVirtualMachine env (Some cur) st in
            if labelChanged then deleteVirtualMachine env (Some old) st1 else st1)
         else
           (let curRef = GetControllerOf (vm_Owners cur); oldRef = GetControllerOf (vm_Owners old);
                refChanged = (curRef \<noteq> oldRef);
                st1 = (if refChanged then
                         (case oldRef of
                            None \<Rightarrow> st
                          | Some ref \<Rightarrow> (case resolveControllerRef (vm_Namespace old) ref st of
                                          None \<Rightarrow> st
                                        | Some rs \<Rightarrow> enqueueReplicaSet rs st))
                       else st)
            in case curRef of
                 Some ref \<Rightarrow> (case resolveControllerRef (vm_Namespace cur) ref st1 of
                                None \<Rightarrow> st1
                              | Some rs \<Rightarrow> enqueueReplicaSet rs st1)
               | None \<Rightarrow> if labelChanged \<or> refChanged
                         then fold enqueueReplicaSet (getMatchingControllers env cur st1) st1 else st1)))"

section \<open>Scaling\<close>

definition calcDiff :: "('s, 'p) replica_set \<Rightarrow> vmi list \<Rightarrow> int" where
  "calcDiff rs vs =
     (let wantedReplicas = (case rs_SpecReplicas rs of None \<Rightarrow> 1 | Some n \<Rightarrow> n)
      in int (length vs) - wantedReplicas)"

definition batch_size :: "('s, 'p, 'w) rs_env \<Rightarrow> int \<Rightarrow> nat" where
  "batch_size env n = nat (go_trunc (min (abs (fl (of_int n))) (fl (of_nat (ev_burstReplicas env)))))"

definition getVirtualMachineBaseName :: "('s, 'p) replica_set \<Rightarrow> 'p vmi_template \<Rightarrow> string" where
  "getVirtualMachineBaseName rs t =
     (if length (tp_Name t) > 0 then tp_Name t
      else if length (tp_GenerateName t) > 0 then tp_GenerateName t else rs_Name rs)"

text \<open>One goroutine of a batch.\<close>

definition delete_one ::
  "('s, 'p, 'w) rs_env \<Rightarrow> ('s, 'p) replica_set \<Rightarrow> vmi \<Rightarrow> ('s, 'p, 'w) rs_state \<Rightarrow>
     client_error option \<times> ('s, 'p, 'w) rs_state" where
  "delete_one env rs v st =
     (case cl_Delete (ev_client env) (rs_Namespace rs) (vm_Name v) (cs_world st) of
        (Some e, w) \<Rightarrow>
          (Some e, st\<lparr>cs_world := w, cs_expectations :=
             uid_DeletionObserved (controller_ops (ev_now env)) (rs_key rs) (VirtualMachineInstanceKey v)
               (cs_expectations st)\<rparr>)
      | (None, w) \<Rightarrow> (None, on_world st w))"

definition create_one ::
  "('s, 'p, 'w) rs_env \<Rightarrow> ('s, 'p) replica_set \<Rightarrow> 'p vmi_template \<Rightarrow> ('s, 'p, 'w) rs_state \<Rightarrow>
     client_error option \<times> ('s, 'p, 'w) rs_state" where
  "create_one env rs t st =
     (let vmi = \<lparr>nv_GenerateName = getVirtualMachineBaseName rs t, nv_Labels = tp_Labels t,
                 nv_Spec = tp_Spec t, nv_Owners = [OwnerRef rs]\<rparr> in
      case cl_Create (ev_client env) (rs_Namespace rs) vmi (cs_world st) of
        (Some e, w) \<Rightarrow> (Some e, on_inner (CreationObserved (rs_key rs)) (on_world st w))
      | (None, w) \<Rightarrow> (None, on_world st w))"

definition delete_batch ::
  "('s, 'p, 'w) rs_env \<Rightarrow> ('s, 'p) replica_set \<Rightarrow> vmi list \<Rightarrow> nat \<Rightarrow> ('s, 'p, 'w) rs_state \<Rightarrow>
     client_error option \<times> ('s, 'p, 'w) rs_state" where
  "delete_batch env rs vs n st =
     (let candidates = take n vs;
          st1 = st\<lparr>cs_expectations := uid_ExpectDeletions (controller_ops (ev_now env)) (rs_key rs)
                     (VirtualMachineInstanceKeys candidates) (cs_expectations st)\<rparr>
      in case run_batch (map (\<lambda>i. delete_one env rs (vs ! i)) (ev_sched env n)) st1 of
           (es, st2) \<Rightarrow> (first_error es, st2))"

definition scale ::
  "('s, 'p, 'w) rs_env \<Rightarrow> ('s, 'p) replica_set \<Rightarrow> 'p vmi_template \<Rightarrow> vmi list \<Rightarrow> ('s, 'p, 'w) rs_state \<Rightarrow>
     client_error option \<times> ('s, 'p, 'w) rs_state" where
  "scale env rs t vs st =
     (let diff = calcDiff rs vs in
      if diff = 0 then (None, st)
      else
        (let maxDiff = batch_size env diff in
         if diff > 0 then delete_batch env rs vs maxDiff st
         else
           (let st1 = on_inner (ExpectCreations (ev_now env) (rs_key rs) (int maxDiff)) st in
            case run_batch (map (\<lambda>i. create_one env rs t) (ev_sched env maxDiff)) st1 of
              (es, st2) \<Rightarrow> (first_error es, st2))))"

definition cleanFinishedVmis ::
  "('s, 'p, 'w) rs_env \<Rightarrow> ('s, 'p) replica_set \<Rightarrow> vmi list \<Rightarrow> ('s, 'p, 'w) rs_state \<Rightarrow>
     client_error option \<times> ('s, 'p, 'w) rs_state" where
  "cleanFinishedVmis env rs vs st = delete_batch env rs vs (batch_size env (int (length vs))) st"

section \<open>The status\<close>

definition hasCondition :: "('s, 'p) replica_set \<Rightarrow> string \<Rightarrow> bool" where
  "hasCondition rs t = list_ex (\<lambda>c. rk_Type c = t) (rs_Conditions rs)"

definition removeCondition :: "('s, 'p) replica_set \<Rightarrow> string \<Rightarrow> ('s, 'p) replica_set" where
  "removeCondition rs t = rs\<lparr>rs_Conditions := filter (\<lambda>c. rk_Type c \<noteq> t) (rs_Conditions rs)\<rparr>"

definition ReplicaPaused :: string where "ReplicaPaused = ''ReplicaPaused''"
definition ReplicaFailure :: string where "ReplicaFailure = ''ReplicaFailure''"

definition checkPaused :: "go_time \<Rightarrow> ('s, 'p) replica_set \<Rightarrow> ('s, 'p) replica_set" where
  "checkPaused now rs =
     (if rs_Paused rs \<and> \<not> hasCondition rs ReplicaPaused then
        rs\<lparr>rs_Conditions := rs_Conditions rs @
             [\<lparr>rk_Type = ReplicaPaused, rk_Reason = ''Paused'', rk_Message = ''Controller got paused'',
               rk_LastTransitionTime = now\<rparr>]\<rparr>
      else if \<not> rs_Paused rs \<and> hasCondition rs ReplicaPaused then removeCondition rs ReplicaPaused
      else rs)"

definition checkFailure ::
  "('s, 'p, 'w) rs_env \<Rightarrow> int \<Rightarrow> client_error option \<Rightarrow> ('s, 'p) replica_set \<Rightarrow> ('s, 'p) replica_set"
where
  "checkFailure env diff scaleErr rs =
     (case scaleErr of
        Some e \<Rightarrow>
          if \<not> hasCondition rs ReplicaFailure then
            rs\<lparr>rs_Conditions := rs_Conditions rs @
                 [\<lparr>rk_Type = ReplicaFailure, rk_Reason = (if diff < 0 then ''FailedCreate'' else ''FailedDelete''),
                   rk_Message = ev_error_text env e, rk_LastTransitionTime = ev_now env\<rparr>]\<rparr>
          else rs
      | None \<Rightarrow> if hasCondition rs ReplicaFailure then removeCondition rs ReplicaFailure else rs)"

text \<open>\<^verbatim>\<open>int32(n)\<close> of a length.\<close>

definition int32 :: "nat \<Rightarrow> int" where
  "int32 n = (int n + 2 ^ 31) mod 2 ^ 32 - 2 ^ 31"

definition status_matches ::
  "('s, 'p) replica_set \<Rightarrow> vmi list \<Rightarrow> client_error option \<Rightarrow> string \<Rightarrow> bool" where
  "status_matches rs vs scaleErr sel \<longleftrightarrow>
     (int32 (length vs) = rs_Replicas rs \<and>
      int32 (length (filterReadyVMIs vs)) = rs_ReadyReplicas rs) \<and>
     (scaleErr \<noteq> None) = hasCondition rs ReplicaFailure \<and>
     rs_Paused rs = hasCondition rs ReplicaPaused \<and> sel = rs_LabelSelector rs"

definition updateStatus ::
  "('s, 'p, 'w) rs_env \<Rightarrow> ('s, 'p) replica_set \<Rightarrow> vmi list \<Rightarrow> client_error option \<Rightarrow> ('s, 'p, 'w) rs_state \<Rightarrow>
     client_error option \<times> ('s, 'p, 'w) rs_state" where
  "updateStatus env rs vs scaleErr st =
     (let diff = calcDiff rs vs in
      case as_selector env rs of
        None \<Rightarrow> (Some (OtherError (Errorf ''invalid label selector'' [])), st)
      | Some (_, sel) \<Rightarrow>
          if status_matches rs vs scaleErr sel then (None, st)
          else
            (let rs1 = rs\<lparr>rs_LabelSelector := sel, rs_Replicas := int32 (length vs),
                          rs_ReadyReplicas := int32 (length (filterReadyVMIs vs))\<rparr>;
                 rs2 = checkFailure env diff scaleErr (checkPaused (ev_now env) rs1)
             in case cl_UpdateStatus (ev_client env) rs2 (cs_world st) of
                  (e, w) \<Rightarrow> (e, on_world st w)))"

section \<open>A reconcile\<close>

definition vmi_view :: "vmi object_view" where
  "vmi_view = \<lparr>ov_Owners = vm_Owners, ov_Deleting = \<lambda>v. vm_DeletionTimestamp v \<noteq> None\<rparr>"

text \<open>The replica set as it is on the server, if it is still the same one.\<close>

definition fresh_deletion ::
  "('s, 'p, 'w) rs_env \<Rightarrow> ('s, 'p) replica_set \<Rightarrow> 'w \<Rightarrow> (client_error + bool) \<times> 'w" where
  "fresh_deletion env rs w =
     (case cl_Get (ev_client env) (rs_Namespace rs) (rs_Name rs) w of
        (Inl e, w1) \<Rightarrow> (Inl e, w1)
      | (Inr fresh, w1) \<Rightarrow>
          (if rs_UID fresh \<noteq> rs_UID rs
           then Inl (OtherError (Errorf ''original ReplicaSet %v/%v is gone: got uid %v, wanted %v''
                       [rs_Namespace rs, rs_Name rs, rs_UID fresh, rs_UID rs]))
           else Inr (rs_DeletionTimestamp fresh \<noteq> None), w1))"

definition ref_manager_of ::
  "('s, 'p, 'w) rs_env \<Rightarrow> ('s, 'p) replica_set \<Rightarrow> 'w ref_manager" where
  "ref_manager_of env rs =
     \<lparr>cm_UID = rs_UID rs, cm_Deleting = (rs_DeletionTimestamp rs \<noteq> None),
      cm_CanAdoptFunc = RecheckDeletionTimestamp (fresh_deletion env rs)\<rparr>"

text \<open>Scaling, cleaning up and the status, once the instances are claimed.\<close>

definition sync ::
  "('s, 'p, 'w) rs_env \<Rightarrow> ('s, 'p) replica_set \<Rightarrow> 'p vmi_template \<Rightarrow> bool \<Rightarrow> vmi list \<Rightarrow>
     ('s, 'p, 'w) rs_state \<Rightarrow> client_error option \<times> ('s, 'p, 'w) rs_state" where
  "sync env rs t needsSync vs st =
     (let finished = filterFinishedVMIs vs @ filterUnkownVMIs vs; active = filterActiveVMIs vs;
          (scaleErr, st1) =
            (if needsSync \<and> \<not> rs_Paused rs \<and> rs_DeletionTimestamp rs = None then
               (case scale env rs t active st of
                  (e, st1) \<Rightarrow> if length finished > 0 \<and> e = None
                              then cleanFinishedVmis env rs finished st1 else (e, st1))
             else (None, st))
      in case updateStatus env rs active scaleErr st1 of (_, st2) \<Rightarrow> (scaleErr, st2))"

definition execute ::
  "('s, 'p, 'w) rs_env \<Rightarrow> string \<Rightarrow> ('s, 'p, 'w) rs_state \<Rightarrow> client_error option \<times> ('s, 'p, 'w) rs_state" where
  "execute env key st =
     (case GetByKey key st of
        None \<Rightarrow>
          (None, st\<lparr>cs_expectations :=
                      uid_DeleteExpectations (controller_ops (ev_now env)) key (cs_expectations st)\<rparr>)
      | Some rs \<Rightarrow>
          if \<not> ObservedLatestApiVersionAnnotation rs then
            (case cl_Update (ev_client env) (SetLatestApiVersionAnnotation rs) (cs_world st) of
               (e, w) \<Rightarrow> (e, on_world st w))
          else
            (case (rs_Template rs, rs_Selector rs) of
               (Some t, Some _) \<Rightarrow>
                 if length (tp_Labels t) = 0 then (None, st)
                 else
                   (case as_selector env rs of
                      None \<Rightarrow> (None, st)
                    | Some (matches, _) \<Rightarrow>
                        if \<not> matches (tp_Labels t) then (None, st)
                        else
                          (let needsSync = SatisfiedExpectations (ev_now env)
                                             (ut_inner (cs_expectations st)) key;
                               vs = listVMIsFromNamespace (rs_Namespace rs) st
                           in case claim_matching (ref_manager_of env rs) vmi_view
                                     (cl_Patches (ev_client env) rs) (\<lambda>v. matches (vm_Labels v)) vs (cs_world st) of
                                ((claimed, errs), w) \<Rightarrow>
                                  (case first_error errs of
                                     Some e \<Rightarrow> (Some e, on_world st w)
                                   | None \<Rightarrow> sync env rs t needsSync claimed (on_world st w))))
             | _ \<Rightarrow> (None, st)))"

definition Execute ::
  "('s, 'p, 'w) rs_env \<Rightarrow> string \<Rightarrow> ('s, 'p, 'w) rs_state \<Rightarrow> requeue \<times> ('s, 'p, 'w) rs_state" where
  "Execute env key st = settle_key key (execute env key st)"

end
