(* ===== verification/ReplicaSetCorrect.thy ===== *)
theory ReplicaSetCorrect
  imports ReplicaSet
begin

text \<open>
  Correctness of the replica set controller: it never has more instances than were ever wanted or
  already there, however late its cache is, what one reconcile asks of the API server, and where creating and cleaning up in one
  reconcile breaks the first.
\<close>

section \<open>The size of a batch\<close>

lemma batch_size_exact:
  assumes "\<bar>n\<bar> < 2 ^ 53" "ev_burstReplicas env < 2 ^ 53"
  shows "batch_size env n = min (nat \<bar>n\<bar>) (ev_burstReplicas env)"
proof -
  have "fl (of_int n) = of_int n" "fl (of_nat (ev_burstReplicas env)) = of_nat (ev_burstReplicas env)"
    using assms by (auto intro: fl_of_int fl_of_nat)
  moreover have "min (of_int \<bar>n\<bar>) (of_nat (ev_burstReplicas env)) =
      (of_int (min \<bar>n\<bar> (int (ev_burstReplicas env))) :: real)" by simp
  ultimately show ?thesis unfolding batch_size_def by (auto simp: go_trunc_def min_def)
qed

section \<open>What a cached instance counts as\<close>

definition owned_by :: "('s, 'p) replica_set \<Rightarrow> vmi \<Rightarrow> bool" where
  "owned_by rs v \<longleftrightarrow> (\<exists>r. GetControllerOf (vm_Owners v) = Some r \<and> or_UID r = rs_UID rs)"

definition active :: "vmi \<Rightarrow> bool" where
  "active v \<longleftrightarrow> \<not> IsFinal v \<and> vm_DeletionTimestamp v = None \<and> \<not> terminating v"

definition counts :: "('s, 'p) replica_set \<Rightarrow> vmi \<Rightarrow> bool" where
  "counts rs v \<longleftrightarrow> vm_Namespace v = rs_Namespace rs \<and> owned_by rs v \<and> active v"

text \<open>
  An instance that is neither to be adopted nor to be released: one of this replica set with labels
  that match, one of another controller, or an orphan with labels that do not match.
\<close>

definition settled :: "(((string, string) gomap) \<Rightarrow> bool) \<Rightarrow> ('s, 'p) replica_set \<Rightarrow> vmi \<Rightarrow> bool" where
  "settled matches rs v \<longleftrightarrow> (owned_by rs v \<longrightarrow> matches (vm_Labels v)) \<and>
     (GetControllerOf (vm_Owners v) = None \<longrightarrow> \<not> matches (vm_Labels v))"

lemma owned_by_isOwned: "cm_UID m = rs_UID rs \<Longrightarrow> isOwned m (vm_Owners v) = owned_by rs v"
  by (auto simp: isOwned_def owned_by_def split: option.splits)

lemma settled_claims:
  assumes "\<forall>v \<in> set vs. settled matches rs v" "cm_UID m = rs_UID rs"
  shows "claim_matching m vmi_view rp (\<lambda>v. matches (vm_Labels v)) vs w = ((filter (owned_by rs) vs, []), w)"
proof -
  have "isOwned m (ov_Owners vmi_view v) = owned_by rs v" for v
    using owned_by_isOwned [OF assms(2)] by (simp add: vmi_view_def)
  moreover have "isOwnedByOther m (ov_Owners vmi_view v) = (GetControllerOf (vm_Owners v) \<noteq> None \<and> \<not> owned_by rs v)" for v
    using assms(2) by (auto simp: isOwnedByOther_def owned_by_def vmi_view_def split: option.splits)
  ultimately show ?thesis
    using claim_matching_settled [of vs m vmi_view "\<lambda>v. matches (vm_Labels v)" rp w] assms(1)
    by (simp add: settled_def) blast
qed

definition counted :: "('s, 'p) replica_set \<Rightarrow> ('s, 'p, 'w) rs_state \<Rightarrow> vmi list" where
  "counted rs st = filter (counts rs) (cs_vmis st)"

lemma active_claimed:
  "filterActiveVMIs (filter (owned_by rs) (listVMIsFromNamespace (rs_Namespace rs) st)) = counted rs st"
  by (auto simp: filterActiveVMIs_def listVMIsFromNamespace_def counted_def counts_def active_def
      intro: filter_cong)

definition leftover :: "('s, 'p) replica_set \<Rightarrow> ('s, 'p, 'w) rs_state \<Rightarrow> vmi list" where
  "leftover rs st =
     (let vs = filter (owned_by rs) (listVMIsFromNamespace (rs_Namespace rs) st)
      in filterFinishedVMIs vs @ filterUnkownVMIs vs)"

section \<open>A server, seen from a replica set\<close>

text \<open>
  \<open>act w\<close> are the keys of the replica set's active instances on the server and \<open>news w\<close> the created
  ones the informer has not been told of yet. Creating fails, or adds a new instance and its
  announcement; every other call adds none.
\<close>

definition no_more ::
  "('w \<Rightarrow> string set) \<Rightarrow> ('w \<Rightarrow> vmi list) \<Rightarrow> 'w \<Rightarrow> 'w \<Rightarrow> bool" where
  "no_more act news w w1 \<longleftrightarrow> act w1 \<subseteq> act w \<and> news w1 = news w"

definition announces :: "'p new_vmi \<Rightarrow> string \<Rightarrow> vmi \<Rightarrow> bool" where
  "announces nv ns v \<longleftrightarrow> vm_Namespace v = ns \<and> vm_Owners v = nv_Owners nv \<and> vm_Labels v = nv_Labels nv \<and>
     vm_DeletionTimestamp v = None \<and> vm_Phase v = [] \<and> vm_Conditions v = []"

definition documented_server ::
  "('s, 'p, 'w) rs_client \<Rightarrow> ('w \<Rightarrow> string set) \<Rightarrow> ('w \<Rightarrow> vmi list) \<Rightarrow> bool" where
  "documented_server cl act news \<longleftrightarrow>
     (\<forall>ns nv w. (case cl_Create cl ns nv w of
        (Some _, w1) \<Rightarrow> no_more act news w w1
      | (None, w1) \<Rightarrow> \<exists>v. announces nv ns v \<and> news w1 = news w @ [v] \<and>
                         act w1 \<subseteq> insert (VirtualMachineInstanceKey v) (act w))) \<and>
     (\<forall>ns name w. no_more act news w (snd (cl_Delete cl ns name w))) \<and>
     (\<forall>r w. no_more act news w (snd (cl_Update cl r w))) \<and>
     (\<forall>r w. no_more act news w (snd (cl_UpdateStatus cl r w)))"

lemma no_more_refl [simp]: "no_more act news w w"
  by (simp add: no_more_def)

lemma no_more_trans: "no_more act news w w1 \<Longrightarrow> no_more act news w1 w2 \<Longrightarrow> no_more act news w w2"
  by (auto simp: no_more_def)

section \<open>Histories\<close>

text \<open>
  The environment of a reconcile may have any clock, goroutine order and error texts. A reconcile is
  one step: it reads the caches at one moment. It finds expectations that are fulfilled or have not
  timed out, and has no instances to clean up when it also has instances to create. The replica set
  stays in the cache and keeps its name, UID and selector; the rest of it may change, the replicas
  it wants up to \<open>M\<close>. Other replica sets come and go, and their reconciles make no instances of this
  one. The informer announces created instances in order, as they are by then; an update of a cached
  instance keeps it as one that counts unless it no longer does on the server.
\<close>

definition same_set :: "('s, 'p) replica_set \<Rightarrow> ('s, 'p) replica_set \<Rightarrow> bool" where
  "same_set rs r \<longleftrightarrow> rs_Namespace r = rs_Namespace rs \<and> rs_Name r = rs_Name rs \<and> rs_UID r = rs_UID rs \<and>
     rs_Selector r = rs_Selector rs"

definition wanted :: "('s, 'p) replica_set \<Rightarrow> nat" where
  "wanted rs = nat (case rs_SpecReplicas rs of None \<Rightarrow> 1 | Some n \<Rightarrow> n)"

definition cached_set :: "('s, 'p) replica_set \<Rightarrow> nat \<Rightarrow> ('s, 'p, 'w) rs_state \<Rightarrow> bool" where
  "cached_set rs M st \<longleftrightarrow> (\<exists>r. GetByKey (rs_key rs) st = Some r \<and> same_set rs r \<and> wanted r \<le> M)"

definition store :: "vmi \<Rightarrow> vmi list \<Rightarrow> vmi list" where
  "store v vs = v # filter (\<lambda>u. VirtualMachineInstanceKey u \<noteq> VirtualMachineInstanceKey v) vs"

definition env_ok ::
  "('s, 'p, 'w) rs_client \<Rightarrow> ('s \<Rightarrow> (((string, string) gomap \<Rightarrow> bool) \<times> string) option) \<Rightarrow> ('s, 'p, 'w) rs_env \<Rightarrow> bool"
where
  "env_ok cl sel env \<longleftrightarrow> ev_client env = cl \<and> ev_selector env = sel \<and> ev_burstReplicas env < 2 ^ 53 \<and>
     (\<forall>n. length (ev_sched env n) = n)"

inductive rs_step for cl sel matches act news rs M where
  rs_execute: "env_ok cl sel env \<Longrightarrow> prompt (ev_now env) (rs_key rs) (cs_expectations st) \<Longrightarrow>
    leftover rs st = [] \<or> (\<forall>r. GetByKey (rs_key rs) st = Some r \<longrightarrow> 0 \<le> calcDiff r (counted rs st)) \<Longrightarrow>
    rs_step cl sel matches act news rs M st (snd (execute env (rs_key rs) st))"
| rs_other_execute: "key \<noteq> rs_key rs \<Longrightarrow> st1 = snd (execute env key st) \<Longrightarrow>
    no_more act news (cs_world st) (cs_world st1) \<Longrightarrow> rs_step cl sel matches act news rs M st st1"
| rs_sets: "cached_set rs M (st\<lparr>cs_sets := rss\<rparr>) \<Longrightarrow>
    rs_step cl sel matches act news rs M st (enqueueReplicaSet r (st\<lparr>cs_sets := rss\<rparr>))"
| rs_added: "news (cs_world st) = v # vs \<Longrightarrow> act w1 = act (cs_world st) \<Longrightarrow> news w1 = vs \<Longrightarrow>
    VirtualMachineInstanceKey cur = VirtualMachineInstanceKey v \<Longrightarrow> vm_Namespace cur = vm_Namespace v \<Longrightarrow>
    vm_Owners cur = vm_Owners v \<Longrightarrow> settled matches rs cur \<Longrightarrow>
    counts rs cur \<or> VirtualMachineInstanceKey cur \<notin> act (cs_world st) \<Longrightarrow>
    rs_step cl sel matches act news rs M st
      (addVirtualMachine env cur (st\<lparr>cs_vmis := store cur (cs_vmis st), cs_world := w1\<rparr>))"
| rs_other_added: "\<not> owned_by rs v \<Longrightarrow> settled matches rs v \<Longrightarrow>
    VirtualMachineInstanceKey v \<notin> act (cs_world st) \<Longrightarrow>
    rs_step cl sel matches act news rs M st
      (addVirtualMachine env v (st\<lparr>cs_vmis := store v (cs_vmis st)\<rparr>))"
| rs_updated: "old \<in> set (cs_vmis st) \<Longrightarrow> VirtualMachineInstanceKey cur = VirtualMachineInstanceKey old \<Longrightarrow>
    settled matches rs cur \<Longrightarrow>
    counts rs cur \<or> VirtualMachineInstanceKey cur \<notin> act (cs_world st) \<Longrightarrow>
    rs_step cl sel matches act news rs M st
      (updateVirtualMachine env old cur (st\<lparr>cs_vmis := store cur (cs_vmis st)\<rparr>))"
| rs_deleted: "VirtualMachineInstanceKey v \<notin> act (cs_world st) \<Longrightarrow>
    rs_step cl sel matches act news rs M st
      (deleteVirtualMachine env (Some v)
         (st\<lparr>cs_vmis := filter (\<lambda>u. VirtualMachineInstanceKey u \<noteq> VirtualMachineInstanceKey v) (cs_vmis st)\<rparr>))"
| rs_server: "no_more act news (cs_world st) w1 \<Longrightarrow>
    rs_step cl sel matches act news rs M st (st\<lparr>cs_world := w1\<rparr>)"

inductive rs_reachable for cl sel matches act news rs M st0 where
  rs_init: "rs_reachable cl sel matches act news rs M st0 st0"
| rs_next: "rs_reachable cl sel matches act news rs M st0 st \<Longrightarrow> rs_step cl sel matches act news rs M st st1 \<Longrightarrow>
    rs_reachable cl sel matches act news rs M st0 st1"

section \<open>The invariant\<close>

definition rs_inv ::
  "(((string, string) gomap) \<Rightarrow> bool) \<Rightarrow> ('w \<Rightarrow> string set) \<Rightarrow> ('w \<Rightarrow> vmi list) \<Rightarrow> ('s, 'p) replica_set \<Rightarrow> nat \<Rightarrow> nat \<Rightarrow>
     ('s, 'p, 'w) rs_state \<Rightarrow> bool" where
  "rs_inv matches act news rs M B st \<longleftrightarrow>
     cached_set rs M st \<and> (\<forall>v \<in> set (cs_vmis st). settled matches rs v) \<and>
     (\<forall>v \<in> set (news (cs_world st)). settled matches rs v \<and> counts rs v \<and> vm_Owners v = [OwnerRef rs]) \<and>
     act (cs_world st) \<subseteq> VirtualMachineInstanceKey ` set (counted rs st) \<union>
                         VirtualMachineInstanceKey ` set (news (cs_world st)) \<and>
     expecting (rs_key rs) (length (news (cs_world st))) (cs_expectations st) \<and>
     in_range (rs_key rs) (cs_expectations st) \<and>
     finite (act (cs_world st)) \<and> card (act (cs_world st)) \<le> max B M"

lemma rs_invD:
  assumes "rs_inv matches act news rs M B st"
  shows "cached_set rs M st" "\<And>v. v \<in> set (cs_vmis st) \<Longrightarrow> settled matches rs v"
    "\<And>v. v \<in> set (news (cs_world st)) \<Longrightarrow> settled matches rs v \<and> counts rs v \<and> vm_Owners v = [OwnerRef rs]"
    "act (cs_world st) \<subseteq> VirtualMachineInstanceKey ` set (counted rs st) \<union>
                         VirtualMachineInstanceKey ` set (news (cs_world st))"
    "expecting (rs_key rs) (length (news (cs_world st))) (cs_expectations st)"
    "in_range (rs_key rs) (cs_expectations st)"
    "finite (act (cs_world st))" "card (act (cs_world st)) \<le> max B M"
  using assms unfolding rs_inv_def by blast+

section \<open>The handlers keep the invariant\<close>

text \<open>\<open>same\<close>: what a change of the queue and of the expectations leaves.\<close>

lemma enqueue_fields [simp]:
  "cs_vmis (enqueueReplicaSet r st) = cs_vmis st" "cs_sets (enqueueReplicaSet r st) = cs_sets st"
  "cs_expectations (enqueueReplicaSet r st) = cs_expectations st"
  "cs_world (enqueueReplicaSet r st) = cs_world st"
  by (simp_all add: enqueueReplicaSet_def)

lemma fold_enqueue_fields [simp]:
  "cs_vmis (fold enqueueReplicaSet rss st) = cs_vmis st" "cs_sets (fold enqueueReplicaSet rss st) = cs_sets st"
  "cs_expectations (fold enqueueReplicaSet rss st) = cs_expectations st"
  "cs_world (fold enqueueReplicaSet rss st) = cs_world st"
  by (induction rss arbitrary: st) simp_all

lemma counted_fields [simp]:
  "counted rs (enqueueReplicaSet r st) = counted rs st"
  "counted rs (st\<lparr>cs_expectations := u\<rparr>) = counted rs st" "counted rs (st\<lparr>cs_world := w\<rparr>) = counted rs st"
  "counted rs (st\<lparr>cs_vmis := vs\<rparr>) = filter (counts rs) vs"
  by (simp_all add: counted_def)

lemma counted_fold [simp]: "counted rs (fold enqueueReplicaSet rss st) = counted rs st"
  by (simp add: counted_def)

lemma GetByKey_fields [simp]:
  "GetByKey k (enqueueReplicaSet r st) = GetByKey k st" "GetByKey k (fold enqueueReplicaSet rss st) = GetByKey k st"
  "GetByKey k (st\<lparr>cs_expectations := u\<rparr>) = GetByKey k st" "GetByKey k (st\<lparr>cs_world := w\<rparr>) = GetByKey k st"
  "GetByKey k (st\<lparr>cs_vmis := vs\<rparr>) = GetByKey k st"
  by (simp_all add: GetByKey_def)

lemma cached_set_fields [simp]:
  "cached_set rs M (enqueueReplicaSet r st) = cached_set rs M st"
  "cached_set rs M (fold enqueueReplicaSet rss st) = cached_set rs M st"
  "cached_set rs M (st\<lparr>cs_expectations := u\<rparr>) = cached_set rs M st"
  "cached_set rs M (st\<lparr>cs_world := w\<rparr>) = cached_set rs M st"
  "cached_set rs M (st\<lparr>cs_vmis := vs\<rparr>) = cached_set rs M st"
  by (simp_all add: cached_set_def)

lemma rs_inv_enqueue [simp]:
  "rs_inv matches act news rs M B (enqueueReplicaSet r st) = rs_inv matches act news rs M B st"
  "rs_inv matches act news rs M B (fold enqueueReplicaSet rss st) = rs_inv matches act news rs M B st"
  by (simp_all add: rs_inv_def)

lemma rs_inv_delete:
  assumes "rs_inv matches act news rs M B st"
  shows "rs_inv matches act news rs M B (deleteVirtualMachine env obj st)"
proof -
  have "rs_inv matches act news rs M B (st\<lparr>cs_expectations :=
      uid_DeletionObserved (controller_ops now) key k (cs_expectations st)\<rparr>)" for now key k
    using assms DeletionObserved_adds by (simp add: rs_inv_def)
  then show ?thesis
    using assms by (simp add: deleteVirtualMachine_def split: option.split)
qed

lemma rs_inv_update:
  assumes "rs_inv matches act news rs M B st"
  shows "rs_inv matches act news rs M B (updateVirtualMachine env old cur st)"
  unfolding updateVirtualMachine_def Let_def
  using assms by (simp add: rs_inv_delete split: option.split)

text \<open>Storing an instance keeps what counts, apart from its own key.\<close>

lemma stored_counts:
  assumes "A \<subseteq> VirtualMachineInstanceKey ` set (counted rs st) \<union> VirtualMachineInstanceKey ` N"
    and "counts rs cur \<or> VirtualMachineInstanceKey cur \<notin> A"
  shows "A \<subseteq> VirtualMachineInstanceKey ` set (counted rs (st\<lparr>cs_vmis := store cur (cs_vmis st)\<rparr>)) \<union>
    VirtualMachineInstanceKey ` (N - {u. VirtualMachineInstanceKey u = VirtualMachineInstanceKey cur})"
proof
  fix k assume k: "k \<in> A"
  show "k \<in> VirtualMachineInstanceKey ` set (counted rs (st\<lparr>cs_vmis := store cur (cs_vmis st)\<rparr>)) \<union>
      VirtualMachineInstanceKey ` (N - {u. VirtualMachineInstanceKey u = VirtualMachineInstanceKey cur})"
  proof (cases "k = VirtualMachineInstanceKey cur")
    case True
    with k assms(2) show ?thesis by (simp add: store_def)
  next
    case False
    with k assms(1) show ?thesis by (auto simp: counted_def store_def)
  qed
qed

lemma rs_inv_add:
  assumes inv: "rs_inv matches act news rs M B st" and ns: "rs_Namespace rs \<noteq> []"
    and n: "news (cs_world st) = v # vs" "act w1 = act (cs_world st)" "news w1 = vs"
    and cur: "VirtualMachineInstanceKey cur = VirtualMachineInstanceKey v" "vm_Namespace cur = vm_Namespace v"
      "vm_Owners cur = vm_Owners v" "settled matches rs cur"
      "counts rs cur \<or> VirtualMachineInstanceKey cur \<notin> act (cs_world st)"
  shows "rs_inv matches act news rs M B
    (addVirtualMachine env cur (st\<lparr>cs_vmis := store cur (cs_vmis st), cs_world := w1\<rparr>))"
proof -
  note I = rs_invD [OF inv]
  let ?st = "st\<lparr>cs_vmis := store cur (cs_vmis st), cs_world := w1\<rparr>"
  have "vm_Owners cur = [OwnerRef rs]" "vm_Namespace cur = rs_Namespace rs"
    using I(3) n(1) cur(2,3) by (auto simp: counts_def)
  then have own: "GetControllerOf (vm_Owners cur) = Some (OwnerRef rs)" "vm_Namespace cur = rs_Namespace rs"
    by (simp_all add: GetControllerOf_def OwnerRef_def)
  obtain r where r: "GetByKey (rs_key rs) st = Some r" "same_set rs r" using I(1) by (auto simp: cached_set_def)
  then have key: "rs_key r = rs_key rs" "rs_UID r = rs_UID rs" by (simp_all add: same_set_def rs_key_def)
  have "NamespacedKey (rs_Namespace rs) (rs_Name rs) = rs_key rs" using ns by (simp add: rs_key_def)
  with r(1) key(2) have "resolveControllerRef (rs_Namespace rs) (OwnerRef rs) ?st = Some r"
    by (simp add: resolveControllerRef_def OwnerRef_def)
  with own key have add: "vm_DeletionTimestamp cur = None \<Longrightarrow> addVirtualMachine env cur ?st =
      enqueueReplicaSet r (on_inner (CreationObserved (rs_key rs)) ?st)"
    by (simp add: addVirtualMachine_def)
  have e: "in_range (rs_key rs) ((cs_expectations st)\<lparr>ut_inner := CreationObserved (rs_key rs) (ut_inner (cs_expectations st))\<rparr>)"
    "expecting (rs_key rs) (length vs) ((cs_expectations st)\<lparr>ut_inner := CreationObserved (rs_key rs) (ut_inner (cs_expectations st))\<rparr>)"
    using CreationObserved_adds [OF I(6), of "length vs"] I(5) n(1) by simp_all
  have "act w1 \<subseteq> VirtualMachineInstanceKey ` set (counted rs ?st) \<union> VirtualMachineInstanceKey ` set vs"
    using stored_counts [OF _ cur(5), of _ "set (v # vs)"] I(4) n cur(1) by auto
  moreover have "settled matches rs u" if "u \<in> set (store cur (cs_vmis st))" for u
    using that cur(4) I(2) by (auto simp: store_def)
  moreover have "expecting (rs_key rs) (length vs) (cs_expectations st)"
    using expecting_mono [of _ "length vs" 1] I(5) n(1) by simp
  ultimately have "rs_inv matches act news rs M B ?st"
    "rs_inv matches act news rs M B (on_inner (CreationObserved (rs_key rs)) ?st)"
    using I e n by (simp_all add: rs_inv_def)
  then show ?thesis
    using add rs_inv_delete by (cases "vm_DeletionTimestamp cur") (simp_all add: addVirtualMachine_def)
qed

lemma rs_inv_other_add:
  assumes inv: "rs_inv matches act news rs M B st" and v: "\<not> owned_by rs v"
  shows "rs_inv matches act news rs M B (addVirtualMachine env v st)"
proof -
  note I = rs_invD [OF inv]
  obtain r where r: "GetByKey (rs_key rs) st = Some r" "same_set rs r" using I(1) by (auto simp: cached_set_def)
  have other: "rs_key r' \<noteq> rs_key rs"
    if "GetControllerOf (vm_Owners v) = Some ref" "resolveControllerRef (vm_Namespace v) ref st = Some r'" for ref r'
  proof
    assume eq: "rs_key r' = rs_key rs"
    from that(2) have g: "GetByKey (NamespacedKey (vm_Namespace v) (or_Name ref)) st = Some r'" "rs_UID r' = or_UID ref"
      by (auto simp: resolveControllerRef_def split: if_splits option.splits)
    from g(1) have "rs_key r' = NamespacedKey (vm_Namespace v) (or_Name ref)"
      by (auto simp: GetByKey_def find_Some_iff)
    with g eq r have "or_UID ref = rs_UID rs" by (simp add: same_set_def)
    with that(1) v show False by (auto simp: owned_by_def)
  qed
  have "rs_inv matches act news rs M B (on_inner (CreationObserved k) st)" if "k \<noteq> rs_key rs" for k
    using that I CreationObserved_other by (simp add: rs_inv_def)
  then show ?thesis
    using inv other rs_inv_delete [OF inv] by (auto simp: addVirtualMachine_def split: option.split)
qed

lemma rs_inv_store:
  assumes inv: "rs_inv matches act news rs M B st" and "settled matches rs cur"
    and "counts rs cur \<or> VirtualMachineInstanceKey cur \<notin> act (cs_world st)"
  shows "rs_inv matches act news rs M B (st\<lparr>cs_vmis := store cur (cs_vmis st)\<rparr>)"
proof -
  note I = rs_invD [OF inv]
  have "act (cs_world st) \<subseteq> VirtualMachineInstanceKey ` set (counted rs (st\<lparr>cs_vmis := store cur (cs_vmis st)\<rparr>)) \<union>
      VirtualMachineInstanceKey ` set (news (cs_world st))"
    using stored_counts [OF I(4) assms(3)] by auto
  with I assms(2) show ?thesis by (simp add: rs_inv_def store_def)
qed

lemma rs_inv_drop:
  assumes inv: "rs_inv matches act news rs M B st" and "VirtualMachineInstanceKey v \<notin> act (cs_world st)"
  shows "rs_inv matches act news rs M B
    (st\<lparr>cs_vmis := filter (\<lambda>u. VirtualMachineInstanceKey u \<noteq> VirtualMachineInstanceKey v) (cs_vmis st)\<rparr>)"
proof -
  note I = rs_invD [OF inv]
  have "act (cs_world st) \<subseteq> VirtualMachineInstanceKey ` set (counted rs
      (st\<lparr>cs_vmis := filter (\<lambda>u. VirtualMachineInstanceKey u \<noteq> VirtualMachineInstanceKey v) (cs_vmis st)\<rparr>)) \<union>
      VirtualMachineInstanceKey ` set (news (cs_world st))"
    using I(4) assms(2) by (fastforce simp: counted_def)
  with I show ?thesis by (simp add: rs_inv_def)
qed

lemma rs_inv_server:
  assumes inv: "rs_inv matches act news rs M B st" and w: "no_more act news (cs_world st) w1"
  shows "rs_inv matches act news rs M B (st\<lparr>cs_world := w1\<rparr>)"
proof -
  note I = rs_invD [OF inv]
  have "card (act w1) \<le> card (act (cs_world st))"
    using w I(7) by (auto simp: no_more_def intro: card_mono)
  moreover have "finite (act w1)" using w I(7) by (auto simp: no_more_def intro: finite_subset)
  ultimately show ?thesis
    using I w by (auto simp: rs_inv_def no_more_def)
qed

section \<open>A reconcile keeps the invariant\<close>

lemma create_laws:
  assumes "documented_server cl act news" "cl_Create cl ns nv w = (r, w1)"
  shows "r \<noteq> None \<Longrightarrow> no_more act news w w1"
    and "r = None \<Longrightarrow> \<exists>v. announces nv ns v \<and> news w1 = news w @ [v] \<and>
           act w1 \<subseteq> insert (VirtualMachineInstanceKey v) (act w)"
proof -
  have "case cl_Create cl ns nv w of
        (Some _, w1) \<Rightarrow> no_more act news w w1
      | (None, w1) \<Rightarrow> \<exists>v. announces nv ns v \<and> news w1 = news w @ [v] \<and>
                         act w1 \<subseteq> insert (VirtualMachineInstanceKey v) (act w)"
    using assms(1) [unfolded documented_server_def, THEN conjunct1, THEN spec [of _ ns],
        THEN spec [of _ nv], THEN spec [of _ w]] .
  then show "r \<noteq> None \<Longrightarrow> no_more act news w w1"
    "r = None \<Longrightarrow> \<exists>v. announces nv ns v \<and> news w1 = news w @ [v] \<and>
       act w1 \<subseteq> insert (VirtualMachineInstanceKey v) (act w)"
    using assms(2) by auto
qed

lemma create_one_inv:
  assumes inv: "rs_inv matches act news rs M B st" and cl: "ev_client env = cl" "documented_server cl act news"
    and m: "matches (tp_Labels t)"
    and ex: "expecting (rs_key rs) (length (news (cs_world st)) + Suc k) (cs_expectations st)"
    and lim: "card (act (cs_world st)) + Suc k \<le> max B M"
    and run: "create_one env rs t st = (e, st1)"
  shows "rs_inv matches act news rs M B st1 \<and>
    expecting (rs_key rs) (length (news (cs_world st1)) + k) (cs_expectations st1) \<and>
    card (act (cs_world st1)) + k \<le> max B M"
proof -
  let ?nv = "\<lparr>nv_GenerateName = getVirtualMachineBaseName rs t, nv_Labels = tp_Labels t,
      nv_Spec = tp_Spec t, nv_Owners = [OwnerRef rs]\<rparr>"
  note I = rs_invD [OF inv]
  obtain r w where c: "cl_Create cl (rs_Namespace rs) ?nv (cs_world st) = (r, w)" by force
  show ?thesis
  proof (cases r)
    case (Some x)
    with create_laws(1) [OF cl(2) c] have nm: "no_more act news (cs_world st) w" by simp
    with I(7) have card: "card (act w) \<le> card (act (cs_world st))"
      by (auto simp: no_more_def intro: card_mono)
    let ?u = "(cs_expectations st)\<lparr>ut_inner := CreationObserved (rs_key rs) (ut_inner (cs_expectations st))\<rparr>"
    have u: "in_range (rs_key rs) ?u" "expecting (rs_key rs) (length (news (cs_world st)) + k) ?u"
      using CreationObserved_adds [OF I(6)] ex by simp_all
    have "rs_inv matches act news rs M B (st\<lparr>cs_world := w\<rparr>)" using rs_inv_server [OF inv nm] .
    then have "rs_inv matches act news rs M B ((st\<lparr>cs_world := w\<rparr>)\<lparr>cs_expectations := ?u\<rparr>)"
      using u nm expecting_mono [OF u(2)] by (simp add: rs_inv_def no_more_def)
    moreover have "st1 = (st\<lparr>cs_world := w\<rparr>)\<lparr>cs_expectations := ?u\<rparr>"
      using run c cl(1) Some by (simp add: create_one_def)
    ultimately show ?thesis using u nm card lim by (simp add: no_more_def)
  next
    case None
    with create_laws(2) [OF cl(2) c] obtain v where v: "announces ?nv (rs_Namespace rs) v" "news w = news (cs_world st) @ [v]"
      "act w \<subseteq> insert (VirtualMachineInstanceKey v) (act (cs_world st))"
      by blast
    have st1: "st1 = st\<lparr>cs_world := w\<rparr>" using run c cl(1) None by (simp add: create_one_def)
    have new: "settled matches rs v \<and> counts rs v \<and> vm_Owners v = [OwnerRef rs]"
      using v(1) m
      by (auto simp: announces_def settled_def counts_def owned_by_def GetControllerOf_def OwnerRef_def
          active_def IsFinal_def terminating_def HasConditionWithStatusAndReason_def GetCondition_def)
    have fin: "finite (act w)" using v(3) I(7) by (meson finite_insert finite_subset)
    have "card (act w) \<le> card (insert (VirtualMachineInstanceKey v) (act (cs_world st)))"
      using v(3) I(7) by (intro card_mono) simp_all
    also have "\<dots> \<le> Suc (card (act (cs_world st)))" using I(7) by (simp add: card_insert_if)
    finally have card: "card (act w) \<le> Suc (card (act (cs_world st)))" .
    have sub: "act w \<subseteq> VirtualMachineInstanceKey ` set (counted rs st) \<union> VirtualMachineInstanceKey ` set (news w)"
      using v(2,3) I(4) by auto
    have ex': "expecting (rs_key rs) (length (news w) + k) (cs_expectations st)" using ex v(2) by simp
    have "settled matches rs u \<and> counts rs u \<and> vm_Owners u = [OwnerRef rs]" if "u \<in> set (news w)" for u
      using that v(2) new I(3) by auto
    then have "rs_inv matches act news rs M B (st\<lparr>cs_world := w\<rparr>)"
      using I(1,2,6) sub expecting_mono [OF ex'] fin card lim by (simp add: rs_inv_def)
    with ex' card lim show ?thesis unfolding st1 by simp
  qed
qed

lemma create_batch_inv:
  assumes "ev_client env = cl" "documented_server cl act news" "matches (tp_Labels t)"
    and "rs_inv matches act news rs M B st"
    and "expecting (rs_key rs) (length (news (cs_world st)) + length xs) (cs_expectations st)"
    and "card (act (cs_world st)) + length xs \<le> max B M"
    and "run_batch (map (\<lambda>i. create_one env rs t) xs) st = (es, st1)"
  shows "rs_inv matches act news rs M B st1"
  using assms(4-7)
proof (induction xs arbitrary: st es)
  case (Cons x xs)
  obtain e st2 where c: "create_one env rs t st = (e, st2)" by force
  obtain es2 where b: "run_batch (map (\<lambda>i. create_one env rs t) xs) st2 = (es2, st1)"
    using Cons.prems(4) c by (auto split: prod.splits)
  from create_one_inv [OF Cons.prems(1) assms(1-3) _ _ c, of "length xs"] Cons.prems(2,3)
  show ?case using Cons.IH [OF _ _ _ b] by simp
qed simp

text \<open>Deletions: with nothing unannounced the expected creations do not matter.\<close>

definition rs_quiet where
  "rs_quiet matches act news rs M B st \<longleftrightarrow> rs_inv matches act news rs M B st \<and> news (cs_world st) = []"

lemma quiet_world:
  assumes "rs_quiet matches act news rs M B st" "no_more act news (cs_world st) w"
  shows "rs_quiet matches act news rs M B (st\<lparr>cs_world := w\<rparr>)"
proof -
  have "rs_inv matches act news rs M B st" using assms(1) by (simp add: rs_quiet_def)
  from rs_inv_server [OF this assms(2)] assms show ?thesis by (simp add: rs_quiet_def no_more_def)
qed

lemma quiet_deletion_observed:
  assumes "rs_quiet matches act news rs M B st"
  shows "rs_quiet matches act news rs M B
    (st\<lparr>cs_expectations := uid_DeletionObserved (controller_ops now) key k (cs_expectations st)\<rparr>)"
  using assms DeletionObserved_adds by (auto simp: rs_quiet_def rs_inv_def)

lemma delete_batch_quiet:
  assumes cl: "ev_client env = cl" "documented_server cl act news"
    and st: "rs_quiet matches act news rs M B st" and run: "delete_batch env rs vs n st = (e, st1)"
  shows "rs_quiet matches act news rs M B st1"
proof -
  have one: "rs_quiet matches act news rs M B st2"
    if "rs_quiet matches act news rs M B st1" "delete_one env rs v st1 = (e, st2)" for v e st1 st2
  proof -
    obtain r w where d: "cl_Delete cl (rs_Namespace rs) (vm_Name v) (cs_world st1) = (r, w)" by force
    with cl(2) have "no_more act news (cs_world st1) w"
      unfolding documented_server_def by (metis snd_conv)
    from quiet_world [OF that(1) this] quiet_deletion_observed [OF quiet_world [OF that(1) this]]
    show ?thesis using that(2) d cl(1)
      by (cases r) (auto simp: delete_one_def)
  qed
  have batch: "rs_quiet matches act news rs M B st2"
    if "rs_quiet matches act news rs M B st1" "run_batch (map (\<lambda>i. delete_one env rs (vs ! i)) xs) st1 = (es, st2)"
    for xs es st1 st2
    using that
  proof (induction xs arbitrary: st1 es)
    case (Cons x xs)
    obtain e st3 where c: "delete_one env rs (vs ! x) st1 = (e, st3)" by force
    obtain es3 where "run_batch (map (\<lambda>i. delete_one env rs (vs ! i)) xs) st3 = (es3, st2)"
      using Cons.prems(2) c by (auto split: prod.splits)
    with Cons.IH one [OF Cons.prems(1) c] show ?case by blast
  qed simp
  have "rs_quiet matches act news rs M B (st\<lparr>cs_expectations :=
      uid_ExpectDeletions (controller_ops (ev_now env)) (rs_key rs) (VirtualMachineInstanceKeys (take n vs))
        (cs_expectations st)\<rparr>)"
    using st ExpectDeletions_adds by (auto simp: rs_quiet_def rs_inv_def)
  then show ?thesis using run batch by (auto simp: delete_batch_def Let_def split: prod.splits)
qed

lemma updateStatus_inv:
  assumes cl: "ev_client env = cl" "documented_server cl act news"
    and "rs_inv matches act news rs M B st" "updateStatus env rs vs se st = (e, st1)"
  shows "rs_inv matches act news rs M B st1"
proof -
  have "no_more act news (cs_world st) (snd (cl_UpdateStatus cl r (cs_world st)))" for r
    using cl(2) by (simp add: documented_server_def)
  then show ?thesis
    using assms(1,3,4) rs_inv_server [OF assms(3)]
    by (auto simp: updateStatus_def Let_def split: option.splits prod.splits if_splits) (metis snd_conv)
qed

lemma scale_inv:
  assumes env: "env_ok cl sel env" and cl: "documented_server cl act news" and m: "matches (tp_Labels t)"
    and st: "rs_quiet matches act news rs M B st" and w: "wanted rs \<le> M" "M < 2 ^ 31"
    and run: "scale env rs t (counted rs st) st = (e, st1)"
  shows "rs_inv matches act news rs M B st1 \<and>
    (0 \<le> calcDiff rs (counted rs st) \<longrightarrow> rs_quiet matches act news rs M B st1)"
proof -
  have c: "ev_client env = cl" "ev_burstReplicas env < 2 ^ 53" "\<And>n. length (ev_sched env n) = n"
    using env by (simp_all add: env_ok_def)
  have inv: "rs_inv matches act news rs M B st" and nn: "news (cs_world st) = []"
    using st by (simp_all add: rs_quiet_def)
  note I = rs_invD [OF inv]
  let ?d = "calcDiff rs (counted rs st)"
  consider "?d = 0" | "?d > 0" | "?d < 0" by linarith
  then show ?thesis
  proof cases
    case 1
    with run st show ?thesis by (simp add: scale_def rs_quiet_def)
  next
    case 2
    with run have "delete_batch env rs (counted rs st) (batch_size env ?d) st = (e, st1)"
      by (simp add: scale_def)
    from delete_batch_quiet [OF c(1) cl st this] show ?thesis by (simp add: rs_quiet_def)
  next
    case 3
    let ?n = "batch_size env ?d"
      and ?st = "on_inner (ExpectCreations (ev_now env) (rs_key rs) (int (batch_size env ?d))) st"
    have d: "?d = int (length (counted rs st)) - int (wanted rs)"
      using 3 by (auto simp: calcDiff_def wanted_def split: option.splits)
    have "\<bar>?d\<bar> < 2 ^ 53" using d 3 w by simp
    then have n: "?n \<le> nat \<bar>?d\<bar>" by (simp add: batch_size_exact [OF _ c(2)])
    then have n': "?n + length (counted rs st) \<le> wanted rs" using d 3 by linarith
    have "card (act (cs_world st)) \<le> card (VirtualMachineInstanceKey ` set (counted rs st))"
      using I(4) nn by (intro card_mono) auto
    also have "\<dots> \<le> length (counted rs st)"
      by (meson card_image_le card_length finite_set le_trans)
    finally have "card (act (cs_world st)) + ?n \<le> M" using n' w(1) by simp
    then have lim: "card (act (cs_world st)) + ?n \<le> max B M" by simp
    have u: "in_range (rs_key rs) (cs_expectations ?st)" "expecting (rs_key rs) ?n (cs_expectations ?st)"
      using ExpectCreations_adds [of ?n] n' w by simp_all
    have "rs_inv matches act news rs M B ?st"
      using inv u(1) nn by (auto simp: rs_inv_def)
    moreover obtain es where run': "run_batch (map (\<lambda>i. create_one env rs t) (ev_sched env ?n)) ?st = (es, st1)"
      using run 3 by (auto simp: scale_def Let_def split: prod.splits)
    ultimately have "rs_inv matches act news rs M B st1"
      using create_batch_inv [where matches = matches and env = env and rs = rs and t = t and xs = "ev_sched env ?n" and st = ?st, OF c(1) cl m _ _ _ run'] u(2) lim nn c(3)
      by simp
    with 3 show ?thesis by simp
  qed
qed

lemma sync_inv:
  assumes env: "env_ok cl sel env" and cl: "documented_server cl act news" and m: "matches (tp_Labels t)"
    and inv: "rs_inv matches act news rs M B st" and w: "wanted rs \<le> M" "M < 2 ^ 31"
    and quiet: "needsSync \<Longrightarrow> news (cs_world st) = []"
    and vs: "vs = filter (owned_by rs) (listVMIsFromNamespace (rs_Namespace rs) st)"
    and one: "leftover rs st = [] \<or> 0 \<le> calcDiff rs (counted rs st)"
  shows "rs_inv matches act news rs M B (snd (sync env rs t needsSync vs st))"
proof -
  have c: "ev_client env = cl" using env by (simp add: env_ok_def)
  have left: "filterFinishedVMIs vs @ filterUnkownVMIs vs = leftover rs st"
    by (simp add: leftover_def vs Let_def)
  have act: "filterActiveVMIs vs = counted rs st" unfolding vs by (rule active_claimed)
  let ?scaled = "if needsSync \<and> \<not> rs_Paused rs \<and> rs_DeletionTimestamp rs = None then
      (case scale env rs t (counted rs st) st of
         (e, st1) \<Rightarrow> if length (leftover rs st) > 0 \<and> e = None
                     then cleanFinishedVmis env rs (leftover rs st) st1 else (e, st1))
      else (None, st)"
  obtain e st1 where s: "?scaled = (e, st1)" by force
  have "rs_inv matches act news rs M B st1"
  proof (cases "needsSync \<and> \<not> rs_Paused rs \<and> rs_DeletionTimestamp rs = None")
    case True
    with quiet inv have q: "rs_quiet matches act news rs M B st" by (simp add: rs_quiet_def)
    obtain e2 st2 where sc: "scale env rs t (counted rs st) st = (e2, st2)" by force
    note S = scale_inv [OF env cl m q w sc]
    show ?thesis
    proof (cases "length (leftover rs st) > 0 \<and> e2 = None")
      case clean: True
      with one S have "rs_quiet matches act news rs M B st2" by auto
      moreover have "delete_batch env rs (leftover rs st) (batch_size env (int (length (leftover rs st)))) st2 = (e, st1)"
        using s True sc clean by (simp add: cleanFinishedVmis_def)
      ultimately have "rs_quiet matches act news rs M B st1" by (rule delete_batch_quiet [OF c cl])
      then show ?thesis by (simp add: rs_quiet_def)
    next
      case False
      with s True sc S show ?thesis by auto
    qed
  next
    case False
    with s inv show ?thesis by auto
  qed
  moreover have "snd (sync env rs t needsSync vs st) = snd (updateStatus env rs (counted rs st) e st1)"
    unfolding sync_def Let_def left act s by (simp split: prod.split)
  ultimately show ?thesis using updateStatus_inv [OF c cl] by (metis prod.collapse)
qed

text \<open>What the invariant says of the replica set depends on what stays of it.\<close>

lemma same_set_simps:
  assumes "same_set rs r"
  shows "rs_key r = rs_key rs" "counts r = counts rs" "counted r st = counted rs st"
    "leftover r st = leftover rs st" "settled matches r = settled matches rs" "OwnerRef r = OwnerRef rs"
    "cached_set r M st = cached_set rs M st"
proof -
  have o: "owned_by r = owned_by rs" using assms by (simp add: owned_by_def same_set_def fun_eq_iff)
  have ns: "rs_Namespace r = rs_Namespace rs" using assms by (simp add: same_set_def)
  show key: "rs_key r = rs_key rs" using assms by (simp add: same_set_def rs_key_def)
  show c: "counts r = counts rs" by (simp add: counts_def o ns fun_eq_iff)
  show "counted r st = counted rs st" by (simp add: counted_def c)
  show "leftover r st = leftover rs st" by (simp add: leftover_def o ns)
  show "settled matches r = settled matches rs" by (simp add: settled_def o fun_eq_iff)
  show "OwnerRef r = OwnerRef rs" using assms by (simp add: OwnerRef_def same_set_def)
  show "cached_set r M st = cached_set rs M st" using assms by (simp add: cached_set_def key same_set_def)
qed

lemma rs_inv_same:
  "same_set rs r \<Longrightarrow> rs_inv matches act news r M B st = rs_inv matches act news rs M B st"
  by (simp add: rs_inv_def same_set_simps)

lemma execute_inv:
  assumes env: "env_ok cl sel env" and cl: "documented_server cl act news"
    and sel: "rs_Selector rs = Some s" "sel s = Some (matches, text)"
    and inv: "rs_inv matches act news rs M B st" and w: "M < 2 ^ 31"
    and pr: "prompt (ev_now env) (rs_key rs) (cs_expectations st)"
    and one: "leftover rs st = [] \<or> (\<forall>r. GetByKey (rs_key rs) st = Some r \<longrightarrow> 0 \<le> calcDiff r (counted rs st))"
  shows "rs_inv matches act news rs M B (snd (execute env (rs_key rs) st))"
proof -
  note I = rs_invD [OF inv]
  have c: "ev_client env = cl" "ev_selector env = sel" using env by (simp_all add: env_ok_def)
  obtain r where get: "GetByKey (rs_key rs) st = Some r" and r: "same_set rs r" "wanted r \<le> M"
    using I(1) by (auto simp: cached_set_def)
  note S = same_set_simps [OF r(1)]
  have selr: "rs_Selector r = Some s" using sel r(1) by (simp add: same_set_def)
  have invr: "rs_inv matches act news r M B st" using inv by (simp add: rs_inv_same [OF r(1)])
  have as: "as_selector env r = Some (matches, text)" using sel selr c by (simp add: as_selector_def)
  have "rs_inv matches act news r M B (snd (execute env (rs_key rs) st))"
  proof (cases "ObservedLatestApiVersionAnnotation r")
    case False
    obtain e w where e: "cl_Update cl (SetLatestApiVersionAnnotation r) (cs_world st) = (e, w)" by force
    have "no_more act news (cs_world st) (snd (cl_Update cl (SetLatestApiVersionAnnotation r) (cs_world st)))"
      using cl by (simp add: documented_server_def)
    from rs_inv_server [OF invr this] False get c e show ?thesis by (simp add: execute_def)
  next
    case True
    show ?thesis
    proof (cases "\<exists>t. rs_Template r = Some t \<and> length (tp_Labels t) \<noteq> 0 \<and> matches (tp_Labels t)")
      case False
      with True get as selr invr show ?thesis
        by (auto simp: execute_def split: option.split)
    next
      case t: True
      then obtain t where t: "rs_Template r = Some t" "length (tp_Labels t) \<noteq> 0" "matches (tp_Labels t)" by blast
      let ?vs = "listVMIsFromNamespace (rs_Namespace r) st"
        and ?ns = "SatisfiedExpectations (ev_now env) (ut_inner (cs_expectations st)) (rs_key rs)"
      have cm: "claim_matching (ref_manager_of env r) vmi_view (cl_Patches (ev_client env) r)
          (\<lambda>v. matches (vm_Labels v)) ?vs (cs_world st) = ((filter (owned_by r) ?vs, []), cs_world st)"
        by (rule settled_claims) (use I(2) S(5) in \<open>auto simp: listVMIsFromNamespace_def ref_manager_of_def\<close>)
      have "execute env (rs_key rs) st = sync env r t ?ns (filter (owned_by r) ?vs) st"
        unfolding execute_def get option.case using True t selr as cm
        by (simp add: first_error_def Let_def)
      moreover have "news (cs_world st) = []" if ?ns
        using satisfied_no_news [OF that pr I(5)] by simp
      moreover have "leftover r st = [] \<or> 0 \<le> calcDiff r (counted r st)" using one get by (simp add: S)
      ultimately show ?thesis
        using sync_inv [OF env cl t(3) invr r(2) w _ refl] by simp
    qed
  qed
  then show ?thesis by (simp add: rs_inv_same [OF r(1)])
qed

section \<open>Another replica set's reconcile\<close>

text \<open>It leaves the caches and the expectations of all other keys alone.\<close>

definition frame :: "string \<Rightarrow> ('s, 'p, 'w) rs_state \<Rightarrow> ('s, 'p, 'w) rs_state \<Rightarrow> bool" where
  "frame key st st1 \<longleftrightarrow> cs_vmis st1 = cs_vmis st \<and> cs_sets st1 = cs_sets st \<and>
     (\<forall>k. k \<noteq> key \<longrightarrow> GetExpectations (ut_inner (cs_expectations st1)) k = GetExpectations (ut_inner (cs_expectations st)) k)"

lemma frame_refl [simp]: "frame key st st" "frame key st (st\<lparr>cs_world := w\<rparr>)"
  by (simp_all add: frame_def)

lemma frame_trans: "frame key st st1 \<Longrightarrow> frame key st1 st2 \<Longrightarrow> frame key st st2"
  by (simp add: frame_def)

lemma frame_world: "frame key st (st1\<lparr>cs_world := w\<rparr>) = frame key st st1" "frame key (st\<lparr>cs_world := w\<rparr>) st1 = frame key st st1"
  by (simp_all add: frame_def)

lemma frame_batch:
  assumes "\<And>g e st st1. g \<in> set gs \<Longrightarrow> g st = (e, st1) \<Longrightarrow> frame key st st1"
    "run_batch gs st = (es, st1)"
  shows "frame key st st1"
  using assms
proof (induction gs arbitrary: st es)
  case (Cons g gs)
  obtain e st2 where g: "g st = (e, st2)" by force
  obtain es2 where b: "run_batch gs st2 = (es2, st1)" using Cons.prems(2) g by (auto split: prod.splits)
  have "frame key st2 st1" by (rule Cons.IH [OF _ b]) (use Cons.prems(1) in auto)
  moreover have "frame key st st2" using g by (intro Cons.prems(1) [of g]) simp_all
  ultimately show ?case using frame_trans by blast
qed simp

lemma frame_delete_one: "delete_one env r v st = (e, st1) \<Longrightarrow> frame (rs_key r) st st1"
  by (auto simp: delete_one_def frame_def uid_DeletionObserved_def controller_ops_def DeletionObserved_def
      GetExpectations_Lower split: prod.splits option.splits)

lemma frame_create_one: "create_one env r t st = (e, st1) \<Longrightarrow> frame (rs_key r) st st1"
  by (auto simp: create_one_def frame_def CreationObserved_def GetExpectations_Lower Let_def
      split: prod.splits option.splits)

lemma frame_expect:
  "frame (rs_key r) st (st\<lparr>cs_expectations := uid_ExpectDeletions (controller_ops now) (rs_key r) ks (cs_expectations st)\<rparr>)"
  "frame (rs_key r) st (on_inner (ExpectCreations now (rs_key r) n) st)"
  by (simp_all add: frame_def uid_ExpectDeletions_def controller_ops_def GetExpectations_ExpectDeletions Let_def)
    (simp add: ExpectCreations_def SetExpectations_def GetExpectations_def)

lemma frame_delete_batch: "delete_batch env r vs n st = (e, st1) \<Longrightarrow> frame (rs_key r) st st1"
proof -
  assume d: "delete_batch env r vs n st = (e, st1)"
  let ?st = "st\<lparr>cs_expectations := uid_ExpectDeletions (controller_ops (ev_now env)) (rs_key r)
      (VirtualMachineInstanceKeys (take n vs)) (cs_expectations st)\<rparr>"
  from d obtain es where "run_batch (map (\<lambda>i. delete_one env r (vs ! i)) (ev_sched env n)) ?st = (es, st1)"
    by (auto simp: delete_batch_def Let_def split: prod.splits)
  then have "frame (rs_key r) ?st st1" by (rule frame_batch [rotated]) (auto dest: frame_delete_one)
  then show ?thesis using frame_expect(1) frame_trans by blast
qed

lemma frame_scale: "scale env r t vs st = (e, st1) \<Longrightarrow> frame (rs_key r) st st1"
proof -
  assume s: "scale env r t vs st = (e, st1)"
  let ?n = "batch_size env (calcDiff r vs)"
  let ?st = "on_inner (ExpectCreations (ev_now env) (rs_key r) (int ?n)) st"
  consider "calcDiff r vs = 0" | "calcDiff r vs > 0" | "calcDiff r vs < 0" by linarith
  then show ?thesis
  proof cases
    case 3
    with s obtain es where "run_batch (map (\<lambda>i. create_one env r t) (ev_sched env ?n)) ?st = (es, st1)"
      by (auto simp: scale_def Let_def split: prod.splits)
    then have "frame (rs_key r) ?st st1" by (rule frame_batch [rotated]) (auto dest: frame_create_one)
    then show ?thesis using frame_expect(2) frame_trans by blast
  qed (use s in \<open>auto simp: scale_def Let_def dest: frame_delete_batch\<close>)
qed

lemma frame_status: "updateStatus env r vs se st = (e, st1) \<Longrightarrow> frame (rs_key r) st st1"
  by (auto simp: updateStatus_def Let_def frame_world split: option.splits prod.splits if_splits)

lemma frame_sync: "frame (rs_key r) st (snd (sync env r t b vs st))"
proof -
  let ?active = "filterActiveVMIs vs" and ?fin = "filterFinishedVMIs vs @ filterUnkownVMIs vs"
  let ?scaled = "if b \<and> \<not> rs_Paused r \<and> rs_DeletionTimestamp r = None then
      (case scale env r t ?active st of
         (e, st1) \<Rightarrow> if length ?fin > 0 \<and> e = None then cleanFinishedVmis env r ?fin st1 else (e, st1))
      else (None, st)"
  obtain e st1 where s: "?scaled = (e, st1)" by force
  obtain e2 st2 where sc: "scale env r t ?active st = (e2, st2)" by force
  have "frame (rs_key r) st2 st3" if "cleanFinishedVmis env r ?fin st2 = (e3, st3)" for e3 st3
    using that by (auto simp: cleanFinishedVmis_def dest: frame_delete_batch)
  then have "frame (rs_key r) st st1"
    using s sc frame_scale [OF sc] frame_trans by (auto split: if_splits)
  moreover have "snd (sync env r t b vs st) = snd (updateStatus env r ?active e st1)"
    unfolding sync_def Let_def s by (simp split: prod.split)
  ultimately show ?thesis using frame_status frame_trans by (metis prod.collapse)
qed

lemma frame_execute: "frame key st (snd (execute env key st))"
proof (cases "GetByKey key st")
  case None
  then show ?thesis
    by (simp add: execute_def frame_def uid_DeleteExpectations_def controller_ops_def GetExpectations_Delete)
next
  case (Some r)
  then have key: "rs_key r = key" by (auto simp: GetByKey_def find_Some_iff)
  have "frame key st (snd (sync env r t b vs (st\<lparr>cs_world := w\<rparr>)))" for t b vs w
    using frame_sync [of r "st\<lparr>cs_world := w\<rparr>" env t b vs] key by (simp add: frame_world)
  then show ?thesis
    using Some by (auto simp: execute_def Let_def frame_world split: option.split prod.split)
qed

lemma rs_inv_other_execute:
  assumes inv: "rs_inv matches act news rs M B st" and f: "frame key st st1" "key \<noteq> rs_key rs"
    and w: "no_more act news (cs_world st) (cs_world st1)"
  shows "rs_inv matches act news rs M B st1"
proof -
  have e: "GetExpectations (ut_inner (cs_expectations st1)) (rs_key rs) =
      GetExpectations (ut_inner (cs_expectations st)) (rs_key rs)"
    and c: "cs_vmis st1 = cs_vmis st" "cs_sets st1 = cs_sets st" using f by (auto simp: frame_def)
  then have "in_range (rs_key rs) (cs_expectations st1) = in_range (rs_key rs) (cs_expectations st)"
    "expecting (rs_key rs) n (cs_expectations st1) = expecting (rs_key rs) n (cs_expectations st)" for n
    by (simp_all add: in_range_def expecting_def)
  with c rs_inv_server [OF inv w] show ?thesis
    by (simp add: rs_inv_def counted_def cached_set_def GetByKey_def)
qed

lemma rs_inv_sets:
  assumes inv: "rs_inv matches act news rs M B st" and "cached_set rs M (st\<lparr>cs_sets := rss\<rparr>)"
  shows "rs_inv matches act news rs M B (st\<lparr>cs_sets := rss\<rparr>)"
  using assms by (simp add: rs_inv_def counted_def)

text \<open>
  C2: A replica set never gets more active instances than the most it ever wants, or had to begin
  with: over every history of reconciles of this replica set and others, changes of the replica sets
  in the cache, the announcements of instances to the informer, changes of instances, and changes
  and failures of the API server, in any order and however late the cache is. The conditions are
  that every reconcile is one step that sees its caches as of one moment; that the replica set stays
  in the cache and keeps its name, UID and selector while the replicas it wants stay at most \<open>M\<close>;
  that no instance is to be adopted by it or released from it, and other replica sets' reconciles
  make none for it; that its expectations do not time out; and that no reconcile both creates
  instances and cleans up finished ones.
\<close>

theorem never_overshoots:
  assumes "documented_server cl act news" and "rs_Selector rs = Some s" and "sel s = Some (matches, text)"
    and "rs_Namespace rs \<noteq> []" and "M < 2 ^ 31"
    and "cached_set rs M st0" and "\<forall>v \<in> set (cs_vmis st0). settled matches rs v"
    and "news (cs_world st0) = []" and "cs_expectations st0 = NewUIDTracking NewControllerExpectations"
    and "act (cs_world st0) \<subseteq> VirtualMachineInstanceKey ` set (counted rs st0)"
    and "rs_reachable cl sel matches act news rs M st0 st"
  shows "card (act (cs_world st)) \<le> max (card (act (cs_world st0))) M"
proof -
  have fin: "finite (act (cs_world st0))" using assms(10) by (rule finite_subset) simp
  let ?B = "card (act (cs_world st0))"
  have init: "rs_inv matches act news rs M ?B st0"
    using assms(6-10) fin
    by (auto simp: rs_inv_def in_range_def GetExpectations_def NewUIDTracking_def NewControllerExpectations_def)
  have "rs_inv matches act news rs M ?B st"
    using assms(11)
  proof induction
    case rs_init
    show ?case by (rule init)
  next
    case (rs_next st st1)
    from rs_next.hyps(2) show ?case
    proof cases
      case (rs_execute env)
      with execute_inv [OF rs_execute(2) assms(1-3) rs_next.IH assms(5)] show ?thesis by simp
    next
      case (rs_other_execute key env)
      with rs_inv_other_execute [OF rs_next.IH frame_execute] show ?thesis by simp
    next
      case (rs_sets rss r)
      with rs_inv_sets [OF rs_next.IH] show ?thesis by simp
    next
      case (rs_added v vs w1 cur env)
      with rs_inv_add [OF rs_next.IH assms(4)] show ?thesis by simp
    next
      case (rs_other_added v env)
      with rs_inv_other_add [OF rs_inv_store [OF rs_next.IH]] show ?thesis by simp
    next
      case (rs_updated old cur env)
      with rs_inv_update [OF rs_inv_store [OF rs_next.IH]] show ?thesis by simp
    next
      case (rs_deleted v env)
      with rs_inv_delete [OF rs_inv_drop [OF rs_next.IH]] show ?thesis by simp
    next
      case (rs_server w1)
      with rs_inv_server [OF rs_next.IH] show ?thesis by simp
    qed
  qed
  then show ?thesis by (simp add: rs_inv_def)
qed

section \<open>The status settles\<close>

lemma hasCondition_remove: "hasCondition (removeCondition rs t) t' \<longleftrightarrow> t' \<noteq> t \<and> hasCondition rs t'"
  by (auto simp: hasCondition_def removeCondition_def list_ex_iff)

lemma hasCondition_append:
  "hasCondition (rs\<lparr>rs_Conditions := rs_Conditions rs @ [c]\<rparr>) t \<longleftrightarrow> rk_Type c = t \<or> hasCondition rs t"
  by (auto simp: hasCondition_def)

lemma checkPaused_conditions:
  "hasCondition (checkPaused now rs) ReplicaPaused = rs_Paused rs"
  "hasCondition (checkPaused now rs) ReplicaFailure = hasCondition rs ReplicaFailure"
  by (auto simp: checkPaused_def hasCondition_remove hasCondition_append ReplicaPaused_def ReplicaFailure_def)

lemma checkFailure_conditions:
  "hasCondition (checkFailure env d e rs) ReplicaFailure = (e \<noteq> None)"
  "hasCondition (checkFailure env d e rs) ReplicaPaused = hasCondition rs ReplicaPaused"
  by (auto simp: checkFailure_def hasCondition_remove hasCondition_append ReplicaPaused_def ReplicaFailure_def
      split: option.splits)

lemma check_fields:
  "rs_Replicas (checkFailure env d e (checkPaused now rs)) = rs_Replicas rs"
  "rs_ReadyReplicas (checkFailure env d e (checkPaused now rs)) = rs_ReadyReplicas rs"
  "rs_LabelSelector (checkFailure env d e (checkPaused now rs)) = rs_LabelSelector rs"
  "rs_Paused (checkFailure env d e (checkPaused now rs)) = rs_Paused rs"
  by (auto simp: checkFailure_def checkPaused_def removeCondition_def split: option.splits)

text \<open>The status a reconcile writes needs no further update for the same instances and outcome.\<close>

lemma status_settles:
  fixes rs :: "('s, 'p) replica_set"
  defines "rs1 sel vs \<equiv> rs\<lparr>rs_LabelSelector := sel, rs_Replicas := int32 (length vs),
                   rs_ReadyReplicas := int32 (length (filterReadyVMIs vs))\<rparr>"
  shows "status_matches (checkFailure env d e (checkPaused now (rs1 sel vs))) vs e sel"
  unfolding status_matches_def check_fields checkFailure_conditions checkPaused_conditions
  by (simp add: rs1_def)

section \<open>Examples\<close>

text \<open>A server that accepts every call and generates names by counting.\<close>

record small_server =
  sv_act :: "string list"
  sv_news :: "vmi list"
  sv_count :: nat

definition small_vmi :: "unit new_vmi \<Rightarrow> string \<Rightarrow> nat \<Rightarrow> vmi" where
  "small_vmi nv ns n =
     \<lparr>vm_Namespace = ns, vm_Name = nv_GenerateName nv @ nat_to_dec n, vm_UID = nat_to_dec n,
      vm_ResourceVersion = ''1'', vm_Labels = nv_Labels nv, vm_Owners = nv_Owners nv,
      vm_DeletionTimestamp = None, vm_Phase = [], vm_Conditions = []\<rparr>"

definition small_client :: "((string, string) gomap, unit, small_server) rs_client" where
  "small_client =
     \<lparr>cl_Update = \<lambda>r w. (None, w), cl_UpdateStatus = \<lambda>r w. (None, w),
      cl_Get = \<lambda>ns name w. (Inl NotFoundError, w),
      cl_Delete = \<lambda>ns name w. (None, w\<lparr>sv_act := filter (\<lambda>k. k \<noteq> ns @ ''/'' @ name) (sv_act w)\<rparr>),
      cl_Create = \<lambda>ns nv w.
        (let v = small_vmi nv ns (sv_count w)
         in (None, w\<lparr>sv_act := VirtualMachineInstanceKey v # sv_act w, sv_news := sv_news w @ [v],
                     sv_count := Suc (sv_count w)\<rparr>)),
      cl_Patches = \<lambda>rs. \<lparr>rp_AddController = \<lambda>v w. (None, w), rp_ClearOwners = \<lambda>v w. (None, w)\<rparr>\<rparr>"

abbreviation small_act :: "small_server \<Rightarrow> string set" where
  "small_act w \<equiv> set (sv_act w)"

lemma small_server_documented: "documented_server small_client small_act sv_news"
  by (auto simp: documented_server_def small_client_def no_more_def announces_def small_vmi_def Let_def)

definition small_sel :: "(string, string) gomap \<Rightarrow> (((string, string) gomap \<Rightarrow> bool) \<times> string) option" where
  "small_sel s = Some (\<lambda>ls. list_all (\<lambda>(k, v). map_of ls k = Some v) s, ''app=x'')"

definition small_env :: "go_time \<Rightarrow> ((string, string) gomap, unit, small_server) rs_env" where
  "small_env now =
     \<lparr>ev_client = small_client, ev_selector = small_sel, ev_burstReplicas = 250,
      ev_sched = \<lambda>n. [0..<n], ev_now = now, ev_error_text = \<lambda>e. ''error''\<rparr>"

definition small_rs :: "((string, string) gomap, unit) replica_set" where
  "small_rs =
     \<lparr>rs_Namespace = ''ns'', rs_Name = ''rs'', rs_UID = ''u'',
      rs_Annotations = Some [(''kubevirt.io/latest-observed-api-version'', ''v1'')],
      rs_DeletionTimestamp = None, rs_SpecReplicas = Some 1, rs_Selector = Some [(''app'', ''x'')],
      rs_Template = Some \<lparr>tp_Name = [], tp_GenerateName = [], tp_Labels = [(''app'', ''x'')], tp_Spec = ()\<rparr>,
      rs_Paused = False, rs_Replicas = 0, rs_ReadyReplicas = 0, rs_Conditions = [], rs_LabelSelector = []\<rparr>"

type_synonym small_state = "((string, string) gomap, unit, small_server) rs_state"

definition small_st0 :: small_state where
  "small_st0 =
     \<lparr>cs_vmis = [], cs_sets = [small_rs], cs_expectations = NewUIDTracking NewControllerExpectations,
      cs_queue = [], cs_world = \<lparr>sv_act = [], sv_news = [], sv_count = 0\<rparr>\<rparr>"

definition small_execute :: "small_state \<Rightarrow> small_state" where
  "small_execute st = snd (execute (small_env 0) ''ns/rs'' st)"

text \<open>The informer announces the next created instance, and the deletion of the instance \<open>v\<close>.\<close>

definition small_announce :: "small_state \<Rightarrow> small_state" where
  "small_announce st =
     (let v = hd (sv_news (cs_world st)); w1 = (cs_world st)\<lparr>sv_news := tl (sv_news (cs_world st))\<rparr>
      in addVirtualMachine (small_env 0) v (st\<lparr>cs_vmis := store v (cs_vmis st), cs_world := w1\<rparr>))"

definition small_gone :: "vmi \<Rightarrow> small_state \<Rightarrow> small_state" where
  "small_gone v st =
     deleteVirtualMachine (small_env 0) (Some v)
       (st\<lparr>cs_vmis := filter (\<lambda>u. VirtualMachineInstanceKey u \<noteq> VirtualMachineInstanceKey v) (cs_vmis st)\<rparr>)"

text \<open>An instance finishes on the server, and the informer learns it.\<close>

definition small_finish :: "small_state \<Rightarrow> small_state" where
  "small_finish st =
     (let old = hd (cs_vmis st); cur = old\<lparr>vm_Phase := ''Succeeded'', vm_ResourceVersion := ''2''\<rparr>;
          w1 = (cs_world st)\<lparr>sv_act := filter (\<lambda>k. k \<noteq> VirtualMachineInstanceKey old) (sv_act (cs_world st))\<rparr>
      in updateVirtualMachine (small_env 0) old cur (st\<lparr>cs_vmis := store cur (cs_vmis st), cs_world := w1\<rparr>))"

text \<open>Evaluation: a batch without floats, where they are exact.\<close>

definition float_batch :: "('s, 'p, 'w) rs_env \<Rightarrow> int \<Rightarrow> nat" where
  "float_batch env n = batch_size env n"

declare float_batch_def [code del]

lemma batch_size_eval [code]:
  "batch_size env n =
     (if \<bar>n\<bar> < 9007199254740992 \<and> int (ev_burstReplicas env) < 9007199254740992
      then min (nat \<bar>n\<bar>) (ev_burstReplicas env) else float_batch env n)"
  using batch_size_exact [of n env] by (simp add: float_batch_def)

lemma owned_by_eval [code]:
  "owned_by rs v = (case GetControllerOf (vm_Owners v) of None \<Rightarrow> False | Some r \<Rightarrow> or_UID r = rs_UID rs)"
  by (auto simp: owned_by_def split: option.split)

definition small_running :: small_state where
  "small_running = small_announce (small_execute small_st0)"

lemma small_env_ok: "env_ok small_client small_sel (small_env now)"
  by (simp add: env_ok_def small_env_def)

lemma small_running_news:
  "\<exists>v vs. sv_news (cs_world (small_execute small_st0)) = v # vs"
proof -
  have "sv_news (cs_world (small_execute small_st0)) \<noteq> []" by code_simp
  then show ?thesis by (simp add: neq_Nil_conv)
qed

definition matches_x :: "(string, string) gomap \<Rightarrow> bool" where
  "matches_x ls = list_all (\<lambda>(k, v). map_of ls k = Some v) [(''app'', ''x'')]"

text \<open>Then the replica set is scaled to two.\<close>

definition small_rs2 :: "((string, string) gomap, unit) replica_set" where
  "small_rs2 = small_rs\<lparr>rs_SpecReplicas := Some 2\<rparr>"

definition small_rescaled :: small_state where
  "small_rescaled = enqueueReplicaSet small_rs2 (small_running\<lparr>cs_sets := [small_rs2]\<rparr>)"

definition small_two :: small_state where
  "small_two = small_execute small_rescaled"

lemma lone_two_reachable:
  "rs_reachable small_client small_sel (\<lambda>ls. list_all (\<lambda>(k, v). map_of ls k = Some v) [(''app'', ''x'')])
     small_act sv_news small_rs 2 small_st0 small_two"
    (is "rs_reachable _ _ ?m _ _ _ _ _ _")
proof -
  have c: "prompt 0 ''ns/rs'' (cs_expectations small_st0)" "leftover small_rs small_st0 = []"
    "prompt 0 ''ns/rs'' (cs_expectations small_rescaled)" "leftover small_rs small_rescaled = []" by code_simp+
  have k: "rs_key small_rs = ''ns/rs''" "ev_now (small_env 0) = 0"
    by (simp_all add: rs_key_def small_rs_def NamespacedKey_def small_env_def)
  have one: "rs_step small_client small_sel ?m small_act sv_news small_rs 2 small_st0 (small_execute small_st0)"
    using rs_execute [of small_client small_sel "small_env 0" small_rs small_st0] small_env_ok c k
    by (simp add: small_execute_def)
  obtain v vs where n: "sv_news (cs_world (small_execute small_st0)) = v # vs"
    using small_running_news by blast
  have "counts small_rs (hd (sv_news (cs_world (small_execute small_st0)))) \<and>
      matches_x (vm_Labels (hd (sv_news (cs_world (small_execute small_st0))))) \<and>
      GetControllerOf (vm_Owners (hd (sv_news (cs_world (small_execute small_st0))))) \<noteq> None" by code_simp
  then have v: "settled ?m small_rs v" "counts small_rs v" using n by (simp_all add: settled_def matches_x_def)
  have two: "rs_step small_client small_sel ?m small_act sv_news small_rs 2 (small_execute small_st0) small_running"
    using rs_added [of sv_news "small_execute small_st0" v vs small_act
        "(cs_world (small_execute small_st0))\<lparr>sv_news := vs\<rparr>" v ?m small_rs] n v
    by (simp add: small_running_def small_announce_def Let_def)
  have "cached_set small_rs 2 (small_running\<lparr>cs_sets := [small_rs2]\<rparr>)"
    by (simp add: cached_set_def GetByKey_def small_rs2_def small_rs_def rs_key_def same_set_def wanted_def)
  then have three: "rs_step small_client small_sel ?m small_act sv_news small_rs 2 small_running small_rescaled"
    unfolding small_rescaled_def by (rule rs_sets)
  have four: "rs_step small_client small_sel ?m small_act sv_news small_rs 2 small_rescaled small_two"
    using rs_execute [of small_client small_sel "small_env 0" small_rs small_rescaled] small_env_ok c k
    by (simp add: small_execute_def small_two_def)
  show ?thesis by (rule rs_next [OF rs_next [OF rs_next [OF rs_next [OF rs_init one] two] three] four])
qed

theorem never_overshoots_witness:
  "card (small_act (cs_world small_two)) \<le> 2 \<and> sv_act (cs_world small_two) = [''ns/rs1'', ''ns/rs0'']"
proof -
  have "cached_set small_rs 2 small_st0"
    by (simp add: cached_set_def GetByKey_def small_st0_def small_rs_def rs_key_def same_set_def wanted_def)
  then have "card (small_act (cs_world small_two)) \<le> max (card (small_act (cs_world small_st0))) 2"
    using never_overshoots [OF small_server_documented _ _ _ _ _ _ _ _ _ lone_two_reachable,
        of "[(''app'', ''x'')]" "''app=x''"]
    by (simp add: small_rs_def small_sel_def small_st0_def)
  then have "card (small_act (cs_world small_two)) \<le> 2" by (simp add: small_st0_def)
  moreover have "sv_act (cs_world small_two) = [''ns/rs1'', ''ns/rs0'']" by code_simp
  ultimately show ?thesis by blast
qed

text \<open>
  The last condition is needed: an instance finishes, and one reconcile creates its replacement and
  deletes it. Expecting the deletion forgets the creation. When the deletion is observed before the
  replacement is, the next reconcile creates another one: two active instances where one is wanted.
\<close>

lemma finished_instance_overshoots:
  "let st3 = small_execute (small_finish small_running);
       st4 = small_execute (small_gone (hd (cs_vmis (small_finish small_running))) st3)
   in sv_act (cs_world st3) = [''ns/rs1''] \<and> sv_act (cs_world st4) = [''ns/rs2'', ''ns/rs1''] \<and>
      rs_SpecReplicas small_rs = Some 1"
  unfolding Let_def by code_simp

end
