(* ===== verification/Evacuation.thy ===== *)
theory Evacuation
  imports Controllers
begin

text \<open>
  The evacuation controller, \<^verbatim>\<open>pkg/virt-controller/watch/drain/evacuation/evacuation.go\<close> of KubeVirt:
  instances that are marked for eviction, or run on a node that is drained by a taint, get a
  migration. The API server is the call that creates a migration; the cluster configuration is a
  parameter. The goroutines of a batch run in the order \<open>ve_sched\<close> gives.
\<close>

section \<open>Objects\<close>

record migration_state =
  ms_StartTimestamp :: "go_time option"
  ms_EndTimestamp :: "go_time option"

record placed_vmi = vmi +
  pv_Annotations :: "(string, string) gomap"
  pv_NodeName :: string
  pv_EvacuationNodeName :: string
  pv_MigrationState :: "migration_state option"
  pv_EvictionStrategy :: "string option"

record migration =
  mg_Namespace :: string
  mg_Name :: string
  mg_Annotations :: "(string, string) gomap"
  mg_VMIName :: string
  mg_Priority :: "string option"
  mg_Phase :: string

record pod =
  pd_Namespace :: string
  pd_Phase :: string
  pd_Owners :: "owner_ref list"

record taint =
  ta_Key :: string
  ta_Effect :: string

record node =
  no_Name :: string
  no_Taints :: "taint list"

definition EvacuationMigrationAnnotation :: string where
  "EvacuationMigrationAnnotation = ''kubevirt.io/evacuationMigration''"

definition migration_IsFinal :: "'a migration_scheme \<Rightarrow> bool" where
  "migration_IsFinal m \<longleftrightarrow> mg_Phase m = ''Failed'' \<or> mg_Phase m = ''Succeeded''"

definition IsMarkedForEviction :: "placed_vmi \<Rightarrow> bool" where
  "IsMarkedForEviction v \<longleftrightarrow> pv_EvacuationNodeName v \<noteq> []"

definition IsMigratable :: "'a placed_vmi_scheme \<Rightarrow> bool" where
  "IsMigratable v = list_ex (\<lambda>c. vc_Type c = ''LiveMigratable'' \<and> vc_Status c = ''True'') (vm_Conditions v)"

definition MatchTaint :: "taint \<Rightarrow> taint \<Rightarrow> bool" where
  "MatchTaint t u \<longleftrightarrow> ta_Key t = ta_Key u \<and> ta_Effect t = ta_Effect u"

definition IsControlledBy :: "owner_ref list \<Rightarrow> string \<Rightarrow> bool" where
  "IsControlledBy refs uid = (case GetControllerOf refs of None \<Rightarrow> False | Some r \<Rightarrow> or_UID r = uid)"

text \<open>Whether an instance is migrating, by the clock.\<close>

definition IsMigrating :: "go_time \<Rightarrow> 'a placed_vmi_scheme \<Rightarrow> bool" where
  "IsMigrating now v =
     (case pv_MigrationState v of
        None \<Rightarrow> False
      | Some s \<Rightarrow>
          (let running = (case ms_StartTimestamp s of None \<Rightarrow> False | Some t \<Rightarrow> now > t \<or> now = t)
           in case ms_EndTimestamp s of
                None \<Rightarrow> running
              | Some t \<Rightarrow> if now > t \<or> now = t then False else running))"

section \<open>State and environment\<close>

record 'w evac_env =
  ve_Create :: "string \<Rightarrow> migration \<Rightarrow> 'w \<Rightarrow> client_error option \<times> 'w"
  ve_NodeDrainTaintKey :: string
  ve_EvictionStrategy :: "string option"
  ve_sched :: "nat \<Rightarrow> nat list"
  ve_now :: go_time

record 'w evac_state =
  es_vmis :: "placed_vmi list"
  es_migrations :: "migration list"
  es_pods :: "pod list"
  es_nodes :: "node list"
  es_expectations :: "expectations uid_tracking"
  es_queue :: "string list"
  es_world :: 'w

definition observe_creation :: "string \<Rightarrow> 'w evac_state \<Rightarrow> 'w evac_state" where
  "observe_creation key st =
     st\<lparr>es_expectations := (es_expectations st)\<lparr>ut_inner := CreationObserved key (ut_inner (es_expectations st))\<rparr>\<rparr>"

definition expect_creations :: "go_time \<Rightarrow> string \<Rightarrow> nat \<Rightarrow> 'w evac_state \<Rightarrow> 'w evac_state" where
  "expect_creations now key n st =
     st\<lparr>es_expectations := (es_expectations st)\<lparr>ut_inner := ExpectCreations now key (int n) (ut_inner (es_expectations st))\<rparr>\<rparr>"

section \<open>The handlers of the informers\<close>

definition evac_enqueue :: "string \<Rightarrow> 'w evac_state \<Rightarrow> 'w evac_state" where
  "evac_enqueue node st = (if node \<noteq> [] then st\<lparr>es_queue := es_queue st @ [node]\<rparr> else st)"

definition enqueueNode :: "node \<Rightarrow> 'w evac_state \<Rightarrow> 'w evac_state" where
  "enqueueNode n st = st\<lparr>es_queue := es_queue st @ [no_Name n]\<rparr>"

text \<open>An object or a tombstone of one; anything else is \<open>None\<close>.\<close>

definition nodeFromVMI :: "placed_vmi option \<Rightarrow> string" where
  "nodeFromVMI obj = (case obj of None \<Rightarrow> [] | Some v \<Rightarrow> pv_NodeName v)"

definition enqueueVMI :: "placed_vmi option \<Rightarrow> 'w evac_state \<Rightarrow> 'w evac_state" where
  "enqueueVMI obj st =
     (case obj of None \<Rightarrow> st | Some v \<Rightarrow> evac_enqueue (nodeFromVMI (Some v)) st)"

definition vmi_GetByKey :: "string \<Rightarrow> 'w evac_state \<Rightarrow> placed_vmi option" where
  "vmi_GetByKey key st = find (\<lambda>v. VirtualMachineInstanceKey v = key) (es_vmis st)"

definition addMigration :: "migration \<Rightarrow> 'w evac_state \<Rightarrow> 'w evac_state" where
  "addMigration m st =
     (case map_of (mg_Annotations m) EvacuationMigrationAnnotation of
        Some key \<Rightarrow> evac_enqueue key (observe_creation key st)
      | None \<Rightarrow>
          (case vmi_GetByKey (NamespacedKey (mg_Namespace m) (mg_VMIName m)) st of
             Some v \<Rightarrow> evac_enqueue (nodeFromVMI (Some v)) st
           | None \<Rightarrow> st))"

definition enqueueMigration :: "migration option \<Rightarrow> 'w evac_state \<Rightarrow> 'w evac_state" where
  "enqueueMigration obj st =
     (case obj of
        None \<Rightarrow> st
      | Some m \<Rightarrow>
          (case vmi_GetByKey (NamespacedKey (mg_Namespace m) (mg_VMIName m)) st of
             Some v \<Rightarrow> enqueueVMI (Some v) st
           | None \<Rightarrow> st))"

section \<open>Whom to migrate\<close>

definition hasMigratedOnEviction :: "placed_vmi \<Rightarrow> bool" where
  "hasMigratedOnEviction v \<longleftrightarrow> pv_NodeName v \<noteq> pv_EvacuationNodeName v"

definition getMarkedForEvictionVMIs :: "go_time \<Rightarrow> placed_vmi list \<Rightarrow> placed_vmi list" where
  "getMarkedForEvictionVMIs now vs =
     filter (\<lambda>v. IsMarkedForEviction v \<and> \<not> hasMigratedOnEviction v \<and> \<not> IsMigrating now v) vs"

definition nodeHasTaint :: "taint \<Rightarrow> node \<Rightarrow> bool" where
  "nodeHasTaint t n = list_ex (\<lambda>u. MatchTaint u t) (no_Taints n)"

definition vmisToMigrate :: "go_time \<Rightarrow> node \<Rightarrow> placed_vmi list \<Rightarrow> taint \<Rightarrow> placed_vmi list" where
  "vmisToMigrate now n vs t =
     (if nodeHasTaint t n then vs
      else (let evicted = getMarkedForEvictionVMIs now vs in if length evicted > 0 then evicted else []))"

definition VMIEvictionStrategy :: "'w evac_env \<Rightarrow> placed_vmi \<Rightarrow> string option" where
  "VMIEvictionStrategy env v =
     (if pv_EvictionStrategy v \<noteq> None then pv_EvictionStrategy v else ve_EvictionStrategy env)"

definition VMIMigratableOnEviction :: "'w evac_env \<Rightarrow> placed_vmi \<Rightarrow> bool" where
  "VMIMigratableOnEviction env v =
     (case VMIEvictionStrategy env v of
        None \<Rightarrow> False
      | Some s \<Rightarrow> if s = ''LiveMigrate'' then True
                   else if s = ''LiveMigrateIfPossible'' then IsMigratable v else False)"

definition VMIActivePodsCount :: "placed_vmi \<Rightarrow> 'w evac_state \<Rightarrow> nat" where
  "VMIActivePodsCount v st =
     length (filter (\<lambda>p. \<not> (pd_Phase p = ''Succeeded'' \<or> pd_Phase p = ''Failed'') \<and>
                         IsControlledBy (pd_Owners p) (vm_UID v))
       (filter (\<lambda>p. pd_Namespace p = vm_Namespace v) (es_pods st)))"

text \<open>The instances to migrate now, and those that cannot be.\<close>

fun filter_running ::
  "'w evac_env \<Rightarrow> 'w evac_state \<Rightarrow> string set \<Rightarrow> placed_vmi list \<Rightarrow> placed_vmi list \<times> placed_vmi list" where
  "filter_running env st lookup [] = ([], [])"
| "filter_running env st lookup (v # vs) =
     (case filter_running env st lookup vs of (migrateable, nonMigrateable) \<Rightarrow>
        if IsFinal v \<or> vm_DeletionTimestamp v \<noteq> None then (migrateable, nonMigrateable)
        else if \<not> VMIMigratableOnEviction env v then (migrateable, nonMigrateable)
        else if \<not> HasConditionWithStatus v ''LiveMigratable'' ''True'' then (migrateable, v # nonMigrateable)
        else if vm_Namespace v @ ''/'' @ vm_Name v \<in> lookup then (migrateable, nonMigrateable)
        else if VMIActivePodsCount v st > 1 then (migrateable, nonMigrateable)
        else (v # migrateable, nonMigrateable))"

definition filterRunningNonMigratingVMIs ::
  "'w evac_env \<Rightarrow> 'w evac_state \<Rightarrow> placed_vmi list \<Rightarrow> migration list \<Rightarrow> placed_vmi list \<times> placed_vmi list" where
  "filterRunningNonMigratingVMIs env st vs ms =
     filter_running env st (set (map (\<lambda>m. mg_Namespace m @ ''/'' @ mg_VMIName m) ms)) vs"

definition ListUnfinishedMigrations :: "'w evac_state \<Rightarrow> migration list" where
  "ListUnfinishedMigrations st = filter (\<lambda>m. \<not> migration_IsFinal m) (es_migrations st)"

definition listVMIsOnNode :: "string \<Rightarrow> 'w evac_state \<Rightarrow> placed_vmi list" where
  "listVMIsOnNode node st = filter (\<lambda>v. pv_NodeName v = node) (es_vmis st)"

section \<open>A reconcile\<close>

definition GenerateNewMigration :: "placed_vmi \<Rightarrow> string \<Rightarrow> migration" where
  "GenerateNewMigration v key =
     \<lparr>mg_Namespace = [], mg_Name = [], mg_Annotations = [(EvacuationMigrationAnnotation, key)],
      mg_VMIName = vm_Name v,
      mg_Priority = Some (if map_of (pv_Annotations v) ''kubevirt.io/eviction-source'' = Some ''descheduler''
                          then ''system-maintenance'' else ''system-critical''),
      mg_Phase = []\<rparr>"

definition migrate_one ::
  "'w evac_env \<Rightarrow> node \<Rightarrow> placed_vmi \<Rightarrow> 'w evac_state \<Rightarrow> client_error option \<times> 'w evac_state" where
  "migrate_one env n v st =
     (case ve_Create env (vm_Namespace v) (GenerateNewMigration v (no_Name n)) (es_world st) of
        (Some e, w) \<Rightarrow> (Some e, observe_creation (no_Name n) (st\<lparr>es_world := w\<rparr>))
      | (None, w) \<Rightarrow> (None, st\<lparr>es_world := w\<rparr>))"

definition evac_sync ::
  "'w evac_env \<Rightarrow> node \<Rightarrow> placed_vmi list \<Rightarrow> migration list \<Rightarrow> 'w evac_state \<Rightarrow>
     client_error option \<times> 'w evac_state" where
  "evac_sync env n vs ms st =
     (let toMigrate = vmisToMigrate (ve_now env) n vs
                        \<lparr>ta_Key = ve_NodeDrainTaintKey env, ta_Effect = ''NoSchedule''\<rparr> in
      if length toMigrate = 0 then (None, st)
      else
        (case filterRunningNonMigratingVMIs env st toMigrate ms of (candidates, nonMigrateable) \<Rightarrow>
           if length candidates = 0 \<and> length nonMigrateable = 0 then (None, st)
           else
             (let actualSpots = length candidates;
                  st1 = expect_creations (ve_now env) (no_Name n) actualSpots st
              in case run_batch (map (\<lambda>i. migrate_one env n (candidates ! i)) (ve_sched env actualSpots)) st1 of
                   (es, st2) \<Rightarrow> (first_error es, st2))))"

definition evac_execute ::
  "'w evac_env \<Rightarrow> string \<Rightarrow> 'w evac_state \<Rightarrow> client_error option \<times> 'w evac_state" where
  "evac_execute env key st =
     (case find (\<lambda>n. no_Name n = key) (es_nodes st) of
        None \<Rightarrow>
          (None, st\<lparr>es_expectations :=
             uid_DeleteExpectations (controller_ops (ve_now env)) key (es_expectations st)\<rparr>)
      | Some n \<Rightarrow>
          if \<not> SatisfiedExpectations (ve_now env) (ut_inner (es_expectations st)) key then (None, st)
          else evac_sync env n (listVMIsOnNode (no_Name n) st) (ListUnfinishedMigrations st) st)"

definition evac_Execute :: "'w evac_env \<Rightarrow> string \<Rightarrow> 'w evac_state \<Rightarrow> requeue \<times> 'w evac_state" where
  "evac_Execute env key st = settle_key key (evac_execute env key st)"

end
