(* ===== verification/EvacuationCorrect.thy ===== *)
theory EvacuationCorrect
  imports Evacuation "HOL-Library.Multiset"
begin

text \<open>
  An instance has at most one unfinished migration of the evacuation controller at any time: the
  histories of reconciles, informer events and changes on the server, and their invariant, which
  says where the unfinished migrations of the server are known.
\<close>

section \<open>A server, seen from the controller\<close>

text \<open>The key of the instance a migration is for, and a migration as the server lists it.\<close>

definition mg_vmi :: "migration \<Rightarrow> string" where
  "mg_vmi m = mg_Namespace m @ ''/'' @ mg_VMIName m"

definition mg_key :: "migration \<Rightarrow> string" where
  "mg_key m = mg_Namespace m @ ''/'' @ mg_Name m"

definition mg_entry :: "migration \<Rightarrow> string \<times> string" where
  "mg_entry m = (mg_key m, mg_vmi m)"

definition evac_node :: "migration \<Rightarrow> string option" where
  "evac_node m = map_of (mg_Annotations m) EvacuationMigrationAnnotation"

text \<open>
  \<open>act w\<close> are the unfinished migrations the controller created, as pairs of their key and the key of
  the instance; \<open>news w\<close> those of which the informer has not been told. Creating fails, or adds a
  migration that is new and its announcement.
\<close>

definition no_more_migrations ::
  "('w \<Rightarrow> (string \<times> string) set) \<Rightarrow> ('w \<Rightarrow> migration list) \<Rightarrow> 'w \<Rightarrow> 'w \<Rightarrow> bool" where
  "no_more_migrations act news w w1 \<longleftrightarrow> act w1 \<subseteq> act w \<and> news w1 = news w"

definition migration_server ::
  "(string \<Rightarrow> migration \<Rightarrow> 'w \<Rightarrow> client_error option \<times> 'w) \<Rightarrow> ('w \<Rightarrow> (string \<times> string) set) \<Rightarrow>
     ('w \<Rightarrow> migration list) \<Rightarrow> bool" where
  "migration_server create act news \<longleftrightarrow>
     (\<forall>ns m w. (case create ns m w of
        (Some _, w1) \<Rightarrow> no_more_migrations act news w w1
      | (None, w1) \<Rightarrow>
          \<exists>name. let m1 = m\<lparr>mg_Namespace := ns, mg_Name := name\<rparr>
                 in mg_key m1 \<notin> fst ` act w \<union> mg_key ` set (news w) \<and> news w1 = news w @ [m1] \<and>
                    act w1 \<subseteq> insert (mg_entry m1) (act w)))"

section \<open>Histories\<close>

definition store_migration :: "migration \<Rightarrow> migration list \<Rightarrow> migration list" where
  "store_migration m ms = m # filter (\<lambda>u. mg_key u \<noteq> mg_key m) ms"

text \<open>
  The cached instances may change in any way, except that an instance does not move to another node
  while a migration of it is unannounced: it is the migration that moves it, and the controller that
  carries it out learns of it from the same informer.

  A reconcile is one step: it reads the caches at one moment, and reconciles of other nodes, which
  the code runs in other workers, come before or after it. A node that is not in the cache is not
  reconciled while a migration made for it is unannounced, because that drops its expectations;
  \<open>readded_node_migrates_twice\<close> shows what happens otherwise.
\<close>

definition stays :: "migration list \<Rightarrow> placed_vmi list \<Rightarrow> bool" where
  "stays news vs \<longleftrightarrow>
     (\<forall>m \<in> set news. \<forall>v \<in> set vs. VirtualMachineInstanceKey v = mg_vmi m \<longrightarrow> evac_node m = Some (pv_NodeName v))"

definition evac_env_ok ::
  "(string \<Rightarrow> migration \<Rightarrow> 'w \<Rightarrow> client_error option \<times> 'w) \<Rightarrow> 'w evac_env \<Rightarrow> bool" where
  "evac_env_ok create env \<longleftrightarrow> ve_Create env = create \<and>
     (\<forall>n. distinct (ve_sched env n) \<and> set (ve_sched env n) = {..<n})"

inductive evac_step for create act news where
  evac_reconcile: "evac_env_ok create env \<Longrightarrow> prompt (ve_now env) key (es_expectations st) \<Longrightarrow>
    key \<in> no_Name ` set (es_nodes st) \<or> Some key \<notin> evac_node ` set (news (es_world st)) \<Longrightarrow>
    length (es_vmis st) < 2 ^ 31 \<Longrightarrow>
    evac_step create act news st (snd (evac_execute env key st))"
| evac_announced: "news (es_world st) = m # ms \<Longrightarrow> act w1 = act (es_world st) \<Longrightarrow> news w1 = ms \<Longrightarrow>
    evac_step create act news st
      (addMigration m (st\<lparr>es_migrations := store_migration m (es_migrations st), es_world := w1\<rparr>))"
| evac_other_added: "evac_node m = None \<Longrightarrow> mg_key m \<notin> fst ` act (es_world st) \<Longrightarrow>
    evac_step create act news st
      (addMigration m (st\<lparr>es_migrations := store_migration m (es_migrations st)\<rparr>))"
| evac_updated: "mg_key m \<notin> fst ` act (es_world st) \<or> mg_entry m \<in> act (es_world st) \<and> \<not> migration_IsFinal m \<Longrightarrow>
    evac_step create act news st
      (enqueueMigration (Some m) (st\<lparr>es_migrations := store_migration m (es_migrations st)\<rparr>))"
| evac_removed: "mg_key m \<notin> fst ` act (es_world st) \<Longrightarrow>
    evac_step create act news st
      (enqueueMigration (Some m) (st\<lparr>es_migrations := filter (\<lambda>u. mg_key u \<noteq> mg_key m) (es_migrations st)\<rparr>))"
| evac_vmis: "distinct (map VirtualMachineInstanceKey vs) \<Longrightarrow> stays (news (es_world st)) vs \<Longrightarrow>
    evac_step create act news st (enqueueVMI ob (st\<lparr>es_vmis := vs\<rparr>))"
| evac_nodes: "evac_step create act news st (enqueueNode n (st\<lparr>es_nodes := ns\<rparr>))"
| evac_pods: "evac_step create act news st (st\<lparr>es_pods := ps\<rparr>)"
| evac_server: "no_more_migrations act news (es_world st) w1 \<Longrightarrow>
    evac_step create act news st (st\<lparr>es_world := w1\<rparr>)"

inductive evac_reachable for create act news st0 where
  evac_init: "evac_reachable create act news st0 st0"
| evac_next: "evac_reachable create act news st0 st \<Longrightarrow> evac_step create act news st st1 \<Longrightarrow>
    evac_reachable create act news st0 st1"

section \<open>The invariant\<close>

definition unseen :: "string \<Rightarrow> migration list \<Rightarrow> nat" where
  "unseen N ms = length (filter (\<lambda>m. evac_node m = Some N) ms)"

definition known :: "('w \<Rightarrow> migration list) \<Rightarrow> 'w evac_state \<Rightarrow> (string \<times> string) set" where
  "known news st = mg_entry ` set (news (es_world st)) \<union>
     mg_entry ` {m \<in> set (es_migrations st). \<not> migration_IsFinal m}"

definition evac_inv ::
  "('w \<Rightarrow> (string \<times> string) set) \<Rightarrow> ('w \<Rightarrow> migration list) \<Rightarrow> 'w evac_state \<Rightarrow> bool" where
  "evac_inv act news st \<longleftrightarrow>
     act (es_world st) \<subseteq> known news st \<and> inj_on fst (act (es_world st)) \<and> inj_on snd (act (es_world st)) \<and>
     (\<forall>m \<in> set (news (es_world st)). \<not> migration_IsFinal m \<and> evac_node m \<noteq> None \<and>
        (mg_key m \<in> fst ` act (es_world st) \<longrightarrow> mg_entry m \<in> act (es_world st))) \<and>
     stays (news (es_world st)) (es_vmis st) \<and> distinct (map VirtualMachineInstanceKey (es_vmis st)) \<and>
     (\<forall>N. in_range N (es_expectations st) \<and> expecting N (unseen N (news (es_world st))) (es_expectations st))"

lemma evac_invD:
  assumes "evac_inv act news st"
  shows "act (es_world st) \<subseteq> known news st" "inj_on fst (act (es_world st))" "inj_on snd (act (es_world st))"
    "\<And>m. m \<in> set (news (es_world st)) \<Longrightarrow> \<not> migration_IsFinal m \<and> evac_node m \<noteq> None \<and>
        (mg_key m \<in> fst ` act (es_world st) \<longrightarrow> mg_entry m \<in> act (es_world st))"
    "stays (news (es_world st)) (es_vmis st)" "distinct (map VirtualMachineInstanceKey (es_vmis st))"
    "\<And>N. in_range N (es_expectations st)"
    "\<And>N. expecting N (unseen N (news (es_world st))) (es_expectations st)"
  using assms unfolding evac_inv_def by blast+

lemma unseen_simps [simp]:
  "unseen N [] = 0" "unseen N (m # ms) = (if evac_node m = Some N then Suc (unseen N ms) else unseen N ms)"
  "unseen N (ms @ [m]) = (if evac_node m = Some N then Suc (unseen N ms) else unseen N ms)"
  by (simp_all add: unseen_def)

text \<open>What is queued does not matter.\<close>

lemma enqueue_evac_fields [simp]:
  "es_world (evac_enqueue n st) = es_world st" "es_vmis (evac_enqueue n st) = es_vmis st"
  "es_migrations (evac_enqueue n st) = es_migrations st" "es_expectations (evac_enqueue n st) = es_expectations st"
  by (simp_all add: evac_enqueue_def)

lemma evac_inv_enqueue [simp]: "evac_inv act news (evac_enqueue n st) = evac_inv act news st"
  by (simp add: evac_inv_def known_def)

lemma evac_inv_enqueueVMI [simp]: "evac_inv act news (enqueueVMI ob st) = evac_inv act news st"
  by (simp add: enqueueVMI_def split: option.split)

lemma evac_inv_enqueueMigration [simp]: "evac_inv act news (enqueueMigration ob st) = evac_inv act news st"
  by (simp add: enqueueMigration_def split: option.split)

lemma evac_inv_enqueueNode [simp]: "evac_inv act news (enqueueNode n st) = evac_inv act news st"
  by (simp add: enqueueNode_def evac_inv_def known_def)

text \<open>A cached migration changes: those of the server stay known.\<close>

lemma known_store:
  assumes "act (es_world st) \<subseteq> known news st" "inj_on fst (act (es_world st))"
    and "mg_key m \<notin> fst ` act (es_world st) \<or> mg_entry m \<in> act (es_world st) \<and> \<not> migration_IsFinal m"
  shows "act (es_world st) \<subseteq> known news (st\<lparr>es_migrations := store_migration m (es_migrations st)\<rparr>)"
proof
  fix e assume e: "e \<in> act (es_world st)"
  show "e \<in> known news (st\<lparr>es_migrations := store_migration m (es_migrations st)\<rparr>)"
  proof (cases "fst e = mg_key m")
    case True
    with assms(3) e have "mg_entry m \<in> act (es_world st)" "\<not> migration_IsFinal m" by force+
    moreover from this True have "e = mg_entry m"
      using inj_onD [OF assms(2) _ e, of "mg_entry m"] by (simp add: mg_entry_def)
    ultimately show ?thesis by (auto simp: known_def store_migration_def)
  next
    case False
    with assms(1) e show ?thesis by (auto simp: known_def store_migration_def mg_entry_def)
  qed
qed

lemma evac_inv_store:
  assumes "evac_inv act news st"
    and "mg_key m \<notin> fst ` act (es_world st) \<or> mg_entry m \<in> act (es_world st) \<and> \<not> migration_IsFinal m"
  shows "evac_inv act news (st\<lparr>es_migrations := store_migration m (es_migrations st)\<rparr>)"
  using known_store [where act = act, OF evac_invD(1,2) [OF assms(1)] assms(2)] assms(1) by (simp add: evac_inv_def)

lemma evac_inv_remove:
  assumes inv: "evac_inv act news st" and "mg_key m \<notin> fst ` act (es_world st)"
  shows "evac_inv act news (st\<lparr>es_migrations := filter (\<lambda>u. mg_key u \<noteq> mg_key m) (es_migrations st)\<rparr>)"
proof -
  have "act (es_world st) \<subseteq> known news (st\<lparr>es_migrations := filter (\<lambda>u. mg_key u \<noteq> mg_key m) (es_migrations st)\<rparr>)"
    using evac_invD(1) [OF inv] assms(2) by (force simp: known_def mg_entry_def)
  with inv show ?thesis by (simp add: evac_inv_def)
qed

lemma evac_inv_server:
  assumes inv: "evac_inv act news st" and nm: "no_more_migrations act news (es_world st) w1"
  shows "evac_inv act news (st\<lparr>es_world := w1\<rparr>)"
proof -
  note I = evac_invD [OF inv]
  have sub: "act w1 \<subseteq> act (es_world st)" and n: "news w1 = news (es_world st)"
    using nm by (simp_all add: no_more_migrations_def)
  have "mg_entry m \<in> act w1" if "m \<in> set (news w1)" "mg_key m \<in> fst ` act w1" for m
  proof -
    from that(2) obtain e where e: "e \<in> act w1" "fst e = mg_key m" by force
    then have "mg_entry m \<in> act (es_world st)" using I(4) that(1) n sub by force
    with e sub have "e = mg_entry m" using inj_onD [OF I(2), of e "mg_entry m"] by (auto simp: mg_entry_def)
    with e show ?thesis by simp
  qed
  moreover have "act w1 \<subseteq> known news (st\<lparr>es_world := w1\<rparr>)" using I(1) sub n by (auto simp: known_def)
  ultimately show ?thesis
    using I n inj_on_subset [OF I(2) sub] inj_on_subset [OF I(3) sub] by (simp add: evac_inv_def)
qed

text \<open>Observing a creation, when one under this node is announced or has failed.\<close>

lemma observe_fields [simp]:
  "es_world (observe_creation n st) = es_world st" "es_vmis (observe_creation n st) = es_vmis st"
  "es_migrations (observe_creation n st) = es_migrations st" "es_nodes (observe_creation n st) = es_nodes st"
  by (simp_all add: observe_creation_def)

lemma observe_expecting:
  assumes "in_range N (es_expectations st)" "expecting N (Suc n) (es_expectations st)"
  shows "in_range N (es_expectations (observe_creation N st))" "expecting N n (es_expectations (observe_creation N st))"
  using CreationObserved_adds [OF assms] by (simp_all add: observe_creation_def)

lemma observe_other:
  "N' \<noteq> N \<Longrightarrow> in_range N (es_expectations (observe_creation N' st)) = in_range N (es_expectations st)"
  "N' \<noteq> N \<Longrightarrow> expecting N n (es_expectations (observe_creation N' st)) = expecting N n (es_expectations st)"
  by (simp_all add: observe_creation_def CreationObserved_other)

lemma evac_inv_announced:
  assumes inv: "evac_inv act news st"
    and n: "news (es_world st) = m # ms" "act w1 = act (es_world st)" "news w1 = ms"
  shows "evac_inv act news (addMigration m (st\<lparr>es_migrations := store_migration m (es_migrations st), es_world := w1\<rparr>))"
proof -
  note I = evac_invD [OF inv]
  from I(4) [of m] n(1) obtain N where N: "evac_node m = Some N" and fin: "\<not> migration_IsFinal m"
    and key: "mg_key m \<notin> fst ` act (es_world st) \<or> mg_entry m \<in> act (es_world st)"
    by auto
  let ?st = "st\<lparr>es_migrations := store_migration m (es_migrations st), es_world := w1\<rparr>"
  have add: "addMigration m ?st = evac_enqueue N (observe_creation N ?st)"
    using N by (simp add: addMigration_def evac_node_def)
  have "act (es_world st) \<subseteq> known news (st\<lparr>es_migrations := store_migration m (es_migrations st)\<rparr>)"
    using known_store [where act = act, OF I(1,2)] key fin by blast
  then have "act w1 \<subseteq> known news ?st"
    using n fin by (auto simp: known_def store_migration_def)
  moreover have "in_range M (es_expectations (observe_creation N ?st)) \<and>
      expecting M (unseen M ms) (es_expectations (observe_creation N ?st))" for M
    using observe_expecting [of N ?st "unseen N ms"] observe_other [where st = ?st, of N M] I(7,8) [of M] n N
    by (cases "M = N") simp_all
  ultimately show ?thesis
    using I n unfolding add by (simp add: evac_inv_def known_def stays_def)
qed

lemma evac_inv_other:
  assumes "evac_inv act news st" "evac_node m = None" "mg_key m \<notin> fst ` act (es_world st)"
  shows "evac_inv act news (addMigration m (st\<lparr>es_migrations := store_migration m (es_migrations st)\<rparr>))"
  using evac_inv_store [of act news st m] assms
  by (simp add: addMigration_def evac_node_def split: option.split)

section \<open>A reconcile keeps the invariant\<close>

lemma create_migration_laws:
  assumes "migration_server create act news" "create ns m w = (r, w1)"
  shows "r \<noteq> None \<Longrightarrow> no_more_migrations act news w w1"
    and "r = None \<Longrightarrow> \<exists>m1. mg_VMIName m1 = mg_VMIName m \<and> mg_Namespace m1 = ns \<and> mg_Phase m1 = mg_Phase m \<and>
       mg_Annotations m1 = mg_Annotations m \<and> mg_key m1 \<notin> fst ` act w \<union> mg_key ` set (news w) \<and> news w1 = news w @ [m1] \<and>
       act w1 \<subseteq> insert (mg_entry m1) (act w)"
proof -
  have law: "case create ns m w of
        (Some _, w1) \<Rightarrow> no_more_migrations act news w w1
      | (None, w1) \<Rightarrow>
          \<exists>name. let m1 = m\<lparr>mg_Namespace := ns, mg_Name := name\<rparr>
                 in mg_key m1 \<notin> fst ` act w \<union> mg_key ` set (news w) \<and> news w1 = news w @ [m1] \<and>
                    act w1 \<subseteq> insert (mg_entry m1) (act w)"
    using assms(1) [unfolded migration_server_def, THEN spec [of _ ns], THEN spec [of _ m],
        THEN spec [of _ w]] .
  then show "r \<noteq> None \<Longrightarrow> no_more_migrations act news w w1" using assms(2) by auto
  assume "r = None"
  with law assms(2) obtain name where "let m1 = m\<lparr>mg_Namespace := ns, mg_Name := name\<rparr>
                 in mg_key m1 \<notin> fst ` act w \<union> mg_key ` set (news w) \<and> news w1 = news w @ [m1] \<and>
                    act w1 \<subseteq> insert (mg_entry m1) (act w)" by auto
  then show "\<exists>m1. mg_VMIName m1 = mg_VMIName m \<and> mg_Namespace m1 = ns \<and> mg_Phase m1 = mg_Phase m \<and>
       mg_Annotations m1 = mg_Annotations m \<and> mg_key m1 \<notin> fst ` act w \<union> mg_key ` set (news w) \<and> news w1 = news w @ [m1] \<and>
       act w1 \<subseteq> insert (mg_entry m1) (act w)"
    by (intro exI [of _ "m\<lparr>mg_Namespace := ns, mg_Name := name\<rparr>"]) (simp add: Let_def)
qed

text \<open>
  In the middle of a batch for the node \<open>n\<close>: the instances \<open>vs\<close> that are still to be migrated have no
  unfinished migration, and their creations are expected.
\<close>

definition migrating_next where
  "migrating_next act news n vs st \<longleftrightarrow>
     evac_inv act news st \<and> distinct (map VirtualMachineInstanceKey vs) \<and>
     (\<forall>v \<in> set vs. v \<in> set (es_vmis st) \<and> pv_NodeName v = no_Name n \<and>
        VirtualMachineInstanceKey v \<notin> snd ` act (es_world st)) \<and>
     expecting (no_Name n) (unseen (no_Name n) (news (es_world st)) + length vs) (es_expectations st)"

lemma migrate_one_fails:
  assumes nx: "migrating_next act news n (v # vs) st" and nm: "no_more_migrations act news (es_world st) w"
  shows "migrating_next act news n vs (observe_creation (no_Name n) (st\<lparr>es_world := w\<rparr>))"
proof -
  let ?st = "st\<lparr>es_world := w\<rparr>"
  have inv: "evac_inv act news ?st" using nx nm evac_inv_server by (auto simp: migrating_next_def)
  note I = evac_invD [OF inv]
  have news: "news w = news (es_world st)" "act w \<subseteq> act (es_world st)" using nm by (simp_all add: no_more_migrations_def)
  have ex: "expecting (no_Name n) (Suc (unseen (no_Name n) (news w) + length vs)) (es_expectations ?st)"
    using nx news by (simp add: migrating_next_def)
  note obs = observe_expecting [of "no_Name n" ?st, OF I(7) ex]
  have "in_range M (es_expectations (observe_creation (no_Name n) ?st)) \<and>
      expecting M (unseen M (news w)) (es_expectations (observe_creation (no_Name n) ?st))" for M
    using obs(1) expecting_mono [OF obs(2)] observe_other [where st = ?st, of "no_Name n" M] I(7,8) [of M]
    by (cases "M = no_Name n") simp_all
  then have "evac_inv act news (observe_creation (no_Name n) ?st)"
    using inv by (simp add: evac_inv_def known_def)
  moreover have "VirtualMachineInstanceKey u \<notin> snd ` act w" if "u \<in> set vs" for u
    using that nx subsetD [OF image_mono [OF news(2), of snd]] unfolding migrating_next_def by (meson list.set_intros(2))
  ultimately show ?thesis using nx obs(2) news(1) by (simp add: migrating_next_def)
qed

lemma migrate_one_creates:
  assumes nx: "migrating_next act news n (v # vs) st"
    and m: "mg_vmi m = VirtualMachineInstanceKey v" "\<not> migration_IsFinal m" "evac_node m = Some (no_Name n)"
      "mg_key m \<notin> fst ` act (es_world st) \<union> mg_key ` set (news (es_world st))"
    and w: "news w = news (es_world st) @ [m]" "act w \<subseteq> insert (mg_entry m) (act (es_world st))"
  shows "migrating_next act news n vs (st\<lparr>es_world := w\<rparr>)"
proof -
  have inv: "evac_inv act news st" using nx by (simp add: migrating_next_def)
  note I = evac_invD [OF inv]
  let ?act = "insert (mg_entry m) (act (es_world st))"
  have v: "v \<in> set (es_vmis st)" "pv_NodeName v = no_Name n"
    "VirtualMachineInstanceKey v \<notin> snd ` act (es_world st)"
    using nx by (simp_all add: migrating_next_def)
  have ex: "expecting (no_Name n) (unseen (no_Name n) (news w) + length vs) (es_expectations st)"
    using nx m(3) w(1) by (simp add: migrating_next_def)
  have "inj_on fst ?act" using I(2) m(4) by (auto simp: mg_entry_def)
  moreover have "inj_on snd ?act" using I(3) v(3) m(1) by (auto simp: mg_entry_def)
  ultimately have inj: "inj_on fst (act w)" "inj_on snd (act w)" using w(2) inj_on_subset by blast+
  have keyed: "mg_entry u \<in> act w" if u: "u \<in> set (news w)" "mg_key u \<in> fst ` act w" for u
  proof -
    from u(2) obtain e where e: "e \<in> act w" "fst e = mg_key u" by force
    show ?thesis
    proof (cases "u = m")
      case True
      then have "e = mg_entry m" using e w(2) m(4) by (force simp: mg_entry_def)
      with e True show ?thesis by simp
    next
      case False
      then have old: "u \<in> set (news (es_world st))" using u(1) w(1) by simp
      then have "mg_key u \<noteq> mg_key m" using m(4) by (metis UnCI image_eqI)
      then have "e \<in> act (es_world st)" using e w(2) by (auto simp: mg_entry_def)
      then have "mg_entry u \<in> act (es_world st)" "e = mg_entry u"
        using I(4) [OF old] e inj_onD [OF I(2), of e "mg_entry u"] by (force simp: mg_entry_def)+
      with e show ?thesis by simp
    qed
  qed
  have "evac_node m = Some (pv_NodeName u)" if "u \<in> set (es_vmis st)" "VirtualMachineInstanceKey u = mg_vmi m" for u
    using inj_onD [of VirtualMachineInstanceKey "set (es_vmis st)" u v] that v m(1,3) I(6) by (simp add: distinct_map)
  then have stay: "stays (news w) (es_vmis st)" using I(5) w(1) by (auto simp: stays_def)
  have "insert (mg_entry m) (known news st) = known news (st\<lparr>es_world := w\<rparr>)"
    using w(1) by (simp add: known_def)
  then have "act w \<subseteq> known news (st\<lparr>es_world := w\<rparr>)" using w(2) I(1) by blast
  moreover have "expecting M (unseen M (news w)) (es_expectations st)" for M
    using expecting_mono [OF ex] I(8) [of M] w(1) m(3) by (cases "M = no_Name n") simp_all
  moreover have "\<not> migration_IsFinal u \<and> evac_node u \<noteq> None" if "u \<in> set (news w)" for u
    using that w(1) I(4) m(2,3) by auto
  ultimately have "evac_inv act news (st\<lparr>es_world := w\<rparr>)"
    using I(6,7) inj keyed stay by (simp add: evac_inv_def)
  moreover have "VirtualMachineInstanceKey u \<notin> snd ` act w" if u: "u \<in> set vs" for u
  proof -
    have "VirtualMachineInstanceKey u \<noteq> snd (mg_entry m)"
      using u nx m(1) by (auto simp: migrating_next_def mg_entry_def intro: rev_image_eqI)
    moreover have "VirtualMachineInstanceKey u \<notin> snd ` act (es_world st)"
      using u nx unfolding migrating_next_def by (meson list.set_intros(2))
    moreover have "snd ` act w \<subseteq> insert (snd (mg_entry m)) (snd ` act (es_world st))" using w(2) by blast
    ultimately show ?thesis by blast
  qed
  ultimately show ?thesis using nx ex by (simp add: migrating_next_def)
qed

lemma migrate_one_next:
  assumes env: "evac_env_ok create env" and srv: "migration_server create act news"
    and nx: "migrating_next act news n (v # vs) st" and run: "migrate_one env n v st = (e, st1)"
  shows "migrating_next act news n vs st1"
proof -
  let ?g = "GenerateNewMigration v (no_Name n)"
  obtain r w where c: "create (vm_Namespace v) ?g (es_world st) = (r, w)" by force
  with env have run': "migrate_one env n v st = (case r of
      Some e \<Rightarrow> (Some e, observe_creation (no_Name n) (st\<lparr>es_world := w\<rparr>)) | None \<Rightarrow> (None, st\<lparr>es_world := w\<rparr>))"
    by (simp add: migrate_one_def evac_env_ok_def split: option.split)
  show ?thesis
  proof (cases r)
    case (Some x)
    with create_migration_laws(1) [OF srv c] migrate_one_fails [OF nx, of w] run run' show ?thesis by simp
  next
    case None
    from create_migration_laws(2) [OF srv c this] obtain m where m: "mg_VMIName m = mg_VMIName ?g"
        "mg_Namespace m = vm_Namespace v" "mg_Phase m = mg_Phase ?g" "mg_Annotations m = mg_Annotations ?g"
        "mg_key m \<notin> fst ` act (es_world st) \<union> mg_key ` set (news (es_world st))"
        "news w = news (es_world st) @ [m]" "act w \<subseteq> insert (mg_entry m) (act (es_world st))"
      by blast
    have "mg_vmi m = VirtualMachineInstanceKey v" "\<not> migration_IsFinal m" "evac_node m = Some (no_Name n)"
      using m(1-4) by (simp_all add: mg_vmi_def VirtualMachineInstanceKey_def GenerateNewMigration_def
          migration_IsFinal_def evac_node_def)
    from migrate_one_creates [OF nx this m(5-7)] run run' None show ?thesis by simp
  qed
qed

lemma migrate_batch:
  assumes "evac_env_ok create env" "migration_server create act news"
    and "migrating_next act news n vs st" "run_batch (map (migrate_one env n) vs) st = (es, st1)"
  shows "evac_inv act news st1"
  using assms(3,4)
proof (induction vs arbitrary: st es)
  case (Cons v vs)
  obtain e st2 where one: "migrate_one env n v st = (e, st2)" by force
  obtain es2 where rest: "run_batch (map (migrate_one env n) vs) st2 = (es2, st1)"
    using Cons.prems(2) one by (auto split: prod.splits)
  from Cons.IH [OF migrate_one_next [OF assms(1,2) Cons.prems(1) one] rest] show ?case .
qed (simp add: migrating_next_def)

text \<open>The goroutines run in any order.\<close>

lemma scheduled:
  assumes "evac_env_ok create env"
  shows "mset (map ((!) vs) (ve_sched env (length vs))) = mset vs"
proof -
  have "mset (ve_sched env (length vs)) = mset [0..<length vs]"
    using assms set_eq_iff_mset_eq_distinct [of "ve_sched env (length vs)" "[0..<length vs]"]
    by (simp add: evac_env_ok_def atLeast0LessThan)
  then show ?thesis by (metis map_nth mset_map)
qed

lemma vmisToMigrate_subset: "set (vmisToMigrate now n vs t) \<subseteq> set vs"
  by (auto simp: vmisToMigrate_def getMarkedForEvictionVMIs_def Let_def)

lemma filter_running_fst:
  "fst (filter_running env st lookup vs) =
     filter (\<lambda>v. \<not> IsFinal v \<and> vm_DeletionTimestamp v = None \<and> VMIMigratableOnEviction env v \<and>
        HasConditionWithStatus v ''LiveMigratable'' ''True'' \<and> VirtualMachineInstanceKey v \<notin> lookup \<and>
        VMIActivePodsCount v st \<le> 1) vs"
  by (induction vs) (auto simp: VirtualMachineInstanceKey_def split: prod.splits)

text \<open>What a reconcile creates, as a list of instances in the order of the goroutines.\<close>

definition evac_candidates :: "'w evac_env \<Rightarrow> node \<Rightarrow> 'w evac_state \<Rightarrow> placed_vmi list" where
  "evac_candidates env n st =
     fst (filterRunningNonMigratingVMIs env st
       (vmisToMigrate (ve_now env) n (listVMIsOnNode (no_Name n) st)
         \<lparr>ta_Key = ve_NodeDrainTaintKey env, ta_Effect = ''NoSchedule''\<rparr>) (ListUnfinishedMigrations st))"

lemma evac_candidates_filter:
  "set (evac_candidates env n st) \<subseteq> {v \<in> set (es_vmis st). pv_NodeName v = no_Name n \<and>
     (\<forall>m \<in> set (es_migrations st). \<not> migration_IsFinal m \<longrightarrow> mg_vmi m \<noteq> VirtualMachineInstanceKey v)}"
proof -
  let ?m = "vmisToMigrate (ve_now env) n (listVMIsOnNode (no_Name n) st)
         \<lparr>ta_Key = ve_NodeDrainTaintKey env, ta_Effect = ''NoSchedule''\<rparr>"
  have m: "pv_NodeName v = no_Name n \<and> v \<in> set (es_vmis st)" if "v \<in> set ?m" for v
    using subsetD [OF vmisToMigrate_subset that] by (simp add: listVMIsOnNode_def)
  show ?thesis
  proof
    fix v assume "v \<in> set (evac_candidates env n st)"
    then have "v \<in> set ?m" "VirtualMachineInstanceKey v \<notin> mg_vmi ` set (ListUnfinishedMigrations st)"
      by (simp_all add: evac_candidates_def filterRunningNonMigratingVMIs_def filter_running_fst mg_vmi_def)
    with m [of v] show "v \<in> {v \<in> set (es_vmis st). pv_NodeName v = no_Name n \<and>
        (\<forall>m \<in> set (es_migrations st). \<not> migration_IsFinal m \<longrightarrow> mg_vmi m \<noteq> VirtualMachineInstanceKey v)}"
      by (force simp: ListUnfinishedMigrations_def)
  qed
qed

lemma distinct_evac_candidates:
  assumes "distinct (map VirtualMachineInstanceKey (es_vmis st))"
  shows "distinct (map VirtualMachineInstanceKey (evac_candidates env n st))"
  using assms
  by (simp add: evac_candidates_def filterRunningNonMigratingVMIs_def filter_running_fst vmisToMigrate_def
      getMarkedForEvictionVMIs_def Let_def listVMIsOnNode_def distinct_map_filter)

lemma evac_sync_eq:
  obtains "snd (evac_sync env n (listVMIsOnNode (no_Name n) st) (ListUnfinishedMigrations st) st) = st"
      "evac_candidates env n st = []"
  | es st1 where "run_batch (map (migrate_one env n) (map ((!) (evac_candidates env n st))
        (ve_sched env (length (evac_candidates env n st)))))
      (expect_creations (ve_now env) (no_Name n) (length (evac_candidates env n st)) st) = (es, st1)"
    "evac_sync env n (listVMIsOnNode (no_Name n) st) (ListUnfinishedMigrations st) st = (first_error es, st1)"
proof -
  let ?m = "vmisToMigrate (ve_now env) n (listVMIsOnNode (no_Name n) st)
         \<lparr>ta_Key = ve_NodeDrainTaintKey env, ta_Effect = ''NoSchedule''\<rparr>"
  obtain cs non where f: "filterRunningNonMigratingVMIs env st ?m (ListUnfinishedMigrations st) = (cs, non)" by force
  then have cs: "evac_candidates env n st = cs" by (simp add: evac_candidates_def)
  show thesis
  proof (cases "?m = [] \<or> cs = [] \<and> non = []")
    case True
    moreover have "cs = []" if "?m = []" using that f by (simp add: filterRunningNonMigratingVMIs_def)
    ultimately show thesis using that(1) f cs by (auto simp: evac_sync_def Let_def)
  next
    case False
    obtain es st1 where "run_batch (map (migrate_one env n) (map ((!) cs) (ve_sched env (length cs))))
      (expect_creations (ve_now env) (no_Name n) (length cs) st) = (es, st1)" by force
    with False that(2) f cs show thesis by (auto simp: evac_sync_def Let_def comp_def)
  qed
qed

lemma expect_fields [simp]:
  "es_world (expect_creations now N k st) = es_world st" "es_vmis (expect_creations now N k st) = es_vmis st"
  "es_migrations (expect_creations now N k st) = es_migrations st"
  by (simp_all add: expect_creations_def)

lemma candidates_next:
  assumes inv: "evac_inv act news st" and none: "unseen (no_Name n) (news (es_world st)) = 0"
    and len: "length (es_vmis st) < 2 ^ 31" and cs: "mset cs = mset (evac_candidates env n st)"
  shows "migrating_next act news n cs (expect_creations now (no_Name n) (length cs) st)"
proof -
  note I = evac_invD [OF inv]
  let ?N = "no_Name n" let ?st = "expect_creations now ?N (length cs) st"
  have set: "set cs = set (evac_candidates env n st)" using mset_eq_setD [OF cs] .
  note cand = subsetD [OF evac_candidates_filter, of _ env n st, folded set]
  have d: "distinct (map VirtualMachineInstanceKey cs)"
    using distinct_evac_candidates [OF I(6), of env n] mset_eq_imp_distinct_iff
      [of "map VirtualMachineInstanceKey cs" "map VirtualMachineInstanceKey (evac_candidates env n st)"] cs
    by simp
  have "set cs \<subseteq> set (es_vmis st)" using cand by blast
  then have "card (set cs) \<le> length (es_vmis st)"
    using card_mono [of "set (es_vmis st)" "set cs"] card_length [of "es_vmis st"] by simp
  then have "length cs < 2 ^ 31"
    using len d by (simp add: distinct_map distinct_card)
  then have ex: "in_range ?N (es_expectations ?st)" "expecting ?N (length cs) (es_expectations ?st)"
    using ExpectCreations_adds [where n = "length cs" and key = ?N and u = "es_expectations st" and now = now]
    by (simp_all add: expect_creations_def)
  have "in_range M (es_expectations ?st) \<and> expecting M (unseen M (news (es_world st))) (es_expectations ?st)" for M
    using ex(1) I(7,8) [of M] none by (cases "M = ?N") (simp_all add: expect_creations_def ExpectCreations_other)
  then have "evac_inv act news ?st" using inv by (simp add: evac_inv_def known_def)
  moreover have "expecting ?N (unseen ?N (news (es_world ?st)) + length cs) (es_expectations ?st)"
    using ex(2) none by simp
  moreover have "VirtualMachineInstanceKey v \<notin> snd ` act (es_world st)" if "v \<in> set cs" for v
  proof
    assume "VirtualMachineInstanceKey v \<in> snd ` act (es_world st)"
    then obtain e where e: "e \<in> known news st" "snd e = VirtualMachineInstanceKey v"
      using I(1) by (metis imageE subsetD)
    then obtain m where m: "mg_vmi m = VirtualMachineInstanceKey v"
      and "m \<in> set (news (es_world st)) \<or> m \<in> set (es_migrations st) \<and> \<not> migration_IsFinal m"
      unfolding known_def by (auto simp: mg_entry_def)
    with cand [OF that] have "m \<in> set (news (es_world st))" by blast
    moreover from this m cand [OF that] I(5) have "evac_node m = Some ?N"
      unfolding stays_def by force
    ultimately show False using none by (auto simp: unseen_def filter_empty_conv)
  qed
  ultimately show ?thesis using d cand by (simp add: migrating_next_def)
qed

lemma evac_execute_inv:
  assumes env: "evac_env_ok create env" and srv: "migration_server create act news"
    and inv: "evac_inv act news st" and pr: "prompt (ve_now env) key (es_expectations st)"
    and gone: "key \<in> no_Name ` set (es_nodes st) \<or> Some key \<notin> evac_node ` set (news (es_world st))"
    and len: "length (es_vmis st) < 2 ^ 31"
  shows "evac_inv act news (snd (evac_execute env key st))"
proof (cases "find (\<lambda>n. no_Name n = key) (es_nodes st)")
  case None
  then have "unseen key (news (es_world st)) = 0"
    using gone by (force simp: find_None_iff unseen_def filter_empty_conv image_iff)
  then have "in_range N (uid_DeleteExpectations (controller_ops now) key (es_expectations st)) \<and>
      expecting N (unseen N (news (es_world st))) (uid_DeleteExpectations (controller_ops now) key (es_expectations st))"
    for N now
    using DeleteExpectations_adds evac_invD(7,8) [OF inv] by (cases "N = key") auto
  with inv None show ?thesis by (simp add: evac_execute_def evac_inv_def known_def)
next
  case (Some n)
  then have key: "no_Name n = key" by (auto simp: find_Some_iff)
  show ?thesis
  proof (cases "SatisfiedExpectations (ve_now env) (ut_inner (es_expectations st)) key")
    case True
    have none: "unseen (no_Name n) (news (es_world st)) = 0"
      using satisfied_no_news [OF True pr] evac_invD(8) [OF inv] key by blast
    have run: "evac_execute env key st = evac_sync env n (listVMIsOnNode (no_Name n) st) (ListUnfinishedMigrations st) st"
      using Some True by (simp add: evac_execute_def)
    let ?cs = "evac_candidates env n st"
    let ?sched = "map ((!) ?cs) (ve_sched env (length ?cs))"
    have nx: "migrating_next act news n ?sched (expect_creations (ve_now env) (no_Name n) (length ?cs) st)"
      using candidates_next [OF inv none len scheduled [OF env]] by (metis scheduled [OF env] size_mset)
    show ?thesis
      by (cases rule: evac_sync_eq [of env n st]) (use migrate_batch [OF env srv nx] inv run in auto)
  qed (use Some inv in \<open>simp add: evac_execute_def\<close>)
qed

lemma evac_step_inv:
  assumes "migration_server create act news" "evac_inv act news st" "evac_step create act news st st1"
  shows "evac_inv act news st1"
  using assms(3)
proof cases
  case (evac_reconcile env key)
  with evac_execute_inv [OF evac_reconcile(2) assms(1,2)] show ?thesis by simp
next
  case (evac_announced m ms w1)
  with evac_inv_announced [OF assms(2)] show ?thesis by simp
next
  case (evac_vmis vs ob)
  have "evac_inv act news (st\<lparr>es_vmis := vs\<rparr>)"
    using evac_vmis(2,3) assms(2) by (simp add: evac_inv_def known_def)
  with evac_vmis(1) show ?thesis by simp
next
  case (evac_nodes n ns)
  have "evac_inv act news (st\<lparr>es_nodes := ns\<rparr>)" using assms(2) by (simp add: evac_inv_def known_def)
  with evac_nodes show ?thesis by simp
next
  case (evac_pods ps)
  with assms(2) show ?thesis by (simp add: evac_inv_def known_def)
next
  case (evac_updated m)
  with evac_inv_store [OF assms(2), of m] show ?thesis by simp
next
  case (evac_other_added m)
  with evac_inv_other [OF assms(2)] show ?thesis by simp
next
  case (evac_removed m)
  with evac_inv_remove [OF assms(2)] show ?thesis by simp
next
  case (evac_server w1)
  with evac_inv_server [OF assms(2)] show ?thesis by simp
qed

section \<open>Properties\<close>

text \<open>
  C1: An instance never has two unfinished migrations of the evacuation controller: over every
  history in which reconciles of any nodes, the announcements of migrations, changes of migrations,
  instances, nodes and pods in the caches and failures of the API server follow each other in any
  order, whatever order the goroutines of a batch run in, if expectations do not time out, no
  instance changes its node before its migration is announced, the controller does not reconcile a
  node that is missing from its cache while a migration it made for that node is unannounced, and
  each reconcile sees its caches as of one moment, with no other step in between.
\<close>

theorem one_migration_each:
  assumes "migration_server create act news" and "news (es_world st0) = []"
    and "act (es_world st0) \<subseteq> mg_entry ` {m \<in> set (es_migrations st0). \<not> migration_IsFinal m}"
    and "inj_on fst (act (es_world st0))" and "inj_on snd (act (es_world st0))"
    and "distinct (map VirtualMachineInstanceKey (es_vmis st0))"
    and "es_expectations st0 = NewUIDTracking NewControllerExpectations"
    and "evac_reachable create act news st0 st"
  shows "card {e \<in> act (es_world st). snd e = VirtualMachineInstanceKey v} \<le> 1"
proof -
  have "evac_inv act news st"
    using assms(8)
  proof induction
    case evac_init
    show ?case
      using assms(2-7)
      by (simp add: evac_inv_def known_def stays_def in_range_def GetExpectations_def NewUIDTracking_def
          NewControllerExpectations_def)
  next
    case (evac_next st st1)
    with evac_step_inv [OF assms(1)] show ?case by blast
  qed
  then have "inj_on snd (act (es_world st))" by (rule evac_invD)
  then have "inj_on snd {e \<in> act (es_world st). snd e = VirtualMachineInstanceKey v}"
    by (rule inj_on_subset) blast
  then have "card {e \<in> act (es_world st). snd e = VirtualMachineInstanceKey v} =
      card (snd ` {e \<in> act (es_world st). snd e = VirtualMachineInstanceKey v})"
    by (rule card_image [symmetric])
  also have "\<dots> \<le> card {VirtualMachineInstanceKey v}" by (rule card_mono) auto
  finally show ?thesis by simp
qed

text \<open>A batch without errors has created a migration for each of its instances.\<close>

lemma migrate_batch_all:
  assumes env: "evac_env_ok create env" and srv: "migration_server create act news"
    and run: "run_batch (map (migrate_one env n) vs) st = ([], st1)"
  shows "\<exists>ms. news (es_world st1) = news (es_world st) @ ms \<and> map mg_vmi ms = map VirtualMachineInstanceKey vs"
  using run
proof (induction vs arbitrary: st)
  case (Cons v vs)
  let ?g = "GenerateNewMigration v (no_Name n)"
  obtain r w where c: "create (vm_Namespace v) ?g (es_world st) = (r, w)" by force
  obtain e st2 where one: "migrate_one env n v st = (e, st2)" by force
  with Cons.prems have none: "e = None" "run_batch (map (migrate_one env n) vs) st2 = ([], st1)"
    by (auto split: prod.splits option.splits)
  then have "r = None \<and> st2 = st\<lparr>es_world := w\<rparr>"
    using one c env by (auto simp: migrate_one_def evac_env_ok_def split: option.splits)
  then have r: "r = None" and rest: "run_batch (map (migrate_one env n) vs) (st\<lparr>es_world := w\<rparr>) = ([], st1)"
    using none by simp_all
  from create_migration_laws(2) [OF srv c r] obtain m where "mg_VMIName m = mg_VMIName ?g"
      "mg_Namespace m = vm_Namespace v" "news w = news (es_world st) @ [m]" by blast
  moreover obtain ms where "news (es_world st1) = news w @ ms" "map mg_vmi ms = map VirtualMachineInstanceKey vs"
    using Cons.IH [OF rest] by auto
  moreover have "mg_vmi m = VirtualMachineInstanceKey v"
    using calculation(1,2) by (simp add: mg_vmi_def VirtualMachineInstanceKey_def GenerateNewMigration_def)
  ultimately show ?case by (intro exI [of _ "m # ms"]) simp
qed simp

text \<open>
  C15: A reconcile of a cached node whose expectations are satisfied, when it returns no error,
  leaves no instance behind that it should move: every instance on the node, if the node is drained
  or the instance is marked for eviction from it and not migrating, which is running, may be
  migrated and has at most one active pod, has an unfinished migration in the cache or one the
  informer still has to announce. (While expectations are pending a reconcile does nothing.)
\<close>

theorem evacuation_leaves_none:
  assumes "evac_env_ok create env" and "migration_server create act news"
    and "find (\<lambda>n. no_Name n = key) (es_nodes st) = Some n"
    and "SatisfiedExpectations (ve_now env) (ut_inner (es_expectations st)) key"
    and "evac_execute env key st = (None, st1)"
    and "v \<in> set (es_vmis st)" and "pv_NodeName v = key"
    and "nodeHasTaint \<lparr>ta_Key = ve_NodeDrainTaintKey env, ta_Effect = ''NoSchedule''\<rparr> n \<or>
      IsMarkedForEviction v \<and> \<not> hasMigratedOnEviction v \<and> \<not> IsMigrating (ve_now env) v"
    and "\<not> IsFinal v" and "vm_DeletionTimestamp v = None" and "VMIMigratableOnEviction env v"
    and "HasConditionWithStatus v ''LiveMigratable'' ''True''" and "VMIActivePodsCount v st \<le> 1"
  shows "VirtualMachineInstanceKey v \<in> mg_vmi ` (set (ListUnfinishedMigrations st) \<union> set (news (es_world st1)))"
proof (cases "VirtualMachineInstanceKey v \<in> mg_vmi ` set (ListUnfinishedMigrations st)")
  case False
  have key: "no_Name n = key" using assms(3) by (auto simp: find_Some_iff)
  let ?t = "\<lparr>ta_Key = ve_NodeDrainTaintKey env, ta_Effect = ''NoSchedule''\<rparr>"
  have "v \<in> set (vmisToMigrate (ve_now env) n (listVMIsOnNode (no_Name n) st) ?t)"
    using assms(6-8) key
    by (auto simp: vmisToMigrate_def listVMIsOnNode_def getMarkedForEvictionVMIs_def Let_def filter_empty_conv)
  with False assms(9-13) have cand: "v \<in> set (evac_candidates env n st)"
    by (simp add: evac_candidates_def filterRunningNonMigratingVMIs_def filter_running_fst mg_vmi_def)
  have run: "evac_sync env n (listVMIsOnNode (no_Name n) st) (ListUnfinishedMigrations st) st = (None, st1)"
    using assms(3-5) key by (simp add: evac_execute_def)
  let ?cs = "evac_candidates env n st"
  let ?sched = "map ((!) ?cs) (ve_sched env (length ?cs))"
  show ?thesis
  proof (cases rule: evac_sync_eq [of env n st])
    case (2 es st2)
    with run have "run_batch (map (migrate_one env n) ?sched)
        (expect_creations (ve_now env) (no_Name n) (length ?cs) st) = ([], st1)"
      by (simp add: first_error_def split: list.splits)
    from migrate_batch_all [OF assms(1,2) this] obtain ms where "news (es_world st1) = news (es_world st) @ ms"
      "map mg_vmi ms = map VirtualMachineInstanceKey ?sched" by auto
    moreover have "v \<in> set ?sched" using mset_eq_setD [OF scheduled [OF assms(1)], of ?cs] cand by simp
    ultimately show ?thesis by (metis UnCI image_eqI list.set_map set_append image_Un)
  qed (use cand in simp)
qed auto

section \<open>Examples\<close>

text \<open>A server that names migrations by a counter, and a node with one instance marked for eviction.\<close>

record evac_server =
  evs_act :: "(string \<times> string) list"
  evs_news :: "migration list"
  evs_count :: nat

definition generated_name :: "nat \<Rightarrow> string" where
  "generated_name n = ''kubevirt-evacuation-'' @ nat_to_dec n"

definition evac_create :: "string \<Rightarrow> migration \<Rightarrow> evac_server \<Rightarrow> client_error option \<times> evac_server" where
  "evac_create ns m w =
     (let m1 = m\<lparr>mg_Namespace := ns, mg_Name := generated_name (evs_count w)\<rparr> in
      if mg_key m1 \<in> set (map fst (evs_act w)) \<union> set (map mg_key (evs_news w))
      then (Some (OtherError (Errorf ''already exists'' [])), w)
      else (None, w\<lparr>evs_act := mg_entry m1 # evs_act w, evs_news := evs_news w @ [m1],
                    evs_count := Suc (evs_count w)\<rparr>))"

abbreviation evac_act :: "evac_server \<Rightarrow> (string \<times> string) set" where
  "evac_act w \<equiv> set (evs_act w)"

lemma evac_create_documented: "migration_server evac_create evac_act evs_news"
  unfolding migration_server_def
proof (intro allI)
  fix ns m w
  show "case evac_create ns m w of (Some _, w1) \<Rightarrow> no_more_migrations evac_act evs_news w w1
      | (None, w1) \<Rightarrow> \<exists>name. let m1 = m\<lparr>mg_Namespace := ns, mg_Name := name\<rparr>
          in mg_key m1 \<notin> fst ` evac_act w \<union> mg_key ` set (evs_news w) \<and>
             evs_news w1 = evs_news w @ [m1] \<and> evac_act w1 \<subseteq> insert (mg_entry m1) (evac_act w)"
    by (auto simp: evac_create_def Let_def no_more_migrations_def
        intro!: exI [of _ "generated_name (evs_count w)"])
qed

definition marked_vmi :: placed_vmi where
  "marked_vmi =
     \<lparr>vm_Namespace = ''ns'', vm_Name = ''vm'', vm_UID = ''u'', vm_ResourceVersion = ''1'', vm_Labels = [],
      vm_Owners = [], vm_DeletionTimestamp = None, vm_Phase = ''Running'',
      vm_Conditions = [\<lparr>vc_Type = ''LiveMigratable'', vc_Status = ''True'', vc_Reason = []\<rparr>],
      pv_Annotations = [], pv_NodeName = ''n1'', pv_EvacuationNodeName = ''n1'', pv_MigrationState = None,
      pv_EvictionStrategy = None\<rparr>"

definition marked_env :: "evac_server evac_env" where
  "marked_env =
     \<lparr>ve_Create = evac_create, ve_NodeDrainTaintKey = ''drain'', ve_EvictionStrategy = Some ''LiveMigrate'',
      ve_sched = \<lambda>n. rev [0..<n], ve_now = 0\<rparr>"

definition marked_node :: node where
  "marked_node = \<lparr>no_Name = ''n1'', no_Taints = []\<rparr>"

definition marked_st :: "evac_server evac_state" where
  "marked_st =
     \<lparr>es_vmis = [marked_vmi], es_migrations = [], es_pods = [], es_nodes = [marked_node],
      es_expectations = NewUIDTracking NewControllerExpectations, es_queue = [],
      es_world = \<lparr>evs_act = [], evs_news = [], evs_count = 0\<rparr>\<rparr>"

text \<open>Two reconciles in a row, before the cache knows of the migration.\<close>

definition marked_once :: "evac_server evac_state" where
  "marked_once = snd (evac_execute marked_env ''n1'' marked_st)"

definition marked_twice :: "evac_server evac_state" where
  "marked_twice = snd (evac_execute marked_env ''n1'' marked_once)"

lemma marked_env_ok: "evac_env_ok evac_create marked_env"
  by (auto simp: evac_env_ok_def marked_env_def)

lemma marked_twice_reachable: "evac_reachable evac_create evac_act evs_news marked_st marked_twice"
proof -
  have p: "prompt 0 ''n1'' (es_expectations marked_st)" "prompt 0 ''n1'' (es_expectations marked_once)"
    by code_simp+
  have n: "''n1'' \<in> no_Name ` set (es_nodes marked_st)" "''n1'' \<in> no_Name ` set (es_nodes marked_once)"
    by code_simp+
  have l: "es_vmis marked_st = [marked_vmi]" "length (es_vmis marked_once) = 1" by code_simp+
  have "evac_step evac_create evac_act evs_news marked_st marked_once"
    using evac_reconcile [OF marked_env_ok, of "''n1''" marked_st evs_news evac_act] p n l
    by (simp add: marked_env_def marked_once_def)
  moreover have "evac_step evac_create evac_act evs_news marked_once marked_twice"
    using evac_reconcile [OF marked_env_ok, of "''n1''" marked_once evs_news evac_act] p n l
    by (simp add: marked_env_def marked_twice_def)
  ultimately show ?thesis by (rule evac_next [OF evac_next [OF evac_init]])
qed

theorem one_migration_each_witness:
  "card {e \<in> evac_act (es_world marked_twice). snd e = VirtualMachineInstanceKey marked_vmi} \<le> 1 \<and>
   evs_act (es_world marked_twice) = [(''ns/kubevirt-evacuation-0'', ''ns/vm'')]"
proof -
  have "card {e \<in> evac_act (es_world marked_twice). snd e = VirtualMachineInstanceKey marked_vmi} \<le> 1"
    using one_migration_each [OF evac_create_documented _ _ _ _ _ _ marked_twice_reachable, of marked_vmi]
    by (simp add: marked_st_def)
  moreover have "evs_act (es_world marked_twice) = [(''ns/kubevirt-evacuation-0'', ''ns/vm'')]" by code_simp
  ultimately show ?thesis by blast
qed

text \<open>
  A node that goes away and comes back before its migration is announced: reconciling its absence
  deletes the expectations, and the instance is migrated a second time.
\<close>

definition node_gone :: "evac_server evac_state" where
  "node_gone = snd (evac_execute marked_env ''n1'' (enqueueNode marked_node (marked_once\<lparr>es_nodes := []\<rparr>)))"

definition node_back :: "evac_server evac_state" where
  "node_back = snd (evac_execute marked_env ''n1'' (enqueueNode marked_node (node_gone\<lparr>es_nodes := [marked_node]\<rparr>)))"

lemma readded_node_migrates_twice:
  "evs_act (es_world node_back) =
     [(''ns/kubevirt-evacuation-1'', ''ns/vm''), (''ns/kubevirt-evacuation-0'', ''ns/vm'')]"
  by code_simp

theorem evacuation_leaves_none_witness:
  "VirtualMachineInstanceKey marked_vmi \<in>
     mg_vmi ` (set (ListUnfinishedMigrations marked_st) \<union> set (evs_news (es_world marked_once)))"
proof (rule evacuation_leaves_none [OF marked_env_ok evac_create_documented, of "''n1''" marked_st marked_node])
  show "find (\<lambda>n. no_Name n = ''n1'') (es_nodes marked_st) = Some marked_node"
    by (simp add: marked_st_def marked_node_def)
  show "SatisfiedExpectations (ve_now marked_env) (ut_inner (es_expectations marked_st)) ''n1''" by code_simp
  have "fst (evac_execute marked_env ''n1'' marked_st) = None" by code_simp
  then show "evac_execute marked_env ''n1'' marked_st = (None, marked_once)"
    by (simp add: marked_once_def prod_eq_iff)
  show "VMIActivePodsCount marked_vmi marked_st \<le> 1" by (simp add: VMIActivePodsCount_def marked_st_def)
qed (simp_all add: marked_st_def marked_vmi_def marked_env_def IsMarkedForEviction_def hasMigratedOnEviction_def
    IsMigrating_def IsFinal_def VMIMigratableOnEviction_def VMIEvictionStrategy_def HasConditionWithStatus_def
    GetCondition_def)

end
