(* ===== verification/Workload.thy ===== *)
theory Workload
  imports Evacuation
begin

text \<open>
  The workload update controller, \<^verbatim>\<open>pkg/virt-controller/watch/workload-updater/workload-updater.go\<close> of
  KubeVirt: instances that run an old launcher, or have a change that needs a migration, are migrated
  or evicted, and migrations that are needed no longer are aborted. The API server, the clock, the
  shuffle and the order of the goroutines are parameters; a goroutine is one step, as none reads what
  another writes.
\<close>

section \<open>Objects\<close>

record volume_status =
  vs_Name :: string
  vs_AccessModes :: "string list option"

record updated_vmi = placed_vmi +
  uv_LauncherImage :: string
  uv_TargetNodeDomainReady :: "go_time option"
  uv_MigratedVolumes :: "string list"
  uv_VolumeStatus :: "volume_status list"

record update_migration = migration +
  um_Labels :: "(string, string) gomap"
  um_SendTo :: bool
  um_Receive :: bool

record launcher_pod = pod +
  lp_Name :: string
  lp_NodeName :: string
  lp_Created :: go_time

record kubevirt =
  kv_Key :: string
  kv_Methods :: "string list"
  kv_BatchEvictionSize :: "int option"
  kv_BatchEvictionInterval :: "int option"
  kv_Phase :: string
  kv_ObservedDeploymentID :: string
  kv_TargetDeploymentID :: string
  kv_Outdated :: "nat option"

definition WorkloadUpdateMigrationAnnotation :: string where
  "WorkloadUpdateMigrationAnnotation = ''kubevirt.io/workloadUpdateMigration''"

definition WorkloadUpdateMigrationAbortionAnnotation :: string where
  "WorkloadUpdateMigrationAbortionAnnotation = ''kubevirt.io/testWorkloadUpdateMigrationAbortion''"

definition VolumesUpdateMigration :: string where
  "VolumesUpdateMigration = ''kubevirt.io/volume-update-migration''"

definition HasAnnotation :: "(string, string) gomap \<Rightarrow> string \<Rightarrow> bool" where
  "HasAnnotation m k \<longleftrightarrow> map_of m k \<noteq> None"

definition vmi_IsRunning :: "'a vmi_scheme \<Rightarrow> bool" where
  "vmi_IsRunning v \<longleftrightarrow> vm_Phase v = ''Running''"

definition HasCondition :: "'a vmi_scheme \<Rightarrow> string \<Rightarrow> bool" where
  "HasCondition v t \<longleftrightarrow> GetCondition v t \<noteq> None"

definition IsDecentralized :: "'a update_migration_scheme \<Rightarrow> bool" where
  "IsDecentralized m \<longleftrightarrow> (um_SendTo m \<and> \<not> um_Receive m) \<or> (\<not> um_SendTo m \<and> um_Receive m)"

definition IsDecentralizedSource :: "'a update_migration_scheme \<Rightarrow> bool" where
  "IsDecentralizedSource m \<longleftrightarrow> IsDecentralized m \<and> um_SendTo m"

definition migration_IsRunning :: "'a update_migration_scheme \<Rightarrow> bool" where
  "migration_IsRunning m \<longleftrightarrow>
     (if mg_Phase m \<in> {''Failed'', ''Pending'', [], ''Succeeded'', ''WaitingForSync'', ''Synchronizing''} then False
      else if mg_Phase m = ''Scheduling'' \<and> IsDecentralizedSource m then False
      else True)"

section \<open>State and environment\<close>

record 'w update_env =
  we_launcherImage :: string
  we_ParallelMigrations :: nat
  we_now :: go_time
  we_shuffle :: "updated_vmi list \<Rightarrow> updated_vmi list"
  we_sched :: "nat \<Rightarrow> nat list"
  we_PatchStatus :: "nat \<Rightarrow> 'w \<Rightarrow> client_error option \<times> 'w"
  we_Create :: "string \<Rightarrow> update_migration \<Rightarrow> 'w \<Rightarrow> client_error option \<times> 'w"
  we_Evict :: "string \<Rightarrow> string \<Rightarrow> 'w \<Rightarrow> client_error option \<times> 'w"
  we_Delete :: "string \<Rightarrow> string \<Rightarrow> 'w \<Rightarrow> client_error option \<times> 'w"

record 'w update_state =
  ws_kubevirts :: "kubevirt list"
  ws_vmis :: "updated_vmi list"
  ws_migrations :: "update_migration list"
  ws_pods :: "launcher_pod list"
  ws_expectations :: "expectations uid_tracking"
  ws_queue :: "(string \<times> duration) list"
  ws_lastDeletionBatch :: go_time
  ws_world :: 'w

section \<open>The handlers of the informers\<close>

definition defaultThrottleInterval :: duration where "defaultThrottleInterval = seconds 5"

definition AddAfter :: "string \<Rightarrow> duration \<Rightarrow> 'w update_state \<Rightarrow> 'w update_state" where
  "AddAfter key d st = st\<lparr>ws_queue := ws_queue st @ [(key, d)]\<rparr>"

text \<open>The key of the one KubeVirt; \<open>None\<close> when there is none or more than one.\<close>

definition getKubeVirtKey :: "'w update_state \<Rightarrow> string option" where
  "getKubeVirtKey st = (case ws_kubevirts st of [kv] \<Rightarrow> Some (kv_Key kv) | _ \<Rightarrow> None)"

definition throttled :: "'w update_state \<Rightarrow> 'w update_state" where
  "throttled st = (case getKubeVirtKey st of None \<Rightarrow> st | Some key \<Rightarrow> AddAfter key defaultThrottleInterval st)"

definition wu_observe :: "string \<Rightarrow> 'w update_state \<Rightarrow> 'w update_state" where
  "wu_observe key st =
     st\<lparr>ws_expectations := (ws_expectations st)\<lparr>ut_inner := CreationObserved key (ut_inner (ws_expectations st))\<rparr>\<rparr>"

definition wu_addMigration :: "update_migration \<Rightarrow> 'w update_state \<Rightarrow> 'w update_state" where
  "wu_addMigration m st =
     (case getKubeVirtKey st of
        None \<Rightarrow> st
      | Some key \<Rightarrow>
          AddAfter key defaultThrottleInterval
            (if HasAnnotation (mg_Annotations m) WorkloadUpdateMigrationAnnotation then wu_observe key st else st))"

definition wu_deleteMigration :: "'w update_state \<Rightarrow> 'w update_state" where
  "wu_deleteMigration st = throttled st"

definition wu_updateMigration :: "'w update_state \<Rightarrow> 'w update_state" where
  "wu_updateMigration st = throttled st"

definition isHotplugInProgress :: "'a vmi_scheme \<Rightarrow> bool" where
  "isHotplugInProgress v \<longleftrightarrow>
     HasCondition v ''HotVCPUChange'' \<or> HasConditionWithStatus v ''HotMemoryChange'' ''True'' \<or>
     HasConditionWithStatus v ''MigrationRequired'' ''True''"

definition isVolumesUpdateInProgress :: "'a vmi_scheme \<Rightarrow> bool" where
  "isVolumesUpdateInProgress v \<longleftrightarrow> HasConditionWithStatus v ''VolumesChange'' ''True''"

definition updateVmi :: "'w update_env \<Rightarrow> updated_vmi \<Rightarrow> 'w update_state \<Rightarrow> 'w update_state" where
  "updateVmi env v st =
     (case getKubeVirtKey st of
        None \<Rightarrow> st
      | Some key \<Rightarrow>
          if IsFinal v then st
          else if \<not> (isHotplugInProgress v \<or> isVolumesUpdateInProgress v) \<or> IsMigrating (we_now env) v then st
          else AddAfter key defaultThrottleInterval st)"

definition enqueueKubeVirt :: "kubevirt \<Rightarrow> 'w update_state \<Rightarrow> 'w update_state" where
  "enqueueKubeVirt kv st = AddAfter (kv_Key kv) defaultThrottleInterval st"

section \<open>What an instance needs\<close>

definition isOutdated :: "'w update_env \<Rightarrow> updated_vmi \<Rightarrow> bool" where
  "isOutdated env v =
     (if IsFinal v then False
      else if uv_LauncherImage v = [] then False
      else if uv_LauncherImage v \<noteq> we_launcherImage env then True
      else False)"

definition doesRequireMigration :: "'w update_env \<Rightarrow> updated_vmi \<Rightarrow> bool" where
  "doesRequireMigration env v =
     (if IsFinal v \<or> IsMigrating (we_now env) v then False
      else if HasAnnotation (pv_Annotations v) WorkloadUpdateMigrationAbortionAnnotation then False
      else if isHotplugInProgress v then True
      else if isVolumesUpdateInProgress v then True
      else False)"

definition ListWorkloadUpdateMigrations :: "string \<Rightarrow> string \<Rightarrow> 'w update_state \<Rightarrow> update_migration list" where
  "ListWorkloadUpdateMigrations name ns st =
     filter (\<lambda>m. \<not> migration_IsFinal m \<and> HasAnnotation (mg_Annotations m) WorkloadUpdateMigrationAnnotation)
       (filter (\<lambda>m. mg_Namespace m @ ''/'' @ mg_VMIName m = ns @ ''/'' @ name) (ws_migrations st))"

definition shouldAbortMigration :: "'w update_state \<Rightarrow> updated_vmi \<Rightarrow> bool" where
  "shouldAbortMigration st v =
     (let numMig = length (ListWorkloadUpdateMigrations (vm_Name v) (vm_Namespace v) st) in
      if HasAnnotation (pv_Annotations v) WorkloadUpdateMigrationAbortionAnnotation then numMig > 0
      else if isHotplugInProgress v then False
      else if isVolumesUpdateInProgress v then False
      else if pv_MigrationState v \<noteq> None \<and> uv_TargetNodeDomainReady v \<noteq> None then False
      else numMig > 0)"

definition IsReadWriteOnceAccessMode :: "string list \<Rightarrow> bool" where
  "IsReadWriteOnceAccessMode ms \<longleftrightarrow> \<not> list_ex (\<lambda>m. m = ''ReadOnlyMany'' \<or> m = ''ReadWriteMany'') ms"

definition IsBackendStorageVolume :: "volume_status \<Rightarrow> bool" where
  "IsBackendStorageVolume v \<longleftrightarrow> has_prefix (vs_Name v) ''persistent-state-for''"

text \<open>\<^verbatim>\<open>ValidateVolumesUpdateMigration\<close> returns no error.\<close>

definition ValidateVolumesUpdateMigration :: "updated_vmi \<Rightarrow> string list \<Rightarrow> bool" where
  "ValidateVolumesUpdateMigration v migVols =
     (if migVols = [] then True
      else if list_ex (\<lambda>c. vc_Type c = ''StorageLiveMigratable'' \<and> vc_Status c = ''False'') (vm_Conditions v) then False
      else \<not> list_ex (\<lambda>s. case vs_AccessModes s of
                            None \<Rightarrow> False
                          | Some ms \<Rightarrow> \<not> IsBackendStorageVolume s \<and>
                              IsReadWriteOnceAccessMode ms \<and> vs_Name s \<notin> set migVols)
             (uv_VolumeStatus v))"

section \<open>The data of an update\<close>

record update_data =
  ud_all :: "updated_vmi list"
  ud_migratable :: "updated_vmi list"
  ud_evict :: "updated_vmi list"
  ud_abort :: "updated_vmi list"
  ud_numActive :: nat

definition wu_ListUnfinishedMigrations :: "'w update_state \<Rightarrow> update_migration list" where
  "wu_ListUnfinishedMigrations st = filter (\<lambda>m. \<not> migration_IsFinal m) (ws_migrations st)"

definition FilterRunningMigrations :: "update_migration list \<Rightarrow> update_migration list" where
  "FilterRunningMigrations ms = filter migration_IsRunning ms"

definition add_vmi ::
  "'w update_env \<Rightarrow> 'w update_state \<Rightarrow> kubevirt \<Rightarrow> string set \<Rightarrow> updated_vmi \<Rightarrow> update_data \<Rightarrow> update_data" where
  "add_vmi env st kv lookup v d =
     (if \<not> vmi_IsRunning v \<or> IsFinal v \<or> vm_DeletionTimestamp v \<noteq> None then d
      else if shouldAbortMigration st v \<and> \<not> isOutdated env v then d\<lparr>ud_abort := ud_abort d @ [v]\<rparr>
      else if \<not> isOutdated env v \<and> \<not> doesRequireMigration env v then d
      else
        (let d = d\<lparr>ud_all := ud_all d @ [v]\<rparr> in
         if IsMigrating (we_now env) v then d
         else if vm_Namespace v @ ''/'' @ vm_Name v \<in> lookup then d
         else
           (let volMig = uv_MigratedVolumes v \<noteq> [] \<and> ValidateVolumesUpdateMigration v (uv_MigratedVolumes v) in
            if ''LiveMigrate'' \<in> set (kv_Methods kv) \<and> (IsMigratable v \<or> volMig)
            then d\<lparr>ud_migratable := ud_migratable d @ [v]\<rparr>
            else if ''Evict'' \<in> set (kv_Methods kv) then d\<lparr>ud_evict := ud_evict d @ [v]\<rparr>
            else d)))"

definition getUpdateData :: "'w update_env \<Rightarrow> kubevirt \<Rightarrow> 'w update_state \<Rightarrow> update_data" where
  "getUpdateData env kv st =
     (let ms = wu_ListUnfinishedMigrations st in
      fold (add_vmi env st kv (set (map (\<lambda>m. mg_Namespace m @ ''/'' @ mg_VMIName m) ms))) (ws_vmis st)
        \<lparr>ud_all = [], ud_migratable = [], ud_evict = [], ud_abort = [],
         ud_numActive = length (FilterRunningMigrations ms)\<rparr>)"

section \<open>The goroutines\<close>

text \<open>
  A goroutine sends its errors to a channel, or dereferences a nil pointer, which ends the process:
  \<open>None\<close>.
\<close>

type_synonym 'st worker = "'st \<Rightarrow> (client_error list \<times> 'st) option"

definition new_update_migration :: "updated_vmi \<Rightarrow> update_migration" where
  "new_update_migration v =
     \<lparr>mg_Namespace = [], mg_Name = [], mg_Annotations = [(WorkloadUpdateMigrationAnnotation, [])],
      mg_VMIName = vm_Name v,
      mg_Priority = Some (if isHotplugInProgress v \<or> isVolumesUpdateInProgress v
                          then ''user-triggered'' else ''system-critical''),
      mg_Phase = [],
      um_Labels = (if isVolumesUpdateInProgress v
                   then [(VolumesUpdateMigration, if length (vm_Name v) > 63 then vm_UID v else vm_Name v)] else []),
      um_SendTo = False, um_Receive = False\<rparr>"

definition migrate_worker :: "'w update_env \<Rightarrow> string \<Rightarrow> updated_vmi \<Rightarrow> 'w update_state worker" where
  "migrate_worker env key v st =
     (case we_Create env (vm_Namespace v) (new_update_migration v) (ws_world st) of
        (Some e, w) \<Rightarrow> Some ([e], wu_observe key (st\<lparr>ws_world := w\<rparr>))
      | (None, w) \<Rightarrow> Some ([], st\<lparr>ws_world := w\<rparr>))"

definition newer_pod :: "updated_vmi \<Rightarrow> launcher_pod \<Rightarrow> launcher_pod option \<Rightarrow> launcher_pod option" where
  "newer_pod v p cur =
     (if \<not> IsControlledBy (pd_Owners p) (vm_UID v) then cur
      else if pv_NodeName v \<noteq> [] \<and> pv_NodeName v \<noteq> lp_NodeName p then cur
      else (case cur of None \<Rightarrow> Some p | Some q \<Rightarrow> if lp_Created q < lp_Created p then Some p else cur))"

definition CurrentVMIPod :: "updated_vmi \<Rightarrow> launcher_pod list \<Rightarrow> launcher_pod option" where
  "CurrentVMIPod v pods = fold (newer_pod v) (filter (\<lambda>p. pd_Namespace p = vm_Namespace v) pods) None"

text \<open>The index by namespace never fails, but there may be no pod.\<close>

definition evict_worker :: "'w update_env \<Rightarrow> updated_vmi \<Rightarrow> 'w update_state worker" where
  "evict_worker env v st =
     (case CurrentVMIPod v (ws_pods st) of
        None \<Rightarrow> None
      | Some p \<Rightarrow>
          (case we_Evict env (pd_Namespace p) (lp_Name p) (ws_world st) of
             (Some e, w) \<Rightarrow> Some (if e \<noteq> NotFoundError then [e] else [], st\<lparr>ws_world := w\<rparr>)
           | (None, w) \<Rightarrow> Some ([], st\<lparr>ws_world := w\<rparr>)))"

fun delete_all ::
  "'w update_env \<Rightarrow> string \<Rightarrow> update_migration list \<Rightarrow> 'w update_state \<Rightarrow> client_error list \<times> 'w update_state" where
  "delete_all env ns [] st = ([], st)"
| "delete_all env ns (m # ms) st =
     (case we_Delete env ns (mg_Name m) (ws_world st) of
        (r, w) \<Rightarrow>
          (case delete_all env ns ms (st\<lparr>ws_world := w\<rparr>) of
             (es, st1) \<Rightarrow>
               ((case r of None \<Rightarrow> es | Some e \<Rightarrow> if e \<noteq> NotFoundError then e # es else es), st1)))"

definition abort_worker :: "'w update_env \<Rightarrow> updated_vmi \<Rightarrow> 'w update_state worker" where
  "abort_worker env v st =
     Some (delete_all env (vm_Namespace v) (ListWorkloadUpdateMigrations (vm_Name v) (vm_Namespace v) st) st)"

fun run_workers :: "'st worker list \<Rightarrow> 'st worker" where
  "run_workers [] st = Some ([], st)"
| "run_workers (g # gs) st =
     (case g st of
        None \<Rightarrow> None
      | Some (es, st1) \<Rightarrow> (case run_workers gs st1 of None \<Rightarrow> None | Some (fs, st2) \<Rightarrow> Some (es @ fs, st2)))"

text \<open>
  The channel holds one error for each goroutine. The goroutine that sends one more waits for a
  receiver, and \<^verbatim>\<open>wg.Wait\<close> for this goroutine: the worker of the queue is \<open>Stuck\<close>.
\<close>

datatype 'st update_outcome = Returned "client_error option" 'st | Stuck | ProcessPanic

definition wait_workers :: "'st worker list \<Rightarrow> 'st \<Rightarrow> 'st update_outcome" where
  "wait_workers gs st =
     (case run_workers gs st of
        None \<Rightarrow> ProcessPanic
      | Some (es, st1) \<Rightarrow> if length es > length gs then Stuck else Returned (first_error es) st1)"

section \<open>A reconcile\<close>

definition periodicReEnqueueIntervalSeconds :: int where "periodicReEnqueueIntervalSeconds = 30"

definition patch_outdated ::
  "'w update_env \<Rightarrow> kubevirt \<Rightarrow> nat \<Rightarrow> 'w update_state \<Rightarrow> client_error option \<times> 'w update_state" where
  "patch_outdated env kv n st =
     (if kv_Outdated kv \<noteq> Some n
      then (case we_PatchStatus env n (ws_world st) of
              (Some e, w) \<Rightarrow>
                (Some (OtherError (Errorf ''unable to patch kubevirt obj status to update the outdatedVirtualMachineInstanceWorkloads valued: %v'' [])),
                 st\<lparr>ws_world := w\<rparr>)
            | (None, w) \<Rightarrow> (None, st\<lparr>ws_world := w\<rparr>))
      else (None, st))"

definition next_batch :: "'w update_env \<Rightarrow> kubevirt \<Rightarrow> nat \<Rightarrow> 'w update_state \<Rightarrow> int \<times> 'w update_state" where
  "next_batch env kv n st =
     (let interval = (case kv_BatchEvictionInterval kv of None \<Rightarrow> seconds 60 | Some d \<Rightarrow> d);
          count = (case kv_BatchEvictionSize kv of None \<Rightarrow> 10 | Some c \<Rightarrow> c)
      in if we_now env > ws_lastDeletionBatch st + interval \<and> n > 0
         then (min count (int n), st\<lparr>ws_lastDeletionBatch := we_now env\<rparr>)
         else (0, st))"

definition update_workers ::
  "'w update_env \<Rightarrow> string \<Rightarrow> updated_vmi list \<Rightarrow> updated_vmi list \<Rightarrow> updated_vmi list \<Rightarrow> 'w update_state worker list" where
  "update_workers env key ms es as =
     map (migrate_worker env key) ms @ map (evict_worker env) es @ map (abort_worker env) as"

definition wu_sync :: "'w update_env \<Rightarrow> kubevirt \<Rightarrow> 'w update_state \<Rightarrow> 'w update_state update_outcome" where
  "wu_sync env kv st =
     (let d = getUpdateData env kv st; key = kv_Key kv in
      case patch_outdated env kv (length (ud_all d)) st of
        (Some e, st1) \<Rightarrow> Returned (Some e) st1
      | (None, st1) \<Rightarrow>
          (let st2 = (if ud_evict d \<noteq> [] \<or> ud_migratable d \<noteq> [] \<or> ud_abort d \<noteq> []
                      then AddAfter key periodicReEnqueueIntervalSeconds st1 else st1);
               migratable = we_shuffle env (ud_migratable d)
           in case next_batch env kv (length (ud_evict d)) st2 of
                (count, st3) \<Rightarrow>
                  (let maxNew = max 0 (int (we_ParallelMigrations env) - int (ud_numActive d));
                       migrateCount = min maxNew (int (length migratable));
                       ms = take (nat migrateCount) migratable;
                       es = (if count > 0 then take (nat count) (ud_evict d) else []);
                       gs = update_workers env key ms es (ud_abort d);
                       st4 = st3\<lparr>ws_expectations := (ws_expectations st3)\<lparr>ut_inner :=
                               ExpectCreations (we_now env) key migrateCount (ut_inner (ws_expectations st3))\<rparr>\<rparr>
                   in wait_workers (map (\<lambda>i. gs ! i) (we_sched env (length gs))) st4)))"

text \<open>
  A reconcile. All caches are read in the state at its start, and all its clock readings are
  \<open>we_now\<close>: its calls take no time.
\<close>

definition wu_execute :: "'w update_env \<Rightarrow> string \<Rightarrow> 'w update_state \<Rightarrow> 'w update_state update_outcome" where
  "wu_execute env key st =
     (case find (\<lambda>kv. kv_Key kv = key) (ws_kubevirts st) of
        None \<Rightarrow>
          Returned None (st\<lparr>ws_expectations :=
            uid_DeleteExpectations (controller_ops (we_now env)) key (ws_expectations st)\<rparr>)
      | Some kv \<Rightarrow>
          if \<not> SatisfiedExpectations (we_now env) (ut_inner (ws_expectations st)) key then Returned None st
          else if kv_Phase kv \<noteq> ''Deployed'' then Returned None st
          else if kv_ObservedDeploymentID kv \<noteq> kv_TargetDeploymentID kv then Returned None st
          else wu_sync env kv st)"

end
