(* ===== verification/WorkloadCorrect.thy ===== *)
theory WorkloadCorrect
  imports Workload ApiServer "HOL-Library.Multiset"
begin

text \<open>
  What the workload update controller does to the cluster: exactly which migrations it creates and
  deletes and which pods it evicts, how evictions are rationed over time, and when a reconcile
  returns at all.
\<close>

section \<open>Whom it concerns\<close>

definition live :: "updated_vmi \<Rightarrow> bool" where
  "live v \<longleftrightarrow> vmi_IsRunning v \<and> vm_DeletionTimestamp v = None"

definition to_abort :: "'e update_env \<Rightarrow> 'w update_state \<Rightarrow> updated_vmi \<Rightarrow> bool" where
  "to_abort env st v \<longleftrightarrow> live v \<and> shouldAbortMigration st v \<and> \<not> isOutdated env v"

definition to_update :: "'e update_env \<Rightarrow> 'w update_state \<Rightarrow> updated_vmi \<Rightarrow> bool" where
  "to_update env st v \<longleftrightarrow>
     live v \<and> (isOutdated env v \<or> \<not> shouldAbortMigration st v \<and> doesRequireMigration env v)"

text \<open>No migration of the instance is under way.\<close>

definition unmoved :: "'e update_env \<Rightarrow> 'w update_state \<Rightarrow> updated_vmi \<Rightarrow> bool" where
  "unmoved env st v \<longleftrightarrow> \<not> IsMigrating (we_now env) v \<and>
     (\<forall>m \<in> set (ws_migrations st). \<not> migration_IsFinal m \<longrightarrow>
        mg_Namespace m @ ''/'' @ mg_VMIName m \<noteq> VirtualMachineInstanceKey v)"

definition can_migrate :: "kubevirt \<Rightarrow> updated_vmi \<Rightarrow> bool" where
  "can_migrate kv v \<longleftrightarrow> ''LiveMigrate'' \<in> set (kv_Methods kv) \<and>
     (IsMigratable v \<or> uv_MigratedVolumes v \<noteq> [] \<and> ValidateVolumesUpdateMigration v (uv_MigratedVolumes v))"

definition to_migrate :: "'e update_env \<Rightarrow> 'w update_state \<Rightarrow> kubevirt \<Rightarrow> updated_vmi \<Rightarrow> bool" where
  "to_migrate env st kv v \<longleftrightarrow> to_update env st v \<and> unmoved env st v \<and> can_migrate kv v"

definition to_evict :: "'e update_env \<Rightarrow> 'w update_state \<Rightarrow> kubevirt \<Rightarrow> updated_vmi \<Rightarrow> bool" where
  "to_evict env st kv v \<longleftrightarrow> to_update env st v \<and> unmoved env st v \<and> \<not> can_migrate kv v \<and>
     ''Evict'' \<in> set (kv_Methods kv)"

lemma running_not_final: "vmi_IsRunning v \<Longrightarrow> \<not> IsFinal v"
  by (simp add: vmi_IsRunning_def IsFinal_def)

lemma getUpdateData_eq:
  "getUpdateData env kv st =
     \<lparr>ud_all = filter (to_update env st) (ws_vmis st), ud_migratable = filter (to_migrate env st kv) (ws_vmis st),
      ud_evict = filter (to_evict env st kv) (ws_vmis st), ud_abort = filter (to_abort env st) (ws_vmis st),
      ud_numActive = length (FilterRunningMigrations (wu_ListUnfinishedMigrations st))\<rparr>"
proof -
  define lookup where "lookup = set (map (\<lambda>m. mg_Namespace m @ ''/'' @ mg_VMIName m) (wu_ListUnfinishedMigrations st))"
  have free: "unmoved env st v \<longleftrightarrow> \<not> IsMigrating (we_now env) v \<and> vm_Namespace v @ ''/'' @ vm_Name v \<notin> lookup" for v
    by (fastforce simp: lookup_def unmoved_def wu_ListUnfinishedMigrations_def VirtualMachineInstanceKey_def image_iff)
  have step: "add_vmi env st kv lookup v d =
      d\<lparr>ud_all := ud_all d @ (if to_update env st v then [v] else []),
        ud_migratable := ud_migratable d @ (if to_migrate env st kv v then [v] else []),
        ud_evict := ud_evict d @ (if to_evict env st kv v then [v] else []),
        ud_abort := ud_abort d @ (if to_abort env st v then [v] else [])\<rparr>" for v d
  proof -
    have "add_vmi env st kv lookup v d =
      (if \<not> live v then d
       else if shouldAbortMigration st v \<and> \<not> isOutdated env v then d\<lparr>ud_abort := ud_abort d @ [v]\<rparr>
       else if \<not> isOutdated env v \<and> \<not> doesRequireMigration env v then d
       else
         (let d = d\<lparr>ud_all := ud_all d @ [v]\<rparr> in
          if \<not> unmoved env st v then d
          else if can_migrate kv v then d\<lparr>ud_migratable := ud_migratable d @ [v]\<rparr>
          else if ''Evict'' \<in> set (kv_Methods kv) then d\<lparr>ud_evict := ud_evict d @ [v]\<rparr> else d))"
      unfolding add_vmi_def free can_migrate_def Let_def live_def using running_not_final [of v] by simp
    then show ?thesis
      by (cases "live v"; cases "shouldAbortMigration st v"; cases "isOutdated env v"; cases "doesRequireMigration env v")
        (simp_all add: to_update_def to_migrate_def to_evict_def to_abort_def Let_def)
  qed
  have "fold (add_vmi env st kv lookup) vs d =
      d\<lparr>ud_all := ud_all d @ filter (to_update env st) vs, ud_migratable := ud_migratable d @ filter (to_migrate env st kv) vs,
        ud_evict := ud_evict d @ filter (to_evict env st kv) vs, ud_abort := ud_abort d @ filter (to_abort env st) vs\<rparr>" for vs d
    by (induction vs arbitrary: d) (simp_all add: step)
  then show ?thesis unfolding getUpdateData_def Let_def lookup_def [symmetric] by simp
qed

section \<open>The calls\<close>

datatype update_call = PatchCall nat | CreateCall string update_migration | EvictCall string string
  | DeleteCall string string

definition recording :: "'w update_env \<Rightarrow> ('w \<times> update_call list) update_env" where
  "recording env =
     \<lparr>we_launcherImage = we_launcherImage env, we_ParallelMigrations = we_ParallelMigrations env,
      we_now = we_now env, we_shuffle = we_shuffle env, we_sched = we_sched env,
      we_PatchStatus = (\<lambda>n. noted (PatchCall n) (we_PatchStatus env n)),
      we_Create = (\<lambda>ns m. noted (CreateCall ns m) (we_Create env ns m)),
      we_Evict = (\<lambda>ns p. noted (EvictCall ns p) (we_Evict env ns p)),
      we_Delete = (\<lambda>ns m. noted (DeleteCall ns m) (we_Delete env ns m))\<rparr>"

lemma recording_simps [simp]:
  "we_launcherImage (recording env) = we_launcherImage env"
  "we_ParallelMigrations (recording env) = we_ParallelMigrations env" "we_now (recording env) = we_now env"
  "we_shuffle (recording env) = we_shuffle env" "we_sched (recording env) = we_sched env"
  "we_PatchStatus (recording env) n = noted (PatchCall n) (we_PatchStatus env n)"
  "we_Create (recording env) ns m = noted (CreateCall ns m) (we_Create env ns m)"
  "we_Evict (recording env) ns p = noted (EvictCall ns p) (we_Evict env ns p)"
  "we_Delete (recording env) ns p = noted (DeleteCall ns p) (we_Delete env ns p)"
  by (simp_all add: recording_def)

lemma recorded [simp]:
  "to_update (recording env) st = to_update env st" "to_migrate (recording env) st kv = to_migrate env st kv"
  "to_evict (recording env) st kv = to_evict env st kv" "to_abort (recording env) st = to_abort env st"
  by (rule ext, simp add: to_update_def to_migrate_def to_evict_def to_abort_def unmoved_def isOutdated_def
      doesRequireMigration_def)+

text \<open>What a reconcile reads of the caches while its goroutines run.\<close>

definition same_caches :: "'w update_state \<Rightarrow> 'w update_state \<Rightarrow> bool" where
  "same_caches st st' \<longleftrightarrow> ws_vmis st' = ws_vmis st \<and> ws_migrations st' = ws_migrations st \<and> ws_pods st' = ws_pods st \<and>
     ws_lastDeletionBatch st' = ws_lastDeletionBatch st \<and> ws_queue st' = ws_queue st"

lemma same_caches_refl [simp]: "same_caches st st"
  by (simp add: same_caches_def)

lemma same_caches_trans: "same_caches st st1 \<Longrightarrow> same_caches st1 st2 \<Longrightarrow> same_caches st st2"
  by (simp add: same_caches_def)

text \<open>A goroutine that, when it ends well, makes these calls and sends at most so many errors.\<close>

definition makes ::
  "('w \<times> update_call list) update_state \<Rightarrow> update_call list \<Rightarrow> ('w \<times> update_call list) update_state worker \<Rightarrow> bool" where
  "makes st0 cs g \<longleftrightarrow> (\<forall>st es st1. same_caches st0 st \<longrightarrow> g st = Some (es, st1) \<longrightarrow>
     same_caches st0 st1 \<and> snd (ws_world st1) = snd (ws_world st) @ cs \<and> length es \<le> length cs)"

lemma wu_observe_same [simp]: "same_caches st (wu_observe key st') = same_caches st st'"
  "ws_world (wu_observe key st) = ws_world st"
  by (simp_all add: same_caches_def wu_observe_def)

lemma world_same [simp]: "same_caches st (st'\<lparr>ws_world := w\<rparr>) = same_caches st st'"
  by (simp add: same_caches_def)

lemma migrate_makes:
  "makes st0 [CreateCall (vm_Namespace v) (new_update_migration v)] (migrate_worker (recording env) key v)"
  by (auto simp: makes_def migrate_worker_def split: prod.splits option.splits dest: noted_run(2))

definition evict_call :: "'w update_state \<Rightarrow> updated_vmi \<Rightarrow> update_call" where
  "evict_call st v =
     (case CurrentVMIPod v (ws_pods st) of
        None \<Rightarrow> EvictCall [] [] | Some p \<Rightarrow> EvictCall (pd_Namespace p) (lp_Name p))"

lemma evict_makes: "makes st0 [evict_call st0 v] (evict_worker (recording env) v)"
  by (auto simp: makes_def evict_worker_def evict_call_def same_caches_def split: prod.splits option.splits if_splits
      dest: noted_run(2))

definition abort_calls :: "'w update_state \<Rightarrow> updated_vmi \<Rightarrow> update_call list" where
  "abort_calls st v =
     map (\<lambda>m. DeleteCall (vm_Namespace v) (mg_Name m)) (ListWorkloadUpdateMigrations (vm_Name v) (vm_Namespace v) st)"

lemma delete_all_few:
  "delete_all env ns ms st = (es, st1) \<Longrightarrow> same_caches st st1 \<and> length es \<le> length ms"
proof (induction ms arbitrary: st es st1)
  case (Cons m ms)
  obtain r w where r: "we_Delete env ns (mg_Name m) (ws_world st) = (r, w)" using prod.exhaust by blast
  obtain fs st2 where d: "delete_all env ns ms (st\<lparr>ws_world := w\<rparr>) = (fs, st2)" using prod.exhaust by blast
  show ?case
    using Cons.prems Cons.IH [OF d] r d by (auto simp: same_caches_def split: option.splits if_splits)
qed simp

lemma delete_all_calls:
  "delete_all (recording env) ns ms st = (es, st1) \<Longrightarrow>
   snd (ws_world st1) = snd (ws_world st) @ map (\<lambda>m. DeleteCall ns (mg_Name m)) ms"
proof (induction ms arbitrary: st es st1)
  case (Cons m ms)
  obtain r w where r: "noted (DeleteCall ns (mg_Name m)) (we_Delete env ns (mg_Name m)) (ws_world st) = (r, w)"
    using prod.exhaust by blast
  obtain fs st2 where d: "delete_all (recording env) ns ms (st\<lparr>ws_world := w\<rparr>) = (fs, st2)" using prod.exhaust by blast
  show ?case
    using Cons.prems Cons.IH [OF d] noted_run(2) [OF r] r d by (auto split: option.splits if_splits)
qed simp

lemma abort_makes: "makes st0 (abort_calls st0 v) (abort_worker (recording env) v)"
  unfolding makes_def
proof (intro allI impI)
  fix st es st1
  assume s: "same_caches st0 st" and g: "abort_worker (recording env) v st = Some (es, st1)"
  have "ListWorkloadUpdateMigrations (vm_Name v) (vm_Namespace v) st =
      ListWorkloadUpdateMigrations (vm_Name v) (vm_Namespace v) st0"
    using s by (simp add: ListWorkloadUpdateMigrations_def same_caches_def)
  then show "same_caches st0 st1 \<and> snd (ws_world st1) = snd (ws_world st) @ abort_calls st0 v \<and>
      length es \<le> length (abort_calls st0 v)"
    using delete_all_calls [of env _ _ st es st1] delete_all_few [of "recording env" _ _ st es st1] g same_caches_trans [OF s]
    by (auto simp: abort_worker_def abort_calls_def)
qed

lemma run_workers_makes:
  assumes "list_all2 (makes st0) css gs" "same_caches st0 st" "run_workers gs st = Some (es, st1)"
  shows "same_caches st0 st1" "snd (ws_world st1) = snd (ws_world st) @ concat css"
proof -
  have "same_caches st0 st1 \<and> snd (ws_world st1) = snd (ws_world st) @ concat css"
    using assms
  proof (induction css gs arbitrary: st es rule: list_all2_induct)
    case (Cons cs css g gs)
    then obtain fs st2 hs where g: "g st = Some (fs, st2)" and r: "run_workers gs st2 = Some (hs, st1)"
      by (auto split: option.splits)
    have "same_caches st0 st2" "snd (ws_world st2) = snd (ws_world st) @ cs"
      using Cons.hyps(1) Cons.prems(1) g unfolding makes_def by blast+
    then show ?case using Cons.IH [OF _ r] by simp
  qed simp
  then show "same_caches st0 st1" "snd (ws_world st1) = snd (ws_world st) @ concat css" by simp_all
qed

text \<open>The order of the goroutines does not matter for which calls are made.\<close>

lemma mset_concat_cong: "mset xss = mset yss \<Longrightarrow> mset (concat xss) = mset (concat yss)"
  by (metis mset_concat mset_map sum_mset_sum_list)

lemma scheduled_mset:
  assumes "mset order = mset [0..<length xs]"
  shows "mset (map ((!) xs) order) = mset xs"
proof -
  have "mset (map ((!) xs) order) = image_mset ((!) xs) (mset [0..<length xs])"
    by (simp only: mset_map assms)
  also have "\<dots> = mset (map ((!) xs) [0..<length xs])" by simp
  finally show ?thesis by (simp only: map_nth)
qed

lemma scheduled_makes:
  assumes "mset order = mset [0..<length gs]" "list_all2 (makes st0) css gs"
  shows "list_all2 (makes st0) (map ((!) css) order) (map ((!) gs) order)"
proof -
  have "set order = {..<length gs}" using arg_cong [OF assms(1), of set_mset] by (simp add: atLeast0LessThan)
  then have "order ! i < length gs" if "i < length order" for i using nth_mem [OF that] by auto
  then show ?thesis using assms(2) by (simp add: list_all2_conv_all_nth)
qed

definition worker_calls ::
  "'w update_state \<Rightarrow> updated_vmi list \<Rightarrow> updated_vmi list \<Rightarrow> updated_vmi list \<Rightarrow> update_call list list" where
  "worker_calls st ms es as =
     map (\<lambda>v. [CreateCall (vm_Namespace v) (new_update_migration v)]) ms @ map (\<lambda>v. [evict_call st v]) es @
     map (abort_calls st) as"

lemma update_workers_make:
  "list_all2 (makes st) (worker_calls st ms es as) (update_workers (recording env) key ms es as)"
  unfolding worker_calls_def update_workers_def
  by (intro list_all2_appendI) (simp_all add: list_all2_map1 list_all2_map2 list_all2_same migrate_makes evict_makes abort_makes)

definition fair_order :: "'w update_env \<Rightarrow> bool" where
  "fair_order env \<longleftrightarrow> (\<forall>xs. mset (we_shuffle env xs) = mset xs) \<and> (\<forall>n. mset (we_sched env n) = mset [0..<n])"

lemma wait_workers_calls:
  assumes "wait_workers (map ((!) (update_workers (recording env) key ms es as)) (we_sched env (length (update_workers (recording env) key ms es as)))) st
      = Returned err st1"
    and "fair_order env"
  shows "same_caches st st1"
    "\<exists>cs. snd (ws_world st1) = snd (ws_world st) @ cs \<and> mset cs = mset (concat (worker_calls st ms es as))"
proof -
  let ?gs = "update_workers (recording env) key ms es as" and ?css = "worker_calls st ms es as"
  let ?order = "we_sched env (length ?gs)"
  have perm: "mset ?order = mset [0..<length ?gs]" using assms(2) by (simp add: fair_order_def)
  have len: "length ?css = length ?gs" by (simp add: worker_calls_def update_workers_def)
  obtain errs where run: "run_workers (map ((!) ?gs) ?order) st = Some (errs, st1)"
    using assms(1) by (auto simp: wait_workers_def split: option.splits if_splits)
  note run = run_workers_makes [OF scheduled_makes [OF perm update_workers_make] _ this]
  show "same_caches st st1" by (rule run(1)) simp
  have "mset (concat (map ((!) ?css) ?order)) = mset (concat ?css)"
    using perm by (intro mset_concat_cong scheduled_mset) (simp add: len)
  then show "\<exists>cs. snd (ws_world st1) = snd (ws_world st) @ cs \<and> mset cs = mset (concat ?css)"
    using run(2) [of st] by simp
qed

section \<open>A reconcile\<close>

text \<open>The instances a reconcile migrates and those it evicts.\<close>

definition room :: "'e update_env \<Rightarrow> 'w update_state \<Rightarrow> nat" where
  "room env st = we_ParallelMigrations env -
     length (filter (\<lambda>m. \<not> migration_IsFinal m \<and> migration_IsRunning m) (ws_migrations st))"

definition batch_size :: "kubevirt \<Rightarrow> nat" where
  "batch_size kv = nat (case kv_BatchEvictionSize kv of None \<Rightarrow> 10 | Some c \<Rightarrow> c)"

definition batch_interval :: "kubevirt \<Rightarrow> duration" where
  "batch_interval kv = (case kv_BatchEvictionInterval kv of None \<Rightarrow> seconds 60 | Some d \<Rightarrow> d)"

definition batch_due :: "'e update_env \<Rightarrow> 'w update_state \<Rightarrow> kubevirt \<Rightarrow> bool" where
  "batch_due env st kv \<longleftrightarrow> we_now env > ws_lastDeletionBatch st + batch_interval kv"

definition evicted_now :: "'e update_env \<Rightarrow> 'w update_state \<Rightarrow> kubevirt \<Rightarrow> updated_vmi list" where
  "evicted_now env st kv =
     (if batch_due env st kv then take (batch_size kv) (filter (to_evict env st kv) (ws_vmis st)) else [])"

lemma wu_sync_calls:
  assumes sync: "wu_sync (recording env) kv st = Returned err st1" and fair: "fair_order env"
    and new: "snd (ws_world st) = []"
  defines "n \<equiv> length (filter (to_update env st) (ws_vmis st))"
  defines "patch \<equiv> (if kv_Outdated kv \<noteq> Some n then [PatchCall n] else [])"
  shows "patch \<noteq> [] \<and> err \<noteq> None \<and> snd (ws_world st1) = patch \<and> ws_lastDeletionBatch st1 = ws_lastDeletionBatch st \<or>
    (\<exists>ms cs. mset ms \<subseteq># mset (filter (to_migrate env st kv) (ws_vmis st)) \<and>
       length ms = min (room env st) (length (filter (to_migrate env st kv) (ws_vmis st))) \<and>
       snd (ws_world st1) = patch @ cs \<and>
       mset cs = mset (concat (worker_calls st ms (evicted_now env st kv) (filter (to_abort env st) (ws_vmis st)))) \<and>
       ws_lastDeletionBatch st1 =
         (if batch_due env st kv \<and> filter (to_evict env st kv) (ws_vmis st) \<noteq> [] then we_now env
          else ws_lastDeletionBatch st))"
proof -
  let ?mig = "filter (to_migrate env st kv) (ws_vmis st)" and ?ev = "filter (to_evict env st kv) (ws_vmis st)"
  let ?ab = "filter (to_abort env st) (ws_vmis st)"
  obtain r st2 where p: "patch_outdated (recording env) kv n st = (r, st2)" using prod.exhaust by blast
  have st2: "same_caches st st2" "snd (ws_world st2) = patch" "r \<noteq> None \<Longrightarrow> patch \<noteq> []"
    using p new by (auto simp: patch_outdated_def patch_def split: if_splits prod.splits option.splits dest: noted_run(2))
  show ?thesis
  proof (cases r)
    case (Some e)
    then show ?thesis using sync p st2
      by (auto simp: wu_sync_def getUpdateData_eq Let_def n_def same_caches_def)
  next
    case None
    define st3 where "st3 = (if ?ev \<noteq> [] \<or> ?mig \<noteq> [] \<or> ?ab \<noteq> []
        then AddAfter (kv_Key kv) periodicReEnqueueIntervalSeconds st2 else st2)"
    obtain count st4 where nb: "next_batch (recording env) kv (length ?ev) st3 = (count, st4)" using prod.exhaust by blast
    define ms where "ms = take (nat (min (max 0 (int (we_ParallelMigrations env) -
        int (length (FilterRunningMigrations (wu_ListUnfinishedMigrations st))))) (int (length (we_shuffle env ?mig)))))
        (we_shuffle env ?mig)"
    define es where "es = (if count > 0 then take (nat count) ?ev else [])"
    let ?gs = "update_workers (recording env) (kv_Key kv) ms es ?ab"
    define st5 where "st5 = st4\<lparr>ws_expectations := (ws_expectations st4)\<lparr>ut_inner :=
        ExpectCreations (we_now env) (kv_Key kv) (min (max 0 (int (we_ParallelMigrations env) -
          int (length (FilterRunningMigrations (wu_ListUnfinishedMigrations st))))) (int (length (we_shuffle env ?mig))))
          (ut_inner (ws_expectations st4))\<rparr>\<rparr>"
    have st5: "ws_world st5 = ws_world st4" "ws_pods st5 = ws_pods st4" "ws_migrations st5 = ws_migrations st4"
        "ws_lastDeletionBatch st5 = ws_lastDeletionBatch st4"
      by (simp_all add: st5_def)
    have w: "wait_workers (map ((!) ?gs) (we_sched env (length ?gs))) st5 = Returned err st1"
      using sync unfolding wu_sync_def getUpdateData_eq Let_def recorded update_data.select_convs n_def [symmetric]
        p None prod.case option.case st3_def [symmetric] nb recording_simps ms_def [symmetric] es_def [symmetric]
        st5_def [symmetric] .
    note calls = wait_workers_calls [OF w fair]
    have st3: "ws_world st3 = ws_world st2" "ws_lastDeletionBatch st3 = ws_lastDeletionBatch st"
        "ws_pods st3 = ws_pods st" "ws_migrations st3 = ws_migrations st"
      using st2(1) by (simp_all add: st3_def AddAfter_def same_caches_def)
    have st4: "ws_world st4 = ws_world st2" "ws_pods st4 = ws_pods st" "ws_migrations st4 = ws_migrations st"
        "ws_lastDeletionBatch st4 = (if batch_due env st kv \<and> ?ev \<noteq> [] then we_now env else ws_lastDeletionBatch st)"
      using nb st3 by (auto simp: next_batch_def Let_def batch_due_def batch_interval_def split: if_splits)
    have es: "es = evicted_now env st kv"
      using nb st3(2) by (auto simp: es_def evicted_now_def next_batch_def Let_def batch_due_def batch_interval_def
          batch_size_def min_def split: if_splits option.splits)
    have perm: "mset (we_shuffle env ?mig) = mset ?mig" using fair by (simp add: fair_order_def)
    then have len: "length (we_shuffle env ?mig) = length ?mig" by (rule mset_eq_length)
    have "mset ms \<subseteq># mset ?mig" unfolding ms_def perm [symmetric]
      by (metis append_take_drop_id mset_append mset_subset_eq_add_left)
    moreover have "length ms = min (room env st) (length ?mig)"
      by (simp add: ms_def len room_def FilterRunningMigrations_def wu_ListUnfinishedMigrations_def)
    moreover have "worker_calls st5 ms es ?ab = worker_calls st ms es ?ab"
      using st4 st5 by (simp add: worker_calls_def evict_call_def abort_calls_def ListWorkloadUpdateMigrations_def)
    moreover have "ws_lastDeletionBatch st1 = ws_lastDeletionBatch st4"
      using calls(1) st5(4) by (simp add: same_caches_def)
    ultimately show ?thesis using calls(2) st5(1) st4 st2(2) es by auto
  qed
qed

lemma sub_distinct:
  assumes "mset xs \<subseteq># mset ys" "distinct ys"
  shows "distinct xs" "set xs \<subseteq> set ys"
proof -
  have "count (mset xs) a = (if a \<in> set xs then 1 else 0)" for a
  proof (cases "a \<in> set xs")
    case True
    have "count (mset xs) a \<le> count (mset ys) a" using assms(1) by (rule mset_subset_eq_count)
    also have "\<dots> \<le> 1" using assms(2) by (simp add: distinct_count_atmost_1)
    moreover have "0 < count (mset xs) a" using True by simp
    ultimately show ?thesis using True by (simp del: count_greater_zero_iff)
  qed (simp add: not_in_iff [symmetric])
  then show "distinct xs" by (simp add: distinct_count_atmost_1)
  show "set xs \<subseteq> set ys" using assms(1) by (metis set_mset_mono set_mset_mset)
qed

lemma groups_distinct:
  assumes ms: "mset ms \<subseteq># mset (filter (to_migrate env st kv) (ws_vmis st))"
    and dist: "distinct (map VirtualMachineInstanceKey (ws_vmis st))"
  shows "distinct (map VirtualMachineInstanceKey (ms @ evicted_now env st kv @ filter (to_abort env st) (ws_vmis st)))"
    "list_all (unmoved env st) (ms @ evicted_now env st kv)"
proof -
  let ?vs = "ws_vmis st" and ?es = "evicted_now env st kv" and ?as = "filter (to_abort env st) (ws_vmis st)"
  have d: "distinct ?vs" and inj: "inj_on VirtualMachineInstanceKey (set ?vs)"
    using dist by (simp_all add: distinct_map)
  note m = sub_distinct [OF ms distinct_filter [OF d]]
  have e: "set ?es \<subseteq> {v \<in> set ?vs. to_evict env st kv v}" "distinct ?es"
    using d by (auto simp: evicted_now_def dest: in_set_takeD)
  have "\<not> (to_migrate env st kv v \<and> to_evict env st kv v)" "\<not> (to_migrate env st kv v \<and> to_abort env st v)"
    "\<not> (to_evict env st kv v \<and> to_abort env st v)" for v
    by (auto simp: to_migrate_def to_evict_def to_update_def to_abort_def)
  then have "set ms \<inter> set ?es = {}" "set ms \<inter> set ?as = {}" "set ?es \<inter> set ?as = {}"
    using m(2) e(1) by fastforce+
  then have "distinct (ms @ ?es @ ?as)" using m(1) e(2) d by auto
  moreover have "set (ms @ ?es @ ?as) \<subseteq> set ?vs" using m(2) e(1) by auto
  ultimately show "distinct (map VirtualMachineInstanceKey (ms @ ?es @ ?as))"
    unfolding distinct_map using inj inj_on_subset by blast
  show "list_all (unmoved env st) (ms @ ?es)"
    using m(2) e(1) by (auto simp: list_all_iff to_migrate_def to_evict_def)
qed

text \<open>
  C13: The writes of a reconcile that writes anything and returns are determined by the caches. It
  runs on a deployed KubeVirt only. It reports the number of instances that need an update, when that
  changed; if this fails it does nothing else. It creates one migration for each of as many of the
  instances that need an update and can migrate as the limit of the cluster leaves room for; it
  evicts, when the interval since the last batch has passed, the pods of the first instances that
  need an update and cannot migrate, up to the size of a batch; and it deletes the unfinished
  migrations of the instances whose update is needed no longer. No instance is in two of the groups,
  and none that is migrated or evicted has a migration under way.
\<close>

theorem update_writes_exact:
  assumes "wu_execute (recording env) key st = Returned err st1" "fair_order env"
    "snd (ws_world st) = []" "snd (ws_world st1) \<noteq> []"
    "distinct (map VirtualMachineInstanceKey (ws_vmis st))"
  shows "\<exists>kv \<in> set (ws_kubevirts st). kv_Key kv = key \<and> kv_Phase kv = ''Deployed'' \<and>
    (let n = length (filter (to_update env st) (ws_vmis st));
         patch = (if kv_Outdated kv \<noteq> Some n then [PatchCall n] else []);
         migratable = filter (to_migrate env st kv) (ws_vmis st);
         evicted = (if batch_due env st kv then take (batch_size kv) (filter (to_evict env st kv) (ws_vmis st)) else []);
         aborted = filter (to_abort env st) (ws_vmis st)
     in err \<noteq> None \<and> snd (ws_world st1) = patch \<or>
        (\<exists>migrated cs. mset migrated \<subseteq># mset migratable \<and> length migrated = min (room env st) (length migratable) \<and>
           snd (ws_world st1) = patch @ cs \<and>
           mset cs = mset (map (\<lambda>v. CreateCall (vm_Namespace v) (new_update_migration v)) migrated @
                           map (evict_call st) evicted @ concat (map (abort_calls st) aborted)) \<and>
           distinct (map VirtualMachineInstanceKey (migrated @ evicted @ aborted)) \<and>
           list_all (unmoved env st) (migrated @ evicted)))"
proof -
  have "ws_world st1 \<noteq> ws_world st" using assms(3,4) by auto
  then obtain kv where kv: "find (\<lambda>kv. kv_Key kv = key) (ws_kubevirts st) = Some kv" "kv_Phase kv = ''Deployed''" and
    sync: "wu_sync (recording env) kv st = Returned err st1"
    using assms(1) by (auto simp: wu_execute_def split: option.splits if_splits)
  from kv(1) have "kv \<in> set (ws_kubevirts st)" "kv_Key kv = key" by (auto simp: find_Some_iff)
  moreover have "concat (worker_calls st ms es as) =
      map (\<lambda>v. CreateCall (vm_Namespace v) (new_update_migration v)) ms @ map (evict_call st) es @
      concat (map (abort_calls st) as)" for ms es as
    by (simp add: worker_calls_def concat_map_singleton flip: map_map)
  moreover note kv(2) wu_sync_calls [OF sync assms(2,3)] groups_distinct [OF _ assms(5), of _ env kv]
  ultimately show ?thesis
    unfolding Let_def evicted_now_def [symmetric] by (metis (no_types, lifting))
qed

section \<open>Evictions over time\<close>

text \<open>
  The evictions a process of the controller has made, with the times of their reconciles. Between
  two reconciles the caches, the queue and the expectations change in any way; the time of the last
  batch is changed by a reconcile only. A restart of the process forgets it and starts a new history.
\<close>

definition evictions :: "update_call list \<Rightarrow> nat" where
  "evictions cs = length (filter (\<lambda>c. case c of EvictCall _ _ \<Rightarrow> True | _ \<Rightarrow> False) cs)"

inductive eviction_history ::
  "nat \<Rightarrow> duration \<Rightarrow> ('w \<times> update_call list) update_state \<Rightarrow> (go_time \<times> nat) list \<Rightarrow> bool" for cap interval where
  eviction_start: "eviction_history cap interval st []"
| eviction_change:
    "eviction_history cap interval st log \<Longrightarrow> ws_lastDeletionBatch st' = ws_lastDeletionBatch st \<Longrightarrow>
     eviction_history cap interval st' log"
| eviction_reconcile:
    "eviction_history cap interval st log \<Longrightarrow> fair_order env \<Longrightarrow> snd (ws_world st) = [] \<Longrightarrow>
     \<forall>kv \<in> set (ws_kubevirts st). batch_size kv \<le> cap \<and> interval \<le> batch_interval kv \<Longrightarrow>
     wu_execute (recording env) key st = Returned err st1 \<Longrightarrow>
     eviction_history cap interval st1 (log @ [(we_now env, evictions (snd (ws_world st1)))])"

lemma evictions_append: "evictions (cs @ ds) = evictions cs + evictions ds"
  by (simp add: evictions_def)

lemma evictions_mset: "mset cs = mset ds \<Longrightarrow> evictions cs = evictions ds"
  by (metis evictions_def mset_filter size_mset)

lemma evictions_worker_calls: "evictions (concat (worker_calls st ms es as)) = length es"
proof -
  have "evictions (concat (map (\<lambda>v. [CreateCall (vm_Namespace v) (new_update_migration v)]) ms)) = 0"
    by (induction ms) (simp_all add: evictions_def)
  moreover have "evictions (concat (map (\<lambda>v. [evict_call st v]) es)) = length es"
    by (induction es) (simp_all add: evictions_def evict_call_def split: option.split)
  moreover have "evictions (abort_calls st v) = 0" for v
    by (simp add: evictions_def abort_calls_def filter_empty_conv)
  then have "evictions (concat (map (abort_calls st) as)) = 0"
    by (induction as) (simp_all add: evictions_append, simp add: evictions_def)
  ultimately show ?thesis by (simp add: worker_calls_def evictions_append)
qed

text \<open>A reconcile evicts at most a batch, and then the interval has passed and the time is noted.\<close>

lemma reconcile_evictions:
  assumes "wu_execute (recording env) key st = Returned err st1" "fair_order env" "snd (ws_world st) = []"
    "\<forall>kv \<in> set (ws_kubevirts st). batch_size kv \<le> cap \<and> interval \<le> batch_interval kv"
  shows "evictions (snd (ws_world st1)) = 0 \<and> ws_lastDeletionBatch st1 = ws_lastDeletionBatch st \<or>
    evictions (snd (ws_world st1)) \<le> cap \<and> ws_lastDeletionBatch st1 = we_now env \<and>
    ws_lastDeletionBatch st + interval < we_now env"
proof (cases "ws_world st1 = ws_world st \<and> ws_lastDeletionBatch st1 = ws_lastDeletionBatch st")
  case True
  then show ?thesis using assms(3) by (simp add: evictions_def)
next
  case False
  then obtain kv where kv: "find (\<lambda>kv. kv_Key kv = key) (ws_kubevirts st) = Some kv" and
    sync: "wu_sync (recording env) kv st = Returned err st1"
    using assms(1) by (auto simp: wu_execute_def split: option.splits if_splits)
  from kv have "kv \<in> set (ws_kubevirts st)" by (auto simp: find_Some_iff)
  then have cap: "batch_size kv \<le> cap" "interval \<le> batch_interval kv" using assms(4) by auto
  let ?n = "length (filter (to_update env st) (ws_vmis st))"
  define patch where "patch = (if kv_Outdated kv \<noteq> Some ?n then [PatchCall ?n] else [])"
  have p: "evictions patch = 0" by (simp add: patch_def evictions_def)
  consider "snd (ws_world st1) = patch" "ws_lastDeletionBatch st1 = ws_lastDeletionBatch st"
    | ms cs where "snd (ws_world st1) = patch @ cs"
      "mset cs = mset (concat (worker_calls st ms (evicted_now env st kv) (filter (to_abort env st) (ws_vmis st))))"
      "ws_lastDeletionBatch st1 =
         (if batch_due env st kv \<and> filter (to_evict env st kv) (ws_vmis st) \<noteq> [] then we_now env
          else ws_lastDeletionBatch st)"
    using wu_sync_calls [OF sync assms(2,3)] unfolding patch_def by blast
  then show ?thesis
  proof cases
    case 1
    then show ?thesis using p by simp
  next
    case 2
    have "evictions (snd (ws_world st1)) = length (evicted_now env st kv)"
      using 2(1) p evictions_mset [OF 2(2)] by (simp add: evictions_append evictions_worker_calls)
    then show ?thesis using 2(3) cap by (auto simp: evicted_now_def batch_due_def)
  qed
qed

text \<open>The evictions in the interval that starts at a time.\<close>

definition evicted_within :: "duration \<Rightarrow> go_time \<Rightarrow> (go_time \<times> nat) list \<Rightarrow> nat" where
  "evicted_within d t log = sum_list (map snd (filter (\<lambda>(x, _). t \<le> x \<and> x \<le> t + d) log))"

lemma history_rationed:
  "eviction_history cap interval st log \<Longrightarrow> 0 \<le> interval \<Longrightarrow>
   (\<forall>(x, n) \<in> set log. n > 0 \<longrightarrow> x \<le> ws_lastDeletionBatch st) \<and> (\<forall>t. evicted_within interval t log \<le> cap)"
proof (induction rule: eviction_history.induct)
  case (eviction_start st)
  then show ?case by (simp add: evicted_within_def)
next
  case (eviction_change st log st')
  then show ?case by simp
next
  case (eviction_reconcile st log env key err st1)
  let ?n = "evictions (snd (ws_world st1))"
  have app: "evicted_within interval t (log @ [(we_now env, k)]) =
      evicted_within interval t log + (if t \<le> we_now env \<and> we_now env \<le> t + interval then k else 0)" for t k
    by (simp add: evicted_within_def)
  from reconcile_evictions [OF eviction_reconcile.hyps(5,2,3,4)]
  show ?case
  proof
    assume "?n = 0 \<and> ws_lastDeletionBatch st1 = ws_lastDeletionBatch st"
    then show ?case using eviction_reconcile.IH [OF eviction_reconcile.prems] by (simp add: app)
  next
    assume n: "?n \<le> cap \<and> ws_lastDeletionBatch st1 = we_now env \<and> ws_lastDeletionBatch st + interval < we_now env"
    have old: "x \<le> ws_lastDeletionBatch st" if "(x, k) \<in> set log" "k > 0" for x k
      using eviction_reconcile.IH [OF eviction_reconcile.prems] that by auto
    have "evicted_within interval t log = 0" if "we_now env \<le> t + interval" for t
    proof -
      have "k = 0" if "(x, k) \<in> set log" "t \<le> x" for x k
        using old [OF that(1)] that(2) \<open>we_now env \<le> t + interval\<close> n by (cases "k = 0") auto
      then show ?thesis by (auto simp: evicted_within_def)
    qed
    moreover have "\<forall>t. evicted_within interval t log \<le> cap" using eviction_reconcile.IH [OF eviction_reconcile.prems] by simp
    ultimately have "evicted_within interval t (log @ [(we_now env, ?n)]) \<le> cap" for t
      using n by (simp add: app)
    moreover have "x \<le> we_now env" if "(x, k) \<in> set log" "k > 0" for x k
      using old [OF that] n eviction_reconcile.prems by linarith
    ultimately show ?case using n by (auto simp del: app)
  qed
qed

text \<open>
  C14: Evictions are rationed. As long as the strategy never asks for batches larger than a size or
  for intervals shorter than a duration, no stretch of time of this duration sees more evictions than
  the size, however often the controller reconciles, whatever happens to the caches in between, and
  whether the calls succeed or not.
\<close>

theorem evictions_rationed:
  assumes "eviction_history cap interval st log" "0 \<le> interval"
  shows "sum_list (map snd (filter (\<lambda>(x, _). t \<le> x \<and> x \<le> t + interval) log)) \<le> cap"
  using history_rationed [OF assms] by (simp add: evicted_within_def)

section \<open>Whether a reconcile returns\<close>

text \<open>A goroutine that ends, with at most one error.\<close>

definition ends :: "'w update_state \<Rightarrow> 'w update_state worker \<Rightarrow> bool" where
  "ends st0 g \<longleftrightarrow> (\<forall>st. same_caches st0 st \<longrightarrow>
     (\<exists>es st1. g st = Some (es, st1) \<and> same_caches st0 st1 \<and> length es \<le> 1))"

lemma migrate_ends: "ends st0 (migrate_worker env key v)"
  by (auto simp: ends_def migrate_worker_def split: prod.split option.split)

lemma evict_ends: "CurrentVMIPod v (ws_pods st0) \<noteq> None \<Longrightarrow> ends st0 (evict_worker env v)"
  by (auto simp: ends_def evict_worker_def same_caches_def split: prod.split option.split)

lemma abort_ends:
  assumes "length (ListWorkloadUpdateMigrations (vm_Name v) (vm_Namespace v) st0) \<le> 1"
  shows "ends st0 (abort_worker env v)"
  unfolding ends_def
proof (intro allI impI)
  fix st
  assume s: "same_caches st0 st"
  then have "ListWorkloadUpdateMigrations (vm_Name v) (vm_Namespace v) st =
      ListWorkloadUpdateMigrations (vm_Name v) (vm_Namespace v) st0"
    by (simp add: ListWorkloadUpdateMigrations_def same_caches_def)
  moreover obtain es st1 where
    d: "delete_all env (vm_Namespace v) (ListWorkloadUpdateMigrations (vm_Name v) (vm_Namespace v) st) st = (es, st1)"
    using prod.exhaust by blast
  ultimately show "\<exists>es st1. abort_worker env v st = Some (es, st1) \<and> same_caches st0 st1 \<and> length es \<le> 1"
    using delete_all_few [OF d] same_caches_trans [OF s] assms by (auto simp: abort_worker_def)
qed

lemma run_workers_end:
  "\<forall>g \<in> set gs. ends st0 g \<Longrightarrow> same_caches st0 st \<Longrightarrow>
   \<exists>es st1. run_workers gs st = Some (es, st1) \<and> length es \<le> length gs"
proof (induction gs arbitrary: st)
  case (Cons g gs)
  obtain es st1 where g: "g st = Some (es, st1)" "same_caches st0 st1" "length es \<le> 1"
    using Cons.prems by (auto simp: ends_def)
  obtain fs st2 where "run_workers gs st1 = Some (fs, st2)" "length fs \<le> length gs"
    using Cons.IH [OF _ g(2)] Cons.prems(1) by auto
  then show ?case using g by auto
qed simp

lemma in_schedule:
  assumes "fair_order env" "g \<in> set (map ((!) gs) (we_sched env (length gs)))"
  shows "g \<in> set gs"
proof -
  have "mset (we_sched env (length gs)) = mset [0..<length gs]" using assms(1) by (simp add: fair_order_def)
  from scheduled_mset [OF this] show ?thesis using assms(2) by (metis set_mset_mset)
qed

lemma update_workers_end:
  assumes "\<forall>v \<in> set es. ends st0 (evict_worker env v)" "\<forall>v \<in> set as. ends st0 (abort_worker env v)"
  shows "\<forall>g \<in> set (update_workers env key ms es as). ends st0 g"
  using assms by (simp add: update_workers_def ball_Un migrate_ends)

lemma wait_workers_return:
  assumes "fair_order env" "\<forall>g \<in> set gs. ends st g"
  shows "\<exists>err st1. wait_workers (map ((!) gs) (we_sched env (length gs))) st = Returned err st1"
proof -
  have "\<forall>g \<in> set (map ((!) gs) (we_sched env (length gs))). ends st g"
  proof
    fix g
    assume "g \<in> set (map ((!) gs) (we_sched env (length gs)))"
    from in_schedule [OF assms(1) this] show "ends st g" by (rule bspec [OF assms(2)])
  qed
  from run_workers_end [OF this same_caches_refl]
  show ?thesis by (auto simp: wait_workers_def)
qed

lemma wu_sync_returns:
  assumes fair: "fair_order env"
    and pods: "\<forall>v \<in> set (evicted_now env st kv). CurrentVMIPod v (ws_pods st) \<noteq> None"
    and aborts: "\<forall>v \<in> set (ws_vmis st). to_abort env st v \<longrightarrow>
      length (ListWorkloadUpdateMigrations (vm_Name v) (vm_Namespace v) st) \<le> 1"
  shows "\<exists>err st1. wu_sync env kv st = Returned err st1"
proof -
  let ?n = "length (filter (to_update env st) (ws_vmis st))"
  let ?mig = "filter (to_migrate env st kv) (ws_vmis st)" and ?ev = "filter (to_evict env st kv) (ws_vmis st)"
  let ?ab = "filter (to_abort env st) (ws_vmis st)"
  obtain r st2 where p: "patch_outdated env kv ?n st = (r, st2)" using prod.exhaust by blast
  have st2: "same_caches st st2"
    using p by (auto simp: patch_outdated_def split: if_splits prod.splits option.splits)
  show ?thesis
  proof (cases r)
    case (Some e)
    then show ?thesis using p by (simp add: wu_sync_def getUpdateData_eq Let_def)
  next
    case None
    define st3 where "st3 = (if ?ev \<noteq> [] \<or> ?mig \<noteq> [] \<or> ?ab \<noteq> []
        then AddAfter (kv_Key kv) periodicReEnqueueIntervalSeconds st2 else st2)"
    obtain count st4 where nb: "next_batch env kv (length ?ev) st3 = (count, st4)" using prod.exhaust by blast
    define es where "es = (if count > 0 then take (nat count) ?ev else [])"
    have st3: "ws_lastDeletionBatch st3 = ws_lastDeletionBatch st" "ws_pods st3 = ws_pods st" "ws_migrations st3 = ws_migrations st"
      using st2 by (simp_all add: st3_def AddAfter_def same_caches_def)
    have es: "es = evicted_now env st kv"
      using nb st3(1) by (auto simp: es_def evicted_now_def next_batch_def Let_def batch_due_def batch_interval_def
          batch_size_def min_def split: if_splits option.splits)
    have st4: "ws_pods st4 = ws_pods st" "ws_migrations st4 = ws_migrations st"
      using nb st3(2,3) by (auto simp: next_batch_def Let_def split: if_splits)
    have "\<exists>err st1. wait_workers (map ((!) (update_workers env (kv_Key kv) ms es ?ab))
        (we_sched env (length (update_workers env (kv_Key kv) ms es ?ab)))) st5 = Returned err st1"
      if st5: "ws_pods st5 = ws_pods st4" "ws_migrations st5 = ws_migrations st4" for ms st5
    proof -
      let ?gs = "update_workers env (kv_Key kv) ms es ?ab"
      have e: "\<forall>v \<in> set es. ends st5 (evict_worker env v)"
        using pods st4(1) st5(1) by (simp add: es evict_ends)
      have a: "\<forall>v \<in> set ?ab. ends st5 (abort_worker env v)"
      proof (rule ballI, rule abort_ends)
        fix v
        assume "v \<in> set ?ab"
        moreover have "ListWorkloadUpdateMigrations a b st5 = ListWorkloadUpdateMigrations a b st" for a b
          using st4(2) st5(2) by (simp add: ListWorkloadUpdateMigrations_def)
        ultimately show "length (ListWorkloadUpdateMigrations (vm_Name v) (vm_Namespace v) st5) \<le> 1"
          using aborts unfolding set_filter by simp
      qed
      show ?thesis by (rule wait_workers_return [OF fair update_workers_end [OF e a]])
    qed
    then show ?thesis
      unfolding wu_sync_def getUpdateData_eq Let_def update_data.select_convs p None prod.case option.case
        st3_def [symmetric] nb es_def [symmetric] by simp
  qed
qed

text \<open>
  C40: A reconcile returns, and the worker of the queue goes on, whenever each instance to evict has a
  pod in the cache and each instance whose update is aborted has at most one unfinished migration of
  the controller, whatever the API server answers. Both conditions are needed: without a pod a
  goroutine dereferences nil, and with two migrations the channel of errors may be too small
  (\<open>abort_blocks\<close>).
\<close>

theorem update_returns:
  assumes "fair_order env"
    "\<forall>kv \<in> set (ws_kubevirts st). \<forall>v \<in> set (ws_vmis st). to_evict env st kv v \<longrightarrow>
       CurrentVMIPod v (ws_pods st) \<noteq> None"
    "\<forall>v \<in> set (ws_vmis st). to_abort env st v \<longrightarrow>
       length (ListWorkloadUpdateMigrations (vm_Name v) (vm_Namespace v) st) \<le> 1"
  shows "\<exists>err st1. wu_execute env key st = Returned err st1"
proof -
  have "\<forall>v \<in> set (evicted_now env st kv). CurrentVMIPod v (ws_pods st) \<noteq> None" if "kv \<in> set (ws_kubevirts st)" for kv
    using assms(2) that by (auto simp: evicted_now_def dest!: in_set_takeD)
  then have "\<exists>err st1. wu_sync env kv st = Returned err st1" if "kv \<in> set (ws_kubevirts st)" for kv
    using wu_sync_returns [OF assms(1) _ assms(3)] that by blast
  then show ?thesis by (auto simp: wu_execute_def find_Some_iff split: option.split)
qed

text \<open>
  A reconcile that has to abort the update of one instance with two migrations never returns when both
  cannot be deleted: the channel holds one error.
\<close>

lemma abort_blocks:
  assumes "kv_Outdated kv = Some 0" "filter (to_abort env st) (ws_vmis st) = [v]" "filter (to_update env st) (ws_vmis st) = []"
    and del: "\<And>ns m w. fst (we_Delete env ns m w) = Some (OtherError e)"
    and two: "2 \<le> length (ListWorkloadUpdateMigrations (vm_Name v) (vm_Namespace v) st)"
    and fair: "fair_order env"
  shows "wu_sync env kv st = Stuck"
proof -
  have fails: "length (fst (delete_all env ns ms s)) = length ms" for ns ms s
  proof (induction ms arbitrary: s)
    case (Cons m ms)
    obtain w where d: "we_Delete env ns (mg_Name m) (ws_world s) = (Some (OtherError e), w)"
      using del by (metis prod.collapse)
    show ?case using Cons.IH [of "s\<lparr>ws_world := w\<rparr>"] d
      by (cases "delete_all env ns ms (s\<lparr>ws_world := w\<rparr>)") simp
  qed simp
  have stuck: "wait_workers [abort_worker env v] s = Stuck" if "ws_migrations s = ws_migrations st" for s
  proof -
    let ?ms = "ListWorkloadUpdateMigrations (vm_Name v) (vm_Namespace v) s"
    have "2 \<le> length ?ms" using two that by (simp add: ListWorkloadUpdateMigrations_def)
    then show ?thesis using fails [of "vm_Namespace v" ?ms s]
      by (cases "delete_all env (vm_Namespace v) ?ms s") (simp add: wait_workers_def abort_worker_def)
  qed
  have "mset (we_sched env 1) = mset [0..<1]" using fair unfolding fair_order_def by blast
  then have sched: "we_sched env (Suc 0) = [0]" by simp
  have none: "filter (to_migrate env st kv) (ws_vmis st) = []" "filter (to_evict env st kv) (ws_vmis st) = []"
    using assms(3) by (auto simp: filter_empty_conv to_migrate_def to_evict_def)
  moreover have "mset (we_shuffle env []) = mset []" using fair unfolding fair_order_def by blast
  then have "we_shuffle env [] = []" by simp
  ultimately show ?thesis
    using assms(1-3) sched
    by (simp add: wu_sync_def getUpdateData_eq Let_def patch_outdated_def next_batch_def update_workers_def
        AddAfter_def stuck)
qed

section \<open>A concrete cluster\<close>

definition toy_vmi :: "string \<Rightarrow> string \<Rightarrow> vmi_condition list \<Rightarrow> updated_vmi" where
  "toy_vmi name img conds =
     \<lparr>vm_Namespace = ''ns'', vm_Name = name, vm_UID = name, vm_ResourceVersion = [], vm_Labels = [], vm_Owners = [],
      vm_DeletionTimestamp = None, vm_Phase = ''Running'', vm_Conditions = conds, pv_Annotations = [],
      pv_NodeName = ''node'', pv_EvacuationNodeName = [], pv_MigrationState = None, pv_EvictionStrategy = None,
      uv_LauncherImage = img, uv_TargetNodeDomainReady = None, uv_MigratedVolumes = [], uv_VolumeStatus = []\<rparr>"

definition toy_kubevirt :: kubevirt where
  "toy_kubevirt =
     \<lparr>kv_Key = ''kv'', kv_Methods = [''LiveMigrate'', ''Evict''], kv_BatchEvictionSize = None,
      kv_BatchEvictionInterval = None, kv_Phase = ''Deployed'', kv_ObservedDeploymentID = ''1'',
      kv_TargetDeploymentID = ''1'', kv_Outdated = None\<rparr>"

definition toy_cluster :: "(unit \<times> update_call list) update_state" where
  "toy_cluster =
     \<lparr>ws_kubevirts = [toy_kubevirt],
      ws_vmis = [toy_vmi ''a'' ''old'' [\<lparr>vc_Type = ''LiveMigratable'', vc_Status = ''True'', vc_Reason = []\<rparr>],
                 toy_vmi ''b'' ''old'' [], toy_vmi ''c'' ''new'' []],
      ws_migrations =
        [\<lparr>mg_Namespace = ''ns'', mg_Name = ''m'', mg_Annotations = [(WorkloadUpdateMigrationAnnotation, [])],
          mg_VMIName = ''c'', mg_Priority = None, mg_Phase = ''Pending'', um_Labels = [], um_SendTo = False,
          um_Receive = False\<rparr>],
      ws_pods =
        [\<lparr>pd_Namespace = ''ns'', pd_Phase = ''Running'',
          pd_Owners = [\<lparr>or_Kind = ''VirtualMachineInstance'', or_Name = ''b'', or_UID = ''b'', or_Controller = True\<rparr>],
          lp_Name = ''p'', lp_NodeName = ''node'', lp_Created = 0\<rparr>],
      ws_expectations = \<lparr>ut_inner = [], ut_uidStore = []\<rparr>, ws_queue = [], ws_lastDeletionBatch = 0,
      ws_world = ((), [])\<rparr>"

definition toy_update_env :: "unit update_env" where
  "toy_update_env =
     \<lparr>we_launcherImage = ''new'', we_ParallelMigrations = 5, we_now = seconds 100, we_shuffle = rev,
      we_sched = (\<lambda>n. rev [0..<n]), we_PatchStatus = (\<lambda>_. Pair None), we_Create = (\<lambda>_ _. Pair None),
      we_Evict = (\<lambda>_ _. Pair None), we_Delete = (\<lambda>_ _. Pair None)\<rparr>"

lemma toy_fair: "fair_order toy_update_env"
  by (simp add: fair_order_def toy_update_env_def)

lemma toy_update_run:
  obtains st1 where "wu_execute (recording toy_update_env) ''kv'' toy_cluster = Returned None st1"
    "snd (ws_world st1) =
       [PatchCall 2, DeleteCall ''ns'' ''m'', EvictCall ''ns'' ''p'',
        CreateCall ''ns'' (new_update_migration (toy_vmi ''a'' ''old''
          [\<lparr>vc_Type = ''LiveMigratable'', vc_Status = ''True'', vc_Reason = []\<rparr>]))]"
proof -
  have "(case wu_execute (recording toy_update_env) ''kv'' toy_cluster of
      Returned e s \<Rightarrow> e = None \<and> snd (ws_world s) =
       [PatchCall 2, DeleteCall ''ns'' ''m'', EvictCall ''ns'' ''p'',
        CreateCall ''ns'' (new_update_migration (toy_vmi ''a'' ''old''
          [\<lparr>vc_Type = ''LiveMigratable'', vc_Status = ''True'', vc_Reason = []\<rparr>]))]
    | _ \<Rightarrow> False)"
    by code_simp
  then show ?thesis using that by (auto split: update_outcome.splits)
qed

lemma update_writes_exact_witness:
  "\<exists>st1. wu_execute (recording toy_update_env) ''kv'' toy_cluster = Returned None st1 \<and>
    (\<exists>kv \<in> set (ws_kubevirts toy_cluster). \<exists>migrated cs.
       mset migrated \<subseteq># mset (filter (to_migrate toy_update_env toy_cluster kv) (ws_vmis toy_cluster)) \<and>
       length migrated = 1 \<and> snd (ws_world st1) = PatchCall 2 # cs \<and>
       mset cs = mset (map (\<lambda>v. CreateCall (vm_Namespace v) (new_update_migration v)) migrated @
         [EvictCall ''ns'' ''p'', DeleteCall ''ns'' ''m'']))"
proof -
  obtain st1 where run: "wu_execute (recording toy_update_env) ''kv'' toy_cluster = Returned None st1"
    "snd (ws_world st1) \<noteq> []"
    by (rule toy_update_run) simp
  have "snd (ws_world toy_cluster) = []" "distinct (map VirtualMachineInstanceKey (ws_vmis toy_cluster))"
    by (simp_all add: toy_cluster_def toy_vmi_def VirtualMachineInstanceKey_def)
  note exact = update_writes_exact [OF run(1) toy_fair this(1) run(2) this(2)]
  have kv: "set (ws_kubevirts toy_cluster) = {toy_kubevirt}" "kv_Outdated toy_kubevirt = None"
    by (simp_all add: toy_cluster_def toy_kubevirt_def)
  from exact have *: "\<exists>migrated cs. mset migrated \<subseteq># mset (filter (to_migrate toy_update_env toy_cluster toy_kubevirt) (ws_vmis toy_cluster)) \<and>
      length migrated = min (room toy_update_env toy_cluster)
        (length (filter (to_migrate toy_update_env toy_cluster toy_kubevirt) (ws_vmis toy_cluster))) \<and>
      snd (ws_world st1) = [PatchCall (length (filter (to_update toy_update_env toy_cluster) (ws_vmis toy_cluster)))] @ cs \<and>
      mset cs = mset (map (\<lambda>v. CreateCall (vm_Namespace v) (new_update_migration v)) migrated @
        map (evict_call toy_cluster) (evicted_now toy_update_env toy_cluster toy_kubevirt) @
        concat (map (abort_calls toy_cluster) (filter (to_abort toy_update_env toy_cluster) (ws_vmis toy_cluster))))"
    unfolding kv(1) Let_def evicted_now_def by (auto simp: kv(2))
  have len: "min (room toy_update_env toy_cluster)
      (length (filter (to_migrate toy_update_env toy_cluster toy_kubevirt) (ws_vmis toy_cluster))) = 1"
    "length (filter (to_update toy_update_env toy_cluster) (ws_vmis toy_cluster)) = 2"
    "map (evict_call toy_cluster) (evicted_now toy_update_env toy_cluster toy_kubevirt) = [EvictCall ''ns'' ''p'']"
    "concat (map (abort_calls toy_cluster) (filter (to_abort toy_update_env toy_cluster) (ws_vmis toy_cluster))) =
       [DeleteCall ''ns'' ''m'']"
    by code_simp+
  show ?thesis unfolding kv(1) using run(1) * [unfolded len] by simp
qed

lemma evictions_rationed_witness:
  "\<exists>st1 :: (unit \<times> update_call list) update_state. eviction_history 10 (seconds 60) st1 [(seconds 100, 1)] \<and>
     sum_list (map snd (filter (\<lambda>(x, _). seconds 50 \<le> x \<and> x \<le> seconds 50 + seconds 60) [(seconds 100, 1)])) \<le> (10 :: nat)"
proof -
  obtain st1 where run: "wu_execute (recording toy_update_env) ''kv'' toy_cluster = Returned None st1"
    "evictions (snd (ws_world st1)) = 1"
    by (rule toy_update_run) (simp add: evictions_def)
  have "eviction_history 10 (seconds 60) st1 ([] @ [(we_now toy_update_env, evictions (snd (ws_world st1)))])"
    by (rule eviction_reconcile [OF eviction_start toy_fair _ _ run(1)])
      (simp_all add: toy_cluster_def toy_kubevirt_def batch_size_def batch_interval_def)
  then have h: "eviction_history 10 (seconds 60) st1 [(seconds 100, 1)]" by (simp add: run(2)) (simp add: toy_update_env_def)
  show ?thesis using h evictions_rationed [OF h, of "seconds 50"] by auto
qed

lemma update_returns_witness:
  "\<exists>err st1. wu_execute (recording toy_update_env) ''kv'' toy_cluster = Returned err st1"
proof (rule update_returns)
  show "fair_order (recording toy_update_env)" using toy_fair by (simp add: fair_order_def)
  have "list_all (\<lambda>v. to_evict toy_update_env toy_cluster toy_kubevirt v \<longrightarrow> CurrentVMIPod v (ws_pods toy_cluster) \<noteq> None)
      (ws_vmis toy_cluster)" by code_simp
  then show "\<forall>kv \<in> set (ws_kubevirts toy_cluster). \<forall>v \<in> set (ws_vmis toy_cluster).
      to_evict (recording toy_update_env) toy_cluster kv v \<longrightarrow> CurrentVMIPod v (ws_pods toy_cluster) \<noteq> None"
    by (simp add: toy_cluster_def)
  have "list_all (\<lambda>v. length (ListWorkloadUpdateMigrations (vm_Name v) (vm_Namespace v) toy_cluster) \<le> 1) (ws_vmis toy_cluster)"
    by code_simp
  then show "\<forall>v \<in> set (ws_vmis toy_cluster). to_abort (recording toy_update_env) toy_cluster v \<longrightarrow>
      length (ListWorkloadUpdateMigrations (vm_Name v) (vm_Namespace v) toy_cluster) \<le> 1"
    by (simp add: list_all_iff)
qed

end
