(* ===== verification/Retry.thy ===== *)
theory Retry
  imports GoPrelude
begin

text \<open>
  The retry manager of virt-handler, \<^verbatim>\<open>pkg/virt-handler/retry_manager.go\<close>: exponential back-off of a
  fix that may or may not have worked. The clock reading of a call and the answer of \<^verbatim>\<open>isFailure\<close> are
  arguments; the critical section is one step. \<^verbatim>\<open>ShouldDelay\<close> reads the clock before it takes the lock,
  so that calls may apply their readings out of order, as the histories below allow.
\<close>

section \<open>The manager\<close>

record retry_state =
  firstFail :: go_time
  lastRun :: go_time
  nextRun :: go_time
  waitInterval :: duration
  lastRunFailed :: bool

record retry_manager =
  initialWait :: duration
  maxWait :: duration
  maxFailResponseTime :: duration
  retryStates :: "(string, retry_state) gomap"

definition NewFailRetryManager :: "duration \<Rightarrow> duration \<Rightarrow> duration \<Rightarrow> retry_manager" where
  "NewFailRetryManager init mx resp =
     \<lparr>initialWait = init, maxWait = mx, maxFailResponseTime = resp, retryStates = []\<rparr>"

definition newState :: "retry_manager \<Rightarrow> go_time \<Rightarrow> retry_state" where
  "newState f now =
     \<lparr>firstFail = now, lastRun = now, nextRun = now + initialWait f, waitInterval = initialWait f,
      lastRunFailed = False\<rparr>"

definition store_state :: "retry_manager \<Rightarrow> string \<Rightarrow> retry_state \<Rightarrow> retry_manager" where
  "store_state f key s = f\<lparr>retryStates := put key s (retryStates f)\<rparr>"

text \<open>The back-off has ended: it is doubled, up to the maximum, with the wrap-around of the type.\<close>

definition increase :: "retry_manager \<Rightarrow> go_time \<Rightarrow> retry_state \<Rightarrow> retry_state" where
  "increase f now s =
     (let w = wrap64 (waitInterval s * 2);
          w = (if w > maxWait f then maxWait f else w)
      in s\<lparr>waitInterval := w, nextRun := now + w, lastRun := now, lastRunFailed := False\<rparr>)"

definition ShouldDelay ::
  "retry_manager \<Rightarrow> string \<Rightarrow> bool \<Rightarrow> go_time \<Rightarrow> (bool \<times> duration) \<times> retry_manager" where
  "ShouldDelay f key isFailure now =
     (if \<not> isFailure then ((False, 0), f)
      else
        (case map_of (retryStates f) key of
           None \<Rightarrow> ((False, 0), store_state f key (newState f now))
         | Some s \<Rightarrow>
             if \<not> lastRunFailed s then
               (if lastRun s + maxFailResponseTime f > now
                then ((nextRun s > now, time_sub (nextRun s) now),
                      store_state f key (s\<lparr>lastRunFailed := True\<rparr>))
                else ((False, 0), store_state f key (newState f now)))
             else if \<not> now > nextRun s then ((True, time_sub (nextRun s) now), f)
             else ((False, 0), store_state f key (increase f now s))))"

text \<open>One tick of \<^verbatim>\<open>Run\<close>, with the clock read once: states whose last run did not fail in time go.\<close>

definition cleanup :: "retry_manager \<Rightarrow> go_time \<Rightarrow> retry_manager" where
  "cleanup f now =
     f\<lparr>retryStates :=
         filter (\<lambda>(k, s). \<not> (\<not> lastRunFailed s \<and> now > lastRun s + maxFailResponseTime f)) (retryStates f)\<rparr>"

section \<open>Histories\<close>

text \<open>
  The steps of a manager as a relation on the manager and the latest reading of the clock it has
  acted on: calls for any key, and ticks. A call reads the clock before it takes the lock, so
  concurrent calls may act on their readings in another order: a reading may be older than \<open>t\<close>.
\<close>

inductive retry_step :: "retry_manager \<times> go_time \<Rightarrow> retry_manager \<times> go_time \<Rightarrow> bool" where
  Call: "retry_step (f, t) (snd (ShouldDelay f key isf now), max t now)"
| Tick: "retry_step (f, t) (cleanup f now, max t now)"

inductive_cases retry_stepE: "retry_step (f, t) g"

inductive retry_run :: "retry_manager \<times> go_time \<Rightarrow> retry_manager \<times> go_time \<Rightarrow> bool" where
  Start: "retry_run s s"
| Step: "retry_run s s' \<Longrightarrow> retry_step s' s'' \<Longrightarrow> retry_run s s''"

section \<open>The invariant\<close>

definition state_ok :: "retry_manager \<Rightarrow> go_time \<Rightarrow> retry_state \<Rightarrow> bool" where
  "state_ok f t s \<longleftrightarrow>
     initialWait f \<le> waitInterval s \<and> waitInterval s \<le> maxWait f \<and>
     nextRun s = lastRun s + waitInterval s \<and> lastRun s \<le> t"

definition retry_ok :: "retry_manager \<Rightarrow> go_time \<Rightarrow> bool" where
  "retry_ok f t \<longleftrightarrow>
     0 \<le> initialWait f \<and> initialWait f \<le> maxWait f \<and> maxWait f < 2 ^ 62 \<and>
     distinct (map fst (retryStates f)) \<and>
     (\<forall>key s. map_of (retryStates f) key = Some s \<longrightarrow> state_ok f t s)"

lemma retry_okD:
  assumes "retry_ok f t"
  shows "0 \<le> initialWait f" "initialWait f \<le> maxWait f" "maxWait f < 2 ^ 62"
    "distinct (map fst (retryStates f))"
    "map_of (retryStates f) key = Some s \<Longrightarrow> state_ok f t s"
  using assms by (auto simp: retry_ok_def)

lemma state_ok_later: "state_ok f t s \<Longrightarrow> t \<le> now \<Longrightarrow> state_ok f now s"
  by (simp add: state_ok_def)

lemma newState_ok: "retry_ok f t \<Longrightarrow> now \<le> t' \<Longrightarrow> state_ok f t' (newState f now)"
  by (simp add: state_ok_def newState_def retry_ok_def)

lemma increase_ok:
  assumes "retry_ok f t" "state_ok f t s"
  shows "state_ok f now (increase f now s) \<and>
    waitInterval (increase f now s) = min (2 * waitInterval s) (maxWait f)"
proof -
  have b: "0 \<le> waitInterval s" "waitInterval s * 2 < 2 ^ 63"
    using assms by (auto simp: retry_ok_def state_ok_def)
  then have "wrap64 (waitInterval s * 2) = waitInterval s * 2"
    by (intro wrap64_id) simp_all
  then show ?thesis
    using assms b by (auto simp: increase_def Let_def state_ok_def retry_ok_def min_def)
qed

lemma fields_store_state [simp]:
  "initialWait (store_state f key s) = initialWait f" "maxWait (store_state f key s) = maxWait f"
  "maxFailResponseTime (store_state f key s) = maxFailResponseTime f"
  "retryStates (store_state f key s) = put key s (retryStates f)"
  by (simp_all add: store_state_def)

lemma state_ok_params:
  "initialWait f' = initialWait f \<Longrightarrow> maxWait f' = maxWait f \<Longrightarrow> state_ok f' t s = state_ok f t s"
  by (simp add: state_ok_def)

lemma retry_ok_later: "retry_ok f t \<Longrightarrow> t \<le> now \<Longrightarrow> retry_ok f now"
  unfolding retry_ok_def using state_ok_later by blast

lemma retry_ok_store:
  assumes "retry_ok f t" "t \<le> t'" "state_ok f t' s"
  shows "retry_ok (store_state f key s) t'"
  using retry_ok_later [OF assms(1,2)] assms(3)
  by (simp add: retry_ok_def state_ok_params [of "store_state f key s" f])

lemma ShouldDelay_ok:
  assumes "retry_ok f t"
  shows "retry_ok (snd (ShouldDelay f key isf now)) (max t now)"
proof (cases "map_of (retryStates f) key")
  case None
  then show ?thesis
    using retry_ok_store [OF assms _ newState_ok [OF assms]] retry_ok_later [OF assms]
    by (simp add: ShouldDelay_def)
next
  case (Some s)
  have s: "state_ok f t s" using retry_okD(5) [OF assms Some] .
  then have "state_ok f (max t now) (s\<lparr>lastRunFailed := True\<rparr>)" by (auto simp: state_ok_def max_def)
  moreover have "state_ok f (max t now) (increase f now s)"
    using increase_ok [OF assms s, of now] state_ok_later by auto
  ultimately show ?thesis
    using Some retry_ok_store [OF assms] newState_ok [OF assms] retry_ok_later [OF assms]
    by (simp add: ShouldDelay_def)
qed

lemma cleanup_ok:
  assumes "retry_ok f t"
  shows "retry_ok (cleanup f now) t"
proof -
  have "distinct (map fst (retryStates (cleanup f now)))"
    using retry_okD(4) [OF assms] by (simp add: cleanup_def distinct_map_filter)
  moreover have "state_ok f t s" if "map_of (retryStates (cleanup f now)) key = Some s" for key s
  proof -
    from that have "map_of (retryStates f) key = Some s"
      using retry_okD(4) [OF assms]
      by (auto simp: cleanup_def dest!: map_of_SomeD intro: map_of_is_SomeI)
    then show ?thesis using retry_okD(5) [OF assms] by blast
  qed
  moreover have "initialWait (cleanup f now) = initialWait f" "maxWait (cleanup f now) = maxWait f"
    by (simp_all add: cleanup_def)
  ultimately show ?thesis
    using assms state_ok_params [of "cleanup f now" f] by (simp add: retry_ok_def)
qed

lemma retry_step_ok: "retry_step (f, t) (f', t') \<Longrightarrow> retry_ok f t \<Longrightarrow> retry_ok f' t' \<and> t \<le> t'"
  by (erule retry_stepE) (auto simp: ShouldDelay_ok intro: retry_ok_later cleanup_ok)

lemma retry_step_params:
  "retry_step (f, t) (f', t') \<Longrightarrow> initialWait f' = initialWait f \<and> maxWait f' = maxWait f"
  by (erule retry_stepE) (auto simp: ShouldDelay_def cleanup_def split: option.splits)

lemma retry_run_ok:
  "retry_run s s' \<Longrightarrow> retry_ok (fst s) (snd s) \<Longrightarrow>
   retry_ok (fst s') (snd s') \<and> maxWait (fst s') = maxWait (fst s)"
proof (induction rule: retry_run.induct)
  case (Step s s' s'')
  then show ?case
    using retry_step_ok [of "fst s'" "snd s'" "fst s''" "snd s''"]
      retry_step_params [of "fst s'" "snd s'" "fst s''" "snd s''"] by simp
qed simp

lemma NewFailRetryManager_ok:
  "0 \<le> init \<Longrightarrow> init \<le> mx \<Longrightarrow> mx < 2 ^ 62 \<Longrightarrow> retry_ok (NewFailRetryManager init mx resp) t"
  by (simp add: retry_ok_def NewFailRetryManager_def)

section \<open>Properties\<close>

lemma ShouldDelay_delay:
  assumes "retry_ok f t" "fst (ShouldDelay f key isf now) = (True, d)"
  shows "0 \<le> d \<and> d \<le> maxWait f + max 0 (t - now)"
    and "t \<le> now \<Longrightarrow> \<exists>s. map_of (retryStates (snd (ShouldDelay f key isf now))) key = Some s \<and>
       lastRunFailed s \<and> nextRun s = now + d"
proof -
  obtain s where s: "isf" "map_of (retryStates f) key = Some s"
    using assms(2) by (auto simp: ShouldDelay_def split: if_splits option.splits)
  have ok: "state_ok f t s" using retry_okD(5) [OF assms(1) s(2)] .
  have d: "d = time_sub (nextRun s) now" "now \<le> nextRun s"
    using assms(2) s by (auto simp: ShouldDelay_def split: if_splits)
  have le: "nextRun s - now \<le> maxWait f + max 0 (t - now)"
    using ok by (auto simp: state_ok_def max_def)
  have "0 \<le> d" "d \<le> nextRun s - now"
    using d by (auto simp: time_sub_def min_duration_def max_duration_def)
  with le show "0 \<le> d \<and> d \<le> maxWait f + max 0 (t - now)" by simp
  show "\<exists>s. map_of (retryStates (snd (ShouldDelay f key isf now))) key = Some s \<and>
       lastRunFailed s \<and> nextRun s = now + d" if "t \<le> now"
  proof -
    have "d = nextRun s - now"
      using d le that retry_okD(3) [OF assms(1)]
      by (simp add: time_sub_def min_duration_def max_duration_def)
    moreover have "\<exists>s'. map_of (retryStates (snd (ShouldDelay f key isf now))) key = Some s' \<and>
         lastRunFailed s' \<and> nextRun s' = nextRun s"
      using assms(2) s by (auto simp: ShouldDelay_def split: if_splits)
    ultimately show ?thesis by auto
  qed
qed

text \<open>
  C35: Over every history of a manager with \<open>0 \<le> initialWait \<le> maxWait < 2^62\<close>, whatever the keys,
  the failures and the ticks, and in whatever order concurrent calls act on their clock readings, a
  delay it asks for is never negative and is longer than \<open>maxWait\<close> at most by how much older the
  call's reading is than the latest one acted on before; and the wait of every key is at most
  \<open>maxWait\<close>, and doubling it does not overflow.
\<close>

theorem retry_delay_bounds:
  assumes "0 \<le> init" "init \<le> mx" "mx < 2 ^ 62"
    "retry_run (NewFailRetryManager init mx resp, t0) (f, t)"
    "fst (ShouldDelay f key isf now) = (True, d)"
  shows "0 \<le> d \<and> d \<le> mx + max 0 (t - now) \<and>
    (\<forall>k s. map_of (retryStates f) k = Some s \<longrightarrow>
       waitInterval s \<le> mx \<and> wrap64 (waitInterval s * 2) = 2 * waitInterval s)"
proof -
  have ok: "retry_ok f t" "maxWait f = mx"
    using retry_run_ok [OF assms(4)] NewFailRetryManager_ok [OF assms(1-3)]
    by (simp_all add: NewFailRetryManager_def)
  have "waitInterval s \<le> mx \<and> wrap64 (waitInterval s * 2) = 2 * waitInterval s"
    if "map_of (retryStates f) k = Some s" for k s
  proof -
    have b: "0 \<le> waitInterval s" "waitInterval s \<le> mx"
      using retry_okD(5) [OF ok(1) that] retry_okD(1) [OF ok(1)] ok(2) by (auto simp: state_ok_def)
    then have "wrap64 (waitInterval s * 2) = waitInterval s * 2"
      using assms(3) by (intro wrap64_id) simp_all
    with b show ?thesis by simp
  qed
  with ShouldDelay_delay(1) [OF ok(1) assms(5)] ok(2) show ?thesis by blast
qed

definition one_failure :: retry_manager where
  "one_failure = snd (ShouldDelay (NewFailRetryManager (seconds 10) (seconds 60) (seconds 180)) ''v'' True 0)"

lemma one_failure_run:
  "retry_run (NewFailRetryManager (seconds 10) (seconds 60) (seconds 180), 0) (one_failure, 0)"
  using retry_step.Call [of "NewFailRetryManager (seconds 10) (seconds 60) (seconds 180)" 0 "''v''" True 0]
  unfolding one_failure_def by (intro retry_run.Step [OF retry_run.Start]) simp

lemma one_failure_delay: "fst (ShouldDelay one_failure ''v'' True (seconds 3)) = (True, seconds 7)"
  by (simp add: one_failure_def ShouldDelay_def NewFailRetryManager_def newState_def store_state_def
      time_sub_def min_duration_def max_duration_def)

theorem retry_delay_bounds_witness:
  "0 \<le> seconds 7 \<and> seconds 7 \<le> seconds (60 :: int) \<and>
   (\<exists>s. map_of (retryStates one_failure) ''v'' = Some s \<and> wrap64 (waitInterval s * 2) = seconds 20)"
proof -
  note r = retry_delay_bounds [OF _ _ _ one_failure_run one_failure_delay]
  obtain s where s: "map_of (retryStates one_failure) ''v'' = Some s" "waitInterval s = seconds 10"
    by (simp add: one_failure_def ShouldDelay_def NewFailRetryManager_def newState_def store_state_def)
  have "wrap64 (waitInterval s * 2) = 2 * waitInterval s"
    by (rule r [THEN conjunct2, THEN conjunct2, rule_format, THEN conjunct2]) (use s in simp_all)
  with s have "wrap64 (waitInterval s * 2) = seconds 20" by (simp only:)
  moreover have "0 \<le> seconds 7 \<and> seconds 7 \<le> seconds (60 :: int)" using r by simp
  ultimately show ?thesis using s(1) by blast
qed

text \<open>
  A delay ends. After a call that asks for a delay, a failure reported any time after the delay
  has passed, with no other call for that key or tick in between, is let through without delay, and
  the next wait is twice the last one, or the maximum.
\<close>

theorem retry_progress:
  assumes "0 \<le> init" "init \<le> mx" "mx < 2 ^ 62"
    "retry_run (NewFailRetryManager init mx resp, t0) (f, t)" "t \<le> now"
    "ShouldDelay f key isf now = ((True, d), f')" "now + d < now'"
  shows "fst (ShouldDelay f' key True now') = (False, 0) \<and>
    (\<exists>s s'. map_of (retryStates f') key = Some s \<and>
       map_of (retryStates (snd (ShouldDelay f' key True now'))) key = Some s' \<and>
       waitInterval s' = min (2 * waitInterval s) mx \<and> nextRun s' = now' + waitInterval s')"
proof -
  have ok: "retry_ok f t" "maxWait f = mx"
    using retry_run_ok [OF assms(4)] NewFailRetryManager_ok [OF assms(1-3)]
    by (simp_all add: NewFailRetryManager_def)
  have ok': "retry_ok f' now" using ShouldDelay_ok [OF ok(1), of key isf now] assms(5,6) by (simp add: max_absorb2)
  have mx: "maxWait f' = mx"
    using retry_step_params [OF retry_step.Call [of f t key isf now]] assms(6) ok(2) by simp
  obtain s where s: "map_of (retryStates f') key = Some s" "lastRunFailed s" "nextRun s = now + d"
    using ShouldDelay_delay(2) [OF ok(1) _ assms(5), of key isf d] assms(6) by auto
  have "ShouldDelay f' key True now' = ((False, 0), store_state f' key (increase f' now' s))"
    using s assms(7) by (simp add: ShouldDelay_def)
  moreover have "waitInterval (increase f' now' s) = min (2 * waitInterval s) mx"
    using increase_ok [OF ok' retry_okD(5) [OF ok' s(1)]] mx by simp
  moreover have "nextRun (increase f' now' s) = now' + waitInterval (increase f' now' s)"
    by (simp add: increase_def Let_def)
  ultimately show ?thesis
    using s(1) by simp
qed

theorem retry_progress_witness:
  "fst (ShouldDelay (snd (ShouldDelay one_failure ''v'' True (seconds 3))) ''v'' True (seconds 11)) =
   (False, 0)"
proof -
  have "ShouldDelay one_failure ''v'' True (seconds 3) =
      ((True, seconds 7), snd (ShouldDelay one_failure ''v'' True (seconds 3)))"
    using one_failure_delay by (metis prod.collapse)
  from retry_progress [OF _ _ _ one_failure_run _ this, of "seconds 11"] show ?thesis by simp
qed

end
