(* ===== verification/Tsc.thy ===== *)
theory Tsc
  imports GoFloat
begin

text \<open>
  TSC frequencies of nodes and virtual machines, \<^verbatim>\<open>pkg/virt-controller/watch/topology\<close> of KubeVirt:
  the frequencies of a node (\<^verbatim>\<open>tsc.go\<close>), the node filters (\<^verbatim>\<open>filter.go\<close>), the hint a virtual
  machine gets (\<^verbatim>\<open>hinter.go\<close>) and the loop that labels the nodes (\<^verbatim>\<open>nodetopologyupdater.go\<close>).
  Of a node and a virtual machine the model has the fields this package reads; a pointer that may
  be nil is an option. The stores are lists, in the order \<^verbatim>\<open>List\<close> returned.
\<close>

section \<open>Objects\<close>

record k8s_node =
  kn_Name :: string
  kn_Labels :: "(string, string) gomap"

record cpu_feature =
  cf_Name :: string
  cf_Policy :: string

record feature_state =
  fs_Enabled :: "bool option"

record feature_hyperv =
  fh_Reenlightenment :: "feature_state option"

record features =
  ft_Hyperv :: "feature_hyperv option"

record topology_hints =
  th_TSCFrequency :: "int option"

text \<open>\<open>tv_CPU\<close> holds the features of the CPU, when there is one.\<close>

record tsc_vmi =
  tv_Architecture :: string
  tv_CPU :: "cpu_feature list option"
  tv_Features :: "features option"
  tv_NodeName :: string
  tv_TopologyHints :: "topology_hints option"

definition CPUTimerLabel :: string where
  "CPUTimerLabel = ''cpu-timer.node.kubevirt.io/''"

definition TSCFrequencyLabel :: string where
  "TSCFrequencyLabel = CPUTimerLabel @ ''tsc-frequency''"

definition TSCFrequencySchedulingLabel :: string where
  "TSCFrequencySchedulingLabel = ''scheduling.node.kubevirt.io/tsc-frequency''"

definition TSCScalableLabel :: string where
  "TSCScalableLabel = CPUTimerLabel @ ''tsc-scalable''"

definition NodeSchedulable :: string where
  "NodeSchedulable = ''kubevirt.io/schedulable''"

section \<open>Frequencies of a node\<close>

definition TSCFrequencyFromNode :: "k8s_node \<Rightarrow> (int \<times> bool) res" where
  "TSCFrequencyFromNode node =
     (let scalable = (case map_of (kn_Labels node) TSCScalableLabel of
                        None \<Rightarrow> False | Some val \<Rightarrow> val = ''true'') in
      case map_of (kn_Labels node) TSCFrequencyLabel of
        None \<Rightarrow> Inr (0, False)
      | Some val \<Rightarrow>
          (case parse_int val 64 of
             Inl e \<Rightarrow> Inl (Wrap e (''tsc frequency on node '' @ kn_Name node @ '' is not an int''))
           | Inr freq \<Rightarrow>
               if freq \<le> 0 then Inl (Errorf ''tsc frequency on node is invalid'' [kn_Name node, itoa freq])
               else Inr (freq, scalable)))"

text \<open>A node whose frequency cannot be read counts with frequency 0 in the loop.\<close>

fun lowest_loop :: "nat \<Rightarrow> int \<Rightarrow> k8s_node list \<Rightarrow> int" where
  "lowest_loop i lowest [] = lowest"
| "lowest_loop i lowest (node # nodes) =
     (let freq = (case TSCFrequencyFromNode node of Inl _ \<Rightarrow> 0 | Inr (freq, _) \<Rightarrow> freq) in
      lowest_loop (i + 1) (if freq > 0 \<and> (i = 0 \<or> freq < lowest) then freq else lowest) nodes)"

definition LowestTSCFrequency :: "k8s_node list \<Rightarrow> int" where
  "LowestTSCFrequency nodes = lowest_loop 0 0 nodes"

definition TSCFrequenciesOnNode :: "k8s_node \<Rightarrow> int list" where
  "TSCFrequenciesOnNode node =
     List.map_filter (\<lambda>key.
       if has_prefix key (TSCFrequencySchedulingLabel @ ''-'') then
         (case parse_int (trim_prefix key (TSCFrequencySchedulingLabel @ ''-'')) 64 of
            Inl _ \<Rightarrow> None
          | Inr freq \<Rightarrow> Some freq)
       else None) (map fst (kn_Labels node))"

definition distance :: "int \<Rightarrow> int \<Rightarrow> int" where
  "distance freq1 freq2 =
     (if freq1 > freq2 then wrap64 (freq1 - freq2) else wrap64 (freq2 - freq1))"

text \<open>
  The factor \<^verbatim>\<open>TSCTolerancePPM / 1000000\<close> is a constant expression: it is exact until it becomes a
  \<^verbatim>\<open>float64\<close>.
\<close>

definition ToleranceForFrequency :: "int \<Rightarrow> int" where
  "ToleranceForFrequency freq = \<lfloor>fl (fl (of_int freq) * fl (250 / 1000000))\<rfloor>"

text \<open>
  \<open>ord\<close> is the order in which the map of required frequencies is ranged over.
\<close>

definition required_map :: "int list \<Rightarrow> int \<Rightarrow> bool \<Rightarrow> int list" where
  "required_map frequenciesInUse nodeFrequency scalable =
     fold (\<lambda>freq required.
         if \<not> scalable \<and> distance freq nodeFrequency > ToleranceForFrequency nodeFrequency
         then required else List.insert freq required)
       (frequenciesInUse @ [nodeFrequency]) []"

definition CalculateTSCLabelDiff ::
  "(int list \<Rightarrow> int list) \<Rightarrow> int list \<Rightarrow> int list \<Rightarrow> int \<Rightarrow> bool \<Rightarrow> int list \<times> int list" where
  "CalculateTSCLabelDiff ord frequenciesInUse frequenciesOnNode nodeFrequency scalable =
     (let tolerance = ToleranceForFrequency nodeFrequency;
          required = required_map frequenciesInUse nodeFrequency scalable;
          toRemove = filter (\<lambda>freq. freq \<notin> set required) frequenciesOnNode;
          toAdd = filter (\<lambda>freq. \<not> scalable \<or> freq \<le> nodeFrequency \<or>
                             distance freq nodeFrequency \<le> tolerance) (ord required)
      in (toAdd, toRemove))"

definition ToTSCSchedulableLabel :: "int \<Rightarrow> string" where
  "ToTSCSchedulableLabel frequency = TSCFrequencySchedulingLabel @ ''-'' @ itoa frequency"

definition ToTSCSchedulableLabels :: "int list \<Rightarrow> string list" where
  "ToTSCSchedulableLabels frequencies = map ToTSCSchedulableLabel frequencies"

section \<open>What a virtual machine needs\<close>

datatype requirement_type = RequiredForBoot | RequiredForMigration | NotRequired

record requirement =
  rq_Type :: requirement_type
  rq_Reason :: string

definition AreTSCFrequencyTopologyHintsDefined :: "tsc_vmi option \<Rightarrow> bool" where
  "AreTSCFrequencyTopologyHintsDefined vmi =
     (case vmi of None \<Rightarrow> False | Some v \<Rightarrow>
      (case tv_TopologyHints v of None \<Rightarrow> False | Some h \<Rightarrow>
       (case th_TSCFrequency h of None \<Rightarrow> False | Some f \<Rightarrow> f > 0)))"

definition vmiHasInvTSCFeature :: "tsc_vmi \<Rightarrow> bool" where
  "vmiHasInvTSCFeature vmi =
     (case tv_CPU vmi of None \<Rightarrow> False
      | Some fs \<Rightarrow> list_ex (\<lambda>f. cf_Name f = ''invtsc'' \<and> (cf_Policy f = ''require'' \<or> cf_Policy f = ''force'')) fs)"

definition isVmiUsingHyperVReenlightenment :: "tsc_vmi option \<Rightarrow> bool" where
  "isVmiUsingHyperVReenlightenment vmi =
     (case vmi of None \<Rightarrow> False | Some v \<Rightarrow>
      (case tv_Features v of None \<Rightarrow> False | Some ft \<Rightarrow>
       (case ft_Hyperv ft of None \<Rightarrow> False | Some h \<Rightarrow>
        (case fh_Reenlightenment h of None \<Rightarrow> False | Some r \<Rightarrow>
         (case fs_Enabled r of None \<Rightarrow> False | Some b \<Rightarrow> b)))))"

definition GetTscFrequencyRequirement :: "tsc_vmi \<Rightarrow> requirement" where
  "GetTscFrequencyRequirement vmi =
     (if vmiHasInvTSCFeature vmi then
        \<lparr>rq_Type = RequiredForBoot,
         rq_Reason = ''VMI with invtsc CPU feature must have tsc frequency defined in order to boot''\<rparr>
      else if isVmiUsingHyperVReenlightenment (Some vmi) then
        \<lparr>rq_Type = RequiredForMigration,
         rq_Reason = ''HyperV Reenlightenment VMIs cannot migrate when TSC Frequency is not exposed on the cluster: guest timers might be inconsistent''\<rparr>
      else \<lparr>rq_Type = NotRequired, rq_Reason = ''''\<rparr>)"

definition IsManualTSCFrequencyRequired :: "tsc_vmi option \<Rightarrow> bool" where
  "IsManualTSCFrequencyRequired vmi =
     (case vmi of None \<Rightarrow> False
      | Some v \<Rightarrow> rq_Type (GetTscFrequencyRequirement v) \<noteq> NotRequired \<and>
                 AreTSCFrequencyTopologyHintsDefined (Some v))"

section \<open>Filters\<close>

type_synonym node_predicate = "k8s_node option \<Rightarrow> bool"

definition IsSchedulable :: node_predicate where
  "IsSchedulable node =
     (case node of None \<Rightarrow> False | Some n \<Rightarrow> map_of (kn_Labels n) NodeSchedulable = Some ''true'')"

definition HasInvTSCFrequency :: node_predicate where
  "HasInvTSCFrequency node =
     (case node of None \<Rightarrow> False
      | Some n \<Rightarrow> (case TSCFrequencyFromNode n of Inl _ \<Rightarrow> False
                  | Inr (freq, _) \<Rightarrow> if freq = 0 then False else True))"

definition TSCFrequencyGreaterEqual :: "int \<Rightarrow> node_predicate" where
  "TSCFrequencyGreaterEqual frequency node =
     (case node of None \<Rightarrow> False
      | Some n \<Rightarrow> (case TSCFrequencyFromNode n of Inl _ \<Rightarrow> False
                  | Inr (freq, scalable) \<Rightarrow>
                      if freq = 0 then False
                      else scalable \<and> freq \<ge> frequency \<or> freq = frequency \<and> \<not> scalable))"

definition NodeOfVMI :: "tsc_vmi \<Rightarrow> node_predicate" where
  "NodeOfVMI vmi node =
     (if tv_NodeName vmi = '''' then False
      else (case node of None \<Rightarrow> False | Some n \<Rightarrow> kn_Name n = tv_NodeName vmi))"

definition Not_pred :: "node_predicate \<Rightarrow> node_predicate" where
  "Not_pred f node = (\<not> f node)"

definition Or_pred :: "node_predicate list \<Rightarrow> node_predicate" where
  "Or_pred predicates node = list_ex (\<lambda>p. p node) predicates"

definition FilterNodesFromCache :: "k8s_node list \<Rightarrow> node_predicate list \<Rightarrow> k8s_node list" where
  "FilterNodesFromCache objs predicates = filter (\<lambda>node. list_all (\<lambda>p. p (Some node)) predicates) objs"

definition IsNodeRunningVmis :: "tsc_vmi list \<Rightarrow> node_predicate" where
  "IsNodeRunningVmis vmiStore node =
     (case node of None \<Rightarrow> False | Some n \<Rightarrow> list_ex (\<lambda>vmi. tv_NodeName vmi = kn_Name n) vmiStore)"

section \<open>Hints\<close>

text \<open>The configured minimum frequency is read from the cluster configuration once per call.\<close>

record hinter =
  hi_MinimumClusterTSCFrequency :: "int option"
  hi_nodeStore :: "k8s_node list"
  hi_vmiStore :: "tsc_vmi list"

definition IsTscFrequencyRequired :: "tsc_vmi \<Rightarrow> bool" where
  "IsTscFrequencyRequired vmi \<longleftrightarrow>
     tv_Architecture vmi = ''amd64'' \<and> rq_Type (GetTscFrequencyRequirement vmi) \<noteq> NotRequired"

definition LowestTSCFrequencyOnCluster :: "hinter \<Rightarrow> int res" where
  "LowestTSCFrequencyOnCluster t =
     (case hi_MinimumClusterTSCFrequency t of
        Some c \<Rightarrow> if c > 0 then Inr c
                 else Inl (Errorf ''the configured minimumClusterTSCFrequency must be greater 0'' [itoa c])
      | None \<Rightarrow> Inr (LowestTSCFrequency (FilterNodesFromCache (hi_nodeStore t)
                 [HasInvTSCFrequency, Or_pred [IsSchedulable, IsNodeRunningVmis (hi_vmiStore t)]])))"

definition TopologyHintsForVMI ::
  "hinter \<Rightarrow> tsc_vmi \<Rightarrow> requirement_type \<times> topology_hints option res" where
  "TopologyHintsForVMI t vmi =
     (let requirement = rq_Type (GetTscFrequencyRequirement vmi) in
      if requirement = NotRequired \<or> tv_Architecture vmi \<noteq> ''amd64'' then (requirement, Inr None)
      else (case LowestTSCFrequencyOnCluster t of
              Inl e \<Rightarrow> (requirement, Inl (Wrap e ''failed to determine the lowest tsc frequency on the cluster''))
            | Inr freq \<Rightarrow> (requirement, Inr (Some \<lparr>th_TSCFrequency = Some freq\<rparr>))))"

text \<open>The map of frequencies is read back in an order \<open>ord\<close>.\<close>

definition TSCFrequenciesInUse :: "(int list \<Rightarrow> int list) \<Rightarrow> hinter \<Rightarrow> int list" where
  "TSCFrequenciesInUse ord t =
     ord (fold (\<lambda>vmi frequencies.
         if AreTSCFrequencyTopologyHintsDefined (Some vmi)
         then List.insert (the (th_TSCFrequency (the (tv_TopologyHints vmi)))) frequencies
         else frequencies) (hi_vmiStore t) [])"

section \<open>Labelling the nodes\<close>

record update_stats =
  us_updated :: nat
  us_skipped :: nat
  us_error :: nat

text \<open>
  \<open>Labels\<close> is not nil where labels are added: the callers only pass nodes that have a frequency
  label.
\<close>

definition calculateNodeLabelChanges ::
  "(int list \<Rightarrow> int list) \<Rightarrow> k8s_node \<Rightarrow> int list \<Rightarrow> k8s_node res" where
  "calculateNodeLabelChanges ord original requiredFrequencies =
     (case TSCFrequencyFromNode original of
        Inl e \<Rightarrow> Inl e
      | Inr (nodeFreq, scalable) \<Rightarrow>
          (let freqsOnNode = TSCFrequenciesOnNode original;
               (toAdd, toRemove) = CalculateTSCLabelDiff ord requiredFrequencies freqsOnNode nodeFreq scalable;
               labels = fold (\<lambda>l. put l ''true'') (ToTSCSchedulableLabels toAdd) (kn_Labels original);
               labels = fold del (ToTSCSchedulableLabels toRemove) labels
           in Inr (original\<lparr>kn_Labels := labels\<rparr>)))"

definition requiredFrequencies :: "(int list \<Rightarrow> int list) \<Rightarrow> hinter \<Rightarrow> int list res" where
  "requiredFrequencies ord t =
     (case LowestTSCFrequencyOnCluster t of
        Inl e \<Rightarrow> Inl (Wrap e ''failed to calculate lowest TSC frequency for nodes'')
      | Inr lowestFrequency \<Rightarrow> Inr (TSCFrequenciesInUse ord t @ [lowestFrequency]))"

text \<open>Equality of two maps of labels.\<close>

definition same_labels :: "(string, string) gomap \<Rightarrow> (string, string) gomap \<Rightarrow> bool" where
  "same_labels a b \<longleftrightarrow> (\<forall>k \<in> keys a \<union> keys b. map_of a k = map_of b k)"

text \<open>
  \<open>patch\<close> is \<^verbatim>\<open>nodeutils.PatchNode\<close> on the cluster state \<open>'w\<close>: whether the API server took the patch,
  and the new state.
\<close>

fun sync_loop ::
  "(int list \<Rightarrow> int list) \<Rightarrow> ('w \<Rightarrow> k8s_node \<Rightarrow> k8s_node \<Rightarrow> bool \<times> 'w) \<Rightarrow> int list \<Rightarrow> k8s_node list \<Rightarrow>
   update_stats \<Rightarrow> 'w \<Rightarrow> update_stats \<times> 'w" where
  "sync_loop ord patch req [] stats w = (stats, w)"
| "sync_loop ord patch req (node # nodes) stats w =
     (case calculateNodeLabelChanges ord node req of
        Inl e \<Rightarrow> sync_loop ord patch req nodes (stats\<lparr>us_error := us_error stats + 1\<rparr>) w
      | Inr nodeCopy \<Rightarrow>
          if \<not> same_labels (kn_Labels node) (kn_Labels nodeCopy) then
            (case patch w node nodeCopy of
               (ok, w') \<Rightarrow>
                 if \<not> ok then sync_loop ord patch req nodes (stats\<lparr>us_error := us_error stats + 1\<rparr>) w'
                 else sync_loop ord patch req nodes (stats\<lparr>us_updated := us_updated stats + 1\<rparr>) w')
          else sync_loop ord patch req nodes (stats\<lparr>us_skipped := us_skipped stats + 1\<rparr>) w)"

definition no_updates :: update_stats where
  "no_updates = \<lparr>us_updated = 0, us_skipped = 0, us_error = 0\<rparr>"

definition sync ::
  "(int list \<Rightarrow> int list) \<Rightarrow> ('w \<Rightarrow> k8s_node \<Rightarrow> k8s_node \<Rightarrow> bool \<times> 'w) \<Rightarrow> hinter \<Rightarrow> k8s_node list \<Rightarrow> 'w \<Rightarrow>
   update_stats \<times> 'w" where
  "sync ord patch t nodes w =
     (case requiredFrequencies ord t of
        Inl e \<Rightarrow> (no_updates\<lparr>us_skipped := length nodes\<rparr>, w)
      | Inr req \<Rightarrow> sync_loop ord patch req nodes no_updates w)"

text \<open>One round of \<^verbatim>\<open>Run\<close>, over the nodes of the informer.\<close>

definition run_round ::
  "(int list \<Rightarrow> int list) \<Rightarrow> ('w \<Rightarrow> k8s_node \<Rightarrow> k8s_node \<Rightarrow> bool \<times> 'w) \<Rightarrow> hinter \<Rightarrow> k8s_node list \<Rightarrow> 'w \<Rightarrow>
   update_stats \<times> 'w" where
  "run_round ord patch t informer w =
     sync ord patch t (FilterNodesFromCache informer [HasInvTSCFrequency]) w"

end
