(* ===== verification/TscCorrect.thy ===== *)
theory TscCorrect
  imports Tsc
begin

text \<open>
  Correctness of the frequency labels: the tolerance of a node in exact integers, the labels an
  update leaves, that an update is stable, and that a hinted frequency finds its nodes.
\<close>

section \<open>The tolerance\<close>

lemma ulp_exp_unique:
  assumes "0 < x" "2 powr of_int (u + 52) \<le> x" "x < 2 powr of_int (u + 53)"
  shows "ulp_exp x = u"
proof -
  have "2 powr of_int (ulp_exp x + 52) < (2 powr of_int (u + 53) :: real)"
    "2 powr of_int (u + 52) < (2 powr of_int (ulp_exp x + 53) :: real)"
    using ulp_exp_bounds [of x] assms by linarith+
  then have "ulp_exp x + 52 < u + 53" "u + 52 < ulp_exp x + 53"
    by (simp_all only: powr_int_lessD)
  then show ?thesis by simp
qed

lemma two_powr_minus: "(2::real) powr - numeral k = 1 / 2 ^ numeral k"
  by (simp add: powr_minus_divide)

lemma fl_tolerance_factor: "fl (250 / 1000000) = 4611686018427388 / 2 ^ 64"
proof -
  have "ulp_exp (250 / 1000000) = - 64"
    by (rule ulp_exp_unique) (simp_all add: two_powr_minus)
  moreover have "\<lfloor>(250 / 1000000 * 2 ^ 64 :: real)\<rfloor> = 4611686018427387"
    by (rule floor_unique) simp_all
  then have "round_even (250 / 1000000 * 2 ^ 64) = 4611686018427388"
    by (simp add: round_even_def Let_def)
  ultimately show ?thesis
    by (simp add: fl_def two_powr_minus)
qed

lemma tolerance_div:
  assumes "0 \<le> n" "n < 2 ^ 49"
  shows "ToleranceForFrequency n = n div 4000"
proof -
  let ?k = "n div 4000"
  let ?P = "of_int n * (4611686018427388 / 2 ^ 64) :: real"
  have k: "0 \<le> ?k" "?k < 2 ^ 38" using assms by auto
  have n: "n = 4000 * ?k + n mod 4000" "n mod 4000 < 4000" "0 \<le> n mod 4000" by simp_all
  then have n4: "4000 * ?k \<le> n" "n \<le> 4000 * ?k + 3999" by linarith+
  then have r: "(4000 :: real) * of_int ?k \<le> of_int n" "(of_int n :: real) \<le> 4000 * of_int ?k + 3999"
    by linarith+
  have nb: "(of_int n :: real) < 2 ^ 49" using assms(2) by (metis of_int_less_iff of_int_numeral of_int_power)
  have P0: "0 \<le> ?P" "of_int ?k \<le> ?P" using r k by simp_all
  let ?q = "of_int ?k + 1 - 1 / 8192 :: real"
  have "fl (of_int ?k) \<le> fl ?P" using P0(2) k(1) by (intro fl_mono_pos) simp_all
  then have lo: "of_int ?k \<le> fl ?P" using k by simp
  have "?P \<le> ?q" using r nb by simp
  then have "fl ?P \<le> fl ?q" using P0(1) by (intro fl_mono_pos) simp_all
  also have "fl ?q = ?q"
  proof (rule fl_exact [of _ "8192 * ?k + 8191" "- 13"])
    show "?q = of_int (8192 * ?k + 8191) * 2 powr of_int (- 13)" by (simp add: two_powr_minus)
    show "\<bar>8192 * ?k + 8191\<bar> < 2 ^ 53" using k by simp
  qed
  finally have "fl ?P < of_int ?k + 1" by simp
  then have "\<lfloor>fl ?P\<rfloor> = ?k" using lo by (intro floor_unique) simp_all
  moreover have "fl (of_int n) = of_int n" using assms by simp
  ultimately show ?thesis unfolding ToleranceForFrequency_def fl_tolerance_factor by simp
qed

text \<open>A frequency is near a node's when it differs by at most 250 parts per million.\<close>

definition near :: "int \<Rightarrow> int \<Rightarrow> bool" where
  "near f n \<longleftrightarrow> 4000 * \<bar>f - n\<bar> \<le> n"

lemma distance_tolerance:
  assumes "0 \<le> n" "n < 2 ^ 49" "0 \<le> f" "f < 2 ^ 63"
  shows "distance f n \<le> ToleranceForFrequency n \<longleftrightarrow> near f n"
proof -
  have "distance f n = \<bar>f - n\<bar>"
    using assms by (auto simp: distance_def wrap64_id)
  moreover have "x \<le> n div 4000 \<longleftrightarrow> 4000 * x \<le> n" for x :: int
  proof -
    have "n = 4000 * (n div 4000) + n mod 4000" "n mod 4000 < 4000" "0 \<le> n mod 4000" by simp_all
    then show ?thesis by (intro iffI) linarith+
  qed
  ultimately show ?thesis
    using tolerance_div [OF assms(1,2)] by (simp add: near_def)
qed

section \<open>Labels\<close>

definition in_int64 :: "int \<Rightarrow> bool" where
  "in_int64 f \<longleftrightarrow> - (2 ^ 63) \<le> f \<and> f < 2 ^ 63"

lemma label_inj [simp]: "ToTSCSchedulableLabel f = ToTSCSchedulableLabel g \<longleftrightarrow> f = g"
  by (simp add: ToTSCSchedulableLabel_def itoa_inj)

lemma label_not_node_label:
  "ToTSCSchedulableLabel f \<noteq> TSCFrequencyLabel" "ToTSCSchedulableLabel f \<noteq> TSCScalableLabel"
  by (simp_all add: ToTSCSchedulableLabel_def TSCFrequencySchedulingLabel_def TSCFrequencyLabel_def
      TSCScalableLabel_def CPUTimerLabel_def)

lemma parse_int_range: "parse_int s 64 = Inr f \<Longrightarrow> in_int64 f"
  by (auto simp: parse_int_def in_int64_def split: option.splits if_splits)

lemma frequencies_on_node:
  "f \<in> set (TSCFrequenciesOnNode node) \<longleftrightarrow>
     (\<exists>key \<in> keys (kn_Labels node). has_prefix key (TSCFrequencySchedulingLabel @ ''-'') \<and>
        parse_int (trim_prefix key (TSCFrequencySchedulingLabel @ ''-'')) 64 = Inr f)"
  by (auto simp: TSCFrequenciesOnNode_def List.map_filter_def keys_def split: if_splits sum.splits;
      force)

lemma frequencies_on_node_range: "f \<in> set (TSCFrequenciesOnNode node) \<Longrightarrow> in_int64 f"
  by (auto simp: frequencies_on_node parse_int_range)

lemma label_on_node:
  assumes "ToTSCSchedulableLabel f \<in> keys (kn_Labels node)" "in_int64 f"
  shows "f \<in> set (TSCFrequenciesOnNode node)"
proof -
  let ?p = "TSCFrequencySchedulingLabel @ ''-''"
  have l: "ToTSCSchedulableLabel f = ?p @ itoa f" by (simp add: ToTSCSchedulableLabel_def)
  have "parse_int (itoa f) 64 = Inr f" using assms(2) by (simp add: in_int64_def parse_int_itoa)
  then have "has_prefix (ToTSCSchedulableLabel f) ?p \<and>
      parse_int (trim_prefix (ToTSCSchedulableLabel f) ?p) 64 = Inr f"
    by (simp only: l has_prefix_append trim_prefix_append simp_thms)
  with assms(1) show ?thesis unfolding frequencies_on_node by blast
qed

lemma map_of_fold_put:
  "map_of (fold (\<lambda>l. put l v) ls m) k = (if k \<in> set ls then Some v else map_of m k)"
  by (induction ls arbitrary: m) auto

lemma map_of_fold_del: "map_of (fold del ls m) k = (if k \<in> set ls then None else map_of m k)"
  by (induction ls arbitrary: m) auto

lemma set_fold_insert:
  "set (fold (\<lambda>x acc. if P x then acc else List.insert x acc) xs acc) = set acc \<union> {x \<in> set xs. \<not> P x}"
  by (induction xs arbitrary: acc) auto

definition usable :: "int \<Rightarrow> int list \<Rightarrow> bool" where
  "usable n req \<longleftrightarrow> 0 < n \<and> n < 2 ^ 49 \<and> (\<forall>f \<in> set req. 0 \<le> f \<and> f < 2 ^ 63)"

lemma usableD:
  assumes "usable n req" "f = n \<or> f \<in> set req"
  shows "distance f n \<le> ToleranceForFrequency n \<longleftrightarrow> near f n" "in_int64 f"
proof -
  have "0 \<le> n" "n < 2 ^ 49" "0 \<le> f" "f < 2 ^ 63" using assms by (auto simp: usable_def)
  then show "distance f n \<le> ToleranceForFrequency n \<longleftrightarrow> near f n" "in_int64 f"
    by (simp_all only: distance_tolerance) (simp add: in_int64_def)
qed

lemma near_self: "usable n req \<Longrightarrow> near n n"
  by (simp add: near_def usable_def)

lemma set_required_map:
  assumes "usable n req"
  shows "set (required_map req n sc) = {f. (f = n \<or> f \<in> set req) \<and> (sc \<or> near f n)}"
proof -
  have "set (required_map req n sc) =
      {f \<in> set (req @ [n]). \<not> (\<not> sc \<and> distance f n > ToleranceForFrequency n)}"
    unfolding required_map_def by (subst set_fold_insert) simp
  also have "\<dots> = {f. (f = n \<or> f \<in> set req) \<and> (sc \<or> near f n)}"
    using usableD(1) [OF assms] by (auto simp: not_less)
  finally show ?thesis .
qed

lemma set_label_diff:
  assumes "usable n req" "\<And>xs. set (ord xs) = set xs"
  shows "set (fst (CalculateTSCLabelDiff ord req onNode n sc)) =
      {f. (f = n \<or> f \<in> set req) \<and> (near f n \<or> sc \<and> f \<le> n)}"
    "set (snd (CalculateTSCLabelDiff ord req onNode n sc)) =
      {f \<in> set onNode. \<not> ((f = n \<or> f \<in> set req) \<and> (sc \<or> near f n))}"
  using usableD(1) [OF assms(1)] assms(2)
  by (auto simp: CalculateTSCLabelDiff_def Let_def set_required_map [OF assms(1)])

text \<open>The labels after a change, for every key.\<close>

lemma label_changes_total:
  assumes "TSCFrequencyFromNode node = Inr (n, sc)"
  obtains node' where "calculateNodeLabelChanges ord node req = Inr node'"
  using assms by (cases "CalculateTSCLabelDiff ord req (TSCFrequenciesOnNode node) n sc")
    (simp add: calculateNodeLabelChanges_def Let_def)

lemma label_changes:
  assumes "TSCFrequencyFromNode node = Inr (n, sc)" "usable n req" "\<And>xs. set (ord xs) = set xs"
    "calculateNodeLabelChanges ord node req = Inr node'"
  shows "kn_Name node' = kn_Name node"
    "in_int64 f \<Longrightarrow> map_of (kn_Labels node') (ToTSCSchedulableLabel f) =
       (if f = n \<or> f \<in> set req then
          (if near f n \<or> sc \<and> f \<le> n then Some ''true''
           else if sc then map_of (kn_Labels node) (ToTSCSchedulableLabel f) else None)
        else None)"
    "\<forall>f. in_int64 f \<longrightarrow> key \<noteq> ToTSCSchedulableLabel f \<Longrightarrow>
       map_of (kn_Labels node') key = map_of (kn_Labels node) key"
proof -
  let ?d = "CalculateTSCLabelDiff ord req (TSCFrequenciesOnNode node) n sc"
  have node': "node' = node\<lparr>kn_Labels := fold del (ToTSCSchedulableLabels (snd ?d))
     (fold (\<lambda>l. put l ''true'') (ToTSCSchedulableLabels (fst ?d)) (kn_Labels node))\<rparr>"
    using assms(1,4) by (simp add: calculateNodeLabelChanges_def Let_def split_beta)
  define A R where "A = set (fst ?d)" and "R = set (snd ?d)"
  have m: "map_of (kn_Labels node') key =
      (if key \<in> ToTSCSchedulableLabel ` R then None
       else if key \<in> ToTSCSchedulableLabel ` A then Some ''true'' else map_of (kn_Labels node) key)" for key
    by (simp add: node' map_of_fold_put map_of_fold_del ToTSCSchedulableLabels_def A_def R_def)
  have d: "f \<in> A \<longleftrightarrow> (f = n \<or> f \<in> set req) \<and> (near f n \<or> sc \<and> f \<le> n)"
    "f \<in> R \<longleftrightarrow> f \<in> set (TSCFrequenciesOnNode node) \<and> \<not> ((f = n \<or> f \<in> set req) \<and> (sc \<or> near f n))" for f
    unfolding A_def R_def set_label_diff [OF assms(2,3)] by simp_all
  show "kn_Name node' = kn_Name node" by (simp add: node')
  show "map_of (kn_Labels node') (ToTSCSchedulableLabel f) =
       (if f = n \<or> f \<in> set req then
          (if near f n \<or> sc \<and> f \<le> n then Some ''true''
           else if sc then map_of (kn_Labels node) (ToTSCSchedulableLabel f) else None)
        else None)" if "in_int64 f"
  proof -
    have "map_of (kn_Labels node) (ToTSCSchedulableLabel f) = None" if "f \<notin> set (TSCFrequenciesOnNode node)"
      using label_on_node [OF _ \<open>in_int64 f\<close>] that by (auto simp: not_in_keys_iff [symmetric])
    then show ?thesis unfolding m by (auto simp: d image_iff)
  qed
  show "map_of (kn_Labels node') key = map_of (kn_Labels node) key"
    if "\<forall>f. in_int64 f \<longrightarrow> key \<noteq> ToTSCSchedulableLabel f"
  proof -
    have "in_int64 f" if "f \<in> A \<union> R" for f
      using that usableD(2) [OF assms(2)] frequencies_on_node_range by (auto simp: d)
    then show ?thesis using that unfolding m by (auto simp: image_iff)
  qed
qed

section \<open>The lowest frequency of the cluster\<close>

definition freq_of :: "k8s_node \<Rightarrow> int" where
  "freq_of node = (case TSCFrequencyFromNode node of Inl _ \<Rightarrow> 0 | Inr (freq, _) \<Rightarrow> freq)"

lemma freq_range:
  assumes "TSCFrequencyFromNode node = Inr (n, sc)"
  shows "0 \<le> n \<and> n < 2 ^ 63"
  using assms
  by (auto simp: TSCFrequencyFromNode_def Let_def in_int64_def dest: parse_int_range
      split: option.splits sum.splits if_splits)

lemma freq_of_range: "0 \<le> freq_of node \<and> freq_of node < 2 ^ 63"
  using freq_range by (auto simp: freq_of_def split: sum.splits)

lemma HasInvTSCFrequency_iff: "HasInvTSCFrequency (Some node) \<longleftrightarrow> 0 < freq_of node"
  using freq_of_range [of node]
  by (auto simp: HasInvTSCFrequency_def freq_of_def split: sum.splits)

lemma lowest_loop_Min:
  assumes "\<And>node. node \<in> set nodes \<Longrightarrow> 0 < freq_of node" "0 < i"
  shows "lowest_loop i lowest nodes = Min (insert lowest (freq_of ` set nodes))"
  using assms
proof (induction nodes arbitrary: i lowest)
  case (Cons node nodes)
  have "lowest_loop i lowest (node # nodes) = lowest_loop (i + 1) (min lowest (freq_of node)) nodes"
    using Cons.prems by (simp add: freq_of_def [symmetric] min_def)
  also have "\<dots> = Min (insert (min lowest (freq_of node)) (freq_of ` set nodes))"
    using Cons by simp
  also have "\<dots> = Min (insert lowest (freq_of ` set (node # nodes)))"
    by (cases nodes) (simp_all add: min.assoc)
  finally show ?case .
qed simp

lemma LowestTSCFrequency_Min:
  assumes "\<And>node. node \<in> set nodes \<Longrightarrow> 0 < freq_of node"
  shows "LowestTSCFrequency nodes = (if nodes = [] then 0 else Min (freq_of ` set nodes))"
proof (cases nodes)
  case (Cons node rest)
  have "LowestTSCFrequency nodes = lowest_loop 1 (freq_of node) rest"
    using assms Cons by (simp add: LowestTSCFrequency_def freq_of_def [symmetric])
  then show ?thesis
    using assms Cons lowest_loop_Min [of rest 1 "freq_of node"] by simp
qed (simp add: LowestTSCFrequency_def)

definition eligible :: "hinter \<Rightarrow> k8s_node \<Rightarrow> bool" where
  "eligible t node \<longleftrightarrow> 0 < freq_of node \<and>
     (IsSchedulable (Some node) \<or> IsNodeRunningVmis (hi_vmiStore t) (Some node))"

lemma LowestTSCFrequencyOnCluster_eq:
  "LowestTSCFrequencyOnCluster t =
     (case hi_MinimumClusterTSCFrequency t of
        Some c \<Rightarrow> if c > 0 then Inr c
                 else Inl (Errorf ''the configured minimumClusterTSCFrequency must be greater 0'' [itoa c])
      | None \<Rightarrow> Inr (let E = filter (eligible t) (hi_nodeStore t) in
                     if E = [] then 0 else Min (freq_of ` set E)))"
proof -
  have "FilterNodesFromCache (hi_nodeStore t)
      [HasInvTSCFrequency, Or_pred [IsSchedulable, IsNodeRunningVmis (hi_vmiStore t)]] =
    filter (eligible t) (hi_nodeStore t)"
    unfolding FilterNodesFromCache_def
    by (rule filter_cong) (simp_all add: eligible_def HasInvTSCFrequency_iff Or_pred_def)
  moreover have "LowestTSCFrequency (filter (eligible t) (hi_nodeStore t)) =
      (if filter (eligible t) (hi_nodeStore t) = [] then 0
       else Min (freq_of ` set (filter (eligible t) (hi_nodeStore t))))"
    by (rule LowestTSCFrequency_Min) (simp add: eligible_def)
  ultimately show ?thesis
    by (simp add: LowestTSCFrequencyOnCluster_def Let_def split: option.split)
qed

lemma lowest_of_eligible:
  assumes "hi_MinimumClusterTSCFrequency t = None" "LowestTSCFrequencyOnCluster t = Inr f"
    "node \<in> set (hi_nodeStore t)" "eligible t node"
  shows "0 < f \<and> f \<le> freq_of node"
proof -
  let ?F = "freq_of ` set (filter (eligible t) (hi_nodeStore t))"
  have n: "freq_of node \<in> ?F" using assms(3,4) by simp
  then have "f = Min ?F" using assms(1,2) by (auto simp: LowestTSCFrequencyOnCluster_eq Let_def filter_empty_conv)
  moreover have "Min ?F \<in> ?F" using n by (intro Min_in) auto
  moreover have "Min ?F \<le> freq_of node" using n by (intro Min_le) auto
  ultimately show ?thesis by (auto simp: eligible_def)
qed

section \<open>The required frequencies\<close>

text \<open>The fields of the configuration and of the machines are 64-bit integers.\<close>

definition hinter_ok :: "hinter \<Rightarrow> bool" where
  "hinter_ok t \<longleftrightarrow>
     (case hi_MinimumClusterTSCFrequency t of None \<Rightarrow> True | Some c \<Rightarrow> c < 2 ^ 63) \<and>
     list_all (\<lambda>vmi. case tv_TopologyHints vmi of None \<Rightarrow> True | Some h \<Rightarrow>
        (case th_TSCFrequency h of None \<Rightarrow> True | Some f \<Rightarrow> f < 2 ^ 63)) (hi_vmiStore t)"

lemma lowest_range:
  assumes "LowestTSCFrequencyOnCluster t = Inr f" "hinter_ok t"
  shows "0 \<le> f \<and> f < 2 ^ 63"
proof (cases "hi_MinimumClusterTSCFrequency t")
  case None
  let ?F = "freq_of ` set (filter (eligible t) (hi_nodeStore t))"
  have f: "f = (if ?F = {} then 0 else Min ?F)"
    using assms(1) None by (auto simp: LowestTSCFrequencyOnCluster_eq Let_def filter_empty_conv)
  show ?thesis
  proof (cases "?F = {}")
    case False
    then have "Min ?F \<in> ?F" by (intro Min_in) simp_all
    then have "f \<in> ?F" unfolding f if_not_P [OF False] .
    then show ?thesis using freq_of_range by auto
  qed (use f in simp)
next
  case (Some c)
  with assms show ?thesis
    by (auto simp: LowestTSCFrequencyOnCluster_def hinter_ok_def split: if_splits)
qed

lemma hint_range:
  assumes "vmi \<in> set (hi_vmiStore t)" "hinter_ok t" "AreTSCFrequencyTopologyHintsDefined (Some vmi)"
  shows "0 \<le> the (th_TSCFrequency (the (tv_TopologyHints vmi)))"
    "the (th_TSCFrequency (the (tv_TopologyHints vmi))) < 2 ^ 63"
  using assms
  by (auto simp: hinter_ok_def AreTSCFrequencyTopologyHintsDefined_def list_all_iff split: option.splits)

lemma in_use_range:
  assumes "f \<in> set (TSCFrequenciesInUse ord t)" "hinter_ok t" "\<And>xs. set (ord xs) = set xs"
  shows "0 \<le> f \<and> f < 2 ^ 63"
proof -
  define P where "P f \<longleftrightarrow> 0 \<le> f \<and> f < 2 ^ 63" for f :: int
  let ?step = "\<lambda>vmi frequencies. if AreTSCFrequencyTopologyHintsDefined (Some vmi)
         then List.insert (the (th_TSCFrequency (the (tv_TopologyHints vmi)))) frequencies
         else frequencies"
  have "\<forall>f \<in> set (fold ?step vs acc). P f"
    if "\<forall>f \<in> set acc. P f" "\<forall>vmi \<in> set vs. vmi \<in> set (hi_vmiStore t)" for vs acc
    using that
  proof (induction vs arbitrary: acc)
    case (Cons vmi vs)
    have v: "vmi \<in> set (hi_vmiStore t)" using Cons.prems by simp
    have "\<forall>f \<in> set (?step vmi acc). P f"
      using Cons.prems(1) hint_range [OF v assms(2)] by (simp add: P_def)
    with Cons show ?case by simp
  qed simp
  from this [of "[]" "hi_vmiStore t"] have "\<forall>f \<in> set (fold ?step (hi_vmiStore t) []). P f" by simp
  then show ?thesis
    using assms(1,3) by (simp add: TSCFrequenciesInUse_def P_def)
qed

lemma required_range:
  assumes "requiredFrequencies ord t = Inr req" "hinter_ok t" "\<And>xs. set (ord xs) = set xs"
  shows "\<forall>f \<in> set req. 0 \<le> f \<and> f < 2 ^ 63"
  using assms(1) in_use_range [OF _ assms(2,3)] lowest_range [OF _ assms(2)]
  by (auto simp: requiredFrequencies_def split: sum.splits)

section \<open>A round after a round\<close>

text \<open>The store once the API server has taken every update of a round.\<close>

definition updated :: "(int list \<Rightarrow> int list) \<Rightarrow> int list \<Rightarrow> k8s_node \<Rightarrow> k8s_node" where
  "updated ord req node =
     (if HasInvTSCFrequency (Some node)
      then (case calculateNodeLabelChanges ord node req of Inl _ \<Rightarrow> node | Inr node' \<Rightarrow> node')
      else node)"

lemma TSCFrequencyFromNode_cong:
  assumes "kn_Name node' = kn_Name node"
    "map_of (kn_Labels node') TSCFrequencyLabel = map_of (kn_Labels node) TSCFrequencyLabel"
    "map_of (kn_Labels node') TSCScalableLabel = map_of (kn_Labels node) TSCScalableLabel"
  shows "TSCFrequencyFromNode node' = TSCFrequencyFromNode node"
  by (simp only: TSCFrequencyFromNode_def assms)

lemma label_not_schedulable: "ToTSCSchedulableLabel f \<noteq> NodeSchedulable"
  by (simp add: ToTSCSchedulableLabel_def TSCFrequencySchedulingLabel_def NodeSchedulable_def)

lemma changes_keep_node:
  assumes "TSCFrequencyFromNode node = Inr (n, sc)" "usable n req" "\<And>xs. set (ord xs) = set xs"
    "calculateNodeLabelChanges ord node req = Inr node'"
  shows "kn_Name node' = kn_Name node" "TSCFrequencyFromNode node' = TSCFrequencyFromNode node"
    "map_of (kn_Labels node') NodeSchedulable = map_of (kn_Labels node) NodeSchedulable"
proof -
  note l = label_changes [OF assms]
  show n: "kn_Name node' = kn_Name node" by (rule l(1))
  show "map_of (kn_Labels node') NodeSchedulable = map_of (kn_Labels node) NodeSchedulable"
    by (rule l(3)) (metis label_not_schedulable)
  show "TSCFrequencyFromNode node' = TSCFrequencyFromNode node"
    by (rule TSCFrequencyFromNode_cong [OF n]; rule l(3)) (metis label_not_node_label)+
qed

lemma change_twice:
  assumes "TSCFrequencyFromNode node = Inr (n, sc)" "usable n req" "\<And>xs. set (ord xs) = set xs"
    "calculateNodeLabelChanges ord node req = Inr node'"
    "calculateNodeLabelChanges ord node' req = Inr node''"
  shows "map_of (kn_Labels node'') key = map_of (kn_Labels node') key"
proof -
  have f': "TSCFrequencyFromNode node' = Inr (n, sc)"
    using changes_keep_node(2) [OF assms(1-4)] assms(1) by simp
  note l = label_changes [OF assms(1-4)] and l' = label_changes [OF f' assms(2,3,5)]
  show ?thesis
  proof (cases "\<exists>f. in_int64 f \<and> key = ToTSCSchedulableLabel f")
    case True
    then obtain f where f: "in_int64 f" "key = ToTSCSchedulableLabel f" by blast
    show ?thesis unfolding f(2) l'(2) [OF f(1)] using l(2) [OF f(1)] by simp
  next
    case False
    then show ?thesis by (intro l'(3)) blast
  qed
qed

definition settled :: "(int list \<Rightarrow> int list) \<Rightarrow> int list \<Rightarrow> k8s_node \<Rightarrow> bool" where
  "settled ord req node \<longleftrightarrow>
     (\<exists>node'. calculateNodeLabelChanges ord node req = Inr node' \<and>
        same_labels (kn_Labels node) (kn_Labels node'))"

lemma sync_loop_settled:
  "(\<And>node. node \<in> set nodes \<Longrightarrow> settled ord req node) \<Longrightarrow>
   sync_loop ord patch req nodes stats w = (stats\<lparr>us_skipped := us_skipped stats + length nodes\<rparr>, w)"
proof (induction nodes arbitrary: stats)
  case (Cons node nodes)
  then obtain node' where "calculateNodeLabelChanges ord node req = Inr node'"
    "same_labels (kn_Labels node) (kn_Labels node')"
    by (auto simp: settled_def)
  then show ?case using Cons by simp
qed simp

lemma updated_node:
  assumes "freq_of node < 2 ^ 49" "\<forall>f \<in> set req. 0 \<le> f \<and> f < 2 ^ 63" "\<And>xs. set (ord xs) = set xs"
  shows "kn_Name (updated ord req node) = kn_Name node \<and>
    TSCFrequencyFromNode (updated ord req node) = TSCFrequencyFromNode node \<and>
    map_of (kn_Labels (updated ord req node)) NodeSchedulable = map_of (kn_Labels node) NodeSchedulable \<and>
    (0 < freq_of node \<longrightarrow> settled ord req (updated ord req node))"
proof (cases "0 < freq_of node")
  case True
  then obtain n sc where f: "TSCFrequencyFromNode node = Inr (n, sc)" "n = freq_of node"
    by (auto simp: freq_of_def split: sum.splits)
  have u: "usable n req" using assms True f(2) by (simp add: usable_def)
  obtain node' where n: "calculateNodeLabelChanges ord node req = Inr node'"
    by (rule label_changes_total [OF f(1)])
  have upd: "updated ord req node = node'" using n True by (simp add: updated_def HasInvTSCFrequency_iff)
  note k = changes_keep_node [OF f(1) u assms(3) n]
  obtain node'' where n': "calculateNodeLabelChanges ord node' req = Inr node''"
    using k(2) f(1) by (metis label_changes_total)
  have "settled ord req node'"
    using n' change_twice [OF f(1) u assms(3) n n'] by (auto simp: settled_def same_labels_def)
  then show ?thesis using k upd by simp
next
  case False
  then show ?thesis by (simp add: updated_def HasInvTSCFrequency_iff)
qed

lemma updated_freq:
  assumes "freq_of node < 2 ^ 49" "\<forall>f \<in> set req. 0 \<le> f \<and> f < 2 ^ 63" "\<And>xs. set (ord xs) = set xs"
  shows "freq_of (updated ord req node) = freq_of node"
    "eligible (t\<lparr>hi_nodeStore := s\<rparr>) (updated ord req node) = eligible t node"
  using updated_node [OF assms]
  by (simp_all add: freq_of_def eligible_def IsSchedulable_def IsNodeRunningVmis_def)

lemma required_updated:
  assumes "\<forall>node \<in> set (hi_nodeStore t). freq_of node < 2 ^ 49" "\<forall>f \<in> set req. 0 \<le> f \<and> f < 2 ^ 63"
    "\<And>xs. set (ord xs) = set xs"
  shows "requiredFrequencies ord (t\<lparr>hi_nodeStore := map (updated ord req) (hi_nodeStore t)\<rparr>) =
    requiredFrequencies ord t"
proof -
  let ?t = "t\<lparr>hi_nodeStore := map (updated ord req) (hi_nodeStore t)\<rparr>"
  have "filter (eligible ?t) (hi_nodeStore ?t) =
      map (updated ord req) (filter (eligible ?t \<circ> updated ord req) (hi_nodeStore t))"
    by (simp add: filter_map)
  also have "filter (eligible ?t \<circ> updated ord req) (hi_nodeStore t) = filter (eligible t) (hi_nodeStore t)"
    using updated_freq(2) [OF _ assms(2,3)] assms(1) by (intro filter_cong) auto
  finally have e: "filter (eligible ?t) (hi_nodeStore ?t) =
      map (updated ord req) (filter (eligible t) (hi_nodeStore t))" .
  have "freq_of ` updated ord req ` A = freq_of ` A" if "A \<subseteq> set (hi_nodeStore t)" for A
    using updated_freq(1) [OF _ assms(2,3)] assms(1) that
    by (force simp: image_image intro!: image_cong)
  then have "freq_of ` set (filter (eligible ?t) (hi_nodeStore ?t)) =
      freq_of ` set (filter (eligible t) (hi_nodeStore t))"
    unfolding e set_map by auto
  then have "LowestTSCFrequencyOnCluster ?t = LowestTSCFrequencyOnCluster t"
    unfolding LowestTSCFrequencyOnCluster_eq Let_def e by (simp split: option.split)
  moreover have "TSCFrequenciesInUse ord ?t = TSCFrequenciesInUse ord t"
    by (simp add: TSCFrequenciesInUse_def)
  ultimately show ?thesis by (simp add: requiredFrequencies_def split: sum.split)
qed

section \<open>Properties\<close>

text \<open>
  C23: An update of a node with frequency \<open>n\<close> leaves, of the scheduling labels, exactly these: the
  label of \<open>n\<close> and of every required frequency that is within 250 parts per million of \<open>n\<close>, or, when
  the node can scale its clock, not above \<open>n\<close>; a scalable node also keeps, but is never given, the
  label of a required frequency it cannot serve. No other label changes. The tolerance the code
  computes in floating point is exact.
\<close>

theorem node_labels_after_update:
  assumes "TSCFrequencyFromNode node = Inr (n, sc)" "0 < n" "n < 2 ^ 49"
    "\<forall>f \<in> set req. 0 \<le> f \<and> f < 2 ^ 63" "\<And>xs. set (ord xs) = set xs"
    "calculateNodeLabelChanges ord node req = Inr node'"
  shows "(in_int64 f \<longrightarrow> map_of (kn_Labels node') (ToTSCSchedulableLabel f) =
       (if f = n \<or> f \<in> set req then
          (if 4000 * \<bar>f - n\<bar> \<le> n \<or> sc \<and> f \<le> n then Some ''true''
           else if sc then map_of (kn_Labels node) (ToTSCSchedulableLabel f) else None)
        else None)) \<and>
    ((\<forall>f. in_int64 f \<longrightarrow> key \<noteq> ToTSCSchedulableLabel f) \<longrightarrow>
       map_of (kn_Labels node') key = map_of (kn_Labels node) key)"
proof -
  have "usable n req" using assms by (simp add: usable_def)
  from label_changes(2,3) [OF assms(1) this assms(5,6)] show ?thesis
    unfolding near_def by blast
qed

definition amd_node :: k8s_node where
  "amd_node = \<lparr>kn_Name = ''n1'', kn_Labels = [(TSCFrequencyLabel, ''2000000000''), (TSCScalableLabel, ''true''),
     (NodeSchedulable, ''true''), (ToTSCSchedulableLabel 5, ''true'')]\<rparr>"

lemma parse_2000000000: "parse_int ''2000000000'' 64 = Inr 2000000000"
  by (simp add: parse_int_def dec_int_def dec_nat_def is_digit_def digit_val_def)

lemma amd_node_labels:
  "map_of (kn_Labels amd_node) TSCFrequencyLabel = Some ''2000000000''"
  "map_of (kn_Labels amd_node) TSCScalableLabel = Some ''true''"
  "map_of (kn_Labels amd_node) NodeSchedulable = Some ''true''"
  by (simp_all add: amd_node_def TSCFrequencyLabel_def TSCScalableLabel_def NodeSchedulable_def CPUTimerLabel_def)

lemma amd_node_frequency: "TSCFrequencyFromNode amd_node = Inr (2000000000, True)"
  by (simp add: TSCFrequencyFromNode_def amd_node_labels parse_2000000000)

theorem node_labels_after_update_witness:
  "map_option (\<lambda>node'. (map_of (kn_Labels node') (ToTSCSchedulableLabel 1500000000),
      map_of (kn_Labels node') (ToTSCSchedulableLabel 5)))
    (case calculateNodeLabelChanges id amd_node [1500000000] of Inl _ \<Rightarrow> None | Inr x \<Rightarrow> Some x) =
   Some (Some ''true'', None)"
proof -
  obtain node' where n: "calculateNodeLabelChanges id amd_node [1500000000] = Inr node'"
    by (rule label_changes_total [OF amd_node_frequency])
  from node_labels_after_update [OF amd_node_frequency _ _ _ _ n, of 1500000000]
    node_labels_after_update [OF amd_node_frequency _ _ _ _ n, of 5] n
  show ?thesis by (simp add: in_int64_def)
qed

text \<open>
  The frequency a virtual machine is hinted, when it comes from the nodes, finds its nodes: it is
  positive and not above that of any node that is schedulable or runs machines, and a round of label
  updates gives its label to each of them that can scale its clock, and to the others exactly when
  it is within their tolerance.
\<close>

theorem hinted_frequency_has_label:
  assumes "TopologyHintsForVMI t vmi = (r, Inr (Some h))" "hi_MinimumClusterTSCFrequency t = None"
    "hinter_ok t" "\<And>xs. set (ord xs) = set xs" "requiredFrequencies ord t = Inr req"
    "node \<in> set (hi_nodeStore t)" "TSCFrequencyFromNode node = Inr (n, sc)" "0 < n" "n < 2 ^ 49"
    "IsSchedulable (Some node) \<or> IsNodeRunningVmis (hi_vmiStore t) (Some node)"
    "calculateNodeLabelChanges ord node req = Inr node'"
  shows "\<exists>f. th_TSCFrequency h = Some f \<and> 0 < f \<and> f \<le> n \<and>
    map_of (kn_Labels node') (ToTSCSchedulableLabel f) =
      (if sc \<or> 4000 * (n - f) \<le> n then Some ''true'' else None)"
proof -
  obtain f where f: "LowestTSCFrequencyOnCluster t = Inr f" "h = \<lparr>th_TSCFrequency = Some f\<rparr>"
    using assms(1) by (auto simp: TopologyHintsForVMI_def Let_def split: if_splits sum.splits)
  have "eligible t node" "freq_of node = n" using assms(7,8,10) by (auto simp: eligible_def freq_of_def)
  with lowest_of_eligible [OF assms(2) f(1) assms(6)] have b: "0 < f" "f \<le> n" by auto
  have u: "usable n req"
    using assms(8,9) required_range [OF assms(5,3,4)] by (simp add: usable_def)
  have "f \<in> set req" using assms(5) f(1) by (auto simp: requiredFrequencies_def)
  moreover have "in_int64 f" using b assms(9) by (simp add: in_int64_def)
  ultimately have "map_of (kn_Labels node') (ToTSCSchedulableLabel f) =
      (if near f n \<or> sc \<and> f \<le> n then Some ''true''
       else if sc then map_of (kn_Labels node) (ToTSCSchedulableLabel f) else None)"
    using label_changes(2) [OF assms(7) u assms(4,11)] by simp
  then show ?thesis using b f(2) by (simp add: near_def)
qed

definition boot_vmi :: tsc_vmi where
  "boot_vmi = \<lparr>tv_Architecture = ''amd64'', tv_CPU = Some [\<lparr>cf_Name = ''invtsc'', cf_Policy = ''require''\<rparr>],
     tv_Features = None, tv_NodeName = [], tv_TopologyHints = None\<rparr>"

definition one_node :: hinter where
  "one_node = \<lparr>hi_MinimumClusterTSCFrequency = None, hi_nodeStore = [amd_node], hi_vmiStore = []\<rparr>"

lemma one_node_lowest: "LowestTSCFrequencyOnCluster one_node = Inr 2000000000"
proof -
  have "freq_of amd_node = 2000000000" by (simp add: freq_of_def amd_node_frequency)
  then show ?thesis
    by (simp add: LowestTSCFrequencyOnCluster_eq one_node_def eligible_def IsSchedulable_def amd_node_labels)
qed

lemma one_node_required: "requiredFrequencies id one_node = Inr [2000000000]"
  by (simp add: requiredFrequencies_def one_node_lowest) (simp add: TSCFrequenciesInUse_def one_node_def)

lemma one_node_hint:
  "TopologyHintsForVMI one_node boot_vmi = (RequiredForBoot, Inr (Some \<lparr>th_TSCFrequency = Some 2000000000\<rparr>))"
  by (simp add: TopologyHintsForVMI_def one_node_lowest boot_vmi_def GetTscFrequencyRequirement_def
      vmiHasInvTSCFeature_def)

theorem hinted_frequency_has_label_witness:
  "\<exists>node'. calculateNodeLabelChanges id amd_node [2000000000] = Inr node' \<and>
     map_of (kn_Labels node') (ToTSCSchedulableLabel 2000000000) = Some ''true''"
proof -
  obtain node' where n: "calculateNodeLabelChanges id amd_node [2000000000] = Inr node'"
    by (rule label_changes_total [OF amd_node_frequency])
  have "hinter_ok one_node" by (simp add: hinter_ok_def one_node_def)
  from hinted_frequency_has_label [OF one_node_hint _ this _ one_node_required _ amd_node_frequency _ _ _ n] n
  show ?thesis by (simp add: one_node_def IsSchedulable_def amd_node_labels)
qed

text \<open>
  Labelling settles: once the API server has taken the updates of a round, the next round, with
  the same machines and configuration, computes the same required frequencies and skips every
  node: nothing is patched, whatever order the maps are ranged over.
\<close>

theorem next_round_skips:
  assumes "hinter_ok t" "\<And>xs. set (ord xs) = set xs" "requiredFrequencies ord t = Inr req"
    "\<forall>node \<in> set (hi_nodeStore t). freq_of node < 2 ^ 49"
    "t' = t\<lparr>hi_nodeStore := map (updated ord req) (hi_nodeStore t)\<rparr>"
  shows "run_round ord patch t' (hi_nodeStore t') w =
    (no_updates\<lparr>us_skipped := length (FilterNodesFromCache (hi_nodeStore t) [HasInvTSCFrequency])\<rparr>, w)"
proof -
  note r = required_range [OF assms(3,1,2)]
  let ?ns = "filter (\<lambda>node. 0 < freq_of node) (hi_nodeStore t)"
  have "filter (\<lambda>node. 0 < freq_of node) (hi_nodeStore t') =
      map (updated ord req) (filter ((\<lambda>node. 0 < freq_of node) \<circ> updated ord req) (hi_nodeStore t))"
    by (simp add: assms(5) filter_map)
  also have "filter ((\<lambda>node. 0 < freq_of node) \<circ> updated ord req) (hi_nodeStore t) = ?ns"
    using updated_freq(1) [OF _ r assms(2)] assms(4) by (intro filter_cong) auto
  finally have f: "FilterNodesFromCache (hi_nodeStore t') [HasInvTSCFrequency] = map (updated ord req) ?ns"
    by (simp add: FilterNodesFromCache_def HasInvTSCFrequency_iff)
  have s: "\<And>node'. node' \<in> set (map (updated ord req) ?ns) \<Longrightarrow> settled ord req node'"
    using updated_node [OF _ r assms(2)] assms(4) by auto
  have "sync_loop ord patch req (map (updated ord req) ?ns) stats w =
      (stats\<lparr>us_skipped := us_skipped stats + length (map (updated ord req) ?ns)\<rparr>, w)" for stats
    by (rule sync_loop_settled) (rule s)
  then have "sync_loop ord patch req (map (updated ord req) ?ns) no_updates w =
      (no_updates\<lparr>us_skipped := length ?ns\<rparr>, w)"
    by (simp add: no_updates_def)
  moreover have "requiredFrequencies ord t' = Inr req"
    using required_updated [OF assms(4) r assms(2)] assms(3,5) by simp
  ultimately show ?thesis
    unfolding run_round_def f sync_def
    by (simp add: FilterNodesFromCache_def HasInvTSCFrequency_iff)
qed

theorem next_round_skips_witness:
  "fst (run_round id (\<lambda>w _ _. (True, w)) (one_node\<lparr>hi_nodeStore := [updated id [2000000000] amd_node]\<rparr>)
     [updated id [2000000000] amd_node] ()) = \<lparr>us_updated = 0, us_skipped = 1, us_error = 0\<rparr>"
proof -
  have "hinter_ok one_node" by (simp add: hinter_ok_def one_node_def)
  moreover have "freq_of amd_node = 2000000000" by (simp add: freq_of_def amd_node_frequency)
  ultimately show ?thesis
    using next_round_skips [of one_node id "[2000000000]" _ "\<lambda>w _ _. (True, w)" "()", OF _ _ one_node_required]
    by (simp add: one_node_def no_updates_def FilterNodesFromCache_def HasInvTSCFrequency_iff)
qed

text \<open>
  The loop alone is not a minimum: a first node without a frequency leaves \<open>lowest\<close> at 0, and no
  later frequency is below that. The callers filter such nodes out.
\<close>

lemma lowest_after_missing:
  "LowestTSCFrequency [\<lparr>kn_Name = ''n0'', kn_Labels = []\<rparr>, amd_node] = 0"
  by (simp add: LowestTSCFrequency_def amd_node_frequency) (simp add: TSCFrequencyFromNode_def)

end
