(* ===== verification/GoFloat32.thy ===== *)
theory GoFloat32
  imports GoFloat
begin

text \<open>
  Go's \<^verbatim>\<open>float32\<close> as the code here uses it: rounding to 24 bits, comparison with infinities and
  NaN, and \<^verbatim>\<open>strconv.ParseFloat(s, 32)\<close>. As in GoFloat exponents are not bounded below, so numbers
  below \<open>2^-126\<close> keep their precision.
\<close>

section \<open>Rounding\<close>

definition fl32 :: "real \<Rightarrow> real" where
  "fl32 x = (if x = 0 then 0
     else let u = 2 powr of_int (\<lfloor>log 2 \<bar>x\<bar>\<rfloor> - 23) in of_int (round_even (x / u)) * u)"

lemma floor_log2:
  assumes "2 powr of_int e \<le> x" "x < 2 powr of_int (e + 1)"
  shows "\<lfloor>log 2 x\<rfloor> = e"
proof (rule floor_unique)
  have x: "0 < x" using assms(1) powr_gt_zero [of 2 "of_int e"] by linarith
  show "of_int e \<le> log 2 x" using assms(1) x by (simp add: le_log_iff)
  show "log 2 x < of_int e + 1" using assms(2) x by (simp add: log_less_iff)
qed

text \<open>Numbers whose significand has 24 bits are unchanged.\<close>

lemma fl32_exact:
  assumes "x = of_int k * 2 powr of_int e" "2 ^ 23 \<le> k" "k < 2 ^ 24"
  shows "fl32 x = x"
proof -
  have k: "(2 ^ 23 :: real) \<le> of_int k" "of_int k < (2 ^ 24 :: real)"
    using assms(2,3) by (simp_all flip: of_int_power)
  have s: "2 powr of_int (e + 23) = 2 ^ 23 * (2 powr of_int e :: real)"
    "2 powr of_int (e + 23 + 1) = 2 ^ 24 * (2 powr of_int e :: real)"
    by (simp_all add: powr_add powr_realpow [symmetric])
  have x: "0 < x" using assms(1) k(1) by simp
  have "\<lfloor>log 2 x\<rfloor> = e + 23"
  proof (rule floor_log2)
    show "2 powr of_int (e + 23) \<le> x" "x < 2 powr of_int (e + 23 + 1)"
      unfolding assms(1) s using k by (intro mult_right_mono mult_strict_right_mono; simp)+
  qed
  moreover have "x / 2 powr of_int e = of_int k" using assms(1) by simp
  ultimately show ?thesis
    using x assms(1) by (simp add: fl32_def Let_def)
qed

section \<open>Values\<close>

datatype float32 = Fin real | Inf bool | NaN

text \<open>\<open>Inf True\<close> is minus infinity.\<close>

fun f32_less :: "float32 \<Rightarrow> float32 \<Rightarrow> bool" where
  "f32_less NaN _ = False"
| "f32_less _ NaN = False"
| "f32_less (Fin x) (Fin y) = (x < y)"
| "f32_less (Fin _) (Inf neg) = (\<not> neg)"
| "f32_less (Inf neg) (Fin _) = neg"
| "f32_less (Inf neg) (Inf neg') = (neg \<and> \<not> neg')"

section \<open>Parsing\<close>

definition lower_char :: "char \<Rightarrow> char" where
  "lower_char c =
     (if 65 \<le> (of_char c :: nat) \<and> (of_char c :: nat) \<le> 90 then char_of ((of_char c :: nat) + 32) else c)"

definition hex_val :: "char \<Rightarrow> nat option" where
  "hex_val c =
     (if is_digit c then Some (digit_val c)
      else if 97 \<le> (of_char (lower_char c) :: nat) \<and> (of_char (lower_char c) :: nat) \<le> 102
      then Some (of_char (lower_char c) - 87) else None)"

text \<open>Underscores must stand between digits; a base prefix counts as a digit.\<close>

fun underscores_ok :: "bool \<Rightarrow> bool \<Rightarrow> bool \<Rightarrow> string \<Rightarrow> bool" where
  "underscores_ok hex dig und [] = (\<not> und)"
| "underscores_ok hex dig und (c # cs) =
     (if is_digit c \<or> hex \<and> hex_val c \<noteq> None then underscores_ok hex True False cs
      else if c = CHR ''_'' then dig \<and> underscores_ok hex False True cs
      else \<not> und \<and> underscores_ok hex False False cs)"

text \<open>
  The digits of the significand with at most one point: whether there was a digit, the digits read
  as a number, the number of digits after the point, and the rest.
\<close>

fun scan_mantissa :: "bool \<Rightarrow> bool \<Rightarrow> bool \<Rightarrow> nat \<Rightarrow> nat \<Rightarrow> string \<Rightarrow> bool \<times> nat \<times> nat \<times> string" where
  "scan_mantissa hex dot dig mant fr [] = (dig, mant, fr, [])"
| "scan_mantissa hex dot dig mant fr (c # cs) =
     (if c = CHR ''_'' then scan_mantissa hex dot dig mant fr cs
      else if c = CHR ''.'' then
        (if dot then (dig, mant, fr, c # cs) else scan_mantissa hex True dig mant fr cs)
      else (case (if hex then hex_val c else if is_digit c then Some (digit_val c) else None) of
              None \<Rightarrow> (dig, mant, fr, c # cs)
            | Some d \<Rightarrow> scan_mantissa hex dot True ((if hex then 16 else 10) * mant + d)
                          (if dot then fr + 1 else fr) cs))"

text \<open>The exponent, to the end of the string: a digit first, then digits and underscores.\<close>

fun scan_exponent :: "nat \<Rightarrow> string \<Rightarrow> nat option" where
  "scan_exponent acc [] = Some acc"
| "scan_exponent acc (c # cs) =
     (if c = CHR ''_'' then scan_exponent acc cs
      else if is_digit c then scan_exponent (10 * acc + digit_val c) cs else None)"

definition exponent :: "string \<Rightarrow> int option" where
  "exponent s =
     (let (neg, ds) = (case s of [] \<Rightarrow> (False, []) | c # cs \<Rightarrow>
                         if c = CHR ''+'' then (False, cs) else if c = CHR ''-'' then (True, cs) else (False, s))
      in case ds of [] \<Rightarrow> None
         | c # _ \<Rightarrow> if is_digit c then map_option (\<lambda>n. if neg then - int n else int n) (scan_exponent 0 ds)
                   else None)"

definition strip_sign :: "string \<Rightarrow> bool \<times> string" where
  "strip_sign s =
     (case s of [] \<Rightarrow> (False, []) | c # cs \<Rightarrow>
        if c = CHR ''+'' then (False, cs) else if c = CHR ''-'' then (True, cs) else (False, s))"

definition strip_hex :: "string \<Rightarrow> bool \<times> string" where
  "strip_hex s =
     (case s of c0 # c1 # c2 # cs \<Rightarrow>
        if c0 = CHR ''0'' \<and> lower_char c1 = CHR ''x'' then (True, c2 # cs) else (False, s)
      | _ \<Rightarrow> (False, s))"

text \<open>The exact value of a well-formed number.\<close>

definition read_float :: "string \<Rightarrow> real option" where
  "read_float s =
     (let (neg, body) = strip_sign s;
          (hex, ds) = strip_hex body;
          (dig, mant, fr, rest) = scan_mantissa hex False False 0 0 ds;
          e = (case rest of
                 [] \<Rightarrow> if hex then None else Some 0
               | c # cs \<Rightarrow> if lower_char c = (if hex then CHR ''p'' else CHR ''e'') then exponent cs else None)
      in if \<not> dig \<or> \<not> underscores_ok hex hex False ds then None
         else map_option (\<lambda>e. (if neg then - 1 else 1) * of_nat mant *
                (if hex then power_int 2 (e - 4 * int fr) else power_int 10 (e - int fr))) e)"

definition parse_float32 :: "string \<Rightarrow> float32 res" where
  "parse_float32 s =
     (let l = map lower_char s; (neg, body) = strip_sign l in
      if l = ''nan'' then Inr NaN
      else if body = ''inf'' \<or> body = ''infinity'' then Inr (Inf neg)
      else (case read_float s of
              None \<Rightarrow> Inl (Errorf ''invalid syntax'' [s])
            | Some x \<Rightarrow> if \<bar>fl32 x\<bar> \<ge> 2 ^ 128 then Inl (Errorf ''value out of range'' [s])
                       else Inr (Fin (fl32 x))))"

lemma read_float_half: "read_float ''0.5'' = Some (1 / 2)"
  by (simp add: read_float_def strip_sign_def strip_hex_def lower_char_def is_digit_def digit_val_def
      power_int_def)

lemma parse_float32_half: "parse_float32 ''0.5'' = Inr (Fin (1 / 2))"
proof -
  have "fl32 (1 / 2) = 1 / 2"
    by (rule fl32_exact [of _ "2 ^ 23" "- 24"]) (simp_all add: powr_minus_divide)
  then show ?thesis
    by (simp add: parse_float32_def read_float_half strip_sign_def lower_char_def)
qed

end
