(* ===== verification/Ksm.thy ===== *)
theory Ksm
  imports GoFloat32
begin

text \<open>
  Kernel same-page merging on a node, \<^verbatim>\<open>pkg/virt-handler/ksm/ksm.go\<close> of KubeVirt. The state is the
  three files of the kernel module with the patches sent for the node; what a call reads from
  outside (the cluster configuration, the node in the informer, \<^verbatim>\<open>/proc/meminfo\<close>, which files can be
  written) is an environment, read once per \<^verbatim>\<open>spin\<close>. Memory sizes and the sleep are 64-bit words;
  \<^verbatim>\<open>int\<close> is an integer with the wrap-around written out. A Go panic is \<open>None\<close>.
\<close>

section \<open>State\<close>

datatype ksm_file = RunFile | SleepFile | PagesFile

text \<open>The content of a file, when it can be read, and the label and annotation of each patch.\<close>

record ksm_world =
  kw_run :: "string option"
  kw_sleep :: "string option"
  kw_pages :: "string option"
  kw_patches :: "(bool \<times> bool) list"

record ksm_node =
  kd_Labels :: "(string, string) gomap"
  kd_Annotations :: "(string, string) gomap"

text \<open>
  \<open>ke_selector\<close> is the KSM configuration, if there is one: the node label selector converted by
  \<^verbatim>\<open>LabelSelectorAsSelector\<close>. \<open>ke_node\<close> is the answer of \<^verbatim>\<open>getNode\<close>, \<open>ke_meminfo\<close> the lines of
  \<^verbatim>\<open>/proc/meminfo\<close>.
\<close>

record ksm_env =
  ke_selector :: "((string, string) gomap \<Rightarrow> bool) res option"
  ke_node :: "ksm_node res"
  ke_meminfo :: "string list option"
  ke_writable :: "ksm_file \<Rightarrow> bool"

record ksm_state =
  ks_running :: bool
  ks_sleep :: "64 word"
  ks_pages :: int

definition pagesBoostDefault :: int where "pagesBoostDefault = 300"
definition pagesDecayDefault :: int where "pagesDecayDefault = - 50"
definition nPagesMinDefault :: int where "nPagesMinDefault = 64"
definition nPagesMaxDefault :: int where "nPagesMaxDefault = 1250"
definition nPagesInitDefault :: int where "nPagesInitDefault = 100"
definition sleepMsBaselineDefault :: int where "sleepMsBaselineDefault = 100"
definition freePercentDefault :: float32 where "freePercentDefault = Fin (fl32 (1 / 5))"

definition MaxInt :: int where "MaxInt = 2 ^ 63 - 1"
definition MinInt :: int where "MinInt = - (2 ^ 63)"

definition KSMHandlerManagedAnnotation :: string where
  "KSMHandlerManagedAnnotation = ''kubevirt.io/ksm-handler-managed''"
definition KSMPagesBoostOverride :: string where
  "KSMPagesBoostOverride = ''kubevirt.io/ksm-pages-boost-override''"
definition KSMPagesDecayOverride :: string where
  "KSMPagesDecayOverride = ''kubevirt.io/ksm-pages-decay-override''"
definition KSMPagesMinOverride :: string where
  "KSMPagesMinOverride = ''kubevirt.io/ksm-pages-min-override''"
definition KSMPagesMaxOverride :: string where
  "KSMPagesMaxOverride = ''kubevirt.io/ksm-pages-max-override''"
definition KSMPagesInitOverride :: string where
  "KSMPagesInitOverride = ''kubevirt.io/ksm-pages-init-override''"
definition KSMSleepMsBaselineOverride :: string where
  "KSMSleepMsBaselineOverride = ''kubevirt.io/ksm-sleep-ms-baseline-override''"
definition KSMFreePercentOverride :: string where
  "KSMFreePercentOverride = ''kubevirt.io/ksm-free-percent-override''"

section \<open>Parameters\<close>

text \<open>\<open>lt\<close> is the order of the instance, integers or 32-bit floats.\<close>

definition boundCheck :: "('a \<Rightarrow> 'a \<Rightarrow> bool) \<Rightarrow> 'a \<Rightarrow> 'a \<Rightarrow> 'a \<Rightarrow> 'a \<Rightarrow> 'a" where
  "boundCheck lt val defaultValue lowerBound upperBound =
     (if lt val lowerBound \<or> lt upperBound val then
        (if lt lowerBound defaultValue \<and> lt defaultValue upperBound then defaultValue else lowerBound)
      else val)"

definition getFloatParam :: "ksm_node \<Rightarrow> string \<Rightarrow> float32 \<Rightarrow> float32 \<Rightarrow> float32 \<Rightarrow> float32" where
  "getFloatParam node param defaultValue lowerBound upperBound =
     (case map_of (kd_Annotations node) param of
        None \<Rightarrow> defaultValue
      | Some override \<Rightarrow>
          (case parse_float32 override of
             Inl _ \<Rightarrow> defaultValue
           | Inr val \<Rightarrow> boundCheck f32_less val defaultValue lowerBound upperBound))"

definition getIntParam :: "ksm_node \<Rightarrow> string \<Rightarrow> int \<Rightarrow> int \<Rightarrow> int \<Rightarrow> int" where
  "getIntParam node param defaultValue lowerBound upperBound =
     (case map_of (kd_Annotations node) param of
        None \<Rightarrow> defaultValue
      | Some override \<Rightarrow>
          (case atoi override of
             Inl _ \<Rightarrow> defaultValue
           | Inr val \<Rightarrow> boundCheck (<) val defaultValue lowerBound upperBound))"

section \<open>Reading the files\<close>

definition is_space :: "char \<Rightarrow> bool" where
  "is_space c \<longleftrightarrow> (of_char c :: nat) = 32 \<or> 9 \<le> (of_char c :: nat) \<and> (of_char c :: nat) \<le> 13"

definition trim_space :: "string \<Rightarrow> string" where
  "trim_space s = rev (dropWhile is_space (rev (dropWhile is_space s)))"

text \<open>The operand of \<^verbatim>\<open>Sscanf\<close> with \<^verbatim>\<open>%d\<close> into a \<^verbatim>\<open>uint64\<close>: spaces, then digits; the rest is ignored.\<close>

definition scan_uint64 :: "string \<Rightarrow> 64 word res" where
  "scan_uint64 s =
     (case dec_nat (takeWhile is_digit (dropWhile is_space s)) of
        None \<Rightarrow> Inl (Errorf ''expected integer'' [s])
      | Some n \<Rightarrow> if n < 2 ^ 64 then Inr (of_nat n) else Inl (Errorf ''integer overflow'' [s]))"

record mem_status =
  ms_total :: "64 word"
  ms_available :: "64 word"

fun mem_loop :: "nat \<Rightarrow> mem_status \<Rightarrow> string list \<Rightarrow> mem_status res" where
  "mem_loop found st [] =
     (if found \<noteq> 2 then Inl (Errorf ''failed to find total and available memory'' []) else Inr st)"
| "mem_loop found st (l # ls) =
     (if \<not> found < 2 then Inr st
      else if has_prefix l ''MemTotal:'' then
        (case scan_uint64 (trim_prefix l ''MemTotal:'') of
           Inl e \<Rightarrow> Inl e | Inr v \<Rightarrow> mem_loop (found + 1) (st\<lparr>ms_total := v\<rparr>) ls)
      else if has_prefix l ''MemAvailable:'' then
        (case scan_uint64 (trim_prefix l ''MemAvailable:'') of
           Inl e \<Rightarrow> Inl e | Inr v \<Rightarrow> mem_loop (found + 1) (st\<lparr>ms_available := v\<rparr>) ls)
      else mem_loop found st ls)"

definition getTotalAndAvailableMem :: "ksm_env \<Rightarrow> mem_status res" where
  "getTotalAndAvailableMem env =
     (case ke_meminfo env of
        None \<Rightarrow> Inl (Errorf ''open /proc/meminfo'' [])
      | Some ls \<Rightarrow> mem_loop 0 \<lparr>ms_total = 0, ms_available = 0\<rparr> ls)"

definition getKsmPages :: "ksm_world \<Rightarrow> int res" where
  "getKsmPages w =
     (case kw_pages w of
        None \<Rightarrow> Inl (Errorf ''open pages_to_scan'' [])
      | Some s \<Rightarrow> atoi (trim_space s))"

definition loadKSM :: "ksm_world \<Rightarrow> bool \<times> bool" where
  "loadKSM w = (case kw_run w of None \<Rightarrow> (False, False) | Some s \<Rightarrow> (True, trim_space s = ''1''))"

section \<open>The next state\<close>

definition f32_scale :: "real \<Rightarrow> float32 \<Rightarrow> float32" where
  "f32_scale x p =
     (case p of Fin r \<Rightarrow> Fin (fl32 (x * r)) | NaN \<Rightarrow> NaN | Inf neg \<Rightarrow> if x = 0 then NaN else Inf neg)"

definition freePercent :: "ksm_node \<Rightarrow> float32" where
  "freePercent node = getFloatParam node KSMFreePercentOverride freePercentDefault (Fin 0) (Fin 1)"

definition mem_free :: "mem_status \<Rightarrow> float32 \<Rightarrow> bool" where
  "mem_free m p =
     f32_less (f32_scale (fl32 (real (unat (ms_total m)))) p) (Fin (fl32 (real (unat (ms_available m)))))"

definition calculateNewRunSleepAndPages ::
  "ksm_env \<Rightarrow> ksm_world \<Rightarrow> ksm_node \<Rightarrow> bool \<Rightarrow> ksm_state res option" where
  "calculateNewRunSleepAndPages env w node running =
     (let pagesBoost = getIntParam node KSMPagesBoostOverride pagesBoostDefault 0 MaxInt;
          pagesDecay = getIntParam node KSMPagesDecayOverride pagesDecayDefault MinInt 0;
          nPagesMin = getIntParam node KSMPagesMinOverride nPagesMinDefault 0 MaxInt;
          nPagesMax = getIntParam node KSMPagesMaxOverride nPagesMaxDefault nPagesMin MaxInt;
          nPagesInit = getIntParam node KSMPagesInitOverride nPagesInitDefault nPagesMin nPagesMax;
          sleepMsBaseline = (word_of_int (getIntParam node KSMSleepMsBaselineOverride sleepMsBaselineDefault 1 MaxInt) :: 64 word)
      in case getTotalAndAvailableMem env of
           Inl e \<Rightarrow> Some (Inl e)
         | Inr memStat \<Rightarrow>
             (case getKsmPages w of
                Inl e \<Rightarrow> Some (Inl e)
              | Inr pages \<Rightarrow>
                  if ms_total memStat - ms_available memStat = 0 then None
                  else
                    (let sleep = max (sleepMsBaseline * (16 * 1024 * 1024) div (ms_total memStat - ms_available memStat))
                                   (sleepMsBaseline div 10)
                     in if mem_free memStat (freePercent node) then
                          (if running then
                             (let p = wrap64 (pages + pagesDecay) in
                              if p < nPagesMin
                              then Some (Inr \<lparr>ks_running = False, ks_sleep = sleep, ks_pages = nPagesMin\<rparr>)
                              else Some (Inr \<lparr>ks_running = running, ks_sleep = sleep, ks_pages = p\<rparr>))
                           else Some (Inr \<lparr>ks_running = False, ks_sleep = 0, ks_pages = 0\<rparr>))
                        else
                          (if running then
                             (let p = wrap64 (pages + pagesBoost) in
                              Some (Inr \<lparr>ks_running = running, ks_sleep = sleep,
                                         ks_pages = (if p > nPagesMax then nPagesMax else p)\<rparr>))
                           else Some (Inr \<lparr>ks_running = True, ks_sleep = sleep, ks_pages = nPagesInit\<rparr>)))))"

section \<open>Writing the files\<close>

definition write_file :: "ksm_env \<Rightarrow> ksm_file \<Rightarrow> string \<Rightarrow> ksm_world \<Rightarrow> bool \<times> ksm_world" where
  "write_file env f s w =
     (if \<not> ke_writable env f then (False, w)
      else (True, case f of RunFile \<Rightarrow> w\<lparr>kw_run := Some s\<rparr> | SleepFile \<Rightarrow> w\<lparr>kw_sleep := Some s\<rparr>
                           | PagesFile \<Rightarrow> w\<lparr>kw_pages := Some s\<rparr>))"

definition writeKsmValuesToFiles :: "ksm_env \<Rightarrow> ksm_state \<Rightarrow> ksm_world \<Rightarrow> bool \<times> ksm_world" where
  "writeKsmValuesToFiles env ksm w =
     (if ks_running ksm then
        (case write_file env SleepFile (nat_to_dec (unat (ks_sleep ksm))) w of
           (ok, w) \<Rightarrow> if \<not> ok then (False, w)
             else (case write_file env PagesFile (itoa (ks_pages ksm)) w of
                     (ok, w) \<Rightarrow> if \<not> ok then (False, w) else write_file env RunFile ''1'' w))
      else write_file env RunFile ''0'' w)"

section \<open>The handler\<close>

text \<open>Whether the node should be handled and whether KSM runs; an error is logged and counts as no.\<close>

definition shouldNodeHandleKSM :: "ksm_env \<Rightarrow> ksm_world \<Rightarrow> bool \<times> bool" where
  "shouldNodeHandleKSM env w =
     (let (available, enabled) = loadKSM w in
      if \<not> available then (False, False)
      else (case ke_selector env of
              None \<Rightarrow> (False, enabled)
            | Some (Inl _) \<Rightarrow> (False, enabled)
            | Some (Inr matches) \<Rightarrow>
                (case ke_node env of
                   Inl _ \<Rightarrow> (False, enabled)
                 | Inr node \<Rightarrow> if \<not> matches (kd_Labels node) then (False, enabled) else (True, enabled))))"

definition handleNodePressure :: "ksm_env \<Rightarrow> bool \<Rightarrow> ksm_world \<Rightarrow> (bool \<times> ksm_world) option" where
  "handleNodePressure env currentState w =
     (case ke_node env of
        Inl _ \<Rightarrow> Some (False, w)
      | Inr node \<Rightarrow>
          (case calculateNewRunSleepAndPages env w node currentState of
             None \<Rightarrow> None
           | Some (Inl _) \<Rightarrow> Some (False, w)
           | Some (Inr ksm) \<Rightarrow>
               (case writeKsmValuesToFiles env ksm w of
                  (ok, w) \<Rightarrow> if \<not> ok then Some (False, w) else Some (ks_running ksm, w))))"

definition disableKSM :: "ksm_env \<Rightarrow> ksm_world \<Rightarrow> ksm_world" where
  "disableKSM env w =
     (case ke_node env of
        Inl _ \<Rightarrow> w
      | Inr node \<Rightarrow>
          if map_of (kd_Annotations node) KSMHandlerManagedAnnotation = Some ''true''
          then snd (write_file env RunFile (''0'' @ [CHR 0x0A]) w) else w)"

definition patchKSM :: "bool \<Rightarrow> bool \<Rightarrow> ksm_world \<Rightarrow> ksm_world" where
  "patchKSM ksmEligible ksmEnabledByUs w = w\<lparr>kw_patches := kw_patches w @ [(ksmEligible, ksmEnabledByUs)]\<rparr>"

definition spin :: "ksm_env \<Rightarrow> ksm_world \<Rightarrow> (bool \<times> ksm_world) option" where
  "spin env w =
     (let (ksmEligible, curState) = shouldNodeHandleKSM env w;
          w = (if \<not> ksmEligible \<and> curState then disableKSM env w else w)
      in case (if ksmEligible then handleNodePressure env curState w else Some (False, w)) of
           None \<Rightarrow> None
         | Some (ksmEnabledByUs, w) \<Rightarrow> Some (ksmEligible, patchKSM ksmEligible ksmEnabledByUs w))"

text \<open>The rounds of \<^verbatim>\<open>loop\<close>, on a configuration change or a tick, each in its own environment.\<close>

fun spins :: "ksm_env list \<Rightarrow> ksm_world \<Rightarrow> ksm_world option" where
  "spins [] w = Some w"
| "spins (env # envs) w = (case spin env w of None \<Rightarrow> None | Some (_, w') \<Rightarrow> spins envs w')"

end
