(* ===== verification/KsmCorrect.thy ===== *)
theory KsmCorrect
  imports Ksm
begin

text \<open>
  Correctness of the KSM handler: the parameters stay in their bounds when the defaults do, the
  pages to scan stay in bounds that hold for the parameters and for what is read first, over every
  history, and merging stops once memory stays free and the decay makes progress.
\<close>

section \<open>Parameters and files\<close>

lemma getIntParam_bounds:
  assumes "lo \<le> dflt" "dflt \<le> hi"
  shows "lo \<le> getIntParam node param dflt lo hi \<and> getIntParam node param dflt lo hi \<le> hi"
  using assms by (auto simp: getIntParam_def boundCheck_def split: option.split sum.split)

lemma getIntParam_default:
  "map_of (kd_Annotations node) param = None \<Longrightarrow> getIntParam node param dflt lo hi = dflt"
  by (simp add: getIntParam_def)

lemma drop_spaces_id: "\<forall>c \<in> set s. \<not> is_space c \<Longrightarrow> dropWhile is_space s = s"
  by (cases s) simp_all

lemma trim_space_id: "\<forall>c \<in> set s. \<not> is_space c \<Longrightarrow> trim_space s = s"
  by (simp add: trim_space_def drop_spaces_id)

lemma itoa_no_space: "c \<in> set (itoa i) \<Longrightarrow> \<not> is_space c"
  using nat_to_dec_digits by (fastforce simp: itoa_def is_space_def is_digit_def split: if_splits)

lemma atoi_trim_itoa: "- (2 ^ 63) \<le> i \<Longrightarrow> i < 2 ^ 63 \<Longrightarrow> atoi (trim_space (itoa i)) = Inr i"
  using itoa_no_space [of _ i] by (simp add: trim_space_id atoi_itoa)

lemma trim_run: "trim_space ''1'' = ''1''" "trim_space ''0'' = ''0''" "trim_space (''0'' @ [CHR 0x0A]) = ''0''"
  by (simp_all add: trim_space_def is_space_def)

lemma fields_write_file [simp]:
  "kw_patches (snd (write_file env f s w)) = kw_patches w"
  by (cases f) (simp_all add: write_file_def)

lemma patchKSM_reads [simp]:
  "getKsmPages (patchKSM a b w) = getKsmPages w" "loadKSM (patchKSM a b w) = loadKSM w"
  by (simp_all add: patchKSM_def getKsmPages_def loadKSM_def)

section \<open>The next state\<close>

text \<open>
  The parameters a node gives, and that the minimum, the start and the maximum are between \<open>lo\<close> and
  \<open>hi\<close> and the boost is too small to overflow. Without overrides of the four, \<open>lo\<close> is 64 and \<open>hi\<close> 1250.
\<close>

definition node_boost :: "ksm_node \<Rightarrow> int" where
  "node_boost node = getIntParam node KSMPagesBoostOverride pagesBoostDefault 0 MaxInt"

definition node_decay :: "ksm_node \<Rightarrow> int" where
  "node_decay node = getIntParam node KSMPagesDecayOverride pagesDecayDefault MinInt 0"

definition node_min :: "ksm_node \<Rightarrow> int" where
  "node_min node = getIntParam node KSMPagesMinOverride nPagesMinDefault 0 MaxInt"

definition node_max :: "ksm_node \<Rightarrow> int" where
  "node_max node = getIntParam node KSMPagesMaxOverride nPagesMaxDefault (node_min node) MaxInt"

definition node_init :: "ksm_node \<Rightarrow> int" where
  "node_init node = getIntParam node KSMPagesInitOverride nPagesInitDefault (node_min node) (node_max node)"

lemmas node_params = node_boost_def node_decay_def node_min_def node_max_def node_init_def

definition pages_within :: "int \<Rightarrow> int \<Rightarrow> ksm_node \<Rightarrow> bool" where
  "pages_within lo hi node \<longleftrightarrow>
     lo \<le> node_min node \<and> lo \<le> node_init node \<and> node_init node \<le> hi \<and>
     lo \<le> node_max node \<and> node_max node \<le> hi \<and> hi + node_boost node < 2 ^ 63"

definition default_pages :: "ksm_node \<Rightarrow> bool" where
  "default_pages node \<longleftrightarrow>
     (\<forall>a \<in> {KSMPagesBoostOverride, KSMPagesMinOverride, KSMPagesMaxOverride, KSMPagesInitOverride}.
        map_of (kd_Annotations node) a = None)"

lemma default_pages_within: "default_pages node \<Longrightarrow> pages_within 64 1250 node"
  by (simp add: default_pages_def pages_within_def node_params getIntParam_default pagesBoostDefault_def
      nPagesMinDefault_def nPagesMaxDefault_def nPagesInitDefault_def)

definition not_all_free :: "ksm_env \<Rightarrow> bool" where
  "not_all_free env \<longleftrightarrow>
     (case getTotalAndAvailableMem env of Inl _ \<Rightarrow> True | Inr m \<Rightarrow> ms_total m \<noteq> ms_available m)"

lemma next_pages:
  assumes "pages_within lo hi node" "not_all_free env" "getKsmPages w = Inr p" "0 \<le> p" "p \<le> hi"
    "running \<Longrightarrow> lo \<le> p"
  shows "\<exists>r. calculateNewRunSleepAndPages env w node running = Some r \<and>
    (\<forall>s. r = Inr s \<longrightarrow> ks_running s \<longrightarrow> lo \<le> ks_pages s \<and> ks_pages s \<le> hi)"
proof (cases "getTotalAndAvailableMem env")
  case (Inl e)
  then show ?thesis by (simp add: calculateNewRunSleepAndPages_def Let_def)
next
  case (Inr m)
  have d: "- (2 ^ 63) \<le> node_decay node" "node_decay node \<le> 0"
    using getIntParam_bounds [of MinInt pagesDecayDefault 0 node KSMPagesDecayOverride]
    by (simp_all add: node_decay_def MinInt_def pagesDecayDefault_def)
  have b: "0 \<le> node_boost node"
    using getIntParam_bounds [of 0 pagesBoostDefault MaxInt node KSMPagesBoostOverride]
    by (simp add: node_boost_def MaxInt_def pagesBoostDefault_def)
  have hi: "hi + node_boost node < 2 ^ 63" using assms(1) by (simp add: pages_within_def)
  have w: "wrap64 (p + node_decay node) = p + node_decay node" "wrap64 (p + node_boost node) = p + node_boost node"
    using d b hi assms(4,5) by (auto intro!: wrap64_id)
  have up: "running \<Longrightarrow> lo \<le> p + node_boost node" using assms(6) b by simp
  have "ms_total m - ms_available m \<noteq> 0" using assms(2) Inr by (simp add: not_all_free_def)
  then show ?thesis
    using assms(3-5) d up assms(1) [unfolded pages_within_def]
    by (simp add: calculateNewRunSleepAndPages_def Inr Let_def w node_params [symmetric])
qed

section \<open>Histories\<close>

definition ksm_inv :: "int \<Rightarrow> int \<Rightarrow> ksm_world \<Rightarrow> bool" where
  "ksm_inv lo hi w \<longleftrightarrow>
     (\<exists>p. getKsmPages w = Inr p \<and> (if snd (loadKSM w) then lo else 0) \<le> p \<and> p \<le> hi)"

lemma ksm_inv_stop:
  assumes "ksm_inv lo hi w" "0 \<le> lo" "trim_space s = ''0''"
  shows "ksm_inv lo hi (snd (write_file env RunFile s w))"
proof -
  obtain p where "getKsmPages w = Inr p" "0 \<le> p" "p \<le> hi"
    using assms(1,2) by (auto simp: ksm_inv_def split: if_splits)
  then show ?thesis
    using assms by (auto simp: ksm_inv_def write_file_def getKsmPages_def loadKSM_def)
qed

lemma ksm_inv_write:
  assumes "ksm_inv lo hi w" "0 \<le> lo" "hi < 2 ^ 63" "ks_running s \<Longrightarrow> lo \<le> ks_pages s \<and> ks_pages s \<le> hi"
  shows "ksm_inv lo hi (snd (writeKsmValuesToFiles env s w))"
proof (cases "ks_running s")
  case True
  with assms(4) have p: "lo \<le> ks_pages s" "ks_pages s \<le> hi" by simp_all
  then have "atoi (trim_space (itoa (ks_pages s))) = Inr (ks_pages s)"
    using assms(2,3) by (intro atoi_trim_itoa) simp_all
  then show ?thesis
    using assms(1,2) True p
    by (auto simp: writeKsmValuesToFiles_def write_file_def ksm_inv_def getKsmPages_def loadKSM_def
        split: if_splits)
next
  case False
  then show ?thesis using ksm_inv_stop [OF assms(1,2) trim_run(2)] by (simp add: writeKsmValuesToFiles_def)
qed

lemma ksm_inv_spin:
  assumes "ksm_inv lo hi w" "0 \<le> lo" "hi < 2 ^ 63" "\<And>node. ke_node env = Inr node \<Longrightarrow> pages_within lo hi node"
    "not_all_free env"
  shows "\<exists>b w'. spin env w = Some (b, w') \<and> ksm_inv lo hi w'"
proof -
  have patch: "ksm_inv lo hi (patchKSM a b w) = ksm_inv lo hi w" for a b w by (simp add: ksm_inv_def)
  obtain p where p: "getKsmPages w = Inr p" "0 \<le> p" "p \<le> hi" "snd (loadKSM w) \<Longrightarrow> lo \<le> p"
    using assms(1,2) by (auto simp: ksm_inv_def split: if_splits)
  have dis: "ksm_inv lo hi (disableKSM env w)"
    using assms(1) ksm_inv_stop [OF assms(1,2) trim_run(3)]
    by (simp add: disableKSM_def split: sum.split)
  have pressure: "\<exists>b w'. handleNodePressure env (snd (loadKSM w)) w = Some (b, w') \<and> ksm_inv lo hi w'"
  proof (cases "ke_node env")
    case (Inr node)
    from next_pages [OF assms(4) [OF Inr] assms(5) p(1-3), of "snd (loadKSM w)"] p(4) obtain r where
      r: "calculateNewRunSleepAndPages env w node (snd (loadKSM w)) = Some r"
      "\<And>s. r = Inr s \<Longrightarrow> ks_running s \<Longrightarrow> lo \<le> ks_pages s \<and> ks_pages s \<le> hi" by blast
    show ?thesis
    proof (cases r)
      case (Inr s)
      with r(2) have "ksm_inv lo hi (snd (writeKsmValuesToFiles env s w))"
        by (intro ksm_inv_write [OF assms(1-3)]) simp
      then show ?thesis
        using r(1) \<open>ke_node env = Inr node\<close> Inr
        by (cases "writeKsmValuesToFiles env s w") (auto simp: handleNodePressure_def)
    qed (use assms(1) r(1) Inr in \<open>auto simp: handleNodePressure_def\<close>)
  qed (use assms(1) in \<open>auto simp: handleNodePressure_def\<close>)
  obtain el cur where s: "shouldNodeHandleKSM env w = (el, cur)" by fastforce
  show ?thesis
  proof (cases el)
    case True
    with s have "cur = snd (loadKSM w)"
      by (auto simp: shouldNodeHandleKSM_def split: prod.splits if_splits option.splits sum.splits)
    with pressure s True show ?thesis by (auto simp: spin_def patch)
  next
    case False
    with s assms(1) dis show ?thesis by (auto simp: spin_def patch)
  qed
qed

text \<open>
  C22: Whatever the rounds of a handler meet (configuration, memory, unwritable files, overrides of
  the decay, the sleep or the free percentage), when in every round the node's minimum, start and
  maximum are between \<open>lo\<close> and \<open>hi\<close> and its boost cannot overflow from there (64 and 1250 without
  overrides of these four), and nothing else writes the files: a file of 0 to \<open>hi\<close> pages to scan, at
  least \<open>lo\<close> if merging runs, stays so, and no round panics, as long as not all memory is free.
\<close>

theorem ksm_pages_bounded:
  assumes "ksm_inv lo hi w" "0 \<le> lo" "hi < 2 ^ 63"
    "\<forall>env \<in> set envs. not_all_free env \<and> (\<forall>node. ke_node env = Inr node \<longrightarrow> pages_within lo hi node)"
  shows "\<exists>w' p. spins envs w = Some w' \<and> getKsmPages w' = Inr p \<and>
    (if snd (loadKSM w') then lo else 0) \<le> p \<and> p \<le> hi"
proof -
  have "\<exists>w'. spins envs w = Some w' \<and> ksm_inv lo hi w'"
    using assms
  proof (induction envs arbitrary: w)
    case (Cons env envs)
    then obtain b w' where "spin env w = Some (b, w')" "ksm_inv lo hi w'"
      using ksm_inv_spin [of lo hi w env] by auto
    with Cons show ?case by simp
  qed simp
  then show ?thesis by (simp add: ksm_inv_def)
qed

text \<open>A machine with 12 of 16 kB available, and the free percentage set to one half.\<close>

definition free_machine :: ksm_env where
  "free_machine = \<lparr>ke_selector = Some (Inr (\<lambda>_. True)),
     ke_node = Inr \<lparr>kd_Labels = [], kd_Annotations = [(KSMFreePercentOverride, ''0.5'')]\<rparr>,
     ke_meminfo = Some [''MemTotal: 16 kB'', ''MemAvailable: 12 kB''], ke_writable = (\<lambda>_. True)\<rparr>"

lemmas annotation_names =
  KSMFreePercentOverride_def KSMPagesBoostOverride_def KSMPagesDecayOverride_def KSMPagesMinOverride_def
  KSMPagesMaxOverride_def KSMPagesInitOverride_def KSMHandlerManagedAnnotation_def
  KSMSleepMsBaselineOverride_def

lemma free_machine_memory:
  "getTotalAndAvailableMem free_machine = Inr \<lparr>ms_total = 16, ms_available = 12\<rparr>"
  by (simp add: getTotalAndAvailableMem_def free_machine_def has_prefix_def trim_prefix_def scan_uint64_def
      is_space_def is_digit_def dec_nat_def digit_val_def)

definition pages_100 :: ksm_world where
  "pages_100 = \<lparr>kw_run = Some ''1'', kw_sleep = Some ''20'', kw_pages = Some ''100'', kw_patches = []\<rparr>"

lemma pages_100_reads: "getKsmPages pages_100 = Inr 100" "loadKSM pages_100 = (True, True)"
  by (simp_all add: pages_100_def getKsmPages_def loadKSM_def trim_space_def is_space_def atoi_def
      parse_int_def dec_int_def dec_nat_def is_digit_def digit_val_def)

theorem ksm_pages_bounded_witness:
  "\<exists>w' p. spins [free_machine, free_machine] pages_100 = Some w' \<and> getKsmPages w' = Inr p \<and>
    (if snd (loadKSM w') then 64 else 0) \<le> p \<and> p \<le> 1250"
proof (rule ksm_pages_bounded)
  show "ksm_inv 64 1250 pages_100" by (simp add: ksm_inv_def pages_100_reads)
  have "not_all_free free_machine" by (simp add: not_all_free_def free_machine_memory)
  then show "\<forall>env \<in> set [free_machine, free_machine]. not_all_free env \<and>
     (\<forall>node. ke_node env = Inr node \<longrightarrow> pages_within 64 1250 node)"
    by (simp add: default_pages_within default_pages_def free_machine_def annotation_names)
qed simp_all

section \<open>Stopping\<close>

text \<open>
  A round at which the node is handled, memory is free, but not all of it, every file can be written,
  the decay is \<open>- k\<close> and the minimum \<open>n\<close>.
\<close>

definition free_round :: "int \<Rightarrow> int \<Rightarrow> ksm_env \<Rightarrow> bool" where
  "free_round k n env \<longleftrightarrow> (\<forall>f. ke_writable env f) \<and>
     (case (ke_selector env, ke_node env, getTotalAndAvailableMem env) of
        (Some (Inr matches), Inr node, Inr m) \<Rightarrow>
          matches (kd_Labels node) \<and> mem_free m (freePercent node) \<and> ms_total m \<noteq> ms_available m \<and>
          node_decay node = - k \<and> node_min node = n
      | _ \<Rightarrow> False)"

lemma free_roundE:
  assumes "free_round k n env"
  obtains matches node m where "ke_selector env = Some (Inr matches)" "ke_node env = Inr node"
    "getTotalAndAvailableMem env = Inr m" "matches (kd_Labels node)" "mem_free m (freePercent node)"
    "ms_total m - ms_available m \<noteq> 0" "node_decay node = - k" "node_min node = n" "\<And>f. ke_writable env f"
  using assms by (auto simp: free_round_def split: option.splits sum.splits)

lemma free_spin:
  assumes "free_round k n env" "loadKSM w = (True, True)" "getKsmPages w = Inr p" "0 \<le> p" "p < 2 ^ 63" "0 < k"
  shows "\<exists>w'. spin env w = Some (True, w') \<and> loadKSM w' = (True, n + k \<le> p) \<and>
    (n + k \<le> p \<longrightarrow> getKsmPages w' = Inr (p - k)) \<and> kw_patches w' = kw_patches w @ [(True, n + k \<le> p)]"
proof -
  from assms(1) obtain matches node m where e: "ke_selector env = Some (Inr matches)" "ke_node env = Inr node"
    "getTotalAndAvailableMem env = Inr m" "matches (kd_Labels node)" "mem_free m (freePercent node)"
    "ms_total m - ms_available m \<noteq> 0" "node_decay node = - k" "node_min node = n" "\<And>f. ke_writable env f"
    by (rule free_roundE) blast
  have sel: "shouldNodeHandleKSM env w = (True, True)"
    using e(1,2,4) assms(2) by (simp add: shouldNodeHandleKSM_def)
  have "- (2 ^ 63) \<le> - k"
    using getIntParam_bounds [of MinInt pagesDecayDefault 0 node KSMPagesDecayOverride] e(7)
    by (simp add: node_decay_def MinInt_def pagesDecayDefault_def)
  then have wr: "wrap64 (p - k) = p - k" using assms(4-6) by (intro wrap64_id) simp_all
  obtain s where s: "calculateNewRunSleepAndPages env w node True = Some (Inr s)"
    "ks_running s = (n + k \<le> p)" "n + k \<le> p \<longrightarrow> ks_pages s = p - k"
    using e(3,5,6) assms(3)
    by (cases "n + k \<le> p")
      (auto simp: calculateNewRunSleepAndPages_def node_params [symmetric] e(7,8) wr Let_def)
  have "0 \<le> n"
    using getIntParam_bounds [of 0 nPagesMinDefault MaxInt node KSMPagesMinOverride] e(8)
    by (simp add: node_min_def MaxInt_def nPagesMinDefault_def)
  then have at: "n + k \<le> p \<longrightarrow> atoi (trim_space (itoa (p - k))) = Inr (p - k)"
    using assms(5,6) by (auto intro: atoi_trim_itoa)
  have "handleNodePressure env True w = Some (n + k \<le> p, snd (writeKsmValuesToFiles env s w))"
    using e(2,9) s by (simp add: handleNodePressure_def writeKsmValuesToFiles_def write_file_def)
  moreover have "loadKSM (snd (writeKsmValuesToFiles env s w)) = (True, n + k \<le> p) \<and>
      (n + k \<le> p \<longrightarrow> getKsmPages (snd (writeKsmValuesToFiles env s w)) = Inr (p - k)) \<and>
      kw_patches (snd (writeKsmValuesToFiles env s w)) = kw_patches w"
    using e(9) s(2,3) at
    by (simp add: writeKsmValuesToFiles_def write_file_def loadKSM_def getKsmPages_def trim_run)
  ultimately show ?thesis
    by (simp add: spin_def sel) (simp add: patchKSM_def loadKSM_def getKsmPages_def)
qed

text \<open>
  C36: Merging ends. Suppose that in every round the node is handled, memory is free, but not all of
  it, the files can be written, and the node's decay is \<open>- k\<close> with \<open>k > 0\<close> and its minimum \<open>n\<close> (50 and 64
  without overrides). Then a handler that runs with \<open>p\<close> pages to scan switches merging off in exactly
  \<open>(p - n) div k + 1\<close> rounds (one round below the minimum), reports it as enabled until then, and as
  disabled in the last round.
\<close>

theorem ksm_stops:
  assumes "loadKSM w = (True, True)" "getKsmPages w = Inr p" "0 \<le> p" "p < 2 ^ 63" "0 < k"
    "\<forall>env \<in> set envs. free_round k n env" "length envs = nat ((max p n - n) div k) + 1"
  shows "\<exists>w'. spins envs w = Some w' \<and> loadKSM w' = (True, False) \<and>
    kw_patches w' = kw_patches w @ replicate (length envs - 1) (True, True) @ [(True, False)]"
  using assms
proof (induction envs arbitrary: w p)
  case (Cons env envs)
  from free_spin [of k n env w p] Cons.prems obtain w' where w': "spin env w = Some (True, w')"
    "loadKSM w' = (True, n + k \<le> p)" "n + k \<le> p \<longrightarrow> getKsmPages w' = Inr (p - k)"
    "kw_patches w' = kw_patches w @ [(True, n + k \<le> p)]" by auto
  have "0 \<le> n"
    using Cons.prems(6) getIntParam_bounds [of 0 nPagesMinDefault MaxInt _ KSMPagesMinOverride]
    by (auto simp: free_round_def node_min_def MaxInt_def nPagesMinDefault_def split: option.splits sum.splits)
  show ?case
  proof (cases "n + k \<le> p")
    case True
    have "(p - n) div k = (p - k - n) div k + 1"
      using div_add_self2 [of k "p - k - n"] Cons.prems(5) by (simp add: algebra_simps)
    moreover have "0 \<le> (p - k - n) div k" using True Cons.prems(5) by (simp add: pos_imp_zdiv_nonneg_iff)
    ultimately have l: "length envs = nat ((max (p - k) n - n) div k) + 1"
      using Cons.prems(5,7) True by (simp add: max_def nat_add_distrib)
    from Cons.IH [of w' "p - k"] True w' Cons.prems \<open>0 \<le> n\<close> l obtain w'' where
      "spins envs w' = Some w''" "loadKSM w'' = (True, False)"
      "kw_patches w'' = kw_patches w' @ replicate (length envs - 1) (True, True) @ [(True, False)]" by auto
    then show ?thesis
      using w'(1,4) True l by simp
  next
    case False
    then have "(max p n - n) div k = 0" by (simp add: div_pos_pos_trivial max_def)
    then have "envs = []" using Cons.prems(7) by simp
    then show ?thesis using w' False by simp
  qed
qed simp

lemma fl32_small: "fl32 8 = 8" "fl32 12 = 12" "fl32 16 = 16"
proof -
  show "fl32 8 = 8" by (rule fl32_exact [of _ "2 ^ 23" "- 20"]) (simp_all add: powr_minus_divide)
  show "fl32 12 = 12" by (rule fl32_exact [of _ "12 * 2 ^ 20" "- 20"]) (simp_all add: powr_minus_divide)
  show "fl32 16 = 16" by (rule fl32_exact [of _ "2 ^ 23" "- 19"]) (simp_all add: powr_minus_divide)
qed

lemma free_machine_round: "free_round 50 64 free_machine"
proof -
  have "freePercent \<lparr>kd_Labels = [], kd_Annotations = [(KSMFreePercentOverride, ''0.5'')]\<rparr> = Fin (1 / 2)"
    by (simp add: freePercent_def getFloatParam_def parse_float32_half boundCheck_def)
  then show ?thesis
    by (simp add: free_round_def free_machine_memory)
      (simp add: free_machine_def mem_free_def f32_scale_def fl32_small annotation_names node_decay_def
        node_min_def getIntParam_def pagesDecayDefault_def nPagesMinDefault_def)
qed

theorem ksm_stops_witness:
  "\<exists>w'. spins [free_machine] pages_100 = Some w' \<and> loadKSM w' = (True, False)"
  using ksm_stops [of pages_100 100 50 "[free_machine]" 64] pages_100_reads free_machine_round by auto

section \<open>Outside the bounds\<close>

text \<open>
  The defaults are not checked: with the minimum overridden to 500 merging starts below it, and with
  a large boost the sum wraps around and a negative number of pages is computed.
\<close>

definition high_minimum :: ksm_node where
  "high_minimum = \<lparr>kd_Labels = [], kd_Annotations =
     [(KSMPagesMinOverride, ''500''), (KSMPagesBoostOverride, ''9223372036854775807'')]\<rparr>"

lemma high_minimum_init:
  "getIntParam high_minimum KSMPagesMinOverride nPagesMinDefault 0 MaxInt = 500"
  "getIntParam high_minimum KSMPagesInitOverride nPagesInitDefault 500 1250 = 100"
  "wrap64 (100 + getIntParam high_minimum KSMPagesBoostOverride pagesBoostDefault 0 MaxInt) < 0"
  by (simp_all add: getIntParam_def high_minimum_def annotation_names atoi_def parse_int_def dec_int_def
      dec_nat_def is_digit_def digit_val_def boundCheck_def MaxInt_def nPagesInitDefault_def wrap64_def)

text \<open>With all memory reported free the division panics.\<close>

lemma all_free_panics:
  "getTotalAndAvailableMem env = Inr m \<Longrightarrow> ms_total m = ms_available m \<Longrightarrow> getKsmPages w = Inr p \<Longrightarrow>
   calculateNewRunSleepAndPages env w node running = None"
  by (simp add: calculateNewRunSleepAndPages_def Let_def)

end
