(* ===== verification/Vsock.thy ===== *)
theory Vsock
  imports GoPrelude
begin

text \<open>
  The allocation of VSOCK context ids, \<^verbatim>\<open>pkg/virt-controller/watch/vsock/vsock.go\<close> of KubeVirt. Ids are
  32-bit words. The lock makes every operation one step. The search for a free id need not end for
  an arbitrary first id, so it is a partial function: \<open>None\<close> is a search that never returns.
\<close>

section \<open>The map\<close>

record vsock_vmi =
  sv_Namespace :: string
  sv_Name :: string
  sv_VSOCKCID :: "32 word option"

record cids_map =
  cm_cids :: "(string, 32 word) gomap"
  cm_reverse :: "(32 word, string) gomap"

definition VirtualMachineInstanceKey :: "vsock_vmi \<Rightarrow> string" where
  "VirtualMachineInstanceKey vmi = sv_Namespace vmi @ ''/'' @ sv_Name vmi"

definition NewCIDsMap :: cids_map where
  "NewCIDsMap = \<lparr>cm_cids = [], cm_reverse = []\<rparr>"

text \<open>\<open>r\<close> is the value of \<^verbatim>\<open>rand.Uint32\<close>.\<close>

definition randCID :: "32 word \<Rightarrow> 32 word" where
  "randCID r = (if r < 3 then r + 3 else r)"

definition nextCID :: "32 word \<Rightarrow> 32 word" where
  "nextCID cur = (if cur = 0xFFFFFFFF then 3 else cur + 1)"

section \<open>Operations\<close>

definition sync_vmi :: "vsock_vmi \<Rightarrow> cids_map \<Rightarrow> cids_map" where
  "sync_vmi vmi m =
     (case sv_VSOCKCID vmi of
        None \<Rightarrow> m
      | Some cid \<Rightarrow>
          (let key = VirtualMachineInstanceKey vmi in
           \<lparr>cm_cids = put key cid (cm_cids m), cm_reverse = put cid key (cm_reverse m)\<rparr>))"

definition Sync :: "vsock_vmi list \<Rightarrow> cids_map \<Rightarrow> cids_map" where
  "Sync vmis m = fold sync_vmi vmis m"

text \<open>The search: the free id found, or that all are taken.\<close>

partial_function (option) find_free :: "(32 word, string) gomap \<Rightarrow> 32 word \<Rightarrow> 32 word \<Rightarrow> 32 word option option" where
  "find_free taken start assigned =
     (if map_of taken assigned = None then Some (Some assigned)
      else if nextCID assigned = start then Some None
      else find_free taken start (nextCID assigned))"

definition Allocate ::
  "32 word \<Rightarrow> vsock_vmi \<Rightarrow> cids_map \<Rightarrow> (go_error option \<times> vsock_vmi \<times> cids_map) option" where
  "Allocate r vmi m =
     (let key = VirtualMachineInstanceKey vmi in
      case map_of (cm_cids m) key of
        Some cid \<Rightarrow> Some (None, vmi\<lparr>sv_VSOCKCID := Some cid\<rparr>, m)
      | None \<Rightarrow>
          (case find_free (cm_reverse m) (randCID r) (randCID r) of
             None \<Rightarrow> None
           | Some None \<Rightarrow> Some (Some (Errorf ''CIDs exhausted'' []), vmi, m)
           | Some (Some assigned) \<Rightarrow>
               Some (None, vmi\<lparr>sv_VSOCKCID := Some assigned\<rparr>,
                     \<lparr>cm_cids = put key assigned (cm_cids m), cm_reverse = put assigned key (cm_reverse m)\<rparr>)))"

definition Remove :: "string \<Rightarrow> cids_map \<Rightarrow> cids_map" where
  "Remove key m =
     (case map_of (cm_cids m) key of
        None \<Rightarrow> m
      | Some cid \<Rightarrow> \<lparr>cm_cids = del key (cm_cids m), cm_reverse = del cid (cm_reverse m)\<rparr>)"

text \<open>What the controller does with the map after its start.\<close>

inductive cid_step :: "cids_map \<Rightarrow> cids_map \<Rightarrow> bool" where
  Allocates: "Allocate r vmi m = Some (err, vmi', m') \<Longrightarrow> cid_step m m'"
| Removes: "cid_step m (Remove key m)"

inductive_cases cid_stepE: "cid_step m m'"

inductive cid_run :: "cids_map \<Rightarrow> cids_map \<Rightarrow> bool" where
  Start: "cid_run m m"
| Step: "cid_run m m' \<Longrightarrow> cid_step m' m'' \<Longrightarrow> cid_run m m''"

section \<open>The cycle of ids\<close>

text \<open>The ids from 3 on are a cycle of length \<open>cycle\<close>; \<open>pos\<close> is the place of an id in it.\<close>

definition cycle :: nat where
  "cycle = 2 ^ 32 - 3"

definition pos :: "32 word \<Rightarrow> nat" where
  "pos c = unat c - 3"

lemma unat_ge_3: "3 \<le> (c :: 32 word) \<longleftrightarrow> 3 \<le> unat c"
  by (simp add: word_le_nat_alt)

lemma randCID_ge [simp]: "3 \<le> randCID r"
proof (cases "r < 3")
  case True
  then have "unat r < 3" by (simp add: word_less_nat_alt)
  then have "unat (r + 3) = unat r + 3" by (simp add: unat_word_ariths)
  then show ?thesis using True by (simp add: randCID_def unat_ge_3)
qed (auto simp: randCID_def)

lemma unat_bound: "unat (c :: 32 word) < 2 ^ 32"
  using unsigned_less [of c] by simp

lemma max_word32: "c = 0xFFFFFFFF \<longleftrightarrow> unat (c :: 32 word) = 2 ^ 32 - 1"
  by (simp add: word_unat_eq_iff)

lemma unat_nextCID: "unat (nextCID c) = (if unat c = 2 ^ 32 - 1 then 3 else unat c + 1)"
proof (cases "c = 0xFFFFFFFF")
  case False
  then have "unat c \<noteq> 2 ^ 32 - 1" by (simp only: max_word32 not_False_eq_True)
  then show ?thesis using False unat_bound [of c] by (simp add: nextCID_def unat_word_ariths)
qed (simp add: nextCID_def)

lemma nextCID_pos:
  assumes "3 \<le> c"
  shows "3 \<le> nextCID c" "pos (nextCID c) = (pos c + 1) mod cycle"
proof -
  have c: "3 \<le> unat c" "unat c \<le> 2 ^ 32 - 1" using assms unat_bound [of c] by (simp_all add: unat_ge_3)
  then show "3 \<le> nextCID c" by (simp add: unat_ge_3 unat_nextCID)
  show "pos (nextCID c) = (pos c + 1) mod cycle"
  proof (cases "unat c = 2 ^ 32 - 1")
    case False
    then have "pos c + 1 < cycle" "pos (nextCID c) = pos c + 1"
      using c by (simp_all add: pos_def cycle_def unat_nextCID)
    then show ?thesis by simp
  qed (simp add: pos_def cycle_def unat_nextCID)
qed

lemma pos_less: "pos c < cycle"
  using unat_bound [of c] by (simp add: pos_def cycle_def)

lemma pos_inj: "3 \<le> c \<Longrightarrow> 3 \<le> d \<Longrightarrow> pos c = pos d \<Longrightarrow> c = d"
  by (simp add: pos_def unat_ge_3 word_unat_eq_iff)

lemma funpow_nextCID:
  assumes "3 \<le> c"
  shows "3 \<le> (nextCID ^^ n) c \<and> pos ((nextCID ^^ n) c) = (pos c + n) mod cycle"
proof (induction n)
  case 0
  then show ?case using assms pos_less [of c] by simp
next
  case (Suc n)
  then show ?case using nextCID_pos [of "(nextCID ^^ n) c"] by (simp add: mod_Suc_eq)
qed

text \<open>Every id from 3 on is met within one turn, and the first one is met again only after it.\<close>

lemma cycle_onto:
  assumes "3 \<le> start" "3 \<le> c"
  obtains n where "n < cycle" "c = (nextCID ^^ n) start"
proof -
  let ?n = "(pos c + cycle - pos start) mod cycle"
  have "(pos start + ?n) mod cycle = pos c"
    using pos_less [of start] pos_less [of c] by (simp add: mod_add_right_eq)
  then have "c = (nextCID ^^ ?n) start"
    using funpow_nextCID [OF assms(1), of ?n] by (intro pos_inj assms) simp_all
  moreover have "?n < cycle" by (simp add: cycle_def)
  ultimately show ?thesis by (rule that [rotated])
qed

lemma cycle_returns:
  assumes "3 \<le> start" "0 < n" "n < cycle"
  shows "(nextCID ^^ n) start \<noteq> start"
proof
  assume "(nextCID ^^ n) start = start"
  then have "(pos start + n) mod cycle = pos start" using funpow_nextCID [OF assms(1), of n] by simp
  moreover have "(pos start + n) mod cycle =
      (if pos start + n < cycle then pos start + n else pos start + n - cycle)"
    using assms(3) pos_less [of start] by (simp add: mod_if le_mod_geq)
  ultimately show False using assms(2,3) by (simp split: if_splits)
qed

section \<open>The search\<close>

lemma find_free_found:
  assumes "3 \<le> start" "k \<le> n" "n < cycle" "map_of taken ((nextCID ^^ n) start) = None"
    "\<And>i. k \<le> i \<Longrightarrow> i < n \<Longrightarrow> map_of taken ((nextCID ^^ i) start) \<noteq> None"
  shows "find_free taken start ((nextCID ^^ k) start) = Some (Some ((nextCID ^^ n) start))"
  using assms(2,5)
proof (induction "n - k" arbitrary: k)
  case 0
  then show ?case using assms(4) by (subst find_free.simps) simp
next
  case (Suc d)
  then have k: "k < n" by simp
  have "map_of taken ((nextCID ^^ k) start) \<noteq> None" using Suc.prems k by simp
  moreover have "(nextCID ^^ Suc k) start \<noteq> start"
    using k assms(3) by (intro cycle_returns [OF assms(1)]) simp_all
  moreover have "find_free taken start ((nextCID ^^ Suc k) start) = Some (Some ((nextCID ^^ n) start))"
    using Suc k by (intro Suc.hyps(1)) simp_all
  ultimately show ?case by (subst find_free.simps) auto
qed

lemma find_free_exhausted:
  assumes "3 \<le> start" "k < cycle" "\<And>i. i < cycle \<Longrightarrow> map_of taken ((nextCID ^^ i) start) \<noteq> None"
  shows "find_free taken start ((nextCID ^^ k) start) = Some None"
  using assms(2)
proof (induction "cycle - Suc k" arbitrary: k)
  case 0
  then have "Suc k = cycle" by simp
  then have "(pos start + Suc k) mod cycle = pos start" using pos_less [of start] by simp
  then have "(nextCID ^^ Suc k) start = start"
    using funpow_nextCID [OF assms(1), of "Suc k"] by (intro pos_inj assms(1)) simp_all
  then show ?case using assms(3) [OF 0(2)] by (subst find_free.simps) simp
next
  case (Suc d)
  then have "Suc k < cycle" by simp
  then have "(nextCID ^^ Suc k) start \<noteq> start" by (intro cycle_returns [OF assms(1)]) simp_all
  moreover have "find_free taken start ((nextCID ^^ Suc k) start) = Some None"
    using Suc by (intro Suc.hyps(1)) simp_all
  ultimately show ?case using assms(3) [OF Suc.prems] by (subst find_free.simps) simp
qed

text \<open>The search from an id of the cycle returns: the first free id, or that there is none.\<close>

lemma find_free_cases:
  assumes "3 \<le> start"
  obtains (found) n where "n < cycle" "find_free taken start start = Some (Some ((nextCID ^^ n) start))"
      "map_of taken ((nextCID ^^ n) start) = None" "\<forall>i < n. map_of taken ((nextCID ^^ i) start) \<noteq> None"
    | (exhausted) "find_free taken start start = Some None" "\<forall>c \<ge> 3. map_of taken c \<noteq> None"
proof (cases "\<exists>n < cycle. map_of taken ((nextCID ^^ n) start) = None")
  case True
  let ?P = "\<lambda>n. n < cycle \<and> map_of taken ((nextCID ^^ n) start) = None"
  define n where "n = (LEAST n. ?P n)"
  have n: "?P n" unfolding n_def using True by (rule LeastI_ex)
  have l: "\<forall>i < n. map_of taken ((nextCID ^^ i) start) \<noteq> None"
  proof (intro allI impI)
    fix i assume "i < n"
    then have "\<not> ?P i" unfolding n_def by (rule not_less_Least)
    then show "map_of taken ((nextCID ^^ i) start) \<noteq> None" using n \<open>i < n\<close> by simp
  qed
  from find_free_found [OF assms, of 0 n taken] n l
  have "find_free taken start start = Some (Some ((nextCID ^^ n) start))" by simp
  with n l show ?thesis by (intro found) simp_all
next
  case False
  have "find_free taken start start = Some None"
    using find_free_exhausted [OF assms, of 0 taken] False by (simp add: cycle_def)
  moreover have "map_of taken c \<noteq> None" if "3 \<le> c" for c
    using that False by (metis cycle_onto [OF assms])
  ultimately show ?thesis by (intro exhausted) simp_all
qed

end
