(* ===== verification/VsockCorrect.thy ===== *)
theory VsockCorrect
  imports Vsock
begin

text \<open>
  Correctness of the VSOCK ids: the search always ends, with a free id whenever there is one, and no
  two virtual machines ever share an id.
\<close>

section \<open>The invariant\<close>

text \<open>The two maps are inverse to each other and only hold ids that a guest may have.\<close>

definition cids_ok :: "cids_map \<Rightarrow> bool" where
  "cids_ok m \<longleftrightarrow>
     (\<forall>key c. map_of (cm_cids m) key = Some c \<longleftrightarrow> map_of (cm_reverse m) c = Some key) \<and>
     (\<forall>c key. map_of (cm_reverse m) c = Some key \<longrightarrow> 3 \<le> c)"

lemma cids_okD:
  assumes "cids_ok m"
  shows "map_of (cm_cids m) key = Some c \<longleftrightarrow> map_of (cm_reverse m) c = Some key"
    "map_of (cm_reverse m) c = Some key \<Longrightarrow> 3 \<le> c"
  using assms by (auto simp: cids_ok_def)

lemma cids_ok_New: "cids_ok NewCIDsMap"
  by (simp add: cids_ok_def NewCIDsMap_def)

text \<open>A new pair of a key and an id, neither of them known.\<close>

lemma cids_ok_put:
  assumes "cids_ok m" "map_of (cm_cids m) key = None" "map_of (cm_reverse m) c = None" "3 \<le> c"
  shows "cids_ok \<lparr>cm_cids = put key c (cm_cids m), cm_reverse = put c key (cm_reverse m)\<rparr>"
  using assms cids_okD [OF assms(1)] unfolding cids_ok_def
  by (auto split: if_splits) (metis option.distinct(1))+

lemma cids_ok_Remove:
  assumes "cids_ok m"
  shows "cids_ok (Remove key m)"
proof (cases "map_of (cm_cids m) key")
  case None
  then show ?thesis using assms by (simp add: Remove_def)
next
  case (Some c)
  then have R: "Remove key m = \<lparr>cm_cids = del key (cm_cids m), cm_reverse = del c (cm_reverse m)\<rparr>"
    by (simp add: Remove_def)
  note d = cids_okD [OF assms]
  have c: "map_of (cm_reverse m) c = Some key" using Some d(1) by simp
  have "map_of (cm_cids (Remove key m)) k = Some c' \<longleftrightarrow> map_of (cm_reverse (Remove key m)) c' = Some k" for k c'
  proof (cases "k = key")
    case True
    have "map_of (cm_reverse m) c' \<noteq> Some key" if "c' \<noteq> c"
      using that Some d(1) [of key c'] by simp
    then show ?thesis using True by (cases "c' = c") (simp_all add: R)
  next
    case False
    then show ?thesis using d(1) [of k c'] c by (cases "c' = c") (simp_all add: R)
  qed
  moreover have "3 \<le> c'" if "map_of (cm_reverse (Remove key m)) c' = Some k" for c' k
    using that d(2) by (simp add: R split: if_splits)
  ultimately show ?thesis unfolding cids_ok_def by blast
qed

lemma Allocate_cases:
  assumes "map_of (cm_cids m) (VirtualMachineInstanceKey vmi) = None"
  obtains (found) n where "n < cycle" "map_of (cm_reverse m) ((nextCID ^^ n) (randCID r)) = None"
      "\<forall>i < n. map_of (cm_reverse m) ((nextCID ^^ i) (randCID r)) \<noteq> None"
      "Allocate r vmi m = Some (None, vmi\<lparr>sv_VSOCKCID := Some ((nextCID ^^ n) (randCID r))\<rparr>,
         \<lparr>cm_cids = put (VirtualMachineInstanceKey vmi) ((nextCID ^^ n) (randCID r)) (cm_cids m),
          cm_reverse = put ((nextCID ^^ n) (randCID r)) (VirtualMachineInstanceKey vmi) (cm_reverse m)\<rparr>)"
    | (exhausted) "\<forall>c \<ge> 3. map_of (cm_reverse m) c \<noteq> None"
      "Allocate r vmi m = Some (Some (Errorf ''CIDs exhausted'' []), vmi, m)"
proof (cases rule: find_free_cases [OF randCID_ge [of r], of "cm_reverse m"])
  case (1 n)
  with assms show ?thesis by (intro that(1) [of n]) (simp_all add: Allocate_def Let_def)
next
  case 2
  with assms show ?thesis by (intro that(2)) (simp_all add: Allocate_def Let_def)
qed

lemma cids_ok_Allocate:
  assumes "cids_ok m" "Allocate r vmi m = Some (err, vmi', m')"
  shows "cids_ok m'"
proof (cases "map_of (cm_cids m) (VirtualMachineInstanceKey vmi)")
  case None
  from None show ?thesis
  proof (cases rule: Allocate_cases [of m vmi r])
    case (found n)
    then show ?thesis
      using assms funpow_nextCID [OF randCID_ge, of n r] None by (simp add: cids_ok_put)
  next
    case exhausted
    then show ?thesis using assms by simp
  qed
next
  case (Some c)
  then show ?thesis using assms by (simp add: Allocate_def)
qed

lemma cid_step_ok: "cid_step m m' \<Longrightarrow> cids_ok m \<Longrightarrow> cids_ok m'"
  by (erule cid_stepE) (simp_all add: cids_ok_Allocate cids_ok_Remove)

lemma cid_run_ok: "cid_run m m' \<Longrightarrow> cids_ok m \<Longrightarrow> cids_ok m'"
  by (induction rule: cid_run.induct) (simp_all add: cid_step_ok)

section \<open>Loading the machines of the cluster\<close>

definition assigned_cids :: "vsock_vmi list \<Rightarrow> 32 word list" where
  "assigned_cids vmis = List.map_filter sv_VSOCKCID vmis"

lemma assigned_cids_simps [simp]:
  "assigned_cids [] = []"
  "assigned_cids (vmi # vmis) = (case sv_VSOCKCID vmi of None \<Rightarrow> [] | Some c \<Rightarrow> [c]) @ assigned_cids vmis"
  by (simp_all add: assigned_cids_def List.map_filter_simps split: option.split)

lemma Sync_ok:
  assumes "cids_ok m" "distinct (map VirtualMachineInstanceKey vmis)" "distinct (assigned_cids vmis)"
    "\<forall>c \<in> set (assigned_cids vmis). 3 \<le> c \<and> map_of (cm_reverse m) c = None"
    "\<forall>vmi \<in> set vmis. map_of (cm_cids m) (VirtualMachineInstanceKey vmi) = None"
  shows "cids_ok (Sync vmis m)"
  using assms
proof (induction vmis arbitrary: m)
  case (Cons vmi vmis)
  show ?case
  proof (cases "sv_VSOCKCID vmi")
    case None
    with Cons show ?thesis by (simp add: Sync_def sync_vmi_def)
  next
    case (Some c)
    let ?k = "VirtualMachineInstanceKey vmi"
    let ?m = "\<lparr>cm_cids = put ?k c (cm_cids m), cm_reverse = put c ?k (cm_reverse m)\<rparr>"
    have "cids_ok ?m" using Cons.prems Some by (intro cids_ok_put) simp_all
    moreover have "?k \<notin> VirtualMachineInstanceKey ` set vmis" "c \<notin> set (assigned_cids vmis)"
      using Cons.prems(2,3) Some by simp_all
    ultimately have "cids_ok (Sync vmis ?m)"
      using Cons.prems Some by (intro Cons.IH) auto
    then show ?thesis using Some by (simp add: Sync_def sync_vmi_def Let_def)
  qed
qed (simp add: Sync_def)

section \<open>Properties\<close>

text \<open>
  C37: Allocation always returns, whatever the random first id. It fails exactly when every id from 3
  on is taken, and then changes nothing; otherwise the machine gets the first free id in the
  cyclic order from the random one, and only its pair is added to the maps.
\<close>

theorem Allocate_total:
  assumes "map_of (cm_cids m) (VirtualMachineInstanceKey vmi) = None"
  shows "if \<forall>c \<ge> 3. map_of (cm_reverse m) c \<noteq> None
    then Allocate r vmi m = Some (Some (Errorf ''CIDs exhausted'' []), vmi, m)
    else \<exists>n c. c = (nextCID ^^ n) (randCID r) \<and> 3 \<le> c \<and> map_of (cm_reverse m) c = None \<and>
      (\<forall>i < n. map_of (cm_reverse m) ((nextCID ^^ i) (randCID r)) \<noteq> None) \<and>
      Allocate r vmi m = Some (None, vmi\<lparr>sv_VSOCKCID := Some c\<rparr>,
        \<lparr>cm_cids = put (VirtualMachineInstanceKey vmi) c (cm_cids m),
         cm_reverse = put c (VirtualMachineInstanceKey vmi) (cm_reverse m)\<rparr>)"
  using assms
proof (cases rule: Allocate_cases [of m vmi r])
  case (found n)
  then have "3 \<le> (nextCID ^^ n) (randCID r)" using funpow_nextCID [OF randCID_ge] by blast
  with found show ?thesis by (metis (no_types, lifting))
next
  case exhausted
  then show ?thesis by simp
qed

definition vmi_a :: vsock_vmi where
  "vmi_a = \<lparr>sv_Namespace = ''ns'', sv_Name = ''a'', sv_VSOCKCID = Some 0xFFFFFFFF\<rparr>"

definition vmi_b :: vsock_vmi where
  "vmi_b = \<lparr>sv_Namespace = ''ns'', sv_Name = ''b'', sv_VSOCKCID = None\<rparr>"

definition one_cid :: cids_map where
  "one_cid = Sync [vmi_a, vmi_b] NewCIDsMap"

lemma one_cid_maps:
  "cm_cids one_cid = [(''ns/a'', 0xFFFFFFFF)]" "cm_reverse one_cid = [(0xFFFFFFFF, ''ns/a'')]"
  by (simp_all add: one_cid_def Sync_def sync_vmi_def vmi_a_def vmi_b_def NewCIDsMap_def
      VirtualMachineInstanceKey_def Let_def)

theorem Allocate_total_witness:
  "\<exists>c m'. Allocate 0xFFFFFFFF vmi_b one_cid = Some (None, vmi_b\<lparr>sv_VSOCKCID := Some c\<rparr>, m') \<and> c \<noteq> 0xFFFFFFFF"
proof -
  have free: "\<not> (\<forall>c \<ge> 3. map_of (cm_reverse one_cid) c \<noteq> None)"
    by (auto simp: one_cid_maps intro!: exI [of _ 3])
  have "map_of (cm_cids one_cid) (VirtualMachineInstanceKey vmi_b) = None"
    by (simp add: one_cid_maps VirtualMachineInstanceKey_def vmi_b_def)
  from Allocate_total [OF this, of "0xFFFFFFFF"] free show ?thesis
    by (auto simp: one_cid_maps split: if_splits)
qed

text \<open>
  C21: From a start with the machines of the cluster, whose ids are different and at least 3, and
  over every history of allocations and removals, no two machines ever have the same id, no
  machine has an id below 3, and an id that is handed out belongs to no other machine.
\<close>

theorem cids_never_shared:
  assumes "distinct (map VirtualMachineInstanceKey vmis)" "distinct (assigned_cids vmis)"
    "\<forall>c \<in> set (assigned_cids vmis). 3 \<le> c" "cid_run (Sync vmis NewCIDsMap) m"
  shows "(map_of (cm_cids m) key1 = Some c \<and> map_of (cm_cids m) key2 = Some c \<longrightarrow> key1 = key2) \<and>
    (map_of (cm_cids m) key1 = Some c \<longrightarrow> 3 \<le> c) \<and>
    (Allocate r vmi m = Some (None, vmi', m') \<longrightarrow>
       (\<exists>c. sv_VSOCKCID vmi' = Some c \<and> map_of (cm_cids m') (VirtualMachineInstanceKey vmi) = Some c \<and>
          (\<forall>key. key \<noteq> VirtualMachineInstanceKey vmi \<longrightarrow> map_of (cm_cids m) key \<noteq> Some c)))"
proof -
  have "cids_ok (Sync vmis NewCIDsMap)"
    using assms(1-3) cids_ok_New by (intro Sync_ok) (simp_all add: NewCIDsMap_def)
  with assms(4) have ok: "cids_ok m" by (rule cid_run_ok)
  note d = cids_okD [OF ok]
  have "\<exists>c. sv_VSOCKCID vmi' = Some c \<and> map_of (cm_cids m') (VirtualMachineInstanceKey vmi) = Some c \<and>
          (\<forall>key. key \<noteq> VirtualMachineInstanceKey vmi \<longrightarrow> map_of (cm_cids m) key \<noteq> Some c)"
    if a: "Allocate r vmi m = Some (None, vmi', m')"
  proof (cases "map_of (cm_cids m) (VirtualMachineInstanceKey vmi)")
    case None
    from None show ?thesis by (cases rule: Allocate_cases [of m vmi r]) (use a d(1) in auto)
  next
    case (Some c)
    then have "vmi' = vmi\<lparr>sv_VSOCKCID := Some c\<rparr>" "m' = m" using a by (simp_all add: Allocate_def)
    then show ?thesis using Some d(1) by auto
  qed
  then show ?thesis using d by (metis option.inject)
qed

lemma one_cid_removed: "cid_run one_cid (Remove ''ns/b'' one_cid)"
  by (rule cid_run.Step [OF cid_run.Start]) (rule cid_step.Removes)

theorem cids_never_shared_witness:
  "map_of (cm_cids (Remove ''ns/b'' one_cid)) ''ns/a'' = Some 0xFFFFFFFF \<and> (3 :: 32 word) \<le> 0xFFFFFFFF"
proof -
  have m: "map_of (cm_cids (Remove ''ns/b'' one_cid)) ''ns/a'' = Some 0xFFFFFFFF"
    by (simp add: Remove_def one_cid_maps)
  have "distinct (map VirtualMachineInstanceKey [vmi_a, vmi_b])" "distinct (assigned_cids [vmi_a, vmi_b])"
    "\<forall>c \<in> set (assigned_cids [vmi_a, vmi_b]). 3 \<le> c"
    by (simp_all add: VirtualMachineInstanceKey_def vmi_a_def vmi_b_def)
  from cids_never_shared [OF this, folded one_cid_def, OF one_cid_removed, of "''ns/a''" "0xFFFFFFFF"] m
  show ?thesis by blast
qed

text \<open>
  The largest id, which the \<^verbatim>\<open>vsock\<close> address family reserves as the wildcard address, can be handed
  out.
\<close>

lemma allocates_any_address:
  "Allocate 0xFFFFFFFF vmi_b NewCIDsMap =
     Some (None, vmi_b\<lparr>sv_VSOCKCID := Some 0xFFFFFFFF\<rparr>,
       \<lparr>cm_cids = [(''ns/b'', 0xFFFFFFFF)], cm_reverse = [(0xFFFFFFFF, ''ns/b'')]\<rparr>)"
  by (simp add: Allocate_def find_free.simps NewCIDsMap_def randCID_def VirtualMachineInstanceKey_def
      vmi_b_def word_less_nat_alt Let_def)

end
