(* ===== verification/Spec2Isabelle.thy ===== *)
theory Spec2Isabelle
  imports ResolverCorrect RbacCorrect UsageCorrect CircuitBurst CircuitSteps VcpuPinsCorrect NumaDevices TrackerCorrect RevisionCorrect WatchCorrect
    CachedRunnerCorrect EngineProps ReplicaSetCorrect EvacuationCorrect WorkloadCorrect
    Retry TscCorrect KsmCorrect VsockCorrect
begin

text \<open>
  Verification of the control-plane logic of this repository, written in Go: Crossplane
  (\<^verbatim>\<open>src/components/crossplane\<close>), which installs packages and composes resources, and KubeVirt
  (\<^verbatim>\<open>src/components/kubevirt\<close>), which runs virtual machines on Kubernetes. Paths below are relative
  to these two directories.

  Each component has a theory that translates its code, named after the part, and one or more
  theories with its lemmas and properties (\<^verbatim>\<open>...Correct\<close>, \<^verbatim>\<open>...Props\<close> and others). Names of functions,
  types and fields are those of the source, with a prefix or suffix where a name is taken.

  \<^bold>\<open>Foundations.\<close> \<open>GoPrelude\<close>: errors as values, the parts of \<^verbatim>\<open>strings\<close> and \<^verbatim>\<open>strconv\<close> in use,
  time, 64-bit integers (\<open>wrap64\<close>) and maps as association lists with \<open>put\<close> and \<open>del\<close>.
  \<open>GoFloat\<close> and \<open>GoFloat32\<close>: 64-bit and 32-bit floats as reals that are rounded after each
  operation, with the parsing of floats.

  \<^bold>\<open>Crossplane: packages.\<close>
  \<^item> \<open>Dag\<close> models \<^verbatim>\<open>internal/dag\<close> and the package lock of \<^verbatim>\<open>apis/pkg/v1beta1/lock.go\<close>. Nodes are
    pointers, so they live in an explicit heap. \<open>DagCorrect\<close> proves what \<^verbatim>\<open>TraceNode\<close> and \<^verbatim>\<open>Sort\<close>
    compute; \<open>DagInit\<close> states the interface of a graph as a locale that both graph types
    interpret; \<open>DagProps\<close> has the properties; \<open>DagParents\<close> extends the interface by what an edge
    records of the constraints of a parent.
  \<^item> \<open>Revision\<close> models \<^verbatim>\<open>internal/controller/pkg/revision/dependency.go\<close> on top of the graph:
    \<^verbatim>\<open>Resolve\<close> and \<^verbatim>\<open>RemoveSelf\<close> with every API call. \<open>RevisionCorrect\<close> proves what a success
    guarantees, what missing dependencies lead to, and the lock that is left, against any API
    server that keeps what was written last (\<open>client_ok\<close>).
  \<^item> \<open>Resolver\<close> models \<^verbatim>\<open>internal/controller/pkg/resolver/reconciler.go\<close>, which installs what is
    missing from the lock and, with upgrades enabled, moves packages to versions all their dependants
    accept. \<open>ResolverCorrect\<close> records its writes and determines them from the lock and the registry.
  \<^item> \<open>Rbac\<close> models \<^verbatim>\<open>internal/controller/rbac\<close>: the roles rendered for providers and composite
    resource definitions, the bindings of service accounts, and the tree of granular rules.
    \<open>RbacCorrect\<close> proves which access role and binding give together, under the documented
    meaning of Kubernetes rules (\<open>rule_grants\<close>), and that the tree decides what the rules say.
  \<^item> \<open>Usage\<close> models the protection of resources in use: \<^verbatim>\<open>internal/protection\<close>, its webhook
    \<^verbatim>\<open>internal/webhook/protection/usage\<close> and its controller \<^verbatim>\<open>internal/controller/protection/usage\<close>.
    \<open>UsageServer\<close> makes the API server concrete, with failing calls; \<open>UsageCorrect\<close> has the histories
    and proves that the webhook and the controller together keep what is in use while reconciles do
    not overlap, and shows the race when they do.
  \<^item> \<open>ApiServer\<close> holds what these reconcilers share: errors, results, and the noting of calls.

  \<^bold>\<open>Crossplane: reconciling.\<close>
  \<^item> \<open>Circuit\<close> models \<^verbatim>\<open>internal/circuit\<close>, the circuit breaker between watches and reconcilers.
    \<open>CircuitCorrect\<close> has the map functions against the interface \<^verbatim>\<open>Breaker\<close> and what one event does;
    \<open>CircuitSteps\<close> interleaves the two critical sections of concurrent calls and has the invariant of
    the token buckets; \<open>CircuitBurst\<close> counts what is admitted.
  \<^item> \<open>Tracker\<close> models \<^verbatim>\<open>internal/controller/apiextensions/composite/dependency/tracker.go\<close>: which
    composite resources depend on which objects. \<open>TrackerCorrect\<close> refines the abstract view, the
    references each resource tracked last.
  \<^item> \<open>Engine\<close> models \<^verbatim>\<open>internal/engine\<close>, which starts and stops controllers and their watches, and the
    collector of watches in \<^verbatim>\<open>internal/controller/apiextensions/composite/watch/watch.go\<close>. Pointers to
    controllers live in a heap, as goroutines use them after a lock is released. \<open>EngineCorrect\<close> has
    the interface of the tracked informers, a locale that the tracking cache interprets, and which
    handlers belong to which sources; \<open>EngineSteps\<close> the histories of interleaved operations as an
    inductive relation with their invariant; \<open>EngineProps\<close> the properties, one of them composed with
    \<open>Tracker\<close>, and the races found.
  \<^item> \<open>FetchRunner\<close> models \<^verbatim>\<open>internal/xfn/required_resources.go\<close>: a composition function is called
    until all it requires has been sent to it. \<open>FetchRunnerCorrect\<close> proves that a response is
    only final then, and when the early return after the first call is sound.
  \<^item> \<open>CachedRunner\<close> models \<^verbatim>\<open>internal/xfn/cached/cached_runner.go\<close>, the cache of function responses on
    disk, and how \<^verbatim>\<open>cmd/crossplane/core\<close> puts it around the fetching runner. \<open>CachedRunnerCorrect\<close>
    proves over every history that what is served is recent and keeps the promise of that runner.
  \<^item> \<open>Conditions\<close> models \<^verbatim>\<open>apis/core/v2/condition.go\<close>, which every reconciler uses for its status.
  \<^item> \<open>Lifecycle\<close>, \<open>CronOperation\<close> and \<open>WatchOperation\<close> model \<^verbatim>\<open>internal/ops/lifecycle\<close> and the
    controllers under \<^verbatim>\<open>internal/controller/ops\<close> that create Operations on a schedule and on changes
    of watched resources; they set \<open>Conditions\<close>. \<open>CronCorrect\<close> and \<open>WatchCorrect\<close> prove that a
    schedule is followed, the concurrency policies hold and garbage collection is harmless, and
    where they do not.

  \<^bold>\<open>KubeVirt: placement on a host.\<close>
  \<^item> \<open>Vcpu\<close>, \<open>Numa\<close> and \<open>VcpuPins\<close> model \<^verbatim>\<open>pkg/virt-launcher/virtwrap/converter/vcpu/vcpu.go\<close>: the
    pool of host threads, NUMA pass-through, and the pins of emulator and I/O threads;
    \<open>IoThreads\<close> models \<^verbatim>\<open>converter/iothreads/iothreads.go\<close>. \<open>VcpuCorrect\<close>, \<open>VcpuProps\<close> and
    \<open>VcpuPinsCorrect\<close> prove that requests are fitted whenever they can be and no thread is given
    out twice (the contract of \<^verbatim>\<open>VCPUPool\<close> is a locale that the pool interprets);
    \<open>NumaCorrect\<close> proves the guest cells.
  \<^item> \<open>Hardware\<close> models \<^verbatim>\<open>pkg/util/hardware/hw_utils.go\<close>. \<open>HardwareCorrect\<close> has the round trips of
    CPU lists and PCI addresses, \<open>NumaDevices\<close> composes it with \<open>Numa\<close>.

  \<^bold>\<open>KubeVirt: controllers.\<close>
  \<^item> \<open>Expectations\<close> models \<^verbatim>\<open>pkg/controller/expectations.go\<close>. The tracking of deletions by UID is
    proved against the interface of the counters, a locale that \<^verbatim>\<open>ControllerExpectations\<close> interprets.
  \<^item> \<open>Controllers\<close> holds what the controllers below share: instances, their conditions and keys,
    batches of goroutines, and what expected creations say about objects the cache does not show.
  \<^item> \<open>RefManager\<close> models \<^verbatim>\<open>pkg/controller/controller_ref_manager.go\<close>, the claiming of objects, and
    \<open>ReplicaSet\<close> \<^verbatim>\<open>pkg/virt-controller/watch/replicaset/replicaset.go\<close>, which keeps a number of
    instances running: the handlers of the informers, scaling and the status, with the goroutines
    of a batch in any order. \<open>ReplicaSetCorrect\<close> has the histories of reconciles, informer events
    and changes on the server, the invariant that links the expectations to what the cache does not
    show yet, and the history in which expectations are lost.
  \<^item> \<open>Evacuation\<close> models \<^verbatim>\<open>pkg/virt-controller/watch/drain/evacuation/evacuation.go\<close>, which creates
    migrations for instances that must leave their node. \<open>EvacuationCorrect\<close> proves, over the
    histories of all nodes, that an instance has at most one, that none is left behind once nothing is
    expected any more, and in which histories an instance gets a second one.
  \<^item> \<open>Workload\<close> models \<^verbatim>\<open>pkg/virt-controller/watch/workload-updater/workload-updater.go\<close>, which moves
    or evicts instances after an update and aborts updates that are taken back, with its goroutines
    and their channel. \<open>WorkloadCorrect\<close> determines its writes, proves that evictions are rationed over
    time, and when a reconcile returns.
  \<^item> \<open>Tsc\<close> models \<^verbatim>\<open>pkg/virt-controller/watch/topology\<close>: the clock frequency a machine is hinted and
    the labels that let it be scheduled. \<open>TscCorrect\<close> proves the labels, in exact integers although
    the code computes the tolerance in floats, and that labelling settles.
  \<^item> \<open>Vsock\<close> models \<^verbatim>\<open>pkg/virt-controller/watch/vsock/vsock.go\<close>. \<open>VsockCorrect\<close> proves that the
    search for a free id ends, and that ids are never shared.
  \<^item> \<open>Retry\<close> models \<^verbatim>\<open>pkg/virt-handler/retry_manager.go\<close>, the back-off of a repair, as a step relation
    with an invariant.
  \<^item> \<open>Ksm\<close> models \<^verbatim>\<open>pkg/virt-handler/ksm/ksm.go\<close>, which tunes the merging of memory pages.
    \<open>KsmCorrect\<close> bounds the pages over every history, by what the node's parameters allow, and proves
    when merging stops.

  \<^bold>\<open>Conventions.\<close> A method that changes its receiver returns the new state; the state of the outside
  world is threaded through as \<open>'w\<close>. What a lock protects is one
  step, and where a call takes locks more than once its steps are interleaved (\<open>CircuitSteps\<close>,
  \<open>EngineSteps\<close>). A reconcile is one step of the
  histories of usages, replica sets, evacuations and updates, and reads its caches at one moment. The
  work queue runs one reconcile per key at a time, but those of different keys can overlap in the
  code; the histories exclude that, and \<open>release_race\<close> in \<open>UsageCorrect\<close> shows what it can break. Clock readings, random
  numbers, answers of the API server and of libraries outside the repository are arguments, with
  their documented behaviour as named hypotheses where a property needs it. The order in which a
  map is ranged over is the order of the list or an argument, and the properties hold for all
  orders. Log lines, events and metrics are left out, except the metrics of the circuit
  breaker and of the engine.

  \<^bold>\<open>Bounds and fuel.\<close> No model runs out of fuel: loops are structural recursions, functions with a
  measure, or, for the search for a VSOCK id, a partial function that is proved to return. The
  graph traversals end because a visited set grows within the finite graph. Integers wrap where
  the code could overflow; the properties state the ranges they need. The floats have no smallest
  exponent, so numbers close to zero keep their precision.

  \<^bold>\<open>Not modelled.\<close> The package establisher and the reconcilers of packages, composites and
  claims in Crossplane; the controllers of virtual machines, instances, migrations,
  pools and disruption budgets, the virt-handler and virt-launcher around the parts above, the
  operator, KubeVirt's webhooks, networking and storage in KubeVirt. Most are sequences of API calls
  around the parts that are modelled; the migration controller
  and pools have logic of their own. Generated code, vendored
  libraries, tests, tools and the JavaScript back end under \<^verbatim>\<open>src/platform\<close> are out of scope.
\<close>

end
